(* ===== verification/Win_Prelude.thy ===== *)
theory Win_Prelude
  imports Main "HOL-Library.Word" "HOL-Library.AList"
begin

text \<open>
  The vocabulary the components share: machine integers and strings, little-endian reads from a byte
  buffer, the text helpers that put names together, the hash tables of the C++ library as association
  lists, and three interfaces that several components implement:
  \<^item> \<open>byte_window\<close>: a bounds-checked reader of a buffer;
  \<^item> \<open>keyed_table\<close>: a hash table (\<open>find\<close>, \<open>operator[]\<close>, \<open>erase\<close>);
  \<^item> \<open>ledger\<close>: a table of counters fed by events, where nothing is lost or counted twice.
  A \<open>wchar_t\<close> is a 16-bit UTF-16 unit, as on Windows; \<open>size_t\<close> values (64 bits) that cannot wrap are \<open>nat\<close>.
\<close>

unbundle bit_operations_syntax

named_theorems in_bounds \<open>a successful read lies inside its buffer\<close>
named_theorems table_laws \<open>what a hash table operation does to lookups and keys\<close>
named_theorems keeps_inv \<open>an operation keeps its component's invariant\<close>

section \<open>Integers and strings\<close>

type_synonym byte = "8 word"
type_synonym u16 = "16 word"
type_synonym u32 = "32 word"
type_synonym u64 = "64 word"
type_synonym wstr = "16 word list"
type_synonym bytes = "8 word list"

text \<open>The literals \<open>L"..."\<close> (UTF-16) and \<open>"..."\<close> (bytes) of the source.\<close>

definition wide :: "string \<Rightarrow> wstr" where
  "wide s = map of_char s"

definition narrow :: "string \<Rightarrow> bytes" where
  "narrow s = map of_char s"

text \<open>A literal with backslashes, which the model writes as slashes.\<close>

definition wide_path :: "string \<Rightarrow> wstr" where
  "wide_path s = map (\<lambda>c. if c = CHR ''/'' then 0x5C else of_char c) s"

lemma wide_append: "wide (s @ t) = wide s @ wide t"
  by (simp add: wide_def)

lemma wide_Nil [simp]: "wide [] = []"
  by (simp add: wide_def)

lemma wide_eq_Nil [simp]: "wide s = [] \<longleftrightarrow> s = []"
  by (simp add: wide_def)

text \<open>Names put one after another with a separator, as the source's \<open>if (!text.empty()) text += sep\<close> loops do.\<close>

fun join :: "'a list \<Rightarrow> 'a list list \<Rightarrow> 'a list" where
  "join sep [] = []"
| "join sep [x] = x"
| "join sep (x # y # zs) = x @ sep @ join sep (y # zs)"

definition add_name :: "'a list \<Rightarrow> 'a list \<Rightarrow> 'a list \<Rightarrow> 'a list" where
  "add_name sep text name = (if text = [] then name else text @ sep @ name)"

lemma join_snoc: "xs \<noteq> [] \<Longrightarrow> join sep (xs @ [x]) = join sep xs @ sep @ x"
proof (induction sep xs rule: join.induct)
  case (3 sep x y zs)
  then show ?case by (cases zs) auto
qed auto

lemma join_eq_Nil: "\<forall>x \<in> set xs. x \<noteq> [] \<Longrightarrow> join sep xs = [] \<longleftrightarrow> xs = []"
  by (induction sep xs rule: join.induct) auto

text \<open>Non-empty names appended one by one are the names joined.\<close>

lemma fold_add_name_aux:
  "\<forall>x \<in> set (xs @ ys). x \<noteq> [] \<Longrightarrow> foldl (add_name sep) (join sep xs) ys = join sep (xs @ ys)"
proof (induction ys arbitrary: xs)
  case (Cons y ys)
  have "add_name sep (join sep xs) y = join sep (xs @ [y])"
    using Cons.prems by (cases "xs = []") (auto simp: add_name_def join_snoc join_eq_Nil)
  with Cons.IH [of "xs @ [y]"] Cons.prems show ?case by simp
qed simp

lemma fold_add_name: "\<forall>x \<in> set ys. x \<noteq> [] \<Longrightarrow> foldl (add_name sep) [] ys = join sep ys"
  using fold_add_name_aux [of "[]" ys sep] by simp

section \<open>Little-endian values in a byte buffer\<close>

fun le_nat :: "bytes \<Rightarrow> nat" where
  "le_nat [] = 0"
| "le_nat (b # bs) = unat b + 256 * le_nat bs"

lemma unat_less_2p: "unat (w :: 'a::len word) < 2 ^ LENGTH('a)"
  by (rule unsigned_less)

lemma le_nat_bound: "le_nat bs < 256 ^ length bs"
proof (induction bs)
  case (Cons b bs)
  have "unat b < 256" using unat_less_2p [of b] by simp
  with Cons show ?case by simp
qed simp

fun le_bytes :: "nat \<Rightarrow> nat \<Rightarrow> bytes" where
  "le_bytes 0 v = []"
| "le_bytes (Suc n) v = of_nat (v mod 256) # le_bytes n (v div 256)"

lemma length_le_bytes [simp]: "length (le_bytes n v) = n"
  by (induction n arbitrary: v) auto

lemma le_nat_le_bytes: "le_nat (le_bytes n v) = v mod 256 ^ n"
proof (induction n arbitrary: v)
  case (Suc n)
  have "unat (of_nat (v mod 256) :: byte) = v mod 256" by (simp add: unat_of_nat)
  with Suc show ?case by (simp add: mod_mult2_eq [of v 256 "256 ^ n"])
qed simp

text \<open>The \<open>memcpy\<close> of a field at an offset of a structure's bytes.\<close>

definition u8_at :: "bytes \<Rightarrow> nat \<Rightarrow> byte" where
  "u8_at s k = of_nat (le_nat (take 1 (drop k s)))"

definition u16_at :: "bytes \<Rightarrow> nat \<Rightarrow> u16" where
  "u16_at s k = of_nat (le_nat (take 2 (drop k s)))"

definition u32_at :: "bytes \<Rightarrow> nat \<Rightarrow> u32" where
  "u32_at s k = of_nat (le_nat (take 4 (drop k s)))"

definition u64_at :: "bytes \<Rightarrow> nat \<Rightarrow> u64" where
  "u64_at s k = of_nat (le_nat (take 8 (drop k s)))"

lemmas field_defs = u8_at_def u16_at_def u32_at_def u64_at_def

lemma u32_at_le_bytes: "u32_at (le_bytes 4 (unat (w :: u32))) 0 = w"
proof -
  have "unat w mod 256 ^ 4 = unat w" using unat_less_2p [of w] by simp
  then show ?thesis by (simp add: u32_at_def le_nat_le_bytes)
qed

lemma u16_at_le_bytes: "u16_at (le_bytes 2 (unat (w :: u16))) 0 = w"
proof -
  have "unat w mod 256 ^ 2 = unat w" using unat_less_2p [of w] by simp
  then show ?thesis by (simp add: u16_at_def le_nat_le_bytes)
qed

text \<open>The UTF-16 units of a run of bytes.\<close>

fun units :: "bytes \<Rightarrow> wstr" where
  "units (a # b # bs) = of_nat (unat a + 256 * unat b) # units bs"
| "units _ = []"

lemma length_units: "length (units bs) = length bs div 2"
  by (induction bs rule: units.induct) auto

lemma units_take: "units (take k bs) = take (k div 2) (units bs)"
proof (induction bs arbitrary: k rule: units.induct)
  case (1 a b bs)
  consider "k < 2" | j where "k = Suc (Suc j)" by (metis Suc_1 less_2_cases_iff not_less_eq old.nat.exhaust)
  then show ?case
  proof cases
    case 1
    then have "k = 0 \<or> k = Suc 0" by linarith
    then show ?thesis by auto
  next
    case 2
    then show ?thesis using "1.IH" [of j] by simp
  qed
qed (auto simp: take_Cons split: nat.split)

text \<open>The bytes of a text, and back.\<close>

definition wide_bytes :: "wstr \<Rightarrow> bytes" where
  "wide_bytes s = concat (map (\<lambda>c. le_bytes 2 (unat c)) s)"

lemma length_wide_bytes [simp]: "length (wide_bytes s) = 2 * length s"
  by (induction s) (auto simp: wide_bytes_def)

lemma wide_bytes_Cons: "wide_bytes (c # s) = of_nat (unat c mod 256) # of_nat (unat c div 256 mod 256) # wide_bytes s"
proof -
  have "le_bytes (Suc (Suc 0)) n = [of_nat (n mod 256), of_nat (n div 256 mod 256)]" for n by simp
  then show ?thesis by (simp add: wide_bytes_def numeral_2_eq_2)
qed

lemma unit_of_bytes: "of_nat (unat (of_nat (unat c mod 256) :: byte) + 256 * unat (of_nat (unat c div 256 mod 256) :: byte)) = (c :: u16)"
proof -
  have "unat c < 65536" using unat_less_2p [of c] by simp
  then have "unat c div 256 < 256" by (simp add: less_mult_imp_div_less)
  then show ?thesis by (simp add: unat_of_nat flip: of_nat_mult of_nat_add)
qed

lemma units_wide_bytes: "units (wide_bytes s @ r) = s @ units r"
proof (induction s)
  case (Cons c s)
  then show ?case by (simp add: wide_bytes_Cons unit_of_bytes del: of_nat_add)
qed (simp add: wide_bytes_def)

definition not_nul :: "'a::zero \<Rightarrow> bool" where
  "not_nul c \<longleftrightarrow> c \<noteq> 0"

text \<open>\<open>strnlen\<close> and \<open>wcsnlen\<close>: the characters before the first NUL, at most \<open>n\<close> of them.\<close>

definition until_nul :: "nat \<Rightarrow> 'a::zero list \<Rightarrow> 'a list" where
  "until_nul n s = takeWhile not_nul (take n s)"

lemma length_until_nul: "length (until_nul n s) \<le> n"
  unfolding until_nul_def by (rule order_trans [OF length_takeWhile_le]) simp

lemma until_nul_le: "length (until_nul n s) \<le> length s"
  unfolding until_nul_def by (rule order_trans [OF length_takeWhile_le]) simp

lemma zero_notin_until_nul: "0 \<notin> set (until_nul n s)"
  by (auto simp: until_nul_def not_nul_def dest: set_takeWhileD)

lemma until_nul_prefix: "take (length (until_nul n s)) s = until_nul n s"
proof -
  have "until_nul n s = take (length (until_nul n s)) (take n s)"
    unfolding until_nul_def by (rule takeWhile_eq_take)
  also have "\<dots> = take (length (until_nul n s)) s"
    using length_until_nul [of n s] by (simp add: min_def)
  finally show ?thesis ..
qed

text \<open>A \<open>GUID\<close>, and its 16 bytes in a structure.\<close>

record GUID =
  Data1 :: u32
  Data2 :: u16
  Data3 :: u16
  Data4 :: bytes

definition make_guid :: "u32 \<Rightarrow> u16 \<Rightarrow> u16 \<Rightarrow> bytes \<Rightarrow> GUID" where
  "make_guid a b c d = \<lparr>Data1 = a, Data2 = b, Data3 = c, Data4 = d\<rparr>"

definition guid_at :: "bytes \<Rightarrow> GUID" where
  "guid_at d = make_guid (u32_at d 0) (u16_at d 4) (u16_at d 6) (take 8 (drop 8 d))"

text \<open>\<open>iswxdigit\<close>\<close>

definition iswxdigit :: "16 word \<Rightarrow> bool" where
  "iswxdigit c \<longleftrightarrow> (0x30 \<le> c \<and> c \<le> 0x39) \<or> (0x41 \<le> c \<and> c \<le> 0x46) \<or> (0x61 \<le> c \<and> c \<le> 0x66)"

section \<open>Bounded loops over a table\<close>

text \<open>
  The loop the parsers share: entries \<open>i, i + 1, \<dots>\<close> up to a limit, cut at the first that is missing
  (\<open>for (i = 0; i < n; i++) { if (!read(i)) break; list.push_back(...); }\<close>).
\<close>

function entries_from :: "(nat \<Rightarrow> 'a option) \<Rightarrow> nat \<Rightarrow> nat \<Rightarrow> 'a list" where
  "entries_from f n i =
     (if i < n then (case f i of None \<Rightarrow> [] | Some x \<Rightarrow> x # entries_from f n (Suc i)) else [])"
  by pat_completeness auto
termination
  by (relation "measure (\<lambda>(f, n, i). n - i)") auto

declare entries_from.simps [simp del]

lemma entries_from_beyond [simp]: "\<not> i < n \<Longrightarrow> entries_from f n i = []"
  by (subst entries_from.simps) simp

lemma entries_from_step:
  "i < n \<Longrightarrow> entries_from f n i = (case f i of None \<Rightarrow> [] | Some x \<Rightarrow> x # entries_from f n (Suc i))"
  by (subst entries_from.simps) simp

lemma length_entries_from: "length (entries_from f n i) \<le> n - i"
proof (induction f n i rule: entries_from.induct)
  case (1 f n i)
  then show ?case by (subst entries_from.simps) (auto split: option.splits)
qed

text \<open>The entries are those of an initial run of indices, and the run only ends at the limit or a missing entry.\<close>

lemma entries_from_run:
  "i \<le> n \<Longrightarrow>
   (\<forall>k < length (entries_from f n i). f (i + k) = Some (entries_from f n i ! k)) \<and>
   (length (entries_from f n i) = n - i \<or> f (i + length (entries_from f n i)) = None)"
proof (induction f n i rule: entries_from.induct)
  case (1 f n i)
  show ?case
  proof (cases "i < n")
    case True
    show ?thesis
    proof (cases "f i")
      case None
      with True show ?thesis by (simp add: entries_from_step)
    next
      case (Some x)
      note IH = "1.IH" [OF True Some]
      have "f (i + k) = Some ((x # entries_from f n (Suc i)) ! k)"
        if "k < Suc (length (entries_from f n (Suc i)))" for k
        using IH that True Some by (cases k) auto
      then show ?thesis using IH True Some by (auto simp: entries_from_step)
    qed
  qed (use 1 in simp)
qed

lemma list_all_entries_from:
  "(\<And>i x. f i = Some x \<Longrightarrow> P x) \<Longrightarrow> list_all P (entries_from f n i)"
proof (induction f n i rule: entries_from.induct)
  case (1 f n i)
  then show ?case by (subst entries_from.simps) (auto split: option.splits)
qed

section \<open>A bounds-checked reader\<close>

text \<open>
  \<open>rd off n\<close> is what the component's accessor gives for \<open>n\<close> bytes at \<open>off\<close> of a buffer: the bytes
  when they all lie inside it, nothing otherwise.
\<close>

locale byte_window =
  fixes buffer :: bytes
    and rd :: "nat \<Rightarrow> nat \<Rightarrow> bytes option"
  assumes rd_inside: "off + n \<le> length buffer \<Longrightarrow> rd off n = Some (take n (drop off buffer))"
    and rd_outside: "\<not> off + n \<le> length buffer \<Longrightarrow> rd off n = None"
begin

lemma rd_iff: "rd off n = Some s \<longleftrightarrow> off + n \<le> length buffer \<and> s = take n (drop off buffer)"
  using rd_inside rd_outside by (cases "off + n \<le> length buffer") auto

lemma rd_length: "rd off n = Some s \<Longrightarrow> length s = n"
  by (auto simp: rd_iff)

lemma rd_fits: "rd off n = Some s \<Longrightarrow> off + n \<le> length buffer"
  by (simp add: rd_iff)

lemma rd_shorter: "rd off n = Some s \<Longrightarrow> m \<le> n \<Longrightarrow> rd off m = Some (take m s)"
  by (auto simp: rd_iff min_def)

lemma rd_split:
  "rd off (m + n) = Some s \<Longrightarrow> rd off m = Some (take m s) \<and> rd (off + m) n = Some (drop m s)"
  by (auto simp: rd_iff take_drop ac_simps)

lemma rd_None_mono: "rd off n = None \<Longrightarrow> n \<le> m \<Longrightarrow> rd off m = None"
  using rd_inside [of off n] by (intro rd_outside) auto

end

section \<open>Hash tables\<close>

text \<open>
  A \<open>std::unordered_map\<close> is an association list with distinct keys. The order in which the C++ map
  iterates is not specified; the model iterates in the list's order, and no property depends on it.
\<close>

type_synonym ('k, 'v) table = "('k \<times> 'v) list"

definition tfind :: "('k, 'v) table \<Rightarrow> 'k \<Rightarrow> 'v option" where
  "tfind m k = map_of m k"

text \<open>\<open>m[k] = v\<close>\<close>

definition tset :: "'k \<Rightarrow> 'v \<Rightarrow> ('k, 'v) table \<Rightarrow> ('k, 'v) table" where
  "tset k v m = AList.update k v m"

text \<open>\<open>m.insert({k, v})\<close> and \<open>try_emplace\<close>: an entry that is already there stays.\<close>

definition tinsert :: "'k \<Rightarrow> 'v \<Rightarrow> ('k, 'v) table \<Rightarrow> ('k, 'v) table" where
  "tinsert k v m = (case map_of m k of None \<Rightarrow> m @ [(k, v)] | Some _ \<Rightarrow> m)"

definition terase :: "'k \<Rightarrow> ('k, 'v) table \<Rightarrow> ('k, 'v) table" where
  "terase k m = AList.delete k m"

text \<open>\<open>std::erase_if\<close>\<close>

definition terase_if :: "('k \<times> 'v \<Rightarrow> bool) \<Rightarrow> ('k, 'v) table \<Rightarrow> ('k, 'v) table" where
  "terase_if P m = filter (\<lambda>e. \<not> P e) m"

definition tkeys :: "('k, 'v) table \<Rightarrow> 'k set" where
  "tkeys m = fst ` set m"

definition table_ok :: "('k, 'v) table \<Rightarrow> bool" where
  "table_ok m \<longleftrightarrow> distinct (map fst m)"

lemmas table_defs = tfind_def tset_def tinsert_def terase_def terase_if_def

lemma tfind_Nil [simp]: "tfind [] k = None"
  by (simp add: tfind_def)

lemma table_ok_Nil [simp]: "table_ok []"
  by (simp add: table_ok_def)

lemma tkeys_Nil [simp]: "tkeys [] = {}"
  by (simp add: tkeys_def)

lemma tkeys_iff: "k \<in> tkeys m \<longleftrightarrow> (\<exists>v. tfind m k = Some v)"
  unfolding tkeys_def tfind_def
  by (metis domD domI dom_map_of_conv_image_fst)

lemma tkeys_none: "k \<notin> tkeys m \<longleftrightarrow> tfind m k = None"
  by (auto simp: tkeys_iff)

lemma tfind_tset [simp, table_laws]: "tfind (tset k v m) = (tfind m)(k \<mapsto> v)"
  unfolding tfind_def tset_def by (rule ext) (simp add: update_conv)

lemma tfind_tinsert [simp, table_laws]:
  "tfind (tinsert k v m) k' = (if k' = k \<and> tfind m k = None then Some v else tfind m k')"
  by (auto simp: tfind_def tinsert_def map_add_def split: option.splits)

lemma tfind_terase [simp, table_laws]: "tfind (terase k m) k' = (if k' = k then None else tfind m k')"
  unfolding tfind_def terase_def by (simp add: delete_conv')

lemma table_ok_tset [simp, table_laws]: "table_ok m \<Longrightarrow> table_ok (tset k v m)"
  unfolding table_ok_def tset_def by (rule distinct_update)

lemma table_ok_tinsert [simp, table_laws]: "table_ok m \<Longrightarrow> table_ok (tinsert k v m)"
  by (auto simp: table_ok_def tinsert_def map_of_eq_None_iff split: option.splits)

lemma table_ok_terase [simp, table_laws]: "table_ok m \<Longrightarrow> table_ok (terase k m)"
  unfolding table_ok_def terase_def by (rule distinct_delete)

lemma table_ok_terase_if [simp, table_laws]: "table_ok m \<Longrightarrow> table_ok (terase_if P m)"
  by (induction m) (auto simp: table_ok_def terase_if_def)

lemma tkeys_tset [simp, table_laws]: "tkeys (tset k v m) = insert k (tkeys m)"
  by (auto simp: tkeys_iff split: if_splits)

lemma tkeys_terase [simp, table_laws]: "tkeys (terase k m) = tkeys m - {k}"
  by (auto simp: tkeys_iff split: if_splits)

lemma tkeys_tinsert [simp, table_laws]: "tkeys (tinsert k v m) = insert k (tkeys m)"
  by (auto simp: tkeys_iff split: if_splits)

lemma tfind_in_set: "tfind m k = Some v \<Longrightarrow> (k, v) \<in> set m"
  by (simp add: tfind_def map_of_SomeD)

lemma in_set_tfind: "table_ok m \<Longrightarrow> (k, v) \<in> set m \<Longrightarrow> tfind m k = Some v"
  by (simp add: tfind_def table_ok_def)

lemma tfind_terase_if [table_laws]:
  "table_ok m \<Longrightarrow> tfind (terase_if P m) k =
     (case tfind m k of None \<Rightarrow> None | Some v \<Rightarrow> if P (k, v) then None else Some v)"
proof (induction m)
  case (Cons e m)
  obtain a b where e: "e = (a, b)" by force
  have ok: "table_ok m" "a \<notin> fst ` set m"
    using Cons.prems by (auto simp: e table_ok_def)
  have "map_of (filter (\<lambda>e. \<not> P e) m) a = None"
    using ok(2) by (auto simp: map_of_eq_None_iff)
  moreover have "map_of m a = None"
    using ok(2) by (auto simp: map_of_eq_None_iff)
  ultimately show ?case using Cons.IH ok(1) by (auto simp: e tfind_def terase_if_def)
qed (simp add: terase_if_def)

text \<open>The interface the components' proofs use.\<close>

locale keyed_table =
  fixes look :: "'t \<Rightarrow> 'k \<Rightarrow> 'v option"
    and store :: "'k \<Rightarrow> 'v \<Rightarrow> 't \<Rightarrow> 't"
    and remove :: "'k \<Rightarrow> 't \<Rightarrow> 't"
    and entries :: "'t \<Rightarrow> ('k \<times> 'v) list"
    and ok :: "'t \<Rightarrow> bool"
  assumes look_store: "look (store k v t) k' = (if k' = k then Some v else look t k')"
    and look_remove: "look (remove k t) k' = (if k' = k then None else look t k')"
    and ok_store: "ok t \<Longrightarrow> ok (store k v t)"
    and ok_remove: "ok t \<Longrightarrow> ok (remove k t)"
    and look_entries: "ok t \<Longrightarrow> look t k = Some v \<longleftrightarrow> (k, v) \<in> set (entries t)"
    and distinct_entries: "ok t \<Longrightarrow> distinct (map fst (entries t))"
begin

text \<open>A total over the entries, and how a store or a removal changes it.\<close>

definition total :: "('k \<times> 'v \<Rightarrow> 'm::comm_monoid_add) \<Rightarrow> 't \<Rightarrow> 'm" where
  "total f t = sum_list (map f (entries t))"

lemma total_sum: "ok t \<Longrightarrow> total f t = sum f (set (entries t))"
  unfolding total_def
  by (rule sum_list_distinct_conv_sum_set) (use distinct_entries distinct_map in blast)

lemma entries_store_fresh:
  "ok t \<Longrightarrow> look t k = None \<Longrightarrow> set (entries (store k v t)) = insert (k, v) (set (entries t))"
  by (auto simp: look_entries [symmetric] ok_store look_store split: if_splits)

lemma entries_remove:
  "ok t \<Longrightarrow> set (entries (remove k t)) = {e \<in> set (entries t). fst e \<noteq> k}"
  by (auto simp: look_entries [symmetric] ok_remove look_remove split: if_splits)

lemma entries_store:
  "ok t \<Longrightarrow> set (entries (store k v t)) = insert (k, v) {e \<in> set (entries t). fst e \<noteq> k}"
  by (auto simp: look_entries [symmetric] ok_store look_store split: if_splits)

lemma total_store_fresh:
  assumes "ok t" and "look t k = None"
  shows "total f (store k v t) = total f t + f (k, v)"
proof -
  have "(k, v) \<notin> set (entries t)" using assms by (auto simp: look_entries [symmetric])
  then show ?thesis
    using assms by (simp add: total_sum ok_store entries_store_fresh add.commute)
qed

lemma total_remove:
  assumes "ok t" and "look t k = Some v"
  shows "total f t = total f (remove k t) + f (k, v)"
proof -
  have "set (entries t) = insert (k, v) (set (entries (remove k t)))"
    using assms by (auto simp: entries_remove look_entries [symmetric])
  moreover have "(k, v) \<notin> set (entries (remove k t))"
    using assms by (auto simp: entries_remove)
  ultimately show ?thesis
    using assms by (simp add: total_sum ok_remove add.commute)
qed

lemma total_store_old:
  assumes "ok t" and "look t k = Some v0"
  shows "total f (store k v t) + f (k, v0) = total f t + f (k, v)"
proof -
  have "set (entries (store k v t)) = insert (k, v) (set (entries (remove k t)))"
    using assms by (simp add: entries_store entries_remove)
  moreover have "(k, v) \<notin> set (entries (remove k t))"
    using assms by (auto simp: entries_remove)
  ultimately have "total f (store k v t) = total f (remove k t) + f (k, v)"
    using assms by (simp add: total_sum ok_store ok_remove add.commute)
  then show ?thesis using total_remove [OF assms, of f] by (simp add: ac_simps)
qed

text \<open>\<open>t[k]\<close> made or taken, then changed: the total grows by what the entry does.\<close>

lemma total_bump:
  fixes f :: "'k \<times> 'v \<Rightarrow> 'm::cancel_comm_monoid_add"
  assumes "ok t" and "f (k, d) = 0"
    and "f (k, v') = f (k, case look t k of None \<Rightarrow> d | Some v \<Rightarrow> v) + w"
  shows "total f (store k v' t) = total f t + w"
proof (cases "look t k")
  case None
  then show ?thesis using assms total_store_fresh [OF assms(1) None, of f v'] by simp
next
  case (Some v)
  then have "total f (store k v' t) + f (k, v) = (total f t + w) + f (k, v)"
    using assms total_store_old [OF assms(1) Some, of f v'] by (simp add: ac_simps)
  then show ?thesis by simp
qed

end

interpretation htab: keyed_table tfind tset terase "\<lambda>m. m" table_ok
proof unfold_locales
  fix t :: "('k \<times> 'v) list" and k v
  show "table_ok t \<Longrightarrow> tfind t k = Some v \<longleftrightarrow> (k, v) \<in> set t"
    by (auto dest: tfind_in_set in_set_tfind)
qed (auto simp: table_ok_def [symmetric] fun_upd_apply)

section \<open>Event ledgers\<close>

text \<open>
  A table of counters fed by events: \<open>amount s\<close> is what the state accounts for and \<open>weight e\<close> what an
  event brings. When each step adds exactly its event's weight, a whole run adds the sum.
\<close>

locale ledger =
  fixes step :: "'e \<Rightarrow> 's \<Rightarrow> 's"
    and amount :: "'s \<Rightarrow> 'm::comm_monoid_add"
    and weight :: "'e \<Rightarrow> 'm"
    and sound :: "'s \<Rightarrow> bool"
  assumes step_sound: "sound s \<Longrightarrow> sound (step e s)"
    and step_amount: "sound s \<Longrightarrow> amount (step e s) = amount s + weight e"
begin

lemma run_sound: "sound s \<Longrightarrow> sound (fold step es s)"
  by (induction es arbitrary: s) (auto simp: step_sound)

lemma run_amount: "sound s \<Longrightarrow> amount (fold step es s) = amount s + sum_list (map weight es)"
  by (induction es arbitrary: s) (auto simp: step_sound step_amount ac_simps)

end

section \<open>Snapshot diffs\<close>

text \<open>
  A component that lists something again and again and reports what came and what went: \<open>scan s xs\<close> is the
  state after a scan that saw \<open>xs\<close>; \<open>known\<close> looks a key up in the last scan, and \<open>listed\<close>, \<open>fresh\<close> and
  \<open>gone\<close> are the keys of the three lists it offers.
\<close>

locale snapshot_diff =
  fixes scan :: "'i list \<Rightarrow> 's \<Rightarrow> 's"
    and key :: "'i \<Rightarrow> 'k"
    and known :: "'s \<Rightarrow> 'k \<Rightarrow> bool"
    and listed fresh gone :: "'s \<Rightarrow> 'k list"
    and ok :: "'s \<Rightarrow> bool"
  assumes ok_scan: "ok s \<Longrightarrow> ok (scan xs s)"
    and listed_scan: "ok s \<Longrightarrow> listed (scan xs s) = map key xs"
    and known_scan: "ok s \<Longrightarrow> known (scan xs s) k \<longleftrightarrow> k \<in> key ` set xs"
    and fresh_scan: "ok s \<Longrightarrow> distinct (map key xs) \<Longrightarrow> fresh (scan xs s) = filter (\<lambda>k. \<not> known s k) (map key xs)"
    and gone_scan: "ok s \<Longrightarrow> set (gone (scan xs s)) = {k. known s k \<and> k \<notin> key ` set xs}"
begin

text \<open>What was known and what is new together are what is known now and what is gone.\<close>

lemma balance:
  assumes "ok s" and "distinct (map key xs)"
  shows "{k. known s k} \<union> set (fresh (scan xs s)) = {k. known (scan xs s) k} \<union> set (gone (scan xs s))"
  using assms by (auto simp: known_scan fresh_scan gone_scan)

lemma fresh_not_gone:
  assumes "ok s" and "distinct (map key xs)"
  shows "set (fresh (scan xs s)) \<inter> set (gone (scan xs s)) = {}"
  using assms by (auto simp: fresh_scan gone_scan)

text \<open>A second scan that sees the same things reports nothing.\<close>

lemma rescan:
  assumes "ok s" and "distinct (map key xs)"
  shows "fresh (scan xs (scan xs s)) = [] \<and> gone (scan xs (scan xs s)) = []"
proof -
  have "set (gone (scan xs (scan xs s))) = {}"
    using assms by (auto simp: gone_scan known_scan ok_scan)
  then show ?thesis using assms by (simp add: fresh_scan known_scan ok_scan filter_empty_conv)
qed

text \<open>Something new that the next scan does not see is gone then.\<close>

lemma fresh_then_gone:
  assumes "ok s" and "distinct (map key xs)" and "k \<in> set (fresh (scan xs s))" and "k \<notin> key ` set ys"
  shows "k \<in> set (gone (scan ys (scan xs s)))"
  using assms by (auto simp: fresh_scan gone_scan known_scan ok_scan)

end

end
