(* ===== verification/PE_File.thy ===== *)
theory PE_File
  imports Win_Prelude
begin

text \<open>
  A PE image file (\<open>WinSys/PEFile.cpp\<close>, class \<open>PEFile\<close>): the headers and sections \<open>Parse\<close> takes from
  the bytes, the reading of a file by \<open>Load\<close>, the address translation \<open>RvaToOffset\<close>, the string reads and
  the checksum. The buffer is a list of bytes; \<open>At\<close> gives a structure's bytes, from which the fields are
  read at the offsets the PE/COFF specification (\<open>winnt.h\<close>) gives them.
\<close>

section \<open>The file's limits and its data\<close>

definition MaxSections :: nat where "MaxSections = 96"
definition MaxLibraries :: nat where "MaxLibraries = 4096"
definition MaxThunks :: nat where "MaxThunks = 65536"
definition MaxExports :: nat where "MaxExports = 1048576"
definition MaxFileSize :: nat where "MaxFileSize = 1073741824"

lemmas limit_defs = MaxSections_def MaxLibraries_def MaxThunks_def MaxExports_def MaxFileSize_def

record PEDataDirectory =
  d_Rva :: u32
  d_Size :: u32

record PEHeaders =
  h_Is64 :: bool
  h_Machine :: u16
  h_NumberOfSections :: u16
  h_TimeDateStamp :: u32
  h_Characteristics :: u16
  h_LinkerMajor :: byte
  h_LinkerMinor :: byte
  h_EntryPoint :: u32
  h_ImageBase :: u64
  h_SectionAlignment :: u32
  h_FileAlignment :: u32
  h_OsMajor :: u16
  h_OsMinor :: u16
  h_SubsystemMajor :: u16
  h_SubsystemMinor :: u16
  h_SizeOfImage :: u32
  h_SizeOfHeaders :: u32
  h_CheckSum :: u32
  h_Subsystem :: u16
  h_DllCharacteristics :: u16
  h_StackReserve :: u64
  h_StackCommit :: u64
  h_HeapReserve :: u64
  h_HeapCommit :: u64
  h_Directories :: "PEDataDirectory list"

record PESection =
  s_Name :: bytes
  s_VirtualAddress :: u32
  s_VirtualSize :: u32
  s_RawOffset :: u32
  s_RawSize :: u32
  s_Characteristics :: u32

record PEFile =
  m_Data :: bytes
  m_ChecksumOffset :: nat
  m_Headers :: PEHeaders
  m_Sections :: "PESection list"

section \<open>Reads\<close>

text \<open>\<open>At<T>(offset)\<close>: the bytes of a \<open>T\<close> at the offset, when they are all in the buffer.\<close>

definition At :: "bytes \<Rightarrow> nat \<Rightarrow> nat \<Rightarrow> bytes option" where
  "At data offset sz =
     (if offset > length data \<or> length data - offset < sz then None
      else Some (take sz (drop offset data)))"

lemma At_iff: "At data offset n = Some s \<longleftrightarrow> offset + n \<le> length data \<and> s = take n (drop offset data)"
  by (auto simp: At_def)

interpretation pe_at: byte_window data "At data"
  by unfold_locales (auto simp: At_def)

text \<open>
  \<open>StringAt\<close>: the characters up to the first NUL, at most \<open>maxLength\<close>; nothing when the buffer ends first.
\<close>

definition StringAt :: "bytes \<Rightarrow> nat \<Rightarrow> nat \<Rightarrow> bytes" where
  "StringAt data offset maxLength =
     (if offset \<ge> length data then []
      else
        (let start = drop offset data;
             available = min (length data - offset) maxLength;
             text = until_nul available start
         in if length text = available \<and> available < maxLength then [] else text))"

section \<open>Parsing the headers\<close>

text \<open>The layouts of \<open>winnt.h\<close> (sizes and field offsets, in bytes).\<close>

definition e_magic :: "bytes \<Rightarrow> u16" where "e_magic s = u16_at s 0"
definition e_lfanew :: "bytes \<Rightarrow> u32" where "e_lfanew s = u32_at s 60"
definition fh_Machine :: "bytes \<Rightarrow> u16" where "fh_Machine s = u16_at s 0"
definition fh_NumberOfSections :: "bytes \<Rightarrow> u16" where "fh_NumberOfSections s = u16_at s 2"
definition fh_TimeDateStamp :: "bytes \<Rightarrow> u32" where "fh_TimeDateStamp s = u32_at s 4"
definition fh_SizeOfOptionalHeader :: "bytes \<Rightarrow> u16" where "fh_SizeOfOptionalHeader s = u16_at s 16"
definition fh_Characteristics :: "bytes \<Rightarrow> u16" where "fh_Characteristics s = u16_at s 18"

definition sizeof_DOS :: nat where "sizeof_DOS = 64"
definition sizeof_FILE :: nat where "sizeof_FILE = 20"
definition sizeof_OPTIONAL64 :: nat where "sizeof_OPTIONAL64 = 240"
definition sizeof_OPTIONAL32 :: nat where "sizeof_OPTIONAL32 = 224"
definition sizeof_SECTION :: nat where "sizeof_SECTION = 40"
definition offset_CheckSum :: nat where "offset_CheckSum = 64"
definition offset_DataDirectory :: "bool \<Rightarrow> nat" where
  "offset_DataDirectory is64 = (if is64 then 112 else 96)"

lemmas size_defs = sizeof_DOS_def sizeof_FILE_def sizeof_OPTIONAL64_def sizeof_OPTIONAL32_def
  sizeof_SECTION_def offset_CheckSum_def offset_DataDirectory_def

text \<open>
  The \<open>fill\<close> lambda, for either optional header: \<open>oh\<close> is its bytes. The two agree up to offset 72, but for
  the image base; the reserve and commit sizes are of the image's width.
\<close>

definition wide_field :: "bool \<Rightarrow> bytes \<Rightarrow> nat \<Rightarrow> nat \<Rightarrow> u64" where
  "wide_field is64 oh at64 at32 = (if is64 then u64_at oh at64 else ucast (u32_at oh at32))"

definition NumberOfRvaAndSizes :: "bool \<Rightarrow> bytes \<Rightarrow> u32" where
  "NumberOfRvaAndSizes is64 oh = u32_at oh (offset_DataDirectory is64 - 4)"

definition directories :: "bool \<Rightarrow> nat \<Rightarrow> bytes \<Rightarrow> nat" where
  "directories is64 optionalSize oh =
     (let fixed = offset_DataDirectory is64;
          room = (if optionalSize > fixed then (optionalSize - fixed) div 8 else 0)
      in min (min (unat (NumberOfRvaAndSizes is64 oh)) room) 16)"

definition directory_at :: "bool \<Rightarrow> bytes \<Rightarrow> nat \<Rightarrow> PEDataDirectory" where
  "directory_at is64 oh i =
     (let at = offset_DataDirectory is64 + i * 8
      in \<lparr>d_Rva = u32_at oh at, d_Size = u32_at oh (at + 4)\<rparr>)"

definition fill :: "bool \<Rightarrow> bytes \<Rightarrow> bytes \<Rightarrow> PEHeaders" where
  "fill is64 fileHeader oh =
     \<lparr>h_Is64 = is64, h_Machine = fh_Machine fileHeader,
      h_NumberOfSections = fh_NumberOfSections fileHeader,
      h_TimeDateStamp = fh_TimeDateStamp fileHeader,
      h_Characteristics = fh_Characteristics fileHeader,
      h_LinkerMajor = u8_at oh 2, h_LinkerMinor = u8_at oh 3, h_EntryPoint = u32_at oh 16,
      h_ImageBase = wide_field is64 oh 24 28,
      h_SectionAlignment = u32_at oh 32, h_FileAlignment = u32_at oh 36,
      h_OsMajor = u16_at oh 40, h_OsMinor = u16_at oh 42,
      h_SubsystemMajor = u16_at oh 48, h_SubsystemMinor = u16_at oh 50,
      h_SizeOfImage = u32_at oh 56, h_SizeOfHeaders = u32_at oh 60, h_CheckSum = u32_at oh 64,
      h_Subsystem = u16_at oh 68, h_DllCharacteristics = u16_at oh 70,
      h_StackReserve = wide_field is64 oh 72 72, h_StackCommit = wide_field is64 oh 80 76,
      h_HeapReserve = wide_field is64 oh 88 80, h_HeapCommit = wide_field is64 oh 96 84,
      h_Directories =
        map (directory_at is64 oh)
          [0..<directories is64 (unat (fh_SizeOfOptionalHeader fileHeader)) oh]\<rparr>"

definition section_of :: "bytes \<Rightarrow> PESection" where
  "section_of s =
     \<lparr>s_Name = until_nul 8 s, s_VirtualAddress = u32_at s 12, s_VirtualSize = u32_at s 8,
      s_RawOffset = u32_at s 20, s_RawSize = u32_at s 16, s_Characteristics = u32_at s 36\<rparr>"

text \<open>The section table, up to \<open>n\<close> entries: cut at the first that is not in the buffer.\<close>

definition sections_of :: "bytes \<Rightarrow> nat \<Rightarrow> nat \<Rightarrow> PESection list" where
  "sections_of data sectionOffset n =
     entries_from
       (\<lambda>i. map_option section_of (At data (sectionOffset + i * sizeof_SECTION) sizeof_SECTION)) n 0"

datatype pe_error = ERROR_BAD_EXE_FORMAT | ApiError

text \<open>What \<open>Parse\<close> returns once the optional header (\<open>oh\<close>, at \<open>optionalOffset\<close>) is known to be there.\<close>

definition image_of :: "bytes \<Rightarrow> nat \<Rightarrow> bytes \<Rightarrow> bool \<Rightarrow> bytes \<Rightarrow> PEFile" where
  "image_of data optionalOffset fileHeader is64 oh =
     (let optionalSize = unat (fh_SizeOfOptionalHeader fileHeader)
      in \<lparr>m_Data = data,
          m_ChecksumOffset = optionalOffset + offset_CheckSum,
          m_Headers = fill is64 fileHeader oh,
          m_Sections =
            sections_of data (optionalOffset + optionalSize)
              (min (unat (fh_NumberOfSections fileHeader)) MaxSections)\<rparr>)"

definition Parse_optional :: "bytes \<Rightarrow> nat \<Rightarrow> bytes \<Rightarrow> pe_error + PEFile" where
  "Parse_optional data optionalOffset fileHeader =
     (case At data optionalOffset 2 of
        None \<Rightarrow> Inl ERROR_BAD_EXE_FORMAT
      | Some magic \<Rightarrow>
          if u16_at magic 0 = 0x20B then
            (case At data optionalOffset sizeof_OPTIONAL64 of
               None \<Rightarrow> Inl ERROR_BAD_EXE_FORMAT
             | Some oh \<Rightarrow> Inr (image_of data optionalOffset fileHeader True oh))
          else if u16_at magic 0 = 0x10B then
            (case At data optionalOffset sizeof_OPTIONAL32 of
               None \<Rightarrow> Inl ERROR_BAD_EXE_FORMAT
             | Some oh \<Rightarrow> Inr (image_of data optionalOffset fileHeader False oh))
          else Inl ERROR_BAD_EXE_FORMAT)"

definition Parse :: "bytes \<Rightarrow> pe_error + PEFile" where
  "Parse data =
     (case At data 0 sizeof_DOS of
        None \<Rightarrow> Inl ERROR_BAD_EXE_FORMAT
      | Some dos \<Rightarrow>
          if e_magic dos \<noteq> 0x5A4D \<or> sint (e_lfanew dos) < 0 then Inl ERROR_BAD_EXE_FORMAT
          else
            (let ntOffset = unat (e_lfanew dos)
             in case At data ntOffset 4 of
                  None \<Rightarrow> Inl ERROR_BAD_EXE_FORMAT
                | Some signature \<Rightarrow>
                    if u32_at signature 0 \<noteq> 0x4550 then Inl ERROR_BAD_EXE_FORMAT
                    else
                      (case At data (ntOffset + 4) sizeof_FILE of
                         None \<Rightarrow> Inl ERROR_BAD_EXE_FORMAT
                       | Some fileHeader \<Rightarrow>
                           Parse_optional data (ntOffset + 4 + sizeof_FILE) fileHeader)))"

section \<open>Reading the file\<close>

text \<open>
  \<open>Load\<close>'s loop: \<open>rd total chunk\<close> is what \<open>ReadFile\<close> gives at the file position \<open>total\<close> when asked for
  \<open>chunk\<close> bytes (nothing when the call fails). A short file ends with an empty read.
\<close>

function read_all :: "(nat \<Rightarrow> nat \<Rightarrow> bytes option) \<Rightarrow> nat \<Rightarrow> bytes \<Rightarrow> bytes option" where
  "read_all rd sz got =
     (if length got < sz then
        (case rd (length got) (min (sz - length got) 16777216) of
           None \<Rightarrow> None
         | Some chunk \<Rightarrow> if chunk = [] then Some got else read_all rd sz (got @ chunk))
      else Some got)"
  by pat_completeness auto
termination
  by (relation "measure (\<lambda>(rd, sz, got). sz - length got)") (auto simp: length_greater_0_conv [symmetric] simp del: length_greater_0_conv)

declare read_all.simps [simp del]

text \<open>\<open>opened\<close> is whether \<open>CreateFileW\<close> succeeds, \<open>file_size\<close> what \<open>GetFileSizeEx\<close> gives.\<close>

definition Load :: "bool \<Rightarrow> int option \<Rightarrow> (nat \<Rightarrow> nat \<Rightarrow> bytes option) \<Rightarrow> pe_error + PEFile" where
  "Load opened file_size rd =
     (if \<not> opened then Inl ApiError
      else case file_size of
        None \<Rightarrow> Inl ApiError
      | Some sz \<Rightarrow>
          if sz < int sizeof_DOS \<or> sz > int MaxFileSize then Inl ERROR_BAD_EXE_FORMAT
          else case read_all rd (nat sz) [] of
                 None \<Rightarrow> Inl ApiError
               | Some data \<Rightarrow> Parse data)"

section \<open>Addresses\<close>

text \<open>\<open>RvaToOffset\<close>'s loop over the sections: the first that holds the address decides.\<close>

definition raw_start :: "PESection \<Rightarrow> u32" where
  "raw_start s = s_RawOffset s AND NOT 0x1FF"

definition mapped_size :: "PESection \<Rightarrow> u32" where
  "mapped_size s =
     (if s_VirtualSize s \<noteq> 0 then min (s_VirtualSize s) (s_RawSize s) else s_RawSize s)"

definition holds_rva :: "u32 \<Rightarrow> PESection \<Rightarrow> bool" where
  "holds_rva rva s \<longleftrightarrow> rva \<ge> s_VirtualAddress s \<and> rva - s_VirtualAddress s < mapped_size s"

definition section_offset :: "u32 \<Rightarrow> PESection \<Rightarrow> nat" where
  "section_offset rva s = unat (raw_start s) + unat (rva - s_VirtualAddress s)"

fun offset_in :: "nat \<Rightarrow> u32 \<Rightarrow> PESection list \<Rightarrow> u32 option" where
  "offset_in sz rva [] = None"
| "offset_in sz rva (s # ss) =
     (if holds_rva rva s then
        (if section_offset rva s < sz then Some (of_nat (section_offset rva s)) else None)
      else offset_in sz rva ss)"

definition RvaToOffset :: "PEFile \<Rightarrow> u32 \<Rightarrow> u32 option" where
  "RvaToOffset pe rva =
     (if rva < h_SizeOfHeaders (m_Headers pe) \<and> unat rva < length (m_Data pe) then Some rva
      else offset_in (length (m_Data pe)) rva (m_Sections pe))"

definition StringAtRva :: "PEFile \<Rightarrow> u32 \<Rightarrow> bytes" where
  "StringAtRva pe rva =
     (case RvaToOffset pe rva of
        None \<Rightarrow> []
      | Some offset \<Rightarrow> StringAt (m_Data pe) (unat offset) 512)"

section \<open>The checksum\<close>

definition fold_carry :: "u64 \<Rightarrow> u64" where
  "fold_carry acc = (acc AND 0xFFFF) + drop_bit 16 acc"

text \<open>The loop, from byte \<open>i\<close> on: 16-bit words but those at the checksum field, then an odd last byte.\<close>

fun checksum_from :: "nat \<Rightarrow> nat \<Rightarrow> bytes \<Rightarrow> u64 \<Rightarrow> u64" where
  "checksum_from field i (a # b # bs) acc =
     checksum_from field (i + 2) bs
       (if field \<le> i \<and> i < field + 4 then acc
        else fold_carry (acc + (ucast a OR push_bit 8 (ucast b))))"
| "checksum_from field i [b] acc = acc + ucast b"
| "checksum_from field i [] acc = acc"

definition ComputeChecksum :: "PEFile \<Rightarrow> u32" where
  "ComputeChecksum pe =
     (let acc = checksum_from (m_ChecksumOffset pe) 0 (m_Data pe) 0
      in ucast (fold_carry (fold_carry acc) + of_nat (length (m_Data pe))))"

section \<open>Properties\<close>

subsection \<open>Strings\<close>

lemma until_nul_stops: "length (until_nul n s) < n \<Longrightarrow> length (until_nul n s) < length s \<Longrightarrow> s ! length (until_nul n s) = 0"
proof -
  assume a: "length (until_nul n s) < n" "length (until_nul n s) < length s"
  then have "\<not> not_nul (take n s ! length (takeWhile not_nul (take n s)))"
    by (intro nth_length_takeWhile) (simp add: until_nul_def)
  then show ?thesis using a by (simp add: until_nul_def not_nul_def)
qed

text \<open>A string read from the file holds no NUL, is at most \<open>maxLength\<close> long, is the file's bytes at its
  offset, and (when it is neither empty nor cut at \<open>maxLength\<close>) ends at a NUL inside the file.\<close>

theorem StringAt_text:
  fixes data offset maxLength
  defines "t \<equiv> StringAt data offset maxLength"
  shows "0 \<notin> set t \<and> length t \<le> maxLength \<and> take (length t) (drop offset data) = t \<and>
    (t = [] \<or> length t = maxLength \<or> offset + length t < length data \<and> data ! (offset + length t) = 0)"
proof (cases "t = []")
  case False
  define available where "available = min (length data - offset) maxLength"
  have off: "offset < length data" using False by (auto simp: t_def StringAt_def split: if_splits)
  have t: "t = until_nul available (drop offset data)"
    and ends: "length t \<noteq> available \<or> available = maxLength"
    using False off by (auto simp: t_def StringAt_def Let_def available_def split: if_splits)
  have le: "length t \<le> available" unfolding t by (rule length_until_nul)
  have "length t = maxLength \<or> offset + length t < length data \<and> data ! (offset + length t) = 0"
  proof (cases "length t = available")
    case False
    with le have "length t < available" by simp
    moreover from this have "drop offset data ! length t = 0"
      using until_nul_stops [of available "drop offset data"] off
      unfolding t [symmetric] by (simp add: available_def)
    ultimately show ?thesis using off by (auto simp: available_def)
  qed (use ends in simp)
  then show ?thesis
    using le until_nul_prefix [of available "drop offset data"] zero_notin_until_nul [of available "drop offset data"]
    unfolding t [symmetric] by (simp add: available_def)
qed simp

subsection \<open>Fields of a window of the buffer\<close>

lemma take_window: "k + m \<le> n \<Longrightarrow> take m (drop k (take n (drop off d))) = take m (drop (off + k) d)"
  by (simp add: drop_take min_def add.commute)

lemma field_window:
  "k + 1 \<le> n \<Longrightarrow> u8_at (take n (drop off d)) k = u8_at d (off + k)"
  "k + 2 \<le> n \<Longrightarrow> u16_at (take n (drop off d)) k = u16_at d (off + k)"
  "k + 4 \<le> n \<Longrightarrow> u32_at (take n (drop off d)) k = u32_at d (off + k)"
  "k + 8 \<le> n \<Longrightarrow> u64_at (take n (drop off d)) k = u64_at d (off + k)"
  by (simp_all add: field_defs take_window)

lemma field_prefix:
  "k + 2 \<le> n \<Longrightarrow> u16_at (take n d) k = u16_at d k"
  "k + 4 \<le> n \<Longrightarrow> u32_at (take n d) k = u32_at d k"
  using field_window(2) [of k n 0 d] field_window(3) [of k n 0 d] by simp_all

subsection \<open>What \<open>Parse\<close> accepts and gives\<close>

definition pe_image :: "bytes \<Rightarrow> bool" where
  "pe_image d \<longleftrightarrow>
     64 \<le> length d \<and> u16_at d 0 = 0x5A4D \<and> 0 \<le> sint (u32_at d 60) \<and>
     (let nt = unat (u32_at d 60); magic = u16_at d (nt + 24)
      in u32_at d nt = 0x4550 \<and>
         (magic = 0x20B \<and> nt + 24 + 240 \<le> length d \<or> magic = 0x10B \<and> nt + 24 + 224 \<le> length d))"

definition pe_ok :: "bytes \<Rightarrow> PEFile \<Rightarrow> bool" where
  "pe_ok d pe \<longleftrightarrow>
     m_Data pe = d \<and>
     m_ChecksumOffset pe + 4 \<le> length d \<and>
     h_CheckSum (m_Headers pe) = u32_at d (m_ChecksumOffset pe) \<and>
     length (h_Directories (m_Headers pe)) \<le> 16 \<and>
     length (m_Sections pe) \<le> min (unat (h_NumberOfSections (m_Headers pe))) MaxSections \<and>
     list_all (\<lambda>s. length (s_Name s) \<le> 8 \<and> 0 \<notin> set (s_Name s)) (m_Sections pe)"

lemma length_sections_of: "length (sections_of d off n) \<le> n"
  using length_entries_from [of _ n 0] by (simp add: sections_of_def)

lemma sections_of_names:
  "list_all (\<lambda>s. length (s_Name s) \<le> 8 \<and> 0 \<notin> set (s_Name s)) (sections_of d off n)"
  unfolding sections_of_def
  by (rule list_all_entries_from) (auto simp: section_of_def length_until_nul zero_notin_until_nul)

lemma directories_le: "directories is64 n s \<le> 16"
  by (simp add: directories_def Let_def)

lemmas Parse_unfold = Parse_def Parse_optional_def Let_def At_def size_defs e_magic_def e_lfanew_def

lemma Parse_accepts: "(\<exists>pe. Parse d = Inr pe) \<longleftrightarrow> pe_image d"
proof (cases "64 \<le> length d \<and> u16_at d 0 = 0x5A4D \<and> 0 \<le> sint (u32_at d 60)")
  case True
  define nt where "nt = unat (u32_at d 60)"
  have magic: "u16_at (take 2 (drop (nt + 24) d)) 0 = u16_at d (nt + 24)"
    using field_window(2) [of 0 2 "nt + 24" d] by simp
  have sig: "u32_at (take 4 (drop nt d)) 0 = u32_at d nt"
    using field_window(3) [of 0 4 nt d] by simp
  show ?thesis
    using True magic sig
    unfolding pe_image_def
    by (auto simp: Parse_unfold field_prefix nt_def [symmetric] add.assoc split: if_splits)
next
  case False
  then show ?thesis
    by (auto simp: Parse_unfold field_prefix pe_image_def split: if_splits)
qed

lemma Parse_image:
  assumes "Parse d = Inr pe"
  obtains at fh is64 oh where "pe = image_of d at fh is64 oh"
    and "At d at (if is64 then sizeof_OPTIONAL64 else sizeof_OPTIONAL32) = Some oh"
  using assms
  by (auto simp: Parse_def Parse_optional_def Let_def split: option.splits if_splits)

lemma Parse_ok: "Parse d = Inr pe \<Longrightarrow> pe_ok d pe"
proof -
  assume "Parse d = Inr pe"
  then obtain at fh is64 oh where pe: "pe = image_of d at fh is64 oh"
    and oh: "At d at (if is64 then sizeof_OPTIONAL64 else sizeof_OPTIONAL32) = Some oh"
    by (rule Parse_image)
  from oh have "u32_at oh 64 = u32_at d (at + 64)" "at + 64 + 4 \<le> length d"
    by (auto simp: At_iff size_defs field_window split: if_splits)
  then show ?thesis
    using length_sections_of [of d]
    by (simp add: pe pe_ok_def image_of_def fill_def directories_le sections_of_names size_defs Let_def
        del: min.bounded_iff)
qed

lemma Parse_error: "Parse d = Inl e \<Longrightarrow> e = ERROR_BAD_EXE_FORMAT"
  by (auto simp: Parse_def Parse_optional_def Let_def split: option.splits if_splits)

text \<open>C7: \<open>Parse\<close> takes exactly the buffers that are PE images (both signatures, a known optional header, every
  header inside the buffer), for the others it sets ERROR_BAD_EXE_FORMAT; the image it gives holds the buffer,
  at most 16 directories, at most 96 and at most the declared number of sections, section names of at most 8
  characters without a NUL, and a checksum field that lies in the file and holds the header's checksum.\<close>

theorem Parse_result:
  "case Parse d of
     Inl e \<Rightarrow> e = ERROR_BAD_EXE_FORMAT \<and> \<not> pe_image d
   | Inr pe \<Rightarrow> pe_image d \<and> pe_ok d pe"
proof (cases "Parse d")
  case (Inl e)
  then have "\<not> pe_image d" using Parse_accepts [of d] by auto
  with Inl show ?thesis using Parse_error [OF Inl] by simp
next
  case (Inr pe)
  then show ?thesis using Parse_accepts [of d] Parse_ok [OF Inr] by auto
qed

subsection \<open>\<open>Load\<close> gives what \<open>Parse\<close> gives for the file's bytes\<close>

text \<open>
  What \<open>ReadFile\<close> is documented to do for a file that does not change: at a position inside the file it
  gives at least one and at most the bytes asked for, those at the position.
\<close>

definition reads_file :: "bytes \<Rightarrow> (nat \<Rightarrow> nat \<Rightarrow> bytes option) \<Rightarrow> bool" where
  "reads_file file rd \<longleftrightarrow>
     (\<forall>pos n. pos < length file \<longrightarrow> 0 < n \<longrightarrow>
        (\<exists>k. 0 < k \<and> k \<le> n \<and> rd pos n = Some (take k (drop pos file))))"

lemma read_all_file:
  "reads_file file rd \<Longrightarrow> got = take (length got) file \<Longrightarrow> read_all rd (length file) got = Some file"
proof (induction rd "length file" got rule: read_all.induct)
  case (1 rd got)
  show ?case
  proof (cases "length got < length file")
    case True
    define n where "n = min (length file - length got) (16777216::nat)"
    have "0 < n" using True by (simp add: n_def)
    then obtain k where k: "0 < k" "k \<le> n" "rd (length got) n = Some (take k (drop (length got) file))"
      using "1.prems"(1) True by (auto simp: reads_file_def)
    let ?chunk = "take k (drop (length got) file)"
    have chunk: "?chunk \<noteq> []" using k True by simp
    have kk: "length got + k \<le> length file" using k(2) True unfolding n_def by linarith
    have "got @ ?chunk = take (length got + k) file"
      using "1.prems"(2) by (metis take_add)
    then have "got @ ?chunk = take (length (got @ ?chunk)) file"
      using kk by (simp add: min_def)
    moreover have rd: "rd (length got) (min (length file - length got) 16777216) = Some ?chunk"
      using k(3) unfolding n_def .
    ultimately have "read_all rd (length file) (got @ ?chunk) = Some file"
      using "1.hyps" [OF True rd chunk "1.prems"(1)] by blast
    then show ?thesis
      using True rd chunk by (subst read_all.simps) simp
  next
    case False
    then have "got = file" using "1.prems"(2) by simp
    then show ?thesis by (subst read_all.simps) simp
  qed
qed

text \<open>Reading a file of 64 bytes to 1 GiB, in whatever pieces \<open>ReadFile\<close> gives, parses exactly its bytes:
  the loop ends, misses no byte and reads none twice.\<close>

theorem Load_parses_file:
  assumes "reads_file file rd" and "64 \<le> length file" and "length file \<le> MaxFileSize"
  shows "Load True (Some (int (length file))) rd = Parse file"
  using assms read_all_file [OF assms(1), of "[]"] by (simp add: Load_def sizeof_DOS_def)

theorem Load_parses_file_witness:
  "Load True (Some 64) (\<lambda>pos n. Some (take n (drop pos (replicate 64 0)))) = Parse (replicate 64 0)"
proof -
  let ?file = "replicate 64 0 :: bytes"
  have "reads_file ?file (\<lambda>pos n. Some (take n (drop pos ?file)))"
    by (auto simp: reads_file_def)
  from Load_parses_file [OF this] show ?thesis by (simp add: MaxFileSize_def)
qed

subsection \<open>Addresses stay in the file\<close>

lemma offset_in_lt: "offset_in n rva ss = Some off \<Longrightarrow> unat off < n"
  by (induction ss) (auto simp: unat_of_nat split: if_splits intro: le_less_trans [OF mod_less_eq_dividend])

lemma RvaToOffset_lt: "RvaToOffset pe rva = Some off \<Longrightarrow> unat off < length (m_Data pe)"
  by (auto simp: RvaToOffset_def dest: offset_in_lt split: if_splits)

text \<open>An address is translated to an offset inside the file, or to none, whatever the headers and the
  sections say.\<close>

theorem RvaToOffset_in_file:
  "case RvaToOffset pe rva of None \<Rightarrow> True | Some off \<Rightarrow> unat off < length (m_Data pe)"
  by (auto split: option.splits dest: RvaToOffset_lt)

text \<open>The position in the file as a number: the header's own, or in the first section that holds the address.\<close>

definition file_position :: "PEFile \<Rightarrow> u32 \<Rightarrow> nat option" where
  "file_position pe rva =
     (if unat rva < min (unat (h_SizeOfHeaders (m_Headers pe))) (length (m_Data pe)) then Some (unat rva)
      else case find (holds_rva rva) (m_Sections pe) of
             None \<Rightarrow> None
           | Some s \<Rightarrow> if section_offset rva s < length (m_Data pe) then Some (section_offset rva s) else None)"

lemma offset_in_find:
  "n \<le> 2 ^ 32 \<Longrightarrow>
   map_option unat (offset_in n rva ss) =
     (case find (holds_rva rva) ss of None \<Rightarrow> None
      | Some s \<Rightarrow> if section_offset rva s < n then Some (section_offset rva s) else None)"
  by (induction ss) (auto simp: unat_of_nat)


definition tiny_image :: PEFile where
  "tiny_image = image_of (replicate 8 1) 0 (replicate 20 0) False (replicate 224 0)
     \<lparr>m_Sections := [\<lparr>s_Name = [], s_VirtualAddress = 0x1000, s_VirtualSize = 0, s_RawOffset = 0x1F0,
        s_RawSize = 4, s_Characteristics = 0\<rparr>]\<rparr>"


subsection \<open>The checksum is the end-around-carry sum of the words\<close>

text \<open>The sum of the words the loop visits, as a number, and its value with the carries folded in.\<close>

fun word_sum :: "nat \<Rightarrow> nat \<Rightarrow> bytes \<Rightarrow> nat" where
  "word_sum field i (a # b # bs) =
     (if field \<le> i \<and> i < field + 4 then 0 else unat a + 256 * unat b) + word_sum field (i + 2) bs"
| "word_sum field i [b] = unat b"
| "word_sum field i [] = 0"

definition carry_sum :: "nat \<Rightarrow> nat" where
  "carry_sum n = (if n = 0 then 0 else (n - 1) mod 65535 + 1)"

lemma Suc_mod_eq: "Suc a mod 65535 = Suc b mod 65535 \<longleftrightarrow> a mod 65535 = b mod (65535::nat)"
proof -
  have "a mod 65535 < 65535" "b mod 65535 < (65535::nat)" by simp_all
  then show ?thesis by (auto simp: mod_Suc split: if_splits)
qed

lemma carry_sum_cong: "carry_sum x = carry_sum y \<longleftrightarrow> (x = 0 \<longleftrightarrow> y = 0) \<and> x mod 65535 = y mod 65535"
  by (cases x; cases y) (auto simp: carry_sum_def Suc_mod_eq)

lemma carry_sum_small: "y \<le> 65535 \<Longrightarrow> carry_sum y = y"
  by (auto simp: carry_sum_def)

lemma carry_sum_fold: "carry_sum (x mod 65536 + x div 65536) = carry_sum x"
proof -
  have "x = 65535 * (x div 65536) + (x mod 65536 + x div 65536)"
    using mod_mult_div_eq [of x 65536] by linarith
  then have "x mod 65535 = (x mod 65536 + x div 65536) mod 65535"
    by (metis mod_mult_self4 mult.commute)
  moreover have "x mod 65536 + x div 65536 = 0 \<longleftrightarrow> x = 0"
    using mod_mult_div_eq [of x 65536] by auto
  ultimately show ?thesis by (simp add: carry_sum_cong)
qed

lemma carry_sum_add: "carry_sum (carry_sum a + b) = carry_sum (a + b)"
proof -
  have "carry_sum a mod 65535 = a mod 65535"
    by (cases a) (auto simp: carry_sum_def mod_Suc_eq)
  then have "(carry_sum a + b) mod 65535 = (a + b) mod 65535" by (metis mod_add_left_eq)
  then have m: "(carry_sum a + b) mod 65535 = (a + b) mod 65535" by simp
  have z: "carry_sum a + b = 0 \<longleftrightarrow> a + b = 0" by (simp add: carry_sum_def)
  show ?thesis unfolding carry_sum_cong using m z by (rule conjI [rotated])
qed

lemma fold16_small: 
  fixes y :: nat assumes "y \<le> 131070" shows "y mod 65536 + y div 65536 \<le> 65535"
proof -
  have r: "y mod 65536 < 65536" and y: "y = y div 65536 * 65536 + y mod 65536" by simp_all
  have "y div 65536 < 2" using assms by (simp add: less_mult_imp_div_less)
  then consider "y div 65536 = 0" | "y div 65536 = 1" by linarith
  then show ?thesis
  proof cases
    case 1 with r show ?thesis by linarith
  next
    case 2 with y assms show ?thesis by linarith
  qed
qed

lemma unat_fold_carry: "unat (fold_carry w) = unat w mod 65536 + unat w div 65536"
proof -
  have m: "w AND 0xFFFF = take_bit 16 w"
    by (simp add: take_bit_eq_mask mask_eq_exp_minus_1)
  have a: "unat (take_bit 16 w) = unat w mod 65536"
    by (simp only: unsigned_take_bit_eq) (simp add: take_bit_eq_mod)
  have d: "unat (drop_bit 16 w) = unat w div 65536"
    by (simp only: unat_drop_bit_eq) (simp add: drop_bit_eq_div)
  have "unat w < 65536 * 2 ^ 48" using unat_less_2p [of w] by simp
  then have "unat w div 65536 < 2 ^ 48" by (simp add: less_mult_imp_div_less)
  moreover have "unat w mod 65536 < 65536" by simp
  ultimately have "unat w mod 65536 + unat w div 65536 < 2 ^ 64" by simp
  then show ?thesis
    unfolding fold_carry_def m unat_word_ariths a d by simp
qed

lemma unat_ucast64: "unat (ucast c :: u64) = unat (c :: byte)"
  using unat_less_2p [of c] by (simp add: unsigned_ucast_eq take_bit_nat_eq_self)

lemma unat_word_at: "unat (ucast a OR push_bit 8 (ucast b) :: u64) = unat (a :: byte) + 256 * unat (b :: byte)"
proof -
  have ab: "unat a < 256" "unat b < 256" using unat_less_2p [of a] unat_less_2p [of b] by auto
  have "(ucast a :: u64) AND push_bit 8 (ucast b) = 0"
    by (rule bit_eqI) (auto simp: bit_simps dest: bit_imp_le_length)
  then have "(ucast a OR push_bit 8 (ucast b) :: u64) = ucast a + push_bit 8 (ucast b)"
    by (simp add: disjunctive_add_eq_or)
  also have "\<dots> = ucast a + 256 * ucast b"
    by (simp add: push_bit_eq_mult)
  also have "unat (256 * (ucast b :: u64)) = 256 * unat b"
    using ab by (simp add: unat_word_ariths unat_ucast64)
  then have "unat (ucast a + 256 * ucast b :: u64) = unat a + 256 * unat b"
    using ab by (simp only: unat_word_ariths unat_ucast64) simp
  finally show ?thesis .
qed

lemma checksum_from_sum:
  "unat acc \<le> 65535 \<Longrightarrow>
     unat (checksum_from field i bs acc) \<le> 65790 \<and>
     carry_sum (unat (checksum_from field i bs acc)) = carry_sum (unat acc + word_sum field i bs)"
proof (induction field i bs acc rule: checksum_from.induct)
  case (1 field i a b bs acc)
  let ?w = "ucast a OR push_bit 8 (ucast b) :: u64"
  let ?n = "unat a + 256 * unat b"
  have ab: "unat a < 256" "unat b < 256" using unat_less_2p [of a] unat_less_2p [of b] by auto
  show ?case
  proof (cases "field \<le> i \<and> i < field + 4")
    case False
    have add: "unat (acc + ?w) = unat acc + ?n"
      unfolding unat_word_ariths unat_word_at using 1(2) ab by simp
    have small: "unat (fold_carry (acc + ?w)) \<le> 65535"
      unfolding unat_fold_carry add by (rule fold16_small) (use 1(2) ab in linarith)
    have "carry_sum (unat (fold_carry (acc + ?w)) + m) = carry_sum (unat acc + ?n + m)" for m
      by (metis add carry_sum_add carry_sum_fold unat_fold_carry)
    then show ?thesis
      using 1(1) small unfolding checksum_from.simps word_sum.simps if_not_P [OF False] add.assoc
      by metis
  qed (use 1 in simp)
next
  case (2 field i b acc)
  have b: "unat b < 256" using unat_less_2p [of b] by simp
  have "unat (acc + ucast b) = unat acc + unat b"
    unfolding unat_word_ariths unat_ucast64 using 2 b by simp
  then show ?case using 2 b by simp
qed simp

lemma ucast_u64_u32: "ucast (of_nat n :: u64) = (of_nat n :: u32)"
  by (simp add: unsigned_of_nat word_of_nat_eq_iff take_bit_take_bit)

text \<open>The checksum is the end-around-carry (one's complement) sum of the file's 16-bit words, those at the
  checksum field left out, plus the file's length.\<close>

theorem ComputeChecksum_sum:
  "ComputeChecksum pe =
     of_nat (carry_sum (word_sum (m_ChecksumOffset pe) 0 (m_Data pe)) + length (m_Data pe))"
proof -
  let ?s = "checksum_from (m_ChecksumOffset pe) 0 (m_Data pe) 0"
  have s: "unat ?s \<le> 65790" "carry_sum (unat ?s) = carry_sum (word_sum (m_ChecksumOffset pe) 0 (m_Data pe))"
    using checksum_from_sum [of 0 "m_ChecksumOffset pe" 0 "m_Data pe"] by auto
  have f: "unat (fold_carry ?s) \<le> 65535"
    unfolding unat_fold_carry by (rule fold16_small) (use s(1) in linarith)
  then have "unat (fold_carry (fold_carry ?s)) = unat (fold_carry ?s)"
    by (simp add: unat_fold_carry [of "fold_carry ?s"])
  also have "\<dots> = carry_sum (unat (fold_carry ?s))" using f by (simp add: carry_sum_small)
  also have "\<dots> = carry_sum (unat ?s)" by (simp add: unat_fold_carry carry_sum_fold)
  finally have "fold_carry (fold_carry ?s) = of_nat (carry_sum (word_sum (m_ChecksumOffset pe) 0 (m_Data pe)))"
    using s(2) by (metis of_nat_unat ucast_id)
  then show ?thesis
    unfolding ComputeChecksum_def Let_def by (simp only: of_nat_add [symmetric] ucast_u64_u32)
qed

text \<open>An even checksum offset (an even \<open>e_lfanew\<close>): the stored checksum does not count.\<close>

lemma checksum_from_field:
  "\<lbrakk>length bs = length bs'; even field; even i; field + 4 \<le> i + length bs;
    \<And>j. j < length bs \<Longrightarrow> \<not> (field \<le> i + j \<and> i + j < field + 4) \<Longrightarrow> bs ! j = bs' ! j\<rbrakk>
   \<Longrightarrow> checksum_from field i bs acc = checksum_from field i bs' acc"
proof (induction field i bs acc arbitrary: bs' rule: checksum_from.induct)
  case (1 field i a b bs acc)
  obtain a' b' cs where bs': "bs' = a' # b' # cs"
    using 1(2) by (metis length_Suc_conv)
  have rest: "bs ! j = cs ! j" if "j < length bs" "\<not> (field \<le> (i + 2) + j \<and> (i + 2) + j < field + 4)" for j
    using 1(6) [of "j + 2"] that by (simp add: bs')
  have head: "a = a' \<and> b = b'" if "\<not> (field \<le> i \<and> i < field + 4)"
  proof -
    have "\<not> (field \<le> i + 1 \<and> i + 1 < field + 4)" using that 1(3,4) by presburger
    then show ?thesis using 1(6) [of 0] 1(6) [of 1] that by (simp add: bs')
  qed
  show ?case using 1(1) [of cs] 1(2-5) rest head by (auto simp: bs')
next
  case (2 field i b acc)
  then obtain b' where bs': "bs' = [b']" by (metis length_0_conv length_Suc_conv)
  have "\<not> (field \<le> i \<and> i < field + 4)" using 2(2-4) by (simp, presburger)
  with 2(5) [of 0] show ?case by (simp add: bs')
qed simp

definition with_checksum :: "PEFile \<Rightarrow> bytes \<Rightarrow> PEFile" where
  "with_checksum pe c =
     pe\<lparr>m_Data := take (m_ChecksumOffset pe) (m_Data pe) @ c @ drop (m_ChecksumOffset pe + 4) (m_Data pe)\<rparr>"

text \<open>With the checksum field at an even offset (an even \<open>e_lfanew\<close>), writing any checksum into the header
  does not change the checksum computed, so storing it makes the file match.\<close>

theorem ComputeChecksum_stored:
  assumes "even (m_ChecksumOffset pe)" and "m_ChecksumOffset pe + 4 \<le> length (m_Data pe)" and "length c = 4"
  shows "ComputeChecksum (with_checksum pe c) = ComputeChecksum pe"
proof -
  let ?f = "m_ChecksumOffset pe" and ?d = "m_Data pe" and ?d' = "m_Data (with_checksum pe c)"
  have len: "length ?d' = length ?d" using assms(2,3) by (simp add: with_checksum_def)
  have same: "?d ! j = ?d' ! j" if "j < length ?d" "\<not> (?f \<le> 0 + j \<and> 0 + j < ?f + 4)" for j
    using that assms(2,3) by (auto simp: with_checksum_def nth_append)
  have "checksum_from ?f 0 ?d 0 = checksum_from ?f 0 ?d' 0"
    by (rule checksum_from_field) (use assms(1,2) len same in auto)
  then show ?thesis using len by (simp add: ComputeChecksum_def with_checksum_def)
qed

theorem ComputeChecksum_stored_witness:
  "ComputeChecksum (with_checksum (tiny_image\<lparr>m_ChecksumOffset := 2\<rparr>) [9, 8, 7, 6]) =
   ComputeChecksum (tiny_image\<lparr>m_ChecksumOffset := 2\<rparr>)"
  by (rule ComputeChecksum_stored) (auto simp: tiny_image_def image_of_def Let_def)

text \<open>
  At an odd offset the loop, which steps over whole words, counts the field's first byte and leaves out the
  byte after it: the stored checksum changes the checksum computed.
\<close>

lemma ComputeChecksum_odd_field:
  "ComputeChecksum (with_checksum (tiny_image\<lparr>m_ChecksumOffset := 3\<rparr>) [9, 1, 1, 1]) \<noteq>
   ComputeChecksum (tiny_image\<lparr>m_ChecksumOffset := 3\<rparr>)"
proof -
  let ?pe = "tiny_image\<lparr>m_ChecksumOffset := 3\<rparr>"
  have data: "m_Data ?pe = [1, 1, 1, 1, 1, 1, 1, 1]"
    by (simp add: tiny_image_def image_of_def Let_def numeral_eq_Suc)
  then have stored: "m_Data (with_checksum ?pe [9, 1, 1, 1]) = [1, 1, 1, 9, 1, 1, 1, 1]"
    by (simp add: with_checksum_def)
  have off: "m_ChecksumOffset (with_checksum ?pe c) = 3" for c
    by (simp add: with_checksum_def)
  show ?thesis
    unfolding ComputeChecksum_sum data stored off by (simp add: carry_sum_def)
qed

end
