(* ===== verification/PE_Tables.thy ===== *)
theory PE_Tables
  imports PE_File
begin

text \<open>
  The tables of a PE image (\<open>WinSys/PEFile.cpp\<close>): imports (\<open>GetImports\<close>, \<open>ReadThunks\<close>), exports
  (\<open>GetExports\<close>), debug entries and the CodeView record, resources (\<open>GetResources\<close>, \<open>GetResourceData\<close>,
  \<open>GetIconGroup\<close>, \<open>FindIcon\<close>) and the CLR header (\<open>GetDotNet\<close>). Every loop is \<open>entries_from\<close> with the
  source's limit. A sum of two 32-bit values wraps, as in the source; one with a \<open>size_t\<close> does not.
\<close>

section \<open>Directories\<close>

definition IMAGE_DIRECTORY_ENTRY_EXPORT :: nat where "IMAGE_DIRECTORY_ENTRY_EXPORT = 0"
definition IMAGE_DIRECTORY_ENTRY_IMPORT :: nat where "IMAGE_DIRECTORY_ENTRY_IMPORT = 1"
definition IMAGE_DIRECTORY_ENTRY_RESOURCE :: nat where "IMAGE_DIRECTORY_ENTRY_RESOURCE = 2"
definition IMAGE_DIRECTORY_ENTRY_DEBUG :: nat where "IMAGE_DIRECTORY_ENTRY_DEBUG = 6"
definition IMAGE_DIRECTORY_ENTRY_DELAY_IMPORT :: nat where "IMAGE_DIRECTORY_ENTRY_DELAY_IMPORT = 13"
definition IMAGE_DIRECTORY_ENTRY_COM_DESCRIPTOR :: nat where "IMAGE_DIRECTORY_ENTRY_COM_DESCRIPTOR = 14"

text \<open>A directory that is there (the header has room for it and its RVA is not 0), and where it starts in the file.\<close>

definition directory_of :: "PEFile \<Rightarrow> nat \<Rightarrow> PEDataDirectory option" where
  "directory_of pe i =
     (let dirs = h_Directories (m_Headers pe)
      in if length dirs > i \<and> d_Rva (dirs ! i) \<noteq> 0 then Some (dirs ! i) else None)"

definition directory_start :: "PEFile \<Rightarrow> nat \<Rightarrow> u32 option" where
  "directory_start pe i =
     (case directory_of pe i of None \<Rightarrow> None | Some d \<Rightarrow> RvaToOffset pe (d_Rva d))"

section \<open>Imports\<close>

record PEImportedFunction =
  f_Name :: bytes
  f_Hint :: u16
  f_Ordinal :: u16
  f_ByOrdinal :: bool

definition no_function :: PEImportedFunction where
  "no_function = \<lparr>f_Name = [], f_Hint = 0, f_Ordinal = 0, f_ByOrdinal = False\<rparr>"

record PEImportedLibrary =
  l_Name :: bytes
  l_Delayed :: bool
  l_Functions :: "PEImportedFunction list"

text \<open>Thunk \<open>i\<close> of a table at a file offset, in the image's width.\<close>

definition thunk_at :: "PEFile \<Rightarrow> u32 \<Rightarrow> nat \<Rightarrow> u64 option" where
  "thunk_at pe offset i =
     (if h_Is64 (m_Headers pe)
      then map_option (\<lambda>s. u64_at s 0) (At (m_Data pe) (unat offset + i * 8) 8)
      else map_option (\<lambda>s. ucast (u32_at s 0)) (At (m_Data pe) (unat offset + i * 4) 4))"

definition by_ordinal :: "PEFile \<Rightarrow> u64 \<Rightarrow> bool" where
  "by_ordinal pe thunk \<longleftrightarrow>
     (if h_Is64 (m_Headers pe) then thunk AND 0x8000000000000000 \<noteq> 0 else thunk AND 0x80000000 \<noteq> 0)"

definition function_of :: "PEFile \<Rightarrow> u64 \<Rightarrow> PEImportedFunction" where
  "function_of pe thunk =
     (if by_ordinal pe thunk
      then no_function\<lparr>f_ByOrdinal := True, f_Ordinal := ucast (thunk AND 0xFFFF)\<rparr>
      else
        (case RvaToOffset pe (ucast thunk) of
           None \<Rightarrow> no_function
         | Some nameOffset \<Rightarrow>
             (case At (m_Data pe) (unat nameOffset) 2 of
                None \<Rightarrow> no_function
              | Some hint \<Rightarrow>
                  no_function\<lparr>f_Hint := u16_at hint 0,
                    f_Name := StringAt (m_Data pe) (unat nameOffset + 2) 512\<rparr>)))"

definition ReadThunks :: "PEFile \<Rightarrow> u32 \<Rightarrow> PEImportedFunction list" where
  "ReadThunks pe rva =
     (case RvaToOffset pe rva of
        None \<Rightarrow> []
      | Some offset \<Rightarrow>
          entries_from
            (\<lambda>i. case thunk_at pe offset i of
                   None \<Rightarrow> None
                 | Some thunk \<Rightarrow> if thunk = 0 then None else Some (function_of pe thunk))
            MaxThunks 0)"

text \<open>\<open>IMAGE_IMPORT_DESCRIPTOR\<close> (20 bytes) and \<open>IMAGE_DELAYLOAD_DESCRIPTOR\<close> (32 bytes).\<close>

definition import_library :: "PEFile \<Rightarrow> u32 \<Rightarrow> nat \<Rightarrow> PEImportedLibrary option" where
  "import_library pe offset i =
     (case At (m_Data pe) (unat offset + i * 20) 20 of
        None \<Rightarrow> None
      | Some d \<Rightarrow>
          (let original = u32_at d 0; name = u32_at d 12; first = u32_at d 16
           in if name = 0 \<and> first = 0 then None
              else Some \<lparr>l_Name = StringAtRva pe name, l_Delayed = False,
                         l_Functions = ReadThunks pe (if original \<noteq> 0 then original else first)\<rparr>))"

text \<open>The \<open>toRva\<close> lambda: old descriptors hold addresses, not RVAs.\<close>

definition toRva :: "PEFile \<Rightarrow> bool \<Rightarrow> u32 \<Rightarrow> u32" where
  "toRva pe rvaBased v =
     (if rvaBased \<or> v = 0 then v
      else if ucast v \<ge> h_ImageBase (m_Headers pe) then ucast (ucast v - h_ImageBase (m_Headers pe))
      else 0)"

definition delayed_library :: "PEFile \<Rightarrow> u32 \<Rightarrow> nat \<Rightarrow> PEImportedLibrary option" where
  "delayed_library pe offset i =
     (case At (m_Data pe) (unat offset + i * 32) 32 of
        None \<Rightarrow> None
      | Some d \<Rightarrow>
          (let rvaBased = (u32_at d 0 AND 1 \<noteq> 0); dllName = u32_at d 4; nameTable = u32_at d 16
           in if dllName = 0 then None
              else Some \<lparr>l_Name = StringAtRva pe (toRva pe rvaBased dllName), l_Delayed = True,
                         l_Functions = ReadThunks pe (toRva pe rvaBased nameTable)\<rparr>))"

definition GetImports :: "PEFile \<Rightarrow> PEImportedLibrary list" where
  "GetImports pe =
     (case directory_start pe IMAGE_DIRECTORY_ENTRY_IMPORT of
        None \<Rightarrow> []
      | Some offset \<Rightarrow> entries_from (import_library pe offset) MaxLibraries 0) @
     (case directory_start pe IMAGE_DIRECTORY_ENTRY_DELAY_IMPORT of
        None \<Rightarrow> []
      | Some offset \<Rightarrow> entries_from (delayed_library pe offset) MaxLibraries 0)"

section \<open>Exports\<close>

record PEExportedFunction =
  x_Name :: bytes
  x_Ordinal :: u32
  x_Rva :: u32
  x_Forwarder :: bytes

record PEExports =
  e_Name :: bytes
  e_Base :: u32
  e_Functions :: "PEExportedFunction list"

text \<open>The rows of the name table: the function index and the name's RVA, until one is not in the file.\<close>

definition name_rows :: "PEFile \<Rightarrow> u32 \<Rightarrow> u32 \<Rightarrow> nat \<Rightarrow> (nat \<times> u32) list" where
  "name_rows pe namesOffset ordinalsOffset n =
     entries_from
       (\<lambda>i. case (At (m_Data pe) (unat namesOffset + i * 4) 4, At (m_Data pe) (unat ordinalsOffset + i * 2) 2) of
              (Some nameRva, Some index) \<Rightarrow> Some (unat (u16_at index 0), u32_at nameRva 0)
            | _ \<Rightarrow> None) n 0"

text \<open>\<open>names[*index] = StringAtRva(*nameRva)\<close> for the indices below \<open>count\<close>, in order.\<close>

definition put_name :: "PEFile \<Rightarrow> nat \<Rightarrow> nat \<times> u32 \<Rightarrow> bytes list \<Rightarrow> bytes list" where
  "put_name pe count row names =
     (if fst row < count then names[fst row := StringAtRva pe (snd row)] else names)"

definition export_names :: "PEFile \<Rightarrow> nat \<Rightarrow> u32 option \<Rightarrow> u32 option \<Rightarrow> nat \<Rightarrow> bytes list" where
  "export_names pe count namesOffset ordinalsOffset n =
     (case (namesOffset, ordinalsOffset) of
        (Some names, Some ordinals) \<Rightarrow>
          fold (put_name pe count) (name_rows pe names ordinals n) (replicate count [])
      | _ \<Rightarrow> replicate count [])"

text \<open>The function at index \<open>i\<close>: nothing past the file, \<open>Some None\<close> for a gap in the ordinals.\<close>

definition export_at ::
  "PEFile \<Rightarrow> PEDataDirectory \<Rightarrow> u32 \<Rightarrow> u32 \<Rightarrow> bytes list \<Rightarrow> nat \<Rightarrow> PEExportedFunction option option" where
  "export_at pe dir base functionsOffset names i =
     (case At (m_Data pe) (unat functionsOffset + i * 4) 4 of
        None \<Rightarrow> None
      | Some s \<Rightarrow>
          (let rva = u32_at s 0
           in Some
                (if rva = 0 then None
                 else Some \<lparr>x_Name = names ! i, x_Ordinal = base + of_nat i, x_Rva = rva,
                            x_Forwarder =
                              (if rva \<ge> d_Rva dir \<and> rva - d_Rva dir < d_Size dir
                               then StringAtRva pe rva else [])\<rparr>)))"

definition GetExports :: "PEFile \<Rightarrow> PEExports option" where
  "GetExports pe =
     (case directory_of pe IMAGE_DIRECTORY_ENTRY_EXPORT of
        None \<Rightarrow> None
      | Some dir \<Rightarrow>
          (case RvaToOffset pe (d_Rva dir) of
             None \<Rightarrow> None
           | Some offset \<Rightarrow>
               (case At (m_Data pe) (unat offset) 40 of
                  None \<Rightarrow> None
                | Some e \<Rightarrow>
                    (let base = u32_at e 16;
                         count = min (unat (u32_at e 20)) MaxExports;
                         exports = \<lparr>e_Name = StringAtRva pe (u32_at e 12), e_Base = base, e_Functions = []\<rparr>
                     in case RvaToOffset pe (u32_at e 28) of
                          None \<Rightarrow> Some exports
                        | Some functionsOffset \<Rightarrow>
                            (let names = export_names pe count (RvaToOffset pe (u32_at e 32))
                                           (RvaToOffset pe (u32_at e 36)) (min (unat (u32_at e 24)) MaxExports)
                             in Some (exports\<lparr>e_Functions :=
                                  concat (map (case_option [] (\<lambda>f. [f]))
                                    (entries_from (export_at pe dir base functionsOffset names) count 0))\<rparr>))))))"

section \<open>Debug entries\<close>

record PEDebugEntry =
  g_Type :: u32
  g_TimeDateStamp :: u32
  g_Size :: u32
  g_Rva :: u32
  g_RawOffset :: u32
  g_Value :: u32

definition debug_entry :: "PEFile \<Rightarrow> u32 \<Rightarrow> nat \<Rightarrow> PEDebugEntry option" where
  "debug_entry pe offset i =
     (case At (m_Data pe) (unat offset + i * 28) 28 of
        None \<Rightarrow> None
      | Some d \<Rightarrow>
          (let type = u32_at d 12; sz = u32_at d 16; raw = u32_at d 24;
               val = (if type = 20 \<and> unat sz \<ge> 4
                      then (case At (m_Data pe) (unat raw) 4 of None \<Rightarrow> 0 | Some v \<Rightarrow> u32_at v 0)
                      else 0)
           in Some \<lparr>g_Type = type, g_TimeDateStamp = u32_at d 4, g_Size = sz, g_Rva = u32_at d 20,
                    g_RawOffset = raw, g_Value = val\<rparr>))"

definition GetDebugEntries :: "PEFile \<Rightarrow> PEDebugEntry list" where
  "GetDebugEntries pe =
     (case directory_of pe IMAGE_DIRECTORY_ENTRY_DEBUG of
        None \<Rightarrow> []
      | Some dir \<Rightarrow>
          (case RvaToOffset pe (d_Rva dir) of
             None \<Rightarrow> []
           | Some offset \<Rightarrow> entries_from (debug_entry pe offset) (min (unat (d_Size dir) div 28) 64) 0))"

record PECodeView =
  c_Signature :: bytes
  c_Age :: u32
  c_PdbPath :: bytes

text \<open>The first CodeView entry that holds an RSDS record: magic, GUID, age, then the path of the PDB.\<close>

definition codeview_of :: "PEFile \<Rightarrow> PEDebugEntry \<Rightarrow> PECodeView option" where
  "codeview_of pe e =
     (if g_Type e \<noteq> 2 \<or> unat (g_Size e) < 24 then None
      else
        (let raw = unat (g_RawOffset e)
         in case (At (m_Data pe) raw 4, At (m_Data pe) (raw + 4) 16, At (m_Data pe) (raw + 20) 4) of
              (Some magic, Some guid, Some age) \<Rightarrow>
                if u32_at magic 0 \<noteq> 0x53445352 then None
                else Some \<lparr>c_Signature = guid, c_Age = u32_at age 0,
                           c_PdbPath = StringAt (m_Data pe) (raw + 24) (min (unat (g_Size e) - 24) 1024)\<rparr>
            | _ \<Rightarrow> None))"

fun first_codeview :: "PEFile \<Rightarrow> PEDebugEntry list \<Rightarrow> PECodeView option" where
  "first_codeview pe [] = None"
| "first_codeview pe (e # es) =
     (case codeview_of pe e of None \<Rightarrow> first_codeview pe es | Some cv \<Rightarrow> Some cv)"

definition GetCodeView :: "PEFile \<Rightarrow> PECodeView option" where
  "GetCodeView pe = first_codeview pe (GetDebugEntries pe)"

section \<open>Resources\<close>

record PEResource =
  r_TypeId :: u16
  r_Type :: wstr
  r_NameId :: u16
  r_Name :: wstr
  r_Language :: u16
  r_Rva :: u32
  r_Size :: u32
  r_CodePage :: u32

text \<open>The lambda's local \<open>Entry\<close>.\<close>

record Entry =
  n_Id :: u16
  n_Name :: wstr
  n_Offset :: u32
  n_Directory :: bool

definition MaxResources :: nat where "MaxResources = 65536"

text \<open>An entry's name: a length in characters, then the characters, when they are all in the file.\<close>

definition resource_name :: "PEFile \<Rightarrow> u32 \<Rightarrow> u32 \<Rightarrow> wstr" where
  "resource_name pe base nameOffset =
     (let at = unat (base + nameOffset)
      in case At (m_Data pe) at 2 of
           None \<Rightarrow> []
         | Some l \<Rightarrow>
             (let chars = at + 2; n = unat (u16_at l 0)
              in if chars + n * 2 \<le> length (m_Data pe) then units (take (n * 2) (drop chars (m_Data pe)))
                 else []))"

definition resource_entry :: "PEFile \<Rightarrow> u32 \<Rightarrow> u32 \<Rightarrow> nat \<Rightarrow> Entry option" where
  "resource_entry pe base offset i =
     (case At (m_Data pe) (unat (base + offset) + 16 + i * 8) 8 of
        None \<Rightarrow> None
      | Some e \<Rightarrow>
          (let name = u32_at e 0; data = u32_at e 4; isString = (name AND 0x80000000 \<noteq> 0)
           in Some \<lparr>n_Id = (if isString then 0 else ucast name),
                    n_Name = (if isString then resource_name pe base (name AND 0x7FFFFFFF) else []),
                    n_Offset = data AND 0x7FFFFFFF,
                    n_Directory = (data AND 0x80000000 \<noteq> 0)\<rparr>))"

definition resource_entries :: "PEFile \<Rightarrow> u32 \<Rightarrow> u32 \<Rightarrow> Entry list" where
  "resource_entries pe base offset =
     (case At (m_Data pe) (unat (base + offset)) 16 of
        None \<Rightarrow> []
      | Some dir \<Rightarrow>
          entries_from (resource_entry pe base offset)
            (min (unat (u16_at dir 12) + unat (u16_at dir 14)) 4096) 0)"

text \<open>The body of the innermost loop: a leaf is added while there are fewer than \<open>MaxResources\<close>.\<close>

definition add_language :: "PEFile \<Rightarrow> u32 \<Rightarrow> Entry \<Rightarrow> Entry \<Rightarrow> Entry \<Rightarrow> PEResource list \<Rightarrow> PEResource list" where
  "add_language pe base type name language resources =
     (if n_Directory language \<or> length resources \<ge> MaxResources then resources
      else case At (m_Data pe) (unat (base + n_Offset language)) 16 of
        None \<Rightarrow> resources
      | Some data \<Rightarrow>
          resources @
            [\<lparr>r_TypeId = n_Id type, r_Type = n_Name type, r_NameId = n_Id name, r_Name = n_Name name,
              r_Language = n_Id language, r_Rva = u32_at data 0, r_Size = u32_at data 4,
              r_CodePage = u32_at data 8\<rparr>])"

definition add_name_level :: "PEFile \<Rightarrow> u32 \<Rightarrow> Entry \<Rightarrow> Entry \<Rightarrow> PEResource list \<Rightarrow> PEResource list" where
  "add_name_level pe base type name resources =
     (if \<not> n_Directory name then resources
      else fold (add_language pe base type name) (resource_entries pe base (n_Offset name)) resources)"

definition add_type_level :: "PEFile \<Rightarrow> u32 \<Rightarrow> Entry \<Rightarrow> PEResource list \<Rightarrow> PEResource list" where
  "add_type_level pe base type resources =
     (if \<not> n_Directory type then resources
      else fold (add_name_level pe base type) (resource_entries pe base (n_Offset type)) resources)"

definition GetResources :: "PEFile \<Rightarrow> PEResource list" where
  "GetResources pe =
     (case directory_start pe IMAGE_DIRECTORY_ENTRY_RESOURCE of
        None \<Rightarrow> []
      | Some base \<Rightarrow> fold (add_type_level pe base) (resource_entries pe base 0) [])"

definition GetResourceData :: "PEFile \<Rightarrow> PEResource \<Rightarrow> bytes" where
  "GetResourceData pe resource =
     (case RvaToOffset pe (r_Rva resource) of
        None \<Rightarrow> []
      | Some offset \<Rightarrow>
          if r_Size resource = 0 \<or> unat offset > length (m_Data pe)
             \<or> length (m_Data pe) - unat offset < unat (r_Size resource) then []
          else take (unat (r_Size resource)) (drop (unat offset) (m_Data pe)))"

section \<open>Icons\<close>

record PEIconEntry =
  i_Width :: u32
  i_Height :: u32
  i_BitCount :: u16
  i_ColorCount :: byte
  i_Size :: u32
  i_IconId :: u16

definition icon_entry :: "bytes \<Rightarrow> nat \<Rightarrow> PEIconEntry option" where
  "icon_entry data i =
     (let offset = 6 + i * 14
      in if offset + 14 > length data then None
         else Some \<lparr>i_Width = (if data ! offset \<noteq> 0 then ucast (data ! offset) else 256),
                    i_Height = (if data ! (offset + 1) \<noteq> 0 then ucast (data ! (offset + 1)) else 256),
                    i_BitCount = u16_at data (offset + 6),
                    i_ColorCount = data ! (offset + 2),
                    i_Size = u32_at data (offset + 8),
                    i_IconId = u16_at data (offset + 12)\<rparr>)"

definition GetIconGroup :: "PEFile \<Rightarrow> PEResource \<Rightarrow> PEIconEntry list" where
  "GetIconGroup pe grp =
     (if r_TypeId grp \<noteq> 14 then []
      else
        (let data = GetResourceData pe grp
         in if length data < 6 then []
            else if u16_at data 2 \<noteq> 1 then []
            else entries_from (icon_entry data) (min (unat (u16_at data 4)) 256) 0))"

text \<open>The icon with the language, else the first with the ID (\<open>any\<close>).\<close>

fun find_icon :: "u16 \<Rightarrow> u16 \<Rightarrow> PEResource list \<Rightarrow> PEResource option \<Rightarrow> PEResource option" where
  "find_icon iconId language [] any = any"
| "find_icon iconId language (r # rs) any =
     (if r_TypeId r \<noteq> 3 \<or> r_NameId r \<noteq> iconId then find_icon iconId language rs any
      else if r_Language r = language then Some r
      else find_icon iconId language rs (if any = None then Some r else any))"

definition FindIcon :: "PEResource list \<Rightarrow> u16 \<Rightarrow> u16 \<Rightarrow> PEResource option" where
  "FindIcon resources iconId language = find_icon iconId language resources None"

section \<open>The CLR header\<close>

record PEDotNet =
  t_RuntimeMajor :: u16
  t_RuntimeMinor :: u16
  t_Flags :: u32
  t_EntryPointToken :: u32
  t_MetadataRva :: u32
  t_MetadataSize :: u32
  t_MetadataVersion :: bytes

definition IsILOnly :: "PEDotNet \<Rightarrow> bool" where
  "IsILOnly info \<longleftrightarrow> t_Flags info AND 1 \<noteq> 0"

definition metadata_version :: "PEFile \<Rightarrow> u32 \<Rightarrow> bytes" where
  "metadata_version pe metadataRva =
     (case RvaToOffset pe metadataRva of
        None \<Rightarrow> []
      | Some root \<Rightarrow>
          (case (At (m_Data pe) (unat root) 4, At (m_Data pe) (unat (root + 12)) 4) of
             (Some signature, Some l) \<Rightarrow>
               if u32_at signature 0 = 0x424A5342 \<and> u32_at l 0 > 0 \<and> u32_at l 0 \<le> 256
               then StringAt (m_Data pe) (unat (root + 16)) (unat (u32_at l 0)) else []
           | _ \<Rightarrow> []))"

definition GetDotNet :: "PEFile \<Rightarrow> PEDotNet option" where
  "GetDotNet pe =
     (case directory_start pe IMAGE_DIRECTORY_ENTRY_COM_DESCRIPTOR of
        None \<Rightarrow> None
      | Some offset \<Rightarrow>
          (case At (m_Data pe) (unat offset) 72 of
             None \<Rightarrow> None
           | Some cor \<Rightarrow>
               if unat (u32_at cor 0) < 72 then None
               else Some \<lparr>t_RuntimeMajor = u16_at cor 4, t_RuntimeMinor = u16_at cor 6,
                          t_Flags = u32_at cor 16, t_EntryPointToken = u32_at cor 20,
                          t_MetadataRva = u32_at cor 8, t_MetadataSize = u32_at cor 12,
                          t_MetadataVersion = metadata_version pe (u32_at cor 8)\<rparr>))"

section \<open>Properties\<close>

subsection \<open>Imports\<close>

definition name_ok :: "bytes \<Rightarrow> bool" where
  "name_ok s \<longleftrightarrow> length s \<le> 512 \<and> 0 \<notin> set s"

definition function_ok :: "PEImportedFunction \<Rightarrow> bool" where
  "function_ok f \<longleftrightarrow> name_ok (f_Name f) \<and> (if f_ByOrdinal f then f_Name f = [] \<and> f_Hint f = 0 else f_Ordinal f = 0)"

definition library_ok :: "PEImportedLibrary \<Rightarrow> bool" where
  "library_ok l \<longleftrightarrow>
     name_ok (l_Name l) \<and> length (l_Functions l) \<le> MaxThunks \<and> list_all function_ok (l_Functions l)"

lemma name_ok_StringAt: "name_ok (StringAt d off 512)"
  using StringAt_text [of d off 512] by (simp add: name_ok_def)

lemma name_ok_Nil [simp]: "name_ok []"
  by (simp add: name_ok_def)

lemma name_ok_StringAtRva: "name_ok (StringAtRva pe rva)"
  by (simp add: StringAtRva_def name_ok_StringAt split: option.splits)

lemma function_ok_of: "function_ok (function_of pe thunk)"
  by (simp add: function_of_def no_function_def function_ok_def name_ok_StringAt split: option.splits)

lemma ReadThunks_ok: "length (ReadThunks pe rva) \<le> MaxThunks \<and> list_all function_ok (ReadThunks pe rva)"
proof (cases "RvaToOffset pe rva")
  case (Some offset)
  let ?read = "\<lambda>i. case thunk_at pe offset i of None \<Rightarrow> None
    | Some thunk \<Rightarrow> if thunk = 0 then None else Some (function_of pe thunk)"
  have "length (entries_from ?read MaxThunks 0) \<le> MaxThunks"
    using length_entries_from [of ?read MaxThunks 0] by simp
  moreover have "list_all function_ok (entries_from ?read MaxThunks 0)"
    by (rule list_all_entries_from) (auto simp: function_ok_of split: option.splits if_splits)
  ultimately show ?thesis using Some by (simp add: ReadThunks_def)
qed (simp add: ReadThunks_def)

lemma import_library_ok: "import_library pe offset i = Some l \<Longrightarrow> library_ok l \<and> \<not> l_Delayed l"
  by (auto simp: import_library_def Let_def library_ok_def name_ok_StringAtRva ReadThunks_ok
      split: option.splits if_splits)

lemma delayed_library_ok: "delayed_library pe offset i = Some l \<Longrightarrow> library_ok l \<and> l_Delayed l"
  by (auto simp: delayed_library_def Let_def library_ok_def name_ok_StringAtRva ReadThunks_ok
      split: option.splits if_splits)

definition imports_of :: "bool \<Rightarrow> PEImportedLibrary list \<Rightarrow> bool" where
  "imports_of delayed ls \<longleftrightarrow>
     length ls \<le> MaxLibraries \<and> list_all (\<lambda>l. library_ok l \<and> l_Delayed l = delayed) ls"

lemma imports_of_entries:
  assumes "\<And>i l. f i = Some l \<Longrightarrow> library_ok l \<and> l_Delayed l = delayed"
  shows "imports_of delayed (entries_from f MaxLibraries 0)"
  using length_entries_from [of f MaxLibraries 0] list_all_entries_from [OF assms]
  by (simp add: imports_of_def)


subsection \<open>Exports\<close>

lemma put_name_length: "length (fold (put_name pe count) rows names) = length names"
  by (induction rows arbitrary: names) (auto simp: put_name_def)

lemma put_names_nth:
  "i < length names \<Longrightarrow> length names = count \<Longrightarrow>
   fold (put_name pe count) rows names ! i =
     (case map_of (rev rows) i of None \<Rightarrow> names ! i | Some rva \<Rightarrow> StringAtRva pe rva)"
proof (induction rows arbitrary: names)
  case (Cons row rows)
  then show ?case
    by (cases row) (auto simp: put_name_def map_add_def nth_list_update split: option.splits)
qed simp

lemma export_names_last:
  "fold (put_name pe count) rows (replicate count []) =
     map (\<lambda>i. case map_of (rev rows) i of None \<Rightarrow> [] | Some rva \<Rightarrow> StringAtRva pe rva) [0..<count]"
  by (rule nth_equalityI) (auto simp: put_name_length put_names_nth split: option.splits)

definition export_ok :: "PEFile \<Rightarrow> PEExportedFunction \<Rightarrow> bool" where
  "export_ok pe f \<longleftrightarrow>
     x_Rva f \<noteq> 0 \<and> name_ok (x_Forwarder f) \<and>
     (x_Forwarder f = [] \<or>
       (\<exists>dir. directory_of pe IMAGE_DIRECTORY_ENTRY_EXPORT = Some dir \<and>
          d_Rva dir \<le> x_Rva f \<and> x_Rva f - d_Rva dir < d_Size dir))"

definition exports_ok :: "PEFile \<Rightarrow> PEExports \<Rightarrow> bool" where
  "exports_ok pe ex \<longleftrightarrow>
     length (e_Functions ex) \<le> MaxExports \<and> list_all (export_ok pe) (e_Functions ex) \<and>
     distinct (map x_Ordinal (e_Functions ex)) \<and>
     (\<exists>idx. sorted_wrt (<) idx \<and> map x_Ordinal (e_Functions ex) = map (\<lambda>i. e_Base ex + of_nat i) idx)"

lemma concat_options: "concat (map (case_option [] (\<lambda>f. [f])) xs) = map the (filter (\<lambda>x. x \<noteq> None) xs)"
  by (induction xs) (auto split: option.splits)

lemma distinct_ordinals:
  assumes "sorted_wrt (<) idx" and "list_all (\<lambda>i. i < MaxExports) idx"
  shows "distinct (map (\<lambda>i. base + of_nat i :: u32) idx)"
proof -
  have "inj_on (\<lambda>i. base + of_nat i :: u32) (set idx)"
  proof (rule inj_onI)
    fix x y assume "x \<in> set idx" "y \<in> set idx" and eq: "base + of_nat x = (base + of_nat y :: u32)"
    then have "x < 2 ^ 32" "y < 2 ^ 32"
      using assms(2) by (auto simp: list_all_iff MaxExports_def)
    with eq show "x = y" by (simp add: word_of_nat_eq_iff take_bit_nat_eq_self)
  qed
  with assms(1) show ?thesis by (simp add: distinct_map strict_sorted_iff)
qed

lemma export_functions_ok:
  fixes pe dir base functionsOffset names n
  assumes dir: "directory_of pe IMAGE_DIRECTORY_ENTRY_EXPORT = Some dir" and n: "n \<le> MaxExports"
  defines "fs \<equiv> concat (map (case_option [] (\<lambda>f. [f]))
             (entries_from (export_at pe dir base functionsOffset names) n 0))"
  shows "exports_ok pe \<lparr>e_Name = nm, e_Base = base, e_Functions = fs\<rparr>"
proof -
  let ?es = "entries_from (export_at pe dir base functionsOffset names) n 0"
  define idx where "idx = filter (\<lambda>i. ?es ! i \<noteq> None) [0..<length ?es]"
  have fs: "fs = map (\<lambda>i. the (?es ! i)) idx"
  proof -
    have "?es = map (\<lambda>i. ?es ! i) [0..<length ?es]" by (simp add: map_nth)
    then have "filter (\<lambda>x. x \<noteq> None) ?es = map (\<lambda>i. ?es ! i) idx"
      unfolding idx_def by (metis (no_types, lifting) filter_map comp_def filter_cong)
    then show ?thesis by (simp add: fs_def concat_options)
  qed
  have len: "length ?es \<le> n" using length_entries_from [of _ n 0] by simp
  have at: "export_at pe dir base functionsOffset names i = Some (?es ! i)" if "i < length ?es" for i
    using entries_from_run [of 0 n] that by auto
  have item: "export_ok pe f \<and> x_Ordinal f = base + of_nat i" if "i \<in> set idx" "?es ! i = Some f" for i f
  proof -
    have "export_at pe dir base functionsOffset names i = Some (Some f)"
      using at [of i] that by (auto simp: idx_def)
    then show ?thesis
      using dir by (auto simp: export_at_def Let_def export_ok_def name_ok_StringAtRva split: option.splits if_splits)
  qed
  have all: "list_all (\<lambda>i. export_ok pe (the (?es ! i)) \<and> x_Ordinal (the (?es ! i)) = base + of_nat i) idx"
    using item by (auto simp: list_all_iff idx_def)
  have srt: "sorted_wrt (<) idx" unfolding idx_def by (simp add: sorted_wrt_filter)
  have ord: "map x_Ordinal fs = map (\<lambda>i. base + of_nat i) idx"
    using all by (auto simp: fs list_all_iff)
  have bnd: "list_all (\<lambda>i. i < MaxExports) idx"
    using len n by (auto simp: list_all_iff idx_def)
  have "length idx \<le> length ?es" unfolding idx_def by (metis length_filter_le length_upt minus_nat.diff_0)
  then have "length fs \<le> MaxExports" using len n by (simp add: fs)
  moreover have "list_all (export_ok pe) fs" using all by (auto simp: fs list_all_iff)
  moreover have "distinct (map x_Ordinal fs)" unfolding ord using srt bnd by (rule distinct_ordinals)
  ultimately show ?thesis using srt ord by (auto simp: exports_ok_def)
qed

text \<open>\<open>GetExports\<close> gives at most \<open>MaxExports\<close> functions, none with RVA 0; their ordinals are the base plus
  strictly increasing table indices, so no two functions share one although the sum wraps; a forwarder is
  only read where the function's RVA points into the export directory itself.\<close>

theorem GetExports_ok: "case GetExports pe of None \<Rightarrow> True | Some ex \<Rightarrow> exports_ok pe ex"
proof (cases "GetExports pe")
  case (Some ex)
  have none: "exports_ok pe \<lparr>e_Name = nm, e_Base = base, e_Functions = []\<rparr>" for nm base
    by (simp add: exports_ok_def)
  from Some show ?thesis
    by (auto simp: GetExports_def Let_def none intro!: export_functions_ok split: option.splits)
qed simp

subsection \<open>Resources\<close>

text \<open>Every leaf of the directory tree, in order and without the limit.\<close>

definition leaf :: "PEFile \<Rightarrow> u32 \<Rightarrow> Entry \<Rightarrow> Entry \<Rightarrow> Entry \<Rightarrow> PEResource list" where
  "leaf pe base type name language =
     (if n_Directory language then []
      else case At (m_Data pe) (unat (base + n_Offset language)) 16 of
        None \<Rightarrow> []
      | Some data \<Rightarrow>
          [\<lparr>r_TypeId = n_Id type, r_Type = n_Name type, r_NameId = n_Id name, r_Name = n_Name name,
            r_Language = n_Id language, r_Rva = u32_at data 0, r_Size = u32_at data 4,
            r_CodePage = u32_at data 8\<rparr>])"

definition children :: "PEFile \<Rightarrow> u32 \<Rightarrow> Entry \<Rightarrow> Entry list" where
  "children pe base e = (if n_Directory e then resource_entries pe base (n_Offset e) else [])"

definition all_leaves :: "PEFile \<Rightarrow> u32 \<Rightarrow> PEResource list" where
  "all_leaves pe base =
     concat (map (\<lambda>type. concat (map (\<lambda>name. concat (map (leaf pe base type name) (children pe base name)))
       (children pe base type))) (resource_entries pe base 0))"

text \<open>A step that appends while there is room keeps the first \<open>MaxResources\<close> of what it would append.\<close>

definition appends_limited :: "('a \<Rightarrow> PEResource list \<Rightarrow> PEResource list) \<Rightarrow> ('a \<Rightarrow> PEResource list) \<Rightarrow> bool" where
  "appends_limited step items \<longleftrightarrow>
     (\<forall>x acc. length acc \<le> MaxResources \<longrightarrow> step x acc = take MaxResources (acc @ items x))"

lemma fold_appends_limited:
  assumes "appends_limited step items"
  shows "length acc \<le> MaxResources \<Longrightarrow> fold step xs acc = take MaxResources (acc @ concat (map items xs))"
proof (induction xs arbitrary: acc)
  case (Cons x xs)
  have step: "step x acc = take MaxResources (acc @ items x)"
    using assms Cons.prems by (simp add: appends_limited_def)
  have "fold step xs (take MaxResources (acc @ items x)) =
      take MaxResources (take MaxResources (acc @ items x) @ concat (map items xs))"
    by (rule Cons.IH) simp
  also have "\<dots> = take MaxResources (acc @ items x @ concat (map items xs))"
    by (simp add: min_def)
  finally show ?case using step by simp
qed simp

lemma add_language_limited: "appends_limited (add_language pe base type name) (leaf pe base type name)"
  by (auto simp: appends_limited_def add_language_def leaf_def split: option.splits)

lemma add_name_limited:
  "appends_limited (add_name_level pe base type)
     (\<lambda>name. concat (map (leaf pe base type name) (children pe base name)))"
  by (auto simp: appends_limited_def add_name_level_def children_def
      fold_appends_limited [OF add_language_limited])

lemma add_type_limited:
  "appends_limited (add_type_level pe base)
     (\<lambda>type. concat (map (\<lambda>name. concat (map (leaf pe base type name) (children pe base name)))
        (children pe base type)))"
  by (auto simp: appends_limited_def add_type_level_def children_def [of pe base "_ :: Entry"]
      fold_appends_limited [OF add_name_limited])

text \<open>\<open>GetResources\<close> returns the leaves of the three-level directory tree in the tree's order, the first
  65536 of them: the size test inside the innermost loop loses no earlier leaf and adds none.\<close>

theorem GetResources_leaves:
  "GetResources pe =
     (case directory_start pe IMAGE_DIRECTORY_ENTRY_RESOURCE of
        None \<Rightarrow> []
      | Some base \<Rightarrow> take MaxResources (all_leaves pe base))"
  by (auto simp: GetResources_def all_leaves_def fold_appends_limited [OF add_type_limited]
      split: option.splits)

text \<open>A resource's data is empty, or exactly its \<open>Size\<close> bytes of the file at the offset of its RVA.\<close>

theorem GetResourceData_slice:
  "GetResourceData pe r = [] \<or>
   (\<exists>off. RvaToOffset pe (r_Rva r) = Some off \<and> unat off + unat (r_Size r) \<le> length (m_Data pe) \<and>
      GetResourceData pe r = take (unat (r_Size r)) (drop (unat off) (m_Data pe)) \<and>
      length (GetResourceData pe r) = unat (r_Size r))"
  by (auto simp: GetResourceData_def split: option.splits)

subsection \<open>Icons\<close>

definition icon_ok :: "PEIconEntry \<Rightarrow> bool" where
  "icon_ok e \<longleftrightarrow> 1 \<le> i_Width e \<and> i_Width e \<le> 256 \<and> 1 \<le> i_Height e \<and> i_Height e \<le> 256"

lemma icon_side:
  fixes b :: byte
  shows "b \<noteq> 0 \<Longrightarrow> 1 \<le> (ucast b :: u32) \<and> (ucast b :: u32) \<le> 256"
proof -
  assume "b \<noteq> 0"
  then have "1 \<le> unat b" by (simp add: Suc_le_eq unat_gt_0)
  moreover have "unat (ucast b :: u32) = unat b"
    using unat_less_2p [of b] by (simp add: unsigned_ucast_eq take_bit_nat_eq_self)
  ultimately show ?thesis
    using unat_less_2p [of b] by (simp add: word_le_nat_alt)
qed

lemma icon_entry_ok: "icon_entry data i = Some e \<Longrightarrow> icon_ok e"
  by (auto simp: icon_entry_def Let_def icon_ok_def icon_side split: if_splits)

text \<open>\<open>GetIconGroup\<close> gives at most 256 icons, and a side the file stores as 0 is 256: every width and
  height is between 1 and 256.\<close>

theorem GetIconGroup_ok:
  "length (GetIconGroup pe grp) \<le> 256 \<and> list_all icon_ok (GetIconGroup pe grp)"
proof -
  have "list_all icon_ok (entries_from (icon_entry data) n 0)" for data n
    by (rule list_all_entries_from) (rule icon_entry_ok)
  moreover have "length (entries_from (icon_entry data) (min n 256) 0) \<le> 256" for data n
    using length_entries_from [of "icon_entry data" "min n 256" 0] by simp
  ultimately show ?thesis by (simp add: GetIconGroup_def Let_def)
qed

definition is_icon :: "u16 \<Rightarrow> PEResource \<Rightarrow> bool" where
  "is_icon iconId r \<longleftrightarrow> r_TypeId r = 3 \<and> r_NameId r = iconId"

lemma find_icon_find:
  "find_icon iconId language rs any =
     (case find (\<lambda>r. is_icon iconId r \<and> r_Language r = language) rs of
        Some r \<Rightarrow> Some r
      | None \<Rightarrow> (case any of Some r \<Rightarrow> Some r | None \<Rightarrow> find (is_icon iconId) rs))"
  by (induction iconId language rs any rule: find_icon.induct)
     (auto simp: is_icon_def split: option.splits)

text \<open>\<open>FindIcon\<close> prefers the icon of the language and otherwise gives the first icon with the ID.\<close>

theorem FindIcon_prefers_language:
  "FindIcon rs iconId language =
     (case find (\<lambda>r. is_icon iconId r \<and> r_Language r = language) rs of
        Some r \<Rightarrow> Some r
      | None \<Rightarrow> find (is_icon iconId) rs)"
  by (simp add: FindIcon_def find_icon_find split: option.splits)

end
