(* ===== verification/PE_Names.thy ===== *)
theory PE_Names
  imports Win_Prelude
begin

text \<open>
  The texts of a PE image's numbers and flags (\<open>WinSys/PEFile.cpp\<close>): the \<open>switch\<close> functions as a table of
  cases with a default, and the flag lists that \<open>FlagsText\<close> turns into names with commas between.
\<close>

section \<open>Names of numbers\<close>

text \<open>A \<open>switch\<close> over constants that returns a literal.\<close>

definition switch :: "('a \<times> string) list \<Rightarrow> string \<Rightarrow> 'a \<Rightarrow> wstr" where
  "switch cases otherwise x = wide (case map_of cases x of Some name \<Rightarrow> name | None \<Rightarrow> otherwise)"

definition DebugTypeName :: "u32 \<Rightarrow> wstr" where
  "DebugTypeName = switch
     [(1, ''COFF''), (2, ''CodeView''), (3, ''FPO''), (4, ''Misc''), (5, ''Exception''), (6, ''Fixup''),
      (9, ''Borland''), (11, ''CLSID''), (12, ''VC Feature''), (13, ''POGO''), (14, ''ILTCG''), (15, ''MPX''),
      (16, ''Repro''), (17, ''Embedded Portable PDB''), (19, ''PDB Checksum''),
      (20, ''Extended DLL Characteristics'')] ''Other''"

definition MachineName :: "u16 \<Rightarrow> wstr" where
  "MachineName = switch
     [(0x14C, ''x86''), (0x8664, ''x64''), (0xAA64, ''ARM64''), (0x1C4, ''ARM (Thumb-2)''), (0x1C0, ''ARM''),
      (0x200, ''IA-64''), (0xA641, ''ARM64EC''), (0xA64E, ''ARM64X''), (0, ''Unknown'')] ''Other''"

definition SubsystemName :: "u16 \<Rightarrow> wstr" where
  "SubsystemName = switch
     [(1, ''Native''), (2, ''Windows GUI''), (3, ''Windows Console''), (7, ''POSIX Console''),
      (9, ''Windows CE GUI''), (10, ''EFI Application''), (11, ''EFI Boot Service Driver''),
      (12, ''EFI Runtime Driver''), (13, ''EFI ROM''), (14, ''Xbox''), (16, ''Windows Boot Application'')]
     ''Unknown''"

definition ResourceTypeName :: "u16 \<Rightarrow> wstr" where
  "ResourceTypeName = switch
     [(1, ''Cursor''), (2, ''Bitmap''), (3, ''Icon''), (4, ''Menu''), (5, ''Dialog''), (6, ''String Table''),
      (7, ''Font Directory''), (8, ''Font''), (9, ''Accelerators''), (10, ''Data (RCDATA)''),
      (11, ''Message Table''), (12, ''Cursor Group''), (14, ''Icon Group''), (16, ''Version''),
      (17, ''Dialog Include''), (19, ''Plug and Play''), (20, ''VxD''), (21, ''Animated Cursor''),
      (22, ''Animated Icon''), (23, ''HTML''), (24, ''Manifest''), (240, ''Dialog Init''), (241, ''Toolbar'')] ''''"

definition directory_names :: "string list" where
  "directory_names =
     [''Export'', ''Import'', ''Resource'', ''Exception'', ''Security'', ''Base Relocation'', ''Debug'',
      ''Architecture'', ''Global Pointer'', ''TLS'', ''Load Configuration'', ''Bound Import'',
      ''Import Address Table'', ''Delay Import'', ''COM Descriptor (.NET)'', ''Reserved'']"

definition DirectoryName :: "int \<Rightarrow> wstr" where
  "DirectoryName index =
     (if index \<ge> 0 \<and> index < int (length directory_names) then wide (directory_names ! nat index) else [])"

section \<open>Names of flags\<close>

type_synonym 'a flag_names = "('a word \<times> string) list"

definition flag_set :: "'a::len word \<Rightarrow> 'a word \<Rightarrow> bool" where
  "flag_set val flag \<longleftrightarrow> (val AND flag) = flag \<and> flag \<noteq> 0"

fun flags_from :: "'a::len word \<Rightarrow> 'a flag_names \<Rightarrow> wstr \<Rightarrow> wstr" where
  "flags_from val [] text = text"
| "flags_from val ((flag, name) # rest) text =
     flags_from val rest
       (if flag_set val flag then text @ (if text = [] then [] else wide '', '') @ wide name else text)"

definition FlagsText :: "'a::len word \<Rightarrow> 'a flag_names \<Rightarrow> wstr" where
  "FlagsText val flags = flags_from val flags []"

definition file_flags :: "16 flag_names" where
  "file_flags =
     [(0x2, ''Executable''), (0x2000, ''DLL''), (0x1000, ''System''), (0x20, ''Large address aware''),
      (0x100, ''32-bit''), (0x1, ''Relocations stripped''), (0x200, ''Debug info stripped''),
      (0x400, ''Run from swap (removable)''), (0x800, ''Run from swap (network)''),
      (0x4000, ''Uniprocessor only'')]"

definition CharacteristicsText :: "u16 \<Rightarrow> wstr" where
  "CharacteristicsText c = FlagsText c file_flags"

definition dll_flags :: "16 flag_names" where
  "dll_flags =
     [(0x20, ''High entropy VA''), (0x40, ''ASLR''), (0x80, ''Force integrity''), (0x100, ''DEP''),
      (0x200, ''No isolation''), (0x400, ''No SEH''), (0x800, ''No bind''), (0x1000, ''AppContainer''),
      (0x2000, ''WDM driver''), (0x4000, ''Control Flow Guard''), (0x8000, ''Terminal Server aware'')]"

definition DllCharacteristicsText :: "u16 \<Rightarrow> wstr" where
  "DllCharacteristicsText c = FlagsText c dll_flags"

definition section_flags :: "32 flag_names" where
  "section_flags =
     [(0x20, ''Code''), (0x40, ''Initialized data''), (0x80, ''Uninitialized data''),
      (0x02000000, ''Discardable''), (0x10000000, ''Shared''), (0x08000000, ''Not paged'')]"

text \<open>The protection, as the loader maps it, then the other flags.\<close>

definition section_access :: "u32 \<Rightarrow> wstr" where
  "section_access c =
     wide (if c AND 0x40000000 \<noteq> 0 then ''R'' else '''') @
     wide (if c AND 0x80000000 \<noteq> 0 then ''W'' else '''') @
     wide (if c AND 0x20000000 \<noteq> 0 then ''X'' else '''')"

definition SectionCharacteristicsText :: "u32 \<Rightarrow> wstr" where
  "SectionCharacteristicsText c =
     (let text = FlagsText c section_flags; access = section_access c
      in if access \<noteq> [] then access @ (if text = [] then [] else wide '': '' @ text) else text)"

definition ex_dll_flags :: "32 flag_names" where
  "ex_dll_flags =
     [(0x01, ''CET compatible''), (0x02, ''CET strict mode''), (0x04, ''CET: relaxed SetContext''),
      (0x08, ''CET: no dynamic APIs out of process''), (0x40, ''Forward CFI compatible''),
      (0x80, ''Hot patch compatible'')]"

definition ExDllCharacteristicsText :: "u32 \<Rightarrow> wstr" where
  "ExDllCharacteristicsText flags = FlagsText flags ex_dll_flags"

definition dotnet_flags :: "32 flag_names" where
  "dotnet_flags =
     [(0x1, ''IL only''), (0x2, ''32-bit required''), (0x20000, ''32-bit preferred''), (0x4, ''IL library''),
      (0x8, ''Strong-name signed''), (0x10, ''Native entry point''), (0x10000, ''Track debug data'')]"

definition DotNetFlagsText :: "u32 \<Rightarrow> wstr" where
  "DotNetFlagsText flags = FlagsText flags dotnet_flags"

section \<open>Properties\<close>

definition flag_list :: "'a::len word \<Rightarrow> 'a flag_names \<Rightarrow> wstr" where
  "flag_list val flags = join (wide '', '') (map (wide \<circ> snd) (filter (flag_set val \<circ> fst) flags))"

lemma flags_from_foldl:
  "flags_from val flags acc =
     foldl (add_name (wide '', '')) acc (map (wide \<circ> snd) (filter (flag_set val \<circ> fst) flags))"
  by (induction val flags acc rule: flags_from.induct) (auto simp: add_name_def)

lemma FlagsText_list:
  "list_all (\<lambda>e. snd e \<noteq> []) flags \<Longrightarrow> FlagsText val flags = flag_list val flags"
  unfolding FlagsText_def flags_from_foldl flag_list_def
  by (rule fold_add_name) (auto simp: list_all_iff)

lemmas flag_tables = file_flags_def dll_flags_def section_flags_def ex_dll_flags_def dotnet_flags_def

text \<open>Each flags text is the names of exactly the flags that are set, in the table's order with
  \<open>", "\<close> between them; a section's text has its access letters in front, with \<open>": "\<close> only when both parts
  are there.\<close>

theorem flag_texts:
  "CharacteristicsText c = flag_list c file_flags \<and>
   DllCharacteristicsText c = flag_list c dll_flags \<and>
   ExDllCharacteristicsText f = flag_list f ex_dll_flags \<and>
   DotNetFlagsText f = flag_list f dotnet_flags \<and>
   SectionCharacteristicsText f =
     join (wide '': '') (filter (\<lambda>s. s \<noteq> []) [section_access f, flag_list f section_flags])"
proof -
  have named: "FlagsText c file_flags = flag_list c file_flags" "FlagsText c dll_flags = flag_list c dll_flags"
    "FlagsText f ex_dll_flags = flag_list f ex_dll_flags" "FlagsText f dotnet_flags = flag_list f dotnet_flags"
    "FlagsText f section_flags = flag_list f section_flags"
    by (rule FlagsText_list, simp add: flag_tables)+
  then show ?thesis
    by (simp add: CharacteristicsText_def DllCharacteristicsText_def ExDllCharacteristicsText_def
        DotNetFlagsText_def SectionCharacteristicsText_def Let_def)
qed

end
