(* ===== verification/Process_Manager.thy ===== *)
theory Process_Manager
  imports Win_Prelude "HOL-Library.Signed_Division"
begin

text \<open>
  The process snapshots (\<open>WinSys/ProcessManager.h\<close>, \<open>ProcessInfo.h/.cpp\<close>, \<open>ThreadInfo.h\<close>, \<open>Keys.h\<close>):
  \<open>Update\<close> queries the system into one of two buffers in turn, matches each process and thread with the
  previous snapshot's by its key, and reports what is new and what is gone. A \<open>NativeInfo\<close> pointer is a
  reference into a buffer (buffer, entry, thread), so that what a later query overwrites is visible. The
  chain of entries that \<open>NextEntryOffset\<close> links is a list.
\<close>

section \<open>What the system reports\<close>

type_synonym s32 = "32 word"

record ProcessOrThreadKey =
  Created :: int
  key_Id :: u32

text \<open>\<open>SYSTEM_EXTENDED_THREAD_INFORMATION\<close> and \<open>SYSTEM_PROCESS_INFORMATION\<close> with its extension: the fields used.\<close>

record ThreadEntry =
  te_CreateTime :: int
  te_UniqueThread :: u32
  te_UniqueProcess :: u32
  te_KernelTime :: int
  te_UserTime :: int

record ProcessEntry =
  pe_CreateTime :: int
  pe_UniqueProcessId :: u32
  pe_InheritedFromUniqueProcessId :: u32
  pe_KernelTime :: int
  pe_UserTime :: int
  pe_ImageName :: wstr
  pe_HasPackage :: bool
  pe_Threads :: "ThreadEntry list"

text \<open>
  The system: \<open>query k n\<close> is what \<open>NtQuerySystemInformation\<close> does with a buffer of \<open>n\<close> bytes at the try \<open>k\<close>
  (a failed call leaves the buffer with whatever it wrote), \<open>alloc k n\<close> whether \<open>VirtualAlloc\<close> succeeds,
  \<open>counter k\<close> the performance counter; \<open>wild\<close> is what memory that is no longer the entry's reads as.
\<close>

datatype QueryStatus = Success "ProcessEntry list" | LengthMismatch u32 | Failed "ProcessEntry list"

record System =
  query :: "nat \<Rightarrow> u32 \<Rightarrow> QueryStatus"
  alloc :: "nat \<Rightarrow> u32 \<Rightarrow> bool"
  counter :: "nat \<Rightarrow> int"

record Machine =
  s_TotalProcessors :: u32
  s_UseFullInfo :: bool
  s_QpcFrequency :: int
  wild :: "nat \<times> nat \<Rightarrow> ProcessEntry"
  wild_thread :: "nat \<times> nat \<times> nat \<Rightarrow> ThreadEntry"

section \<open>State\<close>

record ThreadInfo =
  t_Id :: u32
  t_ProcessId :: u32
  t_CPU :: s32
  t_Key :: ProcessOrThreadKey
  t_NativeInfo :: "nat \<times> nat \<times> nat"
  t_ProcessName :: wstr

record ProcessInfo =
  NativeInfo :: "nat \<times> nat"
  ExtendedInfo :: "(nat \<times> nat) option"
  m_PackageFullName :: "(nat \<times> nat) option"
  p_Id :: u32
  ParentId :: u32
  p_CPU :: s32
  KernelCPU :: s32
  p_Key :: ProcessOrThreadKey
  m_ProcessName :: wstr
  m_NativeImagePath :: wstr
  m_threads :: "ThreadInfo list"

record ProcessManager =
  m_ProcessesById :: "(u32, ProcessInfo) table"
  m_Processes :: "ProcessInfo list"
  m_TerminatedProcesses :: "ProcessInfo list"
  m_NewProcesses :: "ProcessInfo list"
  m_processesByKey :: "(ProcessOrThreadKey, ProcessInfo) table"
  m_Threads :: "ThreadInfo list"
  m_NewThreads :: "ThreadInfo list"
  m_TerminatedThreads :: "ThreadInfo list"
  m_ThreadsById :: "(u32, ThreadInfo) table"
  m_threadsByKey :: "(ProcessOrThreadKey, ThreadInfo) table"
  m_ThreadsPid :: u32
  m_PrevTicks :: int
  m_Buffer :: "nat \<Rightarrow> ProcessEntry list option"
  m_BufferSize :: "nat \<Rightarrow> u32"
  m_BufIndex :: nat

definition initial :: ProcessManager where
  "initial = \<lparr>m_ProcessesById = [], m_Processes = [], m_TerminatedProcesses = [], m_NewProcesses = [],
     m_processesByKey = [], m_Threads = [], m_NewThreads = [], m_TerminatedThreads = [], m_ThreadsById = [],
     m_threadsByKey = [], m_ThreadsPid = 0, m_PrevTicks = 0, m_Buffer = (\<lambda>_. None), m_BufferSize = (\<lambda>_. 0),
     m_BufIndex = 0\<rparr>"

section \<open>The query\<close>

text \<open>
  One buffer filled, growing it as needed: \<open>n\<close> tries are left, \<open>k\<close> were made. The result is the buffer, its
  size and, when the query succeeded, the ticks taken with it.
\<close>

fun query_tries ::
  "System \<Rightarrow> nat \<Rightarrow> nat \<Rightarrow> ProcessEntry list option \<Rightarrow> u32 \<Rightarrow> ProcessEntry list option \<times> u32 \<times> int option"
where
  "query_tries os k 0 buf sz = (buf, sz, None)"
| "query_tries os k (Suc n) buf sz =
     (let sz = (if buf = None \<and> sz = 0 then 0x400000 else sz)
      in if buf = None \<and> \<not> alloc os k sz then (None, sz, None)
         else case query os k sz of
           Success entries \<Rightarrow> (Some entries, sz, Some (counter os k))
         | Failed junk \<Rightarrow> (Some junk, sz, None)
         | LengthMismatch len \<Rightarrow> query_tries os (Suc k) n None (max (sz * 2) (len + 0x10000)))"

definition QuerySystemProcesses :: "System \<Rightarrow> ProcessManager \<Rightarrow> ProcessManager \<times> int option" where
  "QuerySystemProcesses os s =
     (let b = m_BufIndex s;
          (buf, sz, ticks) = query_tries os 0 4 (m_Buffer s b) (m_BufferSize s b)
      in (s\<lparr>m_Buffer := (m_Buffer s)(b := buf), m_BufferSize := (m_BufferSize s)(b := sz)\<rparr>, ticks))"

section \<open>Reading through the pointers\<close>

definition entry_at :: "Machine \<Rightarrow> (nat \<Rightarrow> ProcessEntry list option) \<Rightarrow> nat \<times> nat \<Rightarrow> ProcessEntry" where
  "entry_at M buffers ref =
     (case buffers (fst ref) of
        None \<Rightarrow> wild M ref
      | Some es \<Rightarrow> if snd ref < length es then es ! snd ref else wild M ref)"

definition thread_entry_at ::
  "Machine \<Rightarrow> (nat \<Rightarrow> ProcessEntry list option) \<Rightarrow> nat \<times> nat \<times> nat \<Rightarrow> ThreadEntry" where
  "thread_entry_at M buffers ref =
     (case ref of (b, i, j) \<Rightarrow>
       (case buffers b of
          None \<Rightarrow> wild_thread M ref
        | Some es \<Rightarrow>
            if i < length es \<and> j < length (pe_Threads (es ! i)) then pe_Threads (es ! i) ! j
            else wild_thread M ref))"

section \<open>Building a process and its threads\<close>

text \<open>\<open>int64_t\<close> arithmetic, and \<open>(int32_t)(elapsed * 1000000 / delta / s_TotalProcessors)\<close>.\<close>

definition wrap64 :: "int \<Rightarrow> int" where
  "wrap64 x = signed_take_bit 63 x"

definition cpu_of :: "Machine \<Rightarrow> int \<Rightarrow> int \<Rightarrow> s32" where
  "cpu_of M delta elapsed =
     (if delta = 0 then 0
      else word_of_int ((wrap64 (wrap64 elapsed * 1000000) sdiv delta) sdiv uint (s_TotalProcessors M)))"

definition key_of :: "ProcessEntry \<Rightarrow> ProcessOrThreadKey" where
  "key_of e = \<lparr>Created = pe_CreateTime e, key_Id = pe_UniqueProcessId e\<rparr>"

definition thread_key :: "ThreadEntry \<Rightarrow> ProcessOrThreadKey" where
  "thread_key e = \<lparr>Created = te_CreateTime e, key_Id = te_UniqueThread e\<rparr>"

text \<open>\<open>name.substr(name.rfind(L'\\') + 1)\<close>: the part after the last backslash.\<close>

definition after_backslash :: "wstr \<Rightarrow> wstr" where
  "after_backslash name = rev (takeWhile (\<lambda>c. c \<noteq> 0x5C) (rev name))"

definition image_name :: "ProcessEntry \<Rightarrow> wstr" where
  "image_name e = (if pe_UniqueProcessId e = 0 then wide ''(Idle)'' else pe_ImageName e)"

definition new_process :: "nat \<times> nat \<Rightarrow> ProcessEntry \<Rightarrow> bool \<Rightarrow> ProcessInfo" where
  "new_process ref e extended =
     (let name = image_name e; full = (extended \<and> pe_UniqueProcessId e \<noteq> 0)
      in \<lparr>NativeInfo = ref,
          ExtendedInfo = (if full then Some ref else None),
          m_PackageFullName = (if full \<and> pe_HasPackage e then Some ref else None),
          p_Id = pe_UniqueProcessId e, ParentId = pe_InheritedFromUniqueProcessId e,
          p_CPU = 0, KernelCPU = 0, p_Key = key_of e,
          m_ProcessName = (if full then after_backslash name else name),
          m_NativeImagePath = (if full then name else []),
          m_threads = []\<rparr>)"

text \<open>An existing process: only the pointers to the entry are renewed.\<close>

definition renew_process :: "nat \<times> nat \<Rightarrow> bool \<Rightarrow> ProcessInfo \<Rightarrow> ProcessInfo" where
  "renew_process ref extended p =
     p\<lparr>NativeInfo := ref, ExtendedInfo := (if extended then Some ref else ExtendedInfo p)\<rparr>"

text \<open>The thread \<open>j\<close> of the entry \<open>ref\<close>, added to its process, to the lists and to the new map.\<close>

record Building =
  b_Process :: ProcessInfo
  b_Manager :: ProcessManager
  b_ThreadsByKey :: "(ProcessOrThreadKey, ThreadInfo) table"

definition add_thread ::
  "Machine \<Rightarrow> int \<Rightarrow> nat \<times> nat \<Rightarrow> nat \<times> ThreadEntry \<Rightarrow> Building \<Rightarrow> Building" where
  "add_thread M delta ref item w =
     (let (j, te) = item; s = b_Manager w; key = thread_key te; native = (fst ref, snd ref, j)
      in case tfind (m_threadsByKey s) key of
           None \<Rightarrow>
             (let thread = \<lparr>t_Id = te_UniqueThread te, t_ProcessId = te_UniqueProcess te, t_CPU = 0, t_Key = key,
                            t_NativeInfo = native, t_ProcessName = m_ProcessName (b_Process w)\<rparr>
              in \<lparr>b_Process = (b_Process w)\<lparr>m_threads := m_threads (b_Process w) @ [thread]\<rparr>,
                  b_Manager = s\<lparr>m_Threads := m_Threads s @ [thread], m_NewThreads := m_NewThreads s @ [thread],
                                m_ThreadsById := tinsert (t_Id thread) thread (m_ThreadsById s)\<rparr>,
                  b_ThreadsByKey = tinsert key thread (b_ThreadsByKey w)\<rparr>)
         | Some old \<Rightarrow>
             (let before = thread_entry_at M (m_Buffer s) (t_NativeInfo old);
                  cpuTime = wrap64 (te_UserTime before + te_KernelTime before);
                  elapsed = wrap64 (te_KernelTime te + te_UserTime te) - cpuTime;
                  thread = old\<lparr>t_NativeInfo := native, t_CPU := cpu_of M delta elapsed\<rparr>
              in \<lparr>b_Process = (b_Process w)\<lparr>m_threads := m_threads (b_Process w) @ [thread]\<rparr>,
                  b_Manager = s\<lparr>m_Threads := m_Threads s @ [thread],
                                m_threadsByKey := terase (t_Key thread) (m_threadsByKey s),
                                m_ThreadsById := tinsert (t_Id thread) thread (m_ThreadsById s)\<rparr>,
                  b_ThreadsByKey = tinsert (t_Key thread) thread (b_ThreadsByKey w)\<rparr>))"

definition BuildProcessInfo ::
  "Machine \<Rightarrow> int \<Rightarrow> nat \<times> nat \<Rightarrow> ProcessEntry \<Rightarrow> bool \<Rightarrow> ProcessInfo option \<Rightarrow> ProcessManager \<Rightarrow>
     (ProcessOrThreadKey, ThreadInfo) table \<Rightarrow> Building" where
  "BuildProcessInfo M delta ref e includeThreads old s threadsByKey =
     (let p = (case old of None \<Rightarrow> new_process ref e (s_UseFullInfo M)
                         | Some p \<Rightarrow> renew_process ref (s_UseFullInfo M) p)
      in if includeThreads \<and> p_Id p > 0
         then fold (add_thread M delta ref) (enumerate 0 (pe_Threads e))
                \<lparr>b_Process = p\<lparr>m_threads := []\<rparr>, b_Manager = s, b_ThreadsByKey = threadsByKey\<rparr>
         else \<lparr>b_Process = p, b_Manager = s, b_ThreadsByKey = threadsByKey\<rparr>)"

section \<open>The update\<close>

record Pass =
  w_Manager :: ProcessManager
  w_Processes :: "ProcessInfo list"
  w_ProcessesByKey :: "(ProcessOrThreadKey, ProcessInfo) table"
  w_ThreadsByKey :: "(ProcessOrThreadKey, ThreadInfo) table"

text \<open>The body of the loop over the entries of buffer \<open>b\<close>.\<close>

definition add_process ::
  "Machine \<Rightarrow> int \<Rightarrow> bool \<Rightarrow> u32 \<Rightarrow> nat \<Rightarrow> nat \<times> ProcessEntry \<Rightarrow> Pass \<Rightarrow> Pass" where
  "add_process M delta includeThreads pid b item w =
     (let (i, e) = item; s = w_Manager w; key = key_of e; ref = (b, i);
          threads = (includeThreads \<and> (pid = 0 \<or> pid = key_Id key));
          old = tfind (m_processesByKey s) key;
          built = BuildProcessInfo M delta ref e threads old s (w_ThreadsByKey w);
          s' = b_Manager built;
          (p, s') =
            (case old of
               None \<Rightarrow>
                 (let p = (b_Process built)\<lparr>p_CPU := 0, KernelCPU := 0\<rparr>
                  in (p, s'\<lparr>m_NewProcesses := m_NewProcesses s' @ [p]\<rparr>))
             | Some q \<Rightarrow>
                 (let before = entry_at M (m_Buffer s) (NativeInfo q);
                      kcpu = cpu_of M delta (pe_KernelTime e - pe_KernelTime before);
                      cpu = cpu_of M delta
                        (wrap64 (wrap64 (pe_KernelTime e + pe_UserTime e) - pe_UserTime before) - pe_KernelTime before)
                  in ((b_Process built)\<lparr>p_CPU := cpu, KernelCPU := kcpu\<rparr>,
                      s'\<lparr>m_processesByKey := terase key (m_processesByKey s')\<rparr>)))
      in \<lparr>w_Manager = s'\<lparr>m_ProcessesById := tinsert (p_Id p) p (m_ProcessesById s')\<rparr>,
          w_Processes = w_Processes w @ [p],
          w_ProcessesByKey = tinsert key p (w_ProcessesByKey w),
          w_ThreadsByKey = b_ThreadsByKey built\<rparr>)"

text \<open>What is cleared before the loop.\<close>

definition begin_update :: "bool \<Rightarrow> u32 \<Rightarrow> ProcessManager \<Rightarrow> ProcessManager" where
  "begin_update includeThreads pid s =
     (let s = s\<lparr>m_ProcessesById := [], m_NewProcesses := []\<rparr>;
          s = (if includeThreads \<and> pid \<noteq> m_ThreadsPid s then s\<lparr>m_threadsByKey := [], m_ThreadsPid := pid\<rparr> else s)
      in if includeThreads then s\<lparr>m_NewThreads := [], m_Threads := [], m_ThreadsById := []\<rparr> else s)"

text \<open>What remains in the old maps after the loop is gone; the new maps take their place.\<close>

definition end_update :: "bool \<Rightarrow> int \<Rightarrow> Pass \<Rightarrow> ProcessManager" where
  "end_update includeThreads ticks w =
     (let s = w_Manager w;
          s = s\<lparr>m_Processes := w_Processes w, m_TerminatedProcesses := map snd (m_processesByKey s),
                m_processesByKey := w_ProcessesByKey w\<rparr>;
          s = (if includeThreads
               then s\<lparr>m_TerminatedThreads := map snd (m_threadsByKey s), m_threadsByKey := w_ThreadsByKey w\<rparr>
               else s)
      in s\<lparr>m_PrevTicks := ticks, m_BufIndex := 1 - m_BufIndex s\<rparr>)"

definition elapsed_ticks :: "Machine \<Rightarrow> int \<Rightarrow> int \<Rightarrow> int" where
  "elapsed_ticks M prev ticks =
     (if prev = 0 then 0 else wrap64 (wrap64 (ticks - prev) * 10000000) sdiv s_QpcFrequency M)"

definition update_loop ::
  "Machine \<Rightarrow> int \<Rightarrow> bool \<Rightarrow> u32 \<Rightarrow> ProcessEntry list \<Rightarrow> ProcessManager \<Rightarrow> Pass" where
  "update_loop M delta includeThreads pid es s =
     fold (add_process M delta includeThreads pid (m_BufIndex s)) (enumerate 0 es)
       \<lparr>w_Manager = begin_update includeThreads pid s, w_Processes = [], w_ProcessesByKey = [], w_ThreadsByKey = []\<rparr>"

definition Update :: "Machine \<Rightarrow> System \<Rightarrow> bool \<Rightarrow> u32 \<Rightarrow> ProcessManager \<Rightarrow> ProcessManager \<times> nat" where
  "Update M os includeThreads pid s =
     (case QuerySystemProcesses os s of
        (s1, None) \<Rightarrow> (s1, length (m_Processes s1))
      | (s1, Some ticks) \<Rightarrow>
          (let es = (case m_Buffer s1 (m_BufIndex s1) of None \<Rightarrow> [] | Some es \<Rightarrow> es);
               w = update_loop M (elapsed_ticks M (m_PrevTicks s1) ticks) includeThreads pid es s1;
               s2 = end_update includeThreads ticks w
           in (s2, length (m_Processes s2))))"

definition UpdateWithThreads :: "Machine \<Rightarrow> System \<Rightarrow> u32 \<Rightarrow> ProcessManager \<Rightarrow> ProcessManager \<times> nat" where
  "UpdateWithThreads M os pid s = Update M os True pid s"

section \<open>Lookups\<close>

definition GetProcessById :: "ProcessManager \<Rightarrow> u32 \<Rightarrow> ProcessInfo option" where
  "GetProcessById s pid = tfind (m_ProcessesById s) pid"

definition GetProcessByKey :: "ProcessManager \<Rightarrow> ProcessOrThreadKey \<Rightarrow> ProcessInfo option" where
  "GetProcessByKey s key = tfind (m_processesByKey s) key"

definition GetThreadByKey :: "ProcessManager \<Rightarrow> ProcessOrThreadKey \<Rightarrow> ThreadInfo option" where
  "GetThreadByKey s key = tfind (m_threadsByKey s) key"

definition GetProcessNameById :: "ProcessManager \<Rightarrow> u32 \<Rightarrow> wstr" where
  "GetProcessNameById s pid =
     (if pid = 0 then [] else case GetProcessById s pid of None \<Rightarrow> [] | Some p \<Rightarrow> m_ProcessName p)"

section \<open>The tree\<close>

text \<open>
  \<open>FindChildren\<close> walks every process for each parent; a child was created after its parent, so the walk ends.
  (The source also erases each child from a copy of the ID map that nothing reads.)
\<close>

definition is_child :: "ProcessInfo \<Rightarrow> ProcessInfo \<Rightarrow> bool" where
  "is_child parent p \<longleftrightarrow> ParentId p = p_Id parent \<and> Created (p_Key p) > Created (p_Key parent)"

definition younger :: "ProcessInfo list \<Rightarrow> ProcessInfo \<Rightarrow> nat" where
  "younger ps parent = length (filter (\<lambda>p. Created (p_Key p) > Created (p_Key parent)) ps)"

lemma younger_less:
  assumes "p \<in> set ps" and "Created (p_Key p) > Created (p_Key parent)"
  shows "younger ps p < younger ps parent"
  using assms
proof (induction ps)
  case (Cons q qs)
  have le: "younger qs p \<le> younger qs parent"
    using Cons.prems(2) unfolding younger_def by (induction qs) auto
  from Cons show ?case
    by (auto simp: younger_def le [unfolded younger_def] less_Suc_eq_le dest: order.strict_trans)
qed simp

function FindChildren :: "ProcessInfo list \<Rightarrow> ProcessInfo \<Rightarrow> nat \<Rightarrow> (u32 \<times> nat) list" where
  "FindChildren ps parent indent =
     concat (map (\<lambda>p. (p_Id p, indent) # FindChildren ps p (indent + 1)) (filter (is_child parent) ps))"
  by pat_completeness auto
termination
  by (relation "measure (\<lambda>(ps, parent, indent). younger ps parent)") (auto simp: is_child_def intro: younger_less)

declare FindChildren.simps [simp del]

definition is_root :: "ProcessManager \<Rightarrow> ProcessInfo \<Rightarrow> bool" where
  "is_root s p \<longleftrightarrow>
     ParentId p = 0 \<or>
     (case tfind (m_ProcessesById s) (ParentId p) of
        None \<Rightarrow> True
      | Some parent \<Rightarrow> Created (p_Key parent) > Created (p_Key p))"

definition tree_of :: "ProcessManager \<Rightarrow> (ProcessInfo option \<times> nat) list" where
  "tree_of s =
     concat (map (\<lambda>p. (Some p, 0) #
         (if p_Id p = 0 then []
          else map (\<lambda>(pid, indent). (tfind (m_ProcessesById s) pid, indent)) (FindChildren (m_Processes s) p 1)))
       (filter (is_root s) (m_Processes s)))"

definition BuildProcessTree ::
  "Machine \<Rightarrow> System \<Rightarrow> ProcessManager \<Rightarrow> ProcessManager \<times> (ProcessInfo option \<times> nat) list" where
  "BuildProcessTree M os s = (let s' = fst (Update M os False 0 s) in (s', tree_of s'))"

section \<open>Detaching a process\<close>

text \<open>
  \<open>Detach\<close> copies an entry out of the snapshot. The sizes of the structures are the build's
  (\<open>e_header\<close>: the offset of \<open>Threads\<close>); offsets are from the entry's start, those of the SID and the package
  name from the extension's. \<open>name\<close> is where the image name's buffer lies, when it is after the entry's start.
\<close>

record EntryLayout =
  e_Next :: u32
  e_ThreadCount :: u32
  e_header :: nat
  e_thread_size :: nat
  e_extension_size :: nat
  e_Extension :: "nat option"
  e_UserSidOffset :: u32
  e_SidLength :: nat
  e_PackageFullNameOffset :: u32
  e_PackageLength :: nat
  e_NameOffset :: "nat option"
  e_NameMaximumLength :: u16

definition extension_end :: "EntryLayout \<Rightarrow> nat" where
  "extension_end l =
     (let end0 = e_extension_size l;
          end1 = (if e_UserSidOffset l \<noteq> 0 then max end0 (unat (e_UserSidOffset l) + e_SidLength l) else end0)
      in if e_PackageFullNameOffset l \<noteq> 0
         then max end1 (unat (e_PackageFullNameOffset l) + (e_PackageLength l + 1) * 2) else end1)"

definition detached_size :: "EntryLayout \<Rightarrow> nat" where
  "detached_size l =
     (if e_Next l \<noteq> 0 then unat (e_Next l)
      else
        (let n0 = e_header l + e_thread_size l * unat (e_ThreadCount l);
             n1 = (case e_Extension l of None \<Rightarrow> n0 | Some ext \<Rightarrow> max n0 (ext + extension_end l))
         in case e_NameOffset l of
              Some name \<Rightarrow> if name > 0 then max n1 (name + unat (e_NameMaximumLength l)) else n1
            | None \<Rightarrow> n1))"

section \<open>The invariant\<close>

text \<open>The entries of the last snapshot: the buffer that the next query does not write.\<close>

definition snapshot :: "ProcessManager \<Rightarrow> ProcessEntry list" where
  "snapshot s = (case m_Buffer s (1 - m_BufIndex s) of None \<Rightarrow> [] | Some es \<Rightarrow> es)"

definition first_where :: "('a \<Rightarrow> bool) \<Rightarrow> 'a list \<Rightarrow> 'a option" where
  "first_where P xs = find P xs"

text \<open>
  The lists and maps agree with the snapshot: the processes are its entries in order, each with the entry's
  key and a pointer to it, and the maps find the first process with a key or an ID.
\<close>

definition lists_agree :: "ProcessEntry list \<Rightarrow> nat \<Rightarrow> ProcessInfo list \<Rightarrow> bool" where
  "lists_agree es b ps \<longleftrightarrow>
     map p_Key ps = map key_of es \<and> map p_Id ps = map pe_UniqueProcessId es \<and>
     map NativeInfo ps = map (\<lambda>i. (b, i)) [0..<length es]"

definition manager_ok :: "ProcessManager \<Rightarrow> bool" where
  "manager_ok s \<longleftrightarrow>
     m_BufIndex s < 2 \<and> lists_agree (snapshot s) (1 - m_BufIndex s) (m_Processes s) \<and>
     table_ok (m_processesByKey s) \<and>
     (\<forall>k. tfind (m_processesByKey s) k = first_where (\<lambda>p. p_Key p = k) (m_Processes s)) \<and>
     (\<forall>i. tfind (m_ProcessesById s) i = first_where (\<lambda>p. p_Id p = i) (m_Processes s))"

lemma first_where_snoc:
  "first_where P (xs @ [x]) = (case first_where P xs of None \<Rightarrow> if P x then Some x else None | Some y \<Rightarrow> Some y)"
  by (induction xs) (auto simp: first_where_def)

lemma first_where_key: "first_where P xs = Some x \<Longrightarrow> x \<in> set xs \<and> P x"
  by (auto simp: first_where_def find_Some_iff)

lemma first_where_none: "first_where P xs = None \<longleftrightarrow> (\<forall>x \<in> set xs. \<not> P x)"
  by (auto simp: first_where_def find_None_iff)

lemma initial_ok: "manager_ok initial"
  by (simp add: manager_ok_def initial_def snapshot_def lists_agree_def first_where_def)

section \<open>What building a process leaves alone\<close>

definition process_part where
  "process_part s = (m_ProcessesById s, m_NewProcesses s, m_processesByKey s, m_Buffer s, m_BufIndex s, m_Processes s)"

definition identity_of where
  "identity_of p = (p_Id p, p_Key p, NativeInfo p, ParentId p)"

lemma add_thread_keeps:
  "process_part (b_Manager (add_thread M delta ref item w)) = process_part (b_Manager w) \<and>
   identity_of (b_Process (add_thread M delta ref item w)) = identity_of (b_Process w)"
  by (cases item) (simp add: add_thread_def Let_def process_part_def identity_of_def split: option.splits)

lemma add_threads_keep:
  "process_part (b_Manager (fold (add_thread M delta ref) items w)) = process_part (b_Manager w) \<and>
   identity_of (b_Process (fold (add_thread M delta ref) items w)) = identity_of (b_Process w)"
  by (induction items arbitrary: w) (simp_all add: add_thread_keeps)

lemma BuildProcessInfo_keeps:
  "process_part (b_Manager (BuildProcessInfo M delta ref e th old s tk)) = process_part s"
  unfolding BuildProcessInfo_def Let_def by (simp add: add_threads_keep)

lemma identity_basic:
  "identity_of (p\<lparr>m_threads := ts\<rparr>) = identity_of p"
  "identity_of (new_process ref e x) = (pe_UniqueProcessId e, key_of e, ref, pe_InheritedFromUniqueProcessId e)"
  "identity_of (renew_process ref x p) = (p_Id p, p_Key p, ref, ParentId p)"
  by (simp_all add: identity_of_def new_process_def renew_process_def Let_def)

lemma BuildProcessInfo_identity:
  "identity_of (b_Process (BuildProcessInfo M delta ref e th old s tk)) =
     (case old of None \<Rightarrow> (pe_UniqueProcessId e, key_of e, ref, pe_InheritedFromUniqueProcessId e)
      | Some p \<Rightarrow> (p_Id p, p_Key p, ref, ParentId p))"
  unfolding BuildProcessInfo_def Let_def
  by (auto simp: add_threads_keep identity_basic split: option.splits)

section \<open>The loop over the entries\<close>

definition old_keys_ok :: "(ProcessOrThreadKey, ProcessInfo) table \<Rightarrow> bool" where
  "old_keys_ok m \<longleftrightarrow> table_ok m \<and> (\<forall>k p. tfind m k = Some p \<longrightarrow> p_Key p = k \<and> p_Id p = key_Id k)"

lemma old_keys_ok_terase: "old_keys_ok m \<Longrightarrow> old_keys_ok (terase k m)"
  by (auto simp: old_keys_ok_def split: if_splits)

text \<open>The CPU times of a process: 0 when it is new, else what it used since the entry its old pointer shows.\<close>

definition times_of ::
  "Machine \<Rightarrow> int \<Rightarrow> (nat \<Rightarrow> ProcessEntry list option) \<Rightarrow> ProcessInfo option \<Rightarrow> ProcessEntry \<Rightarrow> ProcessInfo \<Rightarrow> bool"
where
  "times_of M delta bufs old e p \<longleftrightarrow>
     (case old of
        None \<Rightarrow> p_CPU p = 0 \<and> KernelCPU p = 0
      | Some q \<Rightarrow>
          (let before = entry_at M bufs (NativeInfo q)
           in KernelCPU p = cpu_of M delta (pe_KernelTime e - pe_KernelTime before) \<and>
              p_CPU p = cpu_of M delta
                (wrap64 (wrap64 (pe_KernelTime e + pe_UserTime e) - pe_UserTime before) - pe_KernelTime before)))"

text \<open>One step, in terms of the process it adds.\<close>

lemma add_process_step:
  fixes M delta th pid b i e w
  defines "w' \<equiv> add_process M delta th pid b (i, e) w"
  assumes "old_keys_ok (m_processesByKey (w_Manager w))"
  shows "\<exists>p. p_Key p = key_of e \<and> p_Id p = pe_UniqueProcessId e \<and> NativeInfo p = (b, i) \<and>
    w_Processes w' = w_Processes w @ [p] \<and>
    w_ProcessesByKey w' = tinsert (key_of e) p (w_ProcessesByKey w) \<and>
    m_ProcessesById (w_Manager w') = tinsert (p_Id p) p (m_ProcessesById (w_Manager w)) \<and>
    m_Buffer (w_Manager w') = m_Buffer (w_Manager w) \<and> m_BufIndex (w_Manager w') = m_BufIndex (w_Manager w) \<and>
    times_of M delta (m_Buffer (w_Manager w)) (tfind (m_processesByKey (w_Manager w)) (key_of e)) e p \<and>
    (case tfind (m_processesByKey (w_Manager w)) (key_of e) of
       None \<Rightarrow> m_NewProcesses (w_Manager w') = m_NewProcesses (w_Manager w) @ [p] \<and>
               m_processesByKey (w_Manager w') = m_processesByKey (w_Manager w)
     | Some _ \<Rightarrow> m_NewProcesses (w_Manager w') = m_NewProcesses (w_Manager w) \<and>
               m_processesByKey (w_Manager w') = terase (key_of e) (m_processesByKey (w_Manager w)))"
proof -
  let ?s = "w_Manager w" and ?th = "th \<and> (pid = 0 \<or> pid = key_Id (key_of e))"
  define bu where "bu = BuildProcessInfo M delta (b, i) e ?th (tfind (m_processesByKey ?s) (key_of e)) ?s (w_ThreadsByKey w)"
  have keep: "process_part (b_Manager bu) = process_part ?s"
    unfolding bu_def by (rule BuildProcessInfo_keeps)
  have ident: "identity_of (b_Process bu) =
     (case tfind (m_processesByKey ?s) (key_of e) of
        None \<Rightarrow> (pe_UniqueProcessId e, key_of e, (b, i), pe_InheritedFromUniqueProcessId e)
      | Some p \<Rightarrow> (p_Id p, p_Key p, (b, i), ParentId p))"
    unfolding bu_def by (rule BuildProcessInfo_identity)
  have w': "w' = add_process M delta th pid b (i, e) w" by (simp add: w'_def)
  show ?thesis
  proof (cases "tfind (m_processesByKey ?s) (key_of e)")
    case None
    with keep ident show ?thesis
      unfolding w'
      by (intro exI [of _ "(b_Process bu)\<lparr>p_CPU := 0, KernelCPU := 0\<rparr>"])
         (simp add: add_process_def Let_def bu_def process_part_def identity_of_def times_of_def)
  next
    case (Some q)
    with assms(2) have "p_Key q = key_of e" "p_Id q = pe_UniqueProcessId e"
      by (auto simp: old_keys_ok_def key_of_def)
    with Some keep ident show ?thesis
      unfolding w' add_process_def Let_def
      by (auto simp: bu_def process_part_def identity_of_def times_of_def Let_def)
  qed
qed


text \<open>The whole loop, over any number of entries.\<close>

definition loop_result :: "Machine \<Rightarrow> int \<Rightarrow> ProcessManager \<Rightarrow> ProcessEntry list \<Rightarrow> Pass \<Rightarrow> bool" where
  "loop_result M delta s es w \<longleftrightarrow>
     lists_agree es (m_BufIndex s) (w_Processes w) \<and> table_ok (w_ProcessesByKey w) \<and>
     (\<forall>k. tfind (w_ProcessesByKey w) k = first_where (\<lambda>p. p_Key p = k) (w_Processes w)) \<and>
     (\<forall>i. tfind (m_ProcessesById (w_Manager w)) i = first_where (\<lambda>p. p_Id p = i) (w_Processes w)) \<and>
     m_Buffer (w_Manager w) = m_Buffer s \<and> m_BufIndex (w_Manager w) = m_BufIndex s \<and>
     old_keys_ok (m_processesByKey (w_Manager w)) \<and>
     (\<forall>k. tfind (m_processesByKey (w_Manager w)) k =
        (if k \<in> key_of ` set es then None else tfind (m_processesByKey s) k)) \<and>
     set (m_NewProcesses (w_Manager w)) \<subseteq> set (w_Processes w) \<and>
     (distinct (map key_of es) \<longrightarrow>
        list_all2 (\<lambda>e p. times_of M delta (m_Buffer s) (tfind (m_processesByKey s) (key_of e)) e p)
          es (w_Processes w) \<and>
        map p_Key (m_NewProcesses (w_Manager w)) =
          filter (\<lambda>k. tfind (m_processesByKey s) k = None) (map key_of es))"

lemma begin_update_simps [simp]:
  "m_ProcessesById (begin_update th pid s) = []" "m_NewProcesses (begin_update th pid s) = []"
  "m_processesByKey (begin_update th pid s) = m_processesByKey s"
  "m_Buffer (begin_update th pid s) = m_Buffer s" "m_BufIndex (begin_update th pid s) = m_BufIndex s"
  by (simp_all add: begin_update_def Let_def)

lemma lists_agree_snoc:
  "lists_agree es b ps \<Longrightarrow> p_Key p = key_of e \<Longrightarrow> p_Id p = pe_UniqueProcessId e \<Longrightarrow>
   NativeInfo p = (b, length es) \<Longrightarrow> lists_agree (es @ [e]) b (ps @ [p])"
  by (simp add: lists_agree_def)

lemma update_loop_result:
  assumes "old_keys_ok (m_processesByKey s)"
  shows "loop_result M delta s es (update_loop M delta th pid es s)"
proof (induction es rule: rev_induct)
  case Nil
  then show ?case
    using assms by (simp add: loop_result_def update_loop_def lists_agree_def first_where_def)
next
  case (snoc e es)
  let ?w = "update_loop M delta th pid es s" and ?w' = "update_loop M delta th pid (es @ [e]) s"
  note IH = snoc.IH [unfolded loop_result_def]
  have w': "?w' = add_process M delta th pid (m_BufIndex s) (length es, e) ?w"
    by (simp add: update_loop_def enumerate_append_eq)
  have old: "old_keys_ok (m_processesByKey (w_Manager ?w))" using IH by blast
  obtain p where p: "p_Key p = key_of e" "p_Id p = pe_UniqueProcessId e" "NativeInfo p = (m_BufIndex s, length es)"
    and lists: "w_Processes ?w' = w_Processes ?w @ [p]"
      "w_ProcessesByKey ?w' = tinsert (key_of e) p (w_ProcessesByKey ?w)"
      "m_ProcessesById (w_Manager ?w') = tinsert (p_Id p) p (m_ProcessesById (w_Manager ?w))"
    and bufs: "m_Buffer (w_Manager ?w') = m_Buffer (w_Manager ?w)"
      "m_BufIndex (w_Manager ?w') = m_BufIndex (w_Manager ?w)"
    and times: "times_of M delta (m_Buffer (w_Manager ?w)) (tfind (m_processesByKey (w_Manager ?w)) (key_of e)) e p"
    and news: "case tfind (m_processesByKey (w_Manager ?w)) (key_of e) of
        None \<Rightarrow> m_NewProcesses (w_Manager ?w') = m_NewProcesses (w_Manager ?w) @ [p] \<and>
               m_processesByKey (w_Manager ?w') = m_processesByKey (w_Manager ?w)
      | Some _ \<Rightarrow> m_NewProcesses (w_Manager ?w') = m_NewProcesses (w_Manager ?w) \<and>
               m_processesByKey (w_Manager ?w') = terase (key_of e) (m_processesByKey (w_Manager ?w))"
    using add_process_step [OF old, where M = M and delta = delta and th = th and pid = pid and b = "m_BufIndex s" and i = "length es" and e = e] unfolding w' by blast
  have left: "tfind (m_processesByKey (w_Manager ?w')) k =
      (if k = key_of e then None else tfind (m_processesByKey (w_Manager ?w)) k)" for k
    using news by (cases "tfind (m_processesByKey (w_Manager ?w)) (key_of e)") auto
  have okleft: "old_keys_ok (m_processesByKey (w_Manager ?w'))"
    using news old old_keys_ok_terase by (auto split: option.splits)
  have sub: "set (m_NewProcesses (w_Manager ?w')) \<subseteq> set (w_Processes ?w')"
    using news IH lists(1) by (auto split: option.splits)
  have fresh: "map p_Key (m_NewProcesses (w_Manager ?w')) =
      filter (\<lambda>k. tfind (m_processesByKey s) k = None) (map key_of (es @ [e])) \<and>
      list_all2 (\<lambda>e p. times_of M delta (m_Buffer s) (tfind (m_processesByKey s) (key_of e)) e p)
        (es @ [e]) (w_Processes ?w')"
    if "distinct (map key_of (es @ [e]))"
  proof -
    have "tfind (m_processesByKey (w_Manager ?w)) (key_of e) = tfind (m_processesByKey s) (key_of e)"
      using IH that by auto
    moreover from this have "times_of M delta (m_Buffer s) (tfind (m_processesByKey s) (key_of e)) e p"
      using times IH by simp
    ultimately show ?thesis
      using news IH that p(1) lists(1) by (auto intro!: list_all2_appendI split: option.splits)
  qed
  have agree: "lists_agree (es @ [e]) (m_BufIndex s) (w_Processes ?w')"
    unfolding lists(1) using IH p by (intro lists_agree_snoc) auto
  have byKey: "tfind (w_ProcessesByKey ?w') k = first_where (\<lambda>p. p_Key p = k) (w_Processes ?w')" for k
    unfolding lists using IH p(1) by (auto simp: first_where_snoc split: option.splits)
  have byId: "tfind (m_ProcessesById (w_Manager ?w')) i = first_where (\<lambda>p. p_Id p = i) (w_Processes ?w')" for i
    unfolding lists using IH by (auto simp: first_where_snoc split: option.splits)
  show ?case
    unfolding loop_result_def
  proof (intro conjI allI impI)
    show "table_ok (w_ProcessesByKey ?w')" unfolding lists using IH by simp
    show "m_Buffer (w_Manager ?w') = m_Buffer s" "m_BufIndex (w_Manager ?w') = m_BufIndex s"
      using bufs IH by simp_all
    show "tfind (m_processesByKey (w_Manager ?w')) k =
        (if k \<in> key_of ` set (es @ [e]) then None else tfind (m_processesByKey s) k)" for k
      using left [of k] IH by auto
  qed (use agree byKey byId okleft sub fresh in auto)
qed

section \<open>A successful update\<close>

lemma manager_old_keys:
  assumes "manager_ok s"
  shows "old_keys_ok (m_processesByKey s)"
proof -
  let ?ps = "m_Processes s" and ?es = "snapshot s"
  have keys: "map p_Key ?ps = map key_of ?es" and ids: "map p_Id ?ps = map pe_UniqueProcessId ?es"
    using assms by (auto simp: manager_ok_def lists_agree_def)
  have ident: "p_Id p = key_Id (p_Key p)" if "p \<in> set ?ps" for p
  proof -
    obtain i where i: "i < length ?ps" "p = ?ps ! i" using \<open>p \<in> set ?ps\<close> by (auto simp: in_set_conv_nth)
    have "length ?ps = length ?es" using keys by (metis length_map)
    then have "p_Key p = key_of (?es ! i)" "p_Id p = pe_UniqueProcessId (?es ! i)"
      using i keys ids by (metis nth_map)+
    then show ?thesis by (simp add: key_of_def)
  qed
  show ?thesis
    using assms ident by (auto simp: manager_ok_def old_keys_ok_def dest: first_where_key)
qed

definition completed :: "Machine \<Rightarrow> bool \<Rightarrow> u32 \<Rightarrow> int \<Rightarrow> u32 \<Rightarrow> ProcessEntry list \<Rightarrow> ProcessManager \<Rightarrow> ProcessManager" where
  "completed M th pid ticks sz es s =
     (let b = m_BufIndex s; s1 = s\<lparr>m_Buffer := (m_Buffer s)(b := Some es), m_BufferSize := (m_BufferSize s)(b := sz)\<rparr>
      in end_update th ticks (update_loop M (elapsed_ticks M (m_PrevTicks s) ticks) th pid es s1))"

lemma query_tries_buffer: "query_tries os k n buf sz = (buf', sz', Some t) \<Longrightarrow> \<exists>es. buf' = Some es"
proof (induction os k n buf sz rule: query_tries.induct)
  case (2 os k n buf sz)
  show ?case
    using "2.prems" "2.IH" by (auto simp: Let_def split: if_splits QueryStatus.splits)
qed simp

lemma Update_cases:
  "(\<exists>buf sz. Update M os th pid s =
      (let s1 = s\<lparr>m_Buffer := (m_Buffer s)(m_BufIndex s := buf), m_BufferSize := (m_BufferSize s)(m_BufIndex s := sz)\<rparr>
       in (s1, length (m_Processes s)))) \<or>
   (\<exists>es sz ticks. Update M os th pid s =
      (completed M th pid ticks sz es s, length (m_Processes (completed M th pid ticks sz es s))))"
proof -
  obtain buf sz t where q: "query_tries os 0 4 (m_Buffer s (m_BufIndex s)) (m_BufferSize s (m_BufIndex s)) = (buf, sz, t)"
    by (metis prod_cases3)
  show ?thesis
  proof (cases t)
    case None
    then show ?thesis
      by (intro disjI1 exI [of _ buf] exI [of _ sz]) (simp add: Update_def QuerySystemProcesses_def q Let_def)
  next
    case (Some ticks)
    then obtain es where "buf = Some es" using query_tries_buffer q by blast
    with Some show ?thesis
      by (intro disjI2 exI [of _ es] exI [of _ sz] exI [of _ ticks])
         (simp add: Update_def QuerySystemProcesses_def q completed_def Let_def)
  qed
qed

lemma end_update_simps [simp]:
  "m_Processes (end_update th t w) = w_Processes w"
  "m_processesByKey (end_update th t w) = w_ProcessesByKey w"
  "m_ProcessesById (end_update th t w) = m_ProcessesById (w_Manager w)"
  "m_NewProcesses (end_update th t w) = m_NewProcesses (w_Manager w)"
  "m_TerminatedProcesses (end_update th t w) = map snd (m_processesByKey (w_Manager w))"
  "m_Buffer (end_update th t w) = m_Buffer (w_Manager w)"
  "m_BufIndex (end_update th t w) = 1 - m_BufIndex (w_Manager w)"
  "m_PrevTicks (end_update th t w) = t"
  by (simp_all add: end_update_def Let_def)

lemma completed_loop:
  fixes s es sz
  assumes "manager_ok s"
  defines "s1 \<equiv> s\<lparr>m_Buffer := (m_Buffer s)(m_BufIndex s := Some es), m_BufferSize := (m_BufferSize s)(m_BufIndex s := sz)\<rparr>"
  shows "loop_result M (elapsed_ticks M (m_PrevTicks s) ticks) s1 es
           (update_loop M (elapsed_ticks M (m_PrevTicks s) ticks) th pid es s1)"
  by (rule update_loop_result) (use manager_old_keys [OF assms(1)] in \<open>simp add: s1_def\<close>)

lemma completed_ok [keeps_inv]:
  assumes "manager_ok s"
  shows "manager_ok (completed M th pid ticks sz es s) \<and> snapshot (completed M th pid ticks sz es s) = es"
proof -
  have "m_BufIndex s < 2" using assms by (simp add: manager_ok_def)
  then have b: "1 - (1 - m_BufIndex s) = m_BufIndex s" by simp
  show ?thesis
    using completed_loop [OF assms, where M = M and ticks = ticks and es = es and sz = sz and th = th and pid = pid] b
    by (simp add: completed_def Let_def manager_ok_def loop_result_def snapshot_def)
qed

lemma Update_ok [keeps_inv]: "manager_ok s \<Longrightarrow> manager_ok (fst (Update M os th pid s))"
proof -
  assume ok: "manager_ok s"
  then have "1 - m_BufIndex s \<noteq> m_BufIndex s" by (cases "m_BufIndex s") (auto simp: manager_ok_def)
  with ok have failed: "manager_ok (s\<lparr>m_Buffer := (m_Buffer s)(m_BufIndex s := buf), m_BufferSize := z\<rparr>)" for buf z
    by (simp add: manager_ok_def snapshot_def)
  show ?thesis
    using Update_cases [of M os th pid s] failed completed_ok [OF ok] by (auto simp: Let_def)
qed

text \<open>Any history of updates from a new manager.\<close>

type_synonym UpdateCall = "System \<times> bool \<times> u32"

definition run :: "Machine \<Rightarrow> UpdateCall list \<Rightarrow> ProcessManager" where
  "run M calls = fold (\<lambda>(os, th, pid) s. fst (Update M os th pid s)) calls initial"

lemma run_ok: "manager_ok (run M calls)"
proof -
  have "manager_ok s \<Longrightarrow> manager_ok (fold (\<lambda>(os, th, pid) s. fst (Update M os th pid s)) calls s)" for s
    by (induction calls arbitrary: s) (auto simp: Update_ok)
  then show ?thesis by (simp add: run_def initial_ok)
qed

section \<open>Properties of the snapshots\<close>


text \<open>A query that fails leaves everything but the buffer it wrote and that buffer's size, the snapshot
  that is shown included, and \<open>Update\<close> returns the number of processes it had.\<close>

theorem failed_update_keeps_snapshot:
  "case QuerySystemProcesses os s of
     (s1, Some _) \<Rightarrow> True
   | (s1, None) \<Rightarrow>
       Update M os th pid s = (s1, length (m_Processes s)) \<and> snapshot s1 = snapshot s \<and>
       s1 = s\<lparr>m_Buffer := m_Buffer s1, m_BufferSize := m_BufferSize s1\<rparr>"
proof -
  have "1 - m_BufIndex s \<noteq> m_BufIndex s" by (cases "m_BufIndex s") auto
  then show ?thesis
    by (auto simp: QuerySystemProcesses_def Update_def Let_def snapshot_def split: prod.splits option.splits)
qed

interpretation processes: snapshot_diff "completed M th pid ticks sz" key_of
  "\<lambda>s k. GetProcessByKey s k \<noteq> None" "\<lambda>s. map p_Key (m_Processes s)" "\<lambda>s. map p_Key (m_NewProcesses s)"
  "\<lambda>s. map p_Key (m_TerminatedProcesses s)" manager_ok
  for M th pid ticks sz
proof unfold_locales
  fix s xs k
  assume ok: "manager_ok s"
  let ?s' = "completed M th pid ticks sz xs s"
  note ok' = completed_ok [OF ok, of M th pid ticks sz xs]
  show "manager_ok ?s'" using ok' by simp
  show listed: "map p_Key (m_Processes ?s') = map key_of xs"
    using ok' by (simp add: manager_ok_def lists_agree_def)
  show "(GetProcessByKey ?s' k \<noteq> None) = (k \<in> key_of ` set xs)"
  proof -
    have "(GetProcessByKey ?s' k = None) = (\<forall>p \<in> set (m_Processes ?s'). p_Key p \<noteq> k)"
      using ok' by (simp add: GetProcessByKey_def manager_ok_def first_where_none)
    also have "\<dots> = (k \<notin> set (map p_Key (m_Processes ?s')))" by auto
    finally show ?thesis unfolding listed by auto
  qed
  have lr: "loop_result M (elapsed_ticks M (m_PrevTicks s) ticks)
     (s\<lparr>m_Buffer := (m_Buffer s)(m_BufIndex s := Some xs), m_BufferSize := (m_BufferSize s)(m_BufIndex s := sz)\<rparr>) xs
     (update_loop M (elapsed_ticks M (m_PrevTicks s) ticks) th pid xs
       (s\<lparr>m_Buffer := (m_Buffer s)(m_BufIndex s := Some xs), m_BufferSize := (m_BufferSize s)(m_BufIndex s := sz)\<rparr>))"
    by (rule completed_loop [OF ok])
  show "map p_Key (m_NewProcesses ?s') = filter (\<lambda>k. \<not> GetProcessByKey s k \<noteq> None) (map key_of xs)"
    if "distinct (map key_of xs)"
    using lr that by (simp add: completed_def Let_def loop_result_def GetProcessByKey_def)
  let ?left = "m_processesByKey (w_Manager (update_loop M (elapsed_ticks M (m_PrevTicks s) ticks) th pid xs
       (s\<lparr>m_Buffer := (m_Buffer s)(m_BufIndex s := Some xs), m_BufferSize := (m_BufferSize s)(m_BufIndex s := sz)\<rparr>)))"
  have "tkeys ?left = {k. GetProcessByKey s k \<noteq> None \<and> k \<notin> key_of ` set xs}"
  proof -
    have left: "tfind ?left k = (if k \<in> key_of ` set xs then None else tfind (m_processesByKey s) k)" for k
      using lr by (simp add: loop_result_def)
    show ?thesis by (auto simp: tkeys_iff left GetProcessByKey_def split: if_splits)
  qed
  moreover have "p_Key ` snd ` set ?left = tkeys ?left"
  proof -
    have "p_Key p = k" if "(k, p) \<in> set ?left" for k p
      using lr that in_set_tfind [of ?left k p] by (auto simp: loop_result_def old_keys_ok_def)
    then show ?thesis by (force simp: tkeys_def image_iff)
  qed
  ultimately show "set (map p_Key (m_TerminatedProcesses ?s')) = {k. GetProcessByKey s k \<noteq> None \<and> k \<notin> key_of ` set xs}"
    by (simp add: completed_def Let_def image_image)
qed


lemma Update_completed:
  assumes "query_tries os 0 4 (m_Buffer s (m_BufIndex s)) (m_BufferSize s (m_BufIndex s)) = (Some es, sz, Some ticks)"
  shows "fst (Update M os th pid s) = completed M th pid ticks sz es s"
  by (simp add: Update_def QuerySystemProcesses_def assms completed_def Let_def)

text \<open>C5: after a query that succeeds, the new processes are exactly those of the snapshot whose key was not
  in the one before, in the snapshot's order, and the terminated ones exactly those of the one before that it
  no longer has; no process is both, and none is lost between the lists.\<close>

theorem Update_reports_diff:
  assumes "query_tries os 0 4 (m_Buffer (run M calls) (m_BufIndex (run M calls)))
             (m_BufferSize (run M calls) (m_BufIndex (run M calls))) = (Some es, sz, Some ticks)"
    and "distinct (map key_of es)"
  shows "let s = run M calls; s' = fst (Update M os th pid s);
             new = map p_Key (m_NewProcesses s'); gone = map p_Key (m_TerminatedProcesses s')
         in map p_Key (m_Processes s') = map key_of es \<and>
            new = filter (\<lambda>k. GetProcessByKey s k = None) (map key_of es) \<and>
            set gone = {k. GetProcessByKey s k \<noteq> None \<and> k \<notin> key_of ` set es} \<and>
            set new \<inter> set gone = {} \<and>
            {k. GetProcessByKey s k \<noteq> None} \<union> set new = {k. GetProcessByKey s' k \<noteq> None} \<union> set gone"
proof -
  note ok = run_ok [of M calls]
  show ?thesis
    unfolding Let_def Update_completed [OF assms(1)]
    using processes.listed_scan [OF ok] processes.fresh_scan [OF ok assms(2)] processes.gone_scan [OF ok]
      processes.fresh_not_gone [OF ok assms(2)] processes.balance [OF ok assms(2)]
    by simp
qed

text \<open>The CPU times of a process against the entries of the snapshot before.\<close>

definition times_since :: "Machine \<Rightarrow> int \<Rightarrow> ProcessEntry list \<Rightarrow> ProcessEntry \<Rightarrow> ProcessInfo \<Rightarrow> bool" where
  "times_since M delta before e p \<longleftrightarrow>
     (case find (\<lambda>b. key_of b = key_of e) before of
        None \<Rightarrow> p_CPU p = 0 \<and> KernelCPU p = 0
      | Some b \<Rightarrow>
          KernelCPU p = cpu_of M delta (pe_KernelTime e - pe_KernelTime b) \<and>
          p_CPU p = cpu_of M delta
            (wrap64 (wrap64 (pe_KernelTime e + pe_UserTime e) - pe_UserTime b) - pe_KernelTime b))"


lemma find_same_place:
  assumes "length ps = length es" and "\<And>i. i < length es \<Longrightarrow> P (ps ! i) = Q (es ! i)"
  shows "(find P ps = None \<and> find Q es = None) \<or> (\<exists>i < length es. find P ps = Some (ps ! i) \<and> find Q es = Some (es ! i))"
proof (cases "find P ps")
  case None
  then have "\<forall>i < length es. \<not> Q (es ! i)"
    using assms by (auto simp: find_None_iff in_set_conv_nth)
  then have "find Q es = None" by (auto simp: find_None_iff in_set_conv_nth)
  with None show ?thesis by simp
next
  case (Some p)
  then obtain i where i: "i < length ps" "P (ps ! i)" "p = ps ! i" "\<forall>j < i. \<not> P (ps ! j)"
    by (auto simp: find_Some_iff)
  then have "find Q es = Some (es ! i)"
    using assms by (auto simp: find_Some_iff)
  with Some i assms(1) show ?thesis by auto
qed

lemma old_process_entry:
  assumes ok: "manager_ok s" and buf: "bufs (1 - m_BufIndex s) = m_Buffer s (1 - m_BufIndex s)"
  shows "times_of M delta bufs (tfind (m_processesByKey s) (key_of e)) e p = times_since M delta (snapshot s) e p"
proof -
  let ?ps = "m_Processes s" and ?es = "snapshot s" and ?b = "1 - m_BufIndex s"
  have keys: "map p_Key ?ps = map key_of ?es" and nat: "map NativeInfo ?ps = map (\<lambda>i. (?b, i)) [0..<length ?es]"
    using ok by (auto simp: manager_ok_def lists_agree_def)
  have len: "length ?ps = length ?es" using keys by (metis length_map)
  have at: "p_Key (?ps ! i) = key_of (?es ! i)" "NativeInfo (?ps ! i) = (?b, i)" if "i < length ?es" for i
    using keys nat len that by (metis nth_map, metis nth_map length_map nth_upt add_0 length_upt minus_nat.diff_0)
  have read: "entry_at M bufs (?b, i) = ?es ! i" if "i < length ?es" for i
    using that buf by (auto simp: entry_at_def snapshot_def split: option.splits)
  have look: "tfind (m_processesByKey s) (key_of e) = find (\<lambda>p. p_Key p = key_of e) ?ps"
    using ok by (simp add: manager_ok_def first_where_def)
  consider "find (\<lambda>p. p_Key p = key_of e) ?ps = None" "find (\<lambda>b. key_of b = key_of e) ?es = None"
    | i where "i < length ?es" "find (\<lambda>p. p_Key p = key_of e) ?ps = Some (?ps ! i)"
        "find (\<lambda>b. key_of b = key_of e) ?es = Some (?es ! i)"
    using find_same_place [OF len, of "\<lambda>p. p_Key p = key_of e" "\<lambda>b. key_of b = key_of e"] at by auto
  then show ?thesis
    by cases (simp_all add: look times_of_def times_since_def at read Let_def del: One_nat_def)
qed

text \<open>The CPU times of a process that both snapshots have are computed from its entries in them, the older
  one read in the buffer that the query left alone; a new process has 0.\<close>

theorem Update_times:
  assumes "query_tries os 0 4 (m_Buffer (run M calls) (m_BufIndex (run M calls)))
             (m_BufferSize (run M calls) (m_BufIndex (run M calls))) = (Some es, sz, Some ticks)"
    and "distinct (map key_of es)"
  shows "list_all2
    (times_since M (elapsed_ticks M (m_PrevTicks (run M calls)) ticks) (snapshot (run M calls)))
    es (m_Processes (fst (Update M os th pid (run M calls))))"
proof -
  let ?s = "run M calls"
  let ?s1 = "?s\<lparr>m_Buffer := (m_Buffer ?s)(m_BufIndex ?s := Some es), m_BufferSize := (m_BufferSize ?s)(m_BufIndex ?s := sz)\<rparr>"
  let ?d = "elapsed_ticks M (m_PrevTicks ?s) ticks"
  have "loop_result M ?d ?s1 es (update_loop M ?d th pid es ?s1)"
    by (rule completed_loop [OF run_ok])
  then have all: "list_all2 (\<lambda>e p. times_of M ?d (m_Buffer ?s1) (tfind (m_processesByKey ?s) (key_of e)) e p) es
      (m_Processes (completed M th pid ticks sz es ?s))"
    using assms(2) by (simp add: loop_result_def completed_def Let_def)
  have "m_Buffer ?s1 (1 - m_BufIndex ?s) = m_Buffer ?s (1 - m_BufIndex ?s)"
    using run_ok [of M calls] by (cases "m_BufIndex ?s") (auto simp: manager_ok_def)
  then have same: "times_of M ?d (m_Buffer ?s1) (tfind (m_processesByKey ?s) (key_of e)) e p =
      times_since M ?d (snapshot ?s) e p" for e p
    by (rule old_process_entry [OF run_ok])
  show ?thesis
    unfolding Update_completed [OF assms(1)]
    by (rule list_all2_mono [OF all]) (simp only: same)
qed


section \<open>Concrete runs\<close>

definition small_machine :: Machine where
  "small_machine = \<lparr>s_TotalProcessors = 1, s_UseFullInfo = True, s_QpcFrequency = 10000000,
     wild = (\<lambda>_. \<lparr>pe_CreateTime = 0, pe_UniqueProcessId = 0, pe_InheritedFromUniqueProcessId = 0,
        pe_KernelTime = 0, pe_UserTime = 0, pe_ImageName = [], pe_HasPackage = False, pe_Threads = []\<rparr>),
     wild_thread = (\<lambda>_. \<lparr>te_CreateTime = 0, te_UniqueThread = 0, te_UniqueProcess = 0, te_KernelTime = 0,
        te_UserTime = 0\<rparr>)\<rparr>"

definition small_entry :: "u32 \<Rightarrow> int \<Rightarrow> bool \<Rightarrow> ProcessEntry" where
  "small_entry pid created package = \<lparr>pe_CreateTime = created, pe_UniqueProcessId = pid,
     pe_InheritedFromUniqueProcessId = 0, pe_KernelTime = 0, pe_UserTime = 0, pe_ImageName = [],
     pe_HasPackage = package,
     pe_Threads = [\<lparr>te_CreateTime = created, te_UniqueThread = pid + 1, te_UniqueProcess = pid,
        te_KernelTime = 0, te_UserTime = 0\<rparr>]\<rparr>"

definition small_system :: "ProcessEntry list \<Rightarrow> System" where
  "small_system es = \<lparr>query = (\<lambda>_ _. Success es), alloc = (\<lambda>_ _. True), counter = (\<lambda>_. 0)\<rparr>"

text \<open>
  \<open>m_PackageFullName\<close> is set once, so after a few updates it points into a buffer that was written since: here
  at the entry of another process of the current snapshot (the process itself is the entry 1).
\<close>

lemma package_name_stale:
  "map (\<lambda>p. (p_Id p, NativeInfo p, m_PackageFullName p))
     (m_Processes (run small_machine
        [(small_system [small_entry 8 1 True], False, 0),
         (small_system [small_entry 8 1 True], False, 0),
         (small_system [small_entry 4 0 False, small_entry 8 1 True], False, 0)])) =
   [(4, (0, 0), None), (8, (0, 1), Some (0, 0))]"
  by code_simp

definition one_run :: "UpdateCall list" where
  "one_run = [(small_system [small_entry 4 1 False, small_entry 8 2 False], True, 0)]"

definition next_entries :: "ProcessEntry list" where
  "next_entries = [small_entry 8 2 False, small_entry 12 3 True]"

text \<open>A run with one process that stays, one that goes and one that comes.\<close>

theorem Update_reports_diff_witness:
  "let s = run small_machine one_run; s' = fst (Update small_machine (small_system next_entries) True 0 s);
       new = map p_Key (m_NewProcesses s'); gone = map p_Key (m_TerminatedProcesses s')
   in map p_Key (m_Processes s') = map key_of next_entries \<and>
      new = filter (\<lambda>k. GetProcessByKey s k = None) (map key_of next_entries) \<and>
      set gone = {k. GetProcessByKey s k \<noteq> None \<and> k \<notin> key_of ` set next_entries} \<and>
      set new \<inter> set gone = {} \<and>
      {k. GetProcessByKey s k \<noteq> None} \<union> set new = {k. GetProcessByKey s' k \<noteq> None} \<union> set gone"
  by (rule Update_reports_diff [where sz = "0x400000" and ticks = "0"]; code_simp)

theorem Update_times_witness:
  "list_all2
    (times_since small_machine (elapsed_ticks small_machine (m_PrevTicks (run small_machine one_run)) 0)
      (snapshot (run small_machine one_run)))
    next_entries (m_Processes (fst (Update small_machine (small_system next_entries) True 0 (run small_machine one_run))))"
  by (rule Update_times [where sz = "0x400000"]; code_simp)

text \<open>
  The thread map keeps its pointers through updates without threads, which use the buffers too: the next
  update with threads reads the thread's older times wherever its pointer now falls (here it is another thread's
  entry).
\<close>

lemma thread_entry_stale:
  "let s = run small_machine
        [(small_system [small_entry 8 1 True], True, 0), (small_system [small_entry 8 1 True], False, 0),
         (small_system [small_entry 4 0 False, small_entry 8 1 True], False, 0)]
   in map (\<lambda>(k, t). (key_Id k, te_UniqueThread (thread_entry_at small_machine (m_Buffer s) (t_NativeInfo t))))
        (m_threadsByKey s) = [(9, 5)]"
  by code_simp

section \<open>The query's retries\<close>

definition sized_system :: "u32 \<Rightarrow> ProcessEntry list \<Rightarrow> System" where
  "sized_system need es =
     \<lparr>query = (\<lambda>_ n. if n \<ge> need then Success es else LengthMismatch need), alloc = (\<lambda>_ _. True), counter = (\<lambda>_. 0)\<rparr>"

text \<open>Against a system that asks for a fixed size, the query succeeds by its second try, with a buffer of
  that size at least, whatever the buffer was: the size it grows to is never too small, as long as it fits in
  32 bits.\<close>

theorem QuerySystemProcesses_grows:
  assumes "unat need + 0x10000 < 2 ^ 32"
  shows "\<exists>sz. query_tries (sized_system need es) 0 4 buf n = (Some es, sz, Some 0) \<and> need \<le> sz"
proof -
  have "unat (need + 0x10000) = unat need + 0x10000"
    using assms by (subst unat_add_lem [THEN iffD1]) auto
  then have "need \<le> need + 0x10000" by (simp add: word_le_nat_alt)
  then have grown: "need \<le> max m (need + 0x10000)" for m by (simp add: le_max_iff_disj)
  have tries: "query_tries (sized_system need es) 0 (Suc (Suc m)) buf n =
      (let z = (if buf = None \<and> n = 0 then 0x400000 else n);
           z' = max (z * 2) (need + 0x10000); z'' = (if z' = 0 then 0x400000 else z')
       in if z \<ge> need then (Some es, z, Some 0)
          else if z'' \<ge> need then (Some es, z'', Some 0)
          else query_tries (sized_system need es) 2 m None (max (z'' * 2) (need + 0x10000)))" for m
    by (simp add: sized_system_def Let_def numeral_2_eq_2)
  have big: "need \<le> (if max m (need + 0x10000) = 0 then 0x400000 else max m (need + 0x10000))" for m
  proof (cases "max m (need + 0x10000) = 0")
    case True
    with grown [of m] have "need = 0" by simp
    then show ?thesis by simp
  qed (use grown in simp)
  let ?z = "if buf = None \<and> n = 0 then 0x400000 else n"
  show ?thesis
  proof (cases "need \<le> ?z")
    case True
    with tries [of 2] show ?thesis by (auto simp: Let_def)
  next
    case False
    with tries [of 2] big [of "?z * 2"] show ?thesis unfolding Let_def by auto
  qed
qed

theorem QuerySystemProcesses_grows_witness:
  "\<exists>sz. query_tries (sized_system 0x800000 [small_entry 4 1 False]) 0 4 None 0 =
     (Some [small_entry 4 1 False], sz, Some 0) \<and> 0x800000 \<le> sz"
  by (rule QuerySystemProcesses_grows) simp

section \<open>The tree lists every process once\<close>

text \<open>The parent relation among the processes: the child was created after its parent.\<close>

definition parent_rel :: "ProcessInfo list \<Rightarrow> (ProcessInfo \<times> ProcessInfo) set" where
  "parent_rel ps = {(q, p). q \<in> set ps \<and> p \<in> set ps \<and> is_child q p}"

lemma parent_rel_created: "(q, p) \<in> (parent_rel ps)\<^sup>+ \<Longrightarrow> Created (p_Key q) < Created (p_Key p)"
  by (induction rule: trancl_induct) (auto simp: parent_rel_def is_child_def)

lemma FindChildren_set:
  "parent \<in> set ps \<Longrightarrow>
   set (FindChildren ps parent n) = {(p_Id p, n + j) | p j. (parent, p) \<in> parent_rel ps ^^ Suc j}"
proof (induction ps parent n rule: FindChildren.induct)
  case (1 ps parent n)
  have IH: "set (FindChildren ps p (n + 1)) = {(p_Id q, n + 1 + j) | q j. (p, q) \<in> parent_rel ps ^^ Suc j}"
    if "is_child parent p" "p \<in> set ps" for p
    using "1.IH" [of p] that by simp
  have step: "(parent, q) \<in> parent_rel ps ^^ Suc j \<longleftrightarrow>
      (\<exists>p \<in> set ps. is_child parent p \<and> (p, q) \<in> parent_rel ps ^^ j)" for q j
  proof -
    have "(parent, q) \<in> parent_rel ps ^^ Suc j \<longleftrightarrow> (\<exists>p. (parent, p) \<in> parent_rel ps \<and> (p, q) \<in> parent_rel ps ^^ j)"
      by (blast intro: relpow_Suc_I2 dest: relpow_Suc_D2)
    then show ?thesis using "1.prems" by (auto simp: parent_rel_def)
  qed
  show ?case (is "?l = ?r")
  proof (intro equalityI subsetI)
    fix x assume "x \<in> ?l"
    then obtain p where p: "p \<in> set ps" "is_child parent p"
      and x: "x = (p_Id p, n) \<or> x \<in> set (FindChildren ps p (n + 1))"
      by (subst (asm) FindChildren.simps) auto
    from x show "x \<in> ?r"
    proof
      assume "x = (p_Id p, n)"
      then show ?thesis using step [of p 0] p by (intro CollectI exI [of _ p] exI [of _ 0]) auto
    next
      assume "x \<in> set (FindChildren ps p (n + 1))"
      then obtain q j where q: "x = (p_Id q, n + 1 + j)" "(p, q) \<in> parent_rel ps ^^ Suc j"
        using IH [OF p(2,1)] by blast
      then have "(parent, q) \<in> parent_rel ps ^^ Suc (Suc j)" using step [of q "Suc j"] p by blast
      then show ?thesis using q(1) by (intro CollectI exI [of _ q] exI [of _ "Suc j"]) auto
    qed
  next
    fix x assume "x \<in> ?r"
    then obtain q j where x: "x = (p_Id q, n + j)" and "(parent, q) \<in> parent_rel ps ^^ Suc j" by blast
    then obtain p where p: "p \<in> set ps" "is_child parent p" and pq: "(p, q) \<in> parent_rel ps ^^ j"
      using step by blast
    show "x \<in> ?l"
    proof (cases j)
      case 0
      then show ?thesis using pq x p by (subst FindChildren.simps) auto
    next
      case (Suc i)
      then have "x \<in> set (FindChildren ps p (n + 1))"
        using pq x unfolding IH [OF p(2,1)] by (intro CollectI exI [of _ q] exI [of _ i]) auto
      then show ?thesis using p by (subst FindChildren.simps) auto
    qed
  qed
qed

lemma relpow_trancl: "(\<exists>j. (x, y) \<in> r ^^ Suc j) \<longleftrightarrow> (x, y) \<in> r\<^sup>+"
  by (metis Suc_pred' trancl_power zero_less_Suc)

lemma FindChildren_ids:
  "parent \<in> set ps \<Longrightarrow> fst ` set (FindChildren ps parent n) = p_Id ` {p. (parent, p) \<in> (parent_rel ps)\<^sup>+}"
  unfolding FindChildren_set relpow_trancl [symmetric] by force

lemma parent_unique:
  assumes "distinct (map p_Id ps)"
  shows "single_valued ((parent_rel ps)\<inverse>)"
  using assms by (auto simp: single_valued_def parent_rel_def is_child_def distinct_map inj_on_def)

lemma parent_rel_in: "(q, p) \<in> (parent_rel ps)\<^sup>* \<Longrightarrow> q \<in> set ps \<Longrightarrow> p \<in> set ps"
  by (induction rule: rtrancl_induct) (auto simp: parent_rel_def)

text \<open>Two different children of one process, or two different roots, have no common descendant.\<close>

lemma descendants_disjoint:
  assumes d: "distinct (map p_Id ps)"
    and "(a, x) \<in> (parent_rel ps)\<^sup>*" "(b, x) \<in> (parent_rel ps)\<^sup>*" and ab: "a \<noteq> b"
  shows "(a, b) \<in> (parent_rel ps)\<^sup>+ \<or> (b, a) \<in> (parent_rel ps)\<^sup>+"
proof -
  have "(x, a) \<in> ((parent_rel ps)\<inverse>)\<^sup>*" "(x, b) \<in> ((parent_rel ps)\<inverse>)\<^sup>*"
    using assms(2,3) by (simp_all add: rtrancl_converse)
  then have "(a, b) \<in> ((parent_rel ps)\<inverse>)\<^sup>* \<or> (b, a) \<in> ((parent_rel ps)\<inverse>)\<^sup>*"
    using parent_unique [OF d] single_valued_confluent by metis
  then show ?thesis using ab by (auto simp: rtrancl_converse rtrancl_eq_or_trancl)
qed

lemma child_not_below_sibling:
  assumes d: "distinct (map p_Id ps)" and "(parent, a) \<in> parent_rel ps" "(parent, b) \<in> parent_rel ps"
  shows "(a, b) \<notin> (parent_rel ps)\<^sup>+"
proof
  assume "(a, b) \<in> (parent_rel ps)\<^sup>+"
  then obtain c where c: "(a, c) \<in> (parent_rel ps)\<^sup>*" "(c, b) \<in> parent_rel ps" by (meson tranclD2)
  then have "c = parent" using parent_unique [OF d] assms(3) by (auto simp: single_valued_def)
  then have "(parent, parent) \<in> (parent_rel ps)\<^sup>+" using assms(2) c(1) by auto
  then show False using parent_rel_created by fastforce
qed

text \<open>A forest flattened: distinct when the trees are, and have nothing in common.\<close>

lemma distinct_concat_map:
  "distinct xs \<Longrightarrow> (\<And>x. x \<in> set xs \<Longrightarrow> distinct (f x)) \<Longrightarrow>
   (\<And>x y. x \<in> set xs \<Longrightarrow> y \<in> set xs \<Longrightarrow> x \<noteq> y \<Longrightarrow> set (f x) \<inter> set (f y) = {}) \<Longrightarrow> distinct (concat (map f xs))"
  by (induction xs) (simp_all, fastforce)

lemma subtree_ids:
  "p \<in> set ps \<Longrightarrow>
   set (p_Id p # map fst (FindChildren ps p n)) = p_Id ` {x. (p, x) \<in> (parent_rel ps)\<^sup>*}"
  by (auto simp: FindChildren_ids rtrancl_eq_or_trancl)

lemma subtrees_apart:
  assumes d: "distinct (map p_Id ps)" and p: "p \<in> set ps" "q \<in> set ps"
    and apart: "p \<noteq> q" "(p, q) \<notin> (parent_rel ps)\<^sup>+" "(q, p) \<notin> (parent_rel ps)\<^sup>+"
  shows "set (p_Id p # map fst (FindChildren ps p n)) \<inter> set (p_Id q # map fst (FindChildren ps q m)) = {}"
proof -
  have "p_Id x \<noteq> p_Id y" if "(p, x) \<in> (parent_rel ps)\<^sup>*" "(q, y) \<in> (parent_rel ps)\<^sup>*" for x y
  proof
    assume "p_Id x = p_Id y"
    then have "x = y"
      using d parent_rel_in [OF that(1) p(1)] parent_rel_in [OF that(2) p(2)]
      by (auto simp: distinct_map inj_on_def)
    then show False using descendants_disjoint [OF d that(1)] that(2) apart by blast
  qed
  then show ?thesis unfolding subtree_ids [OF p(1)] subtree_ids [OF p(2)] by auto
qed

lemma FindChildren_distinct:
  "distinct (map p_Id ps) \<Longrightarrow> parent \<in> set ps \<Longrightarrow> distinct (map fst (FindChildren ps parent n))"
proof (induction ps parent n rule: FindChildren.induct)
  case (1 ps parent n)
  let ?f = "\<lambda>p. p_Id p # map fst (FindChildren ps p (n + 1))"
  have eq: "map fst (FindChildren ps parent n) = concat (map ?f (filter (is_child parent) ps))"
    by (subst FindChildren.simps) (simp add: map_concat comp_def)
  have rel: "(parent, p) \<in> parent_rel ps" if "p \<in> set (filter (is_child parent) ps)" for p
    using that "1.prems" by (simp add: parent_rel_def)
  show ?case
    unfolding eq
  proof (rule distinct_concat_map)
    show "distinct (filter (is_child parent) ps)" using "1.prems" by (simp add: distinct_map)
  next
    fix p assume p: "p \<in> set (filter (is_child parent) ps)"
    have "p_Id p \<notin> fst ` set (FindChildren ps p (n + 1))"
    proof
      assume "p_Id p \<in> fst ` set (FindChildren ps p (n + 1))"
      then obtain x where x: "(p, x) \<in> (parent_rel ps)\<^sup>+" "p_Id p = p_Id x"
        using p FindChildren_ids [of p ps "n + 1"] by auto
      then have "x = p"
        using p parent_rel_in [OF trancl_into_rtrancl [OF x(1)]] "1.prems" by (auto simp: distinct_map inj_on_def)
      then show False using parent_rel_created [OF x(1)] by simp
    qed
    then show "distinct (?f p)" using "1.IH" [of p] "1.prems" p by auto
  next
    fix p q assume pq: "p \<in> set (filter (is_child parent) ps)" "q \<in> set (filter (is_child parent) ps)" "p \<noteq> q"
    then show "set (?f p) \<inter> set (?f q) = {}"
      using child_not_below_sibling [OF "1.prems"(1) rel [OF pq(1)] rel [OF pq(2)]]
        child_not_below_sibling [OF "1.prems"(1) rel [OF pq(2)] rel [OF pq(1)]]
      by (intro subtrees_apart "1.prems") auto
  qed
qed


section \<open>The whole tree\<close>

text \<open>
  What the system guarantees of a snapshot: an ID is used once, the idle process (0) has no parent, and a
  process was not created at the same time as the process its parent ID names.
\<close>

definition tree_ready :: "ProcessManager \<Rightarrow> bool" where
  "tree_ready s \<longleftrightarrow>
     manager_ok s \<and> distinct (map p_Id (m_Processes s)) \<and>
     (\<forall>p \<in> set (m_Processes s). p_Id p = 0 \<longrightarrow> ParentId p = 0) \<and>
     (\<forall>p \<in> set (m_Processes s). \<forall>q \<in> set (m_Processes s).
        ParentId p = p_Id q \<longrightarrow> ParentId p \<noteq> 0 \<longrightarrow> Created (p_Key q) \<noteq> Created (p_Key p))"

lemma ready_lookup:
  assumes "tree_ready s" and "q \<in> set (m_Processes s)"
  shows "tfind (m_ProcessesById s) (p_Id q) = Some q"
proof -
  let ?ps = "m_Processes s"
  obtain x where x: "first_where (\<lambda>p. p_Id p = p_Id q) ?ps = Some x"
    using assms(2) by (cases "first_where (\<lambda>p. p_Id p = p_Id q) ?ps") (auto simp: first_where_none)
  then have "x \<in> set ?ps" "p_Id x = p_Id q" by (auto dest: first_where_key)
  then have "x = q" using assms by (auto simp: tree_ready_def distinct_map inj_on_def)
  with x assms(1) show ?thesis by (simp add: tree_ready_def manager_ok_def)
qed

lemma below_nonzero:
  assumes "tree_ready s" and "p_Id r \<noteq> 0"
  shows "(r, x) \<in> (parent_rel (m_Processes s))\<^sup>* \<Longrightarrow> p_Id x \<noteq> 0"
proof (induction rule: rtrancl_induct)
  case (step y z)
  then show ?case using assms(1) by (auto simp: tree_ready_def parent_rel_def is_child_def)
qed (rule assms(2))

lemma root_has_no_parent:
  assumes "tree_ready s" and "is_root s p" and "(q, p) \<in> parent_rel (m_Processes s)"
  shows "p_Id q = 0"
proof (rule ccontr)
  assume q: "p_Id q \<noteq> 0"
  have "q \<in> set (m_Processes s)" "ParentId p = p_Id q" "Created (p_Key q) < Created (p_Key p)"
    using assms(3) by (auto simp: parent_rel_def is_child_def)
  then show False using assms(2) q ready_lookup [OF assms(1)] by (simp add: is_root_def)
qed

lemma root_not_below:
  assumes "tree_ready s" and "is_root s p" and "p_Id r \<noteq> 0"
  shows "(r, p) \<notin> (parent_rel (m_Processes s))\<^sup>+"
proof
  assume "(r, p) \<in> (parent_rel (m_Processes s))\<^sup>+"
  then obtain c where "(r, c) \<in> (parent_rel (m_Processes s))\<^sup>*" "(c, p) \<in> parent_rel (m_Processes s)"
    by (meson tranclD2)
  then show False
    using below_nonzero [OF assms(1,3)] root_has_no_parent [OF assms(1,2)] by blast
qed

lemma non_root_parent:
  assumes "tree_ready s" and "p \<in> set (m_Processes s)" and "\<not> is_root s p"
  shows "\<exists>q. p_Id q \<noteq> 0 \<and> (q, p) \<in> parent_rel (m_Processes s)"
proof -
  obtain q where q: "tfind (m_ProcessesById s) (ParentId p) = Some q" "ParentId p \<noteq> 0"
      "\<not> Created (p_Key q) > Created (p_Key p)"
    using assms(3) by (auto simp: is_root_def split: option.splits)
  then have q': "q \<in> set (m_Processes s)" "p_Id q = ParentId p"
    using assms(1) by (auto simp: tree_ready_def manager_ok_def dest: first_where_key)
  then have "Created (p_Key q) \<noteq> Created (p_Key p)"
    using assms(1,2) q(2) by (auto simp: tree_ready_def)
  then show ?thesis
    using q q' assms(2) by (intro exI [of _ q]) (auto simp: parent_rel_def is_child_def)
qed

lemma reached_from_root:
  assumes ready: "tree_ready s"
  shows "p \<in> set (m_Processes s) \<Longrightarrow>
    \<exists>r \<in> set (m_Processes s). is_root s r \<and> (r, p) \<in> (parent_rel (m_Processes s))\<^sup>* \<and> (r = p \<or> p_Id r \<noteq> 0)"
proof (induction "length (filter (\<lambda>q. Created (p_Key q) < Created (p_Key p)) (m_Processes s))" arbitrary: p
    rule: less_induct)
  case less
  show ?case
  proof (cases "is_root s p")
    case False
    then obtain q where q: "p_Id q \<noteq> 0" "(q, p) \<in> parent_rel (m_Processes s)"
      using non_root_parent [OF ready less.prems] by blast
    then have in_q: "q \<in> set (m_Processes s)" and lt: "Created (p_Key q) < Created (p_Key p)"
      by (auto simp: parent_rel_def is_child_def)
    have "set (filter (\<lambda>x. Created (p_Key x) < Created (p_Key q)) (m_Processes s)) \<subseteq>
        set (filter (\<lambda>x. Created (p_Key x) < Created (p_Key p)) (m_Processes s)) - {q}"
      using lt by auto
    moreover have "q \<in> set (filter (\<lambda>x. Created (p_Key x) < Created (p_Key p)) (m_Processes s))"
      using lt in_q by simp
    moreover have d: "distinct (m_Processes s)" using ready by (simp add: tree_ready_def distinct_map)
    ultimately have "length (filter (\<lambda>x. Created (p_Key x) < Created (p_Key q)) (m_Processes s)) <
        length (filter (\<lambda>x. Created (p_Key x) < Created (p_Key p)) (m_Processes s))"
      by (metis (no_types, lifting) List.finite_set card_Diff1_less card_mono distinct_card distinct_filter
          finite_Diff le_less_trans)
    from less.hyps [OF this in_q] obtain r where
      r: "r \<in> set (m_Processes s)" "is_root s r" "(r, q) \<in> (parent_rel (m_Processes s))\<^sup>*" "r = q \<or> p_Id r \<noteq> 0"
      by blast
    have "p_Id r \<noteq> 0" using r(4) q(1) by blast
    then show ?thesis using r q(2) by (intro bexI [of _ r]) auto
  qed (use less.prems in blast)
qed

definition tree_ids :: "ProcessManager \<Rightarrow> ProcessInfo \<Rightarrow> u32 list" where
  "tree_ids s p = p_Id p # (if p_Id p = 0 then [] else map fst (FindChildren (m_Processes s) p 1))"

lemma map_concat_cong:
  "(\<And>p. p \<in> set ps \<Longrightarrow> map f (g p) = map h (k p)) \<Longrightarrow> map f (concat (map g ps)) = map h (concat (map k ps))"
  by (induction ps) auto

lemma tree_of_ids:
  assumes "tree_ready s"
  shows "map fst (tree_of s) =
    map (tfind (m_ProcessesById s)) (concat (map (tree_ids s) (filter (is_root s) (m_Processes s))))"
  unfolding tree_of_def
proof (rule map_concat_cong)
  fix p assume "p \<in> set (filter (is_root s) (m_Processes s))"
  then have "tfind (m_ProcessesById s) (p_Id p) = Some p"
    using ready_lookup [OF assms] by simp
  then show "map fst ((Some p, 0) # (if p_Id p = 0 then []
      else map (\<lambda>(pid, indent). (tfind (m_ProcessesById s) pid, indent)) (FindChildren (m_Processes s) p 1))) =
      map (tfind (m_ProcessesById s)) (tree_ids s p)"
    by (auto simp: tree_ids_def split_def)
qed

lemma tree_ids_set:
  assumes ready: "tree_ready s" and "p \<in> set (m_Processes s)"
  shows "set (tree_ids s p) =
    (if p_Id p = 0 then {0} else p_Id ` {x. (p, x) \<in> (parent_rel (m_Processes s))\<^sup>*})"
  using subtree_ids [OF assms(2), of 1] by (simp add: tree_ids_def)

lemma tree_ids_distinct:
  assumes ready: "tree_ready s"
  shows "distinct (concat (map (tree_ids s) (filter (is_root s) (m_Processes s))))"
proof (rule distinct_concat_map)
  have d: "distinct (map p_Id (m_Processes s))" using ready by (simp add: tree_ready_def)
  then show "distinct (filter (is_root s) (m_Processes s))" by (simp add: distinct_map)
  {
    fix p assume p: "p \<in> set (filter (is_root s) (m_Processes s))"
    have "p_Id p \<notin> set (map fst (FindChildren (m_Processes s) p 1))" if "p_Id p \<noteq> 0"
    proof
      assume "p_Id p \<in> set (map fst (FindChildren (m_Processes s) p 1))"
      then obtain x where x: "(p, x) \<in> (parent_rel (m_Processes s))\<^sup>+" "p_Id p = p_Id x"
        using p FindChildren_ids [of p "m_Processes s" 1] by auto
      then have "x = p"
        using p parent_rel_in [OF trancl_into_rtrancl [OF x(1)]] d by (auto simp: distinct_map inj_on_def)
      then show False using parent_rel_created [OF x(1)] by simp
    qed
    then show "distinct (tree_ids s p)" using p FindChildren_distinct [OF d] by (simp add: tree_ids_def)
  }
  fix p q assume pq: "p \<in> set (filter (is_root s) (m_Processes s))" "q \<in> set (filter (is_root s) (m_Processes s))" "p \<noteq> q"
  then have ids: "p_Id p \<noteq> p_Id q" using d by (auto simp: distinct_map inj_on_def)
  consider "p_Id p = 0" | "p_Id q = 0" | "p_Id p \<noteq> 0" "p_Id q \<noteq> 0" by blast
  then show "set (tree_ids s p) \<inter> set (tree_ids s q) = {}"
  proof cases
    case 3
    then show ?thesis
      using subtrees_apart [OF d, of p q 1 1] pq root_not_below [OF ready] by (simp add: tree_ids_def)
  qed (use pq ids below_nonzero [OF ready] in \<open>auto simp: tree_ids_set [OF ready]\<close>)
qed



definition child_entry :: "u32 \<Rightarrow> u32 \<Rightarrow> int \<Rightarrow> ProcessEntry" where
  "child_entry pid parent created = (small_entry pid created False)\<lparr>pe_InheritedFromUniqueProcessId := parent\<rparr>"

definition family :: ProcessManager where
  "family = run small_machine
     [(small_system [child_entry 0 0 0, child_entry 4 0 1, child_entry 8 4 2, child_entry 12 8 3, child_entry 16 20 4],
       False, 0)]"

lemma family_ready: "tree_ready family"
proof -
  have "manager_ok family" unfolding family_def by (rule run_ok)
  moreover have "distinct (map p_Id (m_Processes family))"
    and "\<forall>p \<in> set (m_Processes family). p_Id p = 0 \<longrightarrow> ParentId p = 0"
    and "\<forall>p \<in> set (m_Processes family). \<forall>q \<in> set (m_Processes family).
        ParentId p = p_Id q \<longrightarrow> ParentId p \<noteq> 0 \<longrightarrow> Created (p_Key q) \<noteq> Created (p_Key p)"
    by code_simp+
  ultimately show ?thesis by (simp add: tree_ready_def)
qed


lemma family_tree: "map (\<lambda>(p, n). (map_option p_Id p, n)) (tree_of family) =
    [(Some 0, 0), (Some 4, 0), (Some 8, 1), (Some 12, 2), (Some 16, 0)]"
  by code_simp

text \<open>
  Two comparisons leave a gap: a process created at the same time as its parent is no root (the parent's time
  is not greater) and no child (its own is not greater), so the tree misses it.
\<close>

lemma same_time_lost:
  "map (\<lambda>(p, n). (map_option p_Id p, n))
     (snd (BuildProcessTree small_machine (small_system [child_entry 4 0 1, child_entry 8 4 1]) initial)) =
   [(Some 4, 0)]"
  by code_simp

section \<open>Detach\<close>

definition within :: "nat \<Rightarrow> nat option \<Rightarrow> nat \<Rightarrow> bool" where
  "within n start len = (case start of None \<Rightarrow> True | Some a \<Rightarrow> a + len \<le> n)"

text \<open>The last entry of a snapshot has no next one, and the size \<open>Detach\<close> works out for it covers its
  threads, its extension with the SID and the package name (and its terminator), and the image name.\<close>

theorem detached_size_covers:
  "detached_size (l\<lparr>e_Next := 0\<rparr>) \<ge> e_header l + e_thread_size l * unat (e_ThreadCount l) \<and>
   within (detached_size (l\<lparr>e_Next := 0\<rparr>)) (e_Extension l) (e_extension_size l) \<and>
   within (detached_size (l\<lparr>e_Next := 0\<rparr>)) (e_Extension l)
     (if e_UserSidOffset l = 0 then 0 else unat (e_UserSidOffset l) + e_SidLength l) \<and>
   within (detached_size (l\<lparr>e_Next := 0\<rparr>)) (e_Extension l)
     (if e_PackageFullNameOffset l = 0 then 0
      else unat (e_PackageFullNameOffset l) + 2 * (e_PackageLength l + 1)) \<and>
   within (detached_size (l\<lparr>e_Next := 0\<rparr>))
     (if e_NameOffset l = Some 0 then None else e_NameOffset l) (unat (e_NameMaximumLength l))"
  by (auto simp: detached_size_def extension_end_def within_def Let_def split: option.splits)

end
