(* ===== verification/Handle_Names.thy ===== *)
theory Handle_Names
  imports Win_Prelude
begin

text \<open>
  Object types, handles and their names (\<open>WinSys/Handles.cpp\<close>): the walk over the object types and the table
  of their names, the buffers that grow until a query fits, the handles of one process, and the two name
  conversions: registry names as the registry editor shows them, and file names with drive letters. The
  calls into the system are parameters: \<open>query\<close> is what a call with a buffer of some size answers.
\<close>

section \<open>Comparing names\<close>

text \<open>\<open>_wcsnicmp(name, prefix, n) == 0\<close>, in the C locale (ASCII letters compare without case); a C string ends at its NUL.\<close>

definition lower :: "16 word \<Rightarrow> 16 word" where
  "lower c = (if 0x41 \<le> c \<and> c \<le> 0x5A then c + 0x20 else c)"

definition c_str :: "wstr \<Rightarrow> wstr" where
  "c_str s = takeWhile not_nul s"

definition same_start :: "wstr \<Rightarrow> wstr \<Rightarrow> nat \<Rightarrow> bool" where
  "same_start name prefix n \<longleftrightarrow> map lower (take n (c_str name)) = map lower (take n (c_str prefix))"

section \<open>Registry names\<close>

text \<open>The static \<open>currentUser\<close>: the key of the user's SID, or nothing when the token can't be queried.\<close>

definition current_user :: "wstr option \<Rightarrow> wstr" where
  "current_user sid = (case sid of None \<Rightarrow> [] | Some t \<Rightarrow> wide_path ''/REGISTRY/USER/'' @ t)"

text \<open>The \<open>replace\<close> lambda: the new name when the prefix matches the whole name or up to a backslash.\<close>

definition replace :: "wstr \<Rightarrow> wstr \<Rightarrow> wstr \<Rightarrow> wstr option" where
  "replace name prefix new =
     (if prefix = [] \<or> \<not> same_start name prefix (length prefix) then None
      else if length name > length prefix \<and> name ! length prefix \<noteq> 0x5C then None
      else Some (new @ drop (length prefix) name))"

fun first_some :: "'a option list \<Rightarrow> 'a option" where
  "first_some [] = None"
| "first_some (Some x # _) = Some x"
| "first_some (None # xs) = first_some xs"

definition RegistryName :: "wstr option \<Rightarrow> wstr \<Rightarrow> wstr" where
  "RegistryName sid name =
     (case first_some
        [replace name (current_user sid @ wide ''_Classes'') (wide_path ''HKCU/Software/Classes''),
         replace name (current_user sid) (wide ''HKCU''),
         replace name (wide_path ''/REGISTRY/MACHINE'') (wide ''HKLM''),
         replace name (wide_path ''/REGISTRY/USER'') (wide ''HKU'')] of
        None \<Rightarrow> name
      | Some new \<Rightarrow> new)"

section \<open>File names\<close>

lemma drop_bit_1_less: "(w :: u32) \<noteq> 0 \<Longrightarrow> unat (drop_bit 1 w) < unat w"
  by (simp add: drop_bit_eq_div unat_div unat_gt_0)

text \<open>\<open>DosNames\<close>: the devices of the drives that have one (\<open>device k\<close>: what \<open>QueryDosDevice\<close> gives for drive \<open>k\<close>).\<close>

function dos_devices :: "(nat \<Rightarrow> wstr option) \<Rightarrow> nat \<Rightarrow> u32 \<Rightarrow> (wstr \<times> wstr) list" where
  "dos_devices device drive drives =
     (if drives = 0 then []
      else
        (let letter = [of_nat (0x41 + drive), 0x3A]
         in (if drives AND 1 \<noteq> 0
             then (case device drive of
                     None \<Rightarrow> [] | Some d \<Rightarrow> [(d @ [0x5C], letter @ [0x5C])])
             else []) @ dos_devices device (drive + 1) (drop_bit 1 drives)))"
  by pat_completeness auto

termination
  by (relation "measure (\<lambda>(device, drive, drives). unat drives)") (auto intro: drop_bit_1_less [unfolded One_nat_def])

declare dos_devices.simps [simp del]

fun Convert :: "(wstr \<times> wstr) list \<Rightarrow> wstr \<Rightarrow> wstr" where
  "Convert [] name = name"
| "Convert ((device, letter) # rest) name =
     (if same_start name device (length device) then letter @ drop (length device) name else Convert rest name)"

section \<open>Object types\<close>

record ObjectType =
  TypeIndex :: byte
  TypeName :: wstr
  TypeNameMaximumLength :: u16

text \<open>\<open>LoadTypeNames\<close>: the names by index, with room made for an index past the end.\<close>

definition put_type_name :: "ObjectType \<Rightarrow> wstr list \<Rightarrow> wstr list" where
  "put_type_name type names =
     (let index = unat (TypeIndex type);
          names = (if index \<ge> length names then names @ replicate (index + 1 - length names) [] else names)
      in names[index := TypeName type])"

definition LoadTypeNames :: "ObjectType list \<Rightarrow> wstr list" where
  "LoadTypeNames types = fold put_type_name types []"

definition GetName :: "wstr list \<Rightarrow> u16 \<Rightarrow> wstr" where
  "GetName names typeIndex = (if unat typeIndex < length names then names ! unat typeIndex else [])"

text \<open>\<open>PoolTypeName\<close>: the other types in decimal (\<open>std::to_wstring\<close>).\<close>

fun decimal_digits :: "nat \<Rightarrow> wstr \<Rightarrow> wstr" where
  "decimal_digits n acc =
     (if n < 10 then of_nat (0x30 + n) # acc else decimal_digits (n div 10) (of_nat (0x30 + n mod 10) # acc))"

declare decimal_digits.simps [simp del]

definition to_wstring :: "nat \<Rightarrow> wstr" where
  "to_wstring n = decimal_digits n []"

definition PoolTypeName :: "u32 \<Rightarrow> wstr" where
  "PoolTypeName poolType =
     (if poolType = 0 then wide ''Non-paged'' else if poolType = 1 then wide ''Paged''
      else if poolType = 512 then wide ''Non-paged NX'' else to_wstring (unat poolType))"

text \<open>The addresses of the entries: each after the one before and its name, aligned to a pointer (8 bytes).\<close>

definition align8 :: "u64 \<Rightarrow> u64" where
  "align8 p = (p + 7) AND (NOT 7)"

fun type_addresses :: "u64 \<Rightarrow> u64 \<Rightarrow> u16 list \<Rightarrow> u64 list" where
  "type_addresses info_size a [] = []"
| "type_addresses info_size a (maximum # rest) = a # type_addresses info_size (align8 (a + info_size + ucast maximum)) rest"

section \<open>Queries that grow their buffer\<close>

datatype 'a Answer = Fits 'a | Mismatch u32 | Error

text \<open>
  The loops of \<open>ForEachType\<close>, \<open>EnumProcessHandles\<close> and \<open>QuerySystemHandles\<close>: a mismatch asks again with the
  size the caller's \<open>grow\<close> gives, for as long as the system answers so: not returning is \<open>None\<close>.
\<close>

partial_function (option) query_until_fits ::
  "(nat \<Rightarrow> u32 \<Rightarrow> 'a Answer) \<Rightarrow> (u32 \<Rightarrow> u32 \<Rightarrow> u32) \<Rightarrow> nat \<Rightarrow> u32 \<Rightarrow> 'a option option"
where
  [code]: "query_until_fits query grow k n =
     (case query k n of
        Fits r \<Rightarrow> Some (Some r)
      | Error \<Rightarrow> Some None
      | Mismatch needed \<Rightarrow> query_until_fits query grow (Suc k) (grow n needed))"

definition grow_types :: "u32 \<Rightarrow> u32 \<Rightarrow> u32" where
  "grow_types n needed = max (n * 2) (needed + 4096)"

definition grow_process :: "u32 \<Rightarrow> u32 \<Rightarrow> u32" where
  "grow_process n needed = needed + 4096"

definition ForEachType :: "(nat \<Rightarrow> u32 \<Rightarrow> ObjectType list Answer) \<Rightarrow> ObjectType list option option" where
  "ForEachType query = query_until_fits query grow_types 0 0x10000"

section \<open>Handles\<close>

record SystemHandleEntry =
  s_Value :: u64
  s_Object :: u64
  s_Access :: u32
  s_Attributes :: u32
  s_TypeIndex :: u16
  s_Pid :: u32

definition EnumProcessHandles ::
  "(nat \<Rightarrow> u32 \<Rightarrow> SystemHandleEntry list Answer) \<Rightarrow> SystemHandleEntry list option option" where
  "EnumProcessHandles query =
     map_option (map_option (map (\<lambda>h. h\<lparr>s_Object := 0\<rparr>))) (query_until_fits query grow_process 0 0x4000)"

definition EnumProcessHandlesWithAddresses ::
  "SystemHandleEntry list option \<Rightarrow> u32 \<Rightarrow> SystemHandleEntry list option" where
  "EnumProcessHandlesWithAddresses info pid = map_option (filter (\<lambda>h. s_Pid h = pid)) info"

text \<open>The \<open>processText\<close> lambda: \<open>name\<close> is the looked-up name, \<open>path\<close> the image path when that is empty.\<close>

definition process_text :: "u32 \<Rightarrow> wstr \<Rightarrow> wstr option \<Rightarrow> wstr" where
  "process_text pid name path =
     (let name = (if name = [] then
                    (case path of
                       None \<Rightarrow> []
                     | Some p \<Rightarrow> rev (takeWhile (\<lambda>c. c \<noteq> 0x5C) (rev (c_str p))))
                  else name)
      in wide ''PID: '' @ to_wstring (unat pid) @ (if name = [] then [] else wide '', '' @ name))"

section \<open>Properties\<close>

lemma first_some_Some: "first_some xs = Some x \<Longrightarrow> Some x \<in> set xs"
  by (induction xs rule: first_some.induct) auto

lemma same_start_head:
  assumes "same_start (a # name) (b # prefix) n" and "0 < n" and "b \<noteq> 0"
  shows "lower a = lower b"
proof -
  obtain m where n: "n = Suc m" using assms(2) by (cases n) auto
  show ?thesis
  proof (cases "a = 0")
    case True
    then show ?thesis using assms by (simp add: same_start_def c_str_def not_nul_def n)
  next
    case False
    then show ?thesis using assms by (simp add: same_start_def c_str_def not_nul_def n)
  qed
qed

text \<open>The editor's names do not begin like the system's, so converting one again leaves it alone.\<close>

lemma not_replaced:
  assumes "prefix = [] \<or> hd prefix = 0x5C \<or> hd prefix = 0x5F"
  shows "replace (0x48 # name) prefix new = None"
proof (cases prefix)
  case (Cons b rest)
  then have "b = 0x5C \<or> b = 0x5F" using assms by simp
  then have "lower 0x48 \<noteq> lower b" "b \<noteq> 0" by (auto simp: lower_def)
  then have "\<not> same_start (0x48 # name) (b # rest) (length (b # rest))"
    using same_start_head [of "0x48" name b rest "length (b # rest)"] by auto
  then show ?thesis by (simp add: replace_def Cons)
qed (simp add: replace_def)

lemma current_user_heads:
  "hd (current_user sid @ wide ''_Classes'') \<in> {0x5C, 0x5F}"
  "current_user sid = [] \<or> hd (current_user sid) = 0x5C"
  by (cases sid; simp add: current_user_def wide_def wide_path_def)+

lemma RegistryName_editor: "RegistryName sid (0x48 # name) = 0x48 # name"
proof -
  have "replace (0x48 # name) (current_user sid @ wide ''_Classes'') x = None" for x
    using current_user_heads(1) [of sid] by (intro not_replaced) auto
  moreover have "replace (0x48 # name) (current_user sid) x = None" for x
    using current_user_heads(2) [of sid] by (intro not_replaced) auto
  moreover have "replace (0x48 # name) (wide_path ''/REGISTRY/MACHINE'') x = None"
    "replace (0x48 # name) (wide_path ''/REGISTRY/USER'') x = None" for x
    by (rule not_replaced; simp add: wide_def wide_path_def)+
  ultimately show ?thesis by (simp add: RegistryName_def)
qed

text \<open>Converting a registry name twice is converting it once: a name already in the registry editor's form
  (the resolver may give either) is left alone, whoever the user is.\<close>

theorem RegistryName_idem: "RegistryName sid (RegistryName sid name) = RegistryName sid name"
proof -
  have "RegistryName sid name = name \<or> (\<exists>rest. RegistryName sid name = 0x48 # rest)"
  proof (cases "first_some
        [replace name (current_user sid @ wide ''_Classes'') (wide_path ''HKCU/Software/Classes''),
         replace name (current_user sid) (wide ''HKCU''),
         replace name (wide_path ''/REGISTRY/MACHINE'') (wide ''HKLM''),
         replace name (wide_path ''/REGISTRY/USER'') (wide ''HKU'')]")
    case (Some x)
    from first_some_Some [OF this] have "\<exists>rest. x = 0x48 # rest"
      by (auto simp: replace_def wide_def wide_path_def split: if_splits)
    with Some show ?thesis by (simp add: RegistryName_def)
  qed (simp add: RegistryName_def)
  then show ?thesis using RegistryName_editor by auto
qed

end
