(* ===== verification/Registry_Io.thy ===== *)
theory Registry_Io
  imports Handle_Names
begin

text \<open>
  Registry I/O counted per process and key (\<open>WinSys/RegistryIo.h\<close>, \<open>RegistryIo.cpp\<close>): the payload parser, and
  \<open>RegistryIoTable\<close> with its deferred operations. An operation on a key object without a name waits for the
  resolver; an open that waits gives its key object a token, on which the operations that follow wait.
  \<open>up\<close> is \<open>RtlUpcaseUnicodeChar\<close>, \<open>sid\<close> the current user's (for \<open>RegistryName\<close>).
\<close>

section \<open>Operations and events\<close>

datatype RegistryOperation =
    OpNone | CreateKey | OpenKey | DeleteKey | QueryKey | SetValue | DeleteValue | QueryValue | EnumerateKey
  | EnumerateValue | QueryMultipleValues | SetKeyInformation | FlushKey | CloseKey | QuerySecurity | SetSecurity

text \<open>The enumerators in order, from 0; an event's ID is its operation's number.\<close>

definition operations :: "RegistryOperation list" where
  "operations =
     [OpNone, CreateKey, OpenKey, DeleteKey, QueryKey, SetValue, DeleteValue, QueryValue, EnumerateKey,
      EnumerateValue, QueryMultipleValues, SetKeyInformation, FlushKey, CloseKey, QuerySecurity, SetSecurity]"

fun op_number :: "RegistryOperation \<Rightarrow> nat" where
  "op_number OpNone = 0" | "op_number CreateKey = 1" | "op_number OpenKey = 2" | "op_number DeleteKey = 3"
| "op_number QueryKey = 4" | "op_number SetValue = 5" | "op_number DeleteValue = 6" | "op_number QueryValue = 7"
| "op_number EnumerateKey = 8" | "op_number EnumerateValue = 9" | "op_number QueryMultipleValues = 10"
| "op_number SetKeyInformation = 11" | "op_number FlushKey = 12" | "op_number CloseKey = 13"
| "op_number QuerySecurity = 14" | "op_number SetSecurity = 15"

lemma operations_number: "operations ! op_number op = op \<and> op_number op < length operations"
  by (cases op) (simp_all add: operations_def)

lemma op_number_inj: "op_number a = op_number b \<Longrightarrow> a = b"
  by (metis operations_number)

instantiation RegistryOperation :: linorder
begin

definition less_eq_RegistryOperation :: "RegistryOperation \<Rightarrow> RegistryOperation \<Rightarrow> bool" where
  "less_eq_RegistryOperation a b \<longleftrightarrow> op_number a \<le> op_number b"

definition less_RegistryOperation :: "RegistryOperation \<Rightarrow> RegistryOperation \<Rightarrow> bool" where
  "less_RegistryOperation a b \<longleftrightarrow> op_number a < op_number b"

instance
proof
  fix a b :: RegistryOperation
  show "a \<le> b \<Longrightarrow> b \<le> a \<Longrightarrow> a = b"
    by (rule op_number_inj) (simp add: less_eq_RegistryOperation_def)
qed (auto simp: less_eq_RegistryOperation_def less_RegistryOperation_def)

end

datatype RegistryUnnamed = NotUnnamed | Closed | KernelHandle | Protected

record RegistryEvent =
  Operation :: RegistryOperation
  KeyObject :: u64
  BaseObject :: u64
  Status :: u32
  Disposition :: u32
  Stamp :: int
  Name :: wstr
  ValueName :: wstr

definition no_event :: RegistryEvent where
  "no_event = \<lparr>Operation = OpNone, KeyObject = 0, BaseObject = 0, Status = 0, Disposition = 0, Stamp = 0,
     Name = [], ValueName = []\<rparr>"

definition StatusReparse :: u32 where "StatusReparse = 0x104"
definition StatusBufferTooSmall :: u32 where "StatusBufferTooSmall = 0xC0000023"
definition RegCreatedNewKey :: u32 where "RegCreatedNewKey = 1"

definition is_open :: "RegistryOperation \<Rightarrow> bool" where
  "is_open op \<longleftrightarrow> op = OpenKey \<or> op = CreateKey"

section \<open>The payload reader\<close>

text \<open>The fields are read in order; one past the payload's end reads as zero, or empty.\<close>

record Reader =
  r_Data :: bytes
  r_PointerSize :: nat
  r_Offset :: nat

definition Pointer :: "Reader \<Rightarrow> u64 \<times> Reader" where
  "Pointer r =
     ((if r_Offset r + r_PointerSize r \<le> length (r_Data r)
       then of_nat (le_nat (take (r_PointerSize r) (drop (r_Offset r) (r_Data r)))) else 0),
      r\<lparr>r_Offset := r_Offset r + r_PointerSize r\<rparr>)"

definition UInt32 :: "Reader \<Rightarrow> u32 \<times> Reader" where
  "UInt32 r =
     ((if r_Offset r + 4 \<le> length (r_Data r) then u32_at (r_Data r) (r_Offset r) else 0),
      r\<lparr>r_Offset := r_Offset r + 4\<rparr>)"

definition String_field :: "Reader \<Rightarrow> wstr \<times> Reader" where
  "String_field r =
     (if r_Offset r \<ge> length (r_Data r) then ([], r)
      else
        (let text = units (drop (r_Offset r) (r_Data r));
             s = until_nul ((length (r_Data r) - r_Offset r) div 2) text
         in (s, r\<lparr>r_Offset := r_Offset r + (length s + 1) * 2\<rparr>)))"

section \<open>The parser\<close>

definition joined_name :: "wstr \<Rightarrow> wstr \<Rightarrow> wstr" where
  "joined_name base relative =
     (if base = [] then relative else if relative = [] then base else base @ [0x5C] @ relative)"

text \<open>BaseObject, KeyObject, Status, Disposition, BaseName, RelativeName.\<close>

definition parse_open :: "RegistryEvent \<Rightarrow> Reader \<Rightarrow> RegistryEvent" where
  "parse_open e r =
     (let (base_object, r) = Pointer r; (object, r) = Pointer r; (status, r) = UInt32 r; (disposition, r) = UInt32 r;
          (base, r) = String_field r; (relative, r) = String_field r
      in e\<lparr>BaseObject := base_object, KeyObject := object, Status := status, Disposition := disposition,
           Name := joined_name base relative\<rparr>)"

text \<open>KeyObject, Status, two integers, KeyName, ValueName.\<close>

definition parse_value :: "RegistryEvent \<Rightarrow> Reader \<Rightarrow> RegistryEvent" where
  "parse_value e r =
     (let (object, r) = Pointer r; (status, r) = UInt32 r; (_, r) = UInt32 r; (_, r) = UInt32 r;
          (_, r) = String_field r; (name, r) = String_field r
      in e\<lparr>KeyObject := object, Status := status, ValueName := name\<rparr>)"

definition Parse :: "u16 \<Rightarrow> bytes \<Rightarrow> nat \<Rightarrow> RegistryEvent option" where
  "Parse i data pointerSize =
     (if unat i < op_number CreateKey \<or> unat i > op_number SetSecurity then None
      else
        (let op = operations ! unat i; e = no_event\<lparr>Operation := op\<rparr>;
             r = \<lparr>r_Data = data, r_PointerSize = pointerSize, r_Offset = 0\<rparr>
         in Some
           (case op of
              CreateKey \<Rightarrow> parse_open e r
            | OpenKey \<Rightarrow> parse_open e r
            | SetValue \<Rightarrow> parse_value e r
            | QueryValue \<Rightarrow> parse_value e r
            | DeleteValue \<Rightarrow>
                (let (object, r) = Pointer r; (status, r) = UInt32 r; (_, r) = String_field r; (name, r) = String_field r
                 in e\<lparr>KeyObject := object, Status := status, ValueName := name\<rparr>)
            | _ \<Rightarrow>
                (let (object, r) = Pointer r; (status, r) = UInt32 r
                 in e\<lparr>KeyObject := object, Status := status\<rparr>))))"

section \<open>Names\<close>

fun OperationName :: "RegistryOperation \<Rightarrow> wstr" where
  "OperationName CreateKey = wide ''Create Key''"
| "OperationName OpenKey = wide ''Open Key''"
| "OperationName DeleteKey = wide ''Delete Key''"
| "OperationName QueryKey = wide ''Query Key''"
| "OperationName SetValue = wide ''Set Value''"
| "OperationName DeleteValue = wide ''Delete Value''"
| "OperationName QueryValue = wide ''Query Value''"
| "OperationName EnumerateKey = wide ''Enumerate Keys''"
| "OperationName EnumerateValue = wide ''Enumerate Values''"
| "OperationName QueryMultipleValues = wide ''Query Multiple Values''"
| "OperationName SetKeyInformation = wide ''Set Key Information''"
| "OperationName FlushKey = wide ''Flush Key''"
| "OperationName CloseKey = wide ''Close Key''"
| "OperationName QuerySecurity = wide ''Query Security''"
| "OperationName SetSecurity = wide ''Set Security''"
| "OperationName OpNone = []"

text \<open>\<open>%llX\<close> and \<open>%08X\<close>.\<close>

definition hex_digit :: "nat \<Rightarrow> 16 word" where
  "hex_digit n = (if n < 10 then of_nat (0x30 + n) else of_nat (0x37 + n))"

fun hex_digits :: "nat \<Rightarrow> wstr \<Rightarrow> wstr" where
  "hex_digits n acc =
     (if n < 16 then hex_digit n # acc else hex_digits (n div 16) (hex_digit (n mod 16) # acc))"

declare hex_digits.simps [simp del]

definition Hex :: "u64 \<Rightarrow> wstr" where
  "Hex v = hex_digits (unat v) []"

definition Hex8 :: "u32 \<Rightarrow> wstr" where
  "Hex8 v = (let d = hex_digits (unat v) [] in replicate (8 - length d) 0x30 @ d)"

definition ObjectText :: "u64 \<Rightarrow> wstr" where
  "ObjectText object = wide ''#'' @ Hex object"

definition result_names :: "(u32 \<times> string) list" where
  "result_names =
     [(0, ''SUCCESS''), (0x80000005, ''BUFFER OVERFLOW''), (0x8000001A, ''NO MORE ENTRIES''),
      (0xC0000022, ''ACCESS DENIED''), (0xC0000023, ''BUFFER TOO SMALL''), (0xC0000034, ''NAME NOT FOUND''),
      (0xC000003A, ''PATH NOT FOUND''), (0xC000017C, ''KEY DELETED''), (0xC0000033, ''NAME INVALID''),
      (0xC0000035, ''NAME COLLISION''), (0xC0000008, ''INVALID HANDLE''), (0xC000000D, ''INVALID PARAMETER'')]"

definition ResultName :: "u32 \<Rightarrow> wstr" where
  "ResultName status =
     (case map_of result_names status of Some text \<Rightarrow> wide text | None \<Rightarrow> wide ''0x'' @ Hex8 status)"

definition UnnamedName :: "u64 \<Rightarrow> RegistryUnnamed \<Rightarrow> wstr" where
  "UnnamedName object why =
     (let hex = wide ''0x'' @ Hex object
      in case why of
           Closed \<Rightarrow> wide ''(key '' @ hex @ wide '', closed)''
         | KernelHandle \<Rightarrow> wide ''(kernel key '' @ hex @ wide '')''
         | Protected \<Rightarrow> wide ''(key '' @ hex @ wide '' of a protected process)''
         | NotUnnamed \<Rightarrow> wide ''(key '' @ hex @ wide '')'')"

definition IsRetried :: "u32 \<Rightarrow> bool" where
  "IsRetried status \<longleftrightarrow> status = StatusReparse"

definition IsFailure :: "u32 \<Rightarrow> bool" where
  "IsFailure status \<longleftrightarrow> status AND 0xC0000000 = 0xC0000000 \<and> status \<noteq> StatusBufferTooSmall"

section \<open>The table\<close>

record RegistryIoCounters =
  Pid :: u32
  Key :: wstr
  Object :: u64
  Unnamed :: RegistryUnnamed
  Opens :: u64
  Reads :: u64
  Writes :: u64
  Failures :: u64
  LastOperation :: RegistryOperation
  LastStatus :: u32
  LastValue :: wstr
  FirstSeen :: int
  LastSeen :: int

definition no_counters :: RegistryIoCounters where
  "no_counters = \<lparr>Pid = 0, Key = [], Object = 0, Unnamed = NotUnnamed, Opens = 0, Reads = 0, Writes = 0,
     Failures = 0, LastOperation = OpNone, LastStatus = 0, LastValue = [], FirstSeen = 0, LastSeen = 0\<rparr>"

definition Operations :: "RegistryIoCounters \<Rightarrow> u64" where
  "Operations c = Opens c + Reads c + Writes c"

type_synonym RowId = "u32 \<times> wstr"

record Row =
  Counters :: RegistryIoCounters
  LastTick :: u64

record KeyName =
  Text :: wstr
  NameTick :: u64

record Deferred =
  d_Event :: RegistryEvent
  d_Pid :: u32
  d_Time :: int
  d_Tick :: u64
  d_Waiting :: u64
  d_Token :: u64

record Attempts =
  a_Count :: int
  a_Why :: RegistryUnnamed

record RegistryIoTable =
  m_Rows :: "(RowId, Row) table"
  m_Names :: "(u64, KeyName) table"
  m_Deferred :: "Deferred list"
  m_Waiting :: "(u64, int) table"
  m_Unnamed :: "u64 list"
  m_Attempts :: "(u64, Attempts) table"
  m_PendingOpens :: "(u64, u64) table"
  m_NextToken :: u64

definition MaxAttempts :: int where "MaxAttempts = 3"
definition MaxDeferred :: nat where "MaxDeferred = 100000"
definition KeyIdle :: u64 where "KeyIdle = 60000"
definition NameIdle :: u64 where "NameIdle = 120000"
definition TokenBase :: u64 where "TokenBase = 0x7FFF000000000000"

definition IsToken :: "u64 \<Rightarrow> bool" where
  "IsToken v \<longleftrightarrow> v \<ge> TokenBase \<and> v < 0x8000000000000000"

definition empty_table :: RegistryIoTable where
  "empty_table = \<lparr>m_Rows = [], m_Names = [], m_Deferred = [], m_Waiting = [], m_Unnamed = [], m_Attempts = [],
     m_PendingOpens = [], m_NextToken = TokenBase\<rparr>"

text \<open>The calls into the system.\<close>

record Env =
  upcase :: "16 word \<Rightarrow> 16 word"
  user_sid :: "wstr option"

definition Upper :: "Env \<Rightarrow> wstr \<Rightarrow> wstr" where
  "Upper env s = map (upcase env) s"

definition GaveUp :: "RegistryIoTable \<Rightarrow> u64 \<Rightarrow> bool" where
  "GaveUp s object \<longleftrightarrow>
     object = 0 \<or> (case tfind (m_Attempts s) object of None \<Rightarrow> False | Some a \<Rightarrow> a_Count a \<ge> MaxAttempts)"

definition WhyUnnamed :: "RegistryIoTable \<Rightarrow> u64 \<Rightarrow> RegistryUnnamed" where
  "WhyUnnamed s object = (case tfind (m_Attempts s) object of None \<Rightarrow> NotUnnamed | Some a \<Rightarrow> a_Why a)"

definition UnnamedBase :: "RegistryIoTable \<Rightarrow> u64 \<Rightarrow> wstr \<Rightarrow> wstr" where
  "UnnamedBase s base relative = UnnamedName base (WhyUnnamed s base) @ [0x5C] @ relative"

definition OpenName :: "Env \<Rightarrow> RegistryIoTable \<Rightarrow> RegistryEvent \<Rightarrow> wstr option" where
  "OpenName env s e =
     (if Name e \<noteq> [] \<and> Name e ! 0 = 0x5C then Some (RegistryName (user_sid env) (Name e))
      else
        (case tfind (m_Names s) (BaseObject e) of
           None \<Rightarrow> None
         | Some n \<Rightarrow> Some (if Name e = [] then Text n else Text n @ [0x5C] @ Name e)))"

section \<open>Counting\<close>

text \<open>The \<open>switch\<close> of \<open>Count\<close>.\<close>

definition count_kind :: "RegistryEvent \<Rightarrow> RegistryIoCounters \<Rightarrow> RegistryIoCounters" where
  "count_kind e c =
     (case Operation e of
        CreateKey \<Rightarrow>
          (let c = c\<lparr>Opens := Opens c + 1\<rparr>
           in if Disposition e = RegCreatedNewKey then c\<lparr>Writes := Writes c + 1\<rparr> else c)
      | OpenKey \<Rightarrow> c\<lparr>Opens := Opens c + 1\<rparr>
      | QueryKey \<Rightarrow> c\<lparr>Reads := Reads c + 1\<rparr>
      | QueryValue \<Rightarrow> c\<lparr>Reads := Reads c + 1\<rparr>
      | EnumerateKey \<Rightarrow> c\<lparr>Reads := Reads c + 1\<rparr>
      | EnumerateValue \<Rightarrow> c\<lparr>Reads := Reads c + 1\<rparr>
      | QueryMultipleValues \<Rightarrow> c\<lparr>Reads := Reads c + 1\<rparr>
      | QuerySecurity \<Rightarrow> c\<lparr>Reads := Reads c + 1\<rparr>
      | _ \<Rightarrow> c\<lparr>Writes := Writes c + 1\<rparr>)"

definition count_event ::
  "RegistryIoTable \<Rightarrow> RegistryEvent \<Rightarrow> wstr \<Rightarrow> u32 \<Rightarrow> int \<Rightarrow> RegistryIoCounters \<Rightarrow> RegistryIoCounters"
where
  "count_event s e name pid time c =
     (let object = (if name = [] then KeyObject e else 0);
          c = (if FirstSeen c = 0
               then c\<lparr>Pid := pid, Key := name, Object := object,
                      Unnamed := (if object \<noteq> 0 then WhyUnnamed s object else NotUnnamed), FirstSeen := time\<rparr>
               else c);
          c = count_kind e (c\<lparr>LastSeen := time, LastOperation := Operation e, LastStatus := Status e\<rparr>);
          c = (if IsFailure (Status e) then c\<lparr>Failures := Failures c + 1\<rparr> else c)
      in if Operation e = QueryValue \<or> Operation e = SetValue \<or> Operation e = DeleteValue
         then c\<lparr>LastValue := ValueName e\<rparr> else c)"

definition row_id :: "Env \<Rightarrow> RegistryEvent \<Rightarrow> wstr \<Rightarrow> u32 \<Rightarrow> RowId" where
  "row_id env e name pid = (pid, if name = [] then ObjectText (KeyObject e) else Upper env name)"

definition Count ::
  "Env \<Rightarrow> RegistryEvent \<Rightarrow> wstr \<Rightarrow> u32 \<Rightarrow> int \<Rightarrow> u64 \<Rightarrow> bool \<Rightarrow> RegistryIoTable \<Rightarrow> RegistryIoTable" where
  "Count env e name pid time tick nameObject s =
     (let i = row_id env e name pid;
          c = (case tfind (m_Rows s) i of None \<Rightarrow> no_counters | Some r \<Rightarrow> Counters r);
          s' = s\<lparr>m_Rows := tset i \<lparr>Counters = count_event s e name pid time c, LastTick = tick\<rparr> (m_Rows s)\<rparr>
      in if is_open (Operation e) \<and> nameObject \<and> KeyObject e \<noteq> 0 \<and> name \<noteq> [] \<and> \<not> IsFailure (Status e)
         then s'\<lparr>m_Names := tset (KeyObject e) \<lparr>Text = name, NameTick = tick\<rparr> (m_Names s')\<rparr>
         else s')"

section \<open>Deferring\<close>

definition NameToken :: "Deferred \<Rightarrow> wstr \<Rightarrow> u64 \<Rightarrow> RegistryIoTable \<Rightarrow> RegistryIoTable" where
  "NameToken d name tick s =
     (if d_Token d = 0 then s
      else
        (let s' = s\<lparr>m_Names := tset (d_Token d) \<lparr>Text = name, NameTick = tick\<rparr> (m_Names s)\<rparr>
         in if tfind (m_PendingOpens s') (KeyObject (d_Event d)) = Some (d_Token d)
            then s'\<lparr>m_PendingOpens := terase (KeyObject (d_Event d)) (m_PendingOpens s')\<rparr>
            else s'))"

definition insert_unnamed :: "u64 \<Rightarrow> u64 list \<Rightarrow> u64 list" where
  "insert_unnamed x xs = (if x \<in> set xs then xs else xs @ [x])"

definition waiting_count :: "RegistryIoTable \<Rightarrow> u64 \<Rightarrow> int" where
  "waiting_count s x = (case tfind (m_Waiting s) x of None \<Rightarrow> 0 | Some n \<Rightarrow> n)"

text \<open>What \<open>Defer\<close> does when too many operations wait.\<close>

definition count_at_once :: "Env \<Rightarrow> Deferred \<Rightarrow> RegistryIoTable \<Rightarrow> RegistryIoTable" where
  "count_at_once env d s =
     (let e = d_Event d
      in if is_open (Operation e)
         then
           (let name = UnnamedBase s (d_Waiting d) (Name e)
            in NameToken d name (d_Tick d) (Count env e name (d_Pid d) (d_Time d) (d_Tick d) True s))
         else
           (case tfind (m_Names s) (d_Waiting d) of
              Some n \<Rightarrow>
                if IsToken (d_Waiting d) then Count env e (Text n) (d_Pid d) (d_Time d) (d_Tick d) True s
                else Count env e [] (d_Pid d) (d_Time d) (d_Tick d) True s
            | None \<Rightarrow> Count env e [] (d_Pid d) (d_Time d) (d_Tick d) True s))"

definition too_many :: "RegistryIoTable \<Rightarrow> bool" where
  "too_many s \<longleftrightarrow> length (m_Deferred s) \<ge> MaxDeferred"

lemma too_many_code [code]: "too_many s \<longleftrightarrow> int (length (m_Deferred s)) \<ge> 100000"
  by (simp add: too_many_def MaxDeferred_def)

definition Defer :: "Env \<Rightarrow> Deferred \<Rightarrow> RegistryIoTable \<Rightarrow> RegistryIoTable" where
  "Defer env d s =
     (if too_many s then count_at_once env d s
      else
        (let x = d_Waiting d; n = waiting_count s x;
             s = s\<lparr>m_Waiting := tset x (n + 1) (m_Waiting s)\<rparr>;
             s = (if n = 0 \<and> \<not> IsToken x then s\<lparr>m_Unnamed := insert_unnamed x (m_Unnamed s)\<rparr> else s)
         in s\<lparr>m_Deferred := m_Deferred s @ [d]\<rparr>))"

text \<open>
  \<open>Retarget\<close> moves what waits on the object from \<open>stamp\<close> on to the token. (The source keeps an iterator into
  \<open>m_Waiting\<close> across the insertion of the token's entry; the model reads the entry again.)
\<close>

definition retarget_one :: "u64 \<Rightarrow> int \<Rightarrow> u64 \<Rightarrow> Deferred \<Rightarrow> RegistryIoTable \<Rightarrow> RegistryIoTable" where
  "retarget_one object stamp token d s =
     (if d_Waiting d = object \<and> Stamp (d_Event d) \<ge> stamp
      then
        (let m = tset token (waiting_count s token + 1) (m_Waiting s);
             n = (case tfind m object of None \<Rightarrow> 0 | Some n \<Rightarrow> n)
         in s\<lparr>m_Deferred := m_Deferred s @ [d\<lparr>d_Waiting := token\<rparr>], m_Waiting := tset object (n - 1) m\<rparr>)
      else s\<lparr>m_Deferred := m_Deferred s @ [d]\<rparr>)"

definition drop_if_zero :: "u64 \<Rightarrow> RegistryIoTable \<Rightarrow> RegistryIoTable" where
  "drop_if_zero x s = (if waiting_count s x = 0 then s\<lparr>m_Waiting := terase x (m_Waiting s)\<rparr> else s)"

definition Retarget :: "u64 \<Rightarrow> int \<Rightarrow> u64 \<Rightarrow> RegistryIoTable \<Rightarrow> RegistryIoTable" where
  "Retarget object stamp token s =
     (if tfind (m_Waiting s) object = None then s
      else drop_if_zero object (fold (retarget_one object stamp token) (m_Deferred s) (s\<lparr>m_Deferred := []\<rparr>)))"

section \<open>Flushing\<close>

text \<open>One deferred operation of \<open>FlushWaiting\<close>: kept, or counted under the object.\<close>

definition flush_one :: "Env \<Rightarrow> u64 \<Rightarrow> int \<Rightarrow> Deferred \<Rightarrow> RegistryIoTable \<Rightarrow> RegistryIoTable" where
  "flush_one env object stamp d s =
     (if d_Waiting d \<noteq> object \<or> Stamp (d_Event d) \<ge> stamp then s\<lparr>m_Deferred := m_Deferred s @ [d]\<rparr>
      else
        (let e = d_Event d;
             s' = Count env e (if is_open (Operation e) then UnnamedBase s object (Name e) else [])
                    (d_Pid d) (d_Time d) (d_Tick d) True s
         in s'\<lparr>m_Waiting := tset object (waiting_count s' object - 1) (m_Waiting s')\<rparr>))"

definition FlushWaiting :: "Env \<Rightarrow> u64 \<Rightarrow> int \<Rightarrow> RegistryIoTable \<Rightarrow> RegistryIoTable" where
  "FlushWaiting env object stamp s =
     (if tfind (m_Waiting s) object = None then s
      else
        (let s = s\<lparr>m_Attempts := tset object \<lparr>a_Count = MaxAttempts, a_Why = Closed\<rparr> (m_Attempts s)\<rparr>
         in drop_if_zero object (fold (flush_one env object stamp) (m_Deferred s) (s\<lparr>m_Deferred := []\<rparr>))))"

section \<open>Events\<close>

definition ignored :: "RegistryEvent \<Rightarrow> bool" where
  "ignored e \<longleftrightarrow>
     Operation e = OpNone \<or> Operation e = CloseKey \<or> Operation e = FlushKey \<or>
     is_open (Operation e) \<and> IsRetried (Status e)"

text \<open>A new key object at an address: what waits on the address was another key's.\<close>

definition new_object :: "Env \<Rightarrow> RegistryEvent \<Rightarrow> RegistryIoTable \<Rightarrow> RegistryIoTable" where
  "new_object env e s =
     (if KeyObject e = 0 then s
      else
        (let s = FlushWaiting env (KeyObject e) (Stamp e) s
         in s\<lparr>m_Attempts := terase (KeyObject e) (m_Attempts s),
              m_PendingOpens := terase (KeyObject e) (m_PendingOpens s)\<rparr>))"

definition deferred :: "RegistryEvent \<Rightarrow> u32 \<Rightarrow> int \<Rightarrow> u64 \<Rightarrow> u64 \<Rightarrow> u64 \<Rightarrow> Deferred" where
  "deferred e pid time tick waiting token =
     \<lparr>d_Event = e, d_Pid = pid, d_Time = time, d_Tick = tick, d_Waiting = waiting, d_Token = token\<rparr>"

definition give_token :: "RegistryEvent \<Rightarrow> RegistryIoTable \<Rightarrow> u64 \<times> RegistryIoTable" where
  "give_token e s =
     (if KeyObject e \<noteq> 0 \<and> \<not> IsFailure (Status e)
      then
        (let token = m_NextToken s
         in (token, Retarget (KeyObject e) (Stamp e) token
               (s\<lparr>m_Names := terase (KeyObject e) (m_Names s), m_NextToken := token + 1,
                  m_PendingOpens := tset (KeyObject e) token (m_PendingOpens s)\<rparr>)))
      else (0, s))"

definition on_open :: "Env \<Rightarrow> RegistryEvent \<Rightarrow> u32 \<Rightarrow> int \<Rightarrow> u64 \<Rightarrow> RegistryIoTable \<Rightarrow> RegistryIoTable" where
  "on_open env e pid time tick s =
     (let s = new_object env e s
      in case OpenName env s e of
           Some name \<Rightarrow> Count env e name pid time tick True s
         | None \<Rightarrow>
             if GaveUp s (BaseObject e)
             then Count env e (UnnamedBase s (BaseObject e) (Name e)) pid time tick True s
             else (let (token, s) = give_token e s
                   in Defer env (deferred e pid time tick (BaseObject e) token) s))"

definition on_operation :: "Env \<Rightarrow> RegistryEvent \<Rightarrow> u32 \<Rightarrow> int \<Rightarrow> u64 \<Rightarrow> RegistryIoTable \<Rightarrow> RegistryIoTable" where
  "on_operation env e pid time tick s =
     (case tfind (m_Names s) (KeyObject e) of
        Some n \<Rightarrow>
          Count env e (Text n) pid time tick True
            (s\<lparr>m_Names := tset (KeyObject e) (n\<lparr>NameTick := tick\<rparr>) (m_Names s)\<rparr>)
      | None \<Rightarrow>
          (case tfind (m_PendingOpens s) (KeyObject e) of
             Some token \<Rightarrow> Defer env (deferred e pid time tick token 0) s
           | None \<Rightarrow>
               if GaveUp s (KeyObject e) then Count env e [] pid time tick True s
               else Defer env (deferred e pid time tick (KeyObject e) 0) s))"

definition OnEvent :: "Env \<Rightarrow> RegistryEvent \<Rightarrow> u32 \<Rightarrow> int \<Rightarrow> u64 \<Rightarrow> RegistryIoTable \<Rightarrow> RegistryIoTable" where
  "OnEvent env e pid time tick s =
     (if ignored e then s
      else if is_open (Operation e) then on_open env e pid time tick s
      else on_operation env e pid time tick s)"

section \<open>The resolver's side\<close>

definition TakeUnnamed :: "RegistryIoTable \<Rightarrow> u64 list \<times> RegistryIoTable" where
  "TakeUnnamed s = (m_Unnamed s, s\<lparr>m_Unnamed := []\<rparr>)"

definition SetName :: "Env \<Rightarrow> u64 \<Rightarrow> wstr \<Rightarrow> u64 \<Rightarrow> RegistryIoTable \<Rightarrow> RegistryIoTable" where
  "SetName env object name tick s =
     s\<lparr>m_Names := tset object \<lparr>Text = RegistryName (user_sid env) name, NameTick = tick\<rparr> (m_Names s)\<rparr>"

definition NameFailed :: "u64 \<Rightarrow> RegistryUnnamed \<Rightarrow> RegistryIoTable \<Rightarrow> RegistryIoTable" where
  "NameFailed object why s =
     (let n = (case tfind (m_Attempts s) object of None \<Rightarrow> 0 | Some a \<Rightarrow> a_Count a)
      in s\<lparr>m_Attempts := tset object \<lparr>a_Count = n + 1, a_Why = why\<rparr> (m_Attempts s)\<rparr>)"

definition no_longer_waits :: "u64 \<Rightarrow> RegistryIoTable \<Rightarrow> RegistryIoTable" where
  "no_longer_waits x s =
     (case tfind (m_Waiting s) x of
        None \<Rightarrow> s
      | Some n \<Rightarrow>
          if n - 1 = 0 then s\<lparr>m_Waiting := terase x (m_Waiting s)\<rparr>
          else s\<lparr>m_Waiting := tset x (n - 1) (m_Waiting s)\<rparr>)"

definition is_ready :: "RegistryIoTable \<Rightarrow> Deferred \<Rightarrow> bool" where
  "is_ready s d \<longleftrightarrow> tfind (m_Names s) (d_Waiting d) \<noteq> None \<or> GaveUp s (d_Waiting d)"

text \<open>A waiting operation that is ready, counted.\<close>

definition count_ready :: "Env \<Rightarrow> Deferred \<Rightarrow> RegistryIoTable \<Rightarrow> RegistryIoTable" where
  "count_ready env d s =
     (let e = d_Event d
      in if is_open (Operation e)
         then
           (let name = (case OpenName env s e of
                          Some name \<Rightarrow> name | None \<Rightarrow> UnnamedBase s (BaseObject e) (Name e));
                nameObject = (tfind (m_PendingOpens s) (KeyObject e) = Some (d_Token d))
            in NameToken d name (d_Tick d) (Count env e name (d_Pid d) (d_Time d) (d_Tick d) nameObject s))
         else
           (case tfind (m_Names s) (d_Waiting d) of
              Some n \<Rightarrow>
                Count env e (Text n) (d_Pid d) (d_Time d) (d_Tick d) True
                  (s\<lparr>m_Names := tset (d_Waiting d) (n\<lparr>NameTick := max (NameTick n) (d_Tick d)\<rparr>) (m_Names s)\<rparr>)
            | None \<Rightarrow> Count env e [] (d_Pid d) (d_Time d) (d_Tick d) True s))"

definition apply_one :: "Env \<Rightarrow> Deferred \<Rightarrow> RegistryIoTable \<Rightarrow> RegistryIoTable" where
  "apply_one env d s =
     (if is_ready s d then count_ready env d (no_longer_waits (d_Waiting d) s)
      else s\<lparr>m_Deferred := m_Deferred s @ [d]\<rparr>)"

definition ApplyDeferred :: "Env \<Rightarrow> RegistryIoTable \<Rightarrow> RegistryIoTable" where
  "ApplyDeferred env s =
     (let s = fold (apply_one env) (m_Deferred s) (s\<lparr>m_Deferred := []\<rparr>)
      in s\<lparr>m_Unnamed := fold (\<lambda>(x, n) xs. if IsToken x then xs else insert_unnamed x xs) (m_Waiting s) (m_Unnamed s)\<rparr>)"

section \<open>Reading and forgetting\<close>

definition GetKeys :: "RegistryIoTable \<Rightarrow> RegistryIoCounters list" where
  "GetKeys s = map (Counters \<circ> snd) (m_Rows s)"

definition GetDeferredCount :: "RegistryIoTable \<Rightarrow> nat" where
  "GetDeferredCount s = length (m_Deferred s)"

definition RemoveProcess :: "u32 \<Rightarrow> RegistryIoTable \<Rightarrow> RegistryIoTable" where
  "RemoveProcess pid s = s\<lparr>m_Rows := terase_if (\<lambda>r. fst (fst r) = pid) (m_Rows s)\<rparr>"

definition Prune :: "u64 \<Rightarrow> RegistryIoTable \<Rightarrow> RegistryIoTable" where
  "Prune tick s =
     s\<lparr>m_Rows := terase_if (\<lambda>r. tick - LastTick (snd r) > KeyIdle) (m_Rows s),
       m_Names := terase_if (\<lambda>n. tick - NameTick (snd n) > NameIdle) (m_Names s),
       m_Attempts := terase_if (\<lambda>a. tfind (m_Waiting s) (fst a) = None) (m_Attempts s)\<rparr>"

definition Clear :: "RegistryIoTable \<Rightarrow> RegistryIoTable" where
  "Clear s = s\<lparr>m_Rows := [], m_Names := [], m_Deferred := [], m_Waiting := [], m_Unnamed := [], m_Attempts := [],
     m_PendingOpens := []\<rparr>"

section \<open>What waits, and how many\<close>

definition waiting_of :: "Deferred list \<Rightarrow> u64 \<Rightarrow> nat" where
  "waiting_of ds x = length (filter (\<lambda>d. d_Waiting d = x) ds)"

text \<open>\<open>m_Waiting\<close> has what waits in \<open>ds\<close>, exactly; a count may be 0 only for the objects in \<open>X\<close> (inside a loop).\<close>

fun entry_ok :: "bool \<Rightarrow> int option \<Rightarrow> nat \<Rightarrow> bool" where
  "entry_ok zero None n \<longleftrightarrow> n = 0"
| "entry_ok zero (Some c) n \<longleftrightarrow> c = int n \<and> (n > 0 \<or> zero)"

definition counts_ok :: "u64 set \<Rightarrow> (u64, int) table \<Rightarrow> Deferred list \<Rightarrow> bool" where
  "counts_ok X m ds \<longleftrightarrow> (\<forall>x. entry_ok (x \<in> X) (tfind m x) (waiting_of ds x))"

lemma entry_ok_mono: "entry_ok False c n \<Longrightarrow> entry_ok z c n"
  by (cases c) auto

text \<open>What an event adds to its row: one operation, and a write more for a key that was created.\<close>

definition weight :: "RegistryEvent \<Rightarrow> u64" where
  "weight e = (if Operation e = CreateKey \<and> Disposition e = RegCreatedNewKey then 2 else 1)"

definition row_total :: "RegistryIoTable \<Rightarrow> u64" where
  "row_total s = htab.total (\<lambda>e. Operations (Counters (snd e))) (m_Rows s)"

definition waiting_total :: "Deferred list \<Rightarrow> u64" where
  "waiting_total ds = sum_list (map (weight \<circ> d_Event) ds)"

text \<open>The state inside a loop over the deferred operations, \<open>rest\<close> of them still to do; \<open>amount\<close> is all there is to count.\<close>

definition loop_ok :: "u64 set \<Rightarrow> u64 \<Rightarrow> Deferred list \<Rightarrow> RegistryIoTable \<Rightarrow> bool" where
  "loop_ok X amount rest s \<longleftrightarrow>
     table_ok (m_Waiting s) \<and> table_ok (m_Rows s) \<and> counts_ok X (m_Waiting s) (m_Deferred s @ rest) \<and>
     length (m_Deferred s @ rest) \<le> MaxDeferred \<and> row_total s + waiting_total (m_Deferred s @ rest) = amount"

definition table_amount :: "RegistryIoTable \<Rightarrow> u64" where
  "table_amount s = row_total s + waiting_total (m_Deferred s)"

definition table_inv :: "RegistryIoTable \<Rightarrow> bool" where
  "table_inv s \<longleftrightarrow> loop_ok {} (table_amount s) [] s"

lemma loop_end: "loop_ok {} amount [] s \<longleftrightarrow> table_inv s \<and> table_amount s = amount"
  by (auto simp: table_inv_def loop_ok_def table_amount_def)

lemma loop_start: "table_inv s \<Longrightarrow> loop_ok X (table_amount s) (m_Deferred s) (s\<lparr>m_Deferred := []\<rparr>)"
  by (auto simp: table_inv_def loop_ok_def counts_ok_def row_total_def table_amount_def intro: entry_ok_mono)

lemma waiting_of_simps [simp]:
  "waiting_of [] x = 0" "waiting_of (a @ b) x = waiting_of a x + waiting_of b x"
  "waiting_of (d # ds) x = (if d_Waiting d = x then 1 else 0) + waiting_of ds x"
  by (auto simp: waiting_of_def)

lemma waiting_total_simps [simp]:
  "waiting_total [] = 0" "waiting_total (a @ b) = waiting_total a + waiting_total b"
  "waiting_total (d # ds) = weight (d_Event d) + waiting_total ds"
  by (auto simp: waiting_total_def)

lemma fold_loop_ok:
  assumes "\<And>d ds s. loop_ok X amount (d # ds) s \<Longrightarrow> loop_ok X amount ds (f d s)"
  shows "loop_ok X amount ds s \<Longrightarrow> loop_ok X amount [] (fold f ds s)"
  by (induction ds arbitrary: s) (auto simp: assms)

section \<open>Counting\<close>

lemma count_event_operations: "Operations (count_event s e name pid time c) = Operations c + weight e"
  by (cases "Operation e")
     (auto simp: count_event_def count_kind_def Operations_def weight_def Let_def)

lemma no_counters_operations: "Operations no_counters = 0"
  by (simp add: Operations_def no_counters_def)

lemma Count_rows [simp]:
  "m_Deferred (Count env e name pid time tick no s) = m_Deferred s"
  "m_Waiting (Count env e name pid time tick no s) = m_Waiting s"
  "m_Attempts (Count env e name pid time tick no s) = m_Attempts s"
  "m_PendingOpens (Count env e name pid time tick no s) = m_PendingOpens s"
  "m_NextToken (Count env e name pid time tick no s) = m_NextToken s"
  "m_Unnamed (Count env e name pid time tick no s) = m_Unnamed s"
  "table_ok (m_Rows s) \<Longrightarrow> table_ok (m_Rows (Count env e name pid time tick no s))"
  by (simp_all add: Count_def Let_def)

lemma Count_total:
  assumes "table_ok (m_Rows s)"
  shows "row_total (Count env e name pid time tick no s) = row_total s + weight e"
proof -
  let ?f = "\<lambda>e :: RowId \<times> Row. Operations (Counters (snd e))" and ?i = "row_id env e name pid"
  define c where "c = (case tfind (m_Rows s) ?i of None \<Rightarrow> no_counters | Some r \<Rightarrow> Counters r)"
  define r where "r = \<lparr>Counters = count_event s e name pid time c, LastTick = tick\<rparr>"
  have total: "row_total (Count env e name pid time tick no s) = htab.total ?f (tset ?i r (m_Rows s))"
    by (simp add: row_total_def Count_def Let_def r_def c_def)
  show ?thesis
    unfolding total row_total_def [of s]
    by (rule htab.total_bump [OF assms, where d = "\<lparr>Counters = no_counters, LastTick = 0\<rparr>"])
       (auto simp: r_def c_def count_event_operations no_counters_operations split: option.splits)
qed

lemma NameToken_rows [simp]:
  "m_Deferred (NameToken d name tick s) = m_Deferred s" "m_Waiting (NameToken d name tick s) = m_Waiting s"
  "m_Rows (NameToken d name tick s) = m_Rows s" "row_total (NameToken d name tick s) = row_total s"
  by (simp_all add: NameToken_def Let_def row_total_def)

text \<open>Counting one of the operations still to do, or counting an event that is not among them.\<close>

lemma loop_ok_names [simp]:
  "loop_ok X amount rest (s\<lparr>m_Names := n\<rparr>) = loop_ok X amount rest s"
  "loop_ok X amount rest (s\<lparr>m_Attempts := a\<rparr>) = loop_ok X amount rest s"
  "loop_ok X amount rest (s\<lparr>m_PendingOpens := p\<rparr>) = loop_ok X amount rest s"
  "loop_ok X amount rest (s\<lparr>m_NextToken := t\<rparr>) = loop_ok X amount rest s"
  "loop_ok X amount rest (s\<lparr>m_Unnamed := u\<rparr>) = loop_ok X amount rest s"
  by (simp_all add: loop_ok_def row_total_def)

lemma loop_ok_NameToken [simp]: "loop_ok X amount rest (NameToken d name tick s) = loop_ok X amount rest s"
  by (simp add: NameToken_def Let_def)

lemma Count_loop:
  "loop_ok X amount rest s \<Longrightarrow> loop_ok X (amount + weight e) rest (Count env e name pid time tick no s)"
  by (auto simp: loop_ok_def Count_total)

text \<open>An operation is taken off the list once it does not wait any more.\<close>

definition uncounted :: "u64 set \<Rightarrow> u64 \<Rightarrow> Deferred \<Rightarrow> Deferred list \<Rightarrow> RegistryIoTable \<Rightarrow> bool" where
  "uncounted X amount d rest s \<longleftrightarrow> loop_ok X (amount - weight (d_Event d)) rest s"

lemma Count_uncounted:
  "uncounted X amount d rest s \<Longrightarrow>
   loop_ok X amount rest (Count env (d_Event d) name pid time tick no s)"
  using Count_loop [of X "amount - weight (d_Event d)" rest s "d_Event d"] by (simp add: uncounted_def)

lemma keep_loop: "loop_ok X amount (d # rest) s \<Longrightarrow> loop_ok X amount rest (s\<lparr>m_Deferred := m_Deferred s @ [d]\<rparr>)"
  by (simp add: loop_ok_def row_total_def)

lemma counted_present:
  assumes "loop_ok X amount (d # rest) s"
  shows "tfind (m_Waiting s) (d_Waiting d) = Some (int (waiting_of (m_Deferred s @ d # rest) (d_Waiting d)))"
proof -
  have "entry_ok (d_Waiting d \<in> X) (tfind (m_Waiting s) (d_Waiting d)) (waiting_of (m_Deferred s @ d # rest) (d_Waiting d))"
    using assms unfolding loop_ok_def counts_ok_def by blast
  then show ?thesis by (cases "tfind (m_Waiting s) (d_Waiting d)") auto
qed

lemma less_waiting:
  assumes loop: "loop_ok X amount (d # rest) s" and ok: "table_ok m'"
    and m: "\<And>x. x \<noteq> d_Waiting d \<Longrightarrow> tfind m' x = tfind (m_Waiting s) x"
    and at: "entry_ok (d_Waiting d \<in> X) (tfind m' (d_Waiting d)) (waiting_of (m_Deferred s @ rest) (d_Waiting d))"
  shows "uncounted X amount d rest (s\<lparr>m_Waiting := m'\<rparr>)"
proof -
  have "entry_ok (x \<in> X) (tfind m' x) (waiting_of (m_Deferred s @ rest) x)" for x
  proof (cases "x = d_Waiting d")
    case False
    have "entry_ok (x \<in> X) (tfind (m_Waiting s) x) (waiting_of (m_Deferred s @ d # rest) x)"
      using loop unfolding loop_ok_def counts_ok_def by blast
    then show ?thesis using m [OF False] False by simp
  qed (use at in simp)
  then have "counts_ok X m' (m_Deferred s @ rest)" by (simp add: counts_ok_def)
  then show ?thesis
    using loop ok by (auto simp: uncounted_def loop_ok_def row_total_def algebra_simps)
qed

section \<open>The loops keep the counts\<close>

lemma drop_if_zero_ok: "loop_ok {x} amount [] s \<Longrightarrow> loop_ok {} amount [] (drop_if_zero x s)"
proof -
  assume loop: "loop_ok {x} amount [] s"
  then have e: "entry_ok (y = x) (tfind (m_Waiting s) y) (waiting_of (m_Deferred s) y)" for y
    by (simp add: loop_ok_def counts_ok_def)
  have "entry_ok False (tfind (m_Waiting (drop_if_zero x s)) y) (waiting_of (m_Deferred s) y)" for y
    using e [of y] e [of x]
    by (cases "tfind (m_Waiting s) y"; cases "tfind (m_Waiting s) x")
       (auto simp: drop_if_zero_def waiting_count_def)
  then have "counts_ok {} (m_Waiting (drop_if_zero x s)) (m_Deferred s)" by (simp add: counts_ok_def)
  moreover have "m_Deferred (drop_if_zero x s) = m_Deferred s" "m_Rows (drop_if_zero x s) = m_Rows s"
      "table_ok (m_Waiting (drop_if_zero x s))"
    using loop by (simp_all add: drop_if_zero_def loop_ok_def)
  ultimately show ?thesis using loop by (simp add: loop_ok_def row_total_def)
qed

lemma flush_one_ok:
  assumes "loop_ok {object} amount (d # ds) s"
  shows "loop_ok {object} amount ds (flush_one env object stamp d s)"
proof (cases "d_Waiting d \<noteq> object \<or> Stamp (d_Event d) \<ge> stamp")
  case True
  with keep_loop [OF assms] show ?thesis by (auto simp: flush_one_def)
next
  case False
  let ?m = "tset object (waiting_count s object - 1) (m_Waiting s)"
  let ?name = "if is_open (Operation (d_Event d)) then UnnamedBase s object (Name (d_Event d)) else []"
  have "uncounted {object} amount d ds (s\<lparr>m_Waiting := ?m\<rparr>)"
    using counted_present [OF assms] False
    by (intro less_waiting [OF assms]) (use assms in \<open>auto simp: loop_ok_def waiting_count_def\<close>)
  then have "loop_ok {object} amount ds
      (Count env (d_Event d) ?name (d_Pid d) (d_Time d) (d_Tick d) True (s\<lparr>m_Waiting := ?m\<rparr>))"
    by (rule Count_uncounted)
  moreover have "Count env e n p t k b (s\<lparr>m_Waiting := m\<rparr>) = (Count env e n p t k b s)\<lparr>m_Waiting := m\<rparr>" for e n p t k b m
    by (simp add: Count_def Let_def count_event_def WhyUnnamed_def)
  ultimately show ?thesis
    using False by (auto simp: flush_one_def Let_def waiting_count_def)
qed

lemma FlushWaiting_ok:
  "table_inv s \<Longrightarrow> table_inv (FlushWaiting env object stamp s) \<and>
   table_amount (FlushWaiting env object stamp s) = table_amount s"
proof -
  assume inv: "table_inv s"
  let ?s = "s\<lparr>m_Attempts := tset object \<lparr>a_Count = MaxAttempts, a_Why = Closed\<rparr> (m_Attempts s)\<rparr>"
  have "loop_ok {object} (table_amount s) (m_Deferred ?s) (?s\<lparr>m_Deferred := []\<rparr>)"
    using loop_start [OF inv, of "{object}"] by (simp add: loop_ok_def row_total_def)
  then have "loop_ok {object} (table_amount s) [] (fold (flush_one env object stamp) (m_Deferred ?s) (?s\<lparr>m_Deferred := []\<rparr>))"
    by (rule fold_loop_ok [rotated]) (rule flush_one_ok)
  from drop_if_zero_ok [OF this] show ?thesis
    using inv by (simp add: loop_end FlushWaiting_def Let_def)
qed

lemma retarget_one_ok:
  assumes "loop_ok {object} amount (d # ds) s"
  shows "loop_ok {object} amount ds (retarget_one object stamp token d s)"
proof (cases "d_Waiting d = object \<and> Stamp (d_Event d) \<ge> stamp")
  case False
  with keep_loop [OF assms] show ?thesis by (auto simp: retarget_one_def)
next
  case True
  have e: "entry_ok (x = object) (tfind (m_Waiting s) x) (waiting_of (m_Deferred s @ d # ds) x)" for x
    using assms by (simp add: loop_ok_def counts_ok_def)
  let ?m1 = "tset token (waiting_count s token + 1) (m_Waiting s)"
  let ?n = "case tfind ?m1 object of None \<Rightarrow> 0 | Some n \<Rightarrow> n"
  let ?m = "tset object (?n - 1) ?m1" and ?d = "d\<lparr>d_Waiting := token\<rparr>"
  have old: "tfind (m_Waiting s) object = Some (int (waiting_of (m_Deferred s @ d # ds) object))"
    using counted_present [OF assms] True by simp
  have tok: "entry_ok (token = object) (tfind (m_Waiting s) token) (waiting_of (m_Deferred s @ d # ds) token)"
    by (rule e)
  then have count: "waiting_count s token = int (waiting_of (m_Deferred s @ d # ds) token)"
    by (cases "tfind (m_Waiting s) token") (auto simp: waiting_count_def)
  have "entry_ok (x \<in> {object}) (tfind ?m x) (waiting_of ((m_Deferred s @ [?d]) @ ds) x)" for x
  proof -
    have x: "entry_ok (x = object) (tfind (m_Waiting s) x) (waiting_of (m_Deferred s @ d # ds) x)"
      by (rule e)
    consider "x = object" | "x \<noteq> object" "x = token" | "x \<noteq> object" "x \<noteq> token" by blast
    then show ?thesis
      using x old count True by cases auto
  qed
  then have "counts_ok {object} ?m ((m_Deferred s @ [?d]) @ ds)" by (simp only: counts_ok_def) blast
  then show ?thesis
    using True assms by (simp add: retarget_one_def Let_def loop_ok_def row_total_def)
qed

lemma Retarget_ok:
  "table_inv s \<Longrightarrow> table_inv (Retarget object stamp token s) \<and>
   table_amount (Retarget object stamp token s) = table_amount s"
proof -
  assume inv: "table_inv s"
  have "loop_ok {object} (table_amount s) [] (fold (retarget_one object stamp token) (m_Deferred s) (s\<lparr>m_Deferred := []\<rparr>))"
    by (rule fold_loop_ok [rotated], rule loop_start [OF inv]) (rule retarget_one_ok)
  from drop_if_zero_ok [OF this] show ?thesis
    using inv by (simp add: loop_end Retarget_def)
qed

lemma Count_ok:
  "table_inv s \<Longrightarrow> table_inv (Count env e name pid time tick no s) \<and>
   table_amount (Count env e name pid time tick no s) = table_amount s + weight e"
  using Count_loop [of "{}" "table_amount s" "[]" s e] by (simp add: loop_end)

lemma inv_fields [simp]:
  "table_inv (s\<lparr>m_Names := n\<rparr>) = table_inv s" "table_amount (s\<lparr>m_Names := n\<rparr>) = table_amount s"
  "table_inv (s\<lparr>m_Attempts := a\<rparr>) = table_inv s" "table_amount (s\<lparr>m_Attempts := a\<rparr>) = table_amount s"
  "table_inv (s\<lparr>m_PendingOpens := p\<rparr>) = table_inv s" "table_amount (s\<lparr>m_PendingOpens := p\<rparr>) = table_amount s"
  "table_inv (s\<lparr>m_NextToken := t\<rparr>) = table_inv s" "table_amount (s\<lparr>m_NextToken := t\<rparr>) = table_amount s"
  "table_inv (s\<lparr>m_Unnamed := u\<rparr>) = table_inv s" "table_amount (s\<lparr>m_Unnamed := u\<rparr>) = table_amount s"
  by (simp_all add: table_inv_def table_amount_def row_total_def loop_ok_def)

lemma inv_NameToken [simp]:
  "table_inv (NameToken d name tick s) = table_inv s" "table_amount (NameToken d name tick s) = table_amount s"
  by (simp_all add: NameToken_def Let_def)

lemma count_at_once_ok:
  "table_inv s \<Longrightarrow> table_inv (count_at_once env d s) \<and>
   table_amount (count_at_once env d s) = table_amount s + weight (d_Event d)"
  by (auto simp: count_at_once_def Let_def Count_ok split: option.splits)

lemma Defer_ok:
  assumes inv: "table_inv s"
  shows "table_inv (Defer env d s) \<and> table_amount (Defer env d s) = table_amount s + weight (d_Event d)"
proof (cases "length (m_Deferred s) \<ge> MaxDeferred")
  case True
  then show ?thesis using count_at_once_ok [OF inv] by (simp add: Defer_def too_many_def)
next
  case False
  let ?x = "d_Waiting d"
  let ?s = "s\<lparr>m_Waiting := tset ?x (waiting_count s ?x + 1) (m_Waiting s), m_Deferred := m_Deferred s @ [d]\<rparr>"
  note e = inv [unfolded table_inv_def loop_ok_def counts_ok_def]
  have "entry_ok False (tfind (m_Waiting ?s) y) (waiting_of (m_Deferred ?s) y)" for y
  proof -
    have y: "entry_ok False (tfind (m_Waiting s) y) (waiting_of (m_Deferred s) y)" using e by auto
    show ?thesis
      using y by (cases "tfind (m_Waiting s) y") (auto simp: waiting_count_def)
  qed
  then have ok: "table_inv ?s \<and> table_amount ?s = table_amount s + weight (d_Event d)"
    using e False by (simp add: table_inv_def loop_ok_def counts_ok_def row_total_def table_amount_def ac_simps)
  have "Defer env d s = (if waiting_count s ?x = 0 \<and> \<not> IsToken ?x
      then ?s\<lparr>m_Unnamed := insert_unnamed ?x (m_Unnamed s)\<rparr> else ?s)"
    using False by (simp add: Defer_def too_many_def Let_def)
  moreover have "table_inv (?s\<lparr>m_Unnamed := u\<rparr>) \<and> table_amount (?s\<lparr>m_Unnamed := u\<rparr>) = table_amount s + weight (d_Event d)" for u
    unfolding inv_fields by (rule ok)
  ultimately show ?thesis using ok by presburger
qed

lemma no_longer_waits_ok:
  assumes "loop_ok {} amount (d # ds) s"
  shows "uncounted {} amount d ds (no_longer_waits (d_Waiting d) s)"
proof -
  let ?x = "d_Waiting d"
  have old: "tfind (m_Waiting s) ?x = Some (int (waiting_of (m_Deferred s @ d # ds) ?x))"
    by (rule counted_present [OF assms])
  define m where "m = (if waiting_of (m_Deferred s @ ds) ?x = 0 then terase ?x (m_Waiting s)
    else tset ?x (int (waiting_of (m_Deferred s @ ds) ?x)) (m_Waiting s))"
  have "no_longer_waits ?x s = s\<lparr>m_Waiting := m\<rparr>"
    using old by (auto simp: no_longer_waits_def m_def)
  moreover have "uncounted {} amount d ds (s\<lparr>m_Waiting := m\<rparr>)"
    by (rule less_waiting [OF assms]) (use assms in \<open>auto simp: m_def loop_ok_def\<close>)
  ultimately show ?thesis by simp
qed

lemma count_ready_ok: "uncounted {} amount d ds s \<Longrightarrow> loop_ok {} amount ds (count_ready env d s)"
proof -
  assume u: "uncounted {} amount d ds s"
  then have "uncounted {} amount d ds (s\<lparr>m_Names := n\<rparr>)" for n by (simp add: uncounted_def)
  with u show ?thesis
    by (auto simp: count_ready_def Let_def intro: Count_uncounted split: option.splits)
qed

lemma apply_one_ok: "loop_ok {} amount (d # ds) s \<Longrightarrow> loop_ok {} amount ds (apply_one env d s)"
  by (simp add: apply_one_def keep_loop count_ready_ok no_longer_waits_ok)

lemma ApplyDeferred_ok:
  "table_inv s \<Longrightarrow> table_inv (ApplyDeferred env s) \<and> table_amount (ApplyDeferred env s) = table_amount s"
proof -
  assume inv: "table_inv s"
  have "loop_ok {} (table_amount s) [] (fold (apply_one env) (m_Deferred s) (s\<lparr>m_Deferred := []\<rparr>))"
    by (rule fold_loop_ok [rotated], rule loop_start [OF inv]) (rule apply_one_ok)
  then show ?thesis by (simp add: loop_end ApplyDeferred_def Let_def)
qed

section \<open>Events\<close>

lemma new_object_ok: "table_inv s \<Longrightarrow> table_inv (new_object env e s) \<and> table_amount (new_object env e s) = table_amount s"
  by (simp add: new_object_def Let_def FlushWaiting_ok)

lemma give_token_ok:
  "table_inv s \<Longrightarrow> table_inv (snd (give_token e s)) \<and> table_amount (snd (give_token e s)) = table_amount s"
  by (simp add: give_token_def Let_def Retarget_ok)

definition event_weight :: "RegistryEvent \<Rightarrow> u64" where
  "event_weight e = (if ignored e then 0 else weight e)"

lemma deferred_event [simp]: "d_Event (deferred e pid time tick w t) = e"
  by (simp add: deferred_def)

lemma on_open_ok:
  "table_inv s \<Longrightarrow> table_inv (on_open env e pid time tick s) \<and>
   table_amount (on_open env e pid time tick s) = table_amount s + weight e"
  using new_object_ok [of s env e] give_token_ok [of "new_object env e s" e]
  by (cases "give_token e (new_object env e s)")
     (auto simp: on_open_def Let_def Count_ok Defer_ok split: option.splits)

lemma on_operation_ok:
  "table_inv s \<Longrightarrow> table_inv (on_operation env e pid time tick s) \<and>
   table_amount (on_operation env e pid time tick s) = table_amount s + weight e"
  by (auto simp: on_operation_def Count_ok Defer_ok split: option.splits)

lemma OnEvent_ok:
  "table_inv s \<Longrightarrow> table_inv (OnEvent env e pid time tick s) \<and>
   table_amount (OnEvent env e pid time tick s) = table_amount s + event_weight e"
  by (simp add: OnEvent_def event_weight_def on_open_ok on_operation_ok)

section \<open>Histories\<close>

text \<open>What the session's thread and the resolver's do to the table; the calls that forget rows are apart.\<close>

datatype Work =
    Event RegistryEvent u32 int u64
  | Take
  | Named u64 wstr u64
  | Failed_to_name u64 RegistryUnnamed
  | Apply

fun work :: "Env \<Rightarrow> Work \<Rightarrow> RegistryIoTable \<Rightarrow> RegistryIoTable" where
  "work env (Event e pid time tick) s = OnEvent env e pid time tick s"
| "work env Take s = snd (TakeUnnamed s)"
| "work env (Named object name tick) s = SetName env object name tick s"
| "work env (Failed_to_name object why) s = NameFailed object why s"
| "work env Apply s = ApplyDeferred env s"

fun work_weight :: "Work \<Rightarrow> u64" where
  "work_weight (Event e pid time tick) = event_weight e"
| "work_weight _ = 0"

interpretation registry: ledger "work env" table_amount work_weight table_inv for env
proof unfold_locales
  show "table_inv s \<Longrightarrow> table_inv (work env w s)" for s w
    by (cases w) (simp_all add: OnEvent_ok ApplyDeferred_ok TakeUnnamed_def SetName_def NameFailed_def Let_def)
  show "table_inv s \<Longrightarrow> table_amount (work env w s) = table_amount s + work_weight w" for s w
    by (cases w) (simp_all add: OnEvent_ok ApplyDeferred_ok TakeUnnamed_def SetName_def NameFailed_def Let_def)
qed

datatype Call = Do Work | Exited u32 | Forget u64 | Clear_all

fun call :: "Env \<Rightarrow> Call \<Rightarrow> RegistryIoTable \<Rightarrow> RegistryIoTable" where
  "call env (Do w) s = work env w s"
| "call env (Exited pid) s = RemoveProcess pid s"
| "call env (Forget tick) s = Prune tick s"
| "call env Clear_all s = Clear s"

lemma empty_inv: "table_inv empty_table" "table_amount empty_table = 0"
  by (simp_all add: table_inv_def loop_ok_def counts_ok_def empty_table_def row_total_def table_amount_def
      MaxDeferred_def htab.total_def)

lemma call_inv: "table_inv s \<Longrightarrow> table_inv (call env c s)"
proof (cases c)
  case (Do w)
  then show "table_inv s \<Longrightarrow> ?thesis" using registry.step_sound by simp
qed (simp_all add: RemoveProcess_def Prune_def Clear_def table_inv_def loop_ok_def counts_ok_def row_total_def
      table_amount_def MaxDeferred_def)

lemma calls_inv: "table_inv s \<Longrightarrow> table_inv (fold (call env) cs s)"
  by (induction cs arbitrary: s) (auto simp: call_inv)

text \<open>C2: whatever the calls, \<open>m_Waiting\<close> has exactly the key objects and tokens that deferred operations wait on,
  each with their number (never a 0), and no more than \<open>MaxDeferred\<close> operations wait.\<close>

theorem waiting_counts_exact:
  fixes env cs
  defines "s \<equiv> fold (call env) cs empty_table"
  shows "tfind (m_Waiting s) x =
      (let n = length (filter (\<lambda>d. d_Waiting d = x) (m_Deferred s)) in if n = 0 then None else Some (int n)) \<and>
    GetDeferredCount s \<le> MaxDeferred"
proof -
  have inv: "table_inv s" unfolding s_def by (rule calls_inv) (rule empty_inv)
  then have "entry_ok False (tfind (m_Waiting s) x) (waiting_of (m_Deferred s) x)"
    by (simp add: table_inv_def loop_ok_def counts_ok_def)
  then show ?thesis
    using inv by (cases "tfind (m_Waiting s) x")
      (auto simp: waiting_of_def Let_def table_inv_def loop_ok_def GetDeferredCount_def)
qed

text \<open>C1: no operation is lost or counted twice: after any interleaving of events and resolver passes, the
  operations counted in the rows and those still deferred add up to the events' (a key that was created counts
  its open and a write), as 64-bit counters.\<close>

theorem events_all_counted:
  "table_amount (fold (work env) ws empty_table) = sum_list (map work_weight ws)"
  using registry.run_amount [of empty_table env ws] by (simp add: empty_inv)

section \<open>Named keys\<close>

lemma RegistryName_Nil: "RegistryName sid name = [] \<Longrightarrow> name = []"
proof (cases "first_some
        [replace name (current_user sid @ wide ''_Classes'') (wide_path ''HKCU/Software/Classes''),
         replace name (current_user sid) (wide ''HKCU''),
         replace name (wide_path ''/REGISTRY/MACHINE'') (wide ''HKLM''),
         replace name (wide_path ''/REGISTRY/USER'') (wide ''HKU'')]")
  case (Some x)
  from first_some_Some [OF this] have "x \<noteq> []"
    by (auto simp: replace_def wide_def wide_path_def split: if_splits)
  then show "RegistryName sid name = [] \<Longrightarrow> ?thesis" using Some by (simp add: RegistryName_def)
qed (simp add: RegistryName_def)

text \<open>An open that succeeds by an absolute name.\<close>

definition absolute_open :: "RegistryEvent \<Rightarrow> bool" where
  "absolute_open e \<longleftrightarrow>
     is_open (Operation e) \<and> Name e \<noteq> [] \<and> Name e ! 0 = 0x5C \<and> KeyObject e \<noteq> 0 \<and>
     \<not> IsFailure (Status e) \<and> \<not> IsRetried (Status e)"

lemma absolute_open_names:
  assumes "absolute_open e"
  shows "tfind (m_Names (OnEvent env e pid time tick s)) (KeyObject e) =
    Some \<lparr>Text = RegistryName (user_sid env) (Name e), NameTick = tick\<rparr>"
  using assms RegistryName_Nil [of "user_sid env" "Name e"]
  by (auto simp: OnEvent_def ignored_def absolute_open_def is_open_def on_open_def OpenName_def Count_def Let_def)


definition software_open :: RegistryEvent where
  "software_open = no_event\<lparr>Operation := OpenKey, KeyObject := 0x10, Name := wide_path ''/REGISTRY/MACHINE/SOFTWARE''\<rparr>"

definition query_it :: RegistryEvent where
  "query_it = no_event\<lparr>Operation := QueryValue, KeyObject := 0x10, ValueName := wide ''Path''\<rparr>"

definition plain_env :: Env where
  "plain_env = \<lparr>upcase = (\<lambda>c. c), user_sid = None\<rparr>"


text \<open>
  A token nobody names. \<open>FlushWaiting\<close> counts an open that waits on the object but, unlike \<open>Defer\<close> and
  \<open>ApplyDeferred\<close>, does not name its token: what waits on the token stays deferred, the resolver is never
  given it, and another pass changes nothing.
\<close>

definition relative_open :: RegistryEvent where
  "relative_open = no_event\<lparr>Operation := OpenKey, KeyObject := 0x10, BaseObject := 0x20, Stamp := 1, Name := wide ''Sub''\<rparr>"

definition base_reopened :: RegistryEvent where
  "base_reopened = no_event\<lparr>Operation := OpenKey, KeyObject := 0x20, Stamp := 3, Name := wide_path ''/REGISTRY/MACHINE''\<rparr>"

lemma flushed_open_leaves_token:
  "let s = fold (work plain_env)
        [Event relative_open 4 1 1, Event (query_it\<lparr>Stamp := 2\<rparr>) 4 2 2, Event base_reopened 8 3 3, Apply, Take, Apply]
        empty_table
   in map (\<lambda>d. (Operation (d_Event d), d_Waiting d)) (m_Deferred s) = [(QueryValue, TokenBase)] \<and>
      fst (TakeUnnamed s) = [] \<and> ApplyDeferred plain_env s = s"
  by code_simp

end
