(* ===== verification/Access_Mask.thy ===== *)
theory Access_Mask
  imports Win_Prelude
begin

text \<open>
  Access masks in words (\<open>WinSys/AccessMask.cpp\<close>): the tables of the types' rights, and \<open>Decode\<close>, which shows the
  rights a mask has, combinations first, and what has no name in hex. The masks of the SDK's constants
  (\<open>PROCESS_ALL_ACCESS\<close>, \<open>KEY_READ\<close>, \<dots>) are written out.
\<close>

unbundle bit_operations_syntax

section \<open>The tables\<close>

type_synonym Right = "u32 \<times> string"
type_synonym TypeRights = "string \<times> u32 \<times> Right list"

definition s_Types :: "TypeRights list" where
  "s_Types =
     [
      (''Process'', 0x1FFFFF,
        [(0x0001, ''TERMINATE''), (0x0002, ''CREATE_THREAD''), (0x0004, ''SET_SESSIONID''),
         (0x0008, ''VM_OPERATION''), (0x0010, ''VM_READ''), (0x0020, ''VM_WRITE''), (0x0040, ''DUP_HANDLE''),
         (0x0080, ''CREATE_PROCESS''), (0x0100, ''SET_QUOTA''), (0x0200, ''SET_INFORMATION''),
         (0x0400, ''QUERY_INFORMATION''), (0x0800, ''SUSPEND_RESUME''),
         (0x1000, ''QUERY_LIMITED_INFORMATION''), (0x2000, ''SET_LIMITED_INFORMATION'')]),
      (''Thread'', 0x1FFFFF,
        [(0x0001, ''TERMINATE''), (0x0002, ''SUSPEND_RESUME''), (0x0004, ''ALERT''),
         (0x0008, ''GET_CONTEXT''), (0x0010, ''SET_CONTEXT''), (0x0020, ''SET_INFORMATION''),
         (0x0040, ''QUERY_INFORMATION''), (0x0080, ''SET_THREAD_TOKEN''), (0x0100, ''IMPERSONATE''),
         (0x0200, ''DIRECT_IMPERSONATION''), (0x0400, ''SET_LIMITED_INFORMATION''),
         (0x0800, ''QUERY_LIMITED_INFORMATION''), (0x1000, ''RESUME'')]),
      (''File'', 0x1F01FF,
        [(0x120089, ''GENERIC_READ''), (0x120116, ''GENERIC_WRITE''), (0x0001, ''READ_DATA''),
         (0x0002, ''WRITE_DATA''), (0x0004, ''APPEND_DATA''), (0x0008, ''READ_EA''), (0x0010, ''WRITE_EA''),
         (0x0020, ''EXECUTE''), (0x0040, ''DELETE_CHILD''), (0x0080, ''READ_ATTRIBUTES''),
         (0x0100, ''WRITE_ATTRIBUTES'')]),
      (''Key'', 0xF003F,
        [(0x20019, ''READ''), (0x20006, ''WRITE''), (0x0001, ''QUERY_VALUE''), (0x0002, ''SET_VALUE''),
         (0x0004, ''CREATE_SUB_KEY''), (0x0008, ''ENUMERATE_SUB_KEYS''), (0x0010, ''NOTIFY''),
         (0x0020, ''CREATE_LINK''), (0x0100, ''WOW64_64KEY''), (0x0200, ''WOW64_32KEY'')]),
      (''Event'', 0x1F0003,
        [(0x0001, ''QUERY_STATE''), (0x0002, ''MODIFY_STATE'')]),
      (''Mutant'', 0x1F0001,
        [(0x0001, ''QUERY_STATE'')]),
      (''Semaphore'', 0x1F0003,
        [(0x0001, ''QUERY_STATE''), (0x0002, ''MODIFY_STATE'')]),
      (''Timer'', 0x1F0003,
        [(0x0001, ''QUERY_STATE''), (0x0002, ''MODIFY_STATE'')]),
      (''IRTimer'', 0x1F0003,
        [(0x0001, ''QUERY_STATE''), (0x0002, ''MODIFY_STATE'')]),
      (''IoCompletion'', 0x1F0003,
        [(0x0001, ''QUERY_STATE''), (0x0002, ''MODIFY_STATE'')]),
      (''Section'', 0xF001F,
        [(0x0001, ''QUERY''), (0x0002, ''MAP_WRITE''), (0x0004, ''MAP_READ''), (0x0008, ''MAP_EXECUTE''),
         (0x0010, ''EXTEND_SIZE''), (0x0020, ''MAP_EXECUTE_EXPLICIT'')]),
      (''Token'', 0xF01FF,
        [(0x0001, ''ASSIGN_PRIMARY''), (0x0002, ''DUPLICATE''), (0x0004, ''IMPERSONATE''),
         (0x0008, ''QUERY''), (0x0010, ''QUERY_SOURCE''), (0x0020, ''ADJUST_PRIVILEGES''),
         (0x0040, ''ADJUST_GROUPS''), (0x0080, ''ADJUST_DEFAULT''), (0x0100, ''ADJUST_SESSIONID'')]),
      (''Directory'', 0xF000F,
        [(0x0001, ''QUERY''), (0x0002, ''TRAVERSE''), (0x0004, ''CREATE_OBJECT''),
         (0x0008, ''CREATE_SUBDIRECTORY'')]),
      (''SymbolicLink'', 0xF0001,
        [(0x0001, ''QUERY'')]),
      (''Service'', 0xF01FF,
        [(0x0001, ''QUERY_CONFIG''), (0x0002, ''CHANGE_CONFIG''), (0x0004, ''QUERY_STATUS''),
         (0x0008, ''ENUMERATE_DEPENDENTS''), (0x0010, ''START''), (0x0020, ''STOP''),
         (0x0040, ''PAUSE_CONTINUE''), (0x0080, ''INTERROGATE''), (0x0100, ''USER_DEFINED_CONTROL'')]),
      (''Job'', 0x1F003F,
        [(0x0001, ''ASSIGN_PROCESS''), (0x0002, ''SET_ATTRIBUTES''), (0x0004, ''QUERY''),
         (0x0008, ''TERMINATE''), (0x0010, ''SET_SECURITY_ATTRIBUTES''), (0x0020, ''IMPERSONATE'')]),
      (''WindowStation'', 0xF037F,
        [(0x0001, ''ENUMDESKTOPS''), (0x0002, ''READATTRIBUTES''), (0x0004, ''ACCESSCLIPBOARD''),
         (0x0008, ''CREATEDESKTOP''), (0x0010, ''WRITEATTRIBUTES''), (0x0020, ''ACCESSGLOBALATOMS''),
         (0x0040, ''EXITWINDOWS''), (0x0100, ''ENUMERATE''), (0x0200, ''READSCREEN'')]),
      (''Desktop'', 0xF01FF,
        [(0x0001, ''READOBJECTS''), (0x0002, ''CREATEWINDOW''), (0x0004, ''CREATEMENU''),
         (0x0008, ''HOOKCONTROL''), (0x0010, ''JOURNALRECORD''), (0x0020, ''JOURNALPLAYBACK''),
         (0x0040, ''ENUMERATE''), (0x0080, ''WRITEOBJECTS''), (0x0100, ''SWITCHDESKTOP'')]),
      (''ALPC Port'', 0x1F0001,
        [(0x0001, ''CONNECT'')]),
      (''TpWorkerFactory'', 0xF00FF,
        [(0x0001, ''RELEASE_WORKER''), (0x0002, ''WAIT''), (0x0004, ''SET_INFORMATION''),
         (0x0008, ''QUERY_INFORMATION''), (0x0010, ''READY_WORKER''), (0x0020, ''SHUTDOWN'')]),
      (''Session'', 0xF0003,
        [(0x0001, ''QUERY''), (0x0002, ''MODIFY'')])]"

definition s_Standard :: "Right list" where
  "s_Standard =
     [(0x10000, ''DELETE''), (0x20000, ''READ_CONTROL''), (0x40000, ''WRITE_DAC''),
      (0x80000, ''WRITE_OWNER''), (0x100000, ''SYNCHRONIZE''), (0x1000000, ''ACCESS_SYSTEM_SECURITY''),
      (0x2000000, ''MAXIMUM_ALLOWED''), (0x10000000, ''GENERIC_ALL''), (0x20000000, ''GENERIC_EXECUTE''),
      (0x40000000, ''GENERIC_WRITE''), (0x80000000, ''GENERIC_READ'')]"

section \<open>Decode\<close>

text \<open>\<open>%X\<close>.\<close>

definition hex_digit :: "nat \<Rightarrow> 16 word" where
  "hex_digit n = (if n < 10 then of_nat (0x30 + n) else of_nat (0x37 + n))"

fun hex_digits :: "nat \<Rightarrow> wstr \<Rightarrow> wstr" where
  "hex_digits n acc =
     (if n < 16 then hex_digit n # acc else hex_digits (n div 16) (hex_digit (n mod 16) # acc))"

declare hex_digits.simps [simp del]

definition hex_text :: "u32 \<Rightarrow> wstr" where
  "hex_text v = wide ''0x'' @ hex_digits (unat v) []"

definition find_type :: "wstr \<Rightarrow> TypeRights option" where
  "find_type type = find (\<lambda>t. type = wide (fst t)) s_Types"

text \<open>
  The two loops: a type's right is shown when the whole mask has it and it adds a bit not shown yet, a standard
  one when what is left has it. A piece is what \<open>add\<close> gets, with the bits it stands for.
\<close>

type_synonym piece = "u32 \<times> wstr"

fun type_pieces :: "u32 \<Rightarrow> Right list \<Rightarrow> u32 \<Rightarrow> piece list \<times> u32" where
  "type_pieces access [] left = ([], left)"
| "type_pieces access ((m, name) # rs) left =
     (if access AND m = m \<and> left AND m \<noteq> 0
      then (let (ps, left') = type_pieces access rs (left AND NOT m) in ((m, wide name) # ps, left'))
      else type_pieces access rs left)"

fun standard_pieces :: "Right list \<Rightarrow> u32 \<Rightarrow> piece list \<times> u32" where
  "standard_pieces [] left = ([], left)"
| "standard_pieces ((m, name) # rs) left =
     (if left AND m = m
      then (let (ps, left') = standard_pieces rs (left AND NOT m) in ((m, wide name) # ps, left'))
      else standard_pieces rs left)"

definition pieces :: "Right list \<Rightarrow> u32 \<Rightarrow> piece list" where
  "pieces rights access =
     (let (ps, left) = type_pieces access rights access; (qs, left) = standard_pieces s_Standard left
      in ps @ qs @ (if left \<noteq> 0 then [(left, hex_text left)] else []))"

definition add_all :: "wstr list \<Rightarrow> wstr" where
  "add_all names = foldl (add_name (wide '' | '')) [] names"

definition Decode :: "wstr \<Rightarrow> u32 \<Rightarrow> wstr" where
  "Decode type access =
     (if access = 0 then []
      else
        (case find_type type of
           None \<Rightarrow> add_all (map snd (pieces [] access))
         | Some (_, all, rights) \<Rightarrow>
             if access AND all = all
             then (if access = all then wide ''ALL_ACCESS''
                   else wide ''ALL_ACCESS | '' @ add_all (map snd (pieces [] (access AND NOT all))))
             else add_all (map snd (pieces rights access))))"

section \<open>The rights an editor offers\<close>

definition has_single_bit :: "u32 \<Rightarrow> bool" where
  "has_single_bit m \<longleftrightarrow> m \<noteq> 0 \<and> m AND (m - 1) = 0"

definition specific :: "Right list \<Rightarrow> Right list" where
  "specific rights = filter (\<lambda>r. fst r AND NOT 0xFFFF = 0 \<and> has_single_bit (fst r)) rights"

definition GetSpecificRights :: "wstr \<Rightarrow> Right list" where
  "GetSpecificRights type =
     (case find_type type of
        None \<Rightarrow> []
      | Some (_, _, rights) \<Rightarrow> specific rights)"

definition GetStandardRights :: "Right list" where
  "GetStandardRights = filter (\<lambda>r. fst r AND 0x1F0000 \<noteq> 0) s_Standard"

section \<open>Properties\<close>

definition bits_of :: "piece list \<Rightarrow> u32" where
  "bits_of ps = foldr (OR) (map fst ps) 0"

lemma bits_of_simps [simp]:
  "bits_of [] = 0" "bits_of (p # ps) = fst p OR bits_of ps" "bits_of (ps @ qs) = bits_of ps OR bits_of qs"
  by (simp_all add: bits_of_def) (induction ps; simp add: or.assoc)

text \<open>Equations between masks, bit by bit.\<close>

lemma weq: "(a :: u32) = b \<longleftrightarrow> (\<forall>n < 32. bit a n = bit b n)"
  by (auto intro: bit_word_eqI)

lemmas wbits = weq bit_and_iff bit_or_iff bit_not_iff possible_bit_word

lemma mask_algebra:
  fixes a b l m left :: u32
  shows "b OR l = b OR (left AND NOT m) \<Longrightarrow> m OR (b OR l) = m OR (b OR left)"
    and "a AND left = left \<Longrightarrow> a AND (left AND NOT m) = left AND NOT m"
    and "a AND m = m \<Longrightarrow> a AND b = b \<Longrightarrow> a AND (m OR b) = m OR b"
    and "a AND m = m \<Longrightarrow> m OR (a AND NOT m) = a"
    and "a AND b = b \<Longrightarrow> b OR l = b OR a \<Longrightarrow> b OR l = a"
    and "a AND m = m \<Longrightarrow> a AND NOT m = 0 \<Longrightarrow> a = m"
  by (simp add: wbits, blast)+

lemma type_pieces_bits:
  "type_pieces access rs left = (ps, left') \<Longrightarrow> access AND left = left \<Longrightarrow>
   access AND bits_of ps = bits_of ps \<and> bits_of ps OR left' = bits_of ps OR left"
proof (induction access rs left arbitrary: ps left' rule: type_pieces.induct)
  case (2 access m name rs left)
  show ?case
  proof (cases "access AND m = m \<and> left AND m \<noteq> 0")
    case True
    obtain qs l where rest: "type_pieces access rs (left AND NOT m) = (qs, l)" by fastforce
    have "access AND (left AND NOT m) = left AND NOT m"
      by (rule mask_algebra(2)) (rule "2.prems"(2))
    from "2.IH"(1) [OF True rest this] have
      IH: "access AND bits_of qs = bits_of qs" "bits_of qs OR l = bits_of qs OR (left AND NOT m)" by auto
    have ps: "ps = (m, wide name) # qs" "left' = l" using "2.prems"(1) True rest by auto
    have "m OR (bits_of qs OR l) = m OR (bits_of qs OR left)"
      by (rule mask_algebra(1)) (rule IH(2))
    moreover have "access AND (m OR bits_of qs) = m OR bits_of qs"
      using True IH(1) by (intro mask_algebra(3)) auto
    ultimately show ?thesis by (simp add: ps or.assoc)
  next
    case False
    then show ?thesis using "2.IH"(2) [OF False] "2.prems" by auto
  qed
qed auto

lemma standard_pieces_bits: "standard_pieces rs left = (ps, left') \<Longrightarrow> bits_of ps OR left' = left"
proof (induction rs left arbitrary: ps left' rule: standard_pieces.induct)
  case (2 m name rs left)
  show ?case
  proof (cases "left AND m = m")
    case True
    obtain qs l where rest: "standard_pieces rs (left AND NOT m) = (qs, l)" by fastforce
    have IH: "bits_of qs OR l = left AND NOT m" by (rule "2.IH"(1) [OF True rest])
    have "m OR (bits_of qs OR l) = left"
      unfolding IH by (rule mask_algebra(4)) (rule True)
    then show ?thesis using "2.prems" True rest by (auto simp: or.assoc)
  next
    case False
    then show ?thesis using "2.IH"(2) [OF False] "2.prems" by auto
  qed
qed auto

lemma pieces_bits: "bits_of (pieces rights access) = access"
proof -
  obtain ps l where ps: "type_pieces access rights access = (ps, l)" by fastforce
  obtain qs k where qs: "standard_pieces s_Standard l = (qs, k)" by fastforce
  have "access AND bits_of ps = bits_of ps" "bits_of ps OR l = bits_of ps OR access"
    using type_pieces_bits [OF ps] by auto
  then have "bits_of ps OR l = access" by (rule mask_algebra(5))
  moreover have "bits_of qs OR k = l" by (rule standard_pieces_bits [OF qs])
  moreover have "bits_of (if k \<noteq> 0 then [(k, hex_text k)] else []) = k" by simp
  ultimately show ?thesis by (simp add: pieces_def ps qs or.assoc)
qed

lemma type_pieces_names:
  "type_pieces access rs left = (ps, left') \<Longrightarrow> \<forall>r \<in> set rs. snd r \<noteq> [] \<Longrightarrow> \<forall>p \<in> set ps. snd p \<noteq> []"
proof (induction access rs left arbitrary: ps left' rule: type_pieces.induct)
  case (2 access m name rs left)
  then show ?case by (auto simp: Let_def split: if_splits prod.splits)
qed auto

lemma standard_pieces_names:
  "standard_pieces rs left = (ps, left') \<Longrightarrow> \<forall>r \<in> set rs. snd r \<noteq> [] \<Longrightarrow> \<forall>p \<in> set ps. snd p \<noteq> []"
proof (induction rs left arbitrary: ps left' rule: standard_pieces.induct)
  case (2 m name rs left)
  then show ?case by (auto simp: Let_def split: if_splits prod.splits)
qed auto

lemma named_rights:
  "\<forall>t \<in> set s_Types. \<forall>r \<in> set (snd (snd t)). snd r \<noteq> []" "\<forall>r \<in> set s_Standard. snd r \<noteq> []"
  by (simp_all add: s_Types_def s_Standard_def)

lemma pieces_named: "\<forall>r \<in> set rights. snd r \<noteq> [] \<Longrightarrow> \<forall>p \<in> set (pieces rights access). snd p \<noteq> []"
proof -
  assume rights: "\<forall>r \<in> set rights. snd r \<noteq> []"
  obtain ps l where ps: "type_pieces access rights access = (ps, l)" by fastforce
  obtain qs k where qs: "standard_pieces s_Standard l = (qs, k)" by fastforce
  show ?thesis
    using type_pieces_names [OF ps rights] standard_pieces_names [OF qs named_rights(2)]
    by (auto simp: pieces_def ps qs hex_text_def)
qed

text \<open>What \<open>Decode\<close> shows of a mask, as pieces.\<close>

definition shown :: "wstr \<Rightarrow> u32 \<Rightarrow> piece list" where
  "shown type access =
     (if access = 0 then []
      else
        (case find_type type of
           None \<Rightarrow> pieces [] access
         | Some (_, all, rights) \<Rightarrow>
             if access AND all = all
             then (all, wide ''ALL_ACCESS'') # (if access = all then [] else pieces [] (access AND NOT all))
             else pieces rights access))"

lemma add_all_join: "\<forall>x \<in> set xs. x \<noteq> [] \<Longrightarrow> add_all xs = join (wide '' | '') xs"
  unfolding add_all_def by (rule fold_add_name)

text \<open>C33: the decoded text is the shown names with \<open>" | "\<close> between them, and the masks they stand for make up the
  access mask exactly: no bit of it is left out and none is added, for every type and every mask, with
  \<open>ALL_ACCESS\<close>, combinations that share bits and the hex remainder included.\<close>

theorem Decode_shows_mask:
  "Decode type access = join (wide '' | '') (map snd (shown type access)) \<and> bits_of (shown type access) = access"
proof (cases "access = 0")
  case False
  show ?thesis
  proof (cases "find_type type")
    case None
    then show ?thesis
      using False pieces_named [of "[]" access] by (simp add: Decode_def shown_def add_all_join pieces_bits)
  next
    case (Some t)
    obtain n all rights where t: "t = (n, all, rights)" by (cases t) auto
    then have "t \<in> set s_Types" using Some by (auto simp: find_type_def find_Some_iff)
    then have rights: "\<forall>r \<in> set rights. snd r \<noteq> []" using named_rights(1) t by auto
    have none: "\<forall>p \<in> set (pieces [] (access AND NOT all)). snd p \<noteq> []" by (rule pieces_named) simp
    show ?thesis
    proof (cases "access AND all = all")
      case True
      have more: "access \<noteq> all \<Longrightarrow> pieces [] (access AND NOT all) \<noteq> []"
      proof
        assume "access \<noteq> all" and "pieces [] (access AND NOT all) = []"
        then have "access AND NOT all = 0" using pieces_bits [of "[]" "access AND NOT all"] by simp
        then have "access = all" by (rule mask_algebra(6) [OF True])
        with \<open>access \<noteq> all\<close> show False by simp
      qed
      have "all OR (access AND NOT all) = access" by (rule mask_algebra(4)) (rule True)
      moreover have "access \<noteq> all \<Longrightarrow> join (wide '' | '') (map snd ((all, wide ''ALL_ACCESS'') # pieces [] (access AND NOT all)))
          = wide ''ALL_ACCESS'' @ wide '' | '' @ join (wide '' | '') (map snd (pieces [] (access AND NOT all)))"
        using more by (cases "pieces [] (access AND NOT all)") auto
      ultimately show ?thesis
        using False Some t True none
        by (auto simp: Decode_def shown_def add_all_join pieces_bits wide_append [symmetric])
    next
      case nall: False
      then show ?thesis
        using False Some t pieces_named [OF rights, of access]
        by (simp add: Decode_def shown_def add_all_join pieces_bits)
    qed
  qed
qed (simp add: Decode_def shown_def)

definition editor_list :: "Right list \<Rightarrow> bool" where
  "editor_list rs \<longleftrightarrow> distinct (map fst rs) \<and> list_all (\<lambda>r. has_single_bit (fst r) \<and> fst r \<le> 0xFFFF) rs"

lemma specific_tables: "list_all (\<lambda>t. editor_list (specific (snd (snd t)))) s_Types"
  by code_simp

text \<open>The rights an editor offers are, for every type, single bits of the specific half of the mask, no two
  the same; the standard rights are the five in order.\<close>

theorem editor_rights:
  "editor_list (GetSpecificRights type) \<and>
   map fst GetStandardRights = [0x10000, 0x20000, 0x40000, 0x80000, 0x100000]"
proof -
  have "editor_list (GetSpecificRights type)"
  proof (cases "find_type type")
    case (Some t)
    then have "t \<in> set s_Types" by (auto simp: find_type_def find_Some_iff)
    then have "editor_list (specific (snd (snd t)))" using specific_tables by (simp add: list_all_iff)
    with Some show ?thesis by (cases t) (simp add: GetSpecificRights_def)
  qed (simp add: GetSpecificRights_def editor_list_def)
  moreover have "map fst GetStandardRights = [0x10000, 0x20000, 0x40000, 0x80000, 0x100000]"
    by code_simp
  ultimately show ?thesis ..
qed

end
