(* ===== verification/Driver.thy ===== *)
theory Driver
  imports Handle_Names
begin

text \<open>
  The kernel driver (\<open>KWinSys/KWinSys.cpp\<close>, \<open>KWinSysPublic.h\<close>): loading and unloading, the table of object
  types (\<open>InitGlobals\<close>) and the device control requests. The kernel's calls are the fields of \<open>Kernel\<close>: each
  gives a status and, when it succeeds, a handle. A buffered request's system buffer has the input, then
  whatever the pool held up to the output's length.
\<close>

section \<open>Codes and statuses\<close>

type_synonym NTSTATUS = u32

definition STATUS_SUCCESS :: NTSTATUS where "STATUS_SUCCESS = 0"
definition STATUS_INVALID_PARAMETER :: NTSTATUS where "STATUS_INVALID_PARAMETER = 0xC000000D"
definition STATUS_INVALID_DEVICE_REQUEST :: NTSTATUS where "STATUS_INVALID_DEVICE_REQUEST = 0xC0000010"
definition STATUS_BUFFER_TOO_SMALL :: NTSTATUS where "STATUS_BUFFER_TOO_SMALL = 0xC0000023"
definition STATUS_NO_MEMORY :: NTSTATUS where "STATUS_NO_MEMORY = 0xC0000017"

definition NT_SUCCESS :: "NTSTATUS \<Rightarrow> bool" where
  "NT_SUCCESS s \<longleftrightarrow> s < 0x80000000"

definition KWINSYS_VERSION :: u32 where "KWINSYS_VERSION = 0x100"

text \<open>\<open>CTL_CODE(WINSYS_DEVICE, f, METHOD_BUFFERED, FILE_ANY_ACCESS)\<close>\<close>

definition winsys_code :: "u32 \<Rightarrow> u32" where
  "winsys_code f = push_bit 16 0x8088 + push_bit 2 f"

datatype Ioctl = GetVersion | DupHandle | OpenProcess | OpenThread | OpenByName | Unknown

definition ioctl_of :: "u32 \<Rightarrow> Ioctl" where
  "ioctl_of code =
     (if code = winsys_code 0x800 then GetVersion
      else if code = winsys_code 0x802 then DupHandle
      else if code = winsys_code 0x804 then OpenProcess
      else if code = winsys_code 0x805 then OpenThread
      else if code = winsys_code 0x803 then OpenByName
      else Unknown)"

section \<open>Requests\<close>

record Irp =
  IoControlCode :: u32
  Input :: bytes
  OutputBufferLength :: nat
  pool :: "nat \<Rightarrow> byte"

definition SystemBuffer :: "Irp \<Rightarrow> bytes option" where
  "SystemBuffer irp =
     (let n = max (length (Input irp)) (OutputBufferLength irp)
      in if n = 0 then None else Some (Input irp @ map (pool irp) [length (Input irp)..<n]))"

record Kernel =
  ZwOpenProcess :: "u32 \<Rightarrow> u32 \<Rightarrow> bool \<Rightarrow> NTSTATUS \<times> u64"
  ZwOpenThread :: "u32 \<Rightarrow> u32 \<Rightarrow> NTSTATUS \<times> u64"
  ZwDuplicateObject :: "u64 \<Rightarrow> u32 \<Rightarrow> u32 \<Rightarrow> u32 \<Rightarrow> NTSTATUS \<times> u64"
  ObOpenObjectByName :: "wstr \<Rightarrow> u64 \<Rightarrow> u32 \<Rightarrow> NTSTATUS \<times> u64"
  ZwOpenSession :: "wstr \<Rightarrow> u32 \<Rightarrow> NTSTATUS \<times> u64"
  ZwOpenSymbolicLinkObject :: "wstr \<Rightarrow> u32 \<Rightarrow> NTSTATUS \<times> u64"
  beyond :: "nat \<Rightarrow> byte"

text \<open>What a handler did: the status, the information (bytes returned), the buffer, and the kernel handles it opened and closed.\<close>

record Completion =
  c_Status :: NTSTATUS
  c_Information :: nat
  c_Buffer :: "bytes option"
  c_Opened :: "u64 list"
  c_Closed :: "u64 list"

definition CompleteRequest :: "NTSTATUS \<Rightarrow> nat \<Rightarrow> bytes option \<Rightarrow> Completion" where
  "CompleteRequest status info buf =
     \<lparr>c_Status = status, c_Information = info, c_Buffer = buf, c_Opened = [], c_Closed = []\<rparr>"

text \<open>A value stored at an offset of the buffer.\<close>

definition put :: "nat \<Rightarrow> bytes \<Rightarrow> bytes \<Rightarrow> bytes" where
  "put at v buf = take at buf @ v @ drop (at + length v) buf"

definition give_handle :: "NTSTATUS \<times> u64 \<Rightarrow> bytes \<Rightarrow> Completion" where
  "give_handle result buf =
     (if NT_SUCCESS (fst result) then CompleteRequest (fst result) 8 (Some (put 0 (le_bytes 8 (unat (snd result))) buf))
      else CompleteRequest (fst result) 0 (Some buf))"

section \<open>The handlers\<close>

definition get_version :: "Irp \<Rightarrow> Completion" where
  "get_version irp =
     (case SystemBuffer irp of
        None \<Rightarrow> CompleteRequest STATUS_INVALID_PARAMETER 0 None
      | Some buf \<Rightarrow>
          if OutputBufferLength irp < 4 then CompleteRequest STATUS_INVALID_PARAMETER 0 (Some buf)
          else CompleteRequest STATUS_SUCCESS 4 (Some (put 0 (le_bytes 4 (unat KWINSYS_VERSION)) buf)))"

text \<open>\<open>DupHandleData\<close>: SourceHandle, SourcePid, AccessMask, Flags.\<close>

definition dup_handle :: "Kernel \<Rightarrow> Irp \<Rightarrow> Completion" where
  "dup_handle K irp =
     (case SystemBuffer irp of
        None \<Rightarrow> CompleteRequest STATUS_INVALID_PARAMETER 0 None
      | Some buf \<Rightarrow>
          if length (Input irp) < 16 \<or> OutputBufferLength irp < 8
          then CompleteRequest STATUS_BUFFER_TOO_SMALL 0 (Some buf)
          else
            (let (status, hProcess) = ZwOpenProcess K (u32_at buf 4) 0x40 True
             in if \<not> NT_SUCCESS status then CompleteRequest status 0 (Some buf)
                else (give_handle (ZwDuplicateObject K hProcess (u32_at buf 0) (u32_at buf 8) (u32_at buf 12)) buf)
                       \<lparr>c_Opened := [hProcess], c_Closed := [hProcess]\<rparr>))"

text \<open>\<open>OpenProcessThreadData\<close>: Id, AccessMask.\<close>

definition open_process_thread :: "Kernel \<Rightarrow> bool \<Rightarrow> Irp \<Rightarrow> Completion" where
  "open_process_thread K process irp =
     (case SystemBuffer irp of
        None \<Rightarrow> CompleteRequest STATUS_INVALID_PARAMETER 0 None
      | Some buf \<Rightarrow>
          if length (Input irp) < 8 \<or> OutputBufferLength irp < 8
          then CompleteRequest STATUS_BUFFER_TOO_SMALL 0 (Some buf)
          else give_handle
            (if process then ZwOpenProcess K (u32_at buf 0) (u32_at buf 4) False
             else ZwOpenThread K (u32_at buf 0) (u32_at buf 4)) buf)"

text \<open>
  \<open>OpenObjectByNameData\<close>: Access, TypeIndex, Name (at 6). The last two bytes of the input are made NUL; the
  name is what \<open>RtlInitUnicodeString\<close> reads from there, past the buffer if it meets no NUL inside.
\<close>

definition name_at :: "Kernel \<Rightarrow> bytes \<Rightarrow> wstr" where
  "name_at K buf =
     (let inside = units (drop 6 buf)
      in if 0 \<in> set inside then takeWhile not_nul inside
         else takeWhile not_nul (units (drop 6 buf @ map (beyond K) [0..<65536])))"

definition open_typed :: "Kernel \<Rightarrow> u64 \<Rightarrow> wstr \<Rightarrow> u32 \<Rightarrow> NTSTATUS \<times> u64" where
  "open_typed K type name access =
     (if type = 0 then (STATUS_INVALID_DEVICE_REQUEST, 0)
      else if type > 0x10000 then ObOpenObjectByName K name type access
      else if type = 1 then ZwOpenSession K name access
      else if type = 2 then ZwOpenSymbolicLinkObject K name access
      else (STATUS_INVALID_DEVICE_REQUEST, 0))"

definition open_by_name :: "Kernel \<Rightarrow> (byte \<Rightarrow> u64) \<Rightarrow> Irp \<Rightarrow> Completion" where
  "open_by_name K g_ObjectTypes irp =
     (case SystemBuffer irp of
        None \<Rightarrow> CompleteRequest STATUS_INVALID_PARAMETER 0 None
      | Some buf \<Rightarrow>
          if OutputBufferLength irp < 8 \<or> length (Input irp) < 8 \<or> length (Input irp) > 2048
          then CompleteRequest STATUS_INVALID_PARAMETER 0 (Some buf)
          else if unat (u16_at buf 4) > 255 then CompleteRequest STATUS_INVALID_PARAMETER 0 (Some buf)
          else
            (let buf' = put (length (Input irp) - 2) [0, 0] buf
             in give_handle
                  (open_typed K (g_ObjectTypes (ucast (u16_at buf' 4))) (name_at K buf') (u32_at buf' 0)) buf'))"

definition WinSysDeviceControl :: "Kernel \<Rightarrow> (byte \<Rightarrow> u64) \<Rightarrow> Irp \<Rightarrow> Completion" where
  "WinSysDeviceControl K g_ObjectTypes irp =
     (case ioctl_of (IoControlCode irp) of
        GetVersion \<Rightarrow> get_version irp
      | DupHandle \<Rightarrow> dup_handle K irp
      | OpenProcess \<Rightarrow> open_process_thread K True irp
      | OpenThread \<Rightarrow> open_process_thread K False irp
      | OpenByName \<Rightarrow> open_by_name K g_ObjectTypes irp
      | Unknown \<Rightarrow> CompleteRequest STATUS_INVALID_DEVICE_REQUEST 0 (SystemBuffer irp))"

definition WinSysCreateClose :: "Irp \<Rightarrow> Completion" where
  "WinSysCreateClose irp = CompleteRequest STATUS_SUCCESS 0 (SystemBuffer irp)"

section \<open>The object types\<close>

text \<open>The local \<open>objectTypes\<close>: \<open>exported n\<close> is the type object that the kernel exports for the row.\<close>

definition type_names :: "string list" where
  "type_names =
     [''Process'', ''Thread'', ''Job'', ''Event'', ''Semaphore'', ''File'', ''Key'', ''Token'', ''Device'', ''Driver'',
      ''Section'', ''Desktop'', ''WindowStation'', ''ALPC Port'', ''Timer'', ''Partition'']"

definition object_types :: "(string \<Rightarrow> u64) \<Rightarrow> (wstr \<times> u64) list" where
  "object_types exported =
     map (\<lambda>n. (wide n, exported n)) type_names @ [(wide ''Session'', 1), (wide ''SymbolicLink'', 2)]"

definition matching_type :: "(wstr \<times> u64) list \<Rightarrow> ObjectType \<Rightarrow> u64 option" where
  "matching_type rows t =
     map_option snd (find (\<lambda>row. same_start (fst row) (TypeName t) (length (fst row))) rows)"

definition set_type :: "(wstr \<times> u64) list \<Rightarrow> ObjectType \<Rightarrow> (byte \<Rightarrow> u64) \<Rightarrow> byte \<Rightarrow> u64" where
  "set_type rows t g = (case matching_type rows t of None \<Rightarrow> g | Some ty \<Rightarrow> g(TypeIndex t := ty))"

text \<open>\<open>InitGlobals\<close>: \<open>types\<close> is what the query gives, nothing when the allocation fails.\<close>

definition InitGlobals ::
  "(string \<Rightarrow> u64) \<Rightarrow> (NTSTATUS \<times> ObjectType list) option \<Rightarrow> (byte \<Rightarrow> u64) \<Rightarrow> NTSTATUS \<times> (byte \<Rightarrow> u64)" where
  "InitGlobals exported types g =
     (case types of
        None \<Rightarrow> (STATUS_NO_MEMORY, g)
      | Some (status, ts) \<Rightarrow>
          (status, if NT_SUCCESS status then fold (set_type (object_types exported)) ts g else g))"

section \<open>Loading and unloading\<close>

record DriverState =
  device :: bool
  link :: bool
  handlers :: bool
  g_ObjectTypes :: "byte \<Rightarrow> u64"

definition absent :: DriverState where
  "absent = \<lparr>device = False, link = False, handlers = False, g_ObjectTypes = (\<lambda>_. 0)\<rparr>"

definition DriverEntry ::
  "NTSTATUS \<Rightarrow> NTSTATUS \<Rightarrow> (string \<Rightarrow> u64) \<Rightarrow> (NTSTATUS \<times> ObjectType list) option \<Rightarrow> DriverState \<Rightarrow> NTSTATUS \<times> DriverState"
where
  "DriverEntry create_device create_link exported types s =
     (if \<not> NT_SUCCESS create_device then (create_device, s)
      else
        (let s = s\<lparr>device := True\<rparr>
         in if \<not> NT_SUCCESS create_link then (create_link, s\<lparr>device := False\<rparr>)
            else (STATUS_SUCCESS,
                  s\<lparr>link := True, handlers := True, g_ObjectTypes := snd (InitGlobals exported types (g_ObjectTypes s))\<rparr>)))"

definition WinSysUnload :: "DriverState \<Rightarrow> DriverState" where
  "WinSysUnload s = s\<lparr>link := False, device := False\<rparr>"

section \<open>Properties of the requests\<close>

definition answer_ok :: "Irp \<Rightarrow> Completion \<Rightarrow> bool" where
  "answer_ok irp c \<longleftrightarrow>
     c_Information c \<le> OutputBufferLength irp \<and>
     (if NT_SUCCESS (c_Status c) then True else c_Information c = 0) \<and>
     map_option length (c_Buffer c) = map_option length (SystemBuffer irp) \<and>
     c_Opened c = c_Closed c"

lemma CompleteRequest_simps [simp]:
  "c_Status (CompleteRequest s i b) = s" "c_Information (CompleteRequest s i b) = i"
  "c_Buffer (CompleteRequest s i b) = b" "c_Opened (CompleteRequest s i b) = []" "c_Closed (CompleteRequest s i b) = []"
  by (simp_all add: CompleteRequest_def)

lemma SystemBuffer_length:
  "SystemBuffer irp = Some buf \<Longrightarrow> length buf = max (length (Input irp)) (OutputBufferLength irp)"
  by (auto simp: SystemBuffer_def Let_def split: if_splits)

lemma length_put: "at + length v \<le> length buf \<Longrightarrow> length (put at v buf) = length buf"
  by (simp add: put_def)

lemma give_handle_ok:
  assumes "SystemBuffer irp = Some buf0" and "length buf = length buf0" and "8 \<le> OutputBufferLength irp"
  shows "answer_ok irp (give_handle r buf)"
  using assms SystemBuffer_length [OF assms(1)] by (simp add: answer_ok_def give_handle_def length_put)

lemma refused_ok: "\<not> NT_SUCCESS status \<Longrightarrow> answer_ok irp (CompleteRequest status 0 (SystemBuffer irp))"
  by (simp add: answer_ok_def)

lemma statuses [simp]:
  "\<not> NT_SUCCESS STATUS_INVALID_PARAMETER" "\<not> NT_SUCCESS STATUS_BUFFER_TOO_SMALL"
  "\<not> NT_SUCCESS STATUS_INVALID_DEVICE_REQUEST" "\<not> NT_SUCCESS STATUS_NO_MEMORY" "NT_SUCCESS STATUS_SUCCESS"
  by (simp_all add: NT_SUCCESS_def STATUS_INVALID_PARAMETER_def STATUS_BUFFER_TOO_SMALL_def
      STATUS_INVALID_DEVICE_REQUEST_def STATUS_NO_MEMORY_def STATUS_SUCCESS_def)

lemma get_version_ok: "answer_ok irp (get_version irp)"
  using SystemBuffer_length [of irp]
  by (auto simp: get_version_def answer_ok_def length_put split: option.splits)

lemma dup_handle_ok: "answer_ok irp (dup_handle K irp)"
proof (cases "SystemBuffer irp")
  case (Some buf)
  have "answer_ok irp c \<Longrightarrow> answer_ok irp (c\<lparr>c_Opened := [h], c_Closed := [h]\<rparr>)" for c h
    by (simp add: answer_ok_def)
  then show ?thesis
    using Some give_handle_ok [OF Some refl] refused_ok [of _ irp]
    by (auto simp: dup_handle_def Let_def split: prod.splits)
qed (use refused_ok [of _ irp] in \<open>simp add: dup_handle_def\<close>)

lemma open_process_thread_ok: "answer_ok irp (open_process_thread K p irp)"
proof (cases "SystemBuffer irp")
  case (Some buf)
  then show ?thesis
    using give_handle_ok [OF Some refl] refused_ok [of _ irp] by (auto simp: open_process_thread_def)
qed (use refused_ok [of _ irp] in \<open>simp add: open_process_thread_def\<close>)

lemma open_by_name_ok: "answer_ok irp (open_by_name K g irp)"
proof (cases "SystemBuffer irp")
  case (Some buf)
  have "length (put (length (Input irp) - 2) [0, 0] buf) = length buf" if "8 \<le> length (Input irp)"
    using SystemBuffer_length [OF Some] that by (intro length_put) auto
  then show ?thesis
    using Some give_handle_ok [OF Some] refused_ok [of _ irp] by (auto simp: open_by_name_def Let_def)
qed (use refused_ok [of _ irp] in \<open>simp add: open_by_name_def\<close>)



section \<open>Properties of the table and of the driver's life\<close>

lemma fold_set_type:
  "fold (set_type rows) ts g i =
     (case find (\<lambda>t. TypeIndex t = i \<and> matching_type rows t \<noteq> None) (rev ts) of
        None \<Rightarrow> g i
      | Some t \<Rightarrow> the (matching_type rows t))"
proof (induction ts rule: rev_induct)
  case (snoc t ts)
  then show ?case by (auto simp: set_type_def split: option.splits)
qed simp

text \<open>After \<open>InitGlobals\<close> the entry of a type index is that of the last type with the index whose name begins
  with a row's name (the first such row), and the other entries are as they were.\<close>

theorem InitGlobals_table:
  "snd (InitGlobals exported (Some (STATUS_SUCCESS, ts)) g) i =
     (case find (\<lambda>t. TypeIndex t = i \<and> matching_type (object_types exported) t \<noteq> None) (rev ts) of
        None \<Rightarrow> g i
      | Some t \<Rightarrow> the (matching_type (object_types exported) t))"
  by (simp add: InitGlobals_def fold_set_type)

text \<open>
  The comparison is with the row's length only, so a type whose name merely begins with a row's takes its type
  object: Windows 11 has a \<open>ProcessStateChange\<close> type, which gets the process type.
\<close>

lemma state_change_gets_process_type:
  "matching_type (object_types exported)
     \<lparr>TypeIndex = 9, TypeName = wide ''ProcessStateChange'', TypeNameMaximumLength = 38\<rparr> = Some (exported ''Process'')"
  by (simp add: matching_type_def object_types_def type_names_def same_start_def wide_def lower_def c_str_def not_nul_def)

text \<open>An odd input length puts the terminator across two characters, and the name runs past the buffer.\<close>

definition odd_irp :: Irp where
  "odd_irp = \<lparr>IoControlCode = winsys_code 0x803, Input = [0, 0, 0, 0, 7, 0, 0x41, 0x41, 0x41, 0x41, 0x41],
     OutputBufferLength = 8, pool = (\<lambda>_. 0)\<rparr>"

lemma odd_length_name_unterminated:
  "(case SystemBuffer odd_irp of
      None \<Rightarrow> False
    | Some buf \<Rightarrow> 0 \<notin> set (units (drop 6 (put (length (Input odd_irp) - 2) [0, 0] buf))))"
  by code_simp

text \<open>The driver's life: loads, requests and unloads.\<close>

inductive life :: "DriverState \<Rightarrow> DriverState \<Rightarrow> bool" where
  load: "\<not> device s \<Longrightarrow> life s (snd (DriverEntry cd cl exported types s))"
| unload: "link s \<Longrightarrow> life s (WinSysUnload s)"

inductive_cases lifeE: "life s s'"

inductive reachable :: "DriverState \<Rightarrow> bool" where
  start: "reachable absent"
| step: "reachable s \<Longrightarrow> life s s' \<Longrightarrow> reachable s'"

lemma reachable_link_device: "reachable s \<Longrightarrow> device s = link s"
proof (induction rule: reachable.induct)
  case (step s s')
  from step.hyps(2) show ?case
  proof (rule lifeE)
    fix cd cl exported types
    assume "s' = snd (DriverEntry cd cl exported types s)" "\<not> device s"
    then show ?thesis using step.IH by (auto simp: DriverEntry_def Let_def)
  qed (simp add: WinSysUnload_def)
qed (simp add: absent_def)

text \<open>In every state the driver gets to, the device and its symbolic link are both there or both gone: a load
  that fails half-way deletes the device it made, and an unload deletes both.\<close>

theorem device_with_link: "reachable s \<Longrightarrow> device s = link s \<and> \<not> device (WinSysUnload s) \<and> \<not> link (WinSysUnload s)"
  using reachable_link_device by (simp add: WinSysUnload_def)

theorem device_with_link_witness:
  "let s = snd (DriverEntry 0 0xC0000035 (\<lambda>_. 0x20000) None absent)
   in device s = link s \<and> \<not> device (WinSysUnload s) \<and> \<not> link (WinSysUnload s)"
proof -
  have "reachable (snd (DriverEntry 0 0xC0000035 (\<lambda>_. 0x20000) None absent))"
    by (rule reachable.step [OF start], rule life.load) (simp add: absent_def)
  from device_with_link [OF this] show ?thesis unfolding Let_def .
qed

end
