(* ===== verification/File_Io.thy ===== *)
theory File_Io
  imports Handle_Names
begin

text \<open>
  File I/O counted per process and file (\<open>WinSys/FileIo.h\<close>, \<open>FileIo.cpp\<close>): the events' payload, the naming of
  files from the provider's events, the counters, the resolver's results and the pruning. A handler takes the
  time (\<open>FILETIME\<close>) and the tick count that it reads from the system.
\<close>

section \<open>State\<close>

record FileCounts =
  BytesRead :: u64
  BytesWritten :: u64
  Reads :: u64
  Writes :: u64
  FirstSeen :: int
  LastSeen :: int
  LastTick :: u64

definition no_counts :: FileCounts where
  "no_counts = \<lparr>BytesRead = 0, BytesWritten = 0, Reads = 0, Writes = 0, FirstSeen = 0, LastSeen = 0, LastTick = 0\<rparr>"

record FileName =
  Text :: wstr
  Tick :: u64

type_synonym FileId = "u32 \<times> u64"

record FileIoTracker =
  m_Files :: "(FileId, FileCounts) table"
  m_Names :: "(u64, FileName) table"
  m_ObjectNames :: "(u64, FileName) table"
  m_Pending :: "(u64, u64) table"
  m_Attempts :: "(u64, int) table"
  m_DosNames :: "(wstr \<times> wstr) list option"

definition FileIdle :: u64 where "FileIdle = 60000"
definition NameIdle :: u64 where "NameIdle = 120000"
definition MaxAttempts :: int where "MaxAttempts = 3"

section \<open>Payloads\<close>

record Payload =
  p_Data :: bytes
  p_PointerSize :: nat

definition Pointer :: "Payload \<Rightarrow> nat \<Rightarrow> u64" where
  "Pointer p offset =
     (if offset + p_PointerSize p \<le> length (p_Data p)
      then of_nat (le_nat (take (p_PointerSize p) (drop offset (p_Data p)))) else 0)"

definition UInt32 :: "Payload \<Rightarrow> nat \<Rightarrow> u32" where
  "UInt32 p offset = (if offset + 4 \<le> length (p_Data p) then u32_at (p_Data p) offset else 0)"

definition String_at :: "Payload \<Rightarrow> nat \<Rightarrow> wstr" where
  "String_at p offset =
     (if offset \<ge> length (p_Data p) then []
      else until_nul ((length (p_Data p) - offset) div 2) (units (drop offset (p_Data p))))"

section \<open>Events\<close>

record FileEvent =
  e_Id :: u16
  e_Version :: byte
  e_Pid :: u32
  e_Payload :: Payload

definition count_io :: "u32 \<Rightarrow> bool \<Rightarrow> int \<Rightarrow> u64 \<Rightarrow> FileCounts \<Rightarrow> FileCounts" where
  "count_io sz write time tick c =
     (let c = (if FirstSeen c = 0 then c\<lparr>FirstSeen := time\<rparr> else c);
          c = c\<lparr>LastSeen := time, LastTick := tick\<rparr>
      in if write then c\<lparr>BytesWritten := BytesWritten c + ucast sz, Writes := Writes c + 1\<rparr>
         else c\<lparr>BytesRead := BytesRead c + ucast sz, Reads := Reads c + 1\<rparr>)"

text \<open>What follows the counting: the name is used, taken from the file object's \<open>Create\<close>, or left to the resolver.\<close>

definition note_name :: "u64 \<Rightarrow> u64 \<Rightarrow> u64 \<Rightarrow> FileIoTracker \<Rightarrow> FileIoTracker" where
  "note_name fileObject key tick s =
     (case tfind (m_Names s) key of
        Some n \<Rightarrow> s\<lparr>m_Names := tset key (n\<lparr>Tick := tick\<rparr>) (m_Names s)\<rparr>
      | None \<Rightarrow>
          (case tfind (m_ObjectNames s) fileObject of
             Some n \<Rightarrow> s\<lparr>m_Names := tset key \<lparr>Text = Text n, Tick = tick\<rparr> (m_Names s)\<rparr>
           | None \<Rightarrow>
               (case tfind (m_Attempts s) key of
                  None \<Rightarrow> s\<lparr>m_Pending := tset key fileObject (m_Pending s)\<rparr>
                | Some n \<Rightarrow> if n < MaxAttempts then s\<lparr>m_Pending := tset key fileObject (m_Pending s)\<rparr> else s)))"

definition OnReadWrite ::
  "u64 \<Rightarrow> u64 \<Rightarrow> u32 \<Rightarrow> u32 \<Rightarrow> bool \<Rightarrow> int \<Rightarrow> u64 \<Rightarrow> FileIoTracker \<Rightarrow> FileIoTracker" where
  "OnReadWrite fileObject key pid sz write time tick s =
     (if key = 0 then s
      else
        (let c = (case tfind (m_Files s) (pid, key) of None \<Rightarrow> no_counts | Some c \<Rightarrow> c)
         in note_name fileObject key tick (s\<lparr>m_Files := tset (pid, key) (count_io sz write time tick c) (m_Files s)\<rparr>)))"

text \<open>The fields of a read or write: the file object, the key that counts, the size.\<close>

definition io_fields :: "FileEvent \<Rightarrow> u64 \<times> u64 \<times> u32" where
  "io_fields e =
     (let p = p_PointerSize (e_Payload e); d = e_Payload e;
          (fileObject, key, sz) =
            (if e_Version e = 0 then (Pointer d (8 + 2 * p), Pointer d (8 + 3 * p), UInt32 d (8 + 4 * p))
             else (Pointer d (8 + p), Pointer d (8 + 2 * p), UInt32 d (8 + 3 * p + 4)))
      in (fileObject, if key \<noteq> 0 then key else fileObject, sz))"

definition OnEvent :: "FileEvent \<Rightarrow> int \<Rightarrow> u64 \<Rightarrow> FileIoTracker \<Rightarrow> FileIoTracker" where
  "OnEvent e time tick s =
     (let d = e_Payload e; p = p_PointerSize d
      in if e_Id e = 10 then
           (let key = Pointer d 0; name = String_at d p
            in if key \<noteq> 0 \<and> name \<noteq> []
               then s\<lparr>m_Names := tset key \<lparr>Text = name, Tick = tick\<rparr> (m_Names s), m_Pending := terase key (m_Pending s)\<rparr>
               else s)
         else if e_Id e = 12 then
           (let fileObject = Pointer d (if e_Version e = 0 then 2 * p else p);
                name = String_at d (if e_Version e = 0 then 3 * p + 12 else 2 * p + 16)
            in if fileObject \<noteq> 0 \<and> name \<noteq> []
               then s\<lparr>m_ObjectNames := tset fileObject \<lparr>Text = name, Tick = tick\<rparr> (m_ObjectNames s)\<rparr>
               else s)
         else if e_Id e = 15 \<or> e_Id e = 16 then
           (let (fileObject, key, sz) = io_fields e
            in OnReadWrite fileObject key (e_Pid e) sz (e_Id e = 16) time tick s)
         else s)"

section \<open>The resolver and the pruning\<close>

text \<open>\<open>Resolve\<close> takes the pending keys, then stores what it found: the names, and an attempt for each key without one.\<close>

definition take_pending :: "FileIoTracker \<Rightarrow> (u64, u64) table \<times> FileIoTracker" where
  "take_pending s = (m_Pending s, s\<lparr>m_Pending := []\<rparr>)"

text \<open>The file objects' handles: the first handle of each object whose type is a file.\<close>

definition by_object :: "(u16 \<Rightarrow> wstr) \<Rightarrow> SystemHandleEntry list \<Rightarrow> (u64, SystemHandleEntry) table" where
  "by_object type_name handles =
     fold (\<lambda>h m. if type_name (s_TypeIndex h) = wide ''File'' \<and> s_Object h \<noteq> 0 then tinsert (s_Object h) h m else m)
       handles []"

definition found_names ::
  "(SystemHandleEntry \<Rightarrow> wstr) \<Rightarrow> (u64, SystemHandleEntry) table \<Rightarrow> (u64, u64) table \<Rightarrow> (u64 \<times> wstr) list" where
  "found_names query objects pending =
     map (\<lambda>(key, fileObject). (key, case tfind objects fileObject of None \<Rightarrow> [] | Some h \<Rightarrow> query h)) pending"

definition store_name :: "u64 \<Rightarrow> u64 \<times> wstr \<Rightarrow> FileIoTracker \<Rightarrow> FileIoTracker" where
  "store_name tick entry s =
     (let (key, name) = entry
      in if name = []
         then s\<lparr>m_Attempts := tset key ((case tfind (m_Attempts s) key of None \<Rightarrow> 0 | Some n \<Rightarrow> n) + 1) (m_Attempts s)\<rparr>
         else s\<lparr>m_Names := tinsert key \<lparr>Text = name, Tick = tick\<rparr> (m_Names s)\<rparr>)"

definition Resolve ::
  "(u16 \<Rightarrow> wstr) \<Rightarrow> SystemHandleEntry list option \<Rightarrow> (SystemHandleEntry \<Rightarrow> wstr) \<Rightarrow> u64 \<Rightarrow> FileIoTracker \<Rightarrow> FileIoTracker"
where
  "Resolve type_name handles query tick s =
     (let (pending, s) = take_pending s
      in if pending = [] then s
         else case handles of
           None \<Rightarrow> s
         | Some hs \<Rightarrow> fold (store_name tick) (found_names query (by_object type_name hs) pending) s)"

definition Prune :: "u64 \<Rightarrow> FileIoTracker \<Rightarrow> FileIoTracker" where
  "Prune tick s =
     (let files = terase_if (\<lambda>f. tick - LastTick (snd f) > FileIdle) (m_Files s);
          keys = (\<lambda>f. snd (fst f)) ` set files
      in s\<lparr>m_Files := files,
           m_Names := terase_if (\<lambda>n. tick - Tick (snd n) > NameIdle) (m_Names s),
           m_ObjectNames := terase_if (\<lambda>n. tick - Tick (snd n) > NameIdle) (m_ObjectNames s),
           m_Attempts := terase_if (\<lambda>a. fst a \<notin> keys) (m_Attempts s)\<rparr>)"

definition RemoveProcess :: "u32 \<Rightarrow> FileIoTracker \<Rightarrow> FileIoTracker" where
  "RemoveProcess pid s = s\<lparr>m_Files := terase_if (\<lambda>f. fst (fst f) = pid) (m_Files s)\<rparr>"

record FileIoCounters =
  f_Pid :: u32
  f_FileKey :: u64
  f_Name :: wstr
  f_Counts :: FileCounts

definition GetFiles :: "FileIoTracker \<Rightarrow> FileIoCounters list" where
  "GetFiles s =
     map (\<lambda>((pid, key), c).
       \<lparr>f_Pid = pid, f_FileKey = key,
        f_Name = (case tfind (m_Names s) key of
                    None \<Rightarrow> []
                  | Some n \<Rightarrow> (case m_DosNames s of None \<Rightarrow> Text n | Some devices \<Rightarrow> Convert devices (Text n))),
        f_Counts = c\<rparr>) (m_Files s)"

section \<open>Properties\<close>

text \<open>The four counters of a file, and what an event adds to each.\<close>

datatype Counter = CBytesRead | CBytesWritten | CReads | CWrites

fun counter :: "Counter \<Rightarrow> FileCounts \<Rightarrow> u64" where
  "counter CBytesRead c = BytesRead c"
| "counter CBytesWritten c = BytesWritten c"
| "counter CReads c = Reads c"
| "counter CWrites c = Writes c"

fun io_amount :: "Counter \<Rightarrow> bool \<Rightarrow> u32 \<Rightarrow> u64" where
  "io_amount CBytesRead write sz = (if write then 0 else ucast sz)"
| "io_amount CBytesWritten write sz = (if write then ucast sz else 0)"
| "io_amount CReads write sz = (if write then 0 else 1)"
| "io_amount CWrites write sz = (if write then 1 else 0)"

definition file_total :: "Counter \<Rightarrow> FileIoTracker \<Rightarrow> u64" where
  "file_total k s = htab.total (counter k \<circ> snd) (m_Files s)"

definition event_amount :: "Counter \<Rightarrow> FileEvent \<Rightarrow> u64" where
  "event_amount k e =
     (case io_fields e of (fileObject, key, sz) \<Rightarrow>
        if (e_Id e = 15 \<or> e_Id e = 16) \<and> key \<noteq> 0 then io_amount k (e_Id e = 16) sz else 0)"

definition tracker_ok :: "FileIoTracker \<Rightarrow> bool" where
  "tracker_ok s \<longleftrightarrow> table_ok (m_Files s) \<and> table_ok (m_Names s)"

lemma note_name_files [simp]: "m_Files (note_name fo key tick s) = m_Files s"
  by (simp add: note_name_def split: option.splits)

lemma note_name_ok [keeps_inv]: "table_ok (m_Names s) \<Longrightarrow> table_ok (m_Names (note_name fo key tick s))"
  by (auto simp: note_name_def split: option.splits)

lemma count_io_counter: "counter k (count_io sz write time tick c) = counter k c + io_amount k write sz"
  by (cases k) (simp_all add: count_io_def Let_def)

lemma counter_no_counts: "counter k no_counts = 0"
  by (cases k) (simp_all add: no_counts_def)

lemma OnReadWrite_total:
  assumes "table_ok (m_Files s)"
  shows "file_total k (OnReadWrite fo key pid sz write time tick s) =
    file_total k s + (if key = 0 then 0 else io_amount k write sz)"
proof (cases "key = 0")
  case False
  let ?c = "case tfind (m_Files s) (pid, key) of None \<Rightarrow> no_counts | Some c \<Rightarrow> c"
  have "htab.total (counter k \<circ> snd) (tset (pid, key) (count_io sz write time tick ?c) (m_Files s)) =
      htab.total (counter k \<circ> snd) (m_Files s) + io_amount k write sz"
    by (rule htab.total_bump [OF assms, where d = no_counts])
       (auto simp: count_io_counter counter_no_counts split: option.splits)
  with False show ?thesis by (simp add: OnReadWrite_def file_total_def Let_def)
qed (simp add: OnReadWrite_def)

lemma OnReadWrite_ok [keeps_inv]:
  "tracker_ok s \<Longrightarrow> tracker_ok (OnReadWrite fo key pid sz write time tick s)"
  by (auto simp: tracker_ok_def OnReadWrite_def Let_def intro: note_name_ok)

datatype FileWork = Event FileEvent int u64 | Resolved "u64 \<times> wstr" u64

fun file_work :: "FileWork \<Rightarrow> FileIoTracker \<Rightarrow> FileIoTracker" where
  "file_work (Event e time tick) s = OnEvent e time tick s"
| "file_work (Resolved entry tick) s = store_name tick entry s"

fun work_amount :: "Counter \<Rightarrow> FileWork \<Rightarrow> u64" where
  "work_amount k (Event e time tick) = event_amount k e"
| "work_amount k (Resolved entry tick) = 0"

interpretation files: ledger file_work "file_total k" "work_amount k" tracker_ok for k
proof unfold_locales
  fix s w assume ok: "tracker_ok s"
  show "tracker_ok (file_work w s)"
    using ok OnReadWrite_ok [OF ok]
    by (cases w) (auto simp: OnEvent_def store_name_def tracker_ok_def Let_def split: prod.splits)
  show "file_total k (file_work w s) = file_total k s + work_amount k w"
    using ok OnReadWrite_total [of s k]
    by (cases w) (auto simp: OnEvent_def store_name_def tracker_ok_def event_amount_def file_total_def Let_def
        split: prod.splits)
qed

definition no_files :: FileIoTracker where
  "no_files = \<lparr>m_Files = [], m_Names = [], m_ObjectNames = [], m_Pending = [], m_Attempts = [], m_DosNames = None\<rparr>"

text \<open>Over any sequence of events and resolver results, each of the four counters added up over all processes
  and files is the sum of what the read and write events carried: naming a file never moves or loses a count.\<close>

theorem file_counts_conserved:
  "file_total k (fold file_work ws no_files) = sum_list (map (work_amount k) ws)"
  using files.run_amount [of no_files k ws]
  by (simp add: tracker_ok_def no_files_def file_total_def htab.total_def)

definition named_as :: "FileIoTracker \<Rightarrow> u64 \<Rightarrow> u64 \<Rightarrow> wstr option" where
  "named_as s fo key =
     (case tfind (m_Names s) key of
        Some n \<Rightarrow> Some (Text n)
      | None \<Rightarrow> map_option Text (tfind (m_ObjectNames s) fo))"

definition given_up :: "FileIoTracker \<Rightarrow> u64 \<Rightarrow> bool" where
  "given_up s key = (case tfind (m_Attempts s) key of None \<Rightarrow> False | Some n \<Rightarrow> n \<ge> MaxAttempts)"

text \<open>A read or write of a file whose key or file object a provider event named leaves the file named, never
  pending, and a name that is known already is kept; without any name it is pending unless the resolver gave up.\<close>

theorem io_names_file:
  fixes fo key pid sz wr time tick s
  defines "s' \<equiv> OnReadWrite fo key pid sz wr time tick s"
  shows "if key = 0 then s' = s
    else map_option Text (tfind (m_Names s') key) = named_as s fo key \<and>
      tfind (m_Pending s') key =
        (if named_as s fo key = None \<and> \<not> given_up s key then Some fo else tfind (m_Pending s) key)"
  by (auto simp: s'_def OnReadWrite_def note_name_def named_as_def given_up_def Let_def split: option.splits)

end
