(* ===== verification/Process_Network.thy ===== *)
theory Process_Network
  imports Win_Prelude
begin

text \<open>
  Network bytes per process and per connection (\<open>WinSys/ProcessNetwork.h\<close>, \<open>ProcessNetwork.cpp\<close>): the kernel
  network provider's events, the identity of a connection as an event and as the connection table tell it, the
  counters and the pruning of closed connections.
\<close>

section \<open>State\<close>

datatype Direction = NoDirection | Send | Receive

definition GetDirection :: "u16 \<Rightarrow> Direction" where
  "GetDirection i =
     (if i \<in> {10, 26, 42, 58} then Send else if i \<in> {11, 27, 43, 59} then Receive else NoDirection)"

record Counters =
  Sent :: u64
  Received :: u64

definition no_counters :: Counters where
  "no_counters = \<lparr>Sent = 0, Received = 0\<rparr>"

record ConnectionId =
  Pid :: u32
  Udp :: bool
  V6 :: bool
  LocalAddress :: bytes
  RemoteAddress :: bytes
  LocalPort :: u16
  RemotePort :: u16

definition empty_id :: ConnectionId where
  "empty_id = \<lparr>Pid = 0, Udp = False, V6 = False, LocalAddress = replicate 16 0, RemoteAddress = replicate 16 0,
     LocalPort = 0, RemotePort = 0\<rparr>"

record ProcessNetworkTracker =
  m_Counters :: "(u32, Counters) table"
  m_Connections :: "(ConnectionId, Counters) table"
  m_LastPrune :: u64

section \<open>The identity of a connection\<close>

text \<open>\<open>n\<close> bytes copied to the start of an address.\<close>

definition copy_to :: "bytes \<Rightarrow> nat \<Rightarrow> bytes \<Rightarrow> bytes" where
  "copy_to address n from_bytes = take n from_bytes @ drop n address"

datatype ConnectionProtocol = Tcp | Tcp6 | UdpProto | Udp6

text \<open>A row of the connection table (\<open>WinSys::Connection\<close>).\<close>

record Connection =
  k_Pid :: u32
  k_Proto :: ConnectionProtocol
  k_LocalAddress :: bytes
  k_RemoteAddress :: bytes
  k_LocalPort :: u16
  k_RemotePort :: u16

definition IdOf :: "Connection \<Rightarrow> ConnectionId" where
  "IdOf c =
     (let v6 = (k_Proto c = Tcp6 \<or> k_Proto c = Udp6); udp = (k_Proto c = UdpProto \<or> k_Proto c = Udp6);
          i = empty_id\<lparr>Pid := k_Pid c, V6 := v6, Udp := udp, LocalPort := k_LocalPort c\<rparr>;
          n = (if v6 then 16 else 4)
      in if udp then i
         else i\<lparr>LocalAddress := copy_to (LocalAddress i) n (k_LocalAddress c),
                RemoteAddress := copy_to (RemoteAddress i) n (k_RemoteAddress c),
                RemotePort := k_RemotePort c\<rparr>)"

section \<open>Events\<close>

record NetworkEvent =
  e_Id :: u16
  e_Data :: bytes

text \<open>\<open>_byteswap_ushort\<close>\<close>

definition byteswap :: "u16 \<Rightarrow> u16" where
  "byteswap w = push_bit 8 w OR drop_bit 8 w"

definition event_v6 :: "u16 \<Rightarrow> bool" where
  "event_v6 i \<longleftrightarrow> i \<in> {26, 27, 58, 59}"

definition has_ends :: "NetworkEvent \<Rightarrow> bool" where
  "has_ends e \<longleftrightarrow> length (e_Data e) \<ge> 8 + 2 * (if event_v6 (e_Id e) then 16 else 4) + 4"

definition connection_of :: "NetworkEvent \<Rightarrow> ConnectionId" where
  "connection_of e =
     (let d = e_Data e; v6 = event_v6 (e_Id e); udp = (e_Id e \<ge> 42); n = (if v6 then 16 else 4);
          i = empty_id\<lparr>Pid := u32_at d 0, V6 := v6, Udp := udp\<rparr>
      in if \<not> has_ends e then i
         else
           (let ends = drop 8 d; i = i\<lparr>LocalPort := byteswap (u16_at ends (2 * n + 2))\<rparr>
            in if udp then i
               else i\<lparr>RemoteAddress := copy_to (RemoteAddress i) n ends,
                      LocalAddress := copy_to (LocalAddress i) n (drop n ends),
                      RemotePort := byteswap (u16_at ends (2 * n))\<rparr>))"

definition add_bytes :: "Direction \<Rightarrow> u32 \<Rightarrow> Counters \<Rightarrow> Counters" where
  "add_bytes dir sz c =
     (if dir = Send then c\<lparr>Sent := Sent c + ucast sz\<rparr> else c\<lparr>Received := Received c + ucast sz\<rparr>)"

definition counters_at :: "('k, Counters) table \<Rightarrow> 'k \<Rightarrow> Counters" where
  "counters_at m k = (case tfind m k of None \<Rightarrow> no_counters | Some c \<Rightarrow> c)"

text \<open>\<open>PruneConnections\<close>: \<open>current\<close> is the connection table, when it could be read.\<close>

definition PruneConnections :: "Connection list option \<Rightarrow> ProcessNetworkTracker \<Rightarrow> ProcessNetworkTracker" where
  "PruneConnections current s =
     (case current of
        None \<Rightarrow> s
      | Some cs \<Rightarrow> s\<lparr>m_Connections := terase_if (\<lambda>c. fst c \<notin> IdOf ` set cs) (m_Connections s)\<rparr>)"

definition OnEvent ::
  "NetworkEvent \<Rightarrow> u64 \<Rightarrow> Connection list option \<Rightarrow> ProcessNetworkTracker \<Rightarrow> ProcessNetworkTracker" where
  "OnEvent e now current s =
     (if length (e_Data e) < 8 \<or> GetDirection (e_Id e) = NoDirection then s
      else
        (let pid = u32_at (e_Data e) 0; sz = u32_at (e_Data e) 4; dir = GetDirection (e_Id e);
             connection = connection_of e;
             s = (if now - m_LastPrune s \<ge> 30000 then PruneConnections current (s\<lparr>m_LastPrune := now\<rparr>) else s);
             s = s\<lparr>m_Counters := tset pid (add_bytes dir sz (counters_at (m_Counters s) pid)) (m_Counters s)\<rparr>
         in if has_ends e
            then s\<lparr>m_Connections := tset connection (add_bytes dir sz (counters_at (m_Connections s) connection))
                                     (m_Connections s)\<rparr>
            else s))"

definition GetCounters :: "ProcessNetworkTracker \<Rightarrow> u32 \<Rightarrow> Counters" where
  "GetCounters s pid = counters_at (m_Counters s) pid"

definition GetConnectionCounters :: "ProcessNetworkTracker \<Rightarrow> ConnectionId \<Rightarrow> Counters" where
  "GetConnectionCounters s i = counters_at (m_Connections s) i"

definition RemoveProcess :: "u32 \<Rightarrow> ProcessNetworkTracker \<Rightarrow> ProcessNetworkTracker" where
  "RemoveProcess pid s =
     s\<lparr>m_Counters := terase pid (m_Counters s), m_Connections := terase_if (\<lambda>c. Pid (fst c) = pid) (m_Connections s)\<rparr>"

section \<open>Properties\<close>

definition both :: "Counters \<Rightarrow> u64" where
  "both c = Sent c + Received c"

definition counted_bytes :: "ProcessNetworkTracker \<Rightarrow> u64" where
  "counted_bytes s = htab.total (both \<circ> snd) (m_Counters s)"

definition event_bytes :: "NetworkEvent \<Rightarrow> u64" where
  "event_bytes e =
     (if length (e_Data e) < 8 \<or> GetDirection (e_Id e) = NoDirection then 0 else ucast (u32_at (e_Data e) 4))"

definition tables_ok :: "ProcessNetworkTracker \<Rightarrow> bool" where
  "tables_ok s \<longleftrightarrow> table_ok (m_Counters s) \<and> table_ok (m_Connections s)"

lemma both_add: "both (add_bytes dir sz c) = both c + ucast sz"
  by (simp add: both_def add_bytes_def)

lemma both_none: "both no_counters = 0"
  by (simp add: both_def no_counters_def)

lemma PruneConnections_simps [simp]:
  "m_Counters (PruneConnections current s) = m_Counters s"
  "m_LastPrune (PruneConnections current s) = m_LastPrune s"
  "table_ok (m_Connections s) \<Longrightarrow> table_ok (m_Connections (PruneConnections current s))"
  by (simp_all add: PruneConnections_def split: option.splits)

interpretation network: ledger "\<lambda>(e, now, current). OnEvent e now current" counted_bytes
  "\<lambda>(e, now, current). event_bytes e" tables_ok
proof unfold_locales
  fix s :: ProcessNetworkTracker and w :: "NetworkEvent \<times> u64 \<times> Connection list option"
  assume ok: "tables_ok s"
  obtain e now current where w: "w = (e, now, current)" by (cases w) auto
  show "tables_ok ((case w of (e, now, current) \<Rightarrow> OnEvent e now current) s)"
    using ok by (auto simp: w OnEvent_def tables_ok_def Let_def)
  have bump: "htab.total (both \<circ> snd) (tset k (add_bytes dir sz (counters_at m k)) m) =
      htab.total (both \<circ> snd) m + ucast sz" if "table_ok m" for m :: "(u32, Counters) table" and k dir sz
    by (rule htab.total_bump [OF that, where d = no_counters])
       (simp_all add: both_add both_none counters_at_def split: option.splits)
  show "counted_bytes ((case w of (e, now, current) \<Rightarrow> OnEvent e now current) s) =
      counted_bytes s + (case w of (e, now, current) \<Rightarrow> event_bytes e)"
    using ok by (simp add: w OnEvent_def tables_ok_def Let_def counted_bytes_def event_bytes_def bump)
qed

definition no_traffic :: ProcessNetworkTracker where
  "no_traffic = \<lparr>m_Counters = [], m_Connections = [], m_LastPrune = 0\<rparr>"

text \<open>The bytes counted over all processes are those of the send and receive events, whatever was pruned of the
  connections on the way.\<close>

theorem network_bytes_conserved:
  "counted_bytes (fold (\<lambda>(e, now, current). OnEvent e now current) es no_traffic) =
     sum_list (map (\<lambda>(e, now, current). event_bytes e) es)"
  using network.run_amount [of no_traffic es]
  by (simp add: tables_ok_def no_traffic_def counted_bytes_def htab.total_def)

text \<open>An event's payload for a connection, as the provider lays it out: process, size, remote and local address,
  remote and local port in network order.\<close>

definition payload_of :: "Connection \<Rightarrow> u32 \<Rightarrow> bytes" where
  "payload_of c sz =
     le_bytes 4 (unat (k_Pid c)) @ le_bytes 4 (unat sz) @ k_RemoteAddress c @ k_LocalAddress c @
     le_bytes 2 (unat (byteswap (k_RemotePort c))) @ le_bytes 2 (unat (byteswap (k_LocalPort c)))"

definition event_id :: "ConnectionProtocol \<Rightarrow> bool \<Rightarrow> u16" where
  "event_id proto send =
     (case proto of Tcp \<Rightarrow> 10 | Tcp6 \<Rightarrow> 26 | UdpProto \<Rightarrow> 42 | Udp6 \<Rightarrow> 58) + (if send then 0 else 1)"

definition address_length :: "ConnectionProtocol \<Rightarrow> nat" where
  "address_length proto = (if proto = Tcp6 \<or> proto = Udp6 then 16 else 4)"

lemma byteswap_byteswap: "byteswap (byteswap w) = w"
proof (rule bit_word_eqI)
  fix n assume "n < LENGTH(16)"
  then show "bit (byteswap (byteswap w)) n = bit w n"
    by (auto simp: byteswap_def bit_or_iff bit_push_bit_iff bit_drop_bit_eq)
qed

lemma u16_at_append:
  "length xs = k \<Longrightarrow> u16_at (xs @ le_bytes 2 (unat (w :: u16)) @ ys) k = w"
  using u16_at_le_bytes [of w] by (simp add: u16_at_def)

lemma u32_at_append:
  "length xs = k \<Longrightarrow> u32_at (xs @ le_bytes 4 (unat (w :: u32)) @ ys) k = w"
  using u32_at_le_bytes [of w] by (simp add: u32_at_def)

text \<open>An event is counted under the very identity that its row of the connection table has, for TCP and UDP
  over IPv4 and IPv6: the bytes of a live connection are found, and pruning does not drop it.\<close>

theorem connection_identities_agree:
  assumes "length (k_LocalAddress c) = address_length (k_Proto c)"
    and "length (k_RemoteAddress c) = address_length (k_Proto c)"
  shows "connection_of \<lparr>e_Id = event_id (k_Proto c) send, e_Data = payload_of c sz\<rparr> = IdOf c"
proof -
  let ?n = "address_length (k_Proto c)"
  let ?e = "\<lparr>e_Id = event_id (k_Proto c) send, e_Data = payload_of c sz\<rparr>"
  let ?ends = "drop 8 (payload_of c sz)"
  have pid: "u32_at (payload_of c sz) 0 = k_Pid c"
    using u32_at_append [of "[]" 0] by (simp add: payload_of_def)
  have ends: "?ends = k_RemoteAddress c @ k_LocalAddress c @
      le_bytes 2 (unat (byteswap (k_RemotePort c))) @ le_bytes 2 (unat (byteswap (k_LocalPort c)))"
    by (simp add: payload_of_def)
  have rport: "u16_at ?ends (2 * ?n) = byteswap (k_RemotePort c)"
    unfolding ends using u16_at_append [of "k_RemoteAddress c @ k_LocalAddress c" "2 * ?n"] assms by simp
  have lport: "u16_at ?ends (2 * ?n + 2) = byteswap (k_LocalPort c)"
    unfolding ends
    using u16_at_append [of "k_RemoteAddress c @ k_LocalAddress c @ le_bytes 2 (unat (byteswap (k_RemotePort c)))"
        "2 * ?n + 2" "byteswap (k_LocalPort c)" "[]"] assms by simp
  have v6: "event_v6 (event_id (k_Proto c) send) = (k_Proto c = Tcp6 \<or> k_Proto c = Udp6)"
    and udp: "(42 \<le> event_id (k_Proto c) send) = (k_Proto c = UdpProto \<or> k_Proto c = Udp6)"
    by (cases "k_Proto c"; cases send; simp add: event_v6_def event_id_def)+
  have n: "(if event_v6 (event_id (k_Proto c) send) then 16 else 4) = ?n"
    by (simp add: v6 address_length_def)
  have he: "has_ends ?e" using assms by (simp add: has_ends_def n payload_of_def)
  show ?thesis
    using assms he pid rport lport
    by (auto simp: connection_of_def IdOf_def Let_def v6 udp ends copy_to_def byteswap_byteswap address_length_def empty_id_def)
qed

theorem connection_identities_agree_witness:
  "let c = \<lparr>k_Pid = 4, k_Proto = Tcp, k_LocalAddress = [127, 0, 0, 1], k_RemoteAddress = [10, 0, 0, 2],
            k_LocalPort = 80, k_RemotePort = 5000\<rparr>
   in connection_of \<lparr>e_Id = event_id (k_Proto c) True, e_Data = payload_of c 9\<rparr> = IdOf c"
  unfolding Let_def by (rule connection_identities_agree) (simp_all add: address_length_def)

end
