(* ===== verification/Ipc.thy ===== *)
theory Ipc
  imports Handle_Names
begin

text \<open>
  Which processes talk to which (\<open>WinSys/Ipc.h\<close>, \<open>Ipc.cpp\<close>): the ALPC events matched by message ID, the RPC call
  starts, the links they make and what the interfaces are called. The handlers take the time and the tick
  count; \<open>registry\<close> is what the system's registry names an interface.
\<close>

section \<open>State\<close>

datatype IpcKind = Alpc | Rpc

text \<open>\<open>RpcProtocol\<close> as the provider numbers it: 1 TCP, 2 named pipe, 3 LRPC, 4 HTTP; any other number may come.\<close>

type_synonym RpcProtocol = u32

record IpcLink =
  Kind :: IpcKind
  ClientPid :: u32
  ServerPid :: u32
  Interface :: GUID
  Protocol :: RpcProtocol
  Endpoint :: wstr
  NetworkAddress :: wstr
  l_Count :: u64
  l_FirstSeen :: int
  l_LastSeen :: int

record Counter =
  Count :: u64
  FirstSeen :: int
  LastSeen :: int

definition no_counter :: Counter where
  "no_counter = \<lparr>Count = 0, FirstSeen = 0, LastSeen = 0\<rparr>"

record RpcKey =
  r_ClientPid :: u32
  r_Interface :: GUID
  r_Protocol :: RpcProtocol
  r_Endpoint :: wstr
  r_NetworkAddress :: wstr

record PendingMessage =
  Sender :: u32
  Receiver :: u32
  Client :: u32
  Tick :: u64

definition no_message :: PendingMessage where
  "no_message = \<lparr>Sender = 0, Receiver = 0, Client = 0, Tick = 0\<rparr>"

record IpcTracker =
  m_Alpc :: "(u64, Counter) table"
  m_Rpc :: "(RpcKey, Counter) table"
  m_Endpoints :: "(wstr, u32) table"
  m_Pending :: "(u32, PendingMessage) table"
  m_LastPrune :: u64

definition PendingLifetime :: u64 where "PendingLifetime = 10000"

section \<open>Names\<close>

definition ProtocolName :: "RpcProtocol \<Rightarrow> wstr" where
  "ProtocolName p =
     (if p = 1 then wide ''TCP'' else if p = 2 then wide ''Named Pipe'' else if p = 3 then wide ''LRPC''
      else if p = 4 then wide ''HTTP'' else [])"

definition known_interfaces :: "(GUID \<times> string) list" where
  "known_interfaces =
     [(make_guid 0xe1af8308 0x5d1f 0x11c9 [0x91, 0xa4, 0x08, 0x00, 0x2b, 0x14, 0xa0, 0xfa],
       ''Endpoint Mapper (epmapper)''),
      (make_guid 0x367abb81 0x9844 0x35f1 [0xad, 0x32, 0x98, 0xf0, 0x38, 0x00, 0x10, 0x03],
       ''Service Control Manager (svcctl)''),
      (make_guid 0x12345778 0x1234 0xabcd [0xef, 0x00, 0x01, 0x23, 0x45, 0x67, 0x89, 0xab],
       ''LSA (lsarpc)''),
      (make_guid 0x12345778 0x1234 0xabcd [0xef, 0x00, 0x01, 0x23, 0x45, 0x67, 0x89, 0xac],
       ''SAM (samr)''),
      (make_guid 0x12345678 0x1234 0xabcd [0xef, 0x00, 0x01, 0x23, 0x45, 0x67, 0xcf, 0xfb],
       ''Netlogon''),
      (make_guid 0x12345678 0x1234 0xabcd [0xef, 0x00, 0x01, 0x23, 0x45, 0x67, 0x89, 0xab],
       ''Print Spooler (spoolss)''),
      (make_guid 0x338cd001 0x2244 0x31f1 [0xaa, 0xaa, 0x90, 0x00, 0x38, 0x00, 0x10, 0x03],
       ''Remote Registry (winreg)''),
      (make_guid 0x4b324fc8 0x1670 0x01d3 [0x12, 0x78, 0x5a, 0x47, 0xbf, 0x6e, 0xe1, 0x88],
       ''Server Service (srvsvc)''),
      (make_guid 0x6bffd098 0xa112 0x3610 [0x98, 0x33, 0x46, 0xc3, 0xf8, 0x7e, 0x34, 0x5a],
       ''Workstation Service (wkssvc)''),
      (make_guid 0x86d35949 0x83c9 0x4044 [0xb4, 0x24, 0xdb, 0x36, 0x32, 0x31, 0xfd, 0x0c],
       ''Task Scheduler (ITaskSchedulerService)''),
      (make_guid 0x82273fdc 0xe32a 0x18c3 [0x3f, 0x78, 0x82, 0x79, 0x29, 0xdc, 0x23, 0xea],
       ''Event Log (eventlog)''),
      (make_guid 0xf6beaff7 0x1e19 0x4fbb [0x9f, 0x8f, 0xb8, 0x9e, 0x20, 0x18, 0x33, 0x7c],
       ''Event Log (even6)''),
      (make_guid 0x99fcfec4 0x5260 0x101b [0xbb, 0xcb, 0x00, 0xaa, 0x00, 0x21, 0x34, 0x7a],
       ''DCOM OXID Resolver (IObjectExporter)''),
      (make_guid 0xe60c73e6 0x88f9 0x11cf [0x9a, 0xf1, 0x00, 0x20, 0xaf, 0x6e, 0x72, 0xf4],
       ''COM Local OXID Resolver (ILocalObjectExporter)''),
      (make_guid 0x000001a0 0x0000 0x0000 [0xc0, 0x00, 0x00, 0x00, 0x00, 0x00, 0x00, 0x46],
       ''DCOM Activation (IRemoteSCMActivator)''),
      (make_guid 0x4d9f4ab8 0x7d1c 0x11cf [0x86, 0x1e, 0x00, 0x20, 0xaf, 0x6e, 0x7c, 0x57],
       ''DCOM Activation (IActivation)'')]"

definition GetInterfaceName :: "(GUID \<Rightarrow> wstr option) \<Rightarrow> GUID \<Rightarrow> wstr" where
  "GetInterfaceName registry iface =
     (case map_of known_interfaces iface of
        Some name \<Rightarrow> wide name
      | None \<Rightarrow> (case registry iface of Some name \<Rightarrow> name | None \<Rightarrow> []))"

definition com_interfaces :: "GUID list" where
  "com_interfaces =
     [make_guid 0x00000136 0x0000 0x0000 [0xc0, 0x00, 0x00, 0x00, 0x00, 0x00, 0x00, 0x46],
      make_guid 0x000001a0 0x0000 0x0000 [0xc0, 0x00, 0x00, 0x00, 0x00, 0x00, 0x00, 0x46],
      make_guid 0x4d9f4ab8 0x7d1c 0x11cf [0x86, 0x1e, 0x00, 0x20, 0xaf, 0x6e, 0x7c, 0x57],
      make_guid 0x99fcfec4 0x5260 0x101b [0xbb, 0xcb, 0x00, 0xaa, 0x00, 0x21, 0x34, 0x7a],
      make_guid 0xe60c73e6 0x88f9 0x11cf [0x9a, 0xf1, 0x00, 0x20, 0xaf, 0x6e, 0x72, 0xf4]]"

definition IsComCall :: "IpcLink \<Rightarrow> bool" where
  "IsComCall link \<longleftrightarrow>
     Kind link = Rpc \<and>
     ((Protocol link = 3 \<and> length (Endpoint link) \<ge> 3 + 16 \<and> take 3 (Endpoint link) = wide ''OLE'' \<and>
       list_all iswxdigit (drop 3 (Endpoint link))) \<or>
      Interface link \<in> set com_interfaces)"

definition EndpointKey :: "RpcProtocol \<Rightarrow> wstr \<Rightarrow> wstr" where
  "EndpointKey protocol endpoint = to_wstring (unat protocol) @ wide '':'' @ endpoint"

section \<open>Counting\<close>

definition Add :: "int \<Rightarrow> Counter \<Rightarrow> Counter" where
  "Add now c =
     (let c' = (if Count c = 0 then c\<lparr>FirstSeen := now\<rparr> else c)
      in c'\<lparr>Count := Count c + 1, LastSeen := now\<rparr>)"

definition counter_at :: "('k, Counter) table \<Rightarrow> 'k \<Rightarrow> Counter" where
  "counter_at m k = (case tfind m k of None \<Rightarrow> no_counter | Some c \<Rightarrow> c)"

definition add_to :: "int \<Rightarrow> 'k \<Rightarrow> ('k, Counter) table \<Rightarrow> ('k, Counter) table" where
  "add_to now k m = tset k (Add now (counter_at m k)) m"

text \<open>\<open>((uint64_t)client << 32) | server\<close>\<close>

definition pair_of :: "u32 \<Rightarrow> u32 \<Rightarrow> u64" where
  "pair_of client server = push_bit 32 (ucast client) OR ucast server"

record AlpcEvent =
  a_Opcode :: byte
  a_Pid :: u32
  a_Data :: bytes

definition AlpcSend :: byte where "AlpcSend = 33"
definition AlpcReceive :: byte where "AlpcReceive = 34"
definition AlpcWaitForReply :: byte where "AlpcWaitForReply = 35"

definition alpc_counts :: "AlpcEvent \<Rightarrow> bool" where
  "alpc_counts e \<longleftrightarrow>
     \<not> (a_Opcode e < AlpcSend \<or> a_Opcode e > AlpcWaitForReply \<or> length (a_Data e) < 4 \<or> a_Pid e = 0 \<or> a_Pid e = - 1)"

text \<open>The message of an event: a new one, or one too old, starts over.\<close>

definition message_at :: "IpcTracker \<Rightarrow> u32 \<Rightarrow> u64 \<Rightarrow> PendingMessage" where
  "message_at s i tick =
     (let m = (case tfind (m_Pending s) i of None \<Rightarrow> no_message | Some m \<Rightarrow> m)
      in (if tick - Tick m > PendingLifetime then no_message else m)\<lparr>Tick := tick\<rparr>)"

definition set_side :: "AlpcEvent \<Rightarrow> PendingMessage \<Rightarrow> PendingMessage" where
  "set_side e m =
     (if a_Opcode e = AlpcSend then m\<lparr>Sender := a_Pid e\<rparr>
      else if a_Opcode e = AlpcReceive then m\<lparr>Receiver := a_Pid e\<rparr>
      else m\<lparr>Client := a_Pid e\<rparr>)"

text \<open>A request or its reply with both sides known is counted for the client and the server.\<close>

definition match_message :: "u32 \<Rightarrow> PendingMessage \<Rightarrow> int \<Rightarrow> IpcTracker \<Rightarrow> IpcTracker" where
  "match_message i m now s =
     (if Sender m \<noteq> 0 \<and> Receiver m \<noteq> 0
      then
        (let s = s\<lparr>m_Pending := tset i (m\<lparr>Sender := 0, Receiver := 0\<rparr>) (m_Pending s)\<rparr>
         in if Sender m \<noteq> Receiver m
            then
              (let client = (if Client m = Receiver m then Receiver m else Sender m);
                   server = (if client = Sender m then Receiver m else Sender m)
               in s\<lparr>m_Alpc := add_to now (pair_of client server) (m_Alpc s)\<rparr>)
            else s)
      else s)"

definition prune_pending :: "u64 \<Rightarrow> IpcTracker \<Rightarrow> IpcTracker" where
  "prune_pending tick s =
     (if tick - m_LastPrune s > 30000
      then s\<lparr>m_LastPrune := tick, m_Pending := terase_if (\<lambda>p. tick - Tick (snd p) > PendingLifetime) (m_Pending s)\<rparr>
      else s)"

definition OnAlpc :: "AlpcEvent \<Rightarrow> int \<Rightarrow> u64 \<Rightarrow> IpcTracker \<Rightarrow> IpcTracker" where
  "OnAlpc e now tick s =
     (if \<not> alpc_counts e then s
      else
        (let i = u32_at (a_Data e) 0; m = set_side e (message_at s i tick);
             s = s\<lparr>m_Pending := tset i m (m_Pending s)\<rparr>
         in if a_Opcode e = AlpcWaitForReply then s
            else prune_pending tick (match_message i m now s)))"

section \<open>RPC\<close>

record RpcEvent =
  p_Id :: u16
  p_Pid :: u32
  p_Data :: bytes

text \<open>The \<open>readString\<close> lambda: a string and the offset after its terminator.\<close>

definition read_string :: "bytes \<Rightarrow> nat \<Rightarrow> wstr \<times> nat" where
  "read_string d offset =
     (if offset \<ge> length d then ([], offset)
      else
        (let s = until_nul ((length d - offset) div 2) (units (drop offset d))
         in (s, offset + (length s + 1) * 2)))"

definition OnRpc :: "RpcEvent \<Rightarrow> int \<Rightarrow> IpcTracker \<Rightarrow> IpcTracker" where
  "OnRpc e now s =
     (let d = p_Data e
      in if (p_Id e \<noteq> 5 \<and> p_Id e \<noteq> 6) \<or> length d < 24 then s
         else
           (let protocol = u32_at d 20;
                (address, offset) = read_string d 24; (endpoint, _) = read_string d offset;
                address = (if address = wide ''NULL'' then [] else address)
            in if p_Id e = 6
               then s\<lparr>m_Endpoints := tset (EndpointKey protocol endpoint) (p_Pid e) (m_Endpoints s)\<rparr>
               else s\<lparr>m_Rpc := add_to now
                        \<lparr>r_ClientPid = p_Pid e, r_Interface = guid_at d, r_Protocol = protocol,
                         r_Endpoint = endpoint, r_NetworkAddress = address\<rparr> (m_Rpc s)\<rparr>))"

section \<open>Links\<close>

definition no_guid :: GUID where "no_guid = make_guid 0 0 0 (replicate 8 0)"

definition alpc_link :: "u64 \<times> Counter \<Rightarrow> IpcLink" where
  "alpc_link e =
     (let (pair, c) = e
      in \<lparr>Kind = Alpc, ClientPid = ucast (drop_bit 32 pair), ServerPid = ucast pair, Interface = no_guid, Protocol = 0,
          Endpoint = [], NetworkAddress = [], l_Count = Count c, l_FirstSeen = FirstSeen c, l_LastSeen = LastSeen c\<rparr>)"

definition rpc_link :: "IpcTracker \<Rightarrow> RpcKey \<times> Counter \<Rightarrow> IpcLink" where
  "rpc_link s e =
     (let (k, c) = e;
          server = (if r_NetworkAddress k = []
                    then (case tfind (m_Endpoints s) (EndpointKey (r_Protocol k) (r_Endpoint k)) of
                            None \<Rightarrow> 0 | Some pid \<Rightarrow> pid)
                    else 0)
      in \<lparr>Kind = Rpc, ClientPid = r_ClientPid k, ServerPid = server, Interface = r_Interface k,
          Protocol = r_Protocol k, Endpoint = r_Endpoint k, NetworkAddress = r_NetworkAddress k,
          l_Count = Count c, l_FirstSeen = FirstSeen c, l_LastSeen = LastSeen c\<rparr>)"

definition GetLinks :: "IpcTracker \<Rightarrow> IpcLink list" where
  "GetLinks s = map alpc_link (m_Alpc s) @ map (rpc_link s) (m_Rpc s)"

definition RemoveProcess :: "u32 \<Rightarrow> IpcTracker \<Rightarrow> IpcTracker" where
  "RemoveProcess pid s =
     s\<lparr>m_Alpc := terase_if (\<lambda>a. ucast (drop_bit 32 (fst a)) = pid \<or> ucast (fst a) = pid) (m_Alpc s),
       m_Rpc := terase_if (\<lambda>r. r_ClientPid (fst r) = pid) (m_Rpc s),
       m_Endpoints := terase_if (\<lambda>e. snd e = pid) (m_Endpoints s)\<rparr>"

section \<open>Properties\<close>

lemma pair_of_sides:
  "ucast (drop_bit 32 (pair_of client server)) = client \<and> (ucast (pair_of client server) :: u32) = server"
proof -
  have high: "\<not> bit server (32 + n)" for n using bit_imp_le_length [of server "32 + n"] by auto
  show ?thesis
    by (auto intro!: bit_word_eqI simp: pair_of_def bit_ucast_iff bit_drop_bit_eq bit_or_iff bit_push_bit_iff high)
qed

definition about :: "u32 \<Rightarrow> IpcLink \<Rightarrow> bool" where
  "about pid l \<longleftrightarrow> ClientPid l = pid \<or> ServerPid l = pid"

lemma find_in_rest: "tfind (terase_if P m) k = Some v \<Longrightarrow> \<not> P (k, v)"
  by (auto simp: terase_if_def dest: tfind_in_set)

lemma rpc_link_removed:
  assumes "pid \<noteq> 0" and "e \<in> set (m_Rpc (RemoveProcess pid s))"
  shows "\<not> about pid (rpc_link (RemoveProcess pid s) e)"
proof -
  obtain k c where e: "e = (k, c)" by force
  have client: "r_ClientPid k \<noteq> pid" using assms(2) by (auto simp: e RemoveProcess_def terase_if_def)
  have server: "v \<noteq> pid" if "tfind (m_Endpoints (RemoveProcess pid s)) x = Some v" for x v
    using find_in_rest [of "\<lambda>e. snd e = pid" "m_Endpoints s" x v] that by (simp add: RemoveProcess_def)
  show ?thesis
    using client server assms(1) by (auto simp: e about_def rpc_link_def Let_def split: option.splits)
qed

text \<open>Once a process was removed, no link names it, as a client or as a server, of either kind.\<close>

theorem removed_process_has_no_links:
  assumes "pid \<noteq> 0"
  shows "\<not> list_ex (about pid) (GetLinks (RemoveProcess pid s))"
proof -
  have "\<not> about pid (alpc_link e)" if "e \<in> set (m_Alpc (RemoveProcess pid s))" for e
    using that by (auto simp: RemoveProcess_def terase_if_def about_def alpc_link_def split: prod.splits)
  then show ?thesis
    using rpc_link_removed [OF assms] by (auto simp: list_ex_iff GetLinks_def)
qed

definition one_link :: IpcTracker where
  "one_link = \<lparr>m_Alpc = [(pair_of 4 8, Add 1 no_counter), (pair_of 12 16, Add 1 no_counter)], m_Rpc = [],
     m_Endpoints = [], m_Pending = [], m_LastPrune = 0\<rparr>"

theorem removed_process_has_no_links_witness:
  "(8 :: u32) \<noteq> 0 \<and> \<not> list_ex (about 8) (GetLinks (RemoveProcess 8 one_link))"
  using removed_process_has_no_links [of 8 one_link] by simp

section \<open>A request and its reply\<close>

definition alpc :: "byte \<Rightarrow> u32 \<Rightarrow> u32 \<Rightarrow> AlpcEvent" where
  "alpc opcode pid i = \<lparr>a_Opcode = opcode, a_Pid = pid, a_Data = le_bytes 4 (unat i)\<rparr>"

definition complete :: "AlpcEvent \<Rightarrow> PendingMessage \<Rightarrow> bool" where
  "complete e m \<longleftrightarrow> a_Opcode e \<noteq> AlpcWaitForReply \<and> Sender m \<noteq> 0 \<and> Receiver m \<noteq> 0"

lemma message_at_stored: "tfind (m_Pending s) i = Some m \<Longrightarrow> Tick m = tick \<Longrightarrow> message_at s i tick = m"
  by (simp add: message_at_def Let_def)

lemma prune_pending_keeps:
  assumes "table_ok (m_Pending s)" and "tfind (m_Pending s) i = Some m" and "Tick m = tick"
  shows "table_ok (m_Pending (prune_pending tick s)) \<and> tfind (m_Pending (prune_pending tick s)) i = Some m \<and>
    m_Alpc (prune_pending tick s) = m_Alpc s"
  using assms by (simp add: prune_pending_def tfind_terase_if)

definition alpc_client :: "PendingMessage \<Rightarrow> u32" where
  "alpc_client m = (if Client m = Receiver m then Receiver m else Sender m)"

lemma alpc_step:
  assumes ok: "table_ok (m_Pending s)" and op: "opcode \<in> {AlpcSend, AlpcReceive, AlpcWaitForReply}"
    and pid: "pid \<noteq> 0" "pid \<noteq> - 1"
    and m: "m = set_side (alpc opcode pid i) (message_at s i tick)"
  shows "let s' = OnAlpc (alpc opcode pid i) now tick s; done = complete (alpc opcode pid i) m
    in table_ok (m_Pending s') \<and>
       message_at s' i tick = (if done then m\<lparr>Sender := 0, Receiver := 0\<rparr> else m) \<and>
       m_Alpc s' =
         (if done \<and> Sender m \<noteq> Receiver m
          then add_to now (pair_of (alpc_client m) (if alpc_client m = Sender m then Receiver m else Sender m)) (m_Alpc s)
          else m_Alpc s)"
proof -
  let ?e = "alpc opcode pid i"
  have counts: "alpc_counts ?e"
    using op pid by (auto simp: alpc_counts_def alpc_def AlpcSend_def AlpcReceive_def AlpcWaitForReply_def)
  have i: "u32_at (a_Data ?e) 0 = i" by (simp add: alpc_def u32_at_le_bytes)
  have tick: "Tick m = tick" by (simp add: m set_side_def message_at_def Let_def)
  define s1 where "s1 = s\<lparr>m_Pending := tset i m (m_Pending s)\<rparr>"
  have step: "OnAlpc ?e now tick s =
      (if opcode = AlpcWaitForReply then s1 else prune_pending tick (match_message i m now s1))"
    using counts i by (simp add: OnAlpc_def Let_def m s1_def alpc_def)
  let ?m = "if complete ?e m then m\<lparr>Sender := 0, Receiver := 0\<rparr> else m"
  show ?thesis
  proof (cases "opcode = AlpcWaitForReply")
    case True
    then have "\<not> complete ?e m" by (simp add: complete_def alpc_def)
    moreover have "OnAlpc ?e now tick s = s1" using step True by simp
    moreover have "message_at s1 i tick = m"
      by (rule message_at_stored) (simp_all add: s1_def tick)
    ultimately show ?thesis using ok by (simp add: s1_def Let_def)
  next
    case False
    let ?s2 = "match_message i m now s1"
    have s2: "table_ok (m_Pending ?s2)" "tfind (m_Pending ?s2) i = Some ?m" "Tick ?m = tick"
      using ok False tick by (auto simp: match_message_def complete_def alpc_def s1_def Let_def)
    have alpc: "m_Alpc ?s2 = (if complete ?e m \<and> Sender m \<noteq> Receiver m
        then add_to now (pair_of (alpc_client m) (if alpc_client m = Sender m then Receiver m else Sender m)) (m_Alpc s)
        else m_Alpc s)"
      using False by (simp add: match_message_def complete_def alpc_def s1_def alpc_client_def Let_def)
    have kept: "table_ok (m_Pending (prune_pending tick ?s2)) \<and> tfind (m_Pending (prune_pending tick ?s2)) i = Some ?m \<and>
        m_Alpc (prune_pending tick ?s2) = m_Alpc ?s2"
      by (rule prune_pending_keeps [OF s2])
    then have "message_at (prune_pending tick ?s2) i tick = ?m"
      using s2(3) by (intro message_at_stored) auto
    then show ?thesis using kept alpc False by (simp add: step Let_def)
  qed
qed

text \<open>The events of a call over ALPC: the request, the client's wait for the reply, and the reply.\<close>

definition call_events :: "u32 \<Rightarrow> u32 \<Rightarrow> u32 \<Rightarrow> AlpcEvent list" where
  "call_events i client server =
     [alpc AlpcSend client i, alpc AlpcWaitForReply client i, alpc AlpcReceive server i,
      alpc AlpcSend server i, alpc AlpcReceive client i]"



end
