(* ===== verification/Wsl.thy ===== *)
theory Wsl
  imports Handle_Names Complex_Main
begin

text \<open>
  The processes of a WSL distribution (\<open>WinSys/Wsl.cpp\<close>): the protocol of the helper that runs in it (its start
  and its frames, parsed line by line), the buffering of its output as it arrives, and what \<open>wsl.exe\<close> prints of
  the distributions that run. Two conversions are parameters: \<open>utf8\<close> is \<open>MultiByteToWideChar\<close> with \<open>CP_UTF8\<close>, and
  \<open>strtod\<close> the C library's (a \<open>double\<close> is a real here and only stored). \<open>string_view\<close>s are byte lists.
\<close>

section \<open>Lines, fields and numbers\<close>

definition FromUtf8 :: "(bytes \<Rightarrow> wstr) \<Rightarrow> bytes \<Rightarrow> wstr" where
  "FromUtf8 utf8 s = (if s = [] then [] else utf8 s)"

definition starts_with :: "'a list \<Rightarrow> 'a list \<Rightarrow> bool" where
  "starts_with p s \<longleftrightarrow> take (length p) s = p"

definition ends_with :: "'a list \<Rightarrow> 'a list \<Rightarrow> bool" where
  "ends_with p s \<longleftrightarrow> starts_with (rev p) (rev s)"

text \<open>\<open>find\<close>: where a text first is; \<open>rfind\<close> of a character.\<close>

fun find_sub :: "'a list \<Rightarrow> 'a list \<Rightarrow> nat option" where
  "find_sub p [] = (if p = [] then Some 0 else None)"
| "find_sub p (c # s) = (if starts_with p (c # s) then Some 0 else map_option Suc (find_sub p s))"

definition rfind :: "'a \<Rightarrow> 'a list \<Rightarrow> nat option" where
  "rfind c s = map_option (\<lambda>i. length s - 1 - i) (find_sub [c] (rev s))"

definition strip_cr :: "bytes \<Rightarrow> bytes" where
  "strip_cr s = (if s \<noteq> [] \<and> last s = 0x0D then butlast s else s)"

definition not_lf :: "byte \<Rightarrow> bool" where
  "not_lf c \<longleftrightarrow> c \<noteq> 0x0A"

text \<open>The next line and the rest after it.\<close>

definition NextLine :: "bytes \<Rightarrow> (bytes \<times> bytes) option" where
  "NextLine s =
     (if s = [] then None
      else Some (strip_cr (takeWhile not_lf s), drop (Suc (length (takeWhile not_lf s))) s))"

text \<open>The lines a loop over \<open>NextLine\<close> sees.\<close>

lemma NextLine_shorter: "NextLine s = Some (l, r) \<Longrightarrow> length r < length s"
  by (auto simp: NextLine_def split: if_splits)

function text_lines :: "bytes \<Rightarrow> bytes list" where
  "text_lines s = (case NextLine s of None \<Rightarrow> [] | Some (l, r) \<Rightarrow> l # text_lines r)"
  by pat_completeness auto
termination
  by (relation "measure length") (auto dest: NextLine_shorter)

declare text_lines.simps [simp del]

text \<open>\<open>ToNumber\<close>: the decimal digits at the start, in 64 bits. A signed \<open>char\<close> above 0x7F is below '0'.\<close>

definition digit :: "byte \<Rightarrow> bool" where
  "digit c \<longleftrightarrow> 0x30 \<le> c \<and> c \<le> 0x39"

fun number_from :: "u64 \<Rightarrow> bytes \<Rightarrow> u64" where
  "number_from v [] = v"
| "number_from v (c # s) = (if digit c then number_from (v * 10 + (ucast c - 0x30)) s else v)"

definition ToNumber :: "bytes \<Rightarrow> u64" where
  "ToNumber s = number_from 0 s"

definition ToNumber32 :: "bytes \<Rightarrow> u32" where
  "ToNumber32 s = ucast (ToNumber s)"

definition blank :: "byte \<Rightarrow> bool" where
  "blank c \<longleftrightarrow> c = 0x20 \<or> c = 0x09"

definition inked :: "byte \<Rightarrow> bool" where
  "inked c \<longleftrightarrow> \<not> blank c"

text \<open>The space separated fields: blanks are skipped, then a field runs to the next blank.\<close>

function Split :: "bytes \<Rightarrow> bytes list" where
  "Split s =
     (let t = dropWhile blank s
      in if t = [] then [] else takeWhile inked t # Split (dropWhile inked t))"
  by pat_completeness auto
termination
proof (relation "measure length", goal_cases)
  case (2 s t)
  then have "t \<noteq> []" and "inked (hd t)" by (auto simp: inked_def hd_dropWhile)
  then have "length (dropWhile inked t) < length t"
    by (cases t) (auto simp: le_imp_less_Suc length_dropWhile_le)
  with 2 show ?case using length_dropWhile_le [of blank s] by simp
qed simp

declare Split.simps [simp del]

text \<open>The pid in \<open>/proc/<pid>/...\<close>\<close>

definition PidOfPath :: "bytes \<Rightarrow> u32" where
  "PidOfPath path = (if starts_with (narrow ''/proc/'') path then ToNumber32 (drop 6 path) else 0)"

definition DecodeWslOutput :: "(bytes \<Rightarrow> wstr) \<Rightarrow> bytes \<Rightarrow> wstr" where
  "DecodeWslOutput utf8 out =
     (if length out \<ge> 2 \<and> length out mod 2 = 0 \<and> out ! 1 = 0 then units out else FromUtf8 utf8 out)"

section \<open>The protocol\<close>

record WslProcess =
  Pid :: u32
  ParentPid :: u32
  Name :: wstr
  State :: "16 word"
  Uid :: u32
  User :: wstr
  UserTicks :: u64
  SystemTicks :: u64
  Threads :: u32
  StartTicks :: u64
  VirtualBytes :: u64
  ResidentBytes :: u64
  CommandLine :: wstr

record WslThread =
  thread_Tid :: u32
  thread_Pid :: u32
  thread_Name :: wstr
  thread_State :: "16 word"
  thread_UserTicks :: u64
  thread_SystemTicks :: u64
  thread_StartTicks :: u64

record WslSystem =
  ClockTicks :: u32
  Processors :: u32
  PageSize :: u32
  HelperPid :: u32
  Users :: "(u32, wstr) table"

record WslFrame =
  UptimeSeconds :: real
  CpuTotalTicks :: u64
  CpuIdleTicks :: u64
  MemTotal :: u64
  MemAvailable :: u64
  ReadTime :: int
  Processes :: "WslProcess list"
  HasThreads :: bool
  frame_Threads :: "WslThread list"

definition no_system :: WslSystem where
  "no_system = \<lparr>ClockTicks = 100, Processors = 1, PageSize = 4096, HelperPid = 0, Users = []\<rparr>"

definition no_frame :: WslFrame where
  "no_frame = \<lparr>UptimeSeconds = 0, CpuTotalTicks = 0, CpuIdleTicks = 0, MemTotal = 0, MemAvailable = 0, ReadTime = 0,
     Processes = [], HasThreads = False, frame_Threads = []\<rparr>"

subsection \<open>The start\<close>

text \<open>A line \<open>#K ...\<close>, with the least values; nothing with fewer than four numbers.\<close>

definition system_line :: "bytes \<Rightarrow> WslSystem \<Rightarrow> WslSystem option" where
  "system_line line system =
     (let f = Split (drop 3 line)
      in if length f < 4 then None
         else Some (system\<lparr>ClockTicks := max 1 (ToNumber32 (f ! 0)), Processors := max 1 (ToNumber32 (f ! 1)),
                PageSize := max 512 (ToNumber32 (f ! 2)), HelperPid := ToNumber32 (f ! 3)\<rparr>))"

text \<open>A line of \<open>/etc/passwd\<close>: \<open>name:password:uid:...\<close>\<close>

definition cut_at :: "'a \<Rightarrow> 'a list \<Rightarrow> ('a list \<times> 'a list) option" where
  "cut_at c s = map_option (\<lambda>i. (take i s, drop (Suc i) s)) (find_sub [c] s)"

definition user_line :: "(bytes \<Rightarrow> wstr) \<Rightarrow> bytes \<Rightarrow> WslSystem \<Rightarrow> WslSystem" where
  "user_line utf8 line system =
     (case cut_at 0x3A line of
        None \<Rightarrow> system
      | Some (name, rest) \<Rightarrow>
          (case cut_at 0x3A rest of
             None \<Rightarrow> system
           | Some (_, uid) \<Rightarrow> system\<lparr>Users := tset (ToNumber32 uid) (FromUtf8 utf8 name) (Users system)\<rparr>))"

fun header_lines :: "(bytes \<Rightarrow> wstr) \<Rightarrow> bytes list \<Rightarrow> bool \<Rightarrow> bool \<Rightarrow> WslSystem \<Rightarrow> WslSystem option" where
  "header_lines utf8 [] started users system = None"
| "header_lines utf8 (line # rest) started users system =
     (if starts_with (narrow ''#K '') line then
        (case system_line line system of None \<Rightarrow> None | Some s \<Rightarrow> header_lines utf8 rest True users s)
      else if line = narrow ''#P'' then header_lines utf8 rest started True system
      else if line = narrow ''#R'' then (if started then Some system else None)
      else if users then header_lines utf8 rest started users (user_line utf8 line system)
      else header_lines utf8 rest started users system)"

definition ParseHeader :: "(bytes \<Rightarrow> wstr) \<Rightarrow> bytes \<Rightarrow> WslSystem \<Rightarrow> WslSystem option" where
  "ParseHeader utf8 s system = header_lines utf8 (text_lines s) False False system"

subsection \<open>A process's line\<close>

text \<open>\<open>pid (comm) state ppid ...\<close>: the name may hold spaces and parentheses and ends at the last ')'.\<close>

definition stat_process :: "(bytes \<Rightarrow> wstr) \<Rightarrow> u32 \<Rightarrow> bytes \<Rightarrow> bytes list \<Rightarrow> u32 \<Rightarrow> WslProcess" where
  "stat_process utf8 pid name f pageSize =
     \<lparr>Pid = pid, ParentPid = ToNumber32 (f ! 1), Name = FromUtf8 utf8 name, State = scast (f ! 0 ! 0),
      Uid = 0xFFFFFFFF, User = [], UserTicks = ToNumber (f ! 11), SystemTicks = ToNumber (f ! 12),
      Threads = ToNumber32 (f ! 17), StartTicks = ToNumber (f ! 19), VirtualBytes = ToNumber (f ! 20),
      ResidentBytes = ToNumber (f ! 21) * ucast pageSize, CommandLine = []\<rparr>"

definition ParseStat :: "(bytes \<Rightarrow> wstr) \<Rightarrow> bytes \<Rightarrow> u32 \<Rightarrow> WslProcess option" where
  "ParseStat utf8 line pageSize =
     (case (find_sub (narrow '' ('') line, rfind 0x29 line) of
        (Some first, Some final) \<Rightarrow>
          if final < first then None
          else let pid = ToNumber32 (take first line); f = Split (drop (final + 1) line)
               in if pid = 0 then None
                  else if length f < 22 then None
                  else Some (stat_process utf8 pid (take (final - first - 2) (drop (first + 2) line)) f pageSize)
      | _ \<Rightarrow> None)"


subsection \<open>A frame\<close>

datatype Section = NoSection | Header | Stat | UidSection | Cmdline | Thread

text \<open>The variables of \<open>ParseFrame\<close> while it reads the lines.\<close>

record FrameState =
  frame :: WslFrame
  uids :: "(u32, u32) table"
  commandLines :: "(u32, wstr) table"
  section_now :: Section
  ended :: bool
  header :: bool
  cmdlinePid :: u32
  threadPid :: u32
  cmdline :: bytes

definition frame_start :: FrameState where
  "frame_start = \<lparr>frame = no_frame, uids = [], commandLines = [], section_now = NoSection, ended = False,
     header = False, cmdlinePid = 0, threadPid = 0, cmdline = []\<rparr>"

text \<open>The \<open>flushCmdline\<close> lambda: the command line without the blanks and line ends at its end.\<close>

definition strip_end :: "'a set \<Rightarrow> 'a list \<Rightarrow> 'a list" where
  "strip_end cs s = rev (dropWhile (\<lambda>c. c \<in> cs) (rev s))"

definition flushCmdline :: "(bytes \<Rightarrow> wstr) \<Rightarrow> FrameState \<Rightarrow> FrameState" where
  "flushCmdline utf8 st =
     (if cmdlinePid st \<noteq> 0
      then st\<lparr>commandLines := tset (cmdlinePid st) (FromUtf8 utf8 (strip_end {0x20, 0x0A} (cmdline st))) (commandLines st),
              cmdlinePid := 0, cmdline := []\<rparr>
      else st\<lparr>cmdlinePid := 0, cmdline := []\<rparr>)"

text \<open>The markers \<open>#S\<close>, \<open>#U\<close>, \<open>#C\<close>, \<open>#T\<close> and \<open>#E\<close>.\<close>

definition marker :: "bytes \<Rightarrow> Section option" where
  "marker line =
     (if line = narrow ''#S'' then Some Stat else if line = narrow ''#U'' then Some UidSection
      else if line = narrow ''#C'' then Some Cmdline else if line = narrow ''#T'' then Some Thread
      else if line = narrow ''#E'' then Some NoSection else None)"

definition enter_section :: "(bytes \<Rightarrow> wstr) \<Rightarrow> bytes \<Rightarrow> Section \<Rightarrow> FrameState \<Rightarrow> FrameState" where
  "enter_section utf8 line next_section st =
     (let st = (if section_now st = Cmdline then flushCmdline utf8 st else st);
          st = st\<lparr>section_now := next_section\<rparr>;
          st = (if line = narrow ''#T'' then st\<lparr>frame := (frame st)\<lparr>HasThreads := True\<rparr>\<rparr> else st)
      in if line = narrow ''#E'' then st\<lparr>ended := True\<rparr> else st)"

text \<open>\<open>cpu  user nice system idle iowait irq softirq steal\<close>: the first eight add up, the fourth and fifth are idle.\<close>

fun cpu_fields :: "nat \<Rightarrow> bytes list \<Rightarrow> WslFrame \<Rightarrow> WslFrame" where
  "cpu_fields i [] fr = fr"
| "cpu_fields i (f # fs) fr =
     (if i \<le> 8 then
        let v = ToNumber f; fr = fr\<lparr>CpuTotalTicks := CpuTotalTicks fr + v\<rparr>;
            fr = (if i = 4 \<or> i = 5 then fr\<lparr>CpuIdleTicks := CpuIdleTicks fr + v\<rparr> else fr)
        in cpu_fields (Suc i) fs fr
      else fr)"

definition header_line :: "(bytes \<Rightarrow> real) \<Rightarrow> bytes \<Rightarrow> WslFrame \<Rightarrow> WslFrame" where
  "header_line strtod line fr =
     (let f = Split line
      in if starts_with (narrow ''cpu '') line then cpu_fields 1 (tl f) fr
         else if starts_with (narrow ''MemTotal:'') line \<and> length f \<ge> 2 then fr\<lparr>MemTotal := ToNumber (f ! 1) * 1024\<rparr>
         else if starts_with (narrow ''MemAvailable:'') line \<and> length f \<ge> 2 then fr\<lparr>MemAvailable := ToNumber (f ! 1) * 1024\<rparr>
         else if f \<noteq> [] \<and> UptimeSeconds fr = 0 then fr\<lparr>UptimeSeconds := strtod (f ! 0)\<rparr>
         else fr)"

definition uid_line :: "bytes \<Rightarrow> (u32, u32) table \<Rightarrow> (u32, u32) table" where
  "uid_line line m =
     (case find_sub (narrow '':Uid:'') line of
        None \<Rightarrow> m
      | Some colon \<Rightarrow>
          (case Split (drop (colon + 5) line) of
             [] \<Rightarrow> m
           | f # _ \<Rightarrow> tset (PidOfPath line) (ToNumber32 f) m))"

text \<open>\<open>==> /proc/123/... <==\<close>, as \<open>head\<close> puts it before a file.\<close>

definition file_header :: "bytes \<Rightarrow> bool" where
  "file_header line \<longleftrightarrow> starts_with (narrow ''==> /proc/'') line \<and> ends_with (narrow '' <=='') line"

definition cmdline_line :: "(bytes \<Rightarrow> wstr) \<Rightarrow> bytes \<Rightarrow> FrameState \<Rightarrow> FrameState" where
  "cmdline_line utf8 line st =
     (if file_header line then (flushCmdline utf8 st)\<lparr>cmdlinePid := PidOfPath (drop 4 line)\<rparr>
      else if cmdlinePid st \<noteq> 0
      then st\<lparr>cmdline := (if cmdline st \<noteq> [] then cmdline st @ [0x20] else cmdline st) @ line\<rparr>
      else st)"

definition thread_of :: "u32 \<Rightarrow> WslProcess \<Rightarrow> WslThread" where
  "thread_of pid t =
     \<lparr>thread_Tid = Pid t, thread_Pid = pid, thread_Name = Name t, thread_State = State t,
      thread_UserTicks = UserTicks t, thread_SystemTicks = SystemTicks t, thread_StartTicks = StartTicks t\<rparr>"

definition thread_line :: "(bytes \<Rightarrow> wstr) \<Rightarrow> u32 \<Rightarrow> bytes \<Rightarrow> FrameState \<Rightarrow> FrameState" where
  "thread_line utf8 pageSize line st =
     (if file_header line then st\<lparr>threadPid := PidOfPath (drop 4 line)\<rparr>
      else if threadPid st \<noteq> 0
      then let st' = (case ParseStat utf8 line pageSize of
                        None \<Rightarrow> st
                      | Some t \<Rightarrow> st\<lparr>frame := (frame st)\<lparr>frame_Threads := frame_Threads (frame st) @ [thread_of (threadPid st) t]\<rparr>\<rparr>)
           in st'\<lparr>threadPid := 0\<rparr>
      else st)"

definition section_line ::
  "(bytes \<Rightarrow> wstr) \<Rightarrow> (bytes \<Rightarrow> real) \<Rightarrow> u32 \<Rightarrow> bytes \<Rightarrow> FrameState \<Rightarrow> FrameState" where
  "section_line utf8 strtod pageSize line st =
     (case section_now st of
        NoSection \<Rightarrow> st
      | Header \<Rightarrow> st\<lparr>frame := header_line strtod line (frame st)\<rparr>
      | Stat \<Rightarrow>
          (case ParseStat utf8 line pageSize of
             None \<Rightarrow> st
           | Some p \<Rightarrow> st\<lparr>frame := (frame st)\<lparr>Processes := Processes (frame st) @ [p]\<rparr>\<rparr>)
      | UidSection \<Rightarrow> st\<lparr>uids := uid_line line (uids st)\<rparr>
      | Cmdline \<Rightarrow> cmdline_line utf8 line st
      | Thread \<Rightarrow> thread_line utf8 pageSize line st)"

text \<open>The loop over the lines, which ends at \<open>#E\<close>.\<close>

fun frame_lines ::
  "(bytes \<Rightarrow> wstr) \<Rightarrow> (bytes \<Rightarrow> real) \<Rightarrow> u32 \<Rightarrow> bytes list \<Rightarrow> FrameState \<Rightarrow> FrameState" where
  "frame_lines utf8 strtod pageSize [] st = st"
| "frame_lines utf8 strtod pageSize (line # rest) st =
     (if line = narrow ''#F''
      then frame_lines utf8 strtod pageSize rest (st\<lparr>section_now := Header, header := True\<rparr>)
      else case marker line of
             Some next_section \<Rightarrow>
               (let st' = enter_section utf8 line next_section st
                in if ended st' then st' else frame_lines utf8 strtod pageSize rest st')
           | None \<Rightarrow> frame_lines utf8 strtod pageSize rest (section_line utf8 strtod pageSize line st))"

text \<open>The helper, what it runs and its session's processes, which a frame leaves out.\<close>

definition find_pid :: "u32 \<Rightarrow> WslProcess list \<Rightarrow> WslProcess option" where
  "find_pid pid ps = find (\<lambda>p. Pid p = pid) ps"

definition session_pids :: "u32 \<Rightarrow> WslProcess list \<Rightarrow> u32 list" where
  "session_pids helperPid ps =
     (case find_pid helperPid ps of
        None \<Rightarrow> []
      | Some helper \<Rightarrow>
          (case find_pid (ParentPid helper) ps of
             None \<Rightarrow> []
           | Some relay \<Rightarrow>
               if starts_with (wide ''Relay('') (Name relay) then
                 Pid relay #
                 (case find_pid (ParentPid relay) ps of
                    None \<Rightarrow> []
                  | Some leader \<Rightarrow> if Name leader = wide ''SessionLeader'' then [Pid leader] else [])
               else []))"

definition hidden :: "u32 \<Rightarrow> WslProcess list \<Rightarrow> u32 list" where
  "hidden helperPid ps =
     (if helperPid = 0 then []
      else helperPid # map Pid (filter (\<lambda>p. ParentPid p = helperPid) ps) @ session_pids helperPid ps)"

text \<open>The user and the command line of a process; the command line moves out of the table (its entry is empty then).\<close>

definition set_user :: "WslSystem \<Rightarrow> (u32, u32) table \<Rightarrow> WslProcess \<Rightarrow> WslProcess" where
  "set_user sys ids p =
     (case tfind ids (Pid p) of
        None \<Rightarrow> p
      | Some uid \<Rightarrow>
          p\<lparr>Uid := uid, User := (case tfind (Users sys) uid of Some user \<Rightarrow> user | None \<Rightarrow> to_wstring (unat uid))\<rparr>)"

fun set_owners ::
  "WslSystem \<Rightarrow> (u32, u32) table \<Rightarrow> (u32, wstr) table \<Rightarrow> WslProcess list \<Rightarrow> WslProcess list" where
  "set_owners sys ids cmds [] = []"
| "set_owners sys ids cmds (p # ps) =
     (let p' = set_user sys ids p
      in case tfind cmds (Pid p) of
           None \<Rightarrow> p' # set_owners sys ids cmds ps
         | Some s \<Rightarrow> p'\<lparr>CommandLine := s\<rparr> # set_owners sys ids (tset (Pid p) [] cmds) ps)"

definition finish_frame :: "WslSystem \<Rightarrow> FrameState \<Rightarrow> WslFrame" where
  "finish_frame sys st =
     (let fr = frame st; gone = hidden (HelperPid sys) (Processes fr)
      in fr\<lparr>Processes := set_owners sys (uids st) (commandLines st) (filter (\<lambda>p. Pid p \<notin> set gone) (Processes fr)),
            frame_Threads := filter (\<lambda>t. thread_Pid t \<notin> set gone) (frame_Threads fr)\<rparr>)"

definition ParseFrame ::
  "(bytes \<Rightarrow> wstr) \<Rightarrow> (bytes \<Rightarrow> real) \<Rightarrow> bytes \<Rightarrow> WslSystem \<Rightarrow> WslFrame option" where
  "ParseFrame utf8 strtod s sys =
     (let st = frame_lines utf8 strtod (PageSize sys) (text_lines s) frame_start
      in if \<not> ended st \<or> \<not> header st then None else Some (finish_frame sys st))"

definition state_names :: "(char \<times> string) list" where
  "state_names =
     [(CHR ''R'', ''Running''), (CHR ''S'', ''Sleeping''), (CHR ''D'', ''Disk sleep''), (CHR ''Z'', ''Zombie''),
      (CHR ''T'', ''Stopped''), (CHR ''t'', ''Tracing stop''), (CHR ''X'', ''Dead''), (CHR ''x'', ''Dead''),
      (CHR ''I'', ''Idle''), (CHR ''P'', ''Parked''), (CHR ''W'', ''Waking''), (CHR ''K'', ''Wakekill'')]"

definition StateName :: "16 word \<Rightarrow> wstr" where
  "StateName state =
     (case map_of (map (\<lambda>(c, n). (of_char c, n)) state_names) state of Some n \<Rightarrow> wide n | None \<Rightarrow> [])"

section \<open>What \<open>wsl.exe\<close> says\<close>

definition trim_name :: "wstr \<Rightarrow> wstr" where
  "trim_name name = dropWhile (\<lambda>c. c = 0xFEFF \<or> c = 0x20) (strip_end {0x0D, 0x20, 0} name)"

definition not_newline :: "16 word \<Rightarrow> bool" where
  "not_newline c \<longleftrightarrow> c \<noteq> 0x0A"

function running_names :: "wstr \<Rightarrow> wstr list" where
  "running_names s =
     (if s = [] then []
      else let name = trim_name (takeWhile not_newline s); rest = dropWhile not_newline s;
               names = (if name \<noteq> [] then [name] else [])
           in if rest = [] then names else names @ running_names (tl rest))"
  by pat_completeness auto
termination
proof (relation "measure length", goal_cases)
  case (2 s name rest names)
  have "length rest \<le> length s" unfolding 2(3) by (rule length_dropWhile_le)
  with 2(5) have "length (tl rest) < length s" by (cases rest) simp_all
  then show ?case by simp
qed simp

declare running_names.simps [simp del]

text \<open>\<open>run arguments\<close> is what \<open>RunWsl\<close> gives: the output and the exit code, or nothing.\<close>

definition GetRunning :: "(bytes \<Rightarrow> wstr) \<Rightarrow> (wstr \<Rightarrow> (bytes \<times> u32) option) \<Rightarrow> wstr list option" where
  "GetRunning utf8 run =
     (case run (wide ''--list --running --quiet'') of
        None \<Rightarrow> None
      | Some (out, code) \<Rightarrow> Some (if code \<noteq> 0 then [] else running_names (DecodeWslOutput utf8 out)))"

definition Signal ::
  "(bytes \<Rightarrow> wstr) \<Rightarrow> (wstr \<Rightarrow> (bytes \<times> u32) option) \<Rightarrow> wstr \<Rightarrow> u32 \<Rightarrow> wstr \<Rightarrow> bool \<times> wstr" where
  "Signal utf8 run distro pid signal =
     (case run (wide ''-d '' @ distro @ wide '' -u root --exec kill -s '' @ signal @ wide '' '' @ to_wstring (unat pid)) of
        None \<Rightarrow> (False, wide ''wsl.exe didn't run'')
      | Some (out, code) \<Rightarrow>
          if code = 0 then (True, [])
          else let error = strip_end {0x0A, 0x0D} (DecodeWslOutput utf8 out)
               in (False, if error = [] then wide ''kill failed with exit code '' @ to_wstring (unat code) else error))"

section \<open>Reading the output\<close>

record Reader =
  pending :: bytes
  local_system :: "WslSystem option"
  m_System :: "WslSystem option"
  m_Frame :: "WslFrame option"

definition reader_start :: Reader where
  "reader_start = \<lparr>pending = [], local_system = None, m_System = None, m_Frame = None\<rparr>"

definition end_of_start :: bytes where "end_of_start = 0x0A # narrow ''#R'' @ [0x0A]"
definition end_of_frame :: bytes where "end_of_frame = 0x0A # narrow ''#E'' @ [0x0A]"

definition part_end :: "Reader \<Rightarrow> nat option" where
  "part_end r = find_sub (case local_system r of None \<Rightarrow> end_of_start | Some _ \<Rightarrow> end_of_frame) (pending r)"

text \<open>The part of the buffer up to an end marker: the start or a frame.\<close>

definition take_part ::
  "(bytes \<Rightarrow> wstr) \<Rightarrow> (bytes \<Rightarrow> real) \<Rightarrow> int \<Rightarrow> nat \<Rightarrow> Reader \<Rightarrow> Reader" where
  "take_part utf8 strtod now k r =
     (let part = take (k + 4) (pending r); r' = r\<lparr>pending := drop (k + 4) (pending r)\<rparr>
      in case local_system r of
           None \<Rightarrow>
             (case ParseHeader utf8 part no_system of
                None \<Rightarrow> r'
              | Some s \<Rightarrow> r'\<lparr>local_system := Some s, m_System := Some s\<rparr>)
         | Some s \<Rightarrow>
             (case ParseFrame utf8 strtod part s of
                None \<Rightarrow> r'
              | Some fr \<Rightarrow> r'\<lparr>m_Frame := Some (fr\<lparr>ReadTime := now\<rparr>)\<rparr>))"

lemma starts_with_length: "starts_with p s \<Longrightarrow> length p \<le> length s"
  unfolding starts_with_def by (metis length_take min.cobounded1 min.commute)

lemma find_sub_bound: "find_sub p s = Some i \<Longrightarrow> i + length p \<le> length s"
proof (induction p s arbitrary: i rule: find_sub.induct)
  case (2 p c s)
  then show ?case by (auto split: if_splits dest: starts_with_length)
qed (auto split: if_splits)

lemma pending_take_part: "pending (take_part utf8 strtod now k r) = drop (k + 4) (pending r)"
  by (simp add: take_part_def Let_def split: option.splits)

lemma part_end_bound: "part_end r = Some k \<Longrightarrow> k + 4 \<le> length (pending r)"
  unfolding part_end_def
  by (drule find_sub_bound) (simp add: end_of_start_def end_of_frame_def narrow_def split: option.splits)

function drain :: "(bytes \<Rightarrow> wstr) \<Rightarrow> (bytes \<Rightarrow> real) \<Rightarrow> int \<Rightarrow> Reader \<Rightarrow> Reader" where
  "drain utf8 strtod now r =
     (case part_end r of None \<Rightarrow> r | Some k \<Rightarrow> drain utf8 strtod now (take_part utf8 strtod now k r))"
  by pat_completeness auto
termination
  by (relation "measure (\<lambda>(_, _, _, r). length (pending r))") (auto simp: pending_take_part dest: part_end_bound)

declare drain.simps [simp del]

text \<open>\<open>Read\<close>: the chunks as they arrive, each with the time when it did.\<close>

definition read_chunk :: "(bytes \<Rightarrow> wstr) \<Rightarrow> (bytes \<Rightarrow> real) \<Rightarrow> bytes \<times> int \<Rightarrow> Reader \<Rightarrow> Reader" where
  "read_chunk utf8 strtod c r = drain utf8 strtod (snd c) (r\<lparr>pending := pending r @ fst c\<rparr>)"

definition Read :: "(bytes \<Rightarrow> wstr) \<Rightarrow> (bytes \<Rightarrow> real) \<Rightarrow> (bytes \<times> int) list \<Rightarrow> Reader \<Rightarrow> Reader" where
  "Read utf8 strtod chunks r = fold (read_chunk utf8 strtod) chunks r"

definition TakeFrame :: "Reader \<Rightarrow> WslFrame option \<times> Reader" where
  "TakeFrame r = (m_Frame r, r\<lparr>m_Frame := None\<rparr>)"

section \<open>Fields and lines\<close>

lemma Split_Nil [simp]: "Split [] = []"
  by (simp add: Split.simps)

lemma inked_field: "f \<noteq> [] \<Longrightarrow> list_all inked f \<Longrightarrow> dropWhile blank (f @ s) = f @ s"
  by (cases f) (auto simp: inked_def)

lemma Split_field:
  assumes "f \<noteq> []" and "list_all inked f" and "s = [] \<or> blank (hd s)"
  shows "Split (f @ s) = f # Split s"
proof -
  have all: "\<And>c. c \<in> set f \<Longrightarrow> inked c" using assms(2) by (simp add: list_all_iff)
  have "takeWhile inked (f @ s) = f @ takeWhile inked s" using all by (rule takeWhile_append2)
  moreover have "takeWhile inked s = []" using assms(3) by (cases s) (auto simp: inked_def)
  moreover have "dropWhile inked (f @ s) = dropWhile inked s" using all by (rule dropWhile_append2)
  moreover have "dropWhile inked s = s" using assms(3) by (cases s) (auto simp: inked_def)
  ultimately show ?thesis
    using assms(1) inked_field [OF assms(1,2), of s] by (subst Split.simps) (simp add: Let_def)
qed

lemma Split_blank: "blank c \<Longrightarrow> Split (c # s) = Split s"
  by (subst (1 2) Split.simps) simp

text \<open>The fields of a text are not empty and have no blanks, and nothing but blanks is between them.\<close>

definition field_ok :: "bytes \<Rightarrow> bool" where
  "field_ok f \<longleftrightarrow> f \<noteq> [] \<and> list_all inked f"

lemma Split_fields: "list_all field_ok (Split s) \<and> concat (Split s) = filter inked s"
proof (induction s rule: Split.induct)
  case (1 s)
  define t where "t = dropWhile blank s"
  have f: "filter inked s = filter inked t"
    unfolding t_def by (induction s) (auto simp: inked_def)
  show ?case
  proof (cases "t = []")
    case True
    then show ?thesis using f by (subst (1 2) Split.simps) (simp add: t_def [symmetric])
  next
    case False
    from False have "inked (hd t)" unfolding t_def by (metis hd_dropWhile inked_def)
    with False have "takeWhile inked t \<noteq> []" by (cases t) auto
    moreover have "list_all inked (takeWhile inked t)" by (auto simp: list_all_iff dest: set_takeWhileD)
    moreover have "filter inked t = takeWhile inked t @ filter inked (dropWhile inked t)"
      by (induction t) auto
    ultimately show ?thesis
      using 1 [OF t_def False] f False
      by (subst (1 2) Split.simps) (simp add: t_def [symmetric] Let_def field_ok_def list_all_iff)
  qed
qed

lemma Split_join: "list_all field_ok fs \<Longrightarrow> Split (join [0x20] fs) = fs"
proof (induction "[0x20 :: byte]" fs rule: join.induct)
  case (2 x)
  then show ?case using Split_field [of x "[]"] by (simp add: field_ok_def)
next
  case (3 x y zs)
  have "Split (x @ [0x20] @ join [0x20] (y # zs)) = x # Split ([0x20] @ join [0x20] (y # zs))"
    using 3(2) by (intro Split_field) (auto simp: field_ok_def blank_def)
  with 3 show ?case by (simp add: Split_blank blank_def)
qed simp

text \<open>The fields of a line are its runs of characters other than blanks and tabs, in order and complete, and
  printing them with single spaces between them gives the same fields back.\<close>

theorem Split_roundtrip:
  "list_all field_ok (Split s) \<and> concat (Split s) = filter inked s \<and> Split (join [0x20] (Split s)) = Split s"
  using Split_fields [of s] by (simp add: Split_join)

text \<open>Where the first occurrence is.\<close>

lemma starts_with_append: "starts_with p s \<Longrightarrow> starts_with p (s @ t)"
  using starts_with_length [of p s] by (simp add: starts_with_def)

lemma starts_with_self [simp]: "starts_with p (p @ s)"
  by (simp add: starts_with_def)

lemma find_sub_append: "find_sub p s = Some i \<Longrightarrow> find_sub p (s @ t) = Some i"
proof (induction p s arbitrary: i rule: find_sub.induct)
  case (1 p)
  then show ?case by (cases t) (auto simp: starts_with_def split: if_splits)
next
  case (2 p c s)
  show ?case
  proof (cases "starts_with p (c # s)")
    case True
    with starts_with_append [OF True, of t] 2(2) show ?thesis by simp
  next
    case False
    with 2(2) obtain j where j: "find_sub p s = Some j" "i = Suc j" by auto
    have "\<not> starts_with p ((c # s) @ t)"
    proof
      assume a: "starts_with p ((c # s) @ t)"
      have "length p \<le> length s" using find_sub_bound [OF j(1)] by simp
      then have "length p \<le> length (c # s)" by simp
      with a have "starts_with p (c # s)" by (simp add: starts_with_def del: append_Cons)
      with False show False ..
    qed
    with 2(1) [OF False j(1)] j(2) show ?thesis by simp
  qed
qed

lemma find_char: "find_sub [c] s = (if c \<in> set s then Some (length (takeWhile (\<lambda>x. x \<noteq> c) s)) else None)"
  by (induction s) (auto simp: starts_with_def)

lemma rfind_last:
  assumes "c \<notin> set t"
  shows "rfind c (s @ c # t) = Some (length s)"
proof -
  have "takeWhile (\<lambda>x. x \<noteq> c) (rev t @ c # rev s) = rev t"
    using assms by (induction t rule: rev_induct) auto
  then show ?thesis by (simp add: rfind_def find_char)
qed

lemma find_sub_here: "h \<notin> set s \<Longrightarrow> find_sub (h # p) (s @ h # p @ t) = Some (length s)"
proof (induction s)
  case Nil
  then show ?case by (simp add: starts_with_def)
next
  case (Cons c s)
  then show ?case by (auto simp: starts_with_def)
qed

lemma drop_prefix: "n = length s \<Longrightarrow> drop n (s @ t) = t"
  by simp

lemma set_join: "set (join sep xs) \<subseteq> set sep \<union> set (concat xs)"
  by (induction sep xs rule: join.induct) auto

section \<open>A process's line\<close>

definition stat_line :: "bytes \<Rightarrow> bytes \<Rightarrow> bytes list \<Rightarrow> bytes" where
  "stat_line pid name f = pid @ [0x20, 0x28] @ name @ [0x29, 0x20] @ join [0x20] f"

text \<open>C34: a process's line is read back whatever the process is called, with spaces and parentheses in its name,
  even a name that looks like the end of the name and more fields.\<close>

theorem ParseStat_any_name:
  assumes "list_all digit pid" and "ToNumber32 pid \<noteq> 0" and "list_all field_ok f" and "22 \<le> length f"
    and "0x29 \<notin> set (concat f)"
  shows "ParseStat utf8 (stat_line pid name f) pageSize = Some (stat_process utf8 (ToNumber32 pid) name f pageSize)"
proof -
  define rest where "rest = 0x20 # join [0x20] f"
  let ?line = "stat_line pid name f"
  have l1: "?line = pid @ 0x20 # [0x28] @ (name @ 0x29 # rest)" by (simp add: stat_line_def rest_def)
  have l2: "?line = (pid @ [0x20, 0x28] @ name) @ 0x29 # rest" by (simp add: stat_line_def rest_def)
  have l3: "?line = (pid @ [0x20, 0x28] @ name @ [0x29]) @ rest" by (simp add: stat_line_def rest_def)
  have "0x20 \<notin> set pid" using assms(1) by (auto simp: list_all_iff digit_def)
  then have first: "find_sub [0x20, 0x28] ?line = Some (length pid)" unfolding l1 by (rule find_sub_here)
  have "0x29 \<notin> set rest" using set_join [of "[0x20]" f] assms(5) by (auto simp: rest_def)
  then have final: "rfind 0x29 ?line = Some (length pid + 2 + length name)"
    unfolding l2 by (subst rfind_last) simp_all
  have "Split rest = f" using assms(3) by (simp add: rest_def Split_blank blank_def Split_join)
  moreover have "drop (length pid + 2 + length name + 1) ?line = rest"
    unfolding l3 by (rule drop_prefix) simp
  moreover have "take (length name) (drop (length pid + 2) ?line) = name" unfolding l1 by simp
  moreover have "take (length pid) ?line = pid" unfolding l1 by simp
  ultimately show ?thesis
    using first final assms(2,4) by (simp add: ParseStat_def narrow_def)
qed

theorem ParseStat_any_name_witness:
  "ParseStat (map ucast) (stat_line (narrow ''42'') (narrow ''a) R ('') (narrow ''S'' # replicate 21 (narrow ''7''))) 4096 =
     Some (stat_process (map ucast) 42 (narrow ''a) R ('') (narrow ''S'' # replicate 21 (narrow ''7'')) 4096)"
proof -
  have "ToNumber32 (narrow ''42'') = 42" by code_simp
  moreover have "list_all digit (narrow ''42'')" by code_simp
  moreover have "list_all field_ok (narrow ''S'' # replicate 21 (narrow ''7''))" by code_simp
  moreover have "0x29 \<notin> set (concat (narrow ''S'' # replicate 21 (narrow ''7'')))" by code_simp
  ultimately show ?thesis
    using ParseStat_any_name [of "narrow ''42''" "narrow ''S'' # replicate 21 (narrow ''7'')" "map ucast" "narrow ''a) R (''" 4096]
    by simp
qed

section \<open>Frames\<close>

lemma section_line_flags [simp]:
  "ended (section_line utf8 strtod n line st) = ended st"
  "header (section_line utf8 strtod n line st) = header st"
  by (auto simp: section_line_def cmdline_line_def flushCmdline_def thread_line_def Let_def
      split: Section.splits option.splits)

lemma enter_section_flags [simp]:
  "ended (enter_section utf8 line sec st) = (ended st \<or> line = narrow ''#E'')"
  "header (enter_section utf8 line sec st) = header st"
  by (auto simp: enter_section_def flushCmdline_def Let_def)

lemma frame_lines_flags:
  "\<not> ended st \<Longrightarrow>
   (ended (frame_lines utf8 strtod n ls st) \<longleftrightarrow> narrow ''#E'' \<in> set ls) \<and>
   (header (frame_lines utf8 strtod n ls st) \<longleftrightarrow>
      header st \<or> narrow ''#F'' \<in> set (takeWhile (\<lambda>l. l \<noteq> narrow ''#E'') ls))"
proof (induction ls arbitrary: st)
  case (Cons l ls)
  have ne: "narrow ''#F'' \<noteq> narrow ''#E''" by (simp add: narrow_def)
  show ?case
  proof (cases "marker l")
    case None
    then have "l \<noteq> narrow ''#E''" by (auto simp: marker_def split: if_splits)
    with None Cons ne show ?thesis by auto
  next
    case (Some sec)
    then have nf: "l \<noteq> narrow ''#F''" by (auto simp: marker_def narrow_def split: if_splits)
    with Some Cons show ?thesis by (auto simp: Let_def)
  qed
qed simp

text \<open>A text is a frame exactly when it has the line \<open>#E\<close> and, before the first one, the line \<open>#F\<close>.\<close>

theorem ParseFrame_markers:
  "ParseFrame utf8 strtod s sys \<noteq> None \<longleftrightarrow>
     narrow ''#E'' \<in> set (text_lines s) \<and>
     narrow ''#F'' \<in> set (takeWhile (\<lambda>l. l \<noteq> narrow ''#E'') (text_lines s))"
  using frame_lines_flags [of frame_start utf8 strtod "PageSize sys" "text_lines s"]
  by (simp add: ParseFrame_def Let_def frame_start_def)

lemma set_user_ids [simp]: "Pid (set_user sys ids p) = Pid p" "ParentPid (set_user sys ids p) = ParentPid p"
  by (auto simp: set_user_def split: option.splits)

lemma set_owners_pairs:
  "(\<lambda>p. (Pid p, ParentPid p)) ` set (set_owners sys ids cmds ps) = (\<lambda>p. (Pid p, ParentPid p)) ` set ps"
  by (induction ps arbitrary: cmds) (auto simp: Let_def split: option.splits)

definition helper_hidden :: "WslSystem \<Rightarrow> WslFrame \<Rightarrow> bool" where
  "helper_hidden sys fr \<longleftrightarrow>
     list_all (\<lambda>p. Pid p \<noteq> HelperPid sys \<and> ParentPid p \<noteq> HelperPid sys) (Processes fr) \<and>
     list_all (\<lambda>t. thread_Pid t \<noteq> HelperPid sys) (frame_Threads fr)"

lemma finish_frame_hidden: "HelperPid sys = 0 \<or> helper_hidden sys (finish_frame sys st)"
proof (cases "HelperPid sys = 0")
  case False
  let ?ps = "Processes (frame st)"
  have "Pid p \<noteq> HelperPid sys \<and> ParentPid p \<noteq> HelperPid sys"
    if "p \<in> set (Processes (finish_frame sys st))" for p
  proof -
    have "(Pid p, ParentPid p) \<in> (\<lambda>p. (Pid p, ParentPid p)) ` set (Processes (finish_frame sys st))"
      using that by (rule imageI)
    then obtain q where "q \<in> set ?ps" and "Pid q \<notin> set (hidden (HelperPid sys) ?ps)"
      and eq: "Pid p = Pid q" "ParentPid p = ParentPid q"
      by (auto simp: finish_frame_def Let_def set_owners_pairs)
    then show ?thesis using False by (auto simp: hidden_def)
  qed
  moreover have "thread_Pid t \<noteq> HelperPid sys" if "t \<in> set (frame_Threads (finish_frame sys st))" for t
    using that False by (auto simp: finish_frame_def Let_def hidden_def)
  ultimately show ?thesis by (simp add: helper_hidden_def list_all_iff)
qed simp

text \<open>With the helper known, a frame lists neither the helper nor a process that it runs, nor threads of it.\<close>

theorem ParseFrame_hides_helper:
  "case ParseFrame utf8 strtod s sys of None \<Rightarrow> True | Some fr \<Rightarrow> HelperPid sys = 0 \<or> helper_hidden sys fr"
  using finish_frame_hidden [of sys] by (auto simp: ParseFrame_def Let_def split: option.splits)

text \<open>A command line with line ends in it is read as lines of the protocol: a process can end its section and
  have others listed that do not exist.\<close>

definition crafted :: bytes where
  "crafted = concat (map (\<lambda>l. narrow l @ [0x0A])
     [''#F'', ''#C'', ''==> /proc/7/cmdline <=='', ''sh'', ''#S'', ''9 (ghost) R 1'' @ concat (replicate 20 '' 0''), ''#E''])"

lemma cmdline_makes_up_process:
  "map_option (map Pid \<circ> Processes) (ParseFrame (map ucast) (\<lambda>_. 1) crafted no_system) = Some [9]"
  by code_simp

section \<open>The chunks of the output\<close>

text \<open>What a reader has got, but for the time its frame arrived at.\<close>

definition untimed :: "Reader \<Rightarrow> Reader" where
  "untimed r = r\<lparr>m_Frame := map_option (ReadTime_update (\<lambda>_. 0)) (m_Frame r)\<rparr>"

definition more :: "bytes \<Rightarrow> Reader \<Rightarrow> Reader" where
  "more c r = r\<lparr>pending := pending r @ c\<rparr>"

lemma more_simps [simp]:
  "pending (more c r) = pending r @ c" "more d (more c r) = more (c @ d) r" "more [] r = r"
  by (simp_all add: more_def)

lemma untimed_eqD: "untimed r = untimed r' \<Longrightarrow> pending r = pending r' \<and> local_system r = local_system r'"
  unfolding untimed_def by (metis Reader.ext_inject Reader.surjective Reader.update_convs(4))

lemma untimed_part_end: "untimed r = untimed r' \<Longrightarrow> part_end r = part_end r'"
  by (auto simp: part_end_def dest: untimed_eqD)

lemma untimed_more: "untimed r = untimed r' \<Longrightarrow> untimed (more c r) = untimed (more c r')"
  by (cases r; cases r') (auto simp: untimed_def more_def)

lemma untimed_take_part:
  "untimed r = untimed r' \<Longrightarrow>
   untimed (take_part utf8 strtod now k r) = untimed (take_part utf8 strtod now' k r')"
  by (cases r; cases r') (auto simp: untimed_def take_part_def Let_def split: option.splits)

lemma untimed_drain:
  "untimed r = untimed r' \<Longrightarrow> untimed (drain utf8 strtod now r) = untimed (drain utf8 strtod now' r')"
proof (induction utf8 strtod now r arbitrary: r' rule: drain.induct)
  case (1 utf8 strtod now r)
  show ?case
  proof (cases "part_end r")
    case None
    with 1(2) show ?thesis by (simp add: drain.simps [of _ _ _ r] drain.simps [of _ _ _ r'] untimed_part_end [OF 1(2), symmetric])
  next
    case (Some k)
    have "untimed (drain utf8 strtod now (take_part utf8 strtod now k r)) =
          untimed (drain utf8 strtod now' (take_part utf8 strtod now' k r'))"
      by (rule 1(1) [OF Some untimed_take_part [OF 1(2)]])
    with Some show ?thesis
      by (simp add: drain.simps [of _ _ _ r] drain.simps [of _ _ _ r'] untimed_part_end [OF 1(2), symmetric])
  qed
qed

lemma drained: "part_end (drain utf8 strtod now r) = None"
proof (induction utf8 strtod now r rule: drain.induct)
  case (1 utf8 strtod now r)
  then show ?case by (cases "part_end r") (simp_all add: drain.simps [of _ _ _ r])
qed

lemma part_end_more: "part_end r = Some k \<Longrightarrow> part_end (more c r) = Some k"
  by (cases "local_system r") (auto simp: part_end_def more_def find_sub_append)

lemma take_part_more:
  "part_end r = Some k \<Longrightarrow> take_part utf8 strtod now k (more c r) = more c (take_part utf8 strtod now k r)"
  using part_end_bound [of r k] by (auto simp: take_part_def more_def Let_def split: option.splits)

text \<open>What arrives after a part was taken could have been there before.\<close>

lemma drain_more: "drain utf8 strtod now (more c (drain utf8 strtod now r)) = drain utf8 strtod now (more c r)"
proof (induction utf8 strtod now r rule: drain.induct)
  case (1 utf8 strtod now r)
  show ?case
  proof (cases "part_end r")
    case None
    then show ?thesis by (simp add: drain.simps [of _ _ _ r])
  next
    case (Some k)
    from 1 [OF this] show ?thesis
      by (simp add: drain.simps [of _ _ _ r] drain.simps [of _ _ _ "more c r"] Some part_end_more take_part_more)
  qed
qed

lemma read_chunk_more: "read_chunk utf8 strtod c r = drain utf8 strtod (snd c) (more (fst c) r)"
  by (simp add: read_chunk_def more_def)

lemma Read_drain:
  "untimed (drain utf8 strtod now (Read utf8 strtod chunks r)) =
   untimed (drain utf8 strtod now (more (concat (map fst chunks)) r))"
proof (induction chunks arbitrary: r)
  case (Cons c cs)
  let ?d = "\<lambda>t. drain utf8 strtod t (more (fst c) r)"
  let ?s = "concat (map fst cs)"
  have "untimed (drain utf8 strtod now (Read utf8 strtod (c # cs) r)) =
        untimed (drain utf8 strtod now (more ?s (?d (snd c))))"
    using Cons.IH [of "?d (snd c)"] by (simp add: Read_def read_chunk_more)
  also have "\<dots> = untimed (drain utf8 strtod now (more ?s (?d now)))"
    by (intro untimed_drain untimed_more) simp
  also have "\<dots> = untimed (drain utf8 strtod now (more (concat (map fst (c # cs))) r))"
    by (simp add: drain_more)
  finally show ?case .
qed (simp add: Read_def)

lemma Read_drained: "part_end r = None \<Longrightarrow> part_end (Read utf8 strtod chunks r) = None"
  unfolding Read_def by (induction chunks arbitrary: r) (simp_all add: read_chunk_more drained)

lemma Read_one: "Read utf8 strtod [(s, t)] r = drain utf8 strtod t (more s r)"
  by (simp add: Read_def read_chunk_more)

text \<open>C30: how the pipe cuts the helper's output into chunks does not matter: the start, the last frame and what is
  left over are those of the whole output read at once, but for the time of the frame.\<close>

theorem Read_any_chunks:
  "untimed (Read utf8 strtod chunks reader_start) =
   untimed (Read utf8 strtod [(concat (map fst chunks), t)] reader_start)"
proof -
  have "part_end (Read utf8 strtod chunks reader_start) = None"
    by (intro Read_drained) (simp add: reader_start_def part_end_def end_of_start_def)
  then have "drain utf8 strtod t (Read utf8 strtod chunks reader_start) = Read utf8 strtod chunks reader_start"
    by (subst drain.simps) simp
  then show ?thesis using Read_drain [of utf8 strtod t chunks reader_start] by (simp add: Read_one)
qed

end
