(* ===== verification/Firmware.thy ===== *)
theory Firmware
  imports Win_Prelude "HOL-Library.Product_Lexorder" "HOL-Library.Multiset"
begin

text \<open>
  The firmware (\<open>WinSys/Firmware.h\<close>, \<open>Firmware.cpp\<close>): the UEFI variables the system gives, the boot configuration they
  make up (the boot options parsed from their bytes, in the boot order) and the TPM's properties. The answers
  of the system and of the TPM are arguments.
\<close>

section \<open>The variables\<close>

record UefiVariable =
  Name :: wstr
  Vendor :: GUID
  Attributes :: u32
  Value :: bytes

definition EfiGlobalVariable :: GUID where
  "EfiGlobalVariable = make_guid 0x8be4df61 0x93ca 0x11d2 [0xaa, 0x0d, 0x00, 0xe0, 0x98, 0x03, 0x2b, 0x8c]"

text \<open>
  The call is made again with a larger buffer while it is too small, four times at most; \<open>query t len\<close> is the
  answer to try \<open>t\<close>: the status, the size it gives back and what it wrote.
\<close>

definition too_small :: "u32 \<Rightarrow> bool" where
  "too_small status \<longleftrightarrow> status = 0xC0000023 \<or> status = 0x80000005"

fun variable_tries ::
  "(nat \<Rightarrow> u32 \<Rightarrow> u32 \<times> u32 \<times> bytes) \<Rightarrow> nat \<Rightarrow> nat \<Rightarrow> u32 \<times> u32 \<times> bytes option \<Rightarrow> u32 \<times> u32 \<times> bytes option" where
  "variable_tries query t 0 r = r"
| "variable_tries query t (Suc n) (status, len, buffer) =
     (if too_small status
      then let (status', len', written) = query t (len + 4096)
           in variable_tries query (Suc t) n (status', len', Some written)
      else (status, len, buffer))"

text \<open>An entry: the offset of the next, the value's offset and length, the attributes, the vendor and the name.\<close>

definition variable_at :: "bytes \<Rightarrow> u32 \<Rightarrow> u32 \<Rightarrow> UefiVariable" where
  "variable_at b len offset =
     (let entry = drop (unat offset) b; valueOffset = u32_at entry 4; valueLength = u32_at entry 8
      in \<lparr>Name = until_nul (length b) (units (drop 32 entry)), Vendor = guid_at (drop 16 entry),
          Attributes = u32_at entry 12,
          Value = (if valueOffset \<noteq> 0 \<and> offset + valueOffset + valueLength \<le> len
                   then take (unat valueLength) (drop (unat valueOffset) entry) else [])\<rparr>)"

partial_function (option) variables_from :: "bytes \<Rightarrow> u32 \<Rightarrow> u32 \<Rightarrow> UefiVariable list option" where
  "variables_from b len offset =
     (if unat offset + 36 \<le> unat len then
        let v = variable_at b len offset; nxt = u32_at (drop (unat offset) b) 0
        in if nxt = 0 then Some [v]
           else Option.bind (variables_from b len (offset + nxt)) (\<lambda>vs. Some (v # vs))
      else Some [])"

text \<open>\<open>EnumVariables\<close>: nothing with an error status; the outer option is a walk that does not end.\<close>

definition EnumVariables :: "u32 \<times> u32 \<Rightarrow> (nat \<Rightarrow> u32 \<Rightarrow> u32 \<times> u32 \<times> bytes) \<Rightarrow> UefiVariable list option option" where
  "EnumVariables first query =
     (let (status, len, buffer) = variable_tries query 0 4 (fst first, snd first, None)
      in if \<not> 0 \<le>s status then Some None
         else case buffer of
                None \<Rightarrow> Some (Some [])
              | Some b \<Rightarrow> map_option Some (variables_from b len 0))"

section \<open>The boot configuration\<close>

definition FindGlobal :: "UefiVariable list \<Rightarrow> wstr \<Rightarrow> UefiVariable option" where
  "FindGlobal variables name = find (\<lambda>v. Vendor v = EfiGlobalVariable \<and> Name v = name) variables"

definition GetUInt16 :: "UefiVariable list \<Rightarrow> string \<Rightarrow> u16 option" where
  "GetUInt16 variables name =
     (case FindGlobal variables (wide name) of
        None \<Rightarrow> None
      | Some v \<Rightarrow> if length (Value v) < 2 then None else Some (u16_at (Value v) 0))"

definition GetFlag :: "UefiVariable list \<Rightarrow> string \<Rightarrow> bool option" where
  "GetFlag variables name =
     (case FindGlobal variables (wide name) of
        None \<Rightarrow> None
      | Some v \<Rightarrow> if Value v = [] then None else Some (Value v ! 0 \<noteq> 0))"

record BootEntry =
  Number :: u16
  Description :: wstr
  boot_Attributes :: u32
  FilePath :: wstr
  Order :: int

definition no_entry :: BootEntry where
  "no_entry = \<lparr>Number = 0, Description = [], boot_Attributes = 0, FilePath = [], Order = -1\<rparr>"

record BootConfiguration =
  Entries :: "BootEntry list"
  Current :: "u16 option"
  NextBoot :: "u16 option"
  Timeout :: "u16 option"
  SecureBoot :: "bool option"
  SetupMode :: "bool option"

text \<open>The description: its characters and the offset after its terminator.\<close>

function description_from :: "bytes \<Rightarrow> nat \<Rightarrow> wstr \<times> nat" where
  "description_from d offset =
     (if offset + 1 < length d then
        let c = u16_at d offset
        in if c = 0 then ([], offset + 2)
           else let (s, n) = description_from d (offset + 2) in (c # s, n)
      else ([], offset))"
  by pat_completeness auto
termination
  by (relation "measure (\<lambda>(d, offset). length d - offset)") auto

declare description_from.simps [simp del]

text \<open>The device path nodes up to \<open>limit\<close>: the file paths of the media file path nodes (type 4, subtype 4).\<close>

definition node_path :: "bytes \<Rightarrow> nat \<Rightarrow> nat \<Rightarrow> wstr" where
  "node_path d offset len = (let n = (len - 4) div 2 in until_nul n (units (take (2 * n) (drop (offset + 4) d))))"

function paths_from :: "bytes \<Rightarrow> nat \<Rightarrow> nat \<Rightarrow> wstr" where
  "paths_from d limit offset =
     (if offset + 4 \<le> limit then
        let type = u8_at d offset; subType = u8_at d (offset + 1); len = unat (u16_at d (offset + 2))
        in if len < 4 \<or> offset + len > limit \<or> type = 0x7F then []
           else (if type = 4 \<and> subType = 4 then node_path d offset len else []) @ paths_from d limit (offset + len)
      else [])"
  by pat_completeness auto
termination
  by (relation "measure (\<lambda>(d, limit, offset). limit - offset)") auto

declare paths_from.simps [simp del]

definition ParseLoadOption :: "bytes \<Rightarrow> BootEntry \<Rightarrow> BootEntry option" where
  "ParseLoadOption d entry =
     (if length d < 6 then None
      else let pathLength = unat (u16_at d 4); (description, offset) = description_from d 6;
               limit = min (length d) (offset + pathLength)
           in Some (entry\<lparr>boot_Attributes := u32_at d 0, Description := Description entry @ description,
                FilePath := FilePath entry @ paths_from d limit offset\<rparr>))"

fun order_from :: "bytes \<Rightarrow> u16 list" where
  "order_from (a # b # bs) = u16_at [a, b] 0 # order_from bs"
| "order_from _ = []"

definition boot_order :: "UefiVariable list \<Rightarrow> u16 list" where
  "boot_order variables =
     (case FindGlobal variables (wide ''BootOrder'') of None \<Rightarrow> [] | Some v \<Rightarrow> order_from (Value v))"

text \<open>\<open>Boot####\<close> with four hex digits.\<close>

definition boot_variable :: "UefiVariable \<Rightarrow> bool" where
  "boot_variable v \<longleftrightarrow>
     Vendor v = EfiGlobalVariable \<and> length (Name v) = 8 \<and> take 4 (Name v) = wide ''Boot'' \<and>
     list_all iswxdigit (drop 4 (Name v))"

definition hex_value :: "16 word \<Rightarrow> nat" where
  "hex_value c = (if c \<le> 0x39 then unat c - 0x30 else if c \<le> 0x46 then unat c - 0x37 else unat c - 0x57)"

definition hex_number :: "wstr \<Rightarrow> u16" where
  "hex_number s = of_nat (foldl (\<lambda>n c. 16 * n + hex_value c) 0 s)"

text \<open>The position of the first occurrence (\<open>std::ranges::find\<close>), or -1.\<close>

definition position :: "'a \<Rightarrow> 'a list \<Rightarrow> int" where
  "position x xs = (if x \<in> set xs then int (length (takeWhile (\<lambda>y. y \<noteq> x) xs)) else -1)"

definition boot_entry :: "u16 list \<Rightarrow> UefiVariable \<Rightarrow> BootEntry option" where
  "boot_entry order v =
     (if \<not> boot_variable v then None
      else case ParseLoadOption (Value v) (no_entry\<lparr>Number := hex_number (drop 4 (Name v))\<rparr>) of
             None \<Rightarrow> None
           | Some e \<Rightarrow> Some (e\<lparr>Order := position (Number e) order\<rparr>))"

text \<open>The ordered ones first.\<close>

definition boot_key :: "BootEntry \<Rightarrow> int \<times> u16" where
  "boot_key e = (if Order e < 0 then 0x7FFFFFFF else Order e, Number e)"

definition GetBootConfiguration :: "UefiVariable list \<Rightarrow> BootConfiguration" where
  "GetBootConfiguration variables =
     \<lparr>Entries = sort_key boot_key (List.map_filter (boot_entry (boot_order variables)) variables),
      Current = GetUInt16 variables ''BootCurrent'', NextBoot = GetUInt16 variables ''BootNext'',
      Timeout = GetUInt16 variables ''Timeout'', SecureBoot = GetFlag variables ''SecureBoot'',
      SetupMode = GetFlag variables ''SetupMode''\<rparr>"

section \<open>The TPM\<close>

text \<open>TPM 2.0 values are big-endian.\<close>

definition ReadUInt32 :: "bytes \<Rightarrow> nat \<Rightarrow> u32" where
  "ReadUInt32 p k =
     (push_bit 24 (ucast (p ! k))) OR (push_bit 16 (ucast (p ! (k + 1)))) OR
     (push_bit 8 (ucast (p ! (k + 2)))) OR ucast (p ! (k + 3))"

definition printable :: "16 word \<Rightarrow> bool" where
  "printable c \<longleftrightarrow> 0x20 \<le> c \<and> c < 0x7F"

definition FourChars :: "u32 \<Rightarrow> wstr" where
  "FourChars w = filter printable (map (\<lambda>shift. ucast ((drop_bit shift w) AND 0xFF)) [24, 16, 8, 0])"

record TpmInfo =
  Manufacturer :: wstr
  VendorString :: wstr
  Family :: wstr
  Level :: u32
  Revision :: u32
  Year :: u32
  DayOfYear :: u32
  FirmwareVersion1 :: u32
  FirmwareVersion2 :: u32
  Error :: u32

definition no_tpm :: TpmInfo where
  "no_tpm = \<lparr>Manufacturer = [], VendorString = [], Family = [], Level = 0, Revision = 0, Year = 0, DayOfYear = 0,
     FirmwareVersion1 = 0, FirmwareVersion2 = 0, Error = 0\<rparr>"

definition tpm_property :: "u32 \<Rightarrow> u32 \<Rightarrow> TpmInfo \<times> wstr list \<Rightarrow> TpmInfo \<times> wstr list" where
  "tpm_property p v r =
     (let (info, vendor) = r
      in if p = 0x100 then (info\<lparr>Family := FourChars v\<rparr>, vendor)
         else if p = 0x101 then (info\<lparr>Level := v\<rparr>, vendor)
         else if p = 0x102 then (info\<lparr>Revision := v\<rparr>, vendor)
         else if p = 0x103 then (info\<lparr>DayOfYear := v\<rparr>, vendor)
         else if p = 0x104 then (info\<lparr>Year := v\<rparr>, vendor)
         else if p = 0x105 then (info\<lparr>Manufacturer := FourChars v\<rparr>, vendor)
         else if p = 0x106 \<or> p = 0x107 \<or> p = 0x108 \<or> p = 0x109 then (info, vendor[unat (p - 0x106) := FourChars v])
         else if p = 0x10B then (info\<lparr>FirmwareVersion1 := v\<rparr>, vendor)
         else if p = 0x10C then (info\<lparr>FirmwareVersion2 := v\<rparr>, vendor)
         else (info, vendor))"

text \<open>The pairs \<open>i, i + 1, \<dots>\<close> of a response of \<open>len\<close> bytes, at most the 1024 of its buffer.\<close>

function tpm_properties :: "bytes \<Rightarrow> nat \<Rightarrow> nat \<Rightarrow> nat \<Rightarrow> TpmInfo \<times> wstr list \<Rightarrow> TpmInfo \<times> wstr list" where
  "tpm_properties response len pairs i r =
     (if i < pairs \<and> 19 + (i + 1) * 8 \<le> len
      then tpm_properties response len pairs (Suc i)
             (tpm_property (ReadUInt32 response (19 + i * 8)) (ReadUInt32 response (19 + i * 8 + 4)) r)
      else r)"
  by pat_completeness auto
termination
  by (relation "measure (\<lambda>(_, _, pairs, i, _). pairs - i)") auto

declare tpm_properties.simps [simp del]

definition tpm_answer :: "u32 \<Rightarrow> bytes \<Rightarrow> nat \<Rightarrow> TpmInfo" where
  "tpm_answer result response len =
     (if result \<noteq> 0 \<or> len < 19 \<or> ReadUInt32 response 6 \<noteq> 0
      then no_tpm\<lparr>Error := (if result \<noteq> 0 then result else ReadUInt32 response 6)\<rparr>
      else let (info, vendor) = tpm_properties response len (unat (ReadUInt32 response 15)) 0 (no_tpm, replicate 4 [])
           in info\<lparr>VendorString := concat vendor\<rparr>)"

section \<open>The boot order\<close>

lemma position_in: "x \<in> set xs \<Longrightarrow> 0 \<le> position x xs \<and> xs ! nat (position x xs) = x \<and> position x xs < int (length xs)"
proof (induction xs)
  case (Cons y ys)
  then show ?case by (cases "y = x") (auto simp: position_def nat_add_distrib)
qed simp

lemma position_nonneg: "0 \<le> position x xs \<longleftrightarrow> x \<in> set xs"
  by (simp add: position_def)

lemma position_inj: "inj_on (\<lambda>x. position x xs) (set xs)"
  by (rule inj_onI) (metis position_in)

lemma sorted_positions: "distinct xs \<Longrightarrow> sorted (map (\<lambda>x. position x xs) (filter P xs))"
proof (induction xs)
  case (Cons y ys)
  have eq: "map (\<lambda>x. position x (y # ys)) (filter P ys) = map (\<lambda>x. position x ys + 1) (filter P ys)"
    using Cons.prems by (auto simp: position_def)
  have "sorted (map (\<lambda>x. position x ys + 1) (filter P ys))"
    using Cons by (simp add: sorted_map sorted_wrt_mono_rel)
  moreover have "position y (y # ys) = 0" by (simp add: position_def)
  moreover have "\<forall>x \<in> set (filter P ys). 0 \<le> position x ys + 1" by (auto simp: position_def)
  ultimately show ?case by (auto simp: eq simp del: map_map)
qed simp

definition boot_entries :: "UefiVariable list \<Rightarrow> BootEntry list" where
  "boot_entries variables = List.map_filter (boot_entry (boot_order variables)) variables"

lemma boot_entry_Order: "e \<in> set (boot_entries variables) \<Longrightarrow> Order e = position (Number e) (boot_order variables)"
  by (auto simp: boot_entries_def List.map_filter_def boot_entry_def split: if_splits option.splits)

lemma set_sort_entries [simp]:
  "set (Entries (GetBootConfiguration variables)) = set (boot_entries variables)"
  "mset (Entries (GetBootConfiguration variables)) = mset (boot_entries variables)"
  by (simp_all add: GetBootConfiguration_def boot_entries_def)

lemma sorted_Orders:
  "sorted (map Order (filter (\<lambda>e. 0 \<le> Order e) (Entries (GetBootConfiguration variables))))"
proof -
  have "sorted (map boot_key (Entries (GetBootConfiguration variables)))"
    by (simp add: GetBootConfiguration_def)
  then have "sorted (map boot_key (filter (\<lambda>e. 0 \<le> Order e) (Entries (GetBootConfiguration variables))))"
    by (rule sorted_filter)
  then show ?thesis
    unfolding sorted_map by (rule sorted_wrt_mono_rel [rotated]) (auto simp: boot_key_def less_eq_prod_def)
qed

text \<open>The boot entries are those of the \<open>Boot####\<close> variables, and when neither the boot order nor the variables
  have a number twice, the ordered ones are listed in the firmware's boot order, without the numbers that have no
  variable.\<close>

theorem boot_entries_ordered:
  assumes "distinct (boot_order variables)" and "distinct (map Number (boot_entries variables))"
  shows "mset (Entries (GetBootConfiguration variables)) = mset (boot_entries variables) \<and>
    map Number (filter (\<lambda>e. 0 \<le> Order e) (Entries (GetBootConfiguration variables))) =
    filter (\<lambda>n. n \<in> Number ` set (boot_entries variables)) (boot_order variables)"
proof -
  let ?order = "boot_order variables" and ?es = "Entries (GetBootConfiguration variables)"
  let ?pos = "\<lambda>n. position n ?order"
  let ?l = "map Number (filter (\<lambda>e. 0 \<le> Order e) ?es)"
  let ?r = "filter (\<lambda>n. n \<in> Number ` set (boot_entries variables)) ?order"
  have ord: "\<forall>e \<in> set ?es. Order e = ?pos (Number e)" by (simp add: boot_entry_Order)
  have pos_l: "map ?pos ?l = map Order (filter (\<lambda>e. 0 \<le> Order e) ?es)" using ord by simp
  have sub: "set ?l = set ?r" using ord by (auto simp: position_nonneg boot_entry_Order image_iff)
  have sub_o: "set ?l \<subseteq> set ?order" "set ?r \<subseteq> set ?order" using sub by auto
  have "distinct (map Number ?es)"
    using assms(2) set_sort_entries(2) [of variables] by (metis mset_eq_imp_distinct_iff mset_map)
  then have dl: "distinct ?l" by (rule distinct_map_filter)
  have dr: "distinct ?r" using assms(1) by simp
  have inj: "inj_on ?pos (set ?l \<union> set ?r)" using sub_o by (intro inj_on_subset [OF position_inj]) auto
  have "map ?pos ?l = map ?pos ?r"
  proof (rule sorted_distinct_set_unique)
    show "sorted (map ?pos ?l)" unfolding pos_l by (rule sorted_Orders)
    show "sorted (map ?pos ?r)" by (rule sorted_positions [OF assms(1)])
    show "distinct (map ?pos ?l)" using dl inj by (simp add: distinct_map inj_on_Un del: map_map)
    show "distinct (map ?pos ?r)" using dr inj by (simp add: distinct_map inj_on_Un del: map_map)
    show "set (map ?pos ?l) = set (map ?pos ?r)" using sub by (metis set_map)
  qed
  then have "?l = ?r" using inj by (rule map_inj_on)
  then show ?thesis by simp
qed

definition boot_var :: "string \<Rightarrow> bytes \<Rightarrow> UefiVariable" where
  "boot_var name v = \<lparr>Name = wide name, Vendor = EfiGlobalVariable, Attributes = 7, Value = v\<rparr>"

definition two_boots :: "UefiVariable list" where
  "two_boots = [boot_var ''Boot0001'' (replicate 8 0), boot_var ''Boot0002'' (replicate 8 0), boot_var ''BootOrder'' [2, 0, 5, 0, 1, 0]]"

theorem boot_entries_ordered_witness:
  "map Number (filter (\<lambda>e. 0 \<le> Order e) (Entries (GetBootConfiguration two_boots))) = [2, 1]"
proof -
  have "distinct (boot_order two_boots)" by code_simp
  moreover have "distinct (map Number (boot_entries two_boots))" by code_simp
  ultimately have "map Number (filter (\<lambda>e. 0 \<le> Order e) (Entries (GetBootConfiguration two_boots))) =
      filter (\<lambda>n. n \<in> Number ` set (boot_entries two_boots)) (boot_order two_boots)"
    by (rule boot_entries_ordered [THEN conjunct2])
  also have "\<dots> = [2, 1]" by code_simp
  finally show ?thesis .
qed

section \<open>Boot options\<close>

text \<open>A boot option as the firmware writes it: device path nodes, then the end node, then optional data.\<close>

type_synonym node = "byte \<times> byte \<times> bytes"

definition node_bytes :: "node \<Rightarrow> bytes" where
  "node_bytes = (\<lambda>(t, s, p). [t, s] @ le_bytes 2 (length p + 4) @ p)"

definition path_bytes :: "node list \<Rightarrow> bytes" where
  "path_bytes nodes = concat (map node_bytes nodes) @ node_bytes (0x7F, 0xFF, [])"

definition load_option :: "u32 \<Rightarrow> wstr \<Rightarrow> node list \<Rightarrow> bytes \<Rightarrow> bytes" where
  "load_option attr desc nodes rest =
     le_bytes 4 (unat attr) @ le_bytes 2 (length (path_bytes nodes)) @ wide_bytes desc @ [0, 0] @ path_bytes nodes @ rest"

definition node_file :: "node \<Rightarrow> wstr" where
  "node_file = (\<lambda>(t, s, p). if t = 4 \<and> s = 4 then until_nul (length p div 2) (units (take (2 * (length p div 2)) p)) else [])"

lemma u16_at_here: "n < 65536 \<Longrightarrow> u16_at (pre @ le_bytes 2 n @ r) (length pre) = of_nat n"
  by (simp add: u16_at_def le_nat_le_bytes)

lemma u16_at_char: "u16_at (pre @ le_bytes 2 (unat (c :: u16)) @ r) (length pre) = c"
  using u16_at_here [of "unat c" pre r] unat_less_2p [of c] by simp

lemma description_from_bytes:
  "0 \<notin> set desc \<Longrightarrow>
   description_from (pre @ wide_bytes desc @ [0, 0] @ r) (length pre) = (desc, length pre + 2 * length desc + 2)"
proof (induction desc arbitrary: pre)
  case Nil
  have "u16_at (pre @ [0, 0] @ r) (length pre) = 0" by (simp add: u16_at_def)
  then show ?case by (subst description_from.simps) (simp add: wide_bytes_def)
next
  case (Cons c cs)
  let ?b = "le_bytes 2 (unat c)"
  let ?d = "pre @ wide_bytes (c # cs) @ [0, 0] @ r"
  have d: "?d = (pre @ ?b) @ wide_bytes cs @ [0, 0] @ r" by (simp add: wide_bytes_def)
  have "u16_at ?d (length pre) = c"
    using u16_at_char [of pre c "wide_bytes cs @ [0, 0] @ r"] by (simp add: wide_bytes_def)
  moreover have "description_from ?d (length pre + 2) = (cs, length pre + 2 + 2 * length cs + 2)"
    unfolding d using Cons.IH [of "pre @ ?b"] Cons.prems by simp
  ultimately show ?case using Cons.prems by (subst description_from.simps) (simp add: Let_def)
qed

lemma length_node_bytes [simp]: "length (node_bytes n) = length (snd (snd n)) + 4"
  by (cases n) (simp add: node_bytes_def)

lemma paths_from_node:
  assumes "u8_at d off = t" and "u8_at d (off + 1) = s" and "unat (u16_at d (off + 2)) = n"
    and "t \<noteq> 0x7F" and "4 \<le> n" and "off + n \<le> limit"
  shows "paths_from d limit off =
    (if t = 4 \<and> s = 4 then node_path d off n else []) @ paths_from d limit (off + n)"
  by (subst paths_from.simps) (use assms in \<open>auto simp: Let_def\<close>)

lemma paths_from_bytes:
  assumes "\<forall>n \<in> set nodes. fst n \<noteq> 0x7F \<and> length (snd (snd n)) + 4 < 65536"
  shows "paths_from (pre @ path_bytes nodes @ r) (length pre + length (path_bytes nodes)) (length pre) =
    concat (map node_file nodes)"
  using assms
proof (induction nodes arbitrary: pre)
  case Nil
  have "u8_at (pre @ path_bytes [] @ r) (length pre) = 0x7F"
    by (simp add: path_bytes_def node_bytes_def u8_at_def)
  then show ?case by (subst paths_from.simps) (simp add: path_bytes_def)
next
  case (Cons n ns)
  obtain t s p where n: "n = (t, s, p)" by (cases n)
  let ?d = "pre @ path_bytes (n # ns) @ r" and ?limit = "length pre + length (path_bytes (n # ns))"
  have d: "?d = (pre @ node_bytes n) @ path_bytes ns @ r" by (simp add: path_bytes_def)
  have limit: "?limit = length (pre @ node_bytes n) + length (path_bytes ns)" by (simp add: path_bytes_def)
  have IH: "paths_from ?d ?limit (length pre + (length p + 4)) = concat (map node_file ns)"
    unfolding d limit using Cons.IH [of "pre @ node_bytes n"] Cons.prems by (simp add: n)
  have type: "u8_at ?d (length pre) = t" "u8_at ?d (length pre + 1) = s"
    by (simp_all add: path_bytes_def n node_bytes_def u8_at_def)
  have "u16_at ((pre @ [t, s]) @ le_bytes 2 (length p + 4) @ p @ path_bytes ns @ r) (length (pre @ [t, s])) = of_nat (length p + 4)"
    using Cons.prems by (intro u16_at_here) (simp add: n)
  then have "u16_at ?d (length pre + 2) = of_nat (length p + 4)" by (simp add: path_bytes_def n node_bytes_def)
  moreover have "unat (of_nat (length p + 4) :: u16) = length p + 4"
    using Cons.prems by (simp add: n unat_of_nat del: of_nat_add)
  ultimately have len: "unat (u16_at ?d (length pre + 2)) = length p + 4" by simp
  have path: "node_path ?d (length pre) (length p + 4) = until_nul (length p div 2) (units (take (2 * (length p div 2)) p))"
    by (simp add: node_path_def path_bytes_def n node_bytes_def Let_def)
  have "length pre + (length p + 4) \<le> ?limit" by (simp add: path_bytes_def n)
  then have "paths_from ?d ?limit (length pre) =
      (if t = 4 \<and> s = 4 then node_path ?d (length pre) (length p + 4) else []) @ paths_from ?d ?limit (length pre + (length p + 4))"
    using Cons.prems by (intro paths_from_node type len) (simp_all add: n)
  then show ?case unfolding IH path by (simp add: n node_file_def)
qed

text \<open>C36: a boot option that was put together from its attributes, a description, device path nodes, the end node and
  optional data is parsed back to just these: the description and the paths of its file path nodes, one after
  another, whatever the other nodes hold.\<close>

theorem ParseLoadOption_roundtrip:
  assumes "0 \<notin> set desc" and "\<forall>n \<in> set nodes. fst n \<noteq> 0x7F" and "length (path_bytes nodes) < 65536"
  shows "ParseLoadOption (load_option attr desc nodes rest) no_entry =
    Some (no_entry\<lparr>boot_Attributes := attr, Description := desc, FilePath := concat (map node_file nodes)\<rparr>)"
proof -
  let ?d = "load_option attr desc nodes rest"
  let ?head = "le_bytes 4 (unat attr) @ le_bytes 2 (length (path_bytes nodes))"
  let ?pre = "?head @ wide_bytes desc @ [0, 0]"
  have d1: "?d = ?head @ wide_bytes desc @ [0, 0] @ path_bytes nodes @ rest" by (simp add: load_option_def)
  have d2: "?d = ?pre @ path_bytes nodes @ rest" by (simp add: load_option_def)
  have "u32_at (le_bytes 4 (unat attr) @ r) 0 = attr" for r
    using u32_at_le_bytes [of attr] by (simp add: u32_at_def)
  then have attr: "u32_at ?d 0 = attr" by (simp add: load_option_def)
  have "u16_at (le_bytes 4 (unat attr) @ le_bytes 2 (length (path_bytes nodes)) @ r) (length (le_bytes 4 (unat attr))) =
      of_nat (length (path_bytes nodes))" for r
    using assms(3) by (intro u16_at_here)
  then have "u16_at ?d 4 = of_nat (length (path_bytes nodes))" by (simp add: load_option_def)
  then have plen: "unat (u16_at ?d 4) = length (path_bytes nodes)"
    using assms(3) by (simp add: unat_of_nat)
  have desc: "description_from ?d 6 = (desc, length ?pre)"
    using description_from_bytes [OF assms(1), of ?head "path_bytes nodes @ rest"] unfolding d1 by simp
  have "length (snd (snd n)) + 4 < 65536" if "n \<in> set nodes" for n
  proof -
    have "length (node_bytes n) \<le> length (concat (map node_bytes nodes))"
      using that by (induction nodes) auto
    then show ?thesis using assms(3) by (simp add: path_bytes_def)
  qed
  then have paths: "paths_from ?d (length ?pre + length (path_bytes nodes)) (length ?pre) = concat (map node_file nodes)"
    unfolding d2 using assms(2) by (intro paths_from_bytes) auto
  have "min (length ?d) (length ?pre + length (path_bytes nodes)) = length ?pre + length (path_bytes nodes)"
    unfolding d2 by simp
  moreover have "\<not> length ?d < 6" unfolding d2 by simp
  ultimately show ?thesis
    using attr plen desc paths by (simp add: ParseLoadOption_def no_entry_def)
qed

theorem ParseLoadOption_roundtrip_witness:
  "ParseLoadOption (load_option 1 (wide ''Windows'') [(2, 1, [1, 2]), (4, 4, wide_bytes (wide ''efi''))] [9, 9]) no_entry =
     Some (no_entry\<lparr>boot_Attributes := 1, Description := wide ''Windows'', FilePath := wide ''efi''\<rparr>)"
proof -
  let ?nodes = "[(2, 1, [1, 2]), (4, 4, wide_bytes (wide ''efi''))] :: node list"
  have "0 \<notin> set (wide ''Windows'')" by code_simp
  moreover have "\<forall>n \<in> set ?nodes. fst n \<noteq> 0x7F" by simp
  moreover have "length (path_bytes ?nodes) < 65536" by (simp add: path_bytes_def wide_def)
  ultimately have "ParseLoadOption (load_option 1 (wide ''Windows'') ?nodes [9, 9]) no_entry =
      Some (no_entry\<lparr>boot_Attributes := 1, Description := wide ''Windows'', FilePath := concat (map node_file ?nodes)\<rparr>)"
    by (rule ParseLoadOption_roundtrip)
  moreover have "concat (map node_file ?nodes) = wide ''efi''" by code_simp
  ultimately show ?thesis by simp
qed

end
