(* ===== verification/Kernel_Callbacks.thy ===== *)
theory Kernel_Callbacks
  imports PE_Tables
begin

text \<open>
  The kernel's callbacks (\<open>WinSys/KernelCallbacks.cpp\<close>): which registration functions the loaded drivers import,
  from their files' import tables (\<open>PE_Tables.GetImports\<close>), and what they hook. The list of the loaded modules
  and the files are arguments. The minifilters come from the filter manager and are not modelled.
\<close>

section \<open>Registration functions\<close>

text \<open>\<open>CallbackKind\<close>: one bit for a kind, several in a driver's kinds.\<close>

type_synonym CallbackKind = u32

definition kind :: "nat \<Rightarrow> CallbackKind" where
  "kind i = push_bit i 1"

record Registration =
  Function :: string
  Kind :: CallbackKind
  Description :: string
  Numbered :: bool

definition reg :: "string \<Rightarrow> nat \<Rightarrow> string \<Rightarrow> Registration" where
  "reg f i d = \<lparr>Function = f, Kind = kind i, Description = d, Numbered = False\<rparr>"

definition Registrations :: "Registration list" where
  "Registrations =
     [reg ''PsSetCreateProcessNotifyRoutine'' 0 ''Process creation and exit'',
      reg ''PsSetCreateProcessNotifyRoutineEx'' 0 ''Process creation (can deny it) and exit'',
      reg ''PsSetCreateProcessNotifyRoutineEx2'' 0 ''Process creation (can deny it) and exit, Pico processes too'',
      reg ''PsSetCreateThreadNotifyRoutine'' 1 ''Thread creation and exit'',
      reg ''PsSetCreateThreadNotifyRoutineEx'' 1 ''Thread creation (on the new thread) and exit'',
      reg ''PsSetLoadImageNotifyRoutine'' 2 ''Image mapping: executables, DLLs, drivers'',
      reg ''PsSetLoadImageNotifyRoutineEx'' 2 ''Image mapping: executables, DLLs, drivers'',
      reg ''CmRegisterCallback'' 3 ''Registry operations (can deny or change them)'',
      reg ''CmRegisterCallbackEx'' 3 ''Registry operations at an altitude (can deny or change them)'',
      reg ''ObRegisterCallbacks'' 4 ''Handle opens and duplications of processes, threads and desktops (can strip access)'',
      reg ''FltRegisterFilter'' 5 ''A file system minifilter'',
      reg ''IoRegisterFsRegistrationChange'' 5 ''File systems' registration: a legacy file system filter'',
      reg ''IoRegisterFsRegistrationChangeEx'' 5 ''File systems' registration: a legacy file system filter'',
      reg ''IoRegisterFsRegistrationChangeMountAware'' 5
        ''File systems' registration and mounts: a legacy file system filter'',
      (reg ''FwpsCalloutRegister'' 6 ''A Windows Filtering Platform callout: network traffic'')\<lparr>Numbered := True\<rparr>,
      reg ''NdisFRegisterFilterDriver'' 6 ''An NDIS filter driver: network packets'',
      reg ''IoRegisterBootDriverCallback'' 7 ''Boot-start drivers' initialization (Early Launch Antimalware)'',
      reg ''KeRegisterBugCheckCallback'' 8 ''A bug check (crash)'',
      reg ''KeRegisterBugCheckReasonCallback'' 8 ''A bug check: data for the crash dump'',
      reg ''IoRegisterShutdownNotification'' 9 ''System shutdown'',
      reg ''IoRegisterLastChanceShutdownNotification'' 9 ''System shutdown, after the file systems flushed'',
      reg ''PoRegisterPowerSettingCallback'' 10 ''A power setting's changes'',
      reg ''ExRegisterCallback'' 11 ''An executive callback object (/Callback/PowerState, /Callback/SetSystemTime...)'',
      reg ''IoRegisterPlugPlayNotification'' 12 ''Device arrival and removal, device interfaces' changes'',
      reg ''IoRegisterContainerNotification'' 13 ''User sessions' changes (logon, logoff, connections)'',
      reg ''KeRegisterNmiCallback'' 14 ''Non-maskable interrupts'',
      reg ''DbgSetDebugPrintCallback'' 15 ''The kernel's debug print output'',
      reg ''SeRegisterLogonSessionTerminatedRoutine'' 16 ''Logon sessions' termination'',
      reg ''SeRegisterLogonSessionTerminatedRoutineEx'' 16 ''Logon sessions' termination'']"

definition is_digit :: "byte \<Rightarrow> bool" where
  "is_digit c \<longleftrightarrow> 0x30 \<le> c \<and> c \<le> 0x39"

definition registers :: "bytes \<Rightarrow> Registration \<Rightarrow> bool" where
  "registers f r \<longleftrightarrow>
     (let name = narrow (Function r)
      in (\<not> Numbered r \<and> f = name) \<or>
         (Numbered r \<and> length f > length name \<and> take (length name) f = name \<and> list_all is_digit (drop (length name) f)))"

definition Find :: "bytes \<Rightarrow> Registration option" where
  "Find f = find (registers f) Registrations"

definition KindOf :: "bytes \<Rightarrow> CallbackKind" where
  "KindOf f = (case Find f of None \<Rightarrow> 0 | Some r \<Rightarrow> Kind r)"

text \<open>\<open>Describe\<close>: a slash stands for the backslash of the callback objects' names.\<close>

definition Describe :: "bytes \<Rightarrow> wstr" where
  "Describe f = (case Find f of None \<Rightarrow> [] | Some r \<Rightarrow> wide_path (Description r))"

definition kind_names :: "string list" where
  "kind_names = [''Process'', ''Thread'', ''Image Load'', ''Registry'', ''Object'', ''File System'', ''Network'',
     ''Boot Driver'', ''Bug Check'', ''Shutdown'', ''Power'', ''Callback Object'', ''Plug and Play'', ''Session'', ''NMI'',
     ''Debug Print'', ''Logon Session'']"

fun kinds_from :: "CallbackKind \<Rightarrow> nat \<Rightarrow> string list \<Rightarrow> wstr \<Rightarrow> wstr" where
  "kinds_from kinds i [] acc = acc"
| "kinds_from kinds i (name # names) acc =
     kinds_from kinds (Suc i) names
       (if kinds AND push_bit i 1 \<noteq> 0 then add_name (wide '', '') acc (wide name) else acc)"

definition KindsText :: "CallbackKind \<Rightarrow> wstr" where
  "KindsText kinds = kinds_from kinds 0 kind_names []"

section \<open>The drivers\<close>

record KernelModule =
  module_Name :: wstr
  module_Path :: wstr
  module_LoadOrder :: u16

record CallbackImport =
  import_Function :: bytes
  import_Library :: bytes
  import_Kind :: CallbackKind

record CallbackDriver =
  driver_Name :: wstr
  driver_Path :: wstr
  driver_LoadOrder :: u16
  Kinds :: CallbackKind
  Imports :: "CallbackImport list"

record CallbackDrivers =
  Drivers :: "CallbackDriver list"
  Modules :: u32
  Unreadable :: "wstr list"

definition add_import :: "PEImportedLibrary \<Rightarrow> PEImportedFunction \<Rightarrow> CallbackDriver \<Rightarrow> CallbackDriver" where
  "add_import library f driver =
     (case (if f_Name f = [] then None else Find (f_Name f)) of
        None \<Rightarrow> driver
      | Some r \<Rightarrow>
          driver\<lparr>Imports := Imports driver @ [\<lparr>import_Function = f_Name f, import_Library = l_Name library, import_Kind = Kind r\<rparr>],
                 Kinds := Kinds driver OR Kind r\<rparr>)"

definition read_imports :: "PEFile \<Rightarrow> CallbackDriver \<Rightarrow> CallbackDriver" where
  "read_imports pe driver = fold (\<lambda>library. fold (add_import library) (l_Functions library)) (GetImports pe) driver"

definition no_driver :: CallbackDriver where
  "no_driver = \<lparr>driver_Name = [], driver_Path = [], driver_LoadOrder = 0, Kinds = 0, Imports = []\<rparr>"

text \<open>\<open>load path\<close> is \<open>PEFile::Load\<close> on the module's file (\<open>PE_File.Load\<close> on what the file system gives).\<close>

definition add_module :: "(wstr \<Rightarrow> PEFile option) \<Rightarrow> KernelModule \<Rightarrow> CallbackDrivers \<Rightarrow> CallbackDrivers" where
  "add_module load m result =
     (let result = result\<lparr>Modules := Modules result + 1\<rparr>
      in case load (module_Path m) of
           None \<Rightarrow> result\<lparr>Unreadable := Unreadable result @ [module_Path m]\<rparr>
         | Some pe \<Rightarrow>
             (let driver = read_imports pe no_driver
              in if Imports driver = [] then result
                 else result\<lparr>Drivers := Drivers result @ [driver\<lparr>driver_Name := module_Name m, driver_Path := module_Path m,
                                                            driver_LoadOrder := module_LoadOrder m\<rparr>]\<rparr>))"

definition EnumCallbackDrivers :: "(wstr \<Rightarrow> PEFile option) \<Rightarrow> KernelModule list \<Rightarrow> CallbackDrivers" where
  "EnumCallbackDrivers load modules = fold (add_module load) modules \<lparr>Drivers = [], Modules = 0, Unreadable = []\<rparr>"

section \<open>Kinds and their names\<close>

definition names_of :: "(nat \<Rightarrow> bool) \<Rightarrow> wstr list" where
  "names_of has = map (wide \<circ> snd) (filter (has \<circ> fst) (enumerate 0 kind_names))"

lemma kinds_from_foldl:
  "kinds_from kinds i names acc =
     foldl (add_name (wide '', '')) acc (map (wide \<circ> snd) (filter (bit kinds \<circ> fst) (enumerate i names)))"
  by (induction kinds i names acc rule: kinds_from.induct) (simp_all add: and_exp_eq_0_iff_not_bit)

lemma KindsText_names: "KindsText kinds = join (wide '', '') (names_of (bit kinds))"
  unfolding KindsText_def kinds_from_foldl names_of_def
  by (rule fold_add_name) (auto simp: kind_names_def)

lemma reg_kind: "i < 17 \<Longrightarrow> \<exists>j < 17. Kind (reg f i d) = kind j"
  by (auto simp: reg_def)

lemma reg_numbered_kind: "Kind (r\<lparr>Numbered := b\<rparr>) = Kind r"
  by simp

lemma Registration_kinds: "r \<in> set Registrations \<Longrightarrow> \<exists>j < 17. Kind r = kind j"
proof -
  have "list_all (\<lambda>r. \<exists>j < 17. Kind r = kind j) Registrations"
    unfolding Registrations_def list.pred_inject reg_numbered_kind
    by (intro conjI TrueI reg_kind) simp_all
  moreover assume "r \<in> set Registrations"
  ultimately show ?thesis by (simp only: list_all_iff)
qed

lemma Find_kind: "Find f = Some r \<Longrightarrow> \<exists>j < 17. Kind r = kind j"
  unfolding Find_def find_Some_iff by (metis Registration_kinds nth_mem)

lemma bit_kind: "bit (kind j) i \<longleftrightarrow> i = j \<and> j < 32"
  by (auto simp: kind_def bit_exp_iff)

lemma kind_eq:
  assumes "j < 17"
  shows "kind j = kind i \<longleftrightarrow> i = j"
proof
  assume "kind j = kind i"
  then have "bit (kind i) j" using assms bit_kind [of j j] by simp
  then show "i = j" by (simp add: bit_kind)
qed simp

text \<open>A driver whose kinds are those of its imports, each a single kind.\<close>

definition kinds_ok :: "CallbackDriver \<Rightarrow> bool" where
  "kinds_ok d \<longleftrightarrow> (\<forall>i. bit (Kinds d) i \<longleftrightarrow> (\<exists>k \<in> set (Imports d). import_Kind k = kind i)) \<and>
     (\<forall>k \<in> set (Imports d). import_Kind k = KindOf (import_Function k))"

lemma add_import_ok: "kinds_ok d \<Longrightarrow> kinds_ok (add_import library f d)"
proof (cases "if f_Name f = [] then None else Find (f_Name f)")
  case (Some r)
  assume ok: "kinds_ok d"
  from Some have find: "Find (f_Name f) = Some r" by (simp split: if_splits)
  then obtain j where j: "j < 17" "Kind r = kind j" using Find_kind by blast
  have kinds: "bit (Kinds d OR Kind r) i \<longleftrightarrow> (\<exists>k \<in> set (Imports d). import_Kind k = kind i) \<or> Kind r = kind i" for i
    using ok j by (auto simp: kinds_ok_def bit_or_iff bit_kind kind_eq)
  have "Kind r = KindOf (f_Name f)" by (simp add: KindOf_def find)
  then show ?thesis
    using ok Some kinds by (simp add: kinds_ok_def add_import_def) metis
qed (simp add: add_import_def)

lemma fold_keeps: "(\<And>x s. P s \<Longrightarrow> P (f x s)) \<Longrightarrow> P s \<Longrightarrow> P (fold f xs s)"
  by (induction xs arbitrary: s) auto

lemma read_imports_ok: "kinds_ok (read_imports pe no_driver)"
  unfolding read_imports_def
proof (rule fold_keeps)
  show "kinds_ok no_driver" by (simp add: kinds_ok_def no_driver_def)
next
  fix library d
  assume "kinds_ok d"
  then show "kinds_ok (fold (add_import library) (l_Functions library) d)"
    by (rule fold_keeps [rotated]) (rule add_import_ok)
qed

section \<open>Every module is accounted for\<close>

definition module_driver :: "(wstr \<Rightarrow> PEFile option) \<Rightarrow> KernelModule \<Rightarrow> CallbackDriver option" where
  "module_driver load m =
     (case load (module_Path m) of
        None \<Rightarrow> None
      | Some pe \<Rightarrow>
          let d = read_imports pe no_driver
          in if Imports d = [] then None
             else Some (d\<lparr>driver_Name := module_Name m, driver_Path := module_Path m, driver_LoadOrder := module_LoadOrder m\<rparr>))"

lemma add_module_parts:
  "Drivers (add_module load m r) = Drivers r @ (case module_driver load m of None \<Rightarrow> [] | Some d \<Rightarrow> [d])"
  "Modules (add_module load m r) = Modules r + 1"
  "Unreadable (add_module load m r) = Unreadable r @ (if load (module_Path m) = None then [module_Path m] else [])"
proof -
  show "Drivers (add_module load m r) = Drivers r @ (case module_driver load m of None \<Rightarrow> [] | Some d \<Rightarrow> [d])"
    by (cases "load (module_Path m)") (simp_all add: add_module_def module_driver_def Let_def)
  show "Modules (add_module load m r) = Modules r + 1"
    by (cases "load (module_Path m)") (simp_all add: add_module_def Let_def)
  show "Unreadable (add_module load m r) = Unreadable r @ (if load (module_Path m) = None then [module_Path m] else [])"
    by (cases "load (module_Path m)") (simp_all add: add_module_def Let_def)
qed

lemma fold_add_module:
  "Drivers (fold (add_module load) ms r) = Drivers r @ List.map_filter (module_driver load) ms"
  "Modules (fold (add_module load) ms r) = Modules r + of_nat (length ms)"
  "Unreadable (fold (add_module load) ms r) =
     Unreadable r @ map module_Path (filter (\<lambda>m. load (module_Path m) = None) ms)"
proof (induction ms arbitrary: r)
  case (Cons m ms)
  { case 1 show ?case by (simp only: fold_simps o_apply Cons.IH(1) add_module_parts)
        (simp add: List.map_filter_simps split: option.split) }
  { case 2 show ?case by (simp only: fold_simps o_apply Cons.IH(2) add_module_parts) simp }
  { case 3 show ?case by (simp only: fold_simps o_apply Cons.IH(3) add_module_parts) simp }
qed (simp_all add: List.map_filter_simps)

definition driver_text_ok :: "CallbackDriver \<Rightarrow> bool" where
  "driver_text_ok d \<longleftrightarrow>
     Imports d \<noteq> [] \<and>
     KindsText (Kinds d) = join (wide '', '') (names_of (\<lambda>i. kind i \<in> (\<lambda>k. KindOf (import_Function k)) ` set (Imports d)))"

lemma module_driver_ok: "module_driver load m = Some d \<Longrightarrow> driver_text_ok d"
proof -
  assume "module_driver load m = Some d"
  then obtain pe where "Imports d \<noteq> []" and "Kinds d = Kinds (read_imports pe no_driver)"
    and "Imports d = Imports (read_imports pe no_driver)"
    by (auto simp: module_driver_def Let_def split: option.splits if_splits)
  with read_imports_ok [of pe] have ok: "kinds_ok d" and ne: "Imports d \<noteq> []" by (simp_all add: kinds_ok_def)
  have "bit (Kinds d) i \<longleftrightarrow> kind i \<in> (\<lambda>k. KindOf (import_Function k)) ` set (Imports d)" for i
    using ok by (auto simp: kinds_ok_def image_iff) metis
  then have "bit (Kinds d) = (\<lambda>i. kind i \<in> (\<lambda>k. KindOf (import_Function k)) ` set (Imports d))" by (rule ext)
  then show ?thesis using ne by (simp only: driver_text_ok_def KindsText_names simp_thms)
qed

text \<open>Every loaded module is counted once; those whose file can't be read are listed as such; the drivers are
  those that import a registration function, in the kernel's load order, and the text of a driver's kinds names
  exactly the kinds of the functions that it imports.\<close>

theorem EnumCallbackDrivers_complete:
  "EnumCallbackDrivers load ms =
     \<lparr>Drivers = List.map_filter (module_driver load) ms, Modules = of_nat (length ms),
      Unreadable = map module_Path (filter (\<lambda>m. load (module_Path m) = None) ms)\<rparr> \<and>
   list_all driver_text_ok (Drivers (EnumCallbackDrivers load ms))"
proof -
  have "EnumCallbackDrivers load ms =
     \<lparr>Drivers = List.map_filter (module_driver load) ms, Modules = of_nat (length ms),
      Unreadable = map module_Path (filter (\<lambda>m. load (module_Path m) = None) ms)\<rparr>"
    by (rule CallbackDrivers.equality) (simp_all add: EnumCallbackDrivers_def fold_add_module)
  moreover have "list_all driver_text_ok (List.map_filter (module_driver load) ms)"
    by (auto simp: list_all_iff List.map_filter_def module_driver_ok)
  ultimately show ?thesis by simp
qed

end
