(* ===== verification/Module_Tracker.thy ===== *)
theory Module_Tracker
  imports Handle_Names
begin

text \<open>
  The modules of a process (\<open>WinSys/ProcessModuleTracker.cpp\<close>): the list is built again on each call, from the mapped
  regions of the process or from a tool help snapshot, and the objects of modules that were there before are
  kept. A \<open>shared_ptr\<close> is an index into the objects made so far, since the scan changes objects that the
  lists before it share. What the system says of the process is an argument: the regions, the names of the
  mapped files and the image headers.
\<close>

section \<open>State\<close>

datatype MapType = Image | Data

record ModuleInfo =
  Name :: wstr
  Path :: wstr
  ImageBase :: u64
  Base :: u64
  ModuleSize :: u32
  Characteristics :: u32
  Type :: MapType

record Tracker =
  objects :: "ModuleInfo list"
  m_modules :: "nat list"
  m_newModules :: "nat list"
  m_unloadedModules :: "nat list"
  m_moduleMap :: "(wstr, nat) table"

definition no_modules :: Tracker where
  "no_modules = \<lparr>objects = [], m_modules = [], m_newModules = [], m_unloadedModules = [], m_moduleMap = []\<rparr>"

definition GetModules :: "Tracker \<Rightarrow> ModuleInfo list" where
  "GetModules s = map (\<lambda>i. objects s ! i) (m_modules s)"

definition GetNewModules :: "Tracker \<Rightarrow> ModuleInfo list" where
  "GetNewModules s = map (\<lambda>i. objects s ! i) (m_newModules s)"

definition GetUnloadedModules :: "Tracker \<Rightarrow> ModuleInfo list" where
  "GetUnloadedModules s = map (\<lambda>i. objects s ! i) (m_unloadedModules s)"

text \<open>A new object.\<close>

definition add_object :: "ModuleInfo \<Rightarrow> Tracker \<Rightarrow> nat \<times> Tracker" where
  "add_object mi s = (length (objects s), s\<lparr>objects := objects s @ [mi]\<rparr>)"

definition module_key :: "wstr \<Rightarrow> u64 \<Rightarrow> wstr" where
  "module_key path base = path @ wide ''#'' @ to_wstring (unat base)"

text \<open>\<open>Update\<close>: the entries of the old map that the new one lacks are the unloaded modules.\<close>

definition Update :: "nat list \<Rightarrow> (wstr, nat) table \<Rightarrow> Tracker \<Rightarrow> Tracker" where
  "Update modules m s =
     s\<lparr>m_unloadedModules := map snd (filter (\<lambda>e. tfind m (fst e) = None) (m_moduleMap s)),
       m_modules := modules, m_moduleMap := m\<rparr>"

section \<open>The mapped regions\<close>

record Region =
  BaseAddress :: u64
  AllocationBase :: u64
  RegionSize :: u64
  RegionState :: u32
  RegionType :: u32

definition MEM_COMMIT :: u32 where "MEM_COMMIT = 0x1000"
definition MEM_PRIVATE :: u32 where "MEM_PRIVATE = 0x20000"
definition MEM_MAPPED :: u32 where "MEM_MAPPED = 0x40000"

text \<open>
  The walk over the address space: \<open>query a\<close> is what \<open>VirtualQueryEx\<close> gives for the address \<open>a\<close>, nothing beyond
  the last region. \<open>None\<close> stands for a walk that does not end.
\<close>

partial_function (option) walk :: "(u64 \<Rightarrow> Region option) \<Rightarrow> u64 \<Rightarrow> Region list option" where
  "walk query a =
     (case query a of
        None \<Rightarrow> Some []
      | Some r \<Rightarrow> Option.bind (walk query (a + RegionSize r)) (\<lambda>rs. Some (r # rs)))"

text \<open>The header of an image: the fields of the 32-bit and of the 64-bit optional header.\<close>

record NtHeader =
  Machine :: u16
  ImageBase32 :: u32
  DllCharacteristics32 :: u16
  ImageBase64 :: u64
  DllCharacteristics64 :: u16

record Environment =
  MappedFileName :: "u64 \<Rightarrow> wstr"
  DosNameFromNtName :: "wstr \<Rightarrow> wstr"
  ImageHeaderAt :: "u64 \<Rightarrow> NtHeader option"

definition after_last :: "16 word \<Rightarrow> wstr \<Rightarrow> wstr" where
  "after_last c s = rev (takeWhile (\<lambda>x. x \<noteq> c) (rev s))"

definition FillModule :: "Environment \<Rightarrow> Region \<Rightarrow> wstr \<Rightarrow> ModuleInfo" where
  "FillModule env r ntPath =
     (let mi = \<lparr>Name = (if ntPath \<noteq> [] then after_last 0x5C ntPath else []),
            Path = (if ntPath \<noteq> [] then DosNameFromNtName env ntPath else []),
            ImageBase = 0, Base = AllocationBase r, ModuleSize = 0, Characteristics = 0,
            Type = (if RegionType r = MEM_MAPPED then Data else Image)\<rparr>
      in if Type mi \<noteq> Image then mi
         else case ImageHeaderAt env (BaseAddress r) of
                None \<Rightarrow> mi
              | Some nt \<Rightarrow>
                  if Machine nt = 0x1C0 \<or> Machine nt = 0x14C
                  then mi\<lparr>ImageBase := ucast (ImageBase32 nt), Characteristics := ucast (DllCharacteristics32 nt)\<rparr>
                  else mi\<lparr>ImageBase := ImageBase64 nt, Characteristics := ucast (DllCharacteristics64 nt)\<rparr>)"

text \<open>The scan: the tracker, the new list and map, the current module and the mapping it is of.\<close>

record Scan =
  tracker :: Tracker
  modules :: "nat list"
  module_map :: "(wstr, nat) table"
  current :: "nat option"
  currentBase :: u64

definition set_size :: "(u32 \<Rightarrow> u32) \<Rightarrow> nat \<Rightarrow> Tracker \<Rightarrow> Tracker" where
  "set_size f i s = s\<lparr>objects := (objects s)[i := (objects s ! i)\<lparr>ModuleSize := f (ModuleSize (objects s ! i))\<rparr>]\<rparr>"

definition new_mapping :: "Environment \<Rightarrow> Region \<Rightarrow> Scan \<Rightarrow> Scan" where
  "new_mapping env r sc =
     (let ntPath = MappedFileName env (AllocationBase r); key = module_key ntPath (AllocationBase r);
          s = tracker sc;
          (i, s) =
            (case tfind (m_moduleMap s) key of
               Some i \<Rightarrow> (i, s)
             | None \<Rightarrow> (let (i, s) = add_object (FillModule env r ntPath) s
                       in (i, s\<lparr>m_newModules := m_newModules s @ [i]\<rparr>)))
      in \<lparr>tracker = set_size (\<lambda>_. 0) i s, modules = modules sc @ [i], module_map = tinsert key i (module_map sc),
          current = Some i, currentBase = AllocationBase r\<rparr>)"

definition live :: "Region \<Rightarrow> bool" where
  "live r \<longleftrightarrow> RegionState r = MEM_COMMIT \<and> RegionType r \<noteq> MEM_PRIVATE"

text \<open>
  A region: the start of a mapping or a further region of the current one, whose size it adds to. A committed
  mapping has a base other than null, so there is a current module then.
\<close>

definition region_step :: "Environment \<Rightarrow> Region \<Rightarrow> Scan \<Rightarrow> Scan" where
  "region_step env r sc =
     (if \<not> live r then sc
      else
        (let sc = (if AllocationBase r \<noteq> currentBase sc then new_mapping env r sc else sc)
         in case current sc of
              None \<Rightarrow> sc
            | Some i \<Rightarrow> sc\<lparr>tracker := set_size (\<lambda>n. n + ucast (RegionSize r)) i (tracker sc)\<rparr>))"

definition EnumModulesWithVirtualQuery :: "Environment \<Rightarrow> Region list \<Rightarrow> Tracker \<Rightarrow> Tracker" where
  "EnumModulesWithVirtualQuery env regions s =
     (let sc = fold (region_step env) regions
            \<lparr>tracker = s\<lparr>m_newModules := []\<rparr>, modules = [], module_map = [], current = None, currentBase = 0\<rparr>
      in Update (modules sc) (module_map sc) (tracker sc))"

section \<open>The tool help snapshot\<close>

record ModuleEntry =
  szModule :: wstr
  szExePath :: wstr
  hModule :: u64
  modBaseSize :: u32

definition entry_key :: "ModuleEntry \<Rightarrow> wstr" where
  "entry_key me = module_key (szExePath me) (hModule me)"

definition FillEntry :: "ModuleEntry \<Rightarrow> ModuleInfo" where
  "FillEntry me = \<lparr>Name = szModule me, Path = szExePath me, ImageBase = 0, Base = hModule me, ModuleSize = modBaseSize me,
     Characteristics = 0, Type = Image\<rparr>"

definition entry_step :: "ModuleEntry \<Rightarrow> Scan \<Rightarrow> Scan" where
  "entry_step me sc =
     (let key = entry_key me; s = tracker sc;
          (i, s) =
            (case tfind (m_moduleMap s) key of
               Some i \<Rightarrow> (i, s)
             | None \<Rightarrow> (let (i, s) = add_object (FillEntry me) s
                       in (i, s\<lparr>m_newModules := m_newModules s @ [i]\<rparr>)))
      in sc\<lparr>tracker := s, modules := modules sc @ [i], module_map := tinsert key i (module_map sc)\<rparr>)"

text \<open>A snapshot that can't be taken changes nothing.\<close>

definition EnumModulesWithToolHelp :: "ModuleEntry list option \<Rightarrow> Tracker \<Rightarrow> Tracker" where
  "EnumModulesWithToolHelp snapshot s =
     (case snapshot of
        None \<Rightarrow> s
      | Some entries \<Rightarrow>
          let sc = fold entry_step entries
                \<lparr>tracker = s\<lparr>m_newModules := []\<rparr>, modules = [], module_map = [], current = None, currentBase = 0\<rparr>
          in Update (modules sc) (module_map sc) (tracker sc))"

text \<open>\<open>EnumModules\<close>: by the regions with a handle to the process, else by tool help; how many modules there are.\<close>

definition EnumModules ::
  "Environment \<Rightarrow> (u64 \<Rightarrow> Region option) option \<Rightarrow> ModuleEntry list option \<Rightarrow> Tracker \<Rightarrow> (u32 \<times> Tracker) option" where
  "EnumModules env handle snapshot s =
     (case handle of
        Some query \<Rightarrow>
          map_option (\<lambda>regions. let s' = EnumModulesWithVirtualQuery env regions s in (of_nat (length (m_modules s')), s'))
            (walk query 0)
      | None \<Rightarrow>
          Some (case snapshot of
                  None \<Rightarrow> (0, s)
                | Some _ \<Rightarrow> let s' = EnumModulesWithToolHelp snapshot s in (of_nat (length (m_modules s')), s')))"

section \<open>The walk ends\<close>

text \<open>The walk over the address space ends when regions are not empty and lie below the end of the user
  address space, and it sees the region at the start and then those that follow it.\<close>

theorem walk_ends:
  assumes "\<forall>a r. query a = Some r \<longrightarrow> 0 < RegionSize r \<and> unat a + unat (RegionSize r) \<le> 2 ^ 47"
  shows "\<exists>rs. walk query a = Some rs \<and>
    (case query a of None \<Rightarrow> rs = [] | Some r \<Rightarrow> rs \<noteq> [] \<and> hd rs = r \<and> walk query (a + RegionSize r) = Some (tl rs))"
proof -
  have ends: "\<exists>rs. walk query a = Some rs" for a
  proof (induction "2 ^ 47 - unat a" arbitrary: a rule: less_induct)
    case less
    show ?case
    proof (cases "query a")
      case None
      then show ?thesis by (simp add: walk.simps)
    next
      case (Some r)
      then have pos: "0 < RegionSize r" and le: "unat a + unat (RegionSize r) \<le> 2 ^ 47" using assms by blast+
      have "unat (a + RegionSize r) = unat a + unat (RegionSize r)"
        using le by (subst unat_add_lem [THEN iffD1]) auto
      moreover have "0 < unat (RegionSize r)" using pos by (simp add: unat_gt_0 word_gt_0)
      ultimately have "2 ^ 47 - unat (a + RegionSize r) < 2 ^ 47 - unat a" using le by simp
      from less [OF this] Some show ?thesis by (auto simp: walk.simps [of _ a])
    qed
  qed
  show ?thesis
  proof (cases "query a")
    case None
    then show ?thesis by (simp add: walk.simps)
  next
    case (Some r)
    obtain rs where "walk query (a + RegionSize r) = Some rs" using ends by blast
    with Some show ?thesis by (simp add: walk.simps [of _ a])
  qed
qed

definition one_region :: "u64 \<Rightarrow> Region option" where
  "one_region a =
     (if a < 0x10000 then Some \<lparr>BaseAddress = 0, AllocationBase = 0, RegionSize = 0x10000, RegionState = 0x10000, RegionType = 0\<rparr>
      else None)"

theorem walk_ends_witness: "\<exists>rs. walk one_region 0 = Some rs"
proof -
  have "\<forall>a r. one_region a = Some r \<longrightarrow> 0 < RegionSize r \<and> unat a + unat (RegionSize r) \<le> 2 ^ 47"
    by (auto simp: one_region_def word_less_nat_alt)
  from walk_ends [OF this, of 0] show ?thesis by blast
qed

section \<open>Tool help snapshots are diffed\<close>

lemma fold_snoc_inv:
  assumes "P [] s" and "\<And>ys y t. P ys t \<Longrightarrow> P (ys @ [y]) (f y t)"
  shows "P xs (fold f xs s)"
  by (induction xs rule: rev_induct) (simp_all add: assms)

definition object_key :: "ModuleInfo list \<Rightarrow> nat \<Rightarrow> wstr" where
  "object_key os i = module_key (Path (os ! i)) (Base (os ! i))"

text \<open>The objects of a map are there and have the keys that they are found by.\<close>

definition keyed :: "ModuleInfo list \<Rightarrow> (wstr, nat) table \<Rightarrow> bool" where
  "keyed os m \<longleftrightarrow> table_ok m \<and> (\<forall>(k, i) \<in> set m. i < length os \<and> object_key os i = k)"

definition toolhelp_ok :: "Tracker \<Rightarrow> bool" where
  "toolhelp_ok s \<longleftrightarrow> keyed (objects s) (m_moduleMap s)"

lemma object_key_append: "i < length os \<Longrightarrow> object_key (os @ new) i = object_key os i"
  by (simp add: object_key_def nth_append)

lemma object_key_new: "object_key (os @ [FillEntry me]) (length os) = entry_key me"
  by (simp add: object_key_def FillEntry_def entry_key_def)

lemma keyed_append: "keyed os m \<Longrightarrow> keyed (os @ new) m"
  by (auto simp: keyed_def object_key_append)

lemma keyed_find: "keyed os m \<Longrightarrow> tfind m k = Some i \<Longrightarrow> i < length os \<and> object_key os i = k"
  by (auto simp: keyed_def dest!: tfind_in_set)

lemma set_tinsert: "set (tinsert k v m) \<subseteq> insert (k, v) (set m)"
  by (auto simp: tinsert_def split: option.splits)

lemma keyed_tinsert: "keyed os m \<Longrightarrow> i < length os \<Longrightarrow> object_key os i = k \<Longrightarrow> keyed os (tinsert k i m)"
  using set_tinsert [of k i m] by (auto simp: keyed_def)

text \<open>What the scan has after the entries \<open>ys\<close>.\<close>

definition seen :: "(wstr, nat) table \<Rightarrow> ModuleEntry list \<Rightarrow> Scan \<Rightarrow> bool" where
  "seen m ys sc \<longleftrightarrow>
     (let s = tracker sc; os = objects s
      in m_moduleMap s = m \<and> keyed os m \<and> keyed os (module_map sc) \<and>
         tkeys (module_map sc) = entry_key ` set ys \<and>
         map (object_key os) (modules sc) = map entry_key ys \<and> (\<forall>i \<in> set (modules sc). i < length os) \<and>
         map (object_key os) (m_newModules s) = filter (\<lambda>k. tfind m k = None) (map entry_key ys) \<and>
         (\<forall>i \<in> set (m_newModules s). i < length os))"

lemma map_object_key: "\<forall>i \<in> set xs. i < length os \<Longrightarrow> map (object_key (os @ new)) xs = map (object_key os) xs"
  by (simp add: object_key_append)

lemma seen_step: "seen m ys sc \<Longrightarrow> seen m (ys @ [me]) (entry_step me sc)"
proof (cases "tfind m (entry_key me)")
  case (Some i)
  assume a: "seen m ys sc"
  then have "i < length (objects (tracker sc)) \<and> object_key (objects (tracker sc)) i = entry_key me"
    using Some keyed_find by (auto simp: seen_def Let_def)
  with a Some show ?thesis by (auto simp: seen_def entry_step_def Let_def keyed_tinsert)
next
  case None
  assume a: "seen m ys sc"
  define os where "os = objects (tracker sc)"
  let ?os = "os @ [FillEntry me]"
  have "keyed ?os m" and km: "keyed ?os (module_map sc)"
    using a by (auto simp: seen_def Let_def os_def intro: keyed_append)
  moreover have "keyed ?os (tinsert (entry_key me) (length os) (module_map sc))"
    by (rule keyed_tinsert [OF km]) (simp_all add: object_key_new)
  moreover have "map (object_key ?os) (modules sc) = map entry_key ys"
    and "map (object_key ?os) (m_newModules (tracker sc)) = filter (\<lambda>k. tfind m k = None) (map entry_key ys)"
    using a by (simp_all add: seen_def Let_def os_def map_object_key)
  ultimately show ?thesis
    using a None by (auto simp: seen_def entry_step_def add_object_def Let_def os_def [symmetric] object_key_new less_Suc_eq)
qed

lemma toolhelp_seen:
  assumes "toolhelp_ok s"
  shows "seen (m_moduleMap s) xs (fold entry_step xs
    \<lparr>tracker = s\<lparr>m_newModules := []\<rparr>, modules = [], module_map = [], current = None, currentBase = 0\<rparr>)"
  by (rule fold_snoc_inv [where P = "seen (m_moduleMap s)"])
    (use assms in \<open>simp_all add: seen_step, simp add: seen_def toolhelp_ok_def keyed_def\<close>)

definition keys_of :: "(Tracker \<Rightarrow> nat list) \<Rightarrow> Tracker \<Rightarrow> wstr list" where
  "keys_of field s = map (object_key (objects s)) (field s)"

text \<open>What was known before is unloaded when no entry has its key; the objects of the old map are still there.\<close>

lemma toolhelp_scan:
  fixes xs :: "ModuleEntry list"
  assumes "toolhelp_ok s"
  defines "s' \<equiv> EnumModulesWithToolHelp (Some xs) s"
  shows "toolhelp_ok s'" and "keys_of m_modules s' = map entry_key xs"
    and "tkeys (m_moduleMap s') = entry_key ` set xs"
    and "keys_of m_newModules s' = filter (\<lambda>k. tfind (m_moduleMap s) k = None) (map entry_key xs)"
    and "set (keys_of m_unloadedModules s') = {k. tfind (m_moduleMap s) k \<noteq> None \<and> k \<notin> entry_key ` set xs}"
proof -
  define sc where "sc = fold entry_step xs
    \<lparr>tracker = s\<lparr>m_newModules := []\<rparr>, modules = [], module_map = [], current = None, currentBase = 0\<rparr>"
  have seen: "seen (m_moduleMap s) xs sc" unfolding sc_def by (rule toolhelp_seen [OF assms(1)])
  have s': "s' = Update (modules sc) (module_map sc) (tracker sc)" by (simp add: s'_def EnumModulesWithToolHelp_def sc_def Let_def)
  show "toolhelp_ok s'" and "keys_of m_modules s' = map entry_key xs"
    and keys: "tkeys (m_moduleMap s') = entry_key ` set xs"
    and "keys_of m_newModules s' = filter (\<lambda>k. tfind (m_moduleMap s) k = None) (map entry_key xs)"
    using seen by (simp_all add: s' Update_def seen_def Let_def toolhelp_ok_def keys_of_def)
  have map: "m_moduleMap (tracker sc) = m_moduleMap s" and old: "keyed (objects (tracker sc)) (m_moduleMap s)"
    and found: "tkeys (module_map sc) = entry_key ` set xs"
    using seen by (simp_all add: seen_def Let_def)
  have "keys_of m_unloadedModules s' = map fst (filter (\<lambda>e. tfind (module_map sc) (fst e) = None) (m_moduleMap s))"
    using old by (auto simp: s' Update_def keys_of_def map keyed_def)
  then have "set (keys_of m_unloadedModules s') = {k \<in> tkeys (m_moduleMap s). k \<notin> tkeys (module_map sc)}"
    by (simp only: tkeys_none) (auto simp: tkeys_def intro: rev_image_eqI)
  then show "set (keys_of m_unloadedModules s') = {k. tfind (m_moduleMap s) k \<noteq> None \<and> k \<notin> entry_key ` set xs}"
    unfolding found by (auto simp: tkeys_iff)
qed

interpretation toolhelp: snapshot_diff "\<lambda>xs. EnumModulesWithToolHelp (Some xs)" entry_key
  "\<lambda>s k. k \<in> tkeys (m_moduleMap s)" "keys_of m_modules" "keys_of m_newModules" "keys_of m_unloadedModules" toolhelp_ok
proof unfold_locales
  fix s :: Tracker and xs k
  assume ok: "toolhelp_ok s"
  note scan = toolhelp_scan [OF ok, of xs]
  show "toolhelp_ok (EnumModulesWithToolHelp (Some xs) s)" by (rule scan(1))
  show "keys_of m_modules (EnumModulesWithToolHelp (Some xs) s) = map entry_key xs" by (rule scan(2))
  show "k \<in> tkeys (m_moduleMap (EnumModulesWithToolHelp (Some xs) s)) \<longleftrightarrow> k \<in> entry_key ` set xs" by (simp add: scan(3))
  show "keys_of m_newModules (EnumModulesWithToolHelp (Some xs) s) =
      filter (\<lambda>k. k \<notin> tkeys (m_moduleMap s)) (map entry_key xs)"
    unfolding scan(4) by (simp add: tkeys_none)
  show "set (keys_of m_unloadedModules (EnumModulesWithToolHelp (Some xs) s)) =
      {k. k \<in> tkeys (m_moduleMap s) \<and> k \<notin> entry_key ` set xs}"
    unfolding scan(5) by (auto simp: tkeys_iff)
qed

lemma no_modules_ok: "toolhelp_ok no_modules"
  by (simp add: toolhelp_ok_def no_modules_def keyed_def)

lemma toolhelp_reachable: "toolhelp_ok (fold EnumModulesWithToolHelp snapshots no_modules)"
proof (induction snapshots rule: rev_induct)
  case (snoc x xs)
  then show ?case using toolhelp.ok_scan by (cases x) (simp_all add: EnumModulesWithToolHelp_def)
qed (simp add: no_modules_ok)

text \<open>After any snapshots, a further one lists its modules in its order, reports as new exactly those that
  were not there before and as unloaded exactly those that were and are gone, and the same snapshot again
  reports nothing when it has no module twice.\<close>

theorem modules_reported:
  "let s = fold EnumModulesWithToolHelp snapshots no_modules; s' = EnumModulesWithToolHelp (Some xs) s
   in keys_of m_modules s' = map entry_key xs \<and>
      keys_of m_newModules s' = filter (\<lambda>k. k \<notin> set (keys_of m_modules s)) (map entry_key xs) \<and>
      set (keys_of m_unloadedModules s') = set (keys_of m_modules s) - entry_key ` set xs"
proof -
  define s where "s = fold EnumModulesWithToolHelp snapshots no_modules"
  have ok: "toolhelp_ok s" unfolding s_def by (rule toolhelp_reachable)
  have known: "set (keys_of m_modules s) = tkeys (m_moduleMap s)"
    unfolding s_def
  proof (induction snapshots rule: rev_induct)
    case (snoc x ys)
    note ok = toolhelp_reachable [of ys]
    from snoc show ?case
    proof (cases x)
      case (Some es)
      then show ?thesis using toolhelp.listed_scan [OF ok] toolhelp.known_scan [OF ok] by auto
    qed (simp add: EnumModulesWithToolHelp_def)
  qed (simp add: no_modules_def keys_of_def)
  have "keys_of m_newModules (EnumModulesWithToolHelp (Some xs) s) =
      filter (\<lambda>k. k \<notin> tkeys (m_moduleMap s)) (map entry_key xs)"
    unfolding toolhelp_scan(4) [OF ok] by (simp add: tkeys_none)
  then show ?thesis
    using toolhelp.listed_scan [OF ok, of xs] toolhelp.gone_scan [OF ok, of xs]
    by (auto simp: Let_def known s_def [symmetric])
qed

section \<open>The sizes of the mapped modules\<close>

definition size_at :: "Region list \<Rightarrow> u64 \<Rightarrow> u32" where
  "size_at rs b = (\<Sum>r\<leftarrow>filter (\<lambda>r. live r \<and> AllocationBase r = b) rs. ucast (RegionSize r))"

definition bases :: "Region list \<Rightarrow> u64 list" where
  "bases rs = remdups_adj (map AllocationBase (filter live rs))"

definition mapping_key :: "Environment \<Rightarrow> u64 \<Rightarrow> wstr" where
  "mapping_key env b = module_key (MappedFileName env b) b"

lemma remdups_adj_snoc:
  "remdups_adj (xs @ [x]) = (if xs \<noteq> [] \<and> last xs = x then remdups_adj xs else remdups_adj xs @ [x])"
  by (induction xs rule: remdups_adj.induct) auto

lemma bases_snoc:
  "bases (rs @ [r]) =
     (if live r \<and> \<not> (bases rs \<noteq> [] \<and> last (bases rs) = AllocationBase r) then bases rs @ [AllocationBase r] else bases rs)"
  by (auto simp: bases_def remdups_adj_snoc)

lemma size_at_snoc:
  "size_at (rs @ [r]) b = size_at rs b + (if live r \<and> AllocationBase r = b then ucast (RegionSize r) else 0)"
  by (simp add: size_at_def)

lemma size_at_none: "b \<notin> set (bases rs) \<Longrightarrow> size_at rs b = 0"
proof -
  assume "b \<notin> set (bases rs)"
  then have "filter (\<lambda>r. live r \<and> AllocationBase r = b) rs = []"
    by (auto simp: bases_def filter_empty_conv)
  then show ?thesis by (simp add: size_at_def)
qed

text \<open>A map whose objects are there, each under one key.\<close>

definition map_ok :: "nat \<Rightarrow> (wstr, nat) table \<Rightarrow> bool" where
  "map_ok n m \<longleftrightarrow> table_ok m \<and> distinct (map snd m) \<and> (\<forall>i \<in> set (map snd m). i < n)"

definition sizes :: "Tracker \<Rightarrow> nat list \<Rightarrow> u32 list" where
  "sizes s ids = map (\<lambda>i. ModuleSize (objects s ! i)) ids"

text \<open>What the scan has after the regions \<open>rs\<close>; \<open>m\<close> is the old map and \<open>n\<close> the number of objects there were.\<close>

definition scanned :: "Environment \<Rightarrow> (wstr, nat) table \<Rightarrow> nat \<Rightarrow> Region list \<Rightarrow> Scan \<Rightarrow> bool" where
  "scanned env m n rs sc \<longleftrightarrow>
     m_moduleMap (tracker sc) = m \<and> n \<le> length (objects (tracker sc)) \<and>
     modules sc = map snd (module_map sc) \<and> map fst (module_map sc) = map (mapping_key env) (bases rs) \<and>
     map_ok (length (objects (tracker sc))) (module_map sc) \<and>
     (\<forall>(k, i) \<in> set (module_map sc). tfind m k = Some i \<or> (tfind m k = None \<and> n \<le> i)) \<and>
     sizes (tracker sc) (modules sc) = map (size_at rs) (bases rs) \<and>
     currentBase sc = (if bases rs = [] then 0 else last (bases rs)) \<and>
     current sc = (if modules sc = [] then None else Some (last (modules sc)))"

lemma set_size_simps [simp]:
  "m_moduleMap (set_size f i s) = m_moduleMap s" "m_newModules (set_size f i s) = m_newModules s"
  "length (objects (set_size f i s)) = length (objects s)"
  by (simp_all add: set_size_def)

lemma sizes_set_size_other: "i \<notin> set ids \<Longrightarrow> sizes (set_size f i s) ids = sizes s ids"
  by (auto simp: sizes_def set_size_def) (metis nth_list_update_neq)

lemma sizes_set_size_snoc:
  "i \<notin> set ids \<Longrightarrow> i < length (objects s) \<Longrightarrow>
   sizes (set_size f i s) (ids @ [i]) = sizes s ids @ [f (ModuleSize (objects s ! i))]"
  using sizes_set_size_other [of i ids f s] by (simp add: sizes_def set_size_def)

lemma sizes_append: "sizes s (xs @ ys) = sizes s xs @ sizes s ys"
  by (simp add: sizes_def)

text \<open>A further region of the current mapping.\<close>

lemma region_further:
  assumes "scanned env m n rs sc" and "live r" and "AllocationBase r \<noteq> 0" and "AllocationBase r = currentBase sc"
    and "distinct (map (mapping_key env) (bases rs))"
  shows "scanned env m n (rs @ [r]) (region_step env r sc)"
proof -
  have ne: "bases rs \<noteq> []" using assms(1,3,4) by (auto simp: scanned_def split: if_splits)
  then have last: "last (bases rs) = AllocationBase r" using assms(1,4) by (simp add: scanned_def)
  have "length (map fst (module_map sc)) = length (bases rs)" using assms(1) by (simp add: scanned_def)
  then have mne: "modules sc \<noteq> []" using ne assms(1) by (auto simp: scanned_def)
  define ids i where "ids = butlast (modules sc)" and "i = last (modules sc)"
  have mods: "modules sc = ids @ [i]" using mne by (simp add: ids_def i_def)
  obtain bs where bs: "bases rs = bs @ [AllocationBase r]" using ne last by (metis append_butlast_last_id)
  have ok: "map_ok (length (objects (tracker sc))) (module_map sc)" and ids: "map snd (module_map sc) = ids @ [i]"
    using assms(1) mods by (simp_all add: scanned_def)
  have dist: "distinct (ids @ [i])" and ilen: "i < length (objects (tracker sc))"
    using ok unfolding map_ok_def ids by simp_all
  have "AllocationBase r \<notin> set bs" using assms(5) by (auto simp: bs)
  then have other: "map (size_at (rs @ [r])) bs = map (size_at rs) bs" by (auto simp: size_at_snoc)
  have step: "region_step env r sc = sc\<lparr>tracker := set_size (\<lambda>n. n + ucast (RegionSize r)) i (tracker sc)\<rparr>"
    using assms(1,2,4) mne by (simp add: region_step_def scanned_def i_def)
  have before: "sizes (tracker sc) ids = map (size_at rs) bs \<and> ModuleSize (objects (tracker sc) ! i) = size_at rs (AllocationBase r)"
    using assms(1) by (simp add: scanned_def mods bs sizes_def)
  have "sizes (set_size (\<lambda>n. n + ucast (RegionSize r)) i (tracker sc)) (ids @ [i]) = map (size_at (rs @ [r])) (bases rs)"
    using dist ilen before other assms(2) by (simp add: sizes_set_size_snoc bs size_at_snoc)
  moreover have "bases (rs @ [r]) = bases rs" using bs by (simp add: bases_snoc)
  moreover have "module_map sc \<noteq> []" using ids by auto
  ultimately show ?thesis using assms(1) by (simp add: scanned_def step mods ids)
qed

lemma map_ok_inj: "map_ok n m \<Longrightarrow> (k, j) \<in> set m \<Longrightarrow> (k', j) \<in> set m \<Longrightarrow> k = k'"
  using inj_onD [of snd "set m" "(k, j)" "(k', j)"] by (simp add: map_ok_def distinct_map)

text \<open>The start of a mapping: its object, an old one or a new one, is none of the list's.\<close>

definition mapping_object :: "Environment \<Rightarrow> Region \<Rightarrow> Tracker \<Rightarrow> nat \<times> Tracker" where
  "mapping_object env r s =
     (let ntPath = MappedFileName env (AllocationBase r)
      in case tfind (m_moduleMap s) (mapping_key env (AllocationBase r)) of
           Some i \<Rightarrow> (i, s)
         | None \<Rightarrow> (length (objects s), s\<lparr>objects := objects s @ [FillModule env r ntPath],
                     m_newModules := m_newModules s @ [length (objects s)]\<rparr>))"

lemma new_mapping_object:
  "new_mapping env r sc =
     (let (i, s) = mapping_object env r (tracker sc)
      in \<lparr>tracker = set_size (\<lambda>_. 0) i s, modules = modules sc @ [i],
          module_map = tinsert (mapping_key env (AllocationBase r)) i (module_map sc),
          current = Some i, currentBase = AllocationBase r\<rparr>)"
  by (simp add: new_mapping_def mapping_object_def mapping_key_def add_object_def Let_def split: option.split)

lemma mapping_object_fresh:
  assumes "scanned env m n rs sc" and "map_ok n m" and "mapping_key env (AllocationBase r) \<notin> set (map (mapping_key env) (bases rs))"
  defines "i \<equiv> fst (mapping_object env r (tracker sc))" and "s \<equiv> snd (mapping_object env r (tracker sc))"
  shows "i \<notin> set (modules sc)" and "i < length (objects s)" and "n \<le> length (objects s)" and "m_moduleMap s = m"
    and "length (objects (tracker sc)) \<le> length (objects s)" and "sizes s (modules sc) = sizes (tracker sc) (modules sc)"
    and "tfind m (mapping_key env (AllocationBase r)) = Some i \<or>
      (tfind m (mapping_key env (AllocationBase r)) = None \<and> n \<le> i)"
proof -
  let ?k = "mapping_key env (AllocationBase r)"
  have map: "m_moduleMap (tracker sc) = m" and n: "n \<le> length (objects (tracker sc))"
    and mods: "modules sc = map snd (module_map sc)" and keys: "map fst (module_map sc) = map (mapping_key env) (bases rs)"
    and ok: "map_ok (length (objects (tracker sc))) (module_map sc)"
    and from_old: "\<And>k j. (k, j) \<in> set (module_map sc) \<Longrightarrow> tfind m k = Some j \<or> (tfind m k = None \<and> n \<le> j)"
    using assms(1) by (auto simp: scanned_def)
  have there: "\<forall>j \<in> set (modules sc). j < length (objects (tracker sc))"
    using ok unfolding map_ok_def mods by blast
  have fresh: "?k \<notin> fst ` set (module_map sc)" using assms(3) keys by (metis list.set_map)
  have "i \<notin> set (modules sc) \<and> i < length (objects s) \<and> n \<le> length (objects s) \<and> m_moduleMap s = m \<and>
      length (objects (tracker sc)) \<le> length (objects s) \<and> sizes s (modules sc) = sizes (tracker sc) (modules sc) \<and>
      (tfind m ?k = Some i \<or> (tfind m ?k = None \<and> n \<le> i))"
  proof (cases "tfind m ?k")
    case None
    then show ?thesis
      using n there map by (auto simp: i_def s_def mapping_object_def Let_def sizes_def nth_append)
  next
    case (Some j)
    then have ij: "i = j" "s = tracker sc" by (simp_all add: i_def s_def mapping_object_def Let_def map)
    have kj: "(?k, j) \<in> set m" using Some by (rule tfind_in_set)
    then have jn: "j < n" using assms(2) by (force simp: map_ok_def)
    have "j \<notin> snd ` set (module_map sc)"
    proof
      assume "j \<in> snd ` set (module_map sc)"
      then obtain k where k: "(k, j) \<in> set (module_map sc)" by auto
      from from_old [OF k] jn have "(k, j) \<in> set m" by (auto dest: tfind_in_set)
      then have "k = ?k" using kj by (rule map_ok_inj [OF assms(2)])
      with k fresh show False by force
    qed
    then show ?thesis using Some ij jn n map mods by simp
  qed
  then show "i \<notin> set (modules sc)" and "i < length (objects s)" and "n \<le> length (objects s)" and "m_moduleMap s = m"
    and "length (objects (tracker sc)) \<le> length (objects s)" and "sizes s (modules sc) = sizes (tracker sc) (modules sc)"
    and "tfind m ?k = Some i \<or> (tfind m ?k = None \<and> n \<le> i)" by simp_all
qed

lemma tinsert_fresh: "k \<notin> fst ` set m \<Longrightarrow> tinsert k v m = m @ [(k, v)]"
  by (cases "map_of m k") (auto simp: tinsert_def dest: map_of_SomeD intro: rev_image_eqI)

lemma region_start:
  assumes "scanned env m n rs sc" and "live r" and "AllocationBase r \<noteq> 0" and "AllocationBase r \<noteq> currentBase sc"
    and "map_ok n m" and "distinct (map (mapping_key env) (bases (rs @ [r])))"
  shows "scanned env m n (rs @ [r]) (region_step env r sc)"
proof -
  let ?k = "mapping_key env (AllocationBase r)"
  have bases: "bases (rs @ [r]) = bases rs @ [AllocationBase r]"
    using assms(1,2,4) by (auto simp: bases_snoc scanned_def)
  have k: "?k \<notin> set (map (mapping_key env) (bases rs))" and b: "AllocationBase r \<notin> set (bases rs)"
    using assms(6) by (auto simp: bases)
  obtain i s where obj: "mapping_object env r (tracker sc) = (i, s)" by (cases "mapping_object env r (tracker sc)")
  note o = mapping_object_fresh [OF assms(1,5) k, unfolded obj fst_conv snd_conv]
  note facts = assms(1) [unfolded scanned_def]
  have mods: "modules sc = map snd (module_map sc)" using facts by (elim conjE)
  have keys: "map fst (module_map sc) = map (mapping_key env) (bases rs)" using facts by (elim conjE)
  have ok: "map_ok (length (objects (tracker sc))) (module_map sc)" using facts by (elim conjE)
  have old: "\<forall>(k, i) \<in> set (module_map sc). tfind m k = Some i \<or> (tfind m k = None \<and> n \<le> i)" using facts by (elim conjE)
  have sz: "sizes (tracker sc) (modules sc) = map (size_at rs) (bases rs)" using facts by (elim conjE)
  have kn: "?k \<notin> fst ` set (module_map sc)" using k keys by (metis list.set_map)
  define s' where "s' = set_size (\<lambda>n. n + ucast (RegionSize r)) i (set_size (\<lambda>_. 0) i s)"
  have step: "region_step env r sc =
      \<lparr>tracker = s', modules = modules sc @ [i], module_map = module_map sc @ [(?k, i)], current = Some i,
       currentBase = AllocationBase r\<rparr>"
    using assms(2,4) by (simp add: region_step_def new_mapping_object obj s'_def tinsert_fresh [OF kn])
  have "map (size_at (rs @ [r])) (bases rs) = map (size_at rs) (bases rs)" using b by (auto simp: size_at_snoc)
  moreover have "size_at (rs @ [r]) (AllocationBase r) = ucast (RegionSize r)"
    using assms(2) by (simp add: size_at_snoc size_at_none [OF b])
  moreover have "sizes s' (modules sc @ [i]) = map (size_at rs) (bases rs) @ [ucast (RegionSize r)]"
    using o(1,2,6) sz by (simp add: s'_def sizes_set_size_snoc sizes_set_size_other) (simp add: set_size_def)
  ultimately have "sizes s' (modules sc @ [i]) = map (size_at (rs @ [r])) (bases (rs @ [r]))" by (simp add: bases)
  moreover have "map_ok (length (objects s')) (module_map sc @ [(?k, i)])"
  proof -
    have "table_ok (module_map sc @ [(?k, i)])" using ok kn by (simp add: map_ok_def table_ok_def)
    moreover have "distinct (map snd (module_map sc @ [(?k, i)]))" using ok o(1) by (simp add: map_ok_def mods)
    moreover have "\<forall>j \<in> set (map snd (module_map sc @ [(?k, i)])). j < length (objects s')"
      using ok o(2,5) by (auto simp: map_ok_def s'_def)
    ultimately show ?thesis by (simp only: map_ok_def simp_thms)
  qed
  ultimately show ?thesis
    unfolding scanned_def step bases using o(3,4,7) old mods keys
    by (simp add: s'_def)
qed

lemma scanned_dead: "\<not> live r \<Longrightarrow> scanned env m n rs sc \<Longrightarrow> scanned env m n (rs @ [r]) (region_step env r sc)"
proof -
  assume "\<not> live r" and s: "scanned env m n rs sc"
  then have same: "bases (rs @ [r]) = bases rs" "size_at (rs @ [r]) = size_at rs" "region_step env r sc = sc"
    by (auto simp: bases_snoc size_at_snoc region_step_def)
  show ?thesis unfolding scanned_def same by (rule s [unfolded scanned_def])
qed

lemma distinct_bases_prefix:
  "distinct (map (mapping_key env) (bases (rs @ [r]))) \<Longrightarrow> distinct (map (mapping_key env) (bases rs))"
  by (auto simp: bases_snoc split: if_splits)

lemma scanned_step:
  assumes "scanned env m n rs sc" and "map_ok n m" and "live r \<longrightarrow> AllocationBase r \<noteq> 0"
    and "distinct (map (mapping_key env) (bases (rs @ [r])))"
  shows "scanned env m n (rs @ [r]) (region_step env r sc)"
proof (cases "live r")
  case True
  then show ?thesis
    using region_further [OF assms(1) True _ _ distinct_bases_prefix [OF assms(4)]]
      region_start [OF assms(1) True _ _ assms(2,4)] assms(3)
    by (cases "AllocationBase r = currentBase sc") simp_all
qed (rule scanned_dead [OF _ assms(1)])

definition scan_start :: "Tracker \<Rightarrow> Scan" where
  "scan_start s = \<lparr>tracker = s\<lparr>m_newModules := []\<rparr>, modules = [], module_map = [], current = None, currentBase = 0\<rparr>"

lemma scanned_all:
  assumes "map_ok (length (objects s)) (m_moduleMap s)" and "\<forall>r \<in> set rs. live r \<longrightarrow> AllocationBase r \<noteq> 0"
    and "distinct (map (mapping_key env) (bases rs))"
  shows "scanned env (m_moduleMap s) (length (objects s)) rs (fold (region_step env) rs (scan_start s))"
  using assms(2,3)
proof (induction rs rule: rev_induct)
  case Nil
  then show ?case by (simp add: scanned_def scan_start_def bases_def map_ok_def sizes_def)
next
  case (snoc r rs)
  then show ?case using assms(1) distinct_bases_prefix [OF snoc.prems(2)] by (simp add: scanned_step)
qed

text \<open>A tracker between two calls: the objects of the map are there, each under one key.\<close>

definition tracker_ok :: "Tracker \<Rightarrow> bool" where
  "tracker_ok s \<longleftrightarrow> map_ok (length (objects s)) (m_moduleMap s)"

text \<open>C31: a scan of the regions lists one module for each mapping, in address order, with the size that its
  committed regions have together; the object of a mapping that was there before is kept, so its holders see the
  new size; what is no longer mapped is unloaded. This is for mappings whose regions are next to each other and
  that differ in name or base.\<close>

theorem virtual_query_modules:
  assumes "tracker_ok s" and "\<forall>r \<in> set rs. live r \<longrightarrow> AllocationBase r \<noteq> 0"
    and "distinct (map (mapping_key env) (bases rs))"
  shows "let s' = EnumModulesWithVirtualQuery env rs s
    in tracker_ok s' \<and>
       map fst (m_moduleMap s') = map (mapping_key env) (bases rs) \<and>
       m_modules s' = map snd (m_moduleMap s') \<and>
       map ModuleSize (GetModules s') = map (size_at rs) (bases rs) \<and>
       (\<forall>b \<in> set (bases rs). \<forall>i. tfind (m_moduleMap s) (mapping_key env b) = Some i \<longrightarrow>
          tfind (m_moduleMap s') (mapping_key env b) = Some i) \<and>
       set (m_unloadedModules s') =
         {i. \<exists>k. tfind (m_moduleMap s) k = Some i \<and> k \<notin> mapping_key env ` set (bases rs)}"
proof -
  define sc where "sc = fold (region_step env) rs (scan_start s)"
  have scan: "scanned env (m_moduleMap s) (length (objects s)) rs sc"
    unfolding sc_def using assms by (intro scanned_all) (simp_all add: tracker_ok_def)
  note facts = scan [unfolded scanned_def]
  have mods: "modules sc = map snd (module_map sc)" using facts by (elim conjE)
  have keys: "map fst (module_map sc) = map (mapping_key env) (bases rs)" using facts by (elim conjE)
  have ok: "map_ok (length (objects (tracker sc))) (module_map sc)" using facts by (elim conjE)
  have old: "\<forall>(k, i) \<in> set (module_map sc). tfind (m_moduleMap s) k = Some i \<or>
      (tfind (m_moduleMap s) k = None \<and> length (objects s) \<le> i)" using facts by (elim conjE)
  have sz: "sizes (tracker sc) (modules sc) = map (size_at rs) (bases rs)" using facts by (elim conjE)
  have same: "m_moduleMap (tracker sc) = m_moduleMap s" using facts by (elim conjE)
  have tok: "table_ok (module_map sc)" "table_ok (m_moduleMap s)"
    using ok assms(1) by (simp_all add: map_ok_def tracker_ok_def)
  have found: "tkeys (module_map sc) = mapping_key env ` set (bases rs)"
    using keys unfolding tkeys_def by (metis list.set_map)
  define s' where "s' = EnumModulesWithVirtualQuery env rs s"
  have s': "s' = Update (modules sc) (module_map sc) (tracker sc)"
    by (simp add: s'_def EnumModulesWithVirtualQuery_def sc_def scan_start_def Let_def)
  have "tracker_ok s'" using ok by (simp add: s' Update_def tracker_ok_def)
  moreover have "map fst (m_moduleMap s') = map (mapping_key env) (bases rs)" and "m_modules s' = map snd (m_moduleMap s')"
    using keys mods by (simp_all add: s' Update_def)
  moreover have "map ModuleSize (GetModules s') = map (size_at rs) (bases rs)"
    using sz by (simp add: s' Update_def GetModules_def sizes_def comp_def)
  moreover have "tfind (m_moduleMap s') (mapping_key env b) = Some i"
    if "b \<in> set (bases rs)" and "tfind (m_moduleMap s) (mapping_key env b) = Some i" for b i
  proof -
    have "mapping_key env b \<in> tkeys (module_map sc)" unfolding found using that(1) by (rule imageI)
    then obtain j where j: "tfind (module_map sc) (mapping_key env b) = Some j" unfolding tkeys_iff ..
    then have "(mapping_key env b, j) \<in> set (module_map sc)" by (rule tfind_in_set)
    with old that(2) have "j = i" by (auto dest!: bspec)
    with j show ?thesis by (simp add: s' Update_def)
  qed
  moreover have "set (m_unloadedModules s') =
      {i. \<exists>k. tfind (m_moduleMap s) k = Some i \<and> k \<notin> mapping_key env ` set (bases rs)}"
  proof -
    have "set (m_unloadedModules s') = {i. \<exists>k. (k, i) \<in> set (m_moduleMap s) \<and> tfind (module_map sc) k = None}"
    proof (rule set_eqI)
      fix i
      show "i \<in> set (m_unloadedModules s') \<longleftrightarrow> i \<in> {i. \<exists>k. (k, i) \<in> set (m_moduleMap s) \<and> tfind (module_map sc) k = None}"
        unfolding s' Update_def by (simp add: same image_iff)
    qed
    then show ?thesis unfolding found [symmetric] tkeys_none using htab.look_entries [OF tok(2)] by simp
  qed
  ultimately show ?thesis unfolding s'_def [symmetric] Let_def by blast
qed

definition image_region :: "u64 \<Rightarrow> u64 \<Rightarrow> u64 \<Rightarrow> Region" where
  "image_region base off sz = \<lparr>BaseAddress = base + off, AllocationBase = base, RegionSize = sz, RegionState = MEM_COMMIT,
     RegionType = 0x1000000\<rparr>"

definition plain_files :: Environment where
  "plain_files = \<lparr>MappedFileName = (\<lambda>_. wide ''m''), DosNameFromNtName = (\<lambda>s. s), ImageHeaderAt = (\<lambda>_. None)\<rparr>"

theorem virtual_query_modules_witness:
  "map ModuleSize (GetModules (EnumModulesWithVirtualQuery plain_files
     [image_region 0x10 0 2, image_region 0x10 2 6, image_region 0x20 0 4] no_modules)) =
   [8, 4]"
proof -
  let ?rs = "[image_region 0x10 0 2, image_region 0x10 2 6, image_region 0x20 0 4]"
  have "tracker_ok no_modules" by (simp add: tracker_ok_def no_modules_def map_ok_def)
  moreover have "\<forall>r \<in> set ?rs. live r \<longrightarrow> AllocationBase r \<noteq> 0" by (simp add: image_region_def)
  moreover have "distinct (map (mapping_key plain_files) (bases ?rs))" by code_simp
  ultimately have "map ModuleSize (GetModules (EnumModulesWithVirtualQuery plain_files ?rs no_modules)) =
      map (size_at ?rs) (bases ?rs)"
    by (rule virtual_query_modules [of no_modules ?rs plain_files, unfolded Let_def, THEN conjunct2, THEN conjunct2,
          THEN conjunct2, THEN conjunct1])
  also have "\<dots> = [8, 4]" by code_simp
  finally show ?thesis .
qed

end
