(* ===== verification/C_Text.thy ===== *)
theory C_Text
  imports Handle_Names
begin

text \<open>
  What the components use of the C and C++ libraries on text: \<open>wcstoul\<close>, \<open>iswspace\<close>, and the searches in a string
  (a position or nothing, for \<open>npos\<close>).
\<close>

section \<open>Numbers\<close>

text \<open>
  The spaces of \<open>iswspace\<close> and the digits of \<open>wcstoul\<close> in the C locale; an \<open>unsigned long\<close> has 32 bits, and a number
  that does not fit is the greatest one. (The C runtime takes the digits of other scripts, too; they are not modelled.)
\<close>

definition iswspace :: "16 word \<Rightarrow> bool" where
  "iswspace c \<longleftrightarrow> c = 0x20 \<or> (9 \<le> c \<and> c \<le> 13)"

definition digit_value :: "16 word \<Rightarrow> nat" where
  "digit_value c =
     (if 0x30 \<le> c \<and> c \<le> 0x39 then unat c - 0x30
      else if 0x41 \<le> c \<and> c \<le> 0x5A then unat c - 55
      else if 0x61 \<le> c \<and> c \<le> 0x7A then unat c - 87
      else 36)"

fun digits_from :: "nat \<Rightarrow> wstr \<Rightarrow> nat \<Rightarrow> nat" where
  "digits_from base [] acc = acc"
| "digits_from base (c # cs) acc =
     (if digit_value c < base then digits_from base cs (acc * base + digit_value c) else acc)"

definition wcstoul :: "wstr \<Rightarrow> nat \<Rightarrow> u32" where
  "wcstoul s base =
     (let s = dropWhile iswspace s;
          minus = (s \<noteq> [] \<and> hd s = 0x2D);
          s = (if s \<noteq> [] \<and> (hd s = 0x2D \<or> hd s = 0x2B) then tl s else s);
          s = (if base = 16 \<and> (take 2 s = wide ''0x'' \<or> take 2 s = wide ''0X'') then drop 2 s else s);
          n = digits_from base s 0
      in if n \<ge> 2 ^ 32 then 0xFFFFFFFF else if minus then - of_nat n else of_nat n)"

text \<open>A number as digits, the first one first.\<close>

definition digits_of :: "nat \<Rightarrow> wstr \<Rightarrow> bool" where
  "digits_of n s \<longleftrightarrow> s \<noteq> [] \<and> (\<forall>c \<in> set s. 0x30 \<le> c \<and> c \<le> 0x39) \<and> (\<forall>acc t. digits_from 10 (s @ t) acc = digits_from 10 t (acc * 10 ^ length s + n))"

lemma digit_char: "d < 10 \<Longrightarrow> 0x30 \<le> (of_nat (0x30 + d) :: u16) \<and> (of_nat (0x30 + d) :: u16) \<le> 0x39 \<and> digit_value (of_nat (0x30 + d)) = d"
proof -
  assume d: "d < 10"
  have "unat (of_nat (0x30 + d) :: u16) = 0x30 + d"
    using d by (simp add: unat_of_nat del: of_nat_add)
  then show ?thesis using d by (simp add: digit_value_def word_le_nat_alt)
qed

lemma decimal_digits_app: "decimal_digits n acc = to_wstring n @ acc"
proof -
  have "decimal_digits n (xs @ acc) = decimal_digits n xs @ acc" for xs acc
  proof (induction n xs arbitrary: acc rule: decimal_digits.induct)
    case (1 n xs)
    then show ?case by (cases "n < 10") (simp_all add: decimal_digits.simps [of n])
  qed
  from this [of "[]" acc] show ?thesis by (simp add: to_wstring_def)
qed

lemma to_wstring_step: "\<not> n < 10 \<Longrightarrow> to_wstring n = to_wstring (n div 10) @ [of_nat (0x30 + n mod 10)]"
  by (simp add: to_wstring_def decimal_digits.simps [of n]) (simp add: decimal_digits_app)

lemma to_wstring_digit: "n < 10 \<Longrightarrow> to_wstring n = [of_nat (0x30 + n)]"
  by (simp add: to_wstring_def decimal_digits.simps)

lemma digits_to_wstring: "digits_of n (to_wstring n)"
proof (induction n rule: less_induct)
  case (less n)
  show ?case
  proof (cases "n < 10")
    case True
    then show ?thesis using digit_char [OF True] by (simp add: to_wstring_digit digits_of_def)
  next
    case False
    then have step: "to_wstring n = to_wstring (n div 10) @ [of_nat (0x30 + n mod 10)]" by (rule to_wstring_step)
    have IH: "digits_of (n div 10) (to_wstring (n div 10))" using False by (intro less) simp
    have d: "n mod 10 < 10" by simp
    note c = digit_char [OF d]
    have ten: "(acc * 10 ^ length (to_wstring (n div 10)) + n div 10) * 10 + n mod 10 =
        acc * 10 ^ length (to_wstring n) + n" for acc
      by (simp add: step algebra_simps)
    have from10: "digits_from 10 (to_wstring n @ t) acc = digits_from 10 t (acc * 10 ^ length (to_wstring n) + n)" for acc t
    proof -
      have "digits_from 10 (to_wstring n @ t) acc =
          digits_from 10 (of_nat (0x30 + n mod 10) # t) (acc * 10 ^ length (to_wstring (n div 10)) + n div 10)"
        using IH unfolding digits_of_def step by simp
      also have "\<dots> = digits_from 10 t ((acc * 10 ^ length (to_wstring (n div 10)) + n div 10) * 10 + n mod 10)"
        using c d by (simp del: of_nat_add)
      finally show ?thesis unfolding ten .
    qed
    show ?thesis unfolding digits_of_def
      using IH c from10 by (auto simp: digits_of_def step simp del: of_nat_add)
  qed
qed

text \<open>What is no digit ends a number.\<close>

lemma wcstoul_digits:
  assumes "digits_of n s" and "n < 2 ^ 32" and "t = [] \<or> \<not> (0x30 \<le> hd t \<and> hd t \<le> 0x39)"
  shows "wcstoul (s @ t) 10 = of_nat n"
proof -
  obtain c cs where s: "s = c # cs" using assms(1) by (cases s) (auto simp: digits_of_def)
  have c: "0x30 \<le> c" "c \<le> 0x39" using assms(1) by (auto simp: digits_of_def s)
  then have "\<not> iswspace c" "c \<noteq> 0x2D" "c \<noteq> 0x2B"
    by (auto simp: iswspace_def word_le_nat_alt)
  then have "wcstoul (s @ t) 10 = (let n = digits_from 10 (s @ t) 0 in if n \<ge> 2 ^ 32 then 0xFFFFFFFF else of_nat n)"
    by (simp add: wcstoul_def s Let_def)
  moreover have "digits_from 10 (s @ t) 0 = digits_from 10 t n" using assms(1) by (simp add: digits_of_def)
  moreover have "digits_from 10 t n = n"
  proof (cases t)
    case (Cons a t')
    then have "\<not> digit_value a < 10"
      using assms(3) by (auto simp: digit_value_def word_le_nat_alt)
    then show ?thesis by (simp add: Cons)
  qed simp
  ultimately show ?thesis using assms(2) by simp
qed

lemma wcstoul_to_wstring:
  "n < 2 ^ 32 \<Longrightarrow> t = [] \<or> \<not> (0x30 \<le> hd t \<and> hd t \<le> 0x39) \<Longrightarrow> wcstoul (to_wstring n @ t) 10 = of_nat n"
  by (rule wcstoul_digits [OF digits_to_wstring])

lemma to_wstring_inj: "to_wstring n = to_wstring m \<longleftrightarrow> n = m"
proof
  assume "to_wstring n = to_wstring m"
  then have same: "digits_from 10 (to_wstring n @ []) 0 = digits_from 10 (to_wstring m @ []) 0" by simp
  have "digits_from 10 (to_wstring k @ []) 0 = k" for k
    using digits_to_wstring [of k] unfolding digits_of_def by (metis add_0 digits_from.simps(1) mult_0)
  with same show "n = m" by simp
qed simp

lemma to_wstring_digit_chars: "c \<in> set (to_wstring n) \<Longrightarrow> 0x30 \<le> c \<and> c \<le> 0x39"
  using digits_to_wstring [of n] by (auto simp: digits_of_def)

section \<open>Searching\<close>

text \<open>\<open>find(c, i)\<close> and \<open>find(p, i)\<close>: the first position from \<open>i\<close> on, nothing for \<open>npos\<close>.\<close>

definition find_char :: "'a \<Rightarrow> 'a list \<Rightarrow> nat \<Rightarrow> nat option" where
  "find_char c s i =
     (let n = length (takeWhile (\<lambda>x. x \<noteq> c) (drop i s)) in if i + n < length s then Some (i + n) else None)"

definition occurrences :: "'a list \<Rightarrow> 'a list \<Rightarrow> nat \<Rightarrow> nat list" where
  "occurrences p s i = filter (\<lambda>j. take (length p) (drop j s) = p) [i..<length s + 1 - length p]"

definition find_str :: "'a list \<Rightarrow> 'a list \<Rightarrow> nat \<Rightarrow> nat option" where
  "find_str p s i = (case occurrences p s i of [] \<Rightarrow> None | j # _ \<Rightarrow> Some j)"

text \<open>\<open>substr(i, n)\<close>\<close>

definition substr :: "'a list \<Rightarrow> nat \<Rightarrow> nat \<Rightarrow> 'a list" where
  "substr s i n = take n (drop i s)"

lemma find_char_bounds: "find_char c s i = Some j \<Longrightarrow> i \<le> j \<and> j < length s"
  by (auto simp: find_char_def Let_def split: if_splits)

lemma find_char_at: "find_char c s i = Some j \<Longrightarrow> s ! j = c \<and> (\<forall>k. i \<le> k \<and> k < j \<longrightarrow> s ! k \<noteq> c)"
proof -
  assume "find_char c s i = Some j"
  then have j: "j = i + length (takeWhile (\<lambda>x. x \<noteq> c) (drop i s))" "j < length s"
    by (auto simp: find_char_def Let_def split: if_splits)
  let ?t = "takeWhile (\<lambda>x. x \<noteq> c) (drop i s)"
  have "length ?t < length (drop i s)" using j by simp
  then have "drop i s ! length ?t = c" using nth_length_takeWhile by blast
  moreover have "s ! k \<noteq> c" if "i \<le> k" "k < j" for k
  proof -
    have "k - i < length ?t" using that j(1) by simp
    then have "?t ! (k - i) \<noteq> c" using nth_mem set_takeWhileD by fastforce
    moreover have "?t ! (k - i) = s ! k" using \<open>k - i < length ?t\<close> that j by (simp add: takeWhile_nth)
    ultimately show ?thesis by simp
  qed
  ultimately show ?thesis using j by (simp add: nth_drop)
qed

text \<open>A character that does not occur before is found where it is.\<close>

lemma find_char_append:
  assumes "c \<notin> set a" and "length pre = i"
  shows "find_char c (pre @ a @ c # post) i = Some (i + length a)"
proof -
  have "takeWhile (\<lambda>x. x \<noteq> c) (a @ c # post) = a" using assms(1) by (induction a) auto
  then show ?thesis using assms(2) by (simp add: find_char_def)
qed

lemma find_char_none: "length pre = i \<Longrightarrow> c \<notin> set a \<Longrightarrow> find_char c (pre @ a) i = None"
proof -
  assume len: "length pre = i" and "c \<notin> set a"
  then have "length (takeWhile (\<lambda>x. x \<noteq> c) a) = length a" by (induction a) auto
  then show ?thesis using len by (simp add: find_char_def Let_def)
qed

text \<open>The first of a list with a property.\<close>

lemma find_skip: "(\<And>x. x \<in> set xs \<Longrightarrow> \<not> P x) \<Longrightarrow> find P (xs @ ys) = find P ys"
  by (induction xs) auto

lemma find_char_None:
  assumes "find_char c s i = None" and "i \<le> k" and "k < length s"
  shows "s ! k \<noteq> c"
proof
  assume "s ! k = c"
  moreover have "s ! k \<in> set (drop i s)"
    using nth_mem [of "k - i" "drop i s"] assms(2,3) by simp
  moreover have "length (takeWhile (\<lambda>x. x \<noteq> c) xs) < length xs" if "c \<in> set xs" for xs using that by (induction xs) auto
  ultimately have "length (takeWhile (\<lambda>x. x \<noteq> c) (drop i s)) < length (drop i s)" by blast
  then show False using assms(1) by (auto simp: find_char_def Let_def split: if_splits)
qed

lemma find_append: "find P (xs @ ys) = (case find P xs of Some x \<Rightarrow> Some x | None \<Rightarrow> find P ys)"
  by (induction xs) auto

lemma find_none: "(\<And>x. x \<in> set xs \<Longrightarrow> \<not> P x) \<Longrightarrow> find P xs = None"
  by (induction xs) auto

end
