(* ===== verification/Process_Memory.thy ===== *)
theory Process_Memory
  imports C_Text
begin

text \<open>
  Another process's memory (\<open>WinSys/ProcessMemory.cpp\<close>): searching it for a pattern or for strings, reading and writing
  it, the name of a mapped file. The system's calls are parameters: \<open>query\<close> (\<open>VirtualQueryEx\<close>), \<open>reader\<close>
  (\<open>ReadProcessMemory\<close>); what they do of a process that stands still is stated by \<open>regions_ok\<close>, \<open>reads_memory\<close>,
  \<open>reader_ok\<close> and \<open>pages_ok\<close>.
\<close>

section \<open>Reading another process\<close>

text \<open>
  The process's memory: \<open>query a\<close> is what \<open>VirtualQueryEx\<close> gives for an address, \<open>rd a n\<close> what \<open>ReadProcessMemory\<close>
  does: whether it succeeds, and the bytes it read. User-mode addresses are below 2^47, so that the sums of the source do
  not wrap: they are \<open>nat\<close>.
\<close>

record MemoryInfo =
  BaseAddress :: nat
  RegionSize :: nat
  State :: u32
  Protect :: u32

type_synonym query = "nat \<Rightarrow> MemoryInfo option"
type_synonym reader = "nat \<Rightarrow> nat \<Rightarrow> bool \<times> bytes"

definition MEM_COMMIT :: u32 where "MEM_COMMIT = 0x1000"
definition PAGE_NOACCESS :: u32 where "PAGE_NOACCESS = 1"
definition PAGE_GUARD :: u32 where "PAGE_GUARD = 0x100"

definition IsReadable :: "MemoryInfo \<Rightarrow> bool" where
  "IsReadable mbi \<longleftrightarrow> State mbi = MEM_COMMIT \<and> Protect mbi \<noteq> 0 \<and> Protect mbi AND (PAGE_NOACCESS OR PAGE_GUARD) = 0"

definition region_end :: "MemoryInfo \<Rightarrow> nat" where
  "region_end mbi = BaseAddress mbi + RegionSize mbi"

definition ChunkSize :: nat where "ChunkSize = 1048576"

section \<open>Matching\<close>

definition Fold :: "byte \<Rightarrow> byte" where
  "Fold b = (if 0x41 \<le> b \<and> b \<le> 0x5A then b OR 0x20 else b)"

text \<open>The pattern against data of its length; a wide one by units, an odd final byte exactly.\<close>

fun folded_units :: "bytes \<Rightarrow> bytes \<Rightarrow> bool" where
  "folded_units (d # d' # ds) (p # p' # ps) \<longleftrightarrow>
     d' = p' \<and> (if p' = 0 then Fold d = Fold p else d = p) \<and> folded_units ds ps"
| "folded_units [d] [p] \<longleftrightarrow> d = p"
| "folded_units [] [] \<longleftrightarrow> True"
| "folded_units _ _ \<longleftrightarrow> False"

definition MatchesFolded :: "bytes \<Rightarrow> bytes \<Rightarrow> bool \<Rightarrow> bool" where
  "MatchesFolded data pattern isWide = (if isWide then folded_units data pattern else map Fold data = map Fold pattern)"

text \<open>\<open>Search\<close>: exactly, from one occurrence of the pattern's first byte to the next; ignoring case, place by place.\<close>

function search_exact :: "bytes \<Rightarrow> bytes \<Rightarrow> nat \<Rightarrow> nat \<Rightarrow> nat option" where
  "search_exact data pattern final i =
     (if final < i then None
      else case find_char (hd pattern) (take (final + 1) data) i of
        None \<Rightarrow> None
      | Some at \<Rightarrow> if take (length pattern) (drop at data) = pattern then Some at else search_exact data pattern final (at + 1))"
  by pat_completeness auto

termination
  by (relation "measure (\<lambda>(data, pattern, final, i). final + 1 - i)") (auto dest!: find_char_bounds)

declare search_exact.simps [simp del]

definition search_folded :: "bytes \<Rightarrow> bytes \<Rightarrow> bool \<Rightarrow> nat \<Rightarrow> nat option" where
  "search_folded data pattern isWide final =
     find (\<lambda>i. Fold (data ! i) = Fold (hd pattern) \<and> MatchesFolded (take (length pattern) (drop i data)) pattern isWide) [0..<final + 1]"

definition Search :: "bytes \<Rightarrow> bytes \<Rightarrow> bool \<Rightarrow> bool \<Rightarrow> nat option" where
  "Search data pattern ignoreCase isWide =
     (if length data < length pattern then None
      else if \<not> ignoreCase then search_exact data pattern (length data - length pattern) 0
      else search_folded data pattern isWide (length data - length pattern))"

section \<open>Finding a pattern\<close>

text \<open>The chunks of a readable run; a read that fails ends it.\<close>

function search_run :: "reader \<Rightarrow> bytes \<Rightarrow> bool \<Rightarrow> bool \<Rightarrow> nat \<Rightarrow> nat \<Rightarrow> nat option" where
  "search_run rd pattern ignoreCase isWide end at =
     (if end \<le> at then None
      else
        (let (ok, data) = rd at (min (ChunkSize + length pattern - 1) (end - at))
         in if \<not> ok \<and> data = [] then None
            else case Search data pattern ignoreCase isWide of
              Some i \<Rightarrow> Some (at + i)
            | None \<Rightarrow> search_run rd pattern ignoreCase isWide end (at + ChunkSize)))"
  by pat_completeness auto

termination
  by (relation "measure (\<lambda>(rd, pattern, ignoreCase, isWide, end, at). end - at)") (auto simp: ChunkSize_def)

declare search_run.simps [simp del]

text \<open>The readable regions that follow one. \<open>None\<close> stands for a walk that does not end.\<close>

partial_function (option) extend :: "query \<Rightarrow> nat \<Rightarrow> nat \<Rightarrow> nat option" where
  "extend q to e =
     (if e < to then
        (case q e of
           None \<Rightarrow> Some e
         | Some mbi \<Rightarrow> if IsReadable mbi then extend q to (region_end mbi) else Some e)
      else Some e)"

partial_function (option) find_from ::
  "query \<Rightarrow> reader \<Rightarrow> bytes \<Rightarrow> bool \<Rightarrow> bool \<Rightarrow> nat \<Rightarrow> nat \<Rightarrow> nat option option" where
  "find_from q rd pattern ignoreCase isWide to address =
     (if address < to then
        (case q address of
           None \<Rightarrow> Some None
         | Some mbi \<Rightarrow>
             if IsReadable mbi then
               Option.bind (extend q to (region_end mbi)) (\<lambda>e.
                 case search_run rd pattern ignoreCase isWide (min e to) address of
                   Some a \<Rightarrow> Some (Some a)
                 | None \<Rightarrow> find_from q rd pattern ignoreCase isWide to e)
             else find_from q rd pattern ignoreCase isWide to (region_end mbi))
      else Some None)"

definition Find :: "query \<Rightarrow> reader \<Rightarrow> bytes \<Rightarrow> nat \<Rightarrow> nat \<Rightarrow> bool \<Rightarrow> bool \<Rightarrow> nat option option" where
  "Find q rd pattern from to ignoreCase isWide =
     (if pattern = [] \<or> to \<le> from then Some None else find_from q rd pattern ignoreCase isWide to from)"

section \<open>The first match is found\<close>

text \<open>What a match is, of data as long as the pattern; \<open>Search\<close> finds the first.\<close>

definition matches :: "bytes \<Rightarrow> bool \<Rightarrow> bool \<Rightarrow> bytes \<Rightarrow> bool" where
  "matches pattern ignoreCase isWide data = (if ignoreCase then MatchesFolded data pattern isWide else data = pattern)"

lemma find_upt_Suc: "i < n \<Longrightarrow> find P [i..<n] = (if P i then Some i else find P [Suc i..<n])"
  by (simp add: upt_conv_Cons)

lemma match_at: "take (length p) (drop k d) = p \<Longrightarrow> p \<noteq> [] \<Longrightarrow> k < length d \<and> d ! k = hd p"
  by (metis hd_drop_conv_nth hd_take length_greater_0_conv drop_all linorder_not_less take_Nil)

lemma search_exact_find:
  assumes "pattern \<noteq> []" and "final < length data"
  shows "search_exact data pattern final i = find (\<lambda>i. take (length pattern) (drop i data) = pattern) [i..<final + 1]"
  using assms
proof (induction data pattern final i rule: search_exact.induct)
  case (1 data pattern final i)
  let ?P = "\<lambda>i. take (length pattern) (drop i data) = pattern"
  have other: "\<not> ?P k" if "k \<le> final" "data ! k \<noteq> hd pattern" for k
    using match_at [of pattern k data] 1(2) that by blast
  show ?case
  proof (cases "final < i")
    case False
    show ?thesis
    proof (cases "find_char (hd pattern) (take (final + 1) data) i")
      case None
      then have "\<not> ?P k" if "k \<in> set [i..<final + 1]" for k
        using find_char_None [OF None, of k] that 1(3) by (intro other) auto
      then have "find ?P [i..<final + 1] = None" by (simp only: find_None_iff) blast
      then show ?thesis using None False by (simp add: search_exact.simps [of data pattern final i])
    next
      case (Some at)
      have at: "i \<le> at" "at \<le> final" "\<And>k. i \<le> k \<Longrightarrow> k < at \<Longrightarrow> data ! k \<noteq> hd pattern"
        using find_char_bounds [OF Some] find_char_at [OF Some] 1(3) by auto
      have "[i..<final + 1] = [i..<at] @ at # [at + 1..<final + 1]"
        using at(1,2) by (metis Suc_eq_plus1 le_add_diff_inverse le_imp_less_Suc upt_add_eq_append upt_conv_Cons less_imp_le_nat)
      then have f: "find ?P [i..<final + 1] = find ?P (at # [at + 1..<final + 1])"
        by (simp only:) (rule find_skip, use at other in auto)
      have e: "search_exact data pattern final i = (if ?P at then Some at else search_exact data pattern final (at + 1))"
        using Some False by (simp add: search_exact.simps [of data pattern final i])
      show ?thesis
      proof (cases "?P at")
        case True
        then show ?thesis unfolding e f by simp
      next
        case no: False
        show ?thesis unfolding e f using 1(1) [OF False Some no] 1(2,3) no by simp
      qed
    qed
  qed (simp add: search_exact.simps [of data pattern final i])
qed

lemma folded_first: "MatchesFolded (take (length p) (drop k d)) p w \<Longrightarrow> p \<noteq> [] \<Longrightarrow> Fold (d ! k) = Fold (hd p)"
proof -
  assume m: "MatchesFolded (take (length p) (drop k d)) p w" and p: "p \<noteq> []"
  have ne: "take (length p) (drop k d) \<noteq> []"
  proof
    assume "take (length p) (drop k d) = []"
    then show False using m p by (cases p; cases "tl p") (auto simp: MatchesFolded_def split: if_splits)
  qed
  then obtain x xs where x: "take (length p) (drop k d) = x # xs" by (metis neq_Nil_conv)
  then have "d ! k = x" by (metis hd_drop_conv_nth hd_take length_greater_0_conv list.sel(1) ne drop_all linorder_not_less take_Nil p)
  moreover have "Fold x = Fold (hd p)"
    using m p unfolding x by (cases p; cases xs; cases "tl p") (auto simp: MatchesFolded_def split: if_splits)
  ultimately show ?thesis by simp
qed

lemma Search_find:
  assumes "pattern \<noteq> []"
  shows "Search data pattern ignoreCase isWide =
    find (\<lambda>i. matches pattern ignoreCase isWide (take (length pattern) (drop i data))) [0..<length data + 1 - length pattern]"
proof (cases "length data < length pattern")
  case False
  then have n: "length data - length pattern + 1 = length data + 1 - length pattern" by simp
  show ?thesis
  proof (cases ignoreCase)
    case True
    have "(\<lambda>i. Fold (data ! i) = Fold (hd pattern) \<and> MatchesFolded (take (length pattern) (drop i data)) pattern isWide) =
        (\<lambda>i. matches pattern ignoreCase isWide (take (length pattern) (drop i data)))"
      using folded_first [OF _ assms, of _ data isWide] True by (auto simp: matches_def fun_eq_iff)
    then show ?thesis using True False n by (simp add: Search_def search_folded_def)
  next
    case exact: False
    have "length data - length pattern < length data" using False assms by (cases pattern) auto
    then show ?thesis using exact False n search_exact_find [OF assms, of "length data - length pattern" data 0]
      by (simp add: Search_def matches_def)
  qed
qed (simp add: Search_def)

text \<open>
  What the system's calls give of a process that stands still: the regions are in order and \<open>VirtualQueryEx\<close> tells, of an
  address in one, up to where it goes; a read of readable memory gives its contents.
\<close>

definition readable :: "query \<Rightarrow> nat \<Rightarrow> bool" where
  "readable q a = (case q a of None \<Rightarrow> False | Some mbi \<Rightarrow> IsReadable mbi)"

definition regions_ok :: "query \<Rightarrow> bool" where
  "regions_ok q \<longleftrightarrow>
     (\<forall>a mbi. q a = Some mbi \<longrightarrow>
        BaseAddress mbi \<le> a \<and> a < region_end mbi \<and>
        (\<forall>b. a \<le> b \<and> b < region_end mbi \<longrightarrow> (\<exists>m. q b = Some m \<and> IsReadable m = IsReadable mbi))) \<and>
     (\<forall>a b. q a = None \<and> a \<le> b \<longrightarrow> q b = None)"

definition reads_memory :: "query \<Rightarrow> reader \<Rightarrow> (nat \<Rightarrow> byte) \<Rightarrow> bool" where
  "reads_memory q rd mem \<longleftrightarrow>
     (\<forall>a n. (\<forall>x \<in> {a..<a + n}. readable q x) \<longrightarrow> rd a n = (True, map mem [a..<a + n]))"

definition contents :: "(nat \<Rightarrow> byte) \<Rightarrow> nat \<Rightarrow> nat \<Rightarrow> bytes" where
  "contents mem a n = map mem [a..<a + n]"

text \<open>A match: all of it readable and below the end.\<close>

definition match_from :: "query \<Rightarrow> (nat \<Rightarrow> byte) \<Rightarrow> bytes \<Rightarrow> bool \<Rightarrow> bool \<Rightarrow> nat \<Rightarrow> nat \<Rightarrow> bool" where
  "match_from q mem pattern ignoreCase isWide to a \<longleftrightarrow>
     a + length pattern \<le> to \<and> (\<forall>x \<in> {a..<a + length pattern}. readable q x) \<and>
     matches pattern ignoreCase isWide (contents mem a (length pattern))"

lemma region_step:
  assumes "regions_ok q" and "q a = Some mbi"
  shows "a < region_end mbi" and "a \<le> x \<Longrightarrow> x < region_end mbi \<Longrightarrow> readable q x = IsReadable mbi"
proof -
  show "a < region_end mbi" using assms by (auto simp: regions_ok_def)
  assume "a \<le> x" "x < region_end mbi"
  then obtain m where "q x = Some m" "IsReadable m = IsReadable mbi" using assms unfolding regions_ok_def by blast
  then show "readable q x = IsReadable mbi" by (simp add: readable_def)
qed

lemma region_none: "regions_ok q \<Longrightarrow> q a = None \<Longrightarrow> a \<le> x \<Longrightarrow> \<not> readable q x"
  unfolding regions_ok_def readable_def by (metis option.case(1))

lemma find_shift: "map_option (\<lambda>i. a + i) (find (\<lambda>i. P (a + i)) [0..<n]) = find P [a..<a + n]"
proof -
  have "find P (map (\<lambda>i. a + i) xs) = map_option (\<lambda>i. a + i) (find (\<lambda>i. P (a + i)) xs)" for xs by (induction xs) auto
  moreover have "map (\<lambda>i. a + i) [0..<n] = [a..<a + n]" using map_add_upt [of a n] by (simp add: add.commute)
  ultimately show ?thesis by metis
qed

lemma find_cong_set: "(\<And>x. x \<in> set xs \<Longrightarrow> P x = Q x) \<Longrightarrow> find P xs = find Q xs"
  by (induction xs) auto

lemma take_contents: "i + len \<le> n \<Longrightarrow> take len (drop i (contents mem a n)) = contents mem (a + i) len"
  by (auto simp: contents_def drop_map take_map add.assoc intro!: nth_equalityI)

lemma chunk_find:
  assumes "pattern \<noteq> []"
  shows "map_option (\<lambda>i. a + i) (Search (contents mem a n) pattern ignoreCase isWide) =
    find (\<lambda>a. matches pattern ignoreCase isWide (contents mem a (length pattern))) [a..<a + (n + 1 - length pattern)]"
proof -
  let ?Q = "\<lambda>a. matches pattern ignoreCase isWide (contents mem a (length pattern))"
  have "Search (contents mem a n) pattern ignoreCase isWide = find (\<lambda>i. ?Q (a + i)) [0..<n + 1 - length pattern]"
  proof -
    have "length (contents mem a n) = n" by (simp add: contents_def)
    then show ?thesis unfolding Search_find [OF assms]
      by (simp only:) (rule find_cong_set, simp add: take_contents)
  qed
  then show ?thesis using find_shift [of a ?Q] by simp
qed

lemma search_run_find:
  assumes mem: "reads_memory q rd mem" and p: "pattern \<noteq> []"
  shows "(\<forall>x \<in> {at..<end}. readable q x) \<Longrightarrow>
    search_run rd pattern ignoreCase isWide end at =
    find (\<lambda>a. matches pattern ignoreCase isWide (contents mem a (length pattern))) [at..<end + 1 - length pattern]"
proof (induction "end - at" arbitrary: at rule: less_induct)
  case less
  let ?Q = "\<lambda>a. matches pattern ignoreCase isWide (contents mem a (length pattern))"
  let ?n = "min (ChunkSize + length pattern - 1) (end - at)"
  show ?case
  proof (cases "end \<le> at")
    case True
    then have e: "[at..<end + 1 - length pattern] = []" using p by (cases pattern) auto
    show ?thesis unfolding e using True by (simp add: search_run.simps [of _ _ _ _ _ at])
  next
    case False
    have n: "?n > 0" using False p by (simp add: ChunkSize_def)
    have "\<forall>x \<in> {at..<at + ?n}. readable q x" using less.prems by auto
    then have rd: "rd at ?n = (True, contents mem at ?n)" using mem by (simp add: reads_memory_def contents_def)
    have e: "search_run rd pattern ignoreCase isWide end at =
        (case Search (contents mem at ?n) pattern ignoreCase isWide of
           Some i \<Rightarrow> Some (at + i) | None \<Rightarrow> search_run rd pattern ignoreCase isWide end (at + ChunkSize))"
      using False rd by (simp add: search_run.simps [of _ _ _ _ _ at])
    have rest: "search_run rd pattern ignoreCase isWide end (at + ChunkSize) = find ?Q [at + ChunkSize..<end + 1 - length pattern]"
      by (rule less.hyps) (use False less.prems in \<open>auto simp: ChunkSize_def\<close>)
    have split: "[at..<end + 1 - length pattern] =
        [at..<at + (?n + 1 - length pattern)] @ [at + ChunkSize..<end + 1 - length pattern]"
    proof (cases "at + ChunkSize \<le> end + 1 - length pattern")
      case True
      have "length pattern > 0" "ChunkSize > 0" using p by (simp_all add: ChunkSize_def)
      then have "?n = ChunkSize + length pattern - 1" using True False by (intro min_absorb1) linarith
      then have "at + (?n + 1 - length pattern) = at + ChunkSize" using \<open>length pattern > 0\<close> by simp
      then show ?thesis using True by (metis le_add1 le_add_diff_inverse upt_add_eq_append)
    next
      case small: False
      have "at + (?n + 1 - length pattern) = end + 1 - length pattern \<or>
          end + 1 - length pattern \<le> at \<and> ?n + 1 - length pattern = 0"
        using small False by (auto simp: min_def)
      moreover have "[at + ChunkSize..<end + 1 - length pattern] = []" using small by simp
      ultimately show ?thesis by (metis append_Nil2 upt_conv_Nil add.right_neutral order_refl)
    qed
    show ?thesis
      unfolding e rest split find_append chunk_find [OF p, symmetric]
      by (simp split: option.split)
  qed
qed

lemma extend_run:
  assumes q: "regions_ok q"
  shows "\<exists>e'. extend q to e = Some e' \<and> e \<le> e' \<and> (\<forall>x \<in> {e..<e'}. readable q x) \<and> (to \<le> e' \<or> \<not> readable q e')"
proof (induction "to - e" arbitrary: e rule: less_induct)
  case less
  show ?case
  proof (cases "e < to")
    case True
    show ?thesis
    proof (cases "q e")
      case None
      then show ?thesis using True by (intro exI [of _ e]) (simp add: extend.simps [of q to e] readable_def)
    next
      case (Some mbi)
      show ?thesis
      proof (cases "IsReadable mbi")
        case False
        then show ?thesis using True Some by (intro exI [of _ e]) (simp add: extend.simps [of q to e] readable_def)
      next
        case r: True
        have lt: "e < region_end mbi" by (rule region_step(1) [OF q Some])
        then obtain e' where e': "extend q to (region_end mbi) = Some e'" "region_end mbi \<le> e'"
          "\<forall>x \<in> {region_end mbi..<e'}. readable q x" "to \<le> e' \<or> \<not> readable q e'"
          using less.hyps [of "region_end mbi"] True by (meson diff_less_mono2)
        have "readable q x" if "x \<in> {e..<e'}" for x
          using that e'(3) region_step(2) [OF q Some, of x] r by (cases "x < region_end mbi") auto
        then show ?thesis using e' lt True Some r by (intro exI [of _ e']) (auto simp: extend.simps [of q to e])
      qed
    qed
  next
    case False
    then show ?thesis by (intro exI [of _ e]) (simp add: extend.simps [of q to e])
  qed
qed

lemma run_matches:
  assumes q: "regions_ok q" and mem: "reads_memory q rd mem" and p: "pattern \<noteq> []"
    and run: "\<forall>x \<in> {address..<e}. readable q x" and stop: "to \<le> e \<or> \<not> readable q e"
  shows "search_run rd pattern ignoreCase isWide (min e to) address =
    find (match_from q mem pattern ignoreCase isWide to) [address..<min e to]"
proof -
  let ?e = "min e to" and ?G = "match_from q mem pattern ignoreCase isWide to"
  let ?Q = "\<lambda>a. matches pattern ignoreCase isWide (contents mem a (length pattern))"
  have len: "length pattern > 0" using p by simp
  have G: "?G a \<longleftrightarrow> a + length pattern \<le> ?e \<and> ?Q a" if "address \<le> a" "a < ?e" for a
  proof
    assume g: "?G a"
    have "a + length pattern \<le> e"
    proof (rule ccontr)
      assume "\<not> a + length pattern \<le> e"
      then have "e \<in> {a..<a + length pattern}" using that by auto
      then have "readable q e" using g by (simp add: match_from_def)
      then show False using stop g \<open>\<not> a + length pattern \<le> e\<close> by (simp add: match_from_def)
    qed
    then show "a + length pattern \<le> ?e \<and> ?Q a" using g by (simp add: match_from_def)
  next
    assume "a + length pattern \<le> ?e \<and> ?Q a"
    then show "?G a" using run that by (auto simp: match_from_def)
  qed
  have split: "[address..<?e] = [address..<?e + 1 - length pattern] @ [max address (?e + 1 - length pattern)..<?e]"
  proof (cases "address \<le> ?e + 1 - length pattern")
    case True
    moreover have "?e + 1 - length pattern \<le> ?e" using len by linarith
    ultimately show ?thesis
      by (metis le_add_diff_inverse max.absorb2 upt_add_eq_append)
  next
    case False
    then show ?thesis by (simp add: max_def)
  qed
  have "find ?G [address..<?e] = find ?G [address..<?e + 1 - length pattern]"
  proof -
    have "\<not> ?G a" if "a \<in> set [max address (?e + 1 - length pattern)..<?e]" for a
      using that G [of a] by auto
    then have "find ?G [max address (?e + 1 - length pattern)..<?e] = None" by (rule find_none)
    then show ?thesis unfolding split find_append by (simp split: option.split)
  qed
  also have "\<dots> = find ?Q [address..<?e + 1 - length pattern]"
  proof (rule find_cong_set)
    fix a assume "a \<in> set [address..<?e + 1 - length pattern]"
    then have "address \<le> a" "a + length pattern \<le> ?e" by auto
    then show "?G a = ?Q a" using G [of a] len by auto
  qed
  also have "\<dots> = search_run rd pattern ignoreCase isWide ?e address"
    by (rule search_run_find [OF mem p, symmetric]) (use run in auto)
  finally show ?thesis by simp
qed

lemma find_from_first:
  assumes q: "regions_ok q" and mem: "reads_memory q rd mem" and p: "pattern \<noteq> []"
  shows "find_from q rd pattern ignoreCase isWide to address =
    Some (find (match_from q mem pattern ignoreCase isWide to) [address..<to])"
proof (induction "to - address" arbitrary: address rule: less_induct)
  case less
  let ?G = "match_from q mem pattern ignoreCase isWide to"
  have hidden: "\<not> ?G a" if "\<not> readable q a" for a
    using that p by (auto simp: match_from_def)
  have skip: "find ?G [address..<to] = find ?G [e..<to]"
    if "address \<le> e" "\<And>a. address \<le> a \<Longrightarrow> a < e \<Longrightarrow> \<not> readable q a" for e
  proof (cases "e \<le> to")
    case True
    then have "[address..<to] = [address..<e] @ [e..<to]" using that(1) by (metis le_add_diff_inverse upt_add_eq_append)
    then show ?thesis using that(2) hidden by (simp only:) (rule find_skip, auto)
  next
    case False
    have "find ?G [address..<to] = None" by (rule find_none) (use that(2) hidden False in auto)
    then show ?thesis using False by simp
  qed
  show ?case
  proof (cases "address < to")
    case True
    show ?thesis
    proof (cases "q address")
      case None
      then have "find ?G [address..<to] = None" by (intro find_none) (use region_none [OF q None] hidden in auto)
      then show ?thesis using True None by (simp add: find_from.simps [of _ _ _ _ _ _ address])
    next
      case (Some mbi)
      have lt: "address < region_end mbi" by (rule region_step(1) [OF q Some])
      show ?thesis
      proof (cases "IsReadable mbi")
        case False
        then have "find ?G [address..<to] = find ?G [region_end mbi..<to]"
          using lt region_step(2) [OF q Some] by (intro skip) auto
        then show ?thesis using True Some False less.hyps [of "region_end mbi"] lt
          by (simp add: find_from.simps [of _ _ _ _ _ _ address])
      next
        case r: True
        obtain e where e: "extend q to (region_end mbi) = Some e" "region_end mbi \<le> e"
          "\<forall>x \<in> {region_end mbi..<e}. readable q x" "to \<le> e \<or> \<not> readable q e"
          using extend_run [OF q, of to "region_end mbi"] by blast
        have run: "\<forall>x \<in> {address..<e}. readable q x"
          using e(3) region_step(2) [OF q Some] r by (metis atLeastLessThan_iff linorder_not_less)
        have later: "find_from q rd pattern ignoreCase isWide to e = Some (find ?G [e..<to])"
          using less.hyps [of e] lt e(2) True by linarith
        have "[address..<to] = [address..<min e to] @ [e..<to]"
          using lt e(2) True by (cases "e \<le> to") (auto simp: min_def, metis le_add_diff_inverse less_imp_le_nat order_trans upt_add_eq_append)
        then have "find ?G [address..<to] =
            (case search_run rd pattern ignoreCase isWide (min e to) address of Some a \<Rightarrow> Some a | None \<Rightarrow> find ?G [e..<to])"
          by (simp only: find_append run_matches [OF q mem p run e(4)])
        then show ?thesis using True Some r e(1) later
          by (simp add: find_from.simps [of _ _ _ _ _ _ address] split: option.split)
      qed
    qed
  next
    case False
    then show ?thesis by (simp add: find_from.simps [of _ _ _ _ _ _ address])
  qed
qed

text \<open>C10: a search ends, and finds the first address where the pattern is in readable memory below the end, also where it
  runs from one chunk or one region into the next.\<close>

theorem Find_first:
  assumes "regions_ok q" and "reads_memory q rd mem" and "pattern \<noteq> []"
  shows "Find q rd pattern from to ignoreCase isWide =
    Some (find (match_from q mem pattern ignoreCase isWide to) [from..<to])"
  using find_from_first [OF assms, of ignoreCase isWide to "from"] assms(3) by (auto simp: Find_def)

lemma Find_first_witness:
  "let q = (\<lambda>a. if a < 8 then Some \<lparr>BaseAddress = 0, RegionSize = 8, State = MEM_COMMIT, Protect = 4\<rparr> else None);
       rd = (\<lambda>a n. if n = 0 \<or> a + n \<le> 8 then (True, contents (\<lambda>x. of_nat x) a n) else (False, []))
   in Find q rd [3, 4] 0 8 False False = Some (find (match_from q (\<lambda>x. of_nat x) [3, 4] False False 8) [0..<8])"
  unfolding Let_def
proof (rule Find_first)
  let ?q = "\<lambda>a. if a < 8 then Some \<lparr>BaseAddress = 0, RegionSize = 8, State = MEM_COMMIT, Protect = 4\<rparr> else None"
  show "regions_ok ?q" by (auto simp: regions_ok_def region_end_def split: if_splits)
  have "a + n \<le> 8" if "\<forall>x \<in> {a..<a + n}. readable ?q x" "n \<noteq> 0" for a n
  proof -
    have "readable ?q (a + n - 1)" using that by auto
    then show ?thesis by (auto simp: readable_def split: if_splits)
  qed
  then show "reads_memory ?q (\<lambda>a n. if n = 0 \<or> a + n \<le> 8 then (True, contents (\<lambda>x. of_nat x) a n) else (False, [])) (\<lambda>x. of_nat x)"
    by (auto simp: reads_memory_def contents_def)
qed simp

section \<open>Strings\<close>

record StringScanOptions =
  MinLength :: u32
  Ascii :: bool
  Unicode :: bool
  MaxResults :: nat
  MaxText :: u32

record MemoryString =
  Address :: nat
  Length :: u32
  Wide :: bool
  Text :: wstr

definition IsTextChar :: "u32 \<Rightarrow> bool \<Rightarrow> bool" where
  "IsTextChar ch isWide \<longleftrightarrow> (ch \<ge> 0x20 \<and> ch < 0x7F) \<or> ch = 9 \<or> (isWide \<and> ch \<ge> 0xA0 \<and> ch \<le> 0xFF)"

record StringRun =
  Start :: nat
  RunLength :: u32
  RunText :: wstr

definition no_run :: StringRun where
  "no_run = \<lparr>Start = 0, RunLength = 0, RunText = []\<rparr>"

definition Add :: "nat \<Rightarrow> 16 word \<Rightarrow> u32 \<Rightarrow> StringRun \<Rightarrow> StringRun" where
  "Add address ch maxText r =
     r\<lparr>Start := (if RunLength r = 0 then address else Start r), RunLength := RunLength r + 1,
       RunText := (if length (RunText r) < unat maxText then RunText r @ [ch] else RunText r)\<rparr>"

definition End_run :: "bool \<Rightarrow> StringScanOptions \<Rightarrow> StringRun \<Rightarrow> MemoryString list \<Rightarrow> StringRun \<times> MemoryString list" where
  "End_run isWide opts r results =
     (r\<lparr>RunLength := 0, RunText := []\<rparr>,
      if RunLength r \<ge> MinLength opts \<and> length results < MaxResults opts
      then results @ [\<lparr>Address = Start r, Length = RunLength r, Wide = isWide, Text = RunText r\<rparr>] else results)"

text \<open>The readable runs of regions.\<close>

definition add_range :: "nat \<Rightarrow> nat \<Rightarrow> (nat \<times> nat) list \<Rightarrow> (nat \<times> nat) list" where
  "add_range a e ranges =
     (if ranges \<noteq> [] \<and> snd (last ranges) = a then butlast ranges @ [(fst (last ranges), e)] else ranges @ [(a, e)])"

partial_function (option) ranges_from :: "query \<Rightarrow> nat \<Rightarrow> nat \<Rightarrow> (nat \<times> nat) list \<Rightarrow> (nat \<times> nat) list option" where
  "ranges_from q to address ranges =
     (if address < to then
        (case q address of
           None \<Rightarrow> Some ranges
         | Some mbi \<Rightarrow>
             ranges_from q to (region_end mbi)
               (if IsReadable mbi then add_range address (min (region_end mbi) to) ranges else ranges))
      else Some ranges)"

text \<open>The scan's state; \<open>Stopped\<close> when the progress said so.\<close>

record Scan =
  AsciiRun :: StringRun
  WideRun :: StringRun
  Results :: "MemoryString list"
  Scanned :: nat
  Stopped :: bool

definition scan_ascii :: "StringScanOptions \<Rightarrow> nat \<Rightarrow> byte \<Rightarrow> Scan \<Rightarrow> Scan" where
  "scan_ascii opts address b s =
     (if \<not> Ascii opts then s
      else if IsTextChar (ucast b) False then s\<lparr>AsciiRun := Add address (ucast b) (MaxText opts) (AsciiRun s)\<rparr>
      else if RunLength (AsciiRun s) \<noteq> 0 then
        (let (r, results) = End_run False opts (AsciiRun s) (Results s) in s\<lparr>AsciiRun := r, Results := results\<rparr>)
      else s)"

definition scan_wide :: "StringScanOptions \<Rightarrow> nat \<Rightarrow> bytes \<Rightarrow> nat \<Rightarrow> Scan \<Rightarrow> Scan" where
  "scan_wide opts address data i s =
     (if \<not> (Unicode opts \<and> i mod 2 = 0 \<and> i + 1 < length data) then s
      else
        (let ch = ucast (data ! i) OR push_bit 8 (ucast (data ! (i + 1)))
         in if IsTextChar ch True then s\<lparr>WideRun := Add address (ucast ch) (MaxText opts) (WideRun s)\<rparr>
            else if RunLength (WideRun s) \<noteq> 0 then
              (let (r, results) = End_run True opts (WideRun s) (Results s) in s\<lparr>WideRun := r, Results := results\<rparr>)
            else s))"

definition scan_bytes :: "StringScanOptions \<Rightarrow> nat \<Rightarrow> bytes \<Rightarrow> Scan \<Rightarrow> Scan" where
  "scan_bytes opts at data = fold (\<lambda>i s. scan_wide opts (at + i) data i (scan_ascii opts (at + i) (data ! i) s)) [0..<length data]"

definition end_runs :: "StringScanOptions \<Rightarrow> Scan \<Rightarrow> Scan" where
  "end_runs opts s =
     (let (a, results) = End_run False opts (AsciiRun s) (Results s); (w, results) = End_run True opts (WideRun s) results
      in s\<lparr>AsciiRun := a, WideRun := w, Results := results\<rparr>)"

definition full :: "StringScanOptions \<Rightarrow> Scan \<Rightarrow> bool" where
  "full opts s \<longleftrightarrow> length (Results s) \<ge> MaxResults opts"

text \<open>The chunks of a range; a page that went away ends the runs. \<open>progress\<close> is the caller's, if there is one.\<close>

function scan_chunks ::
  "StringScanOptions \<Rightarrow> reader \<Rightarrow> (nat \<Rightarrow> nat \<Rightarrow> bool) option \<Rightarrow> nat \<Rightarrow> nat \<Rightarrow> nat \<Rightarrow> Scan \<Rightarrow> Scan" where
  "scan_chunks opts rd progress whole rangeEnd at s =
     (if \<not> (at < rangeEnd \<and> \<not> full opts s) then end_runs opts s
      else
        (let count = min ChunkSize (rangeEnd - at); (ok, data) = rd at count
         in if \<not> ok \<and> data = [] then
              scan_chunks opts rd progress whole rangeEnd (at + ChunkSize) ((end_runs opts s)\<lparr>Scanned := Scanned s + count\<rparr>)
            else
              (let s1 = scan_bytes opts at data s; s2 = (if length data < count then end_runs opts s1 else s1);
                   s3 = s2\<lparr>Scanned := Scanned s + count\<rparr>
               in if \<not> (case progress of None \<Rightarrow> True | Some p \<Rightarrow> p (Scanned s3) whole)
                  then (end_runs opts s3)\<lparr>Stopped := True\<rparr>
                  else scan_chunks opts rd progress whole rangeEnd (at + ChunkSize) s3)))"
  by pat_completeness auto

termination
  by (relation "measure (\<lambda>(opts, rd, progress, whole, rangeEnd, at, s). rangeEnd - at)") (auto simp: ChunkSize_def)

declare scan_chunks.simps [simp del]

definition scan_range ::
  "StringScanOptions \<Rightarrow> reader \<Rightarrow> (nat \<Rightarrow> nat \<Rightarrow> bool) option \<Rightarrow> nat \<Rightarrow> nat \<times> nat \<Rightarrow> Scan \<Rightarrow> Scan" where
  "scan_range opts rd progress whole run s =
     (if Stopped s then s
      else scan_chunks opts rd progress whole (snd run) (fst run) (s\<lparr>AsciiRun := no_run, WideRun := no_run\<rparr>))"

definition no_scan :: Scan where
  "no_scan = \<lparr>AsciiRun = no_run, WideRun = no_run, Results = [], Scanned = 0, Stopped = False\<rparr>"

text \<open>The strings, and whether the list is cut.\<close>

definition FindStrings ::
  "query \<Rightarrow> reader \<Rightarrow> nat \<Rightarrow> nat \<Rightarrow> StringScanOptions \<Rightarrow> (nat \<Rightarrow> nat \<Rightarrow> bool) option \<Rightarrow> (MemoryString list \<times> bool) option" where
  "FindStrings q rd from to opts progress =
     (if to \<le> from \<or> (\<not> Ascii opts \<and> \<not> Unicode opts) then Some ([], False)
      else Option.bind (ranges_from q to from []) (\<lambda>ranges.
        let s = fold (scan_range opts rd progress (sum_list (map (\<lambda>(a, e). e - a) ranges))) ranges no_scan
        in Some (sort_key Address (Results s), Stopped s \<or> full opts s)))"

section \<open>What is found\<close>

definition string_ok :: "StringScanOptions \<Rightarrow> MemoryString \<Rightarrow> bool" where
  "string_ok opts m \<longleftrightarrow>
     MinLength opts \<le> Length m \<and> length (Text m) \<le> unat (MaxText opts) \<and> (Wide m \<longrightarrow> Unicode opts) \<and>
     (\<not> Wide m \<longrightarrow> Ascii opts) \<and> (\<forall>c \<in> set (Text m). IsTextChar (ucast c) (Wide m))"

definition run_ok :: "StringScanOptions \<Rightarrow> bool \<Rightarrow> StringRun \<Rightarrow> bool" where
  "run_ok opts isWide r \<longleftrightarrow>
     length (RunText r) \<le> unat (MaxText opts) \<and> (\<forall>c \<in> set (RunText r). IsTextChar (ucast c) isWide)"

definition scan_ok :: "StringScanOptions \<Rightarrow> Scan \<Rightarrow> bool" where
  "scan_ok opts s \<longleftrightarrow>
     (\<forall>m \<in> set (Results s). string_ok opts m) \<and> length (Results s) \<le> MaxResults opts \<and>
     run_ok opts False (AsciiRun s) \<and> run_ok opts True (WideRun s) \<and>
     (Ascii opts \<or> RunLength (AsciiRun s) = 0 \<and> RunText (AsciiRun s) = []) \<and>
     (Unicode opts \<or> RunLength (WideRun s) = 0 \<and> RunText (WideRun s) = [])"

lemma Add_ok: "run_ok opts isWide r \<Longrightarrow> IsTextChar (ucast ch) isWide \<Longrightarrow> run_ok opts isWide (Add address ch (MaxText opts) r)"
  by (auto simp: run_ok_def Add_def)

lemma End_run_ok:
  assumes "End_run isWide opts r results = (r', results')" and "run_ok opts isWide r" and "length results \<le> MaxResults opts"
    and "\<forall>m \<in> set results. string_ok opts m" and "(if isWide then Unicode opts else Ascii opts) \<or> RunLength r < MinLength opts"
  shows "run_ok opts isWide r' \<and> RunLength r' = 0 \<and> RunText r' = [] \<and>
    (\<forall>m \<in> set results'. string_ok opts m) \<and> length results' \<le> MaxResults opts"
  using assms by (auto simp: End_run_def run_ok_def string_ok_def split: if_splits)

lemma text_char_u16: "IsTextChar (ch :: u32) True \<Longrightarrow> ucast (ucast ch :: u16) = ch"
proof -
  assume "IsTextChar ch True"
  then have "unat ch < 65536" by (auto simp: IsTextChar_def word_le_nat_alt word_less_nat_alt)
  then show ?thesis by (intro word_unat_eq_iff [THEN iffD2]) (simp add: unsigned_ucast_eq unsigned_take_bit_eq take_bit_nat_eq_self)
qed

lemma scan_ascii_ok: "scan_ok opts s \<Longrightarrow> scan_ok opts (scan_ascii opts address b s)"
proof (cases "End_run False opts (AsciiRun s) (Results s)")
  case (Pair r results)
  assume ok: "scan_ok opts s"
  have "unat b < 65536" using unat_less_2p [of b] by simp
  then have u: "ucast (ucast b :: u16) = (ucast b :: u32)"
    by (intro word_unat_eq_iff [THEN iffD2]) (simp add: unsigned_ucast_eq unsigned_take_bit_eq take_bit_nat_eq_self)
  have "Ascii opts \<Longrightarrow> run_ok opts False r \<and> (\<forall>m \<in> set results. string_ok opts m) \<and> length results \<le> MaxResults opts"
    using End_run_ok [OF Pair] ok by (simp add: scan_ok_def)
  then show ?thesis
    using ok Pair Add_ok [of opts False "AsciiRun s" "ucast b" address] u by (auto simp: scan_ascii_def scan_ok_def)
qed

lemma scan_wide_ok: "scan_ok opts s \<Longrightarrow> scan_ok opts (scan_wide opts address data i s)"
proof (cases "End_run True opts (WideRun s) (Results s)")
  case (Pair r results)
  assume ok: "scan_ok opts s"
  let ?ch = "ucast (data ! i) OR push_bit 8 (ucast (data ! (i + 1))) :: u32"
  have "Unicode opts \<Longrightarrow> run_ok opts True r \<and> (\<forall>m \<in> set results. string_ok opts m) \<and> length results \<le> MaxResults opts"
    using End_run_ok [OF Pair] ok by (simp add: scan_ok_def)
  moreover have "IsTextChar ?ch True \<Longrightarrow> run_ok opts True (Add address (ucast ?ch) (MaxText opts) (WideRun s))"
    using Add_ok [of opts True "WideRun s" "ucast ?ch" address] text_char_u16 [of ?ch] ok by (simp add: scan_ok_def)
  ultimately show ?thesis
    using ok Pair unfolding scan_wide_def Let_def scan_ok_def by (auto split: if_splits)
qed

lemma scan_bytes_ok: "scan_ok opts s \<Longrightarrow> scan_ok opts (scan_bytes opts at data s)"
proof -
  have "scan_ok opts s \<Longrightarrow> scan_ok opts (fold (\<lambda>i s. scan_wide opts (at + i) data i (scan_ascii opts (at + i) (data ! i) s)) xs s)" for xs
    by (induction xs arbitrary: s) (auto intro: scan_wide_ok scan_ascii_ok)
  then show "scan_ok opts s \<Longrightarrow> ?thesis" by (simp add: scan_bytes_def)
qed

lemma end_runs_ok: "0 < MinLength opts \<Longrightarrow> scan_ok opts s \<Longrightarrow> scan_ok opts (end_runs opts s)"
proof -
  assume min: "0 < MinLength opts" and ok: "scan_ok opts s"
  obtain a r1 where a: "End_run False opts (AsciiRun s) (Results s) = (a, r1)" by fastforce
  obtain w r2 where w: "End_run True opts (WideRun s) r1 = (w, r2)" by fastforce
  have 1: "run_ok opts False a \<and> RunLength a = 0 \<and> RunText a = [] \<and> (\<forall>m \<in> set r1. string_ok opts m) \<and> length r1 \<le> MaxResults opts"
    using ok min by (intro End_run_ok [OF a]) (auto simp: scan_ok_def)
  have "run_ok opts True w \<and> RunLength w = 0 \<and> RunText w = [] \<and> (\<forall>m \<in> set r2. string_ok opts m) \<and> length r2 \<le> MaxResults opts"
    using ok min 1 by (intro End_run_ok [OF w]) (auto simp: scan_ok_def)
  then show ?thesis using 1 a w by (simp add: end_runs_def scan_ok_def)
qed

lemma scan_ok_update: "scan_ok opts (s\<lparr>Scanned := n\<rparr>) = scan_ok opts s" "scan_ok opts (s\<lparr>Stopped := b\<rparr>) = scan_ok opts s"
  by (simp_all add: scan_ok_def)

lemma scan_chunks_ok:
  "0 < MinLength opts \<Longrightarrow> scan_ok opts s \<Longrightarrow> scan_ok opts (scan_chunks opts rd progress whole rangeEnd at s)"
proof (induction opts rd progress whole rangeEnd at s rule: scan_chunks.induct)
  case (1 opts rd progress whole rangeEnd at s)
  show ?case
  proof (cases "at < rangeEnd \<and> \<not> full opts s")
    case False
    then show ?thesis using 1 by (simp add: scan_chunks.simps [of _ _ _ _ _ at] end_runs_ok)
  next
    case True
    define count where "count = min ChunkSize (rangeEnd - at)"
    obtain ok data where rd: "rd at count = (ok, data)" by fastforce
    define s3 where "s3 = (if length data < count then end_runs opts (scan_bytes opts at data s) else scan_bytes opts at data s)
      \<lparr>Scanned := Scanned s + count\<rparr>"
    have s3: "scan_ok opts s3" using 1(3,4) by (simp add: s3_def scan_ok_update scan_bytes_ok end_runs_ok)
    have e: "scan_chunks opts rd progress whole rangeEnd at s =
        (if \<not> ok \<and> data = [] then
           scan_chunks opts rd progress whole rangeEnd (at + ChunkSize) ((end_runs opts s)\<lparr>Scanned := Scanned s + count\<rparr>)
         else if \<not> (case progress of None \<Rightarrow> True | Some p \<Rightarrow> p (Scanned s3) whole) then (end_runs opts s3)\<lparr>Stopped := True\<rparr>
         else scan_chunks opts rd progress whole rangeEnd (at + ChunkSize) s3)"
      using True rd unfolding s3_def count_def by (subst scan_chunks.simps) (simp only: Let_def if_False if_True simp_thms case_prod_conv)
    show ?thesis
    proof (cases "\<not> ok \<and> data = []")
      case failed: True
      then show ?thesis
        using 1(1) [OF _ count_def rd [symmetric] refl] True 1(3,4) unfolding e by (simp add: scan_ok_update end_runs_ok)
    next
      case read: False
      show ?thesis
      proof (cases "case progress of None \<Rightarrow> True | Some p \<Rightarrow> p (Scanned s3) whole")
        case go: True
        have "scan_ok opts (scan_chunks opts rd progress whole rangeEnd (at + ChunkSize) s3)"
          by (rule 1(2) [OF _ count_def rd [symmetric] refl read refl refl]) (use True go s3 1(3) in \<open>simp_all add: s3_def\<close>)
        then show ?thesis unfolding e if_not_P [OF read] using go by simp
      next
        case stop: False
        then show ?thesis unfolding e if_not_P [OF read] using end_runs_ok [OF 1(3) s3] by (simp add: scan_ok_update)
      qed
    qed
  qed
qed

lemma scan_range_ok: "0 < MinLength opts \<Longrightarrow> scan_ok opts s \<Longrightarrow> scan_ok opts (scan_range opts rd progress whole run s)"
proof -
  assume min: "0 < MinLength opts" and ok: "scan_ok opts s"
  have "scan_ok opts (s\<lparr>AsciiRun := no_run, WideRun := no_run\<rparr>)" using ok by (simp add: scan_ok_def run_ok_def no_run_def)
  then show ?thesis using ok scan_chunks_ok [OF min] by (simp add: scan_range_def)
qed

lemma FindStrings_scan:
  assumes "FindStrings q rd from to opts progress = Some (strings, shortened)" and "0 < MinLength opts"
  obtains "strings = []" "\<not> shortened" | s where "scan_ok opts s" "strings = sort_key Address (Results s)" "shortened = (Stopped s \<or> full opts s)"
proof -
  have fold: "scan_ok opts s \<Longrightarrow> scan_ok opts (fold (scan_range opts rd progress n) xs s)" for xs s n
    by (induction xs arbitrary: s) (auto intro: scan_range_ok [OF assms(2)])
  have "scan_ok opts no_scan" by (simp add: scan_ok_def no_scan_def run_ok_def no_run_def)
  then show thesis
    using assms(1) that fold by (auto simp: FindStrings_def Let_def bind_eq_Some_conv split: if_splits)
qed


definition three_bytes :: query where
  "three_bytes a = (if a < 3 then Some \<lparr>BaseAddress = 0, RegionSize = 3, State = MEM_COMMIT, Protect = 4\<rparr> else None)"

definition small_scan :: StringScanOptions where
  "small_scan = \<lparr>MinLength = 2, Ascii = True, Unicode = False, MaxResults = 5, MaxText = 9\<rparr>"

lemma ranges_of_three: "ranges_from three_bytes 3 0 [] = Some [(0, 3)]"
  by (simp add: ranges_from.simps [of _ 3] three_bytes_def region_end_def IsReadable_def MEM_COMMIT_def PAGE_NOACCESS_def
    PAGE_GUARD_def add_range_def)

lemma strings_of_three:
  "FindStrings three_bytes (\<lambda>a n. (True, [97, 98, 0])) 0 3 small_scan None =
   Some ([\<lparr>Address = 0, Length = 2, Wide = False, Text = [97, 98]\<rparr>], False)"
proof -
  have "scan_bytes small_scan 0 [97, 98, 0] no_scan =
      no_scan\<lparr>Results := [\<lparr>Address = 0, Length = 2, Wide = False, Text = [97, 98]\<rparr>]\<rparr>"
    by (simp add: scan_bytes_def upt_rec scan_ascii_def scan_wide_def small_scan_def IsTextChar_def Add_def End_run_def
      no_scan_def no_run_def)
  then have "scan_chunks small_scan (\<lambda>a n. (True, [97, 98, 0])) None 3 3 0 no_scan =
      no_scan\<lparr>Results := [\<lparr>Address = 0, Length = 2, Wide = False, Text = [97, 98]\<rparr>], Scanned := 3\<rparr>"
    by (simp add: scan_chunks.simps [of _ _ _ _ 3] ChunkSize_def Let_def full_def no_scan_def no_run_def small_scan_def end_runs_def
      End_run_def)
  then show ?thesis
    by (simp add: FindStrings_def ranges_of_three small_scan_def scan_range_def no_scan_def full_def Let_def)
qed


section \<open>Reading and writing\<close>

text \<open>The bytes that a call wrote into the buffer.\<close>

definition put_at :: "nat \<Rightarrow> bytes \<Rightarrow> bytes \<Rightarrow> bytes" where
  "put_at k data buf = take k buf @ data @ drop (k + length data) buf"

function read_pages :: "reader \<Rightarrow> nat \<Rightarrow> nat \<Rightarrow> nat \<Rightarrow> bytes \<times> nat \<Rightarrow> bytes \<times> nat" where
  "read_pages rd address n k st =
     (if n \<le> k then st
      else
        (let count = min (n - k) (((address + k) div 4096 + 1) * 4096 - (address + k)); (ok, data) = rd (address + k) count
         in read_pages rd address n (k + count) (put_at k data (fst st), if ok then snd st + length data else snd st)))"
  by pat_completeness auto

termination
proof (relation "measure (\<lambda>(rd, address, n, k, st). n - k)")
  fix rd :: reader and address n k :: nat and st :: "bytes \<times> nat" and count r and ok :: bool and data :: bytes
  assume "\<not> n \<le> k" and count: "count = min (n - k) (((address + k) div 4096 + 1) * 4096 - (address + k))"
  have "address + k < ((address + k) div 4096 + 1) * 4096"
    using div_mult_mod_eq [of "address + k" 4096] mod_less_divisor [of 4096 "address + k"] by simp
  then have "0 < count" using \<open>\<not> n \<le> k\<close> count by simp
  then show "((rd, address, n, k + count, put_at k data (fst st), if ok then snd st + length data else snd st), rd, address, n, k, st) \<in>
      measure (\<lambda>(rd, address, n, k, st). n - k)" using \<open>\<not> n \<le> k\<close> by simp
qed simp

declare read_pages.simps [simp del]

text \<open>\<open>Read\<close>: the buffer and the number of bytes.\<close>

definition Read_memory :: "reader \<Rightarrow> nat \<Rightarrow> nat \<Rightarrow> bytes \<times> nat" where
  "Read_memory rd address n =
     (let (ok, data) = rd address n; buf = put_at 0 data (replicate n 0)
      in if ok then (buf, length data) else read_pages rd address n 0 (buf, 0))"

text \<open>\<open>Write\<close>: \<open>written\<close> is how many bytes \<open>WriteProcessMemory\<close> wrote, or its error. The result is an error or success.\<close>

definition ERROR_PARTIAL_COPY :: u32 where "ERROR_PARTIAL_COPY = 299"

definition Write_memory :: "(nat \<Rightarrow> bytes \<Rightarrow> u32 + nat) \<Rightarrow> nat \<Rightarrow> bytes \<Rightarrow> u32 option" where
  "Write_memory wr address data =
     (case wr address data of
        Inl err \<Rightarrow> Some err
      | Inr written \<Rightarrow> if written \<noteq> length data then Some ERROR_PARTIAL_COPY else None)"

text \<open>
  \<open>GetMappedFileName\<close>: at most three queries, the buffer grown to what the one before needs. \<open>query\<close> gives a name, or a
  status and the size needed.
\<close>

definition STATUS_BUFFER_OVERFLOW :: u32 where "STATUS_BUFFER_OVERFLOW = 0x80000005"
definition STATUS_INFO_LENGTH_MISMATCH :: u32 where "STATUS_INFO_LENGTH_MISMATCH = 0xC0000004"
definition STATUS_BUFFER_TOO_SMALL :: u32 where "STATUS_BUFFER_TOO_SMALL = 0xC0000023"

fun mapped_name :: "(u32 \<Rightarrow> u32 \<times> nat + wstr) \<Rightarrow> nat \<Rightarrow> u32 \<Rightarrow> wstr" where
  "mapped_name query 0 n = []"
| "mapped_name query (Suc attempts) n =
     (case query n of
        Inr name \<Rightarrow> name
      | Inl (status, needed) \<Rightarrow>
          if status \<noteq> STATUS_BUFFER_OVERFLOW \<and> status \<noteq> STATUS_INFO_LENGTH_MISMATCH \<and> status \<noteq> STATUS_BUFFER_TOO_SMALL then []
          else mapped_name query attempts (if needed > unat n then of_nat needed else 16 + 0x10000))"

definition GetMappedFileName :: "(u32 \<Rightarrow> u32 \<times> nat + wstr) \<Rightarrow> wstr" where
  "GetMappedFileName query = mapped_name query 3 1024"

section \<open>What can be read is read\<close>

text \<open>A read succeeds when all of its memory is readable; else it gives some of what comes before the first that is not.\<close>

definition reader_ok :: "query \<Rightarrow> reader \<Rightarrow> (nat \<Rightarrow> byte) \<Rightarrow> bool" where
  "reader_ok q rd mem \<longleftrightarrow>
     (\<forall>a n ok data. rd a n = (ok, data) \<longrightarrow>
        ok = (\<forall>x \<in> {a..<a + n}. readable q x) \<and> length data \<le> n \<and> (ok \<longrightarrow> length data = n) \<and>
        data = contents mem a (length data) \<and> (\<forall>x \<in> {a..<a + length data}. readable q x))"

definition pages_ok :: "query \<Rightarrow> bool" where
  "pages_ok q \<longleftrightarrow> (\<forall>a b. a div 4096 = b div 4096 \<longrightarrow> readable q a = readable q b)"

definition seen :: "query \<Rightarrow> (nat \<Rightarrow> byte) \<Rightarrow> nat \<Rightarrow> byte" where
  "seen q mem x = (if readable q x then mem x else 0)"

text \<open>
  The buffer is right before \<open>k\<close>, and behind it holds what is there or zeros (a failed first read may leave some).
\<close>

definition buffer_ok :: "query \<Rightarrow> (nat \<Rightarrow> byte) \<Rightarrow> nat \<Rightarrow> nat \<Rightarrow> nat \<Rightarrow> bytes \<times> nat \<Rightarrow> bool" where
  "buffer_ok q mem address n k st \<longleftrightarrow>
     length (fst st) = n \<and> (\<forall>i < k. fst st ! i = seen q mem (address + i)) \<and>
     (\<forall>i < n. fst st ! i = 0 \<or> readable q (address + i) \<and> fst st ! i = mem (address + i)) \<and>
     snd st = card {x \<in> {address..<address + k}. readable q x}"

lemma nth_contents: "i < n \<Longrightarrow> contents mem a n ! i = mem (a + i)"
  by (simp add: contents_def)

lemma put_at_nth:
  assumes "k + length data \<le> length buf" and "i < length buf"
  shows "put_at k data buf ! i = (if k \<le> i \<and> i < k + length data then data ! (i - k) else buf ! i)"
  using assms by (auto simp: put_at_def nth_append)

lemma length_put_at: "k + length data \<le> length buf \<Longrightarrow> length (put_at k data buf) = length buf"
  by (simp add: put_at_def)

lemma page_step:
  assumes ok: "reader_ok q rd mem" "pages_ok q" and b: "buffer_ok q mem address n k st" and k: "k < n"
    and c: "count = min (n - k) (((address + k) div 4096 + 1) * 4096 - (address + k))" and rd: "rd (address + k) count = (r, data)"
  shows "buffer_ok q mem address n (k + count) (put_at k data (fst st), if r then snd st + length data else snd st)"
proof -
  have d: "r = (\<forall>x \<in> {address + k..<address + k + count}. readable q x)" "length data \<le> count" "r \<Longrightarrow> length data = count"
    "data = contents mem (address + k) (length data)" "\<forall>x \<in> {address + k..<address + k + length data}. readable q x"
    using ok(1) rd unfolding reader_ok_def by blast+
  have same: "readable q x = readable q (address + k)" if "x \<in> {address + k..<address + k + count}" for x
  proof -
    have "x < ((address + k) div 4096 + 1) * 4096" using that c by auto
    then have "x div 4096 < (address + k) div 4096 + 1" by (rule less_mult_imp_div_less)
    moreover have "address + k \<le> x" using that by simp
    then have "(address + k) div 4096 \<le> x div 4096" by (rule div_le_mono)
    moreover have "u = v" if "u < v + 1" "v \<le> u" for u v :: nat using that by simp
    ultimately have "x div 4096 = (address + k) div 4096" by blast
    then show ?thesis using ok(2) unfolding pages_ok_def by blast
  qed
  have count: "count > 0" "k + count \<le> n"
  proof -
    have "address + k < ((address + k) div 4096 + 1) * 4096"
      using div_mult_mod_eq [of "address + k" 4096] mod_less_divisor [of 4096 "address + k"] by simp
    then show "count > 0" "k + count \<le> n" using c k by auto
  qed
  have bk: "\<And>i. i < k \<Longrightarrow> fst st ! i = seen q mem (address + i)"
    "\<And>i. i < n \<Longrightarrow> fst st ! i = 0 \<or> readable q (address + i) \<and> fst st ! i = mem (address + i)"
    using b by (simp_all add: buffer_ok_def)
  have iv: "{address..<address + (k + count)} = {address..<address + k} \<union> {address + k..<address + k + count}" by auto
  have at: "data ! i = mem (address + k + i)" if "i < length data" for i
    by (subst d(4)) (simp add: nth_contents that)
  have len: "k + length data \<le> length (fst st)" "length (fst st) = n" using d(2) count(2) b by (auto simp: buffer_ok_def)
  show ?thesis
  proof (cases "readable q (address + k)")
    case True
    then have r: "r" and full: "length data = count" using d(1,3) same by blast+
    let ?A = "{x \<in> {address..<address + k}. readable q x}" and ?B = "{address + k..<address + k + count}"
    have split: "{x \<in> {address..<address + (k + count)}. readable q x} = ?A \<union> ?B"
      unfolding iv using same True by blast
    have "card (?A \<union> ?B) = card ?A + card ?B" by (rule card_Un_disjoint) auto
    then have "card {x \<in> {address..<address + (k + count)}. readable q x} = card ?A + count"
      unfolding split card_atLeastLessThan by simp
    moreover have new: "put_at k data (fst st) ! i = mem (address + i) \<and> readable q (address + i)" if "k \<le> i" "i < k + count" for i
    proof -
      have "put_at k data (fst st) ! i = data ! (i - k)" using that full len count by (subst put_at_nth) simp_all
      also have "\<dots> = mem (address + i)" using at [of "i - k"] that full by simp
      finally show ?thesis using same [of "address + i"] True that by simp
    qed
    moreover have old: "put_at k data (fst st) ! i = fst st ! i" if "i < n" "\<not> (k \<le> i \<and> i < k + count)" for i
      using that full len by (subst put_at_nth) auto
    have "put_at k data (fst st) ! i = seen q mem (address + i)" if "i < k + count" for i
    proof (cases "i < k")
      case True
      then show ?thesis using old [of i] bk(1) [of i] count that by simp
    next
      case False
      then show ?thesis using new [of i] that by (simp add: seen_def)
    qed
    moreover have "put_at k data (fst st) ! i = 0 \<or> readable q (address + i) \<and> put_at k data (fst st) ! i = mem (address + i)"
      if "i < n" for i
    proof (cases "k \<le> i \<and> i < k + count")
      case True
      then show ?thesis using new [of i] by blast
    next
      case False
      then show ?thesis using old [OF that False] bk(2) [OF that] by metis
    qed
    ultimately show ?thesis using b r full len by (simp add: buffer_ok_def length_put_at)
  next
    case False
    then have r: "\<not> r" using d(1) count(1) by auto
    have none: "data = []"
    proof (rule ccontr)
      assume "data \<noteq> []"
      then show False using d(5) False by auto
    qed
    have "{x \<in> {address..<address + (k + count)}. readable q x} = {x \<in> {address..<address + k}. readable q x}"
      unfolding iv using same False by blast
    moreover have "fst st ! i = seen q mem (address + i)" if "i < k + count" for i
    proof (cases "i < k")
      case False
      then have "\<not> readable q (address + i)" using same [of "address + i"] \<open>\<not> readable q (address + k)\<close> that by auto
      moreover have "i < n" using that count by simp
      ultimately show ?thesis using b unfolding buffer_ok_def seen_def by metis
    qed (use b in \<open>simp add: buffer_ok_def\<close>)
    ultimately show ?thesis using b r none by (simp add: buffer_ok_def put_at_def)
  qed
qed

lemma read_pages_ok:
  "reader_ok q rd mem \<Longrightarrow> pages_ok q \<Longrightarrow> k \<le> n \<Longrightarrow> buffer_ok q mem address n k st \<Longrightarrow>
   buffer_ok q mem address n n (read_pages rd address n k st)"
proof (induction rd address n k st rule: read_pages.induct)
  case (1 rd address n k st)
  show ?case
  proof (cases "n \<le> k")
    case True
    then show ?thesis using 1 by (simp add: read_pages.simps [of _ _ _ k])
  next
    case False
    define count where "count = min (n - k) (((address + k) div 4096 + 1) * 4096 - (address + k))"
    obtain ok data where rd: "rd (address + k) count = (ok, data)" by fastforce
    have b: "buffer_ok q mem address n (k + count) (put_at k data (fst st), if ok then snd st + length data else snd st)"
      by (rule page_step [OF 1(2,3,5) _ count_def rd]) (use False in simp)
    have "count \<le> n - k" unfolding count_def by (rule min.cobounded1)
    then have le: "k + count \<le> n" using False by simp
    have "buffer_ok q mem address n n
        (read_pages rd address n (k + count) (put_at k data (fst st), if ok then snd st + length data else snd st))"
      by (rule 1(1) [OF False count_def rd [symmetric] refl 1(2,3) le b])
    then show ?thesis using False rd by (subst read_pages.simps) (simp add: Let_def count_def)
  qed
qed

text \<open>Reading gives the bytes that can be read and zeros for the pages that cannot, and how many it read.\<close>

theorem Read_memory_pages:
  assumes "reader_ok q rd mem" and "pages_ok q"
  shows "Read_memory rd address n =
    (map (seen q mem) [address..<address + n], card {x \<in> {address..<address + n}. readable q x})"
proof -
  obtain ok data where rd: "rd address n = (ok, data)" by fastforce
  have d: "ok = (\<forall>x \<in> {address..<address + n}. readable q x)" "length data \<le> n" "ok \<Longrightarrow> length data = n"
    "data = contents mem address (length data)" "\<forall>x \<in> {address..<address + length data}. readable q x"
    using assms(1) rd unfolding reader_ok_def by blast+
  have all: "buf = map (seen q mem) [address..<address + n] \<and> c = card {x \<in> {address..<address + n}. readable q x}"
    if "buffer_ok q mem address n n (buf, c)" for buf c
    using that by (auto simp: buffer_ok_def intro!: nth_equalityI)
  show ?thesis
  proof (cases ok)
    case True
    then have r: "\<forall>x \<in> {address..<address + n}. readable q x" using d(1) by blast
    have data: "data = contents mem address n" using d(3,4) True by metis
    have "data = map (seen q mem) [address..<address + n]" using r unfolding data contents_def by (simp add: seen_def)
    moreover have "{x \<in> {address..<address + n}. readable q x} = {address..<address + n}" using r by auto
    ultimately show ?thesis using True rd d(3) by (simp add: Read_memory_def put_at_def)
  next
    case False
    have at: "data ! i = mem (address + i)" if "i < length data" for i
      by (subst d(4)) (simp add: nth_contents that)
    have "buffer_ok q mem address n 0 (put_at 0 data (replicate n 0), 0)"
      using d(2,5) at by (auto simp: buffer_ok_def put_at_def nth_append)
    then have "buffer_ok q mem address n n (read_pages rd address n 0 (put_at 0 data (replicate n 0), 0))"
      by (rule read_pages_ok [OF assms, rotated]) simp
    then show ?thesis using all False rd by (cases "read_pages rd address n 0 (put_at 0 data (replicate n 0), 0)") (simp add: Read_memory_def)
  qed
qed

definition one_page :: query where
  "one_page a = (if a < 4096 then Some \<lparr>BaseAddress = 4096 * (a div 4096), RegionSize = 4096, State = MEM_COMMIT, Protect = 4\<rparr> else None)"

definition page_reader :: reader where
  "page_reader a n = (if \<forall>x \<in> set [a..<a + n]. readable one_page x then (True, contents (\<lambda>x. of_nat x) a n) else (False, []))"

lemma Read_memory_pages_witness:
  "Read_memory page_reader 4094 4 =
   (map (seen one_page (\<lambda>x. of_nat x)) [4094..<4094 + 4], card {x \<in> {4094..<4094 + 4}. readable one_page x})"
proof (rule Read_memory_pages)
  show "reader_ok one_page page_reader (\<lambda>x. of_nat x)"
    by (auto simp: reader_ok_def page_reader_def contents_def split: if_splits)
  have "readable one_page a \<longleftrightarrow> a div 4096 = 0" for a
    by (simp add: readable_def one_page_def IsReadable_def MEM_COMMIT_def PAGE_NOACCESS_def PAGE_GUARD_def div_eq_0_iff)
  then show "pages_ok one_page" by (simp add: pages_ok_def)
qed

text \<open>A match that starts below the end and runs over it is not found.\<close>

lemma match_over_end_missed:
  assumes "regions_ok q" and "reads_memory q rd mem" and "to < from + length pattern"
  shows "Find q rd pattern from to ignoreCase isWide = Some None"
proof (cases "pattern = [] \<or> to \<le> from")
  case False
  have "find (match_from q mem pattern ignoreCase isWide to) [from..<to] = None"
    by (rule find_none) (use assms(3) in \<open>auto simp: match_from_def\<close>)
  then show ?thesis using find_from_first [OF assms(1,2)] False by (simp add: Find_def)
qed (simp add: Find_def)

text \<open>A range that does not begin on a page may have wide strings at odd addresses.\<close>

lemma wide_string_at_odd_address:
  "FindStrings three_bytes (\<lambda>a n. (True, take n (drop a [0, 97, 0]))) 1 3 (small_scan\<lparr>MinLength := 1, Ascii := False, Unicode := True\<rparr>) None =
   Some ([\<lparr>Address = 1, Length = 1, Wide = True, Text = [97]\<rparr>], False)"
proof -
  let ?opts = "small_scan\<lparr>MinLength := 1, Ascii := False, Unicode := True\<rparr>"
  have r: "ranges_from three_bytes 3 1 [] = Some [(1, 3)]"
    by (simp add: ranges_from.simps [of _ 3] three_bytes_def region_end_def IsReadable_def MEM_COMMIT_def PAGE_NOACCESS_def
      PAGE_GUARD_def add_range_def)
  have "scan_bytes ?opts 1 [97, 0] no_scan = no_scan\<lparr>WideRun := \<lparr>Start = 1, RunLength = 1, RunText = [97]\<rparr>\<rparr>"
    by (simp add: scan_bytes_def upt_rec scan_ascii_def scan_wide_def small_scan_def IsTextChar_def Add_def End_run_def
      no_scan_def no_run_def)
  then have "scan_chunks ?opts (\<lambda>a n. (True, take n (drop a [0, 97, 0]))) None 2 3 1 no_scan =
      no_scan\<lparr>WideRun := \<lparr>Start = 1, RunLength = 0, RunText = []\<rparr>,
        Results := [\<lparr>Address = 1, Length = 1, Wide = True, Text = [97]\<rparr>], Scanned := 2\<rparr>"
    by (simp add: scan_chunks.simps [of _ _ _ _ 3] ChunkSize_def Let_def full_def no_scan_def no_run_def small_scan_def end_runs_def
      End_run_def)
  then show ?thesis
    by (simp add: FindStrings_def r [unfolded One_nat_def] small_scan_def scan_range_def no_scan_def full_def Let_def)
qed

end
