(* ===== verification/Dot_Net.thy ===== *)
theory Dot_Net
  imports C_Text "HOL-Library.State_Monad"
begin

text \<open>
  .NET processes (\<open>WinSys/DotNet.h\<close>, \<open>DotNet.cpp\<close>): the reader of event payloads, the rundown events and the list
  they build, the diagnostics protocol of .NET Core runtimes with the answer it parses, the pipes' names, and the
  garbage collection events with their statistics. The readers run in the state monad, as the source's calls do
  on their \<open>PayloadReader\<close>. What arrives on a pipe and the names of the pipes are arguments.
\<close>

section \<open>Reading a payload\<close>

text \<open>\<open>Pos\<close> and \<open>End\<close> are what is left of the payload.\<close>

record PayloadReader =
  Left :: bytes
  Ok :: bool

type_synonym 'a reader = "(PayloadReader, 'a) state"

text \<open>\<open>Get\<close>: the bytes of a value; a read past the end makes \<open>Ok\<close> false and gives zeros.\<close>

definition Get :: "nat \<Rightarrow> bytes reader" where
  "Get n = State (\<lambda>r.
     if length (Left r) < n then (replicate n 0, r\<lparr>Ok := False, Left := []\<rparr>)
     else (take n (Left r), r\<lparr>Left := drop n (Left r)\<rparr>))"

definition Get8 :: "byte reader" where "Get8 = do { s \<leftarrow> Get 1; State_Monad.return (u8_at s 0) }"
definition Get16 :: "u16 reader" where "Get16 = do { s \<leftarrow> Get 2; State_Monad.return (u16_at s 0) }"
definition Get32 :: "u32 reader" where "Get32 = do { s \<leftarrow> Get 4; State_Monad.return (u32_at s 0) }"
definition Get64 :: "u64 reader" where "Get64 = do { s \<leftarrow> Get 8; State_Monad.return (u64_at s 0) }"
definition GetGuid :: "GUID reader" where "GetGuid = do { s \<leftarrow> Get 16; State_Monad.return (guid_at s) }"

text \<open>\<open>String\<close>: the characters up to a NUL, which is skipped.\<close>

definition GetString :: "wstr reader" where
  "GetString = State (\<lambda>r.
     let start = units (Left r); i = length (takeWhile not_nul start)
     in if i < length start then (take i start, r\<lparr>Left := drop ((i + 1) * 2) (Left r)\<rparr>)
        else ([], r\<lparr>Ok := False, Left := []\<rparr>))"

definition reader_of :: "bytes \<Rightarrow> PayloadReader" where
  "reader_of data = \<lparr>Left = data, Ok = True\<rparr>"

section \<open>The rundown\<close>

record DotNetRuntime =
  ClrInstanceId :: u16
  Core :: bool
  Version :: wstr
  BclVersion :: wstr
  RuntimePath :: wstr
  CommandLine :: wstr
  StartupFlags :: u32

record DotNetAppDomain =
  d_Id :: u64
  d_Flags :: u32
  d_Index :: u32
  d_Name :: wstr

record DotNetAssembly =
  a_Id :: u64
  a_AppDomainId :: u64
  a_Flags :: u32
  a_FullName :: wstr

record DotNetModule =
  m_Id :: u64
  m_AssemblyId :: u64
  m_Flags :: u32
  m_ILPath :: wstr
  m_NativePath :: wstr

record DotNetProcessDetails =
  Runtimes :: "DotNetRuntime list"
  AppDomains :: "DotNetAppDomain list"
  Assemblies :: "DotNetAssembly list"
  Modules :: "DotNetModule list"
  Complete :: bool

definition no_details :: DotNetProcessDetails where
  "no_details = \<lparr>Runtimes = [], AppDomains = [], Assemblies = [], Modules = [], Complete = False\<rparr>"

definition DCStartComplete :: u16 where "DCStartComplete = 145"
definition ModuleDCStart :: u16 where "ModuleDCStart = 153"
definition AssemblyDCStart :: u16 where "AssemblyDCStart = 155"
definition AppDomainDCStart :: u16 where "AppDomainDCStart = 157"
definition RuntimeInformationDCStart :: u16 where "RuntimeInformationDCStart = 187"

definition VersionText :: "u16 \<Rightarrow> u16 \<Rightarrow> u16 \<Rightarrow> u16 \<Rightarrow> wstr" where
  "VersionText major minor build qfe =
     to_wstring (unat major) @ wide ''.'' @ to_wstring (unat minor) @ wide ''.'' @ to_wstring (unat build) @ wide ''.'' @
     to_wstring (unat qfe)"

definition read_version :: "wstr reader" where
  "read_version = do {
     a \<leftarrow> Get16; b \<leftarrow> Get16; c \<leftarrow> Get16; d \<leftarrow> Get16;
     State_Monad.return (VersionText a b c d) }"

definition read_runtime :: "DotNetRuntime reader" where
  "read_runtime = do {
     instance_id \<leftarrow> Get16;
     sku \<leftarrow> Get16;
     bcl \<leftarrow> read_version;
     vm \<leftarrow> read_version;
     flags \<leftarrow> Get32;
     _ \<leftarrow> Get8;
     commandLine \<leftarrow> GetString;
     _ \<leftarrow> GetGuid;
     path \<leftarrow> GetString;
     State_Monad.return \<lparr>ClrInstanceId = instance_id, Core = (sku = 2), Version = vm, BclVersion = bcl, RuntimePath = path,
       CommandLine = commandLine, StartupFlags = flags\<rparr> }"

definition read_domain :: "byte \<Rightarrow> DotNetAppDomain reader" where
  "read_domain version = do {
     i \<leftarrow> Get64;
     flags \<leftarrow> Get32;
     name \<leftarrow> GetString;
     index \<leftarrow> (if version \<ge> 1 then Get32 else State_Monad.return 0);
     State_Monad.return \<lparr>d_Id = i, d_Flags = flags, d_Index = index, d_Name = name\<rparr> }"

definition read_assembly :: "byte \<Rightarrow> DotNetAssembly reader" where
  "read_assembly version = do {
     i \<leftarrow> Get64;
     domain \<leftarrow> Get64;
     _ \<leftarrow> (if version \<ge> 1 then Get64 else State_Monad.return 0);
     flags \<leftarrow> Get32;
     name \<leftarrow> GetString;
     State_Monad.return \<lparr>a_Id = i, a_AppDomainId = domain, a_Flags = flags, a_FullName = name\<rparr> }"

definition read_module :: "DotNetModule reader" where
  "read_module = do {
     i \<leftarrow> Get64;
     assembly \<leftarrow> Get64;
     flags \<leftarrow> Get32;
     _ \<leftarrow> Get32;
     il \<leftarrow> GetString;
     native \<leftarrow> GetString;
     State_Monad.return \<lparr>m_Id = i, m_AssemblyId = assembly, m_Flags = flags, m_ILPath = il, m_NativePath = native\<rparr> }"

text \<open>Something is added to the details when its whole payload was there.\<close>

definition add_read :: "'a reader \<Rightarrow> bytes \<Rightarrow> ('a \<Rightarrow> 'd \<Rightarrow> 'd) \<Rightarrow> 'd \<Rightarrow> 'd" where
  "add_read p data add d = (let (x, r) = run_state p (reader_of data) in if Ok r then add x d else d)"

text \<open>The end of a runtime's rundown: done when every runtime that said it is there is.\<close>

definition apply_complete ::
  "byte \<Rightarrow> bytes \<Rightarrow> DotNetProcessDetails \<Rightarrow> u16 list \<Rightarrow> bool \<times> DotNetProcessDetails \<times> u16 list" where
  "apply_complete version data details completed =
     (let inst = (if version \<ge> 1 then fst (run_state Get16 (reader_of data)) else 0);
          completed = completed @ [inst]
      in if version = 0 \<or> (\<forall>rt \<in> set (Runtimes details). ClrInstanceId rt \<in> set completed)
         then (True, details\<lparr>Complete := True\<rparr>, completed)
         else (False, details, completed))"

definition ApplyRundownEvent ::
  "u16 \<Rightarrow> byte \<Rightarrow> bytes \<Rightarrow> DotNetProcessDetails \<Rightarrow> u16 list \<Rightarrow> bool \<times> DotNetProcessDetails \<times> u16 list" where
  "ApplyRundownEvent eventId version data details completed =
     (if eventId = RuntimeInformationDCStart then
        (False, add_read read_runtime data (\<lambda>rt d. d\<lparr>Runtimes := Runtimes d @ [rt]\<rparr>) details, completed)
      else if eventId = AppDomainDCStart then
        (False, add_read (read_domain version) data (\<lambda>x d. d\<lparr>AppDomains := AppDomains d @ [x]\<rparr>) details, completed)
      else if eventId = AssemblyDCStart then
        (False, add_read (read_assembly version) data (\<lambda>x d. d\<lparr>Assemblies := Assemblies d @ [x]\<rparr>) details, completed)
      else if eventId = ModuleDCStart then
        (False, add_read read_module data (\<lambda>x d. d\<lparr>Modules := Modules d @ [x]\<rparr>) details, completed)
      else if eventId = DCStartComplete then apply_complete version data details completed
      else (False, details, completed))"

text \<open>The event callback: \<open>hDone\<close> is set once the rundown is done.\<close>

record EtwEvent =
  ProviderId :: GUID
  ProcessId :: u32
  EventId :: u16
  EventVersion :: byte
  UserData :: bytes
  TimeStamp :: int

record RundownContext =
  Pid :: u32
  Details :: DotNetProcessDetails
  Completed :: "u16 list"
  hDone :: bool

definition RundownProvider :: GUID where
  "RundownProvider = make_guid 0xA669021C 0xC450 0x4609 [0xA0, 0x35, 0x5A, 0xF5, 0x9A, 0xF4, 0xDF, 0x18]"

definition OnRundownEvent :: "EtwEvent \<Rightarrow> RundownContext \<Rightarrow> RundownContext" where
  "OnRundownEvent e s =
     (if ProviderId e \<noteq> RundownProvider \<or> ProcessId e \<noteq> Pid s then s
      else
        (let (finished, d, c) = ApplyRundownEvent (EventId e) (EventVersion e) (UserData e) (Details s) (Completed s)
         in s\<lparr>Details := d, Completed := c, hDone := hDone s \<or> finished\<rparr>))"

section \<open>Which processes run .NET\<close>

text \<open>\<open>HasFrameworkRuntime\<close>: \<open>openSection\<close> is the status of \<open>NtOpenSection\<close> for a name.\<close>

definition section_path :: "u32 \<Rightarrow> wstr \<Rightarrow> u32 \<Rightarrow> wstr" where
  "section_path sessionId name pid =
     (if sessionId = 0 then wide_path ''/BaseNamedObjects/''
      else wide_path ''/Sessions/'' @ to_wstring (unat sessionId) @ wide_path ''/BaseNamedObjects/'') @
     name @ to_wstring (unat pid)"

definition HasFrameworkRuntime :: "(wstr \<Rightarrow> u32) \<Rightarrow> u32 \<Rightarrow> u32 \<Rightarrow> bool" where
  "HasFrameworkRuntime openSection pid sessionId \<longleftrightarrow>
     (\<exists>name \<in> set [wide ''Cor_Private_IPCBlock_v4_'', wide ''Cor_Private_IPCBlock_''].
        let status = openSection (section_path sessionId name pid)
        in status AND 0x80000000 = 0 \<or> status = 0xC0000022)"

text \<open>
  \<open>HasRuntimeModule\<close>: the list grows until all modules fit. \<open>modulesAt k n\<close> is the \<open>k\<close>th call with room for \<open>n\<close>
  modules: the names of those there are (nothing for one without a name), how many more than \<open>n\<close>, or a failure.
\<close>

definition same_name :: "wstr \<Rightarrow> wstr \<Rightarrow> bool" where
  "same_name a b \<longleftrightarrow> map lower (c_str a) = map lower (c_str b)"

definition runtime_dlls :: "wstr list" where
  "runtime_dlls = [wide ''clr.dll'', wide ''coreclr.dll'', wide ''mscorwks.dll'']"

definition HasRuntimeModule :: "(nat \<Rightarrow> u32 \<Rightarrow> wstr option list Answer) option \<Rightarrow> bool option" where
  "HasRuntimeModule handle =
     (case handle of
        None \<Rightarrow> Some False
      | Some modulesAt \<Rightarrow>
          map_option
            (\<lambda>answer. case answer of
               None \<Rightarrow> False
             | Some names \<Rightarrow>
                 (\<exists>name \<in> set names. case name of None \<Rightarrow> False | Some s \<Rightarrow> (\<exists>dll \<in> set runtime_dlls. same_name s dll)))
            (query_until_fits modulesAt (\<lambda>n needed. needed + 64) 0 512))"

section \<open>The diagnostics pipes\<close>

definition pipe_prefix :: wstr where
  "pipe_prefix = wide ''dotnet-diagnostic-''"

text \<open>A process in the list twice is there once: the result is a set.\<close>

definition GetCoreRuntimeProcesses :: "wstr list \<Rightarrow> u32 set" where
  "GetCoreRuntimeProcesses pipes =
     set (filter (\<lambda>pid. pid \<noteq> 0)
       (map (\<lambda>name. wcstoul (drop (length pipe_prefix) name) 10)
         (filter (\<lambda>name. take (length pipe_prefix) name = pipe_prefix) pipes)))"

definition is_pipe_of :: "u32 \<Rightarrow> wstr \<Rightarrow> bool" where
  "is_pipe_of pid pipe \<longleftrightarrow>
     (let name = pipe_prefix @ to_wstring (unat pid)
      in pipe = name \<or> (take (length name) pipe = name \<and> length pipe > length name \<and> pipe ! length name = 0x2D))"

definition FindDiagnosticsPipe :: "wstr list \<Rightarrow> u32 \<Rightarrow> wstr" where
  "FindDiagnosticsPipe pipes pid = (case find (is_pipe_of pid) pipes of None \<Rightarrow> [] | Some pipe \<Rightarrow> pipe)"

section \<open>The diagnostics protocol\<close>

text \<open>
  The header: the magic, the size of the whole message, the command set, the command, two reserved bytes. The
  data that arrives on the pipe comes in parts: a read takes what it has room for of the next part. \<open>None\<close> stands
  for a read that fails, ends at the deadline or finds the pipe closed.
\<close>

definition magic :: bytes where
  "magic = narrow ''DOTNET_IPC_V1'' @ [0]"

definition ProcessCommandSet :: byte where "ProcessCommandSet = 4"
definition ServerCommandSet :: byte where "ServerCommandSet = 0xFF"
definition ProcessInfoCommand :: byte where "ProcessInfoCommand = 0"
definition ProcessInfo2Command :: byte where "ProcessInfo2Command = 4"
definition ServerOk :: byte where "ServerOk = 0"

definition ipc_header :: "u16 \<Rightarrow> byte \<Rightarrow> byte \<Rightarrow> bytes" where
  "ipc_header sz commandSet commandId = magic @ le_bytes 2 (unat sz) @ [commandSet, commandId, 0, 0]"

fun Transfer :: "bytes list \<Rightarrow> nat \<Rightarrow> (bytes \<times> bytes list) option" where
  "Transfer parts 0 = Some ([], parts)"
| "Transfer [] n = None"
| "Transfer (part # parts) n =
     (if part = [] then None
      else if length part > n then Some (take n part, drop n part # parts)
      else map_option (\<lambda>(s, rest). (part @ s, rest)) (Transfer parts (n - length part)))"

datatype IpcError = CallFailed | InvalidData | NotSupported bool

text \<open>\<open>IpcCommand\<close>: \<open>server\<close> is what comes back for a request, when the pipe opens and takes it. \<open>NotSupported True\<close> is
  an unknown command.\<close>

definition IpcCommand :: "(bytes \<Rightarrow> bytes list option) \<Rightarrow> byte \<Rightarrow> IpcError + bytes" where
  "IpcCommand server commandId =
     (case server (ipc_header 20 ProcessCommandSet commandId) of
        None \<Rightarrow> Inl CallFailed
      | Some parts \<Rightarrow>
          (case Transfer parts 20 of
             None \<Rightarrow> Inl CallFailed
           | Some (answer, parts) \<Rightarrow>
               if take 14 answer \<noteq> magic \<or> u16_at answer 14 < 20 \<or> u8_at answer 16 \<noteq> ServerCommandSet then Inl InvalidData
               else
                 (case Transfer parts (unat (u16_at answer 14) - 20) of
                    None \<Rightarrow> Inl CallFailed
                  | Some (payload, _) \<Rightarrow>
                      if u8_at answer 17 \<noteq> ServerOk
                      then Inl (NotSupported ((if length payload \<ge> 4 then u32_at payload 0 else 0) = 0x80131384))
                      else Inr payload)))"

record DotNetCoreProcessInfo =
  i_ProcessId :: u64
  i_RuntimeCookie :: GUID
  i_CommandLine :: wstr
  i_Os :: wstr
  i_Architecture :: wstr
  i_EntryAssembly :: wstr
  i_ClrVersion :: wstr

text \<open>The strings of the answer: a count of characters with the NUL, then the characters.\<close>

definition counted_string :: "wstr reader" where
  "counted_string = do {
     n \<leftarrow> Get32;
     State (\<lambda>r.
       if \<not> Ok r \<or> n = 0 then ([], r)
       else if length (Left r) < unat n * 2 then ([], r\<lparr>Ok := False, Left := []\<rparr>)
       else (until_nul (unat n) (units (take (unat n * 2) (Left r))), r\<lparr>Left := drop (unat n * 2) (Left r)\<rparr>)) }"

definition read_process_info :: "bool \<Rightarrow> DotNetCoreProcessInfo reader" where
  "read_process_info v2 = do {
     pid \<leftarrow> Get64;
     cookie \<leftarrow> GetGuid;
     commandLine \<leftarrow> counted_string;
     os \<leftarrow> counted_string;
     architecture \<leftarrow> counted_string;
     entry \<leftarrow> (if v2 then counted_string else State_Monad.return []);
     clr \<leftarrow> (if v2 then counted_string else State_Monad.return []);
     State_Monad.return \<lparr>i_ProcessId = pid, i_RuntimeCookie = cookie, i_CommandLine = commandLine, i_Os = os,
       i_Architecture = architecture, i_EntryAssembly = entry, i_ClrVersion = clr\<rparr> }"

definition ParseProcessInfo :: "bytes \<Rightarrow> bool \<Rightarrow> DotNetCoreProcessInfo option" where
  "ParseProcessInfo payload v2 =
     (let (info, r) = run_state (read_process_info v2) (reader_of payload) in if Ok r then Some info else None)"

text \<open>\<open>QueryCoreProcessInfo\<close>: a runtime that does not know \<open>ProcessInfo2\<close> is asked for \<open>ProcessInfo\<close>.\<close>

definition QueryCoreProcessInfo ::
  "wstr list \<Rightarrow> (wstr \<Rightarrow> bytes \<Rightarrow> bytes list option) \<Rightarrow> u32 \<Rightarrow> DotNetCoreProcessInfo option" where
  "QueryCoreProcessInfo pipes server pid =
     (let pipe = FindDiagnosticsPipe pipes pid
      in if pipe = [] then None
         else case IpcCommand (server pipe) ProcessInfo2Command of
           Inr payload \<Rightarrow> ParseProcessInfo payload True
         | Inl error \<Rightarrow>
             if error \<noteq> NotSupported True then None
             else case IpcCommand (server pipe) ProcessInfoCommand of
               Inr payload \<Rightarrow> ParseProcessInfo payload False
             | Inl _ \<Rightarrow> None)"

section \<open>Garbage collections\<close>

record DotNetGcStats =
  Collections :: u32
  ByGeneration :: "u32 list"
  LastGeneration :: u32
  LastReason :: u32
  HasHeap :: bool
  GenerationSize :: "u64 list"
  LohSize :: u64
  PohSize :: u64
  PinnedObjects :: u32
  GcHandles :: u32
  LastPause :: u64
  MaxPause :: u64
  TotalPause :: u64
  SuspendStart :: int

definition no_stats :: DotNetGcStats where
  "no_stats = \<lparr>Collections = 0, ByGeneration = [0, 0, 0], LastGeneration = 0, LastReason = 0, HasHeap = False,
     GenerationSize = [0, 0, 0], LohSize = 0, PohSize = 0, PinnedObjects = 0, GcHandles = 0, LastPause = 0, MaxPause = 0,
     TotalPause = 0, SuspendStart = 0\<rparr>"

definition HeapSize :: "DotNetGcStats \<Rightarrow> u64" where
  "HeapSize s = GenerationSize s ! 0 + GenerationSize s ! 1 + GenerationSize s ! 2 + LohSize s + PohSize s"

definition GCStart :: u16 where "GCStart = 1"
definition GCRestartEEEnd :: u16 where "GCRestartEEEnd = 3"
definition GCHeapStats :: u16 where "GCHeapStats = 4"
definition GCSuspendEEBegin :: u16 where "GCSuspendEEBegin = 9"

definition read_start :: "(u32 \<times> u32) reader" where
  "read_start = do { _ \<leftarrow> Get32; depth \<leftarrow> Get32; reason \<leftarrow> Get32; State_Monad.return (depth, reason) }"

definition apply_start :: "bytes \<Rightarrow> DotNetGcStats \<Rightarrow> bool \<times> DotNetGcStats" where
  "apply_start data s =
     (let ((depth, reason), r) = run_state read_start (reader_of data)
      in if \<not> Ok r then (False, s)
         else (True, s\<lparr>Collections := Collections s + 1,
                 ByGeneration := (if depth < 3 then (ByGeneration s)[unat depth := ByGeneration s ! unat depth + 1] else ByGeneration s),
                 LastGeneration := depth, LastReason := reason\<rparr>))"

definition read_size :: "u64 reader" where
  "read_size = do { n \<leftarrow> Get64; _ \<leftarrow> Get64; State_Monad.return n }"

definition read_heap :: "(u64 list \<times> u32 \<times> u32) reader" where
  "read_heap = do {
     a \<leftarrow> read_size; b \<leftarrow> read_size; c \<leftarrow> read_size; d \<leftarrow> read_size;
     _ \<leftarrow> Get64; _ \<leftarrow> Get64;
     pinned \<leftarrow> Get32;
     _ \<leftarrow> Get32;
     handles \<leftarrow> Get32;
     _ \<leftarrow> Get16;
     State_Monad.return ([a, b, c, d], pinned, handles) }"

definition apply_heap :: "byte \<Rightarrow> bytes \<Rightarrow> DotNetGcStats \<Rightarrow> bool \<times> DotNetGcStats" where
  "apply_heap version data s =
     (let ((sizes, pinned, handles), r) = run_state read_heap (reader_of data)
      in if \<not> Ok r then (False, s)
         else
           (let poh = (if version \<ge> 2 then
                         (let (n, r) = run_state Get64 r in if Ok r then n else 0)
                       else 0)
            in (True, s\<lparr>HasHeap := True, GenerationSize := take 3 sizes, LohSize := sizes ! 3, PohSize := poh,
                  PinnedObjects := pinned, GcHandles := handles\<rparr>)))"

text \<open>The runtime runs again: the pause is over.\<close>

definition apply_restart :: "int \<Rightarrow> DotNetGcStats \<Rightarrow> bool \<times> DotNetGcStats" where
  "apply_restart timeStamp s =
     (if SuspendStart s = 0 \<or> timeStamp < SuspendStart s then (False, s)
      else
        (let pause = of_int (timeStamp - SuspendStart s)
         in (True, s\<lparr>LastPause := pause, MaxPause := max (MaxPause s) pause, TotalPause := TotalPause s + pause,
               SuspendStart := 0\<rparr>)))"

definition ApplyGcEvent :: "u16 \<Rightarrow> byte \<Rightarrow> bytes \<Rightarrow> int \<Rightarrow> DotNetGcStats \<Rightarrow> bool \<times> DotNetGcStats" where
  "ApplyGcEvent eventId version data timeStamp s =
     (if eventId = GCStart then (if version < 1 then (False, s) else apply_start data s)
      else if eventId = GCHeapStats then apply_heap version data s
      else if eventId = GCSuspendEEBegin then (True, s\<lparr>SuspendStart := timeStamp\<rparr>)
      else if eventId = GCRestartEEEnd then apply_restart timeStamp s
      else (False, s))"

definition RuntimeProvider :: GUID where
  "RuntimeProvider = make_guid 0xE13C0D23 0xCCBC 0x4E12 [0x93, 0x1B, 0xD9, 0xCC, 0x2E, 0xEE, 0x27, 0xE4]"

definition OnGcEvent :: "u32 \<Rightarrow> EtwEvent \<Rightarrow> DotNetGcStats \<Rightarrow> DotNetGcStats" where
  "OnGcEvent pid e s =
     (if ProviderId e \<noteq> RuntimeProvider \<or> ProcessId e \<noteq> pid then s
      else snd (ApplyGcEvent (EventId e) (EventVersion e) (UserData e) (TimeStamp e) s))"

section \<open>Reading what was written\<close>

text \<open>
  A reader reads the bytes \<open>s\<close> as \<open>x\<close>: whatever follows them is left, and when they are cut short the payload is not
  \<open>Ok\<close>. A reader on a payload that is not \<open>Ok\<close> leaves it so.
\<close>

definition strict :: "'a reader \<Rightarrow> bool" where
  "strict p \<longleftrightarrow> (\<forall>r. \<not> Ok r \<longrightarrow> \<not> Ok (snd (run_state p r)))"

definition reads :: "'a reader \<Rightarrow> bytes \<Rightarrow> 'a \<Rightarrow> bool" where
  "reads p s x \<longleftrightarrow>
     (\<forall>more. run_state p (reader_of (s @ more)) = (x, reader_of more)) \<and>
     (\<forall>k < length s. \<not> Ok (snd (run_state p (reader_of (take k s)))))"

named_theorems reading \<open>what the readers read\<close>

lemma strict_bind [reading]: "strict p \<Longrightarrow> (\<And>x. strict (f x)) \<Longrightarrow> strict (p \<bind> f)"
  by (simp add: strict_def split: prod.split) (metis snd_conv)

lemma strict_return [reading]: "strict (State_Monad.return x)"
  by (simp add: strict_def)

lemma reads_return [reading]: "reads (State_Monad.return x) [] x"
  by (simp add: reads_def)

lemma reads_bind [reading]:
  assumes "reads p s x" and "reads (f x) t y" and "\<And>z. strict (f z)"
  shows "reads (p \<bind> f) (s @ t) y"
proof -
  have "\<not> Ok (snd (run_state (p \<bind> f) (reader_of (take k (s @ t)))))" if "k < length (s @ t)" for k
  proof (cases "k < length s")
    case True
    then have "\<not> Ok (snd (run_state p (reader_of (take k s))))" using assms(1) by (simp add: reads_def)
    with True show ?thesis using assms(3) by (auto simp: strict_def split: prod.split)
  next
    case False
    then have "take k (s @ t) = s @ take (k - length s) t" by simp
    moreover have "run_state p (reader_of (s @ take (k - length s) t)) = (x, reader_of (take (k - length s) t))"
      using assms(1) by (simp add: reads_def)
    moreover have "\<not> Ok (snd (run_state (f x) (reader_of (take (k - length s) t))))"
      using assms(2) False that by (auto simp: reads_def)
    ultimately show ?thesis by simp
  qed
  then show ?thesis using assms(1,2) by (auto simp: reads_def)
qed

lemma reads_last [reading]: "reads p s x \<Longrightarrow> reads (p \<bind> (\<lambda>z. State_Monad.return (f z))) s (f x)"
  using reads_bind [of p s x "\<lambda>z. State_Monad.return (f z)" "[]" "f x"] by (simp add: reading)

lemma strict_Get [reading]: "strict (Get n)"
  by (simp add: strict_def Get_def)

lemma reads_Get [reading]: "length s = n \<Longrightarrow> reads (Get n) s s"
  by (auto simp: reads_def Get_def reader_of_def)

lemma strict_values [reading]: "strict Get8" "strict Get16" "strict Get32" "strict Get64" "strict GetGuid"
  unfolding Get8_def Get16_def Get32_def Get64_def GetGuid_def by (intro reading)+

lemma u64_at_le_bytes: "u64_at (le_bytes 8 (unat (w :: u64))) 0 = w"
proof -
  have "unat w mod 256 ^ 8 = unat w" using unat_less_2p [of w] by simp
  then show ?thesis by (simp add: u64_at_def le_nat_le_bytes)
qed

lemma reads_Get8 [reading]: "reads Get8 [b] b"
proof -
  have "reads Get8 [b] (u8_at [b] 0)" unfolding Get8_def by (rule reads_last [OF reads_Get]) simp
  then show ?thesis by (simp add: u8_at_def)
qed

lemma reads_Get16 [reading]: "reads Get16 (le_bytes 2 (unat w)) w"
proof -
  have "reads Get16 (le_bytes 2 (unat w)) (u16_at (le_bytes 2 (unat w)) 0)"
    unfolding Get16_def by (intro reads_last reads_Get length_le_bytes)
  then show ?thesis by (simp add: u16_at_le_bytes)
qed

lemma reads_Get32 [reading]: "reads Get32 (le_bytes 4 (unat w)) w"
proof -
  have "reads Get32 (le_bytes 4 (unat w)) (u32_at (le_bytes 4 (unat w)) 0)"
    unfolding Get32_def by (intro reads_last reads_Get length_le_bytes)
  then show ?thesis by (simp add: u32_at_le_bytes)
qed

lemma reads_Get64 [reading]: "reads Get64 (le_bytes 8 (unat w)) w"
proof -
  have "reads Get64 (le_bytes 8 (unat w)) (u64_at (le_bytes 8 (unat w)) 0)"
    unfolding Get64_def by (intro reads_last reads_Get length_le_bytes)
  then show ?thesis by (simp add: u64_at_le_bytes)
qed

lemma reads_GetGuid [reading]: "length g = 16 \<Longrightarrow> reads GetGuid g (guid_at g)"
  unfolding GetGuid_def by (intro reads_last reads_Get)

lemma strict_GetString [reading]: "strict GetString"
  by (simp add: strict_def GetString_def Let_def)

definition text_bytes :: "wstr \<Rightarrow> bytes" where
  "text_bytes s = wide_bytes s @ [0, 0]"

lemma takeWhile_text: "0 \<notin> set s \<Longrightarrow> takeWhile not_nul (s @ 0 # r) = s"
  by (induction s) (auto simp: not_nul_def)

lemma units_text: "units (text_bytes s @ r) = s @ 0 # units r"
  using units_wide_bytes [of s "[0, 0] @ r"] by (simp add: text_bytes_def)

lemma reads_GetString [reading]: "0 \<notin> set s \<Longrightarrow> reads GetString (text_bytes s) s"
proof -
  assume s: "0 \<notin> set s"
  have "run_state GetString (reader_of (text_bytes s @ more)) = (s, reader_of more)" for more
    unfolding GetString_def reader_of_def
    by (simp add: Let_def units_text takeWhile_text [OF s]) (simp add: text_bytes_def)
  moreover have "\<not> Ok (snd (run_state GetString (reader_of (take k (text_bytes s)))))" if "k < length (text_bytes s)" for k
  proof -
    have "k div 2 \<le> length s" using that by (simp add: text_bytes_def)
    then have "units (take k (text_bytes s)) = take (k div 2) s"
      using units_text [of s "[]"] by (simp add: units_take)
    moreover have "takeWhile not_nul (take (k div 2) s) = take (k div 2) s"
      unfolding takeWhile_eq_all_conv using s by (auto simp: not_nul_def dest: in_set_takeD)
    ultimately show ?thesis by (simp only: GetString_def reader_of_def Let_def state.sel PayloadReader.simps less_irrefl if_False) simp
  qed
  ultimately show ?thesis by (simp add: reads_def)
qed

lemma strict_if [reading]: "strict p \<Longrightarrow> strict q \<Longrightarrow> strict (if b then p else q)"
  by simp

lemma reads_if: "(b \<Longrightarrow> reads p s x) \<Longrightarrow> (\<not> b \<Longrightarrow> reads q t y) \<Longrightarrow> reads (if b then p else q) (if b then s else t) (if b then x else y)"
  by simp

text \<open>A payload that is read from what \<open>enc\<close> wrote, and what that does to the details.\<close>

locale wire_payload =
  fixes parse :: "'w \<Rightarrow> 'a reader"
    and enc :: "'w \<Rightarrow> bytes"
    and val :: "'w \<Rightarrow> 'a"
    and writable :: "'w \<Rightarrow> bool"
  assumes reads_enc: "writable w \<Longrightarrow> reads (parse w) (enc w) (val w)"
begin

lemma run_whole: "writable w \<Longrightarrow> run_state (parse w) (reader_of (enc w @ junk)) = (val w, reader_of junk)"
  using reads_enc by (simp add: reads_def)

lemma add_whole: "writable w \<Longrightarrow> add_read (parse w) (enc w @ junk) add d = add (val w) d"
  by (simp add: add_read_def run_whole) (simp add: reader_of_def)

lemma run_cut: "writable w \<Longrightarrow> k < length (enc w) \<Longrightarrow> \<not> Ok (snd (run_state (parse w) (reader_of (take k (enc w)))))"
  using reads_enc by (simp add: reads_def)

lemma add_cut: "writable w \<Longrightarrow> k < length (enc w) \<Longrightarrow> add_read (parse w) (take k (enc w)) add d = d"
  using run_cut [of w k] by (auto simp: add_read_def split: prod.splits)

end

type_synonym version4 = "u16 \<times> u16 \<times> u16 \<times> u16"

definition version_bytes :: "version4 \<Rightarrow> bytes" where
  "version_bytes = (\<lambda>(a, b, c, d). le_bytes 2 (unat a) @ le_bytes 2 (unat b) @ le_bytes 2 (unat c) @ le_bytes 2 (unat d))"

definition version_text :: "version4 \<Rightarrow> wstr" where
  "version_text = (\<lambda>(a, b, c, d). VersionText a b c d)"

lemma strict_version [reading]: "strict read_version"
  unfolding read_version_def by (rule reading | assumption)+

lemma reads_version [reading]: "reads read_version (version_bytes v) (version_text v)"
proof -
  obtain a b c d where v: "v = (a, b, c, d)" by (metis prod.exhaust)
  show ?thesis unfolding v version_bytes_def version_text_def read_version_def prod.case by (rule reading | assumption)+
qed

text \<open>The rundown's events as the runtime writes them: what is kept of them, and what is not.\<close>

record RuntimeWire =
  w_Instance :: u16
  w_Sku :: u16
  w_Bcl :: version4
  w_Vm :: version4
  w_Flags :: u32
  w_Mode :: byte
  w_Command :: wstr
  w_ComObject :: bytes
  w_Path :: wstr

definition runtime_bytes :: "RuntimeWire \<Rightarrow> bytes" where
  "runtime_bytes w =
     le_bytes 2 (unat (w_Instance w)) @ le_bytes 2 (unat (w_Sku w)) @ version_bytes (w_Bcl w) @ version_bytes (w_Vm w) @
     le_bytes 4 (unat (w_Flags w)) @ [w_Mode w] @ text_bytes (w_Command w) @ w_ComObject w @ text_bytes (w_Path w)"

definition runtime_of :: "RuntimeWire \<Rightarrow> DotNetRuntime" where
  "runtime_of w = \<lparr>ClrInstanceId = w_Instance w, Core = (w_Sku w = 2), Version = version_text (w_Vm w),
     BclVersion = version_text (w_Bcl w), RuntimePath = w_Path w, CommandLine = w_Command w, StartupFlags = w_Flags w\<rparr>"

definition runtime_writable :: "RuntimeWire \<Rightarrow> bool" where
  "runtime_writable w \<longleftrightarrow> 0 \<notin> set (w_Command w) \<and> 0 \<notin> set (w_Path w) \<and> length (w_ComObject w) = 16"

interpretation runtime: wire_payload "\<lambda>w. read_runtime" runtime_bytes runtime_of runtime_writable
proof
  fix w
  assume "runtime_writable w"
  then have "0 \<notin> set (w_Command w)" "0 \<notin> set (w_Path w)" "length (w_ComObject w) = 16"
    by (simp_all add: runtime_writable_def)
  note name = this
  show "reads read_runtime (runtime_bytes w) (runtime_of w)"
    unfolding read_runtime_def runtime_bytes_def runtime_of_def by (rule reading name)+
qed

definition domain_bytes :: "byte \<times> DotNetAppDomain \<Rightarrow> bytes" where
  "domain_bytes = (\<lambda>(version, d). le_bytes 8 (unat (d_Id d)) @ le_bytes 4 (unat (d_Flags d)) @ text_bytes (d_Name d) @
     (if version \<ge> 1 then le_bytes 4 (unat (d_Index d)) else []))"

definition domain_of :: "byte \<times> DotNetAppDomain \<Rightarrow> DotNetAppDomain" where
  "domain_of = (\<lambda>(version, d). d\<lparr>d_Index := (if version \<ge> 1 then d_Index d else 0)\<rparr>)"

interpretation domain: wire_payload "\<lambda>w. read_domain (fst w)" domain_bytes domain_of "\<lambda>w. 0 \<notin> set (d_Name (snd w))"
proof
  fix w :: "byte \<times> DotNetAppDomain"
  assume name: "0 \<notin> set (d_Name (snd w))"
  obtain version d where w: "w = (version, d)" by (cases w)
  then have name: "0 \<notin> set (d_Name d)" using name by simp
  have "reads (read_domain version) (domain_bytes w)
      \<lparr>d_Id = d_Id d, d_Flags = d_Flags d, d_Index = (if version \<ge> 1 then d_Index d else 0), d_Name = d_Name d\<rparr>"
    unfolding read_domain_def domain_bytes_def w prod.case
    by (rule reading reads_if name | simp)+
  moreover have "domain_of w =
      \<lparr>d_Id = d_Id d, d_Flags = d_Flags d, d_Index = (if version \<ge> 1 then d_Index d else 0), d_Name = d_Name d\<rparr>"
    by (simp add: w domain_of_def)
  ultimately show "reads (read_domain (fst w)) (domain_bytes w) (domain_of w)" by (simp add: w)
qed

definition assembly_bytes :: "byte \<times> u64 \<times> DotNetAssembly \<Rightarrow> bytes" where
  "assembly_bytes = (\<lambda>(version, binding, a). le_bytes 8 (unat (a_Id a)) @ le_bytes 8 (unat (a_AppDomainId a)) @
     (if version \<ge> 1 then le_bytes 8 (unat binding) else []) @ le_bytes 4 (unat (a_Flags a)) @ text_bytes (a_FullName a))"

interpretation assembly: wire_payload "\<lambda>w. read_assembly (fst w)" assembly_bytes "\<lambda>w. snd (snd w)" "\<lambda>w. 0 \<notin> set (a_FullName (snd (snd w)))"
proof
  fix w :: "byte \<times> u64 \<times> DotNetAssembly"
  assume name: "0 \<notin> set (a_FullName (snd (snd w)))"
  obtain version binding a where w: "w = (version, binding, a)" by (metis prod.exhaust)
  then have name: "0 \<notin> set (a_FullName a)" using name by simp
  have "reads (read_assembly version) (assembly_bytes w)
      \<lparr>a_Id = a_Id a, a_AppDomainId = a_AppDomainId a, a_Flags = a_Flags a, a_FullName = a_FullName a\<rparr>"
    unfolding read_assembly_def assembly_bytes_def w prod.case
    by (rule reading reads_if name | simp)+
  then show "reads (read_assembly (fst w)) (assembly_bytes w) (snd (snd w))" unfolding w by (cases a) simp
qed

definition module_bytes :: "u32 \<times> DotNetModule \<Rightarrow> bytes" where
  "module_bytes = (\<lambda>(reserved, m). le_bytes 8 (unat (m_Id m)) @ le_bytes 8 (unat (m_AssemblyId m)) @ le_bytes 4 (unat (m_Flags m)) @
     le_bytes 4 (unat reserved) @ text_bytes (m_ILPath m) @ text_bytes (m_NativePath m))"

interpretation module: wire_payload "\<lambda>w. read_module" module_bytes snd "\<lambda>w. 0 \<notin> set (m_ILPath (snd w)) \<and> 0 \<notin> set (m_NativePath (snd w))"
proof
  fix w :: "u32 \<times> DotNetModule"
  assume name: "0 \<notin> set (m_ILPath (snd w)) \<and> 0 \<notin> set (m_NativePath (snd w))"
  obtain reserved m where w: "w = (reserved, m)" by (cases w)
  have name: "0 \<notin> set (m_ILPath m)" "0 \<notin> set (m_NativePath m)" using name by (simp_all add: w)
  have "reads read_module (module_bytes w)
      \<lparr>m_Id = m_Id m, m_AssemblyId = m_AssemblyId m, m_Flags = m_Flags m, m_ILPath = m_ILPath m, m_NativePath = m_NativePath m\<rparr>"
    unfolding read_module_def module_bytes_def w prod.case
    by (rule reading name)+
  then show "reads read_module (module_bytes w) (snd w)" unfolding w by (cases m) simp
qed

section \<open>The rundown as a whole\<close>

datatype Item =
    RuntimeItem RuntimeWire
  | DomainItem "byte \<times> DotNetAppDomain"
  | AssemblyItem "byte \<times> u64 \<times> DotNetAssembly"
  | ModuleItem "u32 \<times> DotNetModule"
  | CompleteItem byte u16

fun item_id :: "Item \<Rightarrow> u16" where
  "item_id (RuntimeItem _) = RuntimeInformationDCStart"
| "item_id (DomainItem _) = AppDomainDCStart"
| "item_id (AssemblyItem _) = AssemblyDCStart"
| "item_id (ModuleItem _) = ModuleDCStart"
| "item_id (CompleteItem _ _) = DCStartComplete"

fun item_bytes :: "Item \<Rightarrow> bytes" where
  "item_bytes (RuntimeItem w) = runtime_bytes w"
| "item_bytes (DomainItem w) = domain_bytes w"
| "item_bytes (AssemblyItem w) = assembly_bytes w"
| "item_bytes (ModuleItem w) = module_bytes w"
| "item_bytes (CompleteItem version i) = (if version \<ge> 1 then le_bytes 2 (unat i) else [])"

fun item_ok :: "byte \<Rightarrow> Item \<Rightarrow> bool" where
  "item_ok version (RuntimeItem w) \<longleftrightarrow> runtime_writable w"
| "item_ok version (DomainItem w) \<longleftrightarrow> fst w = version \<and> 0 \<notin> set (d_Name (snd w))"
| "item_ok version (AssemblyItem w) \<longleftrightarrow> fst w = version \<and> 0 \<notin> set (a_FullName (snd (snd w)))"
| "item_ok version (ModuleItem w) \<longleftrightarrow> 0 \<notin> set (m_ILPath (snd w)) \<and> 0 \<notin> set (m_NativePath (snd w))"
| "item_ok version (CompleteItem v i) \<longleftrightarrow> v = version \<and> (v \<ge> 1 \<or> i = 0)"

fun is_complete :: "Item \<Rightarrow> bool" where
  "is_complete (CompleteItem _ _) = True"
| "is_complete _ = False"

text \<open>
  An event that tells an item: it is the runtime's, of the process, and has the item's bytes (what follows them does
  not matter). An event that tells nothing: another provider's or process's, one of another kind, or one cut short.
\<close>

definition tells :: "u32 \<Rightarrow> EtwEvent \<Rightarrow> Item \<Rightarrow> bool" where
  "tells pid e x \<longleftrightarrow>
     ProviderId e = RundownProvider \<and> ProcessId e = pid \<and> EventId e = item_id x \<and> item_ok (EventVersion e) x \<and>
     take (length (item_bytes x)) (UserData e) = item_bytes x"

definition tells_nothing :: "u32 \<Rightarrow> EtwEvent \<Rightarrow> bool" where
  "tells_nothing pid e \<longleftrightarrow>
     ProviderId e \<noteq> RundownProvider \<or> ProcessId e \<noteq> pid \<or>
     EventId e \<notin> {RuntimeInformationDCStart, AppDomainDCStart, AssemblyDCStart, ModuleDCStart, DCStartComplete} \<or>
     (\<exists>x. EventId e = item_id x \<and> item_ok (EventVersion e) x \<and> \<not> is_complete x \<and>
        length (UserData e) < length (item_bytes x) \<and> UserData e = take (length (UserData e)) (item_bytes x))"

text \<open>What the items of a rundown amount to; it is finished at an end when no runtime before it is still at work.\<close>

definition completed_in :: "Item list \<Rightarrow> u16 list" where
  "completed_in xs = [i. CompleteItem v i \<leftarrow> xs]"

definition runtimes_in :: "Item list \<Rightarrow> DotNetRuntime list" where
  "runtimes_in xs = [runtime_of w. RuntimeItem w \<leftarrow> xs]"

definition finishes :: "Item list \<Rightarrow> Item \<Rightarrow> bool" where
  "finishes pre x \<longleftrightarrow>
     (case x of
        CompleteItem v i \<Rightarrow> v = 0 \<or> ClrInstanceId ` set (runtimes_in pre) \<subseteq> set (completed_in (pre @ [x]))
      | _ \<Rightarrow> False)"

definition finished :: "Item list \<Rightarrow> bool" where
  "finished xs \<longleftrightarrow> (\<exists>n < length xs. finishes (take n xs) (xs ! n))"

definition rundown_state :: "u32 \<Rightarrow> Item list \<Rightarrow> RundownContext" where
  "rundown_state pid xs =
     \<lparr>Pid = pid,
      Details =
        \<lparr>Runtimes = runtimes_in xs, AppDomains = [domain_of w. DomainItem w \<leftarrow> xs],
         Assemblies = [snd (snd w). AssemblyItem w \<leftarrow> xs], Modules = [snd w. ModuleItem w \<leftarrow> xs], Complete = finished xs\<rparr>,
      Completed = completed_in xs, hDone = finished xs\<rparr>"

lemma finished_snoc: "finished (xs @ [x]) \<longleftrightarrow> finished xs \<or> finishes xs x"
proof -
  let ?P = "\<lambda>n. finishes (take n (xs @ [x])) ((xs @ [x]) ! n)"
  have "finished (xs @ [x]) \<longleftrightarrow> (\<exists>n < length xs. ?P n) \<or> ?P (length xs)"
    unfolding finished_def length_append_singleton less_Suc_eq by blast
  moreover have "(\<exists>n < length xs. ?P n) \<longleftrightarrow> finished xs"
    unfolding finished_def by (intro ex_cong1 conj_cong refl) (simp add: nth_append)
  moreover have "?P (length xs) \<longleftrightarrow> finishes xs x" by simp
  ultimately show ?thesis by blast
qed

lemmas item_lists = runtimes_in_def completed_in_def

lemma item_lists_snoc:
  "completed_in (xs @ [x]) = completed_in xs @ (case x of CompleteItem v i \<Rightarrow> [i] | _ \<Rightarrow> [])"
  "runtimes_in (xs @ [x]) = runtimes_in xs @ (case x of RuntimeItem w \<Rightarrow> [runtime_of w] | _ \<Rightarrow> [])"
  by (simp_all add: item_lists)

lemma finishes_simps [simp]:
  "finishes xs (RuntimeItem w) = False" "finishes xs (DomainItem a) = False" "finishes xs (AssemblyItem b) = False"
  "finishes xs (ModuleItem c) = False"
  by (simp_all add: finishes_def)

lemma finishes_complete [simp]:
  "finishes xs (CompleteItem v i) \<longleftrightarrow> v = 0 \<or> (\<forall>rt \<in> set (runtimes_in xs). ClrInstanceId rt \<in> set (completed_in xs @ [i]))"
  by (simp only: finishes_def Item.case item_lists_snoc(1) image_subset_iff)

lemmas event_ids = RuntimeInformationDCStart_def AppDomainDCStart_def AssemblyDCStart_def ModuleDCStart_def DCStartComplete_def

lemma told:
  assumes "tells pid e x"
  shows "OnRundownEvent e (rundown_state pid xs) = rundown_state pid (xs @ [x])"
proof -
  have src: "ProviderId e = RundownProvider" "ProcessId e = pid" "EventId e = item_id x" "item_ok (EventVersion e) x"
    using assms by (simp_all add: tells_def)
  obtain junk where data: "UserData e = item_bytes x @ junk"
    using assms by (metis tells_def append_take_drop_id)
  note defs = OnRundownEvent_def ApplyRundownEvent_def rundown_state_def event_ids item_lists_snoc finished_snoc src data
  show ?thesis
  proof (cases x)
    case (RuntimeItem w)
    with src have "runtime_writable w" by simp
    then show ?thesis by (simp add: runtime.add_whole defs RuntimeItem)
  next
    case (DomainItem w)
    with src have w: "0 \<notin> set (d_Name (snd w))" "EventVersion e = fst w" by simp_all
    then show ?thesis by (simp add: domain.add_whole defs DomainItem w)
  next
    case (AssemblyItem w)
    with src have w: "0 \<notin> set (a_FullName (snd (snd w)))" "EventVersion e = fst w" by simp_all
    then show ?thesis by (simp add: assembly.add_whole defs AssemblyItem w)
  next
    case (ModuleItem w)
    with src have "0 \<notin> set (m_ILPath (snd w)) \<and> 0 \<notin> set (m_NativePath (snd w))" by simp
    then show ?thesis by (simp add: module.add_whole defs ModuleItem)
  next
    case (CompleteItem v i)
    then have v: "EventVersion e = v" "v \<ge> 1 \<or> i = 0" using src by auto
    have "fst (run_state Get16 (reader_of (UserData e))) = i" if "v \<ge> 1"
      using reads_Get16 [of i] that by (simp add: data CompleteItem reads_def)
    then have inst: "(if v \<ge> 1 then fst (run_state Get16 (reader_of (UserData e))) else 0) = i" using v(2) by auto
    have id: "EventId e = DCStartComplete" using src CompleteItem by simp
    have "ApplyRundownEvent (EventId e) (EventVersion e) (UserData e) (Details (rundown_state pid xs)) (completed_in xs) =
        (finishes xs x, (Details (rundown_state pid xs))\<lparr>Complete := finished xs \<or> finishes xs x\<rparr>, completed_in xs @ [i])"
      unfolding id v(1) by (simp add: ApplyRundownEvent_def event_ids apply_complete_def inst CompleteItem rundown_state_def Let_def) blast
    then show ?thesis
      using src(1,2) by (simp add: OnRundownEvent_def CompleteItem finished_snoc rundown_state_def)
        (simp add: item_lists)
  qed
qed

lemma untold:
  assumes "tells_nothing pid e" and "Pid s = pid"
  shows "OnRundownEvent e s = s"
proof (cases "ProviderId e \<noteq> RundownProvider \<or> ProcessId e \<noteq> pid")
  case True
  then show ?thesis using assms(2) by (auto simp: OnRundownEvent_def)
next
  case False
  have "ApplyRundownEvent (EventId e) (EventVersion e) (UserData e) (Details s) (Completed s) = (False, Details s, Completed s)"
  proof (cases "EventId e \<in> {RuntimeInformationDCStart, AppDomainDCStart, AssemblyDCStart, ModuleDCStart, DCStartComplete}")
    case True
    then obtain x where x: "EventId e = item_id x" "item_ok (EventVersion e) x" "\<not> is_complete x"
      "length (UserData e) < length (item_bytes x)" "UserData e = take (length (UserData e)) (item_bytes x)"
      using assms(1) False by (auto simp: tells_nothing_def)
    then obtain k where k: "k < length (item_bytes x)" "UserData e = take k (item_bytes x)" by blast
    have "EventVersion e = fst w" if "x = DomainItem w" for w using x(2) that by simp
    moreover have "EventVersion e = fst w" if "x = AssemblyItem w" for w using x(2) that by simp
    ultimately show ?thesis
      unfolding x(1) k(2) using x(2,3) k(1)
      by (cases x) (simp_all add: ApplyRundownEvent_def event_ids runtime.add_cut domain.add_cut assembly.add_cut module.add_cut)
  qed (simp add: ApplyRundownEvent_def)
  then show ?thesis by (simp add: OnRundownEvent_def)
qed

definition start_rundown :: "u32 \<Rightarrow> RundownContext" where
  "start_rundown pid = \<lparr>Pid = pid, Details = no_details, Completed = [], hDone = False\<rparr>"

lemma start_rundown: "start_rundown pid = rundown_state pid []"
  by (simp add: start_rundown_def rundown_state_def no_details_def item_lists finished_def)

text \<open>A rundown's details are the runtimes, domains, assemblies and modules that the process's runtime told, in order
  and field by field as written; other processes' and providers' events, unknown ones and those cut short add nothing;
  the details are complete, and the query is woken, exactly when an end came after which no runtime known then was
  still at work.\<close>

theorem rundown_details:
  assumes "\<forall>(e, x) \<in> set log. case x of None \<Rightarrow> tells_nothing pid e | Some i \<Rightarrow> tells pid e i"
  shows "fold OnRundownEvent (map fst log) (start_rundown pid) = rundown_state pid (List.map_filter snd log)"
  using assms
proof (induction log rule: rev_induct)
  case Nil
  then show ?case by (simp add: start_rundown)
next
  case (snoc ex log)
  obtain e x where ex: "ex = (e, x)" by (cases ex)
  have IH: "fold OnRundownEvent (map fst log) (start_rundown pid) = rundown_state pid (List.map_filter snd log)"
    using snoc by simp
  show ?case
  proof (cases x)
    case None
    then have "OnRundownEvent e (rundown_state pid (List.map_filter snd log)) = rundown_state pid (List.map_filter snd log)"
      using snoc.prems by (intro untold) (simp_all add: ex rundown_state_def)
    then show ?thesis by (simp add: IH ex None List.map_filter_def)
  next
    case (Some i)
    then have "tells pid e i" using snoc.prems by (simp add: ex)
    from told [OF this] show ?thesis by (simp add: IH ex Some List.map_filter_def)
  qed
qed

definition rundown_event :: "u16 \<Rightarrow> byte \<Rightarrow> bytes \<Rightarrow> EtwEvent" where
  "rundown_event i v data = \<lparr>ProviderId = RundownProvider, ProcessId = 4, EventId = i, EventVersion = v, UserData = data, TimeStamp = 0\<rparr>"

theorem rundown_details_witness:
  "Complete (Details (fold OnRundownEvent
     [rundown_event 187 0 (replicate 30 0), rundown_event 145 1 [7, 0]] (start_rundown 4)))"
proof -
  let ?log = "[(rundown_event 187 0 (replicate 30 0), None), (rundown_event 145 1 [7, 0], Some (CompleteItem 1 7))]"
  let ?w = "\<lparr>w_Instance = 0, w_Sku = 0, w_Bcl = (0, 0, 0, 0), w_Vm = (0, 0, 0, 0), w_Flags = 0, w_Mode = 0, w_Command = [],
    w_ComObject = replicate 16 0, w_Path = []\<rparr>"
  have "runtime_writable ?w" "take 30 (runtime_bytes ?w) = replicate 30 0" "length (runtime_bytes ?w) = 45" by code_simp+
  then have "tells_nothing 4 (rundown_event 187 0 (replicate 30 0))"
    unfolding tells_nothing_def by (intro disjI2 exI [of _ "RuntimeItem ?w"]) (simp add: rundown_event_def event_ids)
  moreover have "tells 4 (rundown_event 145 1 [7, 0]) (CompleteItem 1 7)"
  proof -
    have "le_bytes 2 (unat (7 :: u16)) = [7, 0]" by code_simp
    then show ?thesis by (simp add: tells_def rundown_event_def event_ids)
  qed
  ultimately have "\<forall>(e, x) \<in> set ?log. case x of None \<Rightarrow> tells_nothing 4 e | Some i \<Rightarrow> tells 4 e i" by simp
  from rundown_details [OF this]
  have "fold OnRundownEvent (map fst ?log) (start_rundown 4) = rundown_state 4 (List.map_filter snd ?log)" .
  moreover have "finished (List.map_filter snd ?log)"
    unfolding finished_def by (intro exI [of _ 0]) (simp add: List.map_filter_def runtimes_in_def)
  ultimately show ?thesis by (simp add: rundown_state_def)
qed

text \<open>The end of a rundown that is cut short counts for the instance 0.\<close>

lemma cut_end_counts: "ApplyRundownEvent DCStartComplete 1 [] no_details [] = (True, no_details\<lparr>Complete := True\<rparr>, [0])"
  by code_simp

section \<open>Collections are counted\<close>

definition is_gc :: "u32 \<Rightarrow> u16 \<Rightarrow> EtwEvent \<Rightarrow> bool" where
  "is_gc pid i e \<longleftrightarrow> ProviderId e = RuntimeProvider \<and> ProcessId e = pid \<and> EventId e = i"

text \<open>A collection started: its event has a version with the fields, and they are all there.\<close>

definition gc_started :: "u32 \<Rightarrow> EtwEvent \<Rightarrow> bool" where
  "gc_started pid e \<longleftrightarrow> is_gc pid GCStart e \<and> EventVersion e \<ge> 1 \<and> length (UserData e) \<ge> 12"

definition gc_depth :: "EtwEvent \<Rightarrow> u32" where
  "gc_depth e = u32_at (UserData e) 4"

lemmas gc_ids = GCStart_def GCHeapStats_def GCSuspendEEBegin_def GCRestartEEEnd_def

lemma run_start: "length data \<ge> 12 \<Longrightarrow> run_state read_start (reader_of data) = ((u32_at data 4, u32_at data 8), reader_of (drop 12 data))"
  by (simp add: read_start_def Get32_def Get_def reader_of_def u32_at_def) linarith

lemma run_start_cut: "length data < 12 \<Longrightarrow> \<not> Ok (snd (run_state read_start (reader_of data)))"
  by (simp add: read_start_def Get32_def Get_def reader_of_def)

lemma one_le_byte: "1 \<le> (v :: byte) \<longleftrightarrow> v \<noteq> 0"
  by (metis not_less word_less_1)

lemma OnGcEvent_started:
  assumes "gc_started pid e"
  shows "OnGcEvent pid e s =
    s\<lparr>Collections := Collections s + 1,
      ByGeneration := (if gc_depth e < 3 then (ByGeneration s)[unat (gc_depth e) := ByGeneration s ! unat (gc_depth e) + 1]
        else ByGeneration s),
      LastGeneration := gc_depth e, LastReason := u32_at (UserData e) 8\<rparr>"
proof -
  have "EventVersion e \<noteq> 0" using assms by (simp add: gc_started_def one_le_byte)
  then show ?thesis
    using assms by (simp add: OnGcEvent_def ApplyGcEvent_def apply_start_def gc_started_def is_gc_def gc_depth_def Let_def run_start
) (simp add: reader_of_def)
qed

lemma OnGcEvent_cut:
  assumes "is_gc pid GCStart e" and "\<not> gc_started pid e"
  shows "OnGcEvent pid e s = s"
proof (cases "EventVersion e < 1")
  case False
  then have "length (UserData e) < 12" using assms by (auto simp: gc_started_def one_le_byte)
  from run_start_cut [OF this] show ?thesis
    using assms(1) by (auto simp: OnGcEvent_def ApplyGcEvent_def apply_start_def is_gc_def Let_def split: prod.splits)
next
  case True
  then show ?thesis using assms(1) by (simp add: OnGcEvent_def ApplyGcEvent_def is_gc_def)
qed

text \<open>The other events leave the counts alone.\<close>

lemma OnGcEvent_other:
  assumes "\<not> is_gc pid GCStart e"
  shows "Collections (OnGcEvent pid e s) = Collections s" and "ByGeneration (OnGcEvent pid e s) = ByGeneration s"
  using assms
  by (auto simp: OnGcEvent_def ApplyGcEvent_def is_gc_def apply_heap_def apply_restart_def Let_def split: prod.split)

definition generations_ok :: "DotNetGcStats \<Rightarrow> bool" where
  "generations_ok s \<longleftrightarrow> length (ByGeneration s) = 3"

interpretation collections: ledger "OnGcEvent pid" Collections "\<lambda>e. if gc_started pid e then 1 else 0" generations_ok for pid
proof
  fix s e
  assume ok: "generations_ok s"
  consider "gc_started pid e" | "is_gc pid GCStart e" "\<not> gc_started pid e" | "\<not> is_gc pid GCStart e" "\<not> gc_started pid e"
    by (auto simp: gc_started_def)
  then show "generations_ok (OnGcEvent pid e s)"
    "Collections (OnGcEvent pid e s) = Collections s + (if gc_started pid e then 1 else 0)"
    using ok by (cases; simp add: OnGcEvent_started OnGcEvent_cut OnGcEvent_other generations_ok_def)+
qed

lemma gc_generation_step:
  assumes "generations_ok s" and "g < 3"
  shows "ByGeneration (OnGcEvent pid e s) ! g =
    ByGeneration s ! g + (if gc_started pid e \<and> gc_depth e = of_nat g then 1 else 0)"
proof (cases "gc_started pid e")
  case True
  have len: "length (ByGeneration s) = 3" using assms by (simp add: generations_ok_def)
  have ug: "unat (of_nat g :: u32) = g" using assms(2) by (simp add: unat_of_nat)
  then have g: "unat (gc_depth e) = g \<longleftrightarrow> gc_depth e = of_nat g" using unsigned_word_eqI [of "gc_depth e" "of_nat g"] by auto
  have "of_nat g < (3 :: u32)" using assms(2) ug by (simp add: word_less_nat_alt)
  then have small: "gc_depth e = of_nat g \<Longrightarrow> gc_depth e < 3" by simp
  show ?thesis
    unfolding OnGcEvent_started [OF True] using True len assms(2) g small by (auto simp: nth_list_update)
next
  case False
  then show ?thesis
    by (cases "is_gc pid GCStart e") (simp_all add: OnGcEvent_cut OnGcEvent_other)
qed

interpretation generation: ledger "OnGcEvent pid" "\<lambda>s. if g < 3 then ByGeneration s ! g else 0"
  "\<lambda>e. if g < 3 \<and> gc_started pid e \<and> gc_depth e = of_nat g then 1 else 0" generations_ok for pid g
  by unfold_locales (simp_all add: gc_generation_step collections.step_sound)

lemma sum_indicator: "sum_list (map (\<lambda>x. if P x then 1 else 0) xs) = of_nat (length (filter P xs))"
  by (induction xs) auto

text \<open>The statistics count the process's collections and the collections of each generation, one for each whole
  start event (modulo the counters' width), whatever other events and processes' events come between.\<close>

theorem gc_collections:
  "let s = fold (OnGcEvent pid) log no_stats; starts = filter (gc_started pid) log
   in Collections s = of_nat (length starts) \<and> length (ByGeneration s) = 3 \<and>
      ByGeneration s = map (\<lambda>g. of_nat (length (filter (\<lambda>e. gc_depth e = of_nat g) starts))) [0..<3]"
proof -
  have ok: "generations_ok no_stats" by (simp add: generations_ok_def no_stats_def)
  define s where "s = fold (OnGcEvent pid) log no_stats"
  have len: "length (ByGeneration s) = 3"
    using collections.run_sound [OF ok, of pid log] by (simp add: generations_ok_def s_def)
  have "ByGeneration s ! g = of_nat (length (filter (\<lambda>e. gc_depth e = of_nat g) (filter (gc_started pid) log)))" if "g < 3" for g
    using generation.run_amount [OF ok, of g pid log] that
    by (simp add: s_def sum_indicator conj_commute) (auto simp: no_stats_def nth_Cons split: nat.split)
  then have "ByGeneration s = map (\<lambda>g. of_nat (length (filter (\<lambda>e. gc_depth e = of_nat g) (filter (gc_started pid) log)))) [0..<3]"
    using len by (intro nth_equalityI) simp_all
  moreover have "Collections s = of_nat (length (filter (gc_started pid) log))"
    using collections.run_amount [OF ok, of pid log] by (simp add: s_def sum_indicator no_stats_def)
  ultimately show ?thesis using len by (simp add: s_def Let_def)
qed

section \<open>Pauses\<close>

text \<open>The process's pauses in a log: from the last suspension to the restart that ends it.\<close>

fun pauses :: "u32 \<Rightarrow> int option \<Rightarrow> EtwEvent list \<Rightarrow> int list" where
  "pauses pid start [] = []"
| "pauses pid start (e # es) =
     (if is_gc pid GCSuspendEEBegin e then pauses pid (Some (TimeStamp e)) es
      else if is_gc pid GCRestartEEEnd e then
        (case start of None \<Rightarrow> pauses pid None es | Some t \<Rightarrow> (TimeStamp e - t) # pauses pid None es)
      else pauses pid start es)"

text \<open>The statistics agree with the pauses so far: \<open>total\<close>, \<open>longest\<close> and \<open>latest\<close> of them.\<close>

definition paused :: "int option \<Rightarrow> int \<Rightarrow> int \<Rightarrow> int \<Rightarrow> DotNetGcStats \<Rightarrow> bool" where
  "paused start amount longest latest s \<longleftrightarrow>
     SuspendStart s = (case start of None \<Rightarrow> 0 | Some t \<Rightarrow> t) \<and> uint (TotalPause s) = amount \<and> uint (MaxPause s) = longest \<and>
     uint (LastPause s) = latest"

lemma OnGcEvent_no_pause:
  assumes "\<not> is_gc pid GCSuspendEEBegin e" and "\<not> is_gc pid GCRestartEEEnd e"
  shows "paused st a b c (OnGcEvent pid e s) = paused st a b c s"
  using assms
  by (auto simp: OnGcEvent_def ApplyGcEvent_def is_gc_def apply_heap_def apply_start_def Let_def paused_def split: prod.split)

lemma OnGcEvent_suspend:
  "is_gc pid GCSuspendEEBegin e \<Longrightarrow> OnGcEvent pid e s = s\<lparr>SuspendStart := TimeStamp e\<rparr>"
  by (simp add: OnGcEvent_def ApplyGcEvent_def is_gc_def gc_ids)

lemma OnGcEvent_restart:
  "is_gc pid GCRestartEEEnd e \<Longrightarrow> OnGcEvent pid e s = snd (apply_restart (TimeStamp e) s)"
  by (simp add: OnGcEvent_def ApplyGcEvent_def is_gc_def gc_ids)

lemma paused_restart:
  assumes "paused (Some t) a b c s" and "0 < t" and "t \<le> now" and "now < 2 ^ 63" and "0 \<le> a" and "a + (now - t) < 2 ^ 63"
  shows "paused None (a + (now - t)) (max b (now - t)) (now - t) (snd (apply_restart now s))"
proof -
  have st: "SuspendStart s = t" using assms(1) by (simp add: paused_def)
  have pause: "uint (of_int (now - t) :: u64) = now - t" using assms(2-4) by (simp add: uint_word_of_int del: of_int_diff)
  moreover have "uint (TotalPause s + of_int (now - t)) = a + (now - t)"
    using assms pause by (simp add: paused_def uint_word_ariths(1))
  moreover have "uint (max (MaxPause s) (of_int (now - t))) = max b (now - t)"
    using assms(1) pause by (simp add: paused_def max_def word_le_def)
  ultimately show ?thesis
    using st assms(2,3) by (simp add: apply_restart_def paused_def Let_def del: of_int_diff)
qed

text \<open>Between \<open>now\<close> and the events to come, with the pauses so far inside the time since \<open>first\<close>.\<close>

lemma pauses_run:
  assumes "sorted (map TimeStamp es)" and "\<forall>e \<in> set es. now \<le> TimeStamp e \<and> TimeStamp e < 2 ^ 63"
    and "paused start a b c s" and "0 < first" and "first \<le> now" and "0 \<le> a" and "now < 2 ^ 63"
    and "case start of None \<Rightarrow> a \<le> now - first | Some t \<Rightarrow> first \<le> t \<and> t \<le> now \<and> a \<le> t - first"
  shows "let ps = pauses pid start es; s' = fold (OnGcEvent pid) es s
    in uint (TotalPause s') = a + sum_list ps \<and> uint (MaxPause s') = fold max ps b \<and>
       uint (LastPause s') = (if ps = [] then c else last ps) \<and> (\<forall>p \<in> set ps. 0 \<le> p) \<and>
       a + sum_list ps \<le> (if es = [] then now else TimeStamp (last es)) - first"
  using assms
proof (induction es arbitrary: start a b c s now)
  case Nil
  then show ?case by (auto simp: paused_def split: option.splits)
next
  case (Cons e es)
  let ?t = "TimeStamp e"
  have later: "sorted (map TimeStamp es)" "\<forall>e \<in> set es. ?t \<le> TimeStamp e \<and> TimeStamp e < 2 ^ 63"
    "first \<le> ?t" "now \<le> ?t" "?t < 2 ^ 63" using Cons.prems by auto
  have last: "(if e # es = [] then now else TimeStamp (last (e # es))) = (if es = [] then ?t else TimeStamp (last es))" by simp
  consider "is_gc pid GCSuspendEEBegin e" | "is_gc pid GCRestartEEEnd e" "\<not> is_gc pid GCSuspendEEBegin e" |
    "\<not> is_gc pid GCSuspendEEBegin e" "\<not> is_gc pid GCRestartEEEnd e" by blast
  then show ?case
  proof cases
    case 1
    have "paused (Some ?t) a b c (OnGcEvent pid e s)"
      using Cons.prems(3) by (simp add: OnGcEvent_suspend [OF 1] paused_def)
    moreover have "a \<le> ?t - first" using Cons.prems(8) later by (auto split: option.splits)
    ultimately show ?thesis
      using Cons.IH [OF later(1,2) _ \<open>0 < first\<close> later(3) \<open>0 \<le> a\<close> later(5), of "Some ?t" b c "OnGcEvent pid e s"] 1 later
      unfolding last by simp
  next
    case 2
    show ?thesis
    proof (cases start)
      case None
      then have "SuspendStart s = 0" using Cons.prems(3) by (simp add: paused_def)
      then have same: "OnGcEvent pid e s = s" by (simp add: OnGcEvent_restart [OF 2(1)] apply_restart_def)
      have "a \<le> ?t - first" using Cons.prems(8) later None by simp
      then show ?thesis
        using Cons.IH [OF later(1,2) Cons.prems(3) \<open>0 < first\<close> later(3) \<open>0 \<le> a\<close> later(5)] 2 None unfolding last by (simp add: same)
    next
      case (Some t)
      then have t: "first \<le> t" "t \<le> ?t" "a \<le> t - first" "0 < t" using Cons.prems(4,8) later by auto
      have "a + (?t - t) < 2 ^ 63" using t(3) later(5) \<open>0 < first\<close> by linarith
      then have "paused None (a + (?t - t)) (max b (?t - t)) (?t - t) (OnGcEvent pid e s)"
        unfolding OnGcEvent_restart [OF 2(1)] using Cons.prems(3) Some t later(5) \<open>0 \<le> a\<close> by (intro paused_restart) simp_all
      moreover have "0 \<le> a + (?t - t)" "a + (?t - t) \<le> ?t - first" using \<open>0 \<le> a\<close> t by linarith+
      ultimately show ?thesis
        using Cons.IH [OF later(1,2) _ \<open>0 < first\<close> later(3) _ later(5), of None "a + (?t - t)" "max b (?t - t)" "?t - t" "OnGcEvent pid e s"] 2 Some t(2)
        unfolding last by (auto simp: Let_def max.commute)
    qed
  next
    case 3
    have "paused start a b c (OnGcEvent pid e s)" using Cons.prems(3) by (simp add: OnGcEvent_no_pause [OF 3])
    moreover have "case start of None \<Rightarrow> a \<le> ?t - first | Some t \<Rightarrow> first \<le> t \<and> t \<le> ?t \<and> a \<le> t - first"
      using Cons.prems(8) later by (auto split: option.splits)
    ultimately show ?thesis
      using Cons.IH [OF later(1,2) _ \<open>0 < first\<close> later(3) \<open>0 \<le> a\<close> later(5), of start b c "OnGcEvent pid e s"] 3 unfolding last by simp
  qed
qed

text \<open>When a log's time stamps ascend, the statistics' total, longest and last pause are those of the process's
  pauses, without wrap-around, and the total is at most the time between the first and the last event.\<close>

theorem gc_pauses:
  assumes "sorted (map TimeStamp log)" and "\<forall>e \<in> set log. 0 < TimeStamp e \<and> TimeStamp e < 2 ^ 63" and "log \<noteq> []"
  shows "let s = fold (OnGcEvent pid) log no_stats; ps = pauses pid None log
    in uint (TotalPause s) = sum_list ps \<and> uint (MaxPause s) = fold max ps 0 \<and>
       uint (LastPause s) = (if ps = [] then 0 else last ps) \<and> (\<forall>p \<in> set ps. 0 \<le> p) \<and>
       sum_list ps \<le> TimeStamp (last log) - TimeStamp (hd log)"
proof -
  obtain e es where log: "log = e # es" using assms(3) by (cases log) auto
  have "paused None 0 0 0 no_stats" by (simp add: paused_def no_stats_def)
  then have "let ps = pauses pid None log; s' = fold (OnGcEvent pid) log no_stats
    in uint (TotalPause s') = 0 + sum_list ps \<and> uint (MaxPause s') = fold max ps 0 \<and>
       uint (LastPause s') = (if ps = [] then 0 else last ps) \<and> (\<forall>p \<in> set ps. 0 \<le> p) \<and>
       0 + sum_list ps \<le> (if log = [] then TimeStamp e else TimeStamp (last log)) - TimeStamp e"
    using assms by (intro pauses_run [of log "TimeStamp e"]) (auto simp: log)
  then show ?thesis using log by (simp add: Let_def)
qed

definition gc_event :: "u16 \<Rightarrow> int \<Rightarrow> EtwEvent" where
  "gc_event i t = \<lparr>ProviderId = RuntimeProvider, ProcessId = 4, EventId = i, EventVersion = 0, UserData = [], TimeStamp = t\<rparr>"

theorem gc_pauses_witness:
  "uint (TotalPause (fold (OnGcEvent 4) [gc_event 9 10, gc_event 3 13, gc_event 3 14, gc_event 9 20, gc_event 3 25] no_stats)) = 8"
proof -
  let ?log = "[gc_event 9 10, gc_event 3 13, gc_event 3 14, gc_event 9 20, gc_event 3 25]"
  have "sorted (map TimeStamp ?log)" and "\<forall>e \<in> set ?log. 0 < TimeStamp e \<and> TimeStamp e < 2 ^ 63" and "?log \<noteq> []"
    by (simp_all add: gc_event_def)
  from gc_pauses [OF this, of 4]
  have "uint (TotalPause (fold (OnGcEvent 4) ?log no_stats)) = sum_list (pauses 4 None ?log)" unfolding Let_def by blast
  also have "\<dots> = 8" by (simp add: gc_event_def is_gc_def gc_ids)
  finally show ?thesis .
qed

section \<open>What a runtime answers\<close>

text \<open>A string of an answer: the count of its characters and NUL, the characters, the NUL.\<close>

definition counted_bytes :: "wstr \<Rightarrow> bytes" where
  "counted_bytes s = le_bytes 4 (length s + 1) @ text_bytes s"

definition countable_text :: "wstr \<Rightarrow> bool" where
  "countable_text s \<longleftrightarrow> 0 \<notin> set s \<and> length s + 1 < 2 ^ 32"

lemma length_text_bytes [simp]: "length (text_bytes s) = 2 * length s + 2"
  by (simp add: text_bytes_def)

lemma counted_string_strict [reading]: "strict counted_string"
  unfolding counted_string_def by (rule strict_bind [OF strict_values(3)]) (simp add: strict_def)

lemma until_nul_text: "0 \<notin> set s \<Longrightarrow> until_nul (length s + 1) (s @ 0 # r) = s"
  by (simp add: until_nul_def takeWhile_text)

lemma reads_counted [reading]:
  assumes "countable_text s"
  shows "reads counted_string (counted_bytes s) s"
proof -
  define n :: u32 where "n = of_nat (length s + 1)"
  have n: "unat n = length s + 1" using assms by (simp add: n_def countable_text_def unat_of_nat del: of_nat_add of_nat_Suc)
  have n0: "n \<noteq> 0" using n by auto
  have s0: "0 \<notin> set s" using assms by (simp add: countable_text_def)
  let ?rest = "State (\<lambda>r.
      if \<not> Ok r \<or> n = 0 then ([], r)
      else if length (Left r) < unat n * 2 then ([], r\<lparr>Ok := False, Left := []\<rparr>)
      else (until_nul (unat n) (units (take (unat n * 2) (Left r))), r\<lparr>Left := drop (unat n * 2) (Left r)\<rparr>))"
  have "reads ?rest (text_bytes s) s"
  proof -
    have "units (text_bytes s) = s @ [0]" using units_text [of s "[]"] by simp
    then have "run_state ?rest (reader_of (text_bytes s @ junk)) = (s, reader_of junk)" for junk
      using n0 until_nul_text [OF s0, of "[]"] by (simp add: reader_of_def n)
    moreover have "\<not> Ok (snd (run_state ?rest (reader_of (take k (text_bytes s)))))" if "k < length (text_bytes s)" for k
      using that n0 by (simp add: reader_of_def n)
    ultimately show ?thesis by (simp add: reads_def)
  qed
  moreover have "le_bytes 4 (length s + 1) = le_bytes 4 (unat n)" by (simp add: n)
  ultimately show ?thesis
    unfolding counted_string_def counted_bytes_def by (simp only:) (rule reads_bind [OF reads_Get32], assumption, simp add: strict_def)
qed

text \<open>An answer: the runtime cookie is given by its 16 bytes; \<open>ProcessInfo\<close> lacks the last two strings.\<close>

record InfoWire =
  q_Pid :: u64
  q_Cookie :: bytes
  q_Command :: wstr
  q_Os :: wstr
  q_Architecture :: wstr
  q_Entry :: wstr
  q_Clr :: wstr

definition info_bytes :: "bool \<times> InfoWire \<Rightarrow> bytes" where
  "info_bytes = (\<lambda>(v2, w). le_bytes 8 (unat (q_Pid w)) @ q_Cookie w @ counted_bytes (q_Command w) @ counted_bytes (q_Os w) @
     counted_bytes (q_Architecture w) @
     (if v2 then counted_bytes (q_Entry w) else []) @ (if v2 then counted_bytes (q_Clr w) else []))"

definition info_of :: "bool \<times> InfoWire \<Rightarrow> DotNetCoreProcessInfo" where
  "info_of = (\<lambda>(v2, w). \<lparr>i_ProcessId = q_Pid w, i_RuntimeCookie = guid_at (q_Cookie w), i_CommandLine = q_Command w,
     i_Os = q_Os w, i_Architecture = q_Architecture w, i_EntryAssembly = (if v2 then q_Entry w else []),
     i_ClrVersion = (if v2 then q_Clr w else [])\<rparr>)"

definition info_ok :: "InfoWire \<Rightarrow> bool" where
  "info_ok w \<longleftrightarrow> length (q_Cookie w) = 16 \<and>
     (\<forall>s \<in> {q_Command w, q_Os w, q_Architecture w, q_Entry w, q_Clr w}. countable_text s)"

interpretation answer: wire_payload "\<lambda>w. read_process_info (fst w)" info_bytes info_of "\<lambda>w. info_ok (snd w)"
proof
  fix x :: "bool \<times> InfoWire"
  assume ok: "info_ok (snd x)"
  obtain v2 w where x: "x = (v2, w)" by (cases x)
  have name: "length (q_Cookie w) = 16" "countable_text (q_Command w)" "countable_text (q_Os w)"
    "countable_text (q_Architecture w)" "countable_text (q_Entry w)" "countable_text (q_Clr w)"
    using ok by (simp_all add: info_ok_def x)
  show "reads (read_process_info (fst x)) (info_bytes x) (info_of x)"
    unfolding read_process_info_def info_bytes_def info_of_def x prod.case fst_conv
    by (rule reading reads_if name | simp)+
qed

text \<open>C27: an answer is parsed to the fields that it was written from, and one that is cut anywhere gives nothing.\<close>

theorem ParseProcessInfo_answer:
  assumes "info_ok w"
  shows "ParseProcessInfo (info_bytes (v2, w) @ junk) v2 = Some (info_of (v2, w)) \<and>
    (\<forall>k < length (info_bytes (v2, w)). ParseProcessInfo (take k (info_bytes (v2, w))) v2 = None)"
  using answer.run_whole [of "(v2, w)" junk] answer.run_cut [of "(v2, w)"] assms
  by (simp add: ParseProcessInfo_def Let_def case_prod_unfold) (simp add: reader_of_def)

section \<open>The diagnostics pipe\<close>

lemma Transfer_parts:
  "[] \<notin> set parts \<Longrightarrow>
   (if n \<le> length (concat parts)
    then \<exists>rest. Transfer parts n = Some (take n (concat parts), rest) \<and> concat rest = drop n (concat parts) \<and> [] \<notin> set rest
    else Transfer parts n = None)"
proof (induction parts n rule: Transfer.induct)
  case (3 part parts n)
  show ?case
  proof (cases "length part > Suc n")
    case True
    then show ?thesis using "3.prems" by auto
  next
    case False
    then show ?thesis using 3 by (auto split: if_splits)
  qed
qed auto

definition reply :: "byte \<Rightarrow> bytes \<Rightarrow> bytes" where
  "reply code payload = ipc_header (of_nat (20 + length payload)) ServerCommandSet code @ payload"

lemma header_fields:
  "length (ipc_header sz set' cmd) = 20" "take 14 (ipc_header sz set' cmd) = magic" "u16_at (ipc_header sz set' cmd) 14 = sz"
  "u8_at (ipc_header sz set' cmd) 16 = set'" "u8_at (ipc_header sz set' cmd) 17 = cmd"
proof -
  have len: "length magic = 14" by (simp add: magic_def narrow_def)
  show "length (ipc_header sz set' cmd) = 20" "take 14 (ipc_header sz set' cmd) = magic"
    "u8_at (ipc_header sz set' cmd) 16 = set'" "u8_at (ipc_header sz set' cmd) 17 = cmd"
    by (simp_all add: ipc_header_def len u8_at_def)
  show "u16_at (ipc_header sz set' cmd) 14 = sz"
    using u16_at_le_bytes [of sz] by (simp add: ipc_header_def len u16_at_def)
qed

text \<open>However a reply is cut into parts, the command gives its payload or its error.\<close>

lemma IpcCommand_reply:
  assumes "server (ipc_header 20 ProcessCommandSet commandId) = Some parts" and "[] \<notin> set parts"
    and "concat parts = reply code payload @ junk" and "20 + length payload < 2 ^ 16"
  shows "IpcCommand server commandId =
    (if code = ServerOk then Inr payload
     else Inl (NotSupported ((if length payload \<ge> 4 then u32_at payload 0 else 0) = 0x80131384)))"
proof -
  define h where "h = ipc_header (of_nat (20 + length payload)) ServerCommandSet code"
  have all: "concat parts = h @ payload @ junk" using assms(3) by (simp add: reply_def h_def)
  note f = header_fields [of "of_nat (20 + length payload)" ServerCommandSet code, folded h_def]
  have "\<exists>rest. Transfer parts 20 = Some (h, rest) \<and> concat rest = payload @ junk \<and> [] \<notin> set rest"
    using Transfer_parts [OF assms(2), of 20] by (simp add: all f(1))
  then obtain rest where one: "Transfer parts 20 = Some (h, rest)" "concat rest = payload @ junk" "[] \<notin> set rest" by blast
  obtain rest' where two: "Transfer rest (length payload) = Some (payload, rest')"
    using Transfer_parts [OF one(3), of "length payload"] by (auto simp: one(2))
  have sz: "unat (of_nat (20 + length payload) :: u16) = 20 + length payload"
    using assms(4) by (simp add: unat_of_nat del: of_nat_add)
  then have big: "\<not> (of_nat (20 + length payload) :: u16) < 20" by (simp add: word_less_nat_alt del: of_nat_add)
  show ?thesis
    unfolding IpcCommand_def assms(1) using two
    by (simp add: one(1) f(2-5) sz big del: of_nat_add)
qed

text \<open>A process that has a diagnostics pipe is described by what its runtime wrote, however the pipe cuts the replies
  into parts: by \<open>ProcessInfo2\<close>, or by \<open>ProcessInfo\<close> when the runtime says that it does not know that command.\<close>

theorem QueryCoreProcessInfo_answers:
  assumes "FindDiagnosticsPipe pipes pid = pipe" and "pipe \<noteq> []" and "info_ok w"
    and "server pipe (ipc_header 20 ProcessCommandSet ProcessInfo2Command) = Some parts2" and "[] \<notin> set parts2"
    and "server pipe (ipc_header 20 ProcessCommandSet ProcessInfoCommand) = Some parts1" and "[] \<notin> set parts1"
    and "concat parts1 = reply ServerOk (info_bytes (False, w))"
    and "20 + length (info_bytes (True, w)) < 2 ^ 16"
    and "concat parts2 = (if newer then reply ServerOk (info_bytes (True, w)) else reply 0xFF [0x84, 0x13, 0x13, 0x80])"
  shows "QueryCoreProcessInfo pipes server pid = Some (info_of (newer, w))"
proof -
  have parsed: "ParseProcessInfo (info_bytes (v2, w)) v2 = Some (info_of (v2, w))" for v2
    using answer.run_whole [of "(v2, w)" "[]"] assms(3) by (simp add: ParseProcessInfo_def reader_of_def)
  have short: "20 + length (info_bytes (False, w)) < 2 ^ 16" using assms(9) by (simp add: info_bytes_def)
  show ?thesis
  proof (cases newer)
    case True
    then have "IpcCommand (server pipe) ProcessInfo2Command = Inr (info_bytes (True, w))"
      using IpcCommand_reply [where server = "server pipe" and code = ServerOk and junk = "[]", OF assms(4,5) _ assms(9)] assms(10) by simp
    then show ?thesis using True assms(1,2) parsed [of True] by (simp add: QueryCoreProcessInfo_def)
  next
    case False
    have "u32_at [0x84, 0x13, 0x13, 0x80] 0 = 0x80131384" by (simp add: u32_at_def)
    then have "IpcCommand (server pipe) ProcessInfo2Command = Inl (NotSupported True)"
      using IpcCommand_reply [where server = "server pipe" and code = "0xFF" and payload = "[0x84, 0x13, 0x13, 0x80]" and junk = "[]", OF assms(4,5)]
        assms(10) False by (simp add: ServerOk_def)
    moreover have "IpcCommand (server pipe) ProcessInfoCommand = Inr (info_bytes (False, w))"
      using IpcCommand_reply [where server = "server pipe" and code = ServerOk and junk = "[]", OF assms(6,7) _ short] assms(8) by simp
    ultimately show ?thesis using False assms(1,2) parsed [of False] by (simp add: QueryCoreProcessInfo_def)
  qed
qed

definition some_info :: InfoWire where
  "some_info = \<lparr>q_Pid = 4, q_Cookie = replicate 16 1, q_Command = wide ''app'', q_Os = wide ''w'', q_Architecture = wide ''x64'',
     q_Entry = wide ''app'', q_Clr = wide ''8.0''\<rparr>"

lemma some_info_ok: "info_ok some_info"
  by (simp add: info_ok_def some_info_def countable_text_def wide_def)

theorem ParseProcessInfo_answer_witness:
  "ParseProcessInfo (info_bytes (True, some_info)) True = Some (info_of (True, some_info)) \<and>
   ParseProcessInfo (take 40 (info_bytes (True, some_info))) True = None"
proof -
  have "40 < length (info_bytes (True, some_info))" by code_simp
  with ParseProcessInfo_answer [OF some_info_ok, of True "[]"] show ?thesis by auto
qed

definition old_server :: "wstr \<Rightarrow> bytes \<Rightarrow> bytes list option" where
  "old_server pipe request =
     (if request = ipc_header 20 ProcessCommandSet ProcessInfoCommand
      then Some [take 7 (reply ServerOk (info_bytes (False, some_info))), drop 7 (reply ServerOk (info_bytes (False, some_info)))]
      else Some [reply 0xFF [0x84, 0x13, 0x13, 0x80]])"

theorem QueryCoreProcessInfo_answers_witness:
  "QueryCoreProcessInfo [wide ''dotnet-diagnostic-4''] old_server 4 = Some (info_of (False, some_info))"
proof -
  let ?r = "reply ServerOk (info_bytes (False, some_info))"
  have "FindDiagnosticsPipe [wide ''dotnet-diagnostic-4''] 4 = wide ''dotnet-diagnostic-4''" by code_simp
  moreover have "wide ''dotnet-diagnostic-4'' \<noteq> []" by simp
  moreover have "ipc_header 20 ProcessCommandSet ProcessInfo2Command \<noteq> ipc_header 20 ProcessCommandSet ProcessInfoCommand"
    by (simp add: ipc_header_def ProcessInfo2Command_def ProcessInfoCommand_def)
  then have "old_server (wide ''dotnet-diagnostic-4'') (ipc_header 20 ProcessCommandSet ProcessInfo2Command) =
      Some [reply 0xFF [0x84, 0x13, 0x13, 0x80]]" by (simp add: old_server_def)
  moreover have "old_server (wide ''dotnet-diagnostic-4'') (ipc_header 20 ProcessCommandSet ProcessInfoCommand) =
      Some [take 7 ?r, drop 7 ?r]" by (simp add: old_server_def)
  moreover have "[] \<notin> set [reply 0xFF [0x84, 0x13, 0x13, 0x80]]" by (simp add: reply_def)
  moreover have "7 < length ?r" by (simp add: reply_def header_fields)
  then have "[] \<notin> set [take 7 ?r, drop 7 ?r]" by auto
  moreover have "concat [take 7 ?r, drop 7 ?r] = ?r" by simp
  moreover have "length (info_bytes (True, some_info)) = 80" by code_simp
  then have "20 + length (info_bytes (True, some_info)) < 2 ^ 16" by simp
  moreover have "concat [reply 0xFF [0x84, 0x13, 0x13, 0x80]] =
      (if False then reply ServerOk (info_bytes (True, some_info)) else reply 0xFF [0x84, 0x13, 0x13, 0x80])" by simp
  ultimately show ?thesis using some_info_ok
    by (intro QueryCoreProcessInfo_answers [where newer = False and pipe = "wide ''dotnet-diagnostic-4''"])
qed

section \<open>The pipes' names\<close>

definition pipe_name :: "u32 \<Rightarrow> wstr \<Rightarrow> wstr" where
  "pipe_name pid suffix = pipe_prefix @ to_wstring (unat pid) @ suffix"

definition dashed :: "wstr \<Rightarrow> bool" where
  "dashed s \<longleftrightarrow> s = [] \<or> hd s = 0x2D"

lemma digits_end:
  "dashed s \<Longrightarrow> takeWhile (\<lambda>c. 0x30 \<le> c \<and> c \<le> 0x39) (to_wstring n @ s) = to_wstring n"
proof -
  assume "dashed s"
  then have "takeWhile (\<lambda>c. 0x30 \<le> c \<and> c \<le> 0x39) s = []" by (cases s) (simp_all add: dashed_def)
  moreover have "\<forall>c \<in> set (to_wstring n). 0x30 \<le> c \<and> c \<le> 0x39" using to_wstring_digit_chars by blast
  ultimately show ?thesis by (simp add: takeWhile_append2)
qed

lemma is_pipe_of_iff: "is_pipe_of pid pipe \<longleftrightarrow> (\<exists>s. dashed s \<and> pipe = pipe_name pid s)"
proof -
  let ?n = "pipe_prefix @ to_wstring (unat pid)"
  have "is_pipe_of pid pipe \<longleftrightarrow> (\<exists>s. dashed s \<and> pipe = ?n @ s)"
  proof
    assume "is_pipe_of pid pipe"
    then consider "pipe = ?n" | "take (length ?n) pipe = ?n" "length pipe > length ?n" "pipe ! length ?n = 0x2D"
      unfolding is_pipe_of_def Let_def by blast
    then show "\<exists>s. dashed s \<and> pipe = ?n @ s"
    proof cases
      case 1
      then show ?thesis by (intro exI [of _ "[]"]) (simp add: dashed_def)
    next
      case 2
      have "pipe = ?n @ drop (length ?n) pipe" using 2(1) by (metis append_take_drop_id)
      moreover have "dashed (drop (length ?n) pipe)" using 2(2,3) by (simp add: dashed_def hd_drop_conv_nth)
      ultimately show ?thesis by blast
    qed
  next
    assume "\<exists>s. dashed s \<and> pipe = ?n @ s"
    then obtain s where s: "dashed s" "pipe = ?n @ s" by blast
    then show "is_pipe_of pid pipe"
      by (cases s) (simp_all add: is_pipe_of_def Let_def dashed_def nth_append)
  qed
  then show ?thesis by (simp add: pipe_name_def)
qed

lemma pipe_name_pid: "dashed s \<Longrightarrow> dashed t \<Longrightarrow> pipe_name pid s = pipe_name q t \<longleftrightarrow> pid = q \<and> s = t"
proof
  assume d: "dashed s" "dashed t" and "pipe_name pid s = pipe_name q t"
  then have same: "to_wstring (unat pid) @ s = to_wstring (unat q) @ t" by (simp add: pipe_name_def)
  then have "to_wstring (unat pid) = to_wstring (unat q)" using digits_end [OF d(1)] digits_end [OF d(2)] by metis
  with same show "pid = q \<and> s = t" by (simp add: to_wstring_inj word_unat_eq_iff)
qed simp

lemma pipe_pid: "dashed s \<Longrightarrow> wcstoul (drop (length pipe_prefix) (pipe_name pid s)) 10 = pid"
proof -
  assume "dashed s"
  then have "s = [] \<or> \<not> (0x30 \<le> hd s \<and> hd s \<le> 0x39)" by (auto simp: dashed_def word_le_nat_alt)
  moreover have "unat pid < 2 ^ 32" using unat_less_2p [of pid] by simp
  ultimately show ?thesis by (simp add: pipe_name_def wcstoul_to_wstring)
qed

text \<open>The two ways to ask for .NET Core runtimes agree when runtimes name their pipes as documented: the processes listed
  are those for which a pipe is found, and the pipe found is that process's, never one of a process whose ID begins
  with the same digits.\<close>

theorem diagnostics_pipes_agree:
  assumes "\<forall>pipe \<in> set pipes. take (length pipe_prefix) pipe = pipe_prefix \<longrightarrow>
    (\<exists>pid s. pid \<noteq> 0 \<and> dashed s \<and> pipe = pipe_name pid s)"
  shows "(pid \<in> GetCoreRuntimeProcesses pipes \<longleftrightarrow> FindDiagnosticsPipe pipes pid \<noteq> []) \<and>
    (FindDiagnosticsPipe pipes pid \<noteq> [] \<longrightarrow>
       FindDiagnosticsPipe pipes pid \<in> set pipes \<and> (\<exists>s. dashed s \<and> FindDiagnosticsPipe pipes pid = pipe_name pid s))"
proof -
  have prefix: "take (length pipe_prefix) (pipe_name q s) = pipe_prefix" "pipe_name q s \<noteq> []" for q s
    by (simp_all add: pipe_name_def) (simp add: pipe_prefix_def)
  have listed: "pid \<in> GetCoreRuntimeProcesses pipes \<longleftrightarrow> (\<exists>pipe \<in> set pipes. is_pipe_of pid pipe)"
  proof
    assume "pid \<in> GetCoreRuntimeProcesses pipes"
    then obtain pipe where pipe: "pipe \<in> set pipes" "take (length pipe_prefix) pipe = pipe_prefix"
      "pid = wcstoul (drop (length pipe_prefix) pipe) 10" by (auto simp: GetCoreRuntimeProcesses_def)
    with assms obtain q s where "dashed s" "pipe = pipe_name q s" by blast
    then have "is_pipe_of pid pipe" using pipe(3) pipe_pid by (auto simp: is_pipe_of_iff)
    with pipe(1) show "\<exists>pipe \<in> set pipes. is_pipe_of pid pipe" ..
  next
    assume "\<exists>pipe \<in> set pipes. is_pipe_of pid pipe"
    then obtain pipe s where pipe: "pipe \<in> set pipes" "dashed s" "pipe = pipe_name pid s" by (auto simp: is_pipe_of_iff)
    with assms prefix(1) obtain q t where "q \<noteq> 0" "dashed t" "pipe = pipe_name q t" by metis
    then have "pid \<noteq> 0" using pipe pipe_name_pid by auto
    then show "pid \<in> GetCoreRuntimeProcesses pipes"
      using pipe(1) pipe_pid [OF pipe(2), of pid] prefix(1) [of pid s]
      unfolding GetCoreRuntimeProcesses_def pipe(3) by (auto intro!: image_eqI [of _ _ "pipe_name pid s"])
  qed
  show ?thesis
  proof (cases "find (is_pipe_of pid) pipes")
    case None
    then have "\<not> (\<exists>pipe \<in> set pipes. is_pipe_of pid pipe)" by (auto simp: find_None_iff)
    with None show ?thesis using listed by (simp add: FindDiagnosticsPipe_def)
  next
    case (Some pipe)
    then have pipe: "is_pipe_of pid pipe" "pipe \<in> set pipes" by (auto simp: find_Some_iff)
    then obtain s where s: "dashed s" "pipe = pipe_name pid s" by (auto simp: is_pipe_of_iff)
    then show ?thesis using listed pipe prefix(2) Some by (auto simp: FindDiagnosticsPipe_def)
  qed
qed

theorem diagnostics_pipes_agree_witness:
  "1 \<notin> GetCoreRuntimeProcesses [wide ''lsass'', wide ''dotnet-diagnostic-12''] \<and>
   12 \<in> GetCoreRuntimeProcesses [wide ''lsass'', wide ''dotnet-diagnostic-12'']"
proof -
  let ?pipes = "[wide ''lsass'', wide ''dotnet-diagnostic-12'']"
  have "pipe_name 12 [] = wide ''dotnet-diagnostic-12''" by code_simp
  moreover have "take (length pipe_prefix) (wide ''lsass'') \<noteq> pipe_prefix" by code_simp
  ultimately have "\<forall>pipe \<in> set ?pipes. take (length pipe_prefix) pipe = pipe_prefix \<longrightarrow>
      (\<exists>pid s. pid \<noteq> 0 \<and> dashed s \<and> pipe = pipe_name pid s)"
    by (auto simp: dashed_def intro!: exI [of _ "12 :: u32"] exI [of _ "[] :: wstr"])
  note agree = diagnostics_pipes_agree [OF this, THEN conjunct1]
  have "FindDiagnosticsPipe ?pipes 1 = []" "FindDiagnosticsPipe ?pipes 12 \<noteq> []" by code_simp+
  then show ?thesis unfolding agree by simp
qed

end
