(* ===== verification/Event_Log.thy ===== *)
theory Event_Log
  imports C_Text
begin

text \<open>
  The event log (\<open>WinSys/EventLog.cpp\<close>): the XML reader that takes an event's data fields out of its text, the level
  queries and texts, and the loop that collects events. What the event service gives (rendered values, messages,
  XML) is an argument.
\<close>

section \<open>Text in XML\<close>

text \<open>\<open>DecodeText\<close>: the entities decoded, tags dropped. The decoder works on what is left of the text.\<close>

definition character :: "u32 \<Rightarrow> wstr" where
  "character v =
     (if 0 < v \<and> v \<le> 0xFFFF then [ucast v]
      else if 0xFFFF < v \<and> v \<le> 0x10FFFF then
        [0xD800 + ucast (drop_bit 10 (v - 0x10000)), 0xDC00 + ucast ((v - 0x10000) AND 0x3FF)]
      else [])"

definition decode_entity :: "wstr \<Rightarrow> wstr" where
  "decode_entity e =
     (if e = wide ''amp'' then [0x26]
      else if e = wide ''lt'' then [0x3C]
      else if e = wide ''gt'' then [0x3E]
      else if e = wide ''quot'' then [0x22]
      else if e = wide ''apos'' then [0x27]
      else if length e > 1 \<and> hd e = 0x23 then
        (let hex = (e ! 1 = 0x78 \<or> e ! 1 = 0x58)
         in character (wcstoul (drop (if hex then 2 else 1) e) (if hex then 16 else 10)))
      else [0x26] @ e @ [0x3B])"

function DecodeText :: "wstr \<Rightarrow> wstr" where
  "DecodeText [] = []"
| "DecodeText (c # cs) =
     (if c = 0x3C then
        (case find_char 0x3E (c # cs) 0 of None \<Rightarrow> [] | Some e \<Rightarrow> DecodeText (drop (e + 1) (c # cs)))
      else if c \<noteq> 0x26 then c # DecodeText cs
      else
        (case find_char 0x3B (c # cs) 0 of
           None \<Rightarrow> c # DecodeText cs
         | Some semi \<Rightarrow>
             if semi > 10 then c # DecodeText cs
             else decode_entity (substr (c # cs) 1 (semi - 1)) @ DecodeText (drop (semi + 1) (c # cs))))"
  by pat_completeness auto

termination
  by (relation "measure length") auto

section \<open>Elements\<close>

text \<open>\<open>Attribute\<close>: each place where the name occurs is tried; the first that is an attribute gives its value.\<close>

definition skip_space :: "wstr \<Rightarrow> nat \<Rightarrow> nat" where
  "skip_space s i = i + length (takeWhile iswspace (drop i s))"

definition attribute_at :: "wstr \<Rightarrow> wstr \<Rightarrow> nat \<Rightarrow> wstr option" where
  "attribute_at tag name pos =
     (if pos = 0 \<or> \<not> iswspace (tag ! (pos - 1)) then None
      else
        (let i = skip_space tag (pos + length name)
         in if i \<ge> length tag \<or> tag ! i \<noteq> 0x3D then None
            else
              (let i = skip_space tag (i + 1)
               in if i \<ge> length tag \<or> (tag ! i \<noteq> 0x27 \<and> tag ! i \<noteq> 0x22) then None
                  else case find_char (tag ! i) tag (i + 1) of
                    None \<Rightarrow> Some []
                  | Some e \<Rightarrow> Some (DecodeText (substr tag (i + 1) (e - i - 1))))))"

definition Attribute :: "wstr \<Rightarrow> wstr \<Rightarrow> wstr" where
  "Attribute tag name =
     (case first_some (map (attribute_at tag name) (occurrences name tag 0)) of None \<Rightarrow> [] | Some v \<Rightarrow> v)"

record Element =
  Name :: wstr
  Tag :: wstr
  ContentStart :: nat
  Empty :: bool

definition at_element :: "wstr \<Rightarrow> nat \<Rightarrow> bool" where
  "at_element xml pos \<longleftrightarrow>
     \<not> (pos \<ge> length xml \<or> xml ! pos \<noteq> 0x3C \<or> pos + 1 \<ge> length xml \<or> xml ! (pos + 1) = 0x2F \<or> xml ! (pos + 1) = 0x3F \<or>
        xml ! (pos + 1) = 0x21)"

definition element_to :: "wstr \<Rightarrow> nat \<Rightarrow> nat \<Rightarrow> Element" where
  "element_to xml pos e =
     \<lparr>Name = takeWhile (\<lambda>c. \<not> iswspace c \<and> c \<noteq> 0x2F \<and> c \<noteq> 0x3E) (substr xml (pos + 1) (e - (pos + 1))),
      Tag = substr xml pos (e - pos + 1), ContentStart = e + 1, Empty = (xml ! (e - 1) = 0x2F)\<rparr>"

definition ReadElement :: "wstr \<Rightarrow> nat \<Rightarrow> Element option" where
  "ReadElement xml pos = (if \<not> at_element xml pos then None else map_option (element_to xml pos) (find_char 0x3E xml pos))"

lemma ReadElement_bounds: "ReadElement xml pos = Some e \<Longrightarrow> pos < ContentStart e \<and> ContentStart e \<le> length xml"
  by (auto simp: ReadElement_def element_to_def dest!: find_char_bounds split: if_splits)

text \<open>\<open>ContentEnd\<close>: where the end tag is, nested elements of the same name counted (\<open>depth\<close> is the \<open>int\<close>).\<close>

function content_end :: "wstr \<Rightarrow> wstr \<Rightarrow> int \<Rightarrow> nat \<Rightarrow> nat option" where
  "content_end xml name depth pos =
     (if pos \<ge> length xml then None
      else
        (case find_char 0x3C xml pos of
           None \<Rightarrow> None
         | Some p \<Rightarrow>
             if substr xml p (length name + 3) = wide ''</'' @ name @ [0x3E] then
               (if depth - 1 = 0 then Some p else content_end xml name (depth - 1) (p + (length name + 3)))
             else
               content_end xml name
                 (case ReadElement xml p of
                    None \<Rightarrow> depth
                  | Some inner \<Rightarrow> if Name inner = name \<and> \<not> Empty inner then depth + 1 else depth)
                 (p + 1)))"
  by pat_completeness auto

termination
  by (relation "measure (\<lambda>(xml, name, depth, pos). length xml - pos)") (auto dest!: find_char_bounds)

declare content_end.simps [simp del]

definition ContentEnd :: "wstr \<Rightarrow> Element \<Rightarrow> nat option" where
  "ContentEnd xml e = content_end xml (Name e) 1 (ContentStart e)"

definition FindElement :: "wstr \<Rightarrow> wstr \<Rightarrow> nat \<Rightarrow> Element option" where
  "FindElement xml name start =
     first_some (map (\<lambda>pos. case ReadElement xml pos of None \<Rightarrow> None | Some e \<Rightarrow> if Name e = name then Some e else None)
       (occurrences ([0x3C] @ name) xml start))"

lemma content_end_bounds: "content_end xml name depth pos = Some p \<Longrightarrow> pos \<le> p \<and> p < length xml"
proof (induction xml name depth pos rule: content_end.induct)
  case (1 xml name depth pos)
  let ?depth = "\<lambda>q. case ReadElement xml q of None \<Rightarrow> depth | Some inner \<Rightarrow> if Name inner = name \<and> \<not> Empty inner then depth + 1 else depth"
  have pos: "\<not> pos \<ge> length xml" using "1.prems" by (auto simp: content_end.simps [of xml name depth pos])
  then obtain q where q: "find_char 0x3C xml pos = Some q"
    using "1.prems" by (cases "find_char 0x3C xml pos") (simp_all add: content_end.simps [of xml name depth pos])
  note b = find_char_bounds [OF q]
  show ?case
  proof (cases "substr xml q (length name + 3) = wide ''</'' @ name @ [0x3E]")
    case True
    show ?thesis
    proof (cases "depth - 1 = 0")
      case last: True
      have "content_end xml name depth pos = Some q" using pos q True last by (subst content_end.simps) simp
      then show ?thesis using "1.prems" b by simp
    next
      case False
      have "content_end xml name depth pos = content_end xml name (depth - 1) (q + (length name + 3))"
        using pos q True False by (subst content_end.simps) simp
      then show ?thesis using "1.IH"(1) [OF pos q True False] "1.prems" b by simp
    qed
  next
    case False
    have "content_end xml name depth pos = content_end xml name (?depth q) (q + 1)"
      using pos q False by (subst content_end.simps) simp
    then show ?thesis using "1.IH"(2) [OF pos q False] "1.prems" b by simp
  qed
qed

text \<open>\<open>ForEachChild\<close>: the child elements before \<open>end\<close> with their decoded contents.\<close>

function children :: "wstr \<Rightarrow> nat \<Rightarrow> nat \<Rightarrow> (Element \<times> wstr) list" where
  "children xml stop start =
     (case find_char 0x3C xml start of
        None \<Rightarrow> []
      | Some pos \<Rightarrow>
          if pos \<ge> stop then []
          else
            (case ReadElement xml pos of
               None \<Rightarrow> children xml stop (pos + 1)
             | Some child \<Rightarrow>
                 if Empty child then (child, []) # children xml stop (ContentStart child)
                 else
                   (case ContentEnd xml child of
                      None \<Rightarrow> []
                    | Some contentEnd \<Rightarrow>
                        if contentEnd > stop then []
                        else
                          (child, DecodeText (substr xml (ContentStart child) (contentEnd - ContentStart child))) #
                          children xml stop (contentEnd + length (Name child) + 3))))"
  by pat_completeness auto

termination
proof (relation "measure (\<lambda>(xml, stop, start). length xml - start)")
  fix xml :: wstr and stop start pos e child
  let ?R = "measure (\<lambda>(xml :: wstr, stop :: nat, start). length xml - start)"
  assume f: "find_char 0x3C xml start = Some pos"
  note p = find_char_bounds [OF f]
  then show "((xml, stop, pos + 1), xml, stop, start) \<in> ?R" by auto
  assume r: "ReadElement xml pos = Some child"
  note c = ReadElement_bounds [OF r]
  with p show "((xml, stop, ContentStart child), xml, stop, start) \<in> ?R" by auto
  assume "ContentEnd xml child = Some e"
  then have "ContentStart child \<le> e" by (simp add: ContentEnd_def content_end_bounds)
  with p c show "((xml, stop, e + length (Name child) + 3), xml, stop, start) \<in> ?R" by auto
qed simp

declare children.simps [simp del]

section \<open>The data of an event\<close>

record EventDataItem =
  item_Name :: wstr
  item_Value :: wstr

definition event_data :: "wstr \<Rightarrow> Element \<Rightarrow> EventDataItem list" where
  "event_data xml sec =
     (if Empty sec then []
      else case ContentEnd xml sec of
        None \<Rightarrow> []
      | Some stop \<Rightarrow>
          map (\<lambda>(child, v). \<lparr>item_Name = Attribute (Tag child) (wide ''Name''), item_Value = v\<rparr>)
            (filter (\<lambda>(child, v). Name child = wide ''Data'') (children xml stop (ContentStart sec))))"

definition user_data :: "wstr \<Rightarrow> Element \<Rightarrow> EventDataItem list" where
  "user_data xml sec =
     (if Empty sec then []
      else case ContentEnd xml sec of
        None \<Rightarrow> []
      | Some stop \<Rightarrow>
          (case find_char 0x3C xml (ContentStart sec) of
             None \<Rightarrow> []
           | Some first \<Rightarrow>
               if first \<ge> stop then []
               else
                 (case ReadElement xml first of
                    None \<Rightarrow> []
                  | Some root \<Rightarrow>
                      if Empty root then []
                      else
                        (case ContentEnd xml root of
                           None \<Rightarrow> []
                         | Some rootEnd \<Rightarrow>
                             if rootEnd > stop then []
                             else map (\<lambda>(child, v). \<lparr>item_Name = Name child, item_Value = v\<rparr>)
                               (children xml rootEnd (ContentStart root))))))"

definition ParseData :: "wstr \<Rightarrow> EventDataItem list" where
  "ParseData xml =
     (case FindElement xml (wide ''EventData'') 0 of
        Some sec \<Rightarrow> event_data xml sec
      | None \<Rightarrow>
          (case FindElement xml (wide ''UserData'') 0 of
             None \<Rightarrow> []
           | Some sec \<Rightarrow> user_data xml sec))"

section \<open>Entries and queries\<close>

record EventLogEntry =
  RecordId :: u64
  Time :: int
  Channel :: wstr
  Provider :: wstr
  EventId :: u32
  Level :: byte
  ProcessId :: u32
  ThreadId :: u32
  Keywords :: u64
  Computer :: wstr
  Message :: wstr
  Data :: "EventDataItem list"

definition AuditFailureKeyword :: u64 where "AuditFailureKeyword = 0x10000000000000"
definition AuditSuccessKeyword :: u64 where "AuditSuccessKeyword = 0x20000000000000"

definition IsAuditFailure :: "EventLogEntry \<Rightarrow> bool" where
  "IsAuditFailure e \<longleftrightarrow> Keywords e AND AuditFailureKeyword \<noteq> 0"

definition IsAuditSuccess :: "EventLogEntry \<Rightarrow> bool" where
  "IsAuditSuccess e \<longleftrightarrow> Keywords e AND AuditSuccessKeyword \<noteq> 0"

definition LevelName :: "byte \<Rightarrow> string" where
  "LevelName level =
     (if level = 1 then ''Critical'' else if level = 2 then ''Error'' else if level = 3 then ''Warning''
      else if level = 0 \<or> level = 4 then ''Information'' else if level = 5 then ''Verbose'' else [])"

definition LevelText :: "EventLogEntry \<Rightarrow> string" where
  "LevelText e =
     (if IsAuditFailure e then ''Audit Failure'' else if IsAuditSuccess e then ''Audit Success'' else LevelName (Level e))"

text \<open>\<open>LevelsXPath\<close>: the levels from 1 to \<open>maxLevel\<close>, at most 5.\<close>

definition LevelsXPath :: "byte \<Rightarrow> wstr" where
  "LevelsXPath maxLevel =
     (let levels = foldl (\<lambda>acc n. acc @ (if acc = [] then [] else wide '' or '') @ wide ''Level='' @ to_wstring n) []
            [1..<Suc (min (unat maxLevel) 5)]
      in wide ''('' @ levels @
         (if maxLevel \<ge> 4 then wide '' or Level=0''
          else if maxLevel \<ge> 3 then wide '' or band(Keywords,'' @ to_wstring (unat AuditFailureKeyword) @ wide '')''
          else []) @ wide '')'')"

text \<open>\<open>FormatMessageOf\<close>: messages end with line breaks, which are dropped.\<close>

definition trim_message :: "wstr \<Rightarrow> wstr" where
  "trim_message s = rev (dropWhile (\<lambda>c. c = 0x0D \<or> c = 0x0A \<or> c = 0x20) (rev s))"

datatype EventDataRead = NoData | All | NoMessage

text \<open>\<open>ReadData\<close>: \<open>xml\<close> is what the event renders to.\<close>

definition ReadData :: "wstr option \<Rightarrow> EventDataRead \<Rightarrow> EventLogEntry \<Rightarrow> EventLogEntry" where
  "ReadData xml mode e =
     (if mode = NoData \<or> (mode = NoMessage \<and> Message e \<noteq> []) then e
      else case xml of None \<Rightarrow> e | Some x \<Rightarrow> e\<lparr>Data := ParseData x\<rparr>)"

text \<open>
  \<open>Query\<close>: the events come in batches of at most 64 (\<open>EvtNext\<close>); each is what it renders to, or nothing, and its XML.
\<close>

type_synonym RawEvent = "EventLogEntry option \<times> wstr option"

definition take_event :: "nat \<Rightarrow> EventDataRead \<Rightarrow> RawEvent \<Rightarrow> EventLogEntry list \<Rightarrow> EventLogEntry list" where
  "take_event maxEvents mode ev entries =
     (if length entries < maxEvents then
        (case fst ev of None \<Rightarrow> entries | Some e \<Rightarrow> entries @ [ReadData (snd ev) mode e])
      else entries)"

fun take_batches :: "nat \<Rightarrow> EventDataRead \<Rightarrow> RawEvent list list \<Rightarrow> EventLogEntry list \<Rightarrow> EventLogEntry list" where
  "take_batches maxEvents mode [] entries = entries"
| "take_batches maxEvents mode (batch # batches) entries =
     (if length entries < maxEvents then take_batches maxEvents mode batches (fold (take_event maxEvents mode) batch entries)
      else entries)"

definition Query :: "RawEvent list list option \<Rightarrow> nat \<Rightarrow> EventDataRead \<Rightarrow> EventLogEntry list option" where
  "Query batches maxEvents mode = map_option (\<lambda>bs. take_batches maxEvents mode bs []) batches"

section \<open>Decoding what was written\<close>

text \<open>
  A text as XML writes it: a character as it is, by its entity's name, or by its number; the characters that begin
  a tag or an entity are never written as they are.
\<close>

inductive writes :: "wstr \<Rightarrow> wstr \<Rightarrow> bool" where
  nothing: "writes [] []"
| plain: "writes s t \<Longrightarrow> c \<noteq> 0x26 \<Longrightarrow> c \<noteq> 0x3C \<Longrightarrow> writes (c # s) (c # t)"
| named: "writes s t \<Longrightarrow>
    (e, c) \<in> set [(wide ''amp'', 0x26), (wide ''lt'', 0x3C), (wide ''gt'', 0x3E), (wide ''quot'', 0x22), (wide ''apos'', 0x27)] \<Longrightarrow>
    writes (c # s) ([0x26] @ e @ [0x3B] @ t)"
| numbered: "writes s t \<Longrightarrow> digits_of n ds \<Longrightarrow> 0 < n \<Longrightarrow> n \<le> 0xFFFF \<Longrightarrow> length ds \<le> 8 \<Longrightarrow>
    writes (of_nat n # s) ([0x26, 0x23] @ ds @ [0x3B] @ t)"

declare DecodeText.simps [simp del]

lemma DecodeText_Nil [simp]: "DecodeText [] = []"
  by (simp add: DecodeText.simps)

lemma DecodeText_plain: "c \<noteq> 0x26 \<Longrightarrow> c \<noteq> 0x3C \<Longrightarrow> DecodeText (c # t) = c # DecodeText t"
  by (simp add: DecodeText.simps)

lemma DecodeText_entity:
  assumes "0x3B \<notin> set e" and "length e \<le> 9"
  shows "DecodeText ([0x26] @ e @ [0x3B] @ t) = decode_entity e @ DecodeText t"
proof -
  have "find_char 0x3B ([] @ (0x26 # e) @ 0x3B # t) 0 = Some (0 + length (0x26 # e))"
    using assms(1) by (intro find_char_append) auto
  then have "find_char 0x3B (0x26 # e @ 0x3B # t) 0 = Some (length e + 1)" by simp
  then show ?thesis using assms(2) by (simp add: DecodeText.simps substr_def)
qed

lemma decode_number:
  assumes "digits_of n ds" and "0 < n" and "n \<le> 0xFFFF"
  shows "decode_entity (0x23 # ds) = [of_nat n]"
proof -
  obtain d ds' where ds: "ds = d # ds'" using assms(1) by (cases ds) (auto simp: digits_of_def)
  have d: "0x30 \<le> d" "d \<le> 0x39" using assms(1) by (auto simp: digits_of_def ds)
  then have "d \<noteq> 0x78" "d \<noteq> 0x58" by (auto simp: word_le_nat_alt)
  then have "decode_entity (0x23 # ds) = character (wcstoul ds 10)"
    by (simp add: decode_entity_def ds wide_def)
  also have "wcstoul ds 10 = of_nat n" using wcstoul_digits [OF assms(1), of "[]"] assms(3) by simp
  also have "character (of_nat n) = [of_nat n]"
  proof -
    have n: "unat (of_nat n :: u32) = n" using assms(3) by (simp add: unat_of_nat)
    then have "(0 :: u32) < of_nat n \<and> (of_nat n :: u32) \<le> 0xFFFF" using assms(2,3) by (simp add: word_less_nat_alt word_le_nat_alt)
    moreover have "ucast (of_nat n :: u32) = (of_nat n :: u16)" by (metis n of_nat_unat)
    ultimately show ?thesis by (simp add: character_def)
  qed
  finally show ?thesis .
qed

lemma digits_no_semicolon: "digits_of n ds \<Longrightarrow> 0x3B \<notin> set ds \<and> 0x3C \<notin> set ds \<and> 0x3E \<notin> set ds"
proof -
  assume "digits_of n ds"
  then have "\<forall>c \<in> set ds. c \<le> 0x39" by (simp add: digits_of_def)
  moreover have "\<not> (0x3B :: u16) \<le> 0x39" "\<not> (0x3C :: u16) \<le> 0x39" "\<not> (0x3E :: u16) \<le> 0x39" by simp_all
  ultimately show ?thesis by blast
qed

lemma decode_written: "writes s t \<Longrightarrow> DecodeText t = s"
proof (induction rule: writes.induct)
  case (named s t e c)
  have "0x3B \<notin> set e" "length e \<le> 9" "decode_entity e = [c]"
    using named.hyps(2) by (auto simp: wide_def decode_entity_def)
  then show ?case using DecodeText_entity [of e t] named.IH by simp
next
  case (numbered s t n ds)
  then have "DecodeText ([0x26] @ (0x23 # ds) @ [0x3B] @ t) = [of_nat n] @ s"
    using digits_no_semicolon [of n ds] decode_number [of n ds] by (subst DecodeText_entity) auto
  then show ?case by simp
qed (simp_all add: DecodeText_plain)

lemma written_no_tag: "writes s t \<Longrightarrow> 0x3C \<notin> set t"
  by (induction rule: writes.induct) (auto simp: wide_def dest: digits_no_semicolon)

section \<open>Elements in a text\<close>

lemma find_char_here: "c \<notin> set a \<Longrightarrow> find_char c (pre @ a @ c # post) (length pre) = Some (length pre + length a)"
  by (rule find_char_append) simp_all

lemma ReadElement_here:
  assumes "0x3E \<notin> set body" and "body \<noteq> []" and "hd body \<notin> {0x2F, 0x3F, 0x21}"
  shows "ReadElement (pre @ 0x3C # body @ 0x3E # post) (length pre) =
    Some \<lparr>Name = takeWhile (\<lambda>c. \<not> iswspace c \<and> c \<noteq> 0x2F \<and> c \<noteq> 0x3E) body, Tag = 0x3C # body @ [0x3E],
      ContentStart = length pre + length body + 2, Empty = (last body = 0x2F)\<rparr>"
proof -
  let ?xml = "pre @ 0x3C # body @ 0x3E # post"
  have "at_element ?xml (length pre)"
    using assms(2,3) by (cases body) (auto simp: at_element_def nth_append)
  moreover have "find_char 0x3E ?xml (length pre) = Some (length pre + length (0x3C # body))"
    using find_char_here [where c = "0x3E" and a = "0x3C # body" and pre = pre and post = post] assms(1) by simp
  moreover have "?xml ! (length pre + length body) = last body"
    using assms(2) by (simp add: nth_append last_conv_nth nth_Cons')
  ultimately show ?thesis
    by (simp add: ReadElement_def element_to_def substr_def)
qed

lemma content_end_skip:
  assumes "0x3C \<notin> set a"
  shows "content_end (pre @ a @ post) name d (length pre) = content_end (pre @ a @ post) name d (length pre + length a)"
proof -
  have "find_char 0x3C (pre @ a @ post) (length pre) = find_char 0x3C (pre @ a @ post) (length pre + length a)"
  proof -
    have "takeWhile (\<lambda>x. x \<noteq> 0x3C) (a @ post) = a @ takeWhile (\<lambda>x. x \<noteq> 0x3C) post"
      using assms by (intro takeWhile_append2) auto
    then show ?thesis by (simp add: find_char_def add.assoc)
  qed
  moreover have "find_char 0x3C (pre @ a) (length pre) = None" using assms by (intro find_char_none) simp_all
  ultimately show ?thesis
    by (cases "post = []") (auto simp: content_end.simps [of "pre @ a" name d "length pre"] content_end.simps [of "pre @ a @ post" name d "length pre"]
      content_end.simps [of "pre @ a @ post" name d "length pre + length a"] content_end.simps [of "pre @ a" name d "length pre + length a"])
qed

lemma take_two: "take (n + 3) (a # b # s) = a # b # take (n + 1) s"
  by (simp add: eval_nat_numeral)

lemma content_end_close:
  "content_end (pre @ wide ''</'' @ name @ [0x3E] @ post) name 1 (length pre) = Some (length pre)"
proof -
  have slash: "wide ''</'' = [0x3C, 0x2F]" by (simp add: wide_def)
  have "find_char 0x3C (pre @ [] @ 0x3C # 0x2F # name @ [0x3E] @ post) (length pre) = Some (length pre + 0)"
    by (subst find_char_here) simp_all
  moreover have "take (length name + 3) (0x3C # 0x2F # name @ 0x3E # post) = 0x3C # 0x2F # name @ [0x3E]" by (simp add: take_two del: add_Suc_right)
  ultimately show ?thesis by (subst content_end.simps) (simp add: substr_def slash)
qed

lemma content_end_open:
  assumes "ReadElement (pre @ 0x3C # rest) (length pre) = Some e" and "Name e \<noteq> name" and "rest \<noteq> []" and "hd rest \<noteq> 0x2F"
  shows "content_end (pre @ 0x3C # rest) name d (length pre) = content_end (pre @ 0x3C # rest) name d (length pre + 1)"
proof -
  have slash: "wide ''</'' = [0x3C, 0x2F]" by (simp add: wide_def)
  have "find_char 0x3C (pre @ [] @ 0x3C # rest) (length pre) = Some (length pre + 0)" by (subst find_char_here) simp_all
  moreover have "substr (pre @ 0x3C # rest) (length pre) (length name + 3) \<noteq> wide ''</'' @ name @ [0x3E]"
    using assms(3,4) by (cases rest) (simp_all add: substr_def slash take_two)
  ultimately show ?thesis using assms(1,2) by (subst content_end.simps) simp
qed

text \<open>An end tag of another name.\<close>

lemma content_end_other_close:
  assumes "take (length name + 1) (other @ 0x3E # post) \<noteq> name @ [0x3E]"
  shows "content_end (pre @ 0x3C # 0x2F # other @ 0x3E # post) name d (length pre) =
    content_end (pre @ 0x3C # 0x2F # other @ 0x3E # post) name d (length pre + 1)"
proof -
  let ?rest = "0x2F # other @ 0x3E # post"
  have slash: "wide ''</'' = [0x3C, 0x2F]" by (simp add: wide_def)
  have "find_char 0x3C (pre @ [] @ 0x3C # ?rest) (length pre) = Some (length pre + 0)" by (subst find_char_here) simp_all
  moreover have "substr (pre @ 0x3C # ?rest) (length pre) (length name + 3) \<noteq> wide ''</'' @ name @ [0x3E]"
    using assms by (simp add: substr_def slash take_two)
  moreover have "ReadElement (pre @ 0x3C # ?rest) (length pre) = None"
    by (simp add: ReadElement_def at_element_def nth_append)
  ultimately show ?thesis by (subst content_end.simps) simp
qed

section \<open>The event data as the service writes it\<close>

text \<open>
  A field: its name, written as \<open>Name='...'\<close> when it has one, and its value, in an empty element when there is none.
  Each text comes with what is written for it.
\<close>

record DataField =
  field_Name :: "(wstr \<times> wstr) option"
  field_Value :: "(wstr \<times> wstr) option"

definition field_ok :: "DataField \<Rightarrow> bool" where
  "field_ok f \<longleftrightarrow>
     (case field_Name f of None \<Rightarrow> True | Some (s, t) \<Rightarrow> writes s t \<and> 0x3E \<notin> set t \<and> 0x27 \<notin> set t) \<and>
     (case field_Value f of None \<Rightarrow> True | Some (s, t) \<Rightarrow> writes s t)"

definition field_item :: "DataField \<Rightarrow> EventDataItem" where
  "field_item f =
     \<lparr>item_Name = (case field_Name f of None \<Rightarrow> [] | Some (s, _) \<Rightarrow> s),
      item_Value = (case field_Value f of None \<Rightarrow> [] | Some (s, _) \<Rightarrow> s)\<rparr>"

text \<open>What stands between the brackets of the start tag.\<close>

definition tag_body :: "DataField \<Rightarrow> wstr" where
  "tag_body f =
     wide ''Data'' @ (case field_Name f of None \<Rightarrow> [] | Some (_, t) \<Rightarrow> wide '' Name='' @ [0x27] @ t @ [0x27]) @
     (if field_Value f = None then [0x2F] else [])"

definition data_xml :: "DataField \<Rightarrow> wstr" where
  "data_xml f =
     0x3C # tag_body f @ 0x3E # (case field_Value f of None \<Rightarrow> [] | Some (_, t) \<Rightarrow> t @ wide ''</Data>'')"

definition event_xml :: "wstr \<Rightarrow> DataField list \<Rightarrow> wstr \<Rightarrow> wstr" where
  "event_xml pre fs post = pre @ wide ''<EventData>'' @ concat (map data_xml fs) @ wide ''</EventData>'' @ post"

lemma tag_body_facts:
  assumes "field_ok f"
  shows "0x3E \<notin> set (tag_body f)" and "0x3C \<notin> set (tag_body f)" and "tag_body f \<noteq> []" and "hd (tag_body f) = 0x44"
    and "takeWhile (\<lambda>c. \<not> iswspace c \<and> c \<noteq> 0x2F \<and> c \<noteq> 0x3E) (tag_body f) = wide ''Data''"
    and "last (tag_body f) = 0x2F \<longleftrightarrow> field_Value f = None"
  using assms
  by (auto simp: tag_body_def wide_def field_ok_def iswspace_def dest: written_no_tag split: option.splits)

definition field_element :: "nat \<Rightarrow> DataField \<Rightarrow> Element" where
  "field_element n f = \<lparr>Name = wide ''Data'', Tag = 0x3C # tag_body f @ [0x3E], ContentStart = n + length (tag_body f) + 2,
     Empty = (field_Value f = None)\<rparr>"

lemma field_element_read:
  assumes "field_ok f"
  shows "ReadElement (pre @ data_xml f @ post) (length pre) = Some (field_element (length pre) f)"
proof -
  note facts = tag_body_facts [OF assms]
  have "pre @ data_xml f @ post =
      pre @ 0x3C # tag_body f @ 0x3E # ((case field_Value f of None \<Rightarrow> [] | Some (_, t) \<Rightarrow> t @ wide ''</Data>'') @ post)"
    by (simp add: data_xml_def)
  moreover have "hd (tag_body f) \<notin> {0x2F, 0x3F, 0x21}" using facts(4) by simp
  ultimately show ?thesis
    using ReadElement_here [OF facts(1,3)] facts(5,6) by (simp add: field_element_def)
qed

lemma occurrences_first:
  assumes "i \<le> j" and "j + length p \<le> length s" and "take (length p) (drop j s) = p"
    and "\<And>k. i \<le> k \<Longrightarrow> k < j \<Longrightarrow> take (length p) (drop k s) \<noteq> p"
  shows "\<exists>more. occurrences p s i = j # more"
proof -
  have "[i..<length s + 1 - length p] = [i..<j] @ j # [Suc j..<length s + 1 - length p]"
    using assms(1,2) upt_add_eq_append [of i j "length s + 1 - length p - j"] by (simp add: upt_conv_Cons)
  moreover have "filter (\<lambda>j. take (length p) (drop j s) = p) [i..<j] = []"
    using assms(4) by (auto simp: filter_empty_conv)
  ultimately show ?thesis using assms(3) by (simp add: occurrences_def)
qed

text \<open>The start tag gives the name.\<close>

lemma Attribute_of_tag:
  assumes "field_ok f"
  shows "Attribute (0x3C # tag_body f @ [0x3E]) (wide ''Name'') = item_Name (field_item f)"
proof (cases "field_Name f")
  case None
  have "Attribute (wide ''<Data>'') (wide ''Name'') = []" "Attribute (wide ''<Data/>'') (wide ''Name'') = []" by code_simp+
  then show ?thesis using None by (simp add: tag_body_def field_item_def wide_def)
next
  case (Some st)
  obtain s t where st: "st = (s, t)" by (cases st)
  define tail where "tail = (if field_Value f = None then [0x2F] else []) @ [0x3E :: u16]"
  have w: "writes s t" and q: "0x27 \<notin> set t" using assms Some st by (auto simp: field_ok_def)
  let ?tag = "wide ''<Data Name='' @ [0x27] @ t @ 0x27 # tail"
  have tag: "0x3C # tag_body f @ [0x3E] = ?tag" using Some st by (simp add: tag_body_def wide_def tail_def)
  have name: "wide ''Name'' = [0x4E, 0x61, 0x6D, 0x65]" by (simp add: wide_def)
  have head: "wide ''<Data Name='' = [0x3C, 0x44, 0x61, 0x74, 0x61, 0x20, 0x4E, 0x61, 0x6D, 0x65, 0x3D]" by (simp add: wide_def)
  have "\<exists>more. occurrences (wide ''Name'') ?tag 0 = 6 # more"
  proof (rule occurrences_first)
    show "take (length (wide ''Name'')) (drop 6 ?tag) = wide ''Name''" unfolding name head by simp
    show "6 + length (wide ''Name'') \<le> length ?tag" unfolding name head by simp
    fix k :: nat
    assume "0 \<le> k" and "k < 6"
    then have "k = 0 \<or> k = 1 \<or> k = 2 \<or> k = 3 \<or> k = 4 \<or> k = 5" by linarith
    then show "take (length (wide ''Name'')) (drop k ?tag) \<noteq> wide ''Name''"
      unfolding name head by (elim disjE) simp_all
  qed simp
  moreover have "attribute_at ?tag (wide ''Name'') 6 = Some s"
  proof -
    have "skip_space ?tag (6 + length (wide ''Name'')) = 10" "skip_space ?tag 11 = 11"
      unfolding name head by (simp_all add: skip_space_def iswspace_def)
    moreover have "find_char 0x27 (([0x3C, 0x44, 0x61, 0x74, 0x61, 0x20, 0x4E, 0x61, 0x6D, 0x65, 0x3D, 0x27]) @ t @ 0x27 # tail) 12 = Some (12 + length t)"
      by (rule find_char_append [OF q]) simp
    ultimately show ?thesis
      using decode_written [OF w] unfolding head name
      by (simp add: attribute_at_def iswspace_def substr_def)
  qed
  ultimately show ?thesis
    using Some st unfolding tag Attribute_def by (auto simp: field_item_def)
qed

definition to_item :: "Element \<times> wstr \<Rightarrow> EventDataItem" where
  "to_item = (\<lambda>(child, v). \<lparr>item_Name = Attribute (Tag child) (wide ''Name''), item_Value = v\<rparr>)"

definition is_data :: "Element \<times> wstr \<Rightarrow> bool" where
  "is_data = (\<lambda>(child, v). Name child = wide ''Data'')"

text \<open>One field: its element with its value comes first, then the children from after it.\<close>

lemma children_field:
  assumes "field_ok f" and "length pre + length (data_xml f) \<le> stop"
  shows "\<exists>c. children (pre @ data_xml f @ post) stop (length pre) =
      c # children (pre @ data_xml f @ post) stop (length pre + length (data_xml f)) \<and>
    is_data c \<and> to_item c = field_item f"
proof -
  let ?xml = "pre @ data_xml f @ post"
  note facts = tag_body_facts [OF assms(1)]
  have xml: "?xml = pre @ [] @ 0x3C # tag_body f @ 0x3E # ((case field_Value f of None \<Rightarrow> [] | Some (_, t) \<Rightarrow> t @ wide ''</Data>'') @ post)"
    by (simp add: data_xml_def)
  have pos: "find_char 0x3C ?xml (length pre) = Some (length pre)"
    unfolding xml by (subst find_char_here) simp_all
  have inside: "\<not> length pre \<ge> stop" using assms(2) by (simp add: data_xml_def)
  note read = field_element_read [OF assms(1), of pre post]
  note name = Attribute_of_tag [OF assms(1)]
  show ?thesis
  proof (cases "field_Value f")
    case None
    have "children ?xml stop (length pre) = (field_element (length pre) f, []) # children ?xml stop (length pre + length (data_xml f))"
      using pos inside read None by (subst children.simps) (simp add: field_element_def data_xml_def)
    moreover have "is_data (field_element (length pre) f, [])" by (simp add: is_data_def field_element_def)
    moreover have "to_item (field_element (length pre) f, []) = field_item f"
      using name None by (simp add: to_item_def field_element_def field_item_def)
    ultimately show ?thesis by blast
  next
    case (Some st)
    obtain s t where st: "st = (s, t)" by (cases st)
    have w: "writes s t" using assms(1) Some st by (simp add: field_ok_def)
    let ?pre = "pre @ 0x3C # tag_body f @ [0x3E]"
    have split: "?xml = ?pre @ t @ wide ''</Data>'' @ post" using Some st by (simp add: data_xml_def)
    have close: "wide ''</Data>'' @ post = wide ''</'' @ wide ''Data'' @ [0x3E] @ post" by (simp add: wide_def)
    have start: "length ?pre = length pre + length (tag_body f) + 2" by simp
    have "content_end ?xml (wide ''Data'') 1 (length ?pre) = content_end ?xml (wide ''Data'') 1 (length ?pre + length t)"
      unfolding split by (rule content_end_skip [OF written_no_tag [OF w]])
    also have "\<dots> = Some (length ?pre + length t)"
      using content_end_close [of "?pre @ t" "wide ''Data''" post] unfolding split close by (simp add: add.assoc)
    finally have ce: "ContentEnd ?xml (field_element (length pre) f) = Some (length ?pre + length t)"
      unfolding ContentEnd_def field_element_def start by simp
    have len: "length (data_xml f) = length (tag_body f) + 2 + length t + 7"
      using Some st by (simp add: data_xml_def wide_def)
    have inner: "substr ?xml (length ?pre) (length t) = t" unfolding split substr_def by simp
    let ?c = "(field_element (length pre) f, s)"
    have "children ?xml stop (length pre) = ?c # children ?xml stop (length pre + length (data_xml f))"
      using pos inside read ce inner decode_written [OF w] assms(2) Some st
      by (subst children.simps) (simp add: field_element_def len, simp add: wide_def add.commute add.left_commute)
    moreover have "is_data ?c" by (simp add: is_data_def field_element_def)
    moreover have "to_item ?c = field_item f"
      using name Some st by (simp add: to_item_def field_element_def field_item_def)
    ultimately show ?thesis by blast
  qed
qed

lemma children_fields:
  "\<forall>f \<in> set fs. field_ok f \<Longrightarrow>
   map to_item (filter is_data (children (pre @ concat (map data_xml fs) @ 0x3C # post)
     (length pre + length (concat (map data_xml fs))) (length pre))) = map field_item fs"
proof (induction fs arbitrary: pre)
  case Nil
  have "find_char 0x3C (pre @ [] @ 0x3C # post) (length pre) = Some (length pre)" by (subst find_char_here) simp_all
  then show ?case by (subst children.simps) simp
next
  case (Cons f fs)
  let ?rest = "concat (map data_xml fs) @ 0x3C # post" and ?stop = "length pre + length (concat (map data_xml (f # fs)))"
  have ok: "field_ok f" using Cons.prems by simp
  obtain c where c: "children (pre @ data_xml f @ ?rest) ?stop (length pre) =
      c # children (pre @ data_xml f @ ?rest) ?stop (length pre + length (data_xml f))" "is_data c" "to_item c = field_item f"
    using children_field [OF ok, of pre ?stop ?rest] by auto
  have "map to_item (filter is_data (children (pre @ data_xml f @ ?rest) ?stop (length pre + length (data_xml f)))) = map field_item fs"
    using Cons.IH [of "pre @ data_xml f"] Cons.prems by (simp add: add.assoc)
  then show ?case using c by simp
qed

text \<open>The end of the event data lies after all fields.\<close>

lemma content_end_field:
  assumes "field_ok f"
  shows "content_end (pre @ data_xml f @ post) (wide ''EventData'') 1 (length pre) =
    content_end (pre @ data_xml f @ post) (wide ''EventData'') 1 (length pre + length (data_xml f))"
proof -
  let ?xml = "pre @ data_xml f @ post" and ?n = "wide ''EventData''"
  note facts = tag_body_facts [OF assms(1)]
  define rest where "rest = (case field_Value f of None \<Rightarrow> [] | Some (_, t) \<Rightarrow> t @ wide ''</Data>'') @ post"
  have xml: "?xml = pre @ 0x3C # tag_body f @ 0x3E # rest" by (simp add: data_xml_def rest_def)
  have "content_end ?xml ?n 1 (length pre) = content_end ?xml ?n 1 (length pre + 1)"
    unfolding xml
  proof (rule content_end_open)
    show "ReadElement (pre @ 0x3C # tag_body f @ 0x3E # rest) (length pre) = Some (field_element (length pre) f)"
      using field_element_read [OF assms, of pre post] unfolding xml .
    show "Name (field_element (length pre) f) \<noteq> ?n" by (simp add: field_element_def wide_def)
    show "hd (tag_body f @ 0x3E # rest) \<noteq> 0x2F" using facts(3,4) by simp
  qed simp
  also have "\<dots> = content_end ?xml ?n 1 (length (pre @ [0x3C]) + length (tag_body f @ [0x3E]))"
    using content_end_skip [of "tag_body f @ [0x3E]" "pre @ [0x3C]" rest ?n 1] facts(2) by (simp add: xml)
  finally have tag: "content_end ?xml ?n 1 (length pre) = content_end ?xml ?n 1 (length pre + length (tag_body f) + 2)" by simp
  show ?thesis
  proof (cases "field_Value f")
    case None
    with tag show ?thesis by (simp add: data_xml_def)
  next
    case (Some st)
    obtain s t where st: "st = (s, t)" by (cases st)
    have w: "writes s t" using assms(1) Some st by (simp add: field_ok_def)
    let ?pre = "pre @ 0x3C # tag_body f @ [0x3E]"
    have v: "?xml = ?pre @ t @ 0x3C # 0x2F # wide ''Data'' @ 0x3E # post" using Some st by (simp add: data_xml_def wide_def)
    have "content_end ?xml ?n 1 (length ?pre) = content_end ?xml ?n 1 (length (?pre @ t))"
      using content_end_skip [OF written_no_tag [OF w], of ?pre] unfolding v by (simp add: add.assoc)
    also have "\<dots> = content_end ?xml ?n 1 (length (?pre @ t) + 1)"
      using content_end_other_close [of ?n "wide ''Data''" post "?pre @ t" 1] unfolding v by (simp add: wide_def)
    also have "\<dots> = content_end ?xml ?n 1 (length (?pre @ t @ [0x3C]) + length (0x2F # wide ''Data'' @ [0x3E]))"
      using content_end_skip [of "0x2F # wide ''Data'' @ [0x3E]" "?pre @ t @ [0x3C]" post ?n 1] unfolding v by (simp add: wide_def)
    finally show ?thesis using tag Some st by (simp add: data_xml_def wide_def)
  qed
qed

lemma content_end_fields:
  "\<forall>f \<in> set fs. field_ok f \<Longrightarrow>
   content_end (pre @ concat (map data_xml fs) @ wide ''</EventData>'' @ post) (wide ''EventData'') 1 (length pre) =
     Some (length pre + length (concat (map data_xml fs)))"
proof (induction fs arbitrary: pre)
  case Nil
  have "wide ''</EventData>'' @ post = wide ''</'' @ wide ''EventData'' @ [0x3E] @ post" by (simp add: wide_def)
  then show ?case using content_end_close [of pre "wide ''EventData''" post] by simp
next
  case (Cons f fs)
  then have ok: "field_ok f" by simp
  show ?case
    using content_end_field [OF ok, of pre "concat (map data_xml fs) @ wide ''</EventData>'' @ post"] Cons.IH [of "pre @ data_xml f"]
      Cons.prems by (simp add: add.assoc)
qed

text \<open>The first element of the name is where the text first has its start.\<close>

lemma occurrence_not_before:
  assumes "occurrences p pre 0 = []" and "p = c # p'" and "c \<notin> set p'" and "s = c # s'"
  shows "\<forall>k < length pre. take (length p) (drop k (pre @ s)) \<noteq> p"
proof (intro allI impI notI)
  fix k
  assume k: "k < length pre" and eq: "take (length p) (drop k (pre @ s)) = p"
  show False
  proof (cases "k + length p \<le> length pre")
    case True
    then have "take (length p) (drop k pre) = p" using eq by simp
    moreover have "k \<in> set [0..<length pre + 1 - length p]" using True by auto
    ultimately show False using assms(1) by (auto simp: occurrences_def filter_empty_conv)
  next
    case False
    let ?i = "length pre - k"
    have i: "0 < ?i" "?i < length p" using k False by auto
    have "length p \<le> length (drop k (pre @ s))" by (metis eq length_take min.cobounded1 min_def nat_le_linear)
    then have "p ! ?i = drop k (pre @ s) ! ?i" using eq i(2) by (metis nth_take)
    also have "\<dots> = c" using k assms(4) by (simp add: nth_append)
    finally have "p' ! (?i - 1) = c" using i(1) assms(2) by (simp add: nth_Cons')
    then show False using i assms(2,3) by (metis One_nat_def Suc_less_eq Suc_pred length_Cons nth_mem)
  qed
qed

lemma FindElement_first:
  assumes "occurrences (wide ''<EventData'') pre 0 = []"
  shows "FindElement (pre @ wide ''<EventData>'' @ post) (wide ''EventData'') 0 =
    Some \<lparr>Name = wide ''EventData'', Tag = wide ''<EventData>'', ContentStart = length pre + 11, Empty = False\<rparr>"
proof -
  let ?xml = "pre @ wide ''<EventData>'' @ post" and ?p = "wide ''<EventData''"
  have p: "[0x3C] @ wide ''EventData'' = ?p" by (simp add: wide_def)
  have "\<exists>more. occurrences ?p ?xml 0 = length pre # more"
  proof (rule occurrences_first)
    show "take (length ?p) (drop (length pre) ?xml) = ?p" "length pre + length ?p \<le> length ?xml" by (simp_all add: wide_def)
    show "take (length ?p) (drop k ?xml) \<noteq> ?p" if "0 \<le> k" "k < length pre" for k
    proof -
      have "\<forall>k < length pre. take (length ?p) (drop k (pre @ (wide ''<EventData>'' @ post))) \<noteq> ?p"
        by (rule occurrence_not_before [OF assms, where c = "0x3C" and p' = "wide ''EventData''" and s' = "wide ''EventData>'' @ post"]) (simp_all add: wide_def)
      with that show ?thesis by blast
    qed
  qed simp
  moreover have "ReadElement ?xml (length pre) =
      Some \<lparr>Name = wide ''EventData'', Tag = wide ''<EventData>'', ContentStart = length pre + 11, Empty = False\<rparr>"
    using ReadElement_here [of "wide ''EventData''" pre post] by (simp add: wide_def iswspace_def)
  ultimately show ?thesis unfolding FindElement_def p by auto
qed



section \<open>Bounds and queries\<close>

lemma length_character: "length (character v) \<le> 2"
  by (simp add: character_def)

lemma length_decode_entity: "length (decode_entity e) \<le> length e + 2"
  using length_character [of "wcstoul (drop 2 e) 16"] length_character [of "wcstoul (drop (Suc 0) e) 10"]
  by (auto simp: decode_entity_def Let_def wide_def)

text \<open>Decoding never makes a text longer.\<close>

lemma length_DecodeText: "length (DecodeText t) \<le> length t"
proof (induction t rule: DecodeText.induct)
  case (2 c cs)
  show ?case
  proof (cases "c = 0x3C \<or> c = 0x26")
    case False
    then show ?thesis using "2.IH"(2) by (simp add: DecodeText.simps)
  next
    case True
    define k where "k = (if c = 0x3C then (0x3E :: u16) else 0x3B)"
    show ?thesis
    proof (cases "find_char k (c # cs) 0")
      case None
      then show ?thesis using True "2.IH"(3) by (auto simp: DecodeText.simps k_def split: if_splits)
    next
      case (Some e)
      note b = find_char_bounds [OF Some]
      have cut: "length (drop e cs) + (e + 1) = length (c # cs)" using b by simp
      have ent: "length (decode_entity (substr (c # cs) 1 (e - 1))) \<le> e + 1"
      proof (cases "e = 0")
        case True
        then show ?thesis using b find_char_at [OF Some] \<open>c = 0x3C \<or> c = 0x26\<close> by (auto simp: k_def split: if_splits)
      next
        case False
        then show ?thesis using length_decode_entity [of "substr (c # cs) 1 (e - 1)"] b by (auto simp: substr_def)
      qed
      consider "c = 0x3C" | "c = 0x26" "e > 10" | "c = 0x26" "\<not> e > 10" using True by blast
      then show ?thesis
      proof cases
        case 1
        then show ?thesis using Some "2.IH"(1) [of e] cut by (simp add: DecodeText.simps k_def)
      next
        case 2
        then show ?thesis using Some "2.IH"(4) [of e] by (simp add: DecodeText.simps k_def)
      next
        case 3
        then show ?thesis using Some "2.IH"(5) [of e] cut ent by (simp add: DecodeText.simps k_def)
      qed
    qed
  qed
qed simp

definition rendered :: "EventDataRead \<Rightarrow> RawEvent \<Rightarrow> EventLogEntry option" where
  "rendered mode ev = map_option (ReadData (snd ev) mode) (fst ev)"

lemma fold_take_event:
  "length entries \<le> n \<Longrightarrow>
   fold (take_event n mode) evs entries = take n (entries @ List.map_filter (rendered mode) evs)"
proof (induction evs arbitrary: entries)
  case (Cons ev evs)
  show ?case
  proof (cases "length entries < n")
    case True
    then have "length (take_event n mode ev entries) \<le> n" by (auto simp: take_event_def split: option.split)
    from Cons.IH [OF this] show ?thesis using True
      by (cases "fst ev") (simp_all add: take_event_def rendered_def List.map_filter_def)
  next
    case False
    then have "length entries = n" using Cons.prems by simp
    moreover from this have "take_event n mode ev entries = entries" by (simp add: take_event_def)
    ultimately show ?thesis using Cons.IH [of entries] by simp
  qed
qed (simp add: List.map_filter_def)

lemma map_filter_append: "List.map_filter f (xs @ ys) = List.map_filter f xs @ List.map_filter f ys"
  by (simp add: List.map_filter_def)

lemma take_batches_all:
  "length entries \<le> n \<Longrightarrow> take_batches n mode bs entries = take n (entries @ List.map_filter (rendered mode) (concat bs))"
proof (induction bs arbitrary: entries)
  case (Cons b bs)
  show ?case
  proof (cases "length entries < n")
    case True
    define es where "es = take n (entries @ List.map_filter (rendered mode) b)"
    have "length es \<le> n" by (simp add: es_def)
    from Cons.IH [OF this] show ?thesis using True
      by (simp add: fold_take_event flip: es_def) (simp add: es_def map_filter_append min_def)
  qed (use Cons.prems in simp)
qed (simp add: List.map_filter_def)

text \<open>A query gives the newest events that render, at most as many as asked for, however the event service cuts them
  into batches, each with its data when that was asked for.\<close>

theorem Query_newest:
  "Query (Some batches) n mode =
     Some (take n (List.map_filter (\<lambda>(e, xml). map_option (ReadData xml mode) e) (concat batches)))"
proof -
  have "rendered mode = (\<lambda>(e, xml). map_option (ReadData xml mode) e)" by (auto simp: rendered_def)
  then show ?thesis by (simp add: Query_def take_batches_all)
qed

end
