(* ===== verification/Autorun_Images.thy ===== *)
theory Autorun_Images
  imports C_Text
begin

text \<open>
  From a command line to the file it runs (\<open>WinSys/Autoruns.cpp\<close>, \<open>ResolveImage\<close>): trimming, files found as typed or on
  the search path, the first path of a command line, the DLL that \<open>rundll32\<close> runs. The file system is \<open>Files\<close>: which
  paths are files, where the search path finds a name, how environment variables expand, the Windows directory.
\<close>

section \<open>The file system\<close>

record Files =
  IsFile :: "wstr \<Rightarrow> bool"
  SearchPath :: "wstr \<Rightarrow> wstr option \<Rightarrow> wstr option"
  ExpandEnvironment :: "wstr \<Rightarrow> wstr"
  SystemRoot :: wstr

section \<open>Text\<close>

definition same_name :: "wstr \<Rightarrow> wstr \<Rightarrow> bool" where
  "same_name a b \<longleftrightarrow> map lower (c_str a) = map lower (c_str b)"

definition EndsWith :: "wstr \<Rightarrow> wstr \<Rightarrow> bool" where
  "EndsWith s suffix \<longleftrightarrow> length s \<ge> length suffix \<and> same_name (drop (length s - length suffix) s) suffix"

definition blank :: "16 word \<Rightarrow> bool" where
  "blank c \<longleftrightarrow> c = 0x20 \<or> c = 9 \<or> c = 0x0D \<or> c = 0x0A"

definition Trim :: "wstr \<Rightarrow> wstr" where
  "Trim s = rev (dropWhile blank (rev (dropWhile blank s)))"

text \<open>The failures of \<open>ExpandEnvironmentStrings\<close>, which leave the text, are part of \<open>ExpandEnvironment\<close>.\<close>

definition Expand :: "Files \<Rightarrow> wstr \<Rightarrow> wstr" where
  "Expand fs s = (if 0x25 \<notin> set s then s else ExpandEnvironment fs s)"

definition FileName :: "wstr \<Rightarrow> wstr" where
  "FileName path = rev (takeWhile (\<lambda>c. c \<noteq> 0x5C \<and> c \<noteq> 0x2F) (rev path))"

section \<open>Finding a file\<close>

definition rooted :: "wstr \<Rightarrow> bool" where
  "rooted path \<longleftrightarrow> hd path = 0x5C \<or> (length path > 1 \<and> path ! 1 = 0x3A)"

definition strip_prefix :: "Files \<Rightarrow> wstr \<Rightarrow> wstr" where
  "strip_prefix fs path =
     (if same_start path (wide_path ''/SystemRoot/'') 12 then SystemRoot fs @ drop 11 path
      else if take 4 path = wide_path ''/??/'' then drop 4 path
      else path)"

text \<open>
  With an empty path behind the \<open>\\??\\\<close> prefix the code reads \<open>path[0]\<close>, the string's NUL: not rooted.
\<close>

definition FindFile :: "Files \<Rightarrow> wstr \<Rightarrow> wstr option \<Rightarrow> wstr" where
  "FindFile fs path ext =
     (if path = [] then path
      else
        (let path = strip_prefix fs path;
             withExt = (case ext of None \<Rightarrow> None | Some x \<Rightarrow> if IsFile fs (path @ x) then Some (path @ x) else None);
             slash = (0x5C \<in> set path);
             full = SystemRoot fs @ [0x5C] @ path
         in if IsFile fs path then path
            else case withExt of
              Some p \<Rightarrow> p
            | None \<Rightarrow>
                if \<not> (path \<noteq> [] \<and> rooted path) \<and> slash \<and> IsFile fs full then full
                else if \<not> slash then (case SearchPath fs path ext of Some found \<Rightarrow> found | None \<Rightarrow> path)
                else path))"

section \<open>The first path of a command line\<close>

definition names_file :: "Files \<Rightarrow> wstr option \<Rightarrow> wstr \<Rightarrow> bool" where
  "names_file fs ext candidate \<longleftrightarrow>
     IsFile fs candidate \<or> (case ext of None \<Rightarrow> False | Some x \<Rightarrow> IsFile fs (candidate @ x)) \<or>
     (length candidate > 1 \<and> candidate ! 1 = 0x3A \<and> IsFile fs (FindFile fs candidate ext))"

text \<open>The loop over the spaces: the run of words up to each space and the whole text are tried.\<close>

function first_run :: "Files \<Rightarrow> wstr option \<Rightarrow> wstr \<Rightarrow> nat \<Rightarrow> nat option" where
  "first_run fs ext s pos =
     (case find_char 0x20 s pos of
        None \<Rightarrow> if names_file fs ext s then Some (length s) else None
      | Some space \<Rightarrow> if names_file fs ext (take space s) then Some space else first_run fs ext s (space + 1))"
  by pat_completeness auto

termination
  by (relation "measure (\<lambda>(fs, ext, s, pos). length s - pos)") (auto dest!: find_char_bounds)

declare first_run.simps [simp del]

definition first_word :: "wstr \<Rightarrow> nat" where
  "first_word s = (case find_char 0x20 s 0 of None \<Rightarrow> length s | Some space \<Rightarrow> space)"

text \<open>
  \<open>FirstPath\<close>: the path and where the rest of the text starts. When no run of words names a file, it is the first
  candidate that is not empty; a text that does not begin with a space has it at its first word.
\<close>

function first_candidate :: "wstr \<Rightarrow> nat \<Rightarrow> nat" where
  "first_candidate s pos =
     (case find_char 0x20 s pos of
        None \<Rightarrow> length s
      | Some space \<Rightarrow> if space = 0 then first_candidate s (space + 1) else space)"
  by pat_completeness auto

termination
  by (relation "measure (\<lambda>(s, pos). length s - pos)") (auto dest!: find_char_bounds)

declare first_candidate.simps [simp del]

definition FirstPath :: "Files \<Rightarrow> wstr \<Rightarrow> wstr option \<Rightarrow> nat \<Rightarrow> wstr \<times> nat" where
  "FirstPath fs s ext rest =
     (if s = [] then ([], rest)
      else if hd s = 0x22 then
        (let e = (case find_char 0x22 s 1 of None \<Rightarrow> length s | Some e \<Rightarrow> e)
         in (FindFile fs (substr s 1 (e - 1)) ext, if e + 1 < length s then e + 1 else length s))
      else
        (let e = (case first_run fs ext s 0 of Some e \<Rightarrow> e | None \<Rightarrow> first_candidate s 0)
         in (FindFile fs (take e s) ext, e)))"

section \<open>The image of a command\<close>

lemma length_Trim: "length (Trim s) \<le> length s"
  unfolding Trim_def by (metis le_trans length_dropWhile_le length_rev)

lemma length_Trim_blank: "s \<noteq> [] \<Longrightarrow> blank (hd s) \<Longrightarrow> length (Trim s) < length s"
proof -
  assume "s \<noteq> []" and "blank (hd s)"
  then obtain c cs where s: "s = c # cs" "blank c" by (cases s) auto
  then have "Trim s = Trim cs" by (simp add: Trim_def)
  then show ?thesis using length_Trim [of cs] s by simp
qed

text \<open>The switches of \<open>rundll32\<close> come before its DLL.\<close>

function skip_switches :: "wstr \<Rightarrow> wstr" where
  "skip_switches args =
     (if args \<noteq> [] \<and> (hd args = 0x2F \<or> hd args = 0x2D) then
        (case find_char 0x20 args 0 of None \<Rightarrow> [] | Some space \<Rightarrow> skip_switches (Trim (drop space args)))
      else args)"
  by pat_completeness auto

termination
proof (relation "measure length")
  fix args :: wstr and space
  assume "args \<noteq> [] \<and> (hd args = 0x2F \<or> hd args = 0x2D)" and f: "find_char 0x20 args 0 = Some space"
  have b: "space < length args" and at: "args ! space = 0x20"
    using find_char_bounds [OF f] find_char_at [OF f] by blast+
  have "blank (hd (drop space args))" using b at by (simp add: hd_drop_conv_nth blank_def)
  then have "length (Trim (drop space args)) < length (drop space args)" using b by (intro length_Trim_blank) auto
  then show "(Trim (drop space args), args) \<in> measure length" by simp
qed simp

declare skip_switches.simps [simp del]

definition rundll_target :: "Files \<Rightarrow> wstr \<Rightarrow> wstr" where
  "rundll_target fs args =
     (let comma = (if hd args = 0x22
                   then (case find_char 0x22 args 1 of None \<Rightarrow> None | Some quote \<Rightarrow> find_char 0x2C args quote)
                   else find_char 0x2C args 0);
          dll = Trim (case comma of None \<Rightarrow> args | Some c \<Rightarrow> take c args)
      in fst (FirstPath fs dll (Some (wide ''.dll'')) 0))"

definition is_rundll :: "wstr \<Rightarrow> bool" where
  "is_rundll name \<longleftrightarrow> same_name name (wide ''rundll32.exe'') \<or> same_name name (wide ''rundll32'')"

definition command_text :: "Files \<Rightarrow> wstr \<Rightarrow> wstr" where
  "command_text fs command = rev (dropWhile (\<lambda>c. c = 0x2C) (rev (Trim (Expand fs command))))"

definition ResolveImage :: "Files \<Rightarrow> wstr \<Rightarrow> wstr" where
  "ResolveImage fs command =
     (let s = command_text fs command
      in if s = [] then []
         else
           (let (image, rest) = FirstPath fs s (Some (wide ''.exe'')) 0;
                args = skip_switches (Trim (drop rest s));
                path = (if args = [] then [] else rundll_target fs args)
            in if is_rundll (FileName image) \<and> path \<noteq> [] then path else image))"

end
