(* ===== verification/Autoruns.thy ===== *)
theory Autoruns
  imports Autorun_Images
begin

text \<open>
  What starts by itself (\<open>WinSys/Autoruns.cpp\<close>): the entries read from the registry, the startup folders, the packages
  and the task scheduler, and the two operations on them, enabling and deleting. The registry is a parameter: a
  state of some type and the system's calls on it (\<open>RegistryApi\<close>); what they do is stated, where it matters, in \<open>Autorun_State\<close>.
\<close>

section \<open>Entries\<close>

datatype AutorunCategory =
  Logon | ScheduledTask | Service | Driver | Winlogon | AppInit | BootExecute | Lsa | ImageHijack

datatype AutorunStore = RegistryStore | StartupFile | TaskStore | ServiceStore | PackageTask

datatype AutorunTaskState = UnknownState | DisabledState | QueuedState | ReadyState | RunningState

datatype Root = HKLM | HKCU | HKCR | HKU

record AutorunEntry =
  Category :: AutorunCategory
  Store :: AutorunStore
  Location :: wstr
  Name :: wstr
  Command :: wstr
  ImagePath :: wstr
  ImageFound :: bool
  Details :: wstr
  Enabled :: "bool option"
  Deletable :: bool
  LastModified :: int
  EntryRoot :: Root
  SubKey :: wstr
  ValueName :: wstr
  Wow64 :: bool
  TaskPath :: wstr
  TaskState :: AutorunTaskState
  Triggers :: wstr
  RunAs :: wstr
  LastRun :: int
  NextRun :: int
  LastResult :: "int option"
  Author :: wstr

definition new_entry :: AutorunEntry where
  "new_entry = \<lparr>Category = Logon, Store = RegistryStore, Location = [], Name = [], Command = [], ImagePath = [],
     ImageFound = False, Details = [], Enabled = None, Deletable = False, LastModified = 0, EntryRoot = HKLM, SubKey = [],
     ValueName = [], Wow64 = False, TaskPath = [], TaskState = UnknownState, Triggers = [], RunAs = [], LastRun = 0,
     NextRun = 0, LastResult = None, Author = []\<rparr>"

section \<open>The registry\<close>

record RegistryValue =
  v_Name :: wstr
  v_Type :: u32
  v_Data :: bytes

definition REG_SZ :: u32 where "REG_SZ = 1"
definition REG_EXPAND_SZ :: u32 where "REG_EXPAND_SZ = 2"
definition REG_BINARY :: u32 where "REG_BINARY = 3"
definition REG_DWORD :: u32 where "REG_DWORD = 4"
definition REG_MULTI_SZ :: u32 where "REG_MULTI_SZ = 7"

lemmas reg_types = REG_SZ_def REG_EXPAND_SZ_def REG_BINARY_def REG_DWORD_def REG_MULTI_SZ_def

text \<open>The calls: the first four on a key that opens, by its root and path; the others give a new registry and an error.\<close>

record 'r RegistryApi =
  Opens :: "'r \<Rightarrow> Root \<Rightarrow> wstr \<Rightarrow> bool"
  QueryValue :: "'r \<Rightarrow> Root \<Rightarrow> wstr \<Rightarrow> wstr \<Rightarrow> RegistryValue option"
  EnumValues :: "'r \<Rightarrow> Root \<Rightarrow> wstr \<Rightarrow> RegistryValue list"
  EnumKeys :: "'r \<Rightarrow> Root \<Rightarrow> wstr \<Rightarrow> wstr list"
  KeyTime :: "'r \<Rightarrow> Root \<Rightarrow> wstr \<Rightarrow> int"
  OpensForWrite :: "'r \<Rightarrow> Root \<Rightarrow> wstr \<Rightarrow> bool"
  CreateKey :: "Root \<Rightarrow> wstr \<Rightarrow> 'r \<Rightarrow> u32 \<times> 'r"
  SetValue :: "Root \<Rightarrow> wstr \<Rightarrow> RegistryValue \<Rightarrow> 'r \<Rightarrow> u32 \<times> 'r"
  DeleteValue :: "Root \<Rightarrow> wstr \<Rightarrow> wstr \<Rightarrow> 'r \<Rightarrow> u32 \<times> 'r"

text \<open>\<open>RegistryValue::String\<close> and \<open>Strings\<close>; the buffers that \<open>ReadValue\<close> makes have two NULs after the data.\<close>

definition String_of :: "RegistryValue \<Rightarrow> wstr" where
  "String_of v =
     (if v_Type v \<noteq> REG_SZ \<and> v_Type v \<noteq> REG_EXPAND_SZ \<and> v_Type v \<noteq> REG_MULTI_SZ then [] else c_str (units (v_Data v)))"

function multi_strings :: "wstr \<Rightarrow> wstr list" where
  "multi_strings s =
     (if s = [] \<or> hd s = 0 then []
      else c_str s # multi_strings (drop (length (c_str s) + 1) s))"
  by pat_completeness auto

termination
  by (relation "measure length") auto

declare multi_strings.simps [simp del]

definition Strings_of :: "RegistryValue \<Rightarrow> wstr list" where
  "Strings_of v =
     (if v_Type v = REG_MULTI_SZ then multi_strings (units (v_Data v))
      else if String_of v \<noteq> [] then [String_of v] else [])"

definition ReadValue :: "'r RegistryApi \<Rightarrow> 'r \<Rightarrow> Root \<Rightarrow> wstr \<Rightarrow> wstr \<Rightarrow> RegistryValue option" where
  "ReadValue api r root key name = QueryValue api r root key name"

definition ReadDword :: "'r RegistryApi \<Rightarrow> 'r \<Rightarrow> Root \<Rightarrow> wstr \<Rightarrow> wstr \<Rightarrow> u32 option" where
  "ReadDword api r root key name =
     (case QueryValue api r root key name of
        None \<Rightarrow> None
      | Some v \<Rightarrow>
          if length (v_Data v) \<le> 4 \<and> v_Type v = REG_DWORD
          then Some (u32_at (v_Data v @ replicate (4 - length (v_Data v)) 0) 0) else None)"

text \<open>\<open>RootName\<close>, \<open>KeyLocation\<close>\<close>

fun RootName :: "Root \<Rightarrow> wstr" where
  "RootName HKLM = wide ''HKLM''"
| "RootName HKCU = wide ''HKCU''"
| "RootName HKCR = wide ''HKCR''"
| "RootName HKU = wide ''HKU''"

definition KeyLocation :: "Root \<Rightarrow> wstr \<Rightarrow> wstr" where
  "KeyLocation root subKey = RootName root @ [0x5C] @ subKey"

definition ApprovedKey :: wstr where
  "ApprovedKey = wide_path ''Software/Microsoft/Windows/CurrentVersion/Explorer/StartupApproved/''"

text \<open>Task Manager's state: missing, or an even first byte, is enabled.\<close>

definition approved_state :: "RegistryValue option \<Rightarrow> bool" where
  "approved_state v =
     (case v of None \<Rightarrow> True | Some v \<Rightarrow> v_Type v \<noteq> REG_BINARY \<or> v_Data v = [] \<or> hd (v_Data v) AND 1 = 0)"

definition IsApproved :: "'r RegistryApi \<Rightarrow> 'r \<Rightarrow> Root \<Rightarrow> wstr \<Rightarrow> wstr \<Rightarrow> bool" where
  "IsApproved api r root approved name =
     (if \<not> Opens api r root (ApprovedKey @ approved) then True
      else approved_state (ReadValue api r root (ApprovedKey @ approved) name))"

definition RegistryEntry ::
  "Files \<Rightarrow> 'r RegistryApi \<Rightarrow> 'r \<Rightarrow> AutorunCategory \<Rightarrow> Root \<Rightarrow> wstr \<Rightarrow> wstr \<Rightarrow> wstr \<Rightarrow> AutorunEntry" where
  "RegistryEntry fs api r category root subKey name command =
     new_entry\<lparr>Category := category, Store := RegistryStore, EntryRoot := root, SubKey := subKey, ValueName := name,
       Location := KeyLocation root subKey, Name := (if name = [] then wide ''(Default)'' else name), Command := command,
       ImagePath := ResolveImage fs command, LastModified := KeyTime api r root subKey\<rparr>"

section \<open>The locations in the registry\<close>

text \<open>The Run keys: root, path, the StartupApproved key, whether it is the 32-bit view's.\<close>

definition run_keys :: "(Root \<times> wstr \<times> wstr option \<times> bool) list" where
  "run_keys =
     [(HKLM, wide_path ''Software/Microsoft/Windows/CurrentVersion/Run'', Some (wide ''Run''), False),
      (HKLM, wide_path ''Software/WOW6432Node/Microsoft/Windows/CurrentVersion/Run'', Some (wide ''Run32''), True),
      (HKCU, wide_path ''Software/Microsoft/Windows/CurrentVersion/Run'', Some (wide ''Run''), False),
      (HKLM, wide_path ''Software/Microsoft/Windows/CurrentVersion/RunOnce'', None, False),
      (HKLM, wide_path ''Software/WOW6432Node/Microsoft/Windows/CurrentVersion/RunOnce'', None, True),
      (HKCU, wide_path ''Software/Microsoft/Windows/CurrentVersion/RunOnce'', None, False),
      (HKLM, wide_path ''Software/Microsoft/Windows/CurrentVersion/Policies/Explorer/Run'', None, False),
      (HKCU, wide_path ''Software/Microsoft/Windows/CurrentVersion/Policies/Explorer/Run'', None, False)]"

definition run_entry ::
  "Files \<Rightarrow> 'r RegistryApi \<Rightarrow> 'r \<Rightarrow> Root \<times> wstr \<times> wstr option \<times> bool \<Rightarrow> RegistryValue \<Rightarrow> AutorunEntry list" where
  "run_entry fs api r = (\<lambda>(root, subKey, approved, wow64) v.
     if String_of v = [] then []
     else
       [(RegistryEntry fs api r Logon root subKey (v_Name v) (String_of v))
          \<lparr>Wow64 := wow64, Deletable := True,
           Enabled := map_option (\<lambda>a. IsApproved api r root a (v_Name v)) approved\<rparr>])"

definition run_key_entries ::
  "Files \<Rightarrow> 'r RegistryApi \<Rightarrow> 'r \<Rightarrow> Root \<times> wstr \<times> wstr option \<times> bool \<Rightarrow> AutorunEntry list" where
  "run_key_entries fs api r k =
     (if \<not> Opens api r (fst k) (fst (snd k)) then []
      else concat (map (run_entry fs api r k) (EnumValues api r (fst k) (fst (snd k)))))"

definition AddRunKeys :: "Files \<Rightarrow> 'r RegistryApi \<Rightarrow> 'r \<Rightarrow> AutorunEntry list" where
  "AddRunKeys fs api r = concat (map (run_key_entries fs api r) run_keys)"

definition active_setup_keys :: "wstr list" where
  "active_setup_keys =
     [wide_path ''Software/Microsoft/Active Setup/Installed Components'',
      wide_path ''Software/WOW6432Node/Microsoft/Active Setup/Installed Components'']"

definition child_key :: "wstr \<Rightarrow> wstr \<Rightarrow> wstr" where
  "child_key key name = key @ [0x5C] @ name"

definition value_text :: "'r RegistryApi \<Rightarrow> 'r \<Rightarrow> Root \<Rightarrow> wstr \<Rightarrow> wstr \<Rightarrow> wstr" where
  "value_text api r root key name = (case ReadValue api r root key name of None \<Rightarrow> [] | Some v \<Rightarrow> String_of v)"

definition setup_entry :: "Files \<Rightarrow> 'r RegistryApi \<Rightarrow> 'r \<Rightarrow> wstr \<Rightarrow> wstr \<Rightarrow> AutorunEntry list" where
  "setup_entry fs api r subKey name =
     (let key = child_key subKey name; stub = value_text api r HKLM key (wide ''StubPath'');
          e = RegistryEntry fs api r Logon HKLM key (wide ''StubPath'') stub; title = value_text api r HKLM key []
      in if \<not> Opens api r HKLM key \<or> ReadDword api r HKLM key (wide ''IsInstalled'') = Some 0 \<or> stub = [] \<or> \<not> IsFile fs (ImagePath e)
         then []
         else [e\<lparr>Name := (if title \<noteq> [] then title else name), Details := name\<rparr>])"

definition AddActiveSetup :: "Files \<Rightarrow> 'r RegistryApi \<Rightarrow> 'r \<Rightarrow> AutorunEntry list" where
  "AddActiveSetup fs api r =
     concat (map (\<lambda>subKey.
       if \<not> Opens api r HKLM subKey then []
       else concat (map (setup_entry fs api r subKey) (EnumKeys api r HKLM subKey))) active_setup_keys)"

section \<open>The startup folders\<close>

text \<open>A file of a folder: \<open>f_Link\<close> is the target and the arguments of a shortcut that loads.\<close>

record FolderItem =
  f_Name :: wstr
  f_Directory :: bool
  f_Time :: int
  f_Link :: "(wstr \<times> wstr) option"

definition startup_folders :: "(wstr \<times> Root) list" where
  "startup_folders =
     [(wide_path ''%APPDATA%/Microsoft/Windows/Start Menu/Programs/Startup'', HKCU),
      (wide_path ''%ProgramData%/Microsoft/Windows/Start Menu/Programs/StartUp'', HKLM)]"

definition link_command :: "wstr \<Rightarrow> wstr \<Rightarrow> wstr" where
  "link_command target args = (if args \<noteq> [] then [0x22] @ target @ [0x22, 0x20] @ args else target)"

definition folder_entry :: "Files \<Rightarrow> 'r RegistryApi \<Rightarrow> 'r \<Rightarrow> wstr \<Rightarrow> Root \<Rightarrow> FolderItem \<Rightarrow> AutorunEntry list" where
  "folder_entry fs api r folder root f =
     (if f_Directory f \<or> same_name (f_Name f) (wide ''desktop.ini'') then []
      else
        (let e = new_entry\<lparr>Category := Logon, Store := StartupFile, Location := folder, Name := f_Name f, EntryRoot := root,
               ValueName := f_Name f, Deletable := True, LastModified := f_Time f,
               Enabled := Some (IsApproved api r root (wide ''StartupFolder'') (f_Name f))\<rparr>;
             path = folder @ [0x5C] @ f_Name f
         in if EndsWith (f_Name f) (wide ''.lnk'') then
              (case f_Link f of
                 None \<Rightarrow> [e]
               | Some (target, args) \<Rightarrow>
                   [e\<lparr>ImagePath := Expand fs target, Command := link_command target args, Details := args\<rparr>])
            else [e\<lparr>Command := path, ImagePath := path\<rparr>]))"

definition AddStartupFolders ::
  "Files \<Rightarrow> (wstr \<Rightarrow> FolderItem list option) \<Rightarrow> 'r RegistryApi \<Rightarrow> 'r \<Rightarrow> AutorunEntry list" where
  "AddStartupFolders fs listing api r =
     concat (map (\<lambda>(name, root).
       case listing (Expand fs name) of
         None \<Rightarrow> []
       | Some items \<Rightarrow> concat (map (folder_entry fs api r (Expand fs name) root) items)) startup_folders)"

section \<open>Packages\<close>

text \<open>The elements of a manifest as the XML reader gives them: the local name and the attributes.\<close>

type_synonym XmlElement = "wstr \<times> (wstr \<times> wstr) list"

record PackageStartupTask =
  t_TaskId :: wstr
  t_Executable :: wstr
  t_DisplayName :: wstr
  t_Enabled :: bool

definition attribute :: "XmlElement \<Rightarrow> wstr \<Rightarrow> wstr" where
  "attribute x name = (case map_of (snd x) name of None \<Rightarrow> [] | Some v \<Rightarrow> v)"

text \<open>The state of the loop: the application's executable, the extension's, the tasks so far.\<close>

definition startup_element ::
  "XmlElement \<Rightarrow> wstr \<times> wstr \<times> PackageStartupTask list \<Rightarrow> wstr \<times> wstr \<times> PackageStartupTask list" where
  "startup_element x = (\<lambda>(app, extension, tasks).
     if fst x = wide ''Application'' then (attribute x (wide ''Executable''), [], tasks)
     else if fst x = wide ''Extension'' then (app, attribute x (wide ''Executable''), tasks)
     else if fst x = wide ''StartupTask'' then
       (if attribute x (wide ''TaskId'') = [] then (app, extension, tasks)
        else
          (let enabled = attribute x (wide ''Enabled'')
           in (app, extension, tasks @
                [\<lparr>t_TaskId = attribute x (wide ''TaskId''),
                  t_Executable = map (\<lambda>c. if c = 0x2F then 0x5C else c) (if extension \<noteq> [] then extension else app),
                  t_DisplayName = attribute x (wide ''DisplayName''),
                  t_Enabled = (same_name enabled (wide ''true'') \<or> enabled = wide ''1'')\<rparr>])))
     else (app, extension, tasks))"

definition ParseStartupTasks :: "XmlElement list \<Rightarrow> PackageStartupTask list" where
  "ParseStartupTasks elements = snd (snd (fold startup_element elements ([], [], [])))"

record PackageInfo =
  p_FullName :: wstr
  p_FamilyName :: wstr
  p_Name :: wstr
  p_DisplayName :: wstr
  p_InstalledPath :: wstr
  p_Framework :: bool
  p_Resource :: bool
  p_Bundle :: bool

text \<open>\<open>LoadPackageString\<close>: \<open>load\<close> is \<open>SHLoadIndirectString\<close>, nothing when it fails or gives an empty text.\<close>

definition resource_uris :: "PackageInfo \<Rightarrow> wstr \<Rightarrow> wstr list" where
  "resource_uris p s =
     (let rest = drop 12 s; start = wide ''ms-resource://'' @ p_Name p
      in if take 2 rest = wide ''//'' then [s]
         else if take 1 rest = wide ''/'' then [start @ rest]
         else (start @ wide ''/Resources/'' @ rest) # (if 0x2F \<in> set rest then [start @ wide ''/'' @ rest] else []))"

definition LoadPackageString :: "(wstr \<Rightarrow> wstr option) \<Rightarrow> PackageInfo \<Rightarrow> wstr \<Rightarrow> wstr" where
  "LoadPackageString load p s =
     (if \<not> same_start s (wide ''ms-resource:'') 12 then s
      else case first_some (map (\<lambda>uri. load ([0x40, 0x7B] @ p_FullName p @ wide ''?'' @ uri @ wide ''}'')) (resource_uris p s)) of
        None \<Rightarrow> []
      | Some result \<Rightarrow> result)"

definition TaskDisabled :: u32 where "TaskDisabled = 0"
definition TaskDisabledByUser :: u32 where "TaskDisabledByUser = 1"
definition TaskEnabled :: u32 where "TaskEnabled = 2"
definition TaskDisabledByPolicy :: u32 where "TaskDisabledByPolicy = 3"
definition TaskEnabledByPolicy :: u32 where "TaskEnabledByPolicy = 4"

lemmas task_states = TaskDisabled_def TaskDisabledByUser_def TaskEnabled_def TaskDisabledByPolicy_def TaskEnabledByPolicy_def

definition StartupTaskStateText :: "u32 \<Rightarrow> wstr" where
  "StartupTaskStateText state =
     (if state = TaskDisabled then wide ''disabled''
      else if state = TaskDisabledByUser then wide ''disabled by the user''
      else if state = TaskEnabled then wide ''enabled''
      else if state = TaskDisabledByPolicy then wide ''disabled by policy''
      else if state = TaskEnabledByPolicy then wide ''enabled by policy''
      else wide ''unknown state'')"

definition AppDataKey :: wstr where
  "AppDataKey = wide_path ''Software/Classes/Local Settings/Software/Microsoft/Windows/CurrentVersion/AppModel/SystemAppData/''"

definition task_key :: "PackageInfo \<Rightarrow> PackageStartupTask \<Rightarrow> wstr" where
  "task_key p t = AppDataKey @ p_FamilyName p @ [0x5C] @ t_TaskId t"

definition task_state :: "'r RegistryApi \<Rightarrow> 'r \<Rightarrow> wstr \<Rightarrow> PackageStartupTask \<Rightarrow> u32" where
  "task_state api r key t =
     (let default = (if t_Enabled t then TaskEnabled else TaskDisabled)
      in if Opens api r HKCU key then
           (case ReadDword api r HKCU key (wide ''State'') of None \<Rightarrow> default | Some v \<Rightarrow> v)
         else default)"

text \<open>\<open>fileTime\<close> is when the manifest was written, if that can be read.\<close>

definition package_entry ::
  "(wstr \<Rightarrow> wstr option) \<Rightarrow> 'r RegistryApi \<Rightarrow> 'r \<Rightarrow> int option \<Rightarrow> PackageInfo \<Rightarrow> PackageStartupTask \<Rightarrow> AutorunEntry" where
  "package_entry load api r fileTime p t =
     (let key = task_key p t; state = task_state api r key t; name = LoadPackageString load p (t_DisplayName t);
          image = (if t_Executable t \<noteq> [] then p_InstalledPath p @ [0x5C] @ t_Executable t else []);
          keyTime = (if Opens api r HKCU key then KeyTime api r HKCU key else 0)
      in new_entry\<lparr>Category := Logon, Store := PackageTask, EntryRoot := HKCU, SubKey := key, ValueName := wide ''State'',
           Location := p_FullName p,
           Name := (if name \<noteq> [] then name else if p_DisplayName p \<noteq> [] then p_DisplayName p else t_TaskId t),
           ImagePath := image, Command := (if t_Executable t \<noteq> [] then [0x22] @ image @ [0x22] else []),
           LastModified := (if keyTime \<noteq> 0 then keyTime else case fileTime of None \<Rightarrow> 0 | Some t \<Rightarrow> t),
           Enabled := Some (state = TaskEnabled \<or> state = TaskEnabledByPolicy),
           Details := wide ''Startup task '' @ t_TaskId t @ wide '' ('' @ StartupTaskStateText state @ wide '') of '' @
             (if p_DisplayName p = [] then p_Name p else p_DisplayName p)\<rparr>)"

text \<open>\<open>ReadFileText\<close>: a manifest that can't be read or is larger than 16 MB is empty.\<close>

definition ReadFileText :: "bytes option \<Rightarrow> bytes" where
  "ReadFileText file = (case file of None \<Rightarrow> [] | Some s \<Rightarrow> if length s > 16 * 1048576 then [] else s)"

record Manifests =
  FileAt :: "wstr \<Rightarrow> bytes option"
  FileTime :: "wstr \<Rightarrow> int option"
  XmlElements :: "bytes \<Rightarrow> XmlElement list"

definition package_entries ::
  "Manifests \<Rightarrow> (wstr \<Rightarrow> wstr option) \<Rightarrow> 'r RegistryApi \<Rightarrow> 'r \<Rightarrow> PackageInfo \<Rightarrow> AutorunEntry list" where
  "package_entries ms load api r p =
     (let path = p_InstalledPath p @ wide_path ''/AppxManifest.xml''; manifest = ReadFileText (FileAt ms path)
      in if p_Framework p \<or> p_Resource p \<or> p_Bundle p \<or> p_InstalledPath p = [] \<or> find_str (narrow ''StartupTask'') manifest 0 = None
         then []
         else map (package_entry load api r (FileTime ms path) p) (ParseStartupTasks (XmlElements ms manifest)))"

definition AddPackageTasks ::
  "Manifests \<Rightarrow> (wstr \<Rightarrow> wstr option) \<Rightarrow> 'r RegistryApi \<Rightarrow> 'r \<Rightarrow> PackageInfo list option \<Rightarrow> AutorunEntry list" where
  "AddPackageTasks ms load api r packages =
     (case packages of None \<Rightarrow> [] | Some ps \<Rightarrow> concat (map (package_entries ms load api r) ps))"

section \<open>Winlogon, AppInit, boot execution, the LSA, hijacks\<close>

definition winlogon_key :: wstr where
  "winlogon_key = wide_path ''Software/Microsoft/Windows NT/CurrentVersion/Winlogon''"

definition winlogon_values :: "(Root \<times> wstr) list" where
  "winlogon_values = [(HKLM, wide ''Userinit''), (HKLM, wide ''Shell''), (HKLM, wide ''Taskman''), (HKLM, wide ''AppSetup''), (HKCU, wide ''Shell'')]"

definition nonempty :: "wstr \<Rightarrow> wstr list" where
  "nonempty s = (if s = [] then [] else [s])"

text \<open>The commands of a value: up to the first comma, or for a list (\<open>Userinit\<close>) between the commas.\<close>

function list_items :: "bool \<Rightarrow> wstr \<Rightarrow> nat \<Rightarrow> wstr list" where
  "list_items isList item start =
     (case find_char 0x2C item start of
        None \<Rightarrow> nonempty (Trim (drop start item))
      | Some comma \<Rightarrow>
          nonempty (Trim (substr item start (comma - start))) @ (if isList then list_items isList item (comma + 1) else []))"
  by pat_completeness auto

termination
  by (relation "measure (\<lambda>(isList, item, start). length item - start)") (auto dest!: find_char_bounds)

declare list_items.simps [simp del]

definition winlogon_entries :: "Files \<Rightarrow> 'r RegistryApi \<Rightarrow> 'r \<Rightarrow> Root \<times> wstr \<Rightarrow> AutorunEntry list" where
  "winlogon_entries fs api r = (\<lambda>(root, name).
     if \<not> Opens api r root winlogon_key then []
     else case ReadValue api r root winlogon_key name of
       None \<Rightarrow> []
     | Some v \<Rightarrow>
         map (RegistryEntry fs api r Winlogon root winlogon_key name)
           (concat (map (\<lambda>item. list_items (same_name name (wide ''Userinit'')) item 0) (Strings_of v))))"

definition AddWinlogon :: "Files \<Rightarrow> 'r RegistryApi \<Rightarrow> 'r \<Rightarrow> AutorunEntry list" where
  "AddWinlogon fs api r = concat (map (winlogon_entries fs api r) winlogon_values)"

definition appinit_keys :: "wstr list" where
  "appinit_keys =
     [wide_path ''Software/Microsoft/Windows NT/CurrentVersion/Windows'',
      wide_path ''Software/WOW6432Node/Microsoft/Windows NT/CurrentVersion/Windows'']"

definition separator :: "16 word \<Rightarrow> bool" where
  "separator c \<longleftrightarrow> c = 0x20 \<or> c = 0x2C"

text \<open>The DLLs of the list, separated by spaces or commas; what is left of the list is taken word by word.\<close>

function dll_names :: "wstr \<Rightarrow> wstr list" where
  "dll_names s =
     (if s = [] then []
      else
        (let dll = takeWhile (\<lambda>c. \<not> separator c) s
         in nonempty dll @ (if length dll = length s then [] else dll_names (drop (length dll + 1) s))))"
  by pat_completeness auto

termination
  by (relation "measure length") auto

declare dll_names.simps [simp del]

definition appinit_entry :: "Files \<Rightarrow> 'r RegistryApi \<Rightarrow> 'r \<Rightarrow> wstr \<Rightarrow> wstr \<Rightarrow> AutorunEntry" where
  "appinit_entry fs api r subKey dll =
     (RegistryEntry fs api r AppInit HKLM subKey (wide ''AppInit_DLLs'') dll)
       \<lparr>Name := FileName dll,
        Details := (case ReadDword api r HKLM subKey (wide ''LoadAppInit_DLLs'') of
            None \<Rightarrow> wide ''LoadAppInit_DLLs is off''
          | Some load \<Rightarrow> if load \<noteq> 0 then wide ''LoadAppInit_DLLs is on'' else wide ''LoadAppInit_DLLs is off'')\<rparr>"

definition AddAppInit :: "Files \<Rightarrow> 'r RegistryApi \<Rightarrow> 'r \<Rightarrow> AutorunEntry list" where
  "AddAppInit fs api r =
     concat (map (\<lambda>subKey.
       if \<not> Opens api r HKLM subKey then []
       else case ReadValue api r HKLM subKey (wide ''AppInit_DLLs'') of
         None \<Rightarrow> []
       | Some v \<Rightarrow> map (appinit_entry fs api r subKey) (dll_names (String_of v))) appinit_keys)"

definition session_manager_key :: wstr where
  "session_manager_key = wide_path ''SYSTEM/CurrentControlSet/Control/Session Manager''"

definition boot_entry :: "Files \<Rightarrow> 'r RegistryApi \<Rightarrow> 'r \<Rightarrow> wstr \<Rightarrow> wstr \<Rightarrow> AutorunEntry list" where
  "boot_entry fs api r name item =
     (if Trim item = [] then []
      else
        (let program = (if same_start item (wide ''autocheck '') 10 then drop 10 item else item);
             image = ResolveImage fs program
         in [(RegistryEntry fs api r BootExecute HKLM session_manager_key name item)
               \<lparr>ImagePath := image, Name := FileName (if image = [] then item else image), Details := name\<rparr>]))"

definition AddBootExecute :: "Files \<Rightarrow> 'r RegistryApi \<Rightarrow> 'r \<Rightarrow> AutorunEntry list" where
  "AddBootExecute fs api r =
     (if \<not> Opens api r HKLM session_manager_key then []
      else concat (map (\<lambda>name.
        case ReadValue api r HKLM session_manager_key name of
          None \<Rightarrow> []
        | Some v \<Rightarrow> concat (map (boot_entry fs api r name) (Strings_of v)))
        [wide ''BootExecute'', wide ''SetupExecute'', wide ''Execute'']))"

definition lsa_keys :: "wstr list" where
  "lsa_keys = [wide_path ''SYSTEM/CurrentControlSet/Control/Lsa'', wide_path ''SYSTEM/CurrentControlSet/Control/Lsa/OSConfig'']"

definition lsa_entry :: "Files \<Rightarrow> 'r RegistryApi \<Rightarrow> 'r \<Rightarrow> wstr \<Rightarrow> wstr \<Rightarrow> wstr \<Rightarrow> AutorunEntry list" where
  "lsa_entry fs api r subKey name item =
     (let item = Trim item; dll = (if 0x2E \<in> set item then item else item @ wide ''.dll'')
      in if item = [] \<or> item = [0x22, 0x22] then []
         else [(RegistryEntry fs api r Lsa HKLM subKey name item)
                 \<lparr>Name := item,
                  ImagePath := FindFile fs (if 0x5C \<in> set dll then dll else wide_path ''System32/'' @ dll) None,
                  Details := name\<rparr>])"

definition AddLsa :: "Files \<Rightarrow> 'r RegistryApi \<Rightarrow> 'r \<Rightarrow> AutorunEntry list" where
  "AddLsa fs api r =
     concat (map (\<lambda>subKey.
       if \<not> Opens api r HKLM subKey then []
       else concat (map (\<lambda>name.
         case ReadValue api r HKLM subKey name of
           None \<Rightarrow> []
         | Some v \<Rightarrow> concat (map (lsa_entry fs api r subKey name) (Strings_of v)))
         [wide ''Authentication Packages'', wide ''Notification Packages'', wide ''Security Packages''])) lsa_keys)"

definition hijack_keys :: "(wstr \<times> wstr) list" where
  "hijack_keys =
     [(wide_path ''Software/Microsoft/Windows NT/CurrentVersion/Image File Execution Options'', wide ''Debugger''),
      (wide_path ''Software/WOW6432Node/Microsoft/Windows NT/CurrentVersion/Image File Execution Options'', wide ''Debugger''),
      (wide_path ''Software/Microsoft/Windows NT/CurrentVersion/SilentProcessExit'', wide ''MonitorProcess'')]"

definition hijack_entry :: "Files \<Rightarrow> 'r RegistryApi \<Rightarrow> 'r \<Rightarrow> wstr \<Rightarrow> wstr \<Rightarrow> wstr \<Rightarrow> AutorunEntry list" where
  "hijack_entry fs api r subKey name program =
     (let key = child_key subKey program
      in if \<not> Opens api r HKLM key \<or> Trim (value_text api r HKLM key name) = [] then []
         else [(RegistryEntry fs api r ImageHijack HKLM key name (value_text api r HKLM key name))
                 \<lparr>Name := program, Details := name, Deletable := True\<rparr>])"

definition AddHijacks :: "Files \<Rightarrow> 'r RegistryApi \<Rightarrow> 'r \<Rightarrow> AutorunEntry list" where
  "AddHijacks fs api r =
     concat (map (\<lambda>(subKey, name).
       if \<not> Opens api r HKLM subKey then []
       else concat (map (hijack_entry fs api r subKey name) (EnumKeys api r HKLM subKey))) hijack_keys)"

section \<open>Services and drivers\<close>

text \<open>
  What the services' entries need besides the registry: the Windows directory, the name of a device as a drive, the text of a value with a
  resource (\<open>RegLoadMUIString\<close>) and a value as an expanded text (\<open>RegGetValue\<close>).
\<close>

record 'r ServiceApi =
  SystemWindows :: wstr
  DosName :: "wstr \<Rightarrow> wstr"
  LoadMui :: "'r \<Rightarrow> wstr \<Rightarrow> wstr \<Rightarrow> wstr option"
  GetExpanded :: "'r \<Rightarrow> wstr \<Rightarrow> wstr \<Rightarrow> wstr option"

definition ToWin32Path :: "wstr \<Rightarrow> (wstr \<Rightarrow> wstr) \<Rightarrow> wstr \<Rightarrow> wstr" where
  "ToWin32Path root dosName path =
     (if same_start path (wide_path ''/SystemRoot/'') 12 then root @ drop 11 path
      else if take 4 path = wide_path ''/??/'' then drop 4 path
      else if same_start path (wide_path ''/Device/'') 8 then (if dosName path = [] then path else dosName path)
      else if take 1 path = [0x5C] \<and> take 2 path \<noteq> [0x5C, 0x5C] then take 2 (root) @ path
      else path)"

definition DriverImagePath :: "wstr \<Rightarrow> (wstr \<Rightarrow> wstr) \<Rightarrow> wstr \<Rightarrow> wstr \<Rightarrow> wstr" where
  "DriverImagePath root dosName serviceName imagePath =
     (if imagePath = [] then root @ wide_path ''/System32/drivers/'' @ serviceName @ wide ''.sys''
      else if hd imagePath \<noteq> 0x5C \<and> (length imagePath < 2 \<or> imagePath ! 1 \<noteq> 0x3A) then root @ [0x5C] @ imagePath
      else ToWin32Path root dosName imagePath)"

definition services_key :: wstr where
  "services_key = wide_path ''SYSTEM/CurrentControlSet/Services''"

definition ReadServiceDll :: "'r ServiceApi \<Rightarrow> 'r \<Rightarrow> wstr \<Rightarrow> wstr" where
  "ReadServiceDll sv r key =
     (case first_some (map (\<lambda>sub. GetExpanded sv r (services_key @ [0x5C] @ key @ sub) (wide ''ServiceDll''))
        [wide_path ''/Parameters'', []]) of
        None \<Rightarrow> []
      | Some path \<Rightarrow> path)"

text \<open>A user service's instance is named after its template, with an underscore and a number.\<close>

definition before_last :: "16 word \<Rightarrow> wstr \<Rightarrow> wstr option" where
  "before_last c s = (if c \<in> set s then Some (rev (tl (dropWhile (\<lambda>x. x \<noteq> c) (rev s)))) else None)"

definition GetServiceDll :: "'r ServiceApi \<Rightarrow> 'r \<Rightarrow> wstr \<Rightarrow> u32 \<Rightarrow> wstr" where
  "GetServiceDll sv r name type =
     (let dll = ReadServiceDll sv r name
      in if dll = [] \<and> type AND 0x80 = 0x80
         then (case before_last 0x5F name of None \<Rightarrow> dll | Some template \<Rightarrow> ReadServiceDll sv r template)
         else dll)"

definition MuiString :: "'r RegistryApi \<Rightarrow> 'r ServiceApi \<Rightarrow> 'r \<Rightarrow> wstr \<Rightarrow> wstr \<Rightarrow> wstr" where
  "MuiString api sv r key name = (case LoadMui sv r key name of Some s \<Rightarrow> s | None \<Rightarrow> value_text api r HKLM key name)"

text \<open>The services that start at boot, at system start or automatically, and are drivers or Win32 services.\<close>

definition service_entry :: "Files \<Rightarrow> 'r RegistryApi \<Rightarrow> 'r ServiceApi \<Rightarrow> 'r \<Rightarrow> wstr \<Rightarrow> AutorunEntry list" where
  "service_entry fs api sv r name =
     (let key = child_key services_key name
      in if \<not> Opens api r HKLM key then []
         else
           (case (ReadDword api r HKLM key (wide ''Type''), ReadDword api r HKLM key (wide ''Start'')) of
              (Some type, Some start) \<Rightarrow>
                (let driver = (type AND 3 \<noteq> 0); command = value_text api r HKLM key (wide ''ImagePath'');
                     dll = GetServiceDll sv r name type
                 in if start > 2 \<or> (\<not> driver \<and> type AND 0x30 = 0) then []
                    else
                      [new_entry\<lparr>Category := (if driver then Driver else Service), Store := ServiceStore, EntryRoot := HKLM,
                         SubKey := key, Location := KeyLocation HKLM key, Name := name, LastModified := KeyTime api r HKLM key,
                         Command := command, Details := MuiString api sv r key (wide ''DisplayName''),
                         ImagePath :=
                           (if driver then DriverImagePath (SystemWindows sv) (DosName sv) name (Expand fs command)
                            else if dll \<noteq> [] then FindFile fs (Expand fs dll) None
                            else ResolveImage fs command)\<rparr>])
            | _ \<Rightarrow> []))"

definition AddServices :: "Files \<Rightarrow> 'r RegistryApi \<Rightarrow> 'r ServiceApi \<Rightarrow> 'r \<Rightarrow> AutorunEntry list" where
  "AddServices fs api sv r =
     (if \<not> Opens api r HKLM services_key then []
      else concat (map (service_entry fs api sv r) (EnumKeys api r HKLM services_key)))"

section \<open>Scheduled tasks\<close>

text \<open>What the task scheduler's objects give; nothing for a call that fails. Dates are as \<open>DateToFileTime\<close> converts them.\<close>

datatype TaskTrigger =
  EventTrigger | TimeTrigger | Daily | Weekly | Monthly | MonthlyDow | Idle | Registration | Boot | LogonTrigger |
  SessionChange | Custom | OtherTrigger

datatype TaskAction =
    ExecAction "wstr option" "wstr option"
  | ComHandler "wstr option"
  | SendEmail
  | ShowMessage

record TaskPrincipal =
  UserId :: "wstr option"
  GroupId :: "wstr option"
  Highest :: bool

record TaskDefinition =
  def_Author :: "wstr option"
  def_Description :: "wstr option"
  def_Principal :: "TaskPrincipal option"
  def_Actions :: "TaskAction option list"
  def_Triggers :: "TaskTrigger option list"

record RegisteredTask =
  k_Name :: "wstr option"
  k_Path :: "wstr option"
  k_Enabled :: "bool option"
  k_State :: "AutorunTaskState option"
  k_LastRun :: "int option"
  k_NextRun :: "int option"
  k_LastResult :: "int option"
  k_Definition :: "TaskDefinition option"

definition or_empty :: "wstr option \<Rightarrow> wstr" where
  "or_empty s = (case s of None \<Rightarrow> [] | Some t \<Rightarrow> t)"

fun TriggerName :: "TaskTrigger \<Rightarrow> wstr" where
  "TriggerName EventTrigger = wide ''On an event''"
| "TriggerName TimeTrigger = wide ''One time''"
| "TriggerName Daily = wide ''Daily''"
| "TriggerName Weekly = wide ''Weekly''"
| "TriggerName Monthly = wide ''Monthly''"
| "TriggerName MonthlyDow = wide ''Monthly''"
| "TriggerName Idle = wide ''On idle''"
| "TriggerName Registration = wide ''At task creation''"
| "TriggerName Boot = wide ''At startup''"
| "TriggerName LogonTrigger = wide ''At log on''"
| "TriggerName SessionChange = wide ''On session change''"
| "TriggerName Custom = wide ''Custom''"
| "TriggerName OtherTrigger = wide ''Other''"

text \<open>\<open>Indirect\<close> and \<open>AccountName\<close>: \<open>load\<close> and \<open>account\<close> are the system's lookups.\<close>

definition Indirect :: "(wstr \<Rightarrow> wstr option) \<Rightarrow> wstr \<Rightarrow> wstr" where
  "Indirect load s =
     (let s = (if take 3 s = wide ''$(@'' \<and> s \<noteq> [] \<and> last s = 0x29 then substr s 2 (length s - 3) else s)
      in if take 1 s = wide ''@'' then (case load s of None \<Rightarrow> s | Some t \<Rightarrow> t) else s)"

definition AccountName :: "(wstr \<Rightarrow> (wstr \<times> wstr) option) \<Rightarrow> wstr \<Rightarrow> wstr" where
  "AccountName account sid =
     (if take 4 sid \<noteq> wide ''S-1-'' then sid
      else case account sid of
        None \<Rightarrow> sid
      | Some (domain, name) \<Rightarrow> if domain \<noteq> [] then domain @ [0x5C] @ name else name)"

definition ComServer :: "Files \<Rightarrow> 'r RegistryApi \<Rightarrow> 'r \<Rightarrow> wstr \<Rightarrow> wstr" where
  "ComServer fs api r clsid =
     (let key = wide_path ''CLSID/'' @ clsid @ wide_path ''/InprocServer32''
      in if \<not> Opens api r HKCR key then []
         else case ReadValue api r HKCR key [] of None \<Rightarrow> [] | Some v \<Rightarrow> FindFile fs (Expand fs (String_of v)) None)"

definition quoted_path :: "wstr \<Rightarrow> wstr" where
  "quoted_path path = (if 0x20 \<in> set path \<and> hd path \<noteq> 0x22 then [0x22] @ path @ [0x22] else path)"

text \<open>An action's command and image.\<close>

fun action_text :: "Files \<Rightarrow> 'r RegistryApi \<Rightarrow> 'r \<Rightarrow> TaskAction \<Rightarrow> wstr \<times> wstr" where
  "action_text fs api r (ExecAction path args) =
     (let path = or_empty path; args = or_empty args
      in (if args = [] then path else path @ [0x20] @ args,
          ResolveImage fs (if args = [] then quoted_path path else quoted_path path @ [0x20] @ args)))"
| "action_text fs api r (ComHandler clsid) =
     (case clsid of None \<Rightarrow> ([], []) | Some c \<Rightarrow> (wide ''COM handler '' @ c, ComServer fs api r c))"
| "action_text fs api r SendEmail = (wide ''Send an e-mail'', [])"
| "action_text fs api r ShowMessage = (wide ''Show a message'', [])"

definition add_action :: "Files \<Rightarrow> 'r RegistryApi \<Rightarrow> 'r \<Rightarrow> TaskAction \<Rightarrow> AutorunEntry \<Rightarrow> AutorunEntry" where
  "add_action fs api r action e =
     (let (command, path) = action_text fs api r action;
          e = (if command \<noteq> [] then e\<lparr>Command := Command e @ (if Command e = [] then [] else wide ''; '') @ command\<rparr> else e)
      in if ImagePath e = [] then e\<lparr>ImagePath := path\<rparr> else e)"

text \<open>Each kind of trigger once, with how many there are.\<close>

fun count_kind :: "wstr \<Rightarrow> (wstr \<times> nat) list \<Rightarrow> (wstr \<times> nat) list" where
  "count_kind name [] = [(name, 1)]"
| "count_kind name ((k, n) # kinds) = (if k = name then (k, n + 1) # kinds else (k, n) # count_kind name kinds)"

definition add_kind :: "wstr \<Rightarrow> wstr \<times> nat \<Rightarrow> wstr" where
  "add_kind acc = (\<lambda>(name, n).
     acc @ (if acc \<noteq> [] then wide '', '' else []) @ name @ (if n > 1 then wide '' ('' @ to_wstring n @ wide '')'' else []))"

definition triggers_text :: "TaskTrigger option list \<Rightarrow> wstr" where
  "triggers_text triggers =
     foldl add_kind [] (fold count_kind (map TriggerName (List.map_filter (\<lambda>t. t) triggers)) [])"

definition run_as :: "(wstr \<Rightarrow> (wstr \<times> wstr) option) \<Rightarrow> TaskPrincipal \<Rightarrow> wstr" where
  "run_as account p =
     (let user = (case UserId p of None \<Rightarrow> [] | Some u \<Rightarrow> AccountName account u);
          name = (if user = [] then (case GroupId p of None \<Rightarrow> [] | Some g \<Rightarrow> AccountName account g) else user)
      in if Highest p \<and> name \<noteq> [] then name @ wide '' (highest)'' else name)"

record Lookups =
  LoadIndirect :: "wstr \<Rightarrow> wstr option"
  Account :: "wstr \<Rightarrow> (wstr \<times> wstr) option"

definition add_definition ::
  "Files \<Rightarrow> 'r RegistryApi \<Rightarrow> Lookups \<Rightarrow> 'r \<Rightarrow> TaskDefinition \<Rightarrow> AutorunEntry \<Rightarrow> AutorunEntry" where
  "add_definition fs api lk r d e =
     (let e = e\<lparr>Author := (case def_Author d of None \<Rightarrow> [] | Some a \<Rightarrow> Indirect (LoadIndirect lk) a),
           Details := (case def_Description d of None \<Rightarrow> [] | Some t \<Rightarrow> Indirect (LoadIndirect lk) t),
           RunAs := (case def_Principal d of None \<Rightarrow> [] | Some p \<Rightarrow> run_as (Account lk) p)\<rparr>;
          e = fold (add_action fs api r) (List.map_filter (\<lambda>a. a) (def_Actions d)) e
      in e\<lparr>Triggers := triggers_text (def_Triggers d)\<rparr>)"

definition ReadTask :: "Files \<Rightarrow> 'r RegistryApi \<Rightarrow> Lookups \<Rightarrow> 'r \<Rightarrow> wstr \<Rightarrow> RegisteredTask \<Rightarrow> AutorunEntry" where
  "ReadTask fs api lk r folder t =
     (let lastRun = (case k_LastRun t of None \<Rightarrow> 0 | Some d \<Rightarrow> d);
          e = new_entry\<lparr>Category := ScheduledTask, Store := TaskStore, Location := folder, Deletable := True,
            Name := or_empty (k_Name t), TaskPath := or_empty (k_Path t), Enabled := k_Enabled t,
            TaskState := (case k_State t of None \<Rightarrow> UnknownState | Some s \<Rightarrow> s), LastRun := lastRun,
            NextRun := (case k_NextRun t of None \<Rightarrow> 0 | Some d \<Rightarrow> d),
            LastResult := (if lastRun \<noteq> 0 then k_LastResult t else None)\<rparr>
      in case k_Definition t of None \<Rightarrow> e | Some d \<Rightarrow> add_definition fs api lk r d e)"

text \<open>A folder with its tasks and folders; those more than 32 deep are left out.\<close>

datatype TaskFolder = TaskFolder wstr "RegisteredTask option list" "TaskFolder option list"

fun AddTaskFolder :: "Files \<Rightarrow> 'r RegistryApi \<Rightarrow> Lookups \<Rightarrow> 'r \<Rightarrow> nat \<Rightarrow> TaskFolder \<Rightarrow> AutorunEntry list" where
  "AddTaskFolder fs api lk r depth (TaskFolder path tasks folders) =
     map (ReadTask fs api lk r path) (List.map_filter (\<lambda>t. t) tasks) @
     (if depth > 32 then []
      else concat (map (\<lambda>f. case f of None \<Rightarrow> [] | Some folder \<Rightarrow> AddTaskFolder fs api lk r (depth + 1) folder) folders))"

definition AddTasks :: "Files \<Rightarrow> 'r RegistryApi \<Rightarrow> Lookups \<Rightarrow> 'r \<Rightarrow> TaskFolder option \<Rightarrow> AutorunEntry list" where
  "AddTasks fs api lk r scheduler = (case scheduler of None \<Rightarrow> [] | Some folder \<Rightarrow> AddTaskFolder fs api lk r 0 folder)"

section \<open>All entries\<close>

text \<open>What the enumeration reads besides the registry.\<close>

record 'r World =
  w_Files :: Files
  w_Registry :: "'r RegistryApi"
  w_Services :: "'r ServiceApi"
  w_Lookups :: Lookups
  w_Folders :: "wstr \<Rightarrow> FolderItem list option"
  w_Manifests :: Manifests
  w_Packages :: "PackageInfo list option"
  w_Scheduler :: "TaskFolder option"

definition mark_found :: "Files \<Rightarrow> AutorunEntry \<Rightarrow> AutorunEntry" where
  "mark_found fs e = e\<lparr>ImageFound := (ImagePath e \<noteq> [] \<and> IsFile fs (ImagePath e))\<rparr>"

definition Enum :: "'r World \<Rightarrow> 'r \<Rightarrow> AutorunEntry list" where
  "Enum w r =
     (let fs = w_Files w; api = w_Registry w
      in map (mark_found fs)
           (AddRunKeys fs api r @
            AddStartupFolders fs (w_Folders w) api r @
            AddActiveSetup fs api r @
            AddPackageTasks (w_Manifests w) (LoadIndirect (w_Lookups w)) api r (w_Packages w) @
            AddTasks fs api (w_Lookups w) r (w_Scheduler w) @
            AddServices fs api (w_Services w) r @
            AddWinlogon fs api r @
            AddAppInit fs api r @
            AddBootExecute fs api r @
            AddLsa fs api r @
            AddHijacks fs api r))"

section \<open>Enabling and deleting\<close>

definition ERROR_SUCCESS :: u32 where "ERROR_SUCCESS = 0"
definition ERROR_ACCESS_DENIED :: u32 where "ERROR_ACCESS_DENIED = 5"
definition ERROR_NOT_SUPPORTED :: u32 where "ERROR_NOT_SUPPORTED = 50"
definition ERROR_ACCESS_DISABLED_BY_POLICY :: u32 where "ERROR_ACCESS_DISABLED_BY_POLICY = 1260"

definition SetHResult :: "u32 \<Rightarrow> u32" where
  "SetHResult hr =
     (if hr AND 0x80000000 = 0 then ERROR_SUCCESS
      else if drop_bit 16 hr AND 0x1FFF = 7 then hr AND 0xFFFF else hr)"

definition ApprovedName :: "AutorunEntry \<Rightarrow> wstr" where
  "ApprovedName e = (if Store e = StartupFile then wide ''StartupFolder'' else if Wow64 e then wide ''Run32'' else wide ''Run'')"

definition dword_bytes :: "u32 \<Rightarrow> bytes" where
  "dword_bytes v = le_bytes 4 (unat v)"

text \<open>As Task Manager writes it: 2 enabled; 3 disabled, with the time.\<close>

definition approved_bytes :: "bool \<Rightarrow> u64 \<Rightarrow> bytes" where
  "approved_bytes enable now =
     (if enable then [2, 0, 0, 0, 0, 0, 0, 0, 0, 0, 0, 0] else [3, 0, 0, 0] @ le_bytes 8 (unat now))"

text \<open>The task scheduler's calls: the code of the call on the task at a path. \<open>now\<close> and \<open>seconds\<close> are the time.\<close>

record Scheduler =
  PutEnabled :: "wstr \<Rightarrow> bool \<Rightarrow> u32"
  DeleteTask :: "wstr \<Rightarrow> u32"

definition set_approved :: "'r RegistryApi \<Rightarrow> u64 \<Rightarrow> AutorunEntry \<Rightarrow> bool \<Rightarrow> 'r \<Rightarrow> u32 \<times> 'r" where
  "set_approved api now e enable r =
     (let key = ApprovedKey @ ApprovedName e; (err, r) = CreateKey api (EntryRoot e) key r
      in if err \<noteq> ERROR_SUCCESS then (err, r)
         else SetValue api (EntryRoot e) key \<lparr>v_Name = ValueName e, v_Type = REG_BINARY, v_Data = approved_bytes enable now\<rparr> r)"

definition set_package_task :: "'r RegistryApi \<Rightarrow> u32 \<Rightarrow> AutorunEntry \<Rightarrow> bool \<Rightarrow> 'r \<Rightarrow> u32 \<times> 'r" where
  "set_package_task api seconds e enable r =
     (let (err, r) = CreateKey api HKCU (SubKey e) r
      in if err \<noteq> ERROR_SUCCESS then (err, r)
         else
           (let state = ReadDword api r HKCU (SubKey e) (wide ''State'')
            in if state = Some TaskDisabledByPolicy \<or> state = Some TaskEnabledByPolicy then (ERROR_ACCESS_DISABLED_BY_POLICY, r)
               else
                 (let (err, r) = SetValue api HKCU (SubKey e)
                        \<lparr>v_Name = wide ''State'', v_Type = REG_DWORD,
                         v_Data = dword_bytes (if enable then TaskEnabled else TaskDisabledByUser)\<rparr> r
                  in if err \<noteq> ERROR_SUCCESS then (err, r)
                     else (ERROR_SUCCESS, snd (SetValue api HKCU (SubKey e)
                        \<lparr>v_Name = (if enable then wide ''UserEnabledStartupOnce'' else wide ''LastDisabledTime''), v_Type = REG_DWORD,
                         v_Data = dword_bytes (if enable then 1 else seconds)\<rparr> r)))))"

definition SetEnabled ::
  "'r RegistryApi \<Rightarrow> Scheduler \<Rightarrow> u64 \<Rightarrow> u32 \<Rightarrow> AutorunEntry \<Rightarrow> bool \<Rightarrow> 'r \<Rightarrow> u32 \<times> 'r" where
  "SetEnabled api sch now seconds e enable r =
     (case Store e of
        RegistryStore \<Rightarrow> if Enabled e = None then (ERROR_NOT_SUPPORTED, r) else set_approved api now e enable r
      | StartupFile \<Rightarrow> if Enabled e = None then (ERROR_NOT_SUPPORTED, r) else set_approved api now e enable r
      | TaskStore \<Rightarrow> (SetHResult (PutEnabled sch (TaskPath e) enable), r)
      | PackageTask \<Rightarrow> set_package_task api seconds e enable r
      | ServiceStore \<Rightarrow> (ERROR_NOT_SUPPORTED, r))"

text \<open>\<open>deleteFile\<close> is what \<open>DeleteFile\<close> gives for a path. The state under StartupApproved goes with the entry.\<close>

definition drop_approved :: "'r RegistryApi \<Rightarrow> AutorunEntry \<Rightarrow> 'r \<Rightarrow> 'r" where
  "drop_approved api e r =
     (let key = ApprovedKey @ ApprovedName e
      in if Enabled e \<noteq> None \<and> OpensForWrite api r (EntryRoot e) key
         then snd (DeleteValue api (EntryRoot e) key (ValueName e) r) else r)"

definition Delete ::
  "'r RegistryApi \<Rightarrow> Scheduler \<Rightarrow> (wstr \<Rightarrow> u32) \<Rightarrow> AutorunEntry \<Rightarrow> 'r \<Rightarrow> u32 \<times> 'r" where
  "Delete api sch deleteFile e r =
     (if \<not> Deletable e then (ERROR_NOT_SUPPORTED, r)
      else case Store e of
        RegistryStore \<Rightarrow>
          (if \<not> OpensForWrite api r (EntryRoot e) (SubKey e) then (ERROR_ACCESS_DENIED, r)
           else
             (let (err, r) = DeleteValue api (EntryRoot e) (SubKey e) (ValueName e) r
              in if err = ERROR_SUCCESS then (err, drop_approved api e r) else (err, r)))
      | StartupFile \<Rightarrow>
          (let err = deleteFile (Location e @ [0x5C] @ Name e)
           in if err = ERROR_SUCCESS then (err, drop_approved api e r) else (err, r))
      | TaskStore \<Rightarrow> (SetHResult (DeleteTask sch (TaskPath e)), r)
      | _ \<Rightarrow> (ERROR_NOT_SUPPORTED, r))"

section \<open>Names\<close>

fun CategoryName :: "AutorunCategory \<Rightarrow> string" where
  "CategoryName Logon = ''Logon''"
| "CategoryName ScheduledTask = ''Scheduled Task''"
| "CategoryName Service = ''Service''"
| "CategoryName Driver = ''Driver''"
| "CategoryName Winlogon = ''Winlogon''"
| "CategoryName AppInit = ''AppInit''"
| "CategoryName BootExecute = ''Boot Execute''"
| "CategoryName Lsa = ''LSA Provider''"
| "CategoryName ImageHijack = ''Image Hijack''"

fun TaskStateName :: "AutorunTaskState \<Rightarrow> string" where
  "TaskStateName DisabledState = ''Disabled''"
| "TaskStateName QueuedState = ''Queued''"
| "TaskStateName ReadyState = ''Ready''"
| "TaskStateName RunningState = ''Running''"
| "TaskStateName UnknownState = []"

end
