(* ===== verification/Autorun_State.thy ===== *)
theory Autorun_State
  imports Autoruns
begin

text \<open>
  Enabling and deleting the entries of the Run keys and the startup folders (\<open>SetEnabled\<close> and \<open>Delete\<close> of
  \<open>WinSys/Autoruns.cpp\<close>) seen by the next enumeration. What the registry's calls do is stated by \<open>create_laws\<close>,
  \<open>set_laws\<close> and \<open>delete_laws\<close>, which a registry in memory satisfies.
\<close>

section \<open>What the registry does\<close>

text \<open>
  The documented behaviour of the registry's calls that the entries' state depends on: a call on one key leaves the
  others alone (but for the keys above a new one), names are compared without case, a value that is set is read back,
  one that is deleted is gone, a key that could not be opened has no values once it is made.
\<close>

definition same_key :: "'r RegistryApi \<Rightarrow> 'r \<Rightarrow> 'r \<Rightarrow> Root \<Rightarrow> wstr \<Rightarrow> bool" where
  "same_key api r r' root key \<longleftrightarrow>
     Opens api r' root key = Opens api r root key \<and> EnumValues api r' root key = EnumValues api r root key \<and>
     KeyTime api r' root key = KeyTime api r root key \<and> QueryValue api r' root key = QueryValue api r root key \<and>
     OpensForWrite api r' root key = OpensForWrite api r root key"

definition above :: "wstr \<Rightarrow> wstr \<Rightarrow> bool" where
  "above key' key \<longleftrightarrow> same_name key' key \<or> same_start key (key' @ [0x5C]) (length key' + 1)"

definition machine_or_user :: "Root \<Rightarrow> bool" where
  "machine_or_user root \<longleftrightarrow> root = HKLM \<or> root = HKCU"

definition create_laws :: "'r RegistryApi \<Rightarrow> bool" where
  "create_laws api \<longleftrightarrow>
     (\<forall>root key r r'. machine_or_user root \<and> CreateKey api root key r = (ERROR_SUCCESS, r') \<longrightarrow>
        Opens api r' root key \<and>
        QueryValue api r' root key = (if Opens api r root key then QueryValue api r root key else (\<lambda>_. None)) \<and>
        (\<forall>root' key'. machine_or_user root' \<and> (root' \<noteq> root \<or> \<not> above key' key) \<longrightarrow> same_key api r r' root' key'))"

definition set_laws :: "'r RegistryApi \<Rightarrow> bool" where
  "set_laws api \<longleftrightarrow>
     (\<forall>root key v r r'. machine_or_user root \<and> SetValue api root key v r = (ERROR_SUCCESS, r') \<longrightarrow>
        Opens api r' root key = Opens api r root key \<and>
        (\<forall>n. QueryValue api r' root key n =
           (if same_name n (v_Name v) then Some (v\<lparr>v_Name := n\<rparr>) else QueryValue api r root key n)) \<and>
        (\<forall>root' key'. machine_or_user root' \<and> (root' \<noteq> root \<or> \<not> same_name key' key) \<longrightarrow> same_key api r r' root' key'))"

definition delete_laws :: "'r RegistryApi \<Rightarrow> bool" where
  "delete_laws api \<longleftrightarrow>
     (\<forall>root key n r err r'. machine_or_user root \<and> DeleteValue api root key n r = (err, r') \<longrightarrow>
        (if err = ERROR_SUCCESS then
           Opens api r' root key = Opens api r root key \<and> OpensForWrite api r' root key = OpensForWrite api r root key \<and>
           EnumValues api r' root key = filter (\<lambda>v. \<not> same_name (v_Name v) n) (EnumValues api r root key) \<and>
           (\<forall>n'. QueryValue api r' root key n' = (if same_name n' n then None else QueryValue api r root key n')) \<and>
           (\<forall>root' key'. machine_or_user root' \<and> (root' \<noteq> root \<or> \<not> same_name key' key) \<longrightarrow> same_key api r r' root' key')
         else r' = r))"

section \<open>Enabling is seen\<close>

definition approved_names :: "wstr list" where
  "approved_names = [wide ''Run'', wide ''Run32'', wide ''StartupFolder'']"

lemma ApprovedName_in: "ApprovedName e \<in> set approved_names"
  by (simp add: ApprovedName_def approved_names_def)

text \<open>The keys are apart: those of the state from one another and from the Run keys. They differ at a place.\<close>

lemma c_str_append: "0 \<notin> set x \<Longrightarrow> c_str (x @ y) = x @ c_str y"
  by (induction x) (auto simp: c_str_def not_nul_def)

lemma apart_at:
  assumes "0 \<notin> set a" and "0 \<notin> set b" and "i < length a" and "i < length b" and "lower (a ! i) \<noteq> lower (b ! i)"
  shows "\<not> same_name a b \<and> \<not> above a b"
proof -
  have c: "c_str x = x" if "0 \<notin> set x" for x :: wstr using c_str_append [OF that, of "[]"] by (simp add: c_str_def)
  have a: "\<not> same_name a b"
  proof
    assume "same_name a b"
    then have "map lower a ! i = map lower b ! i" using c assms(1,2) by (simp add: same_name_def)
    then show False using assms by simp
  qed
  have "\<not> same_start b (a @ [0x5C]) (length a + 1)"
  proof
    assume "same_start b (a @ [0x5C]) (length a + 1)"
    then have "map lower (take (length a + 1) b) ! i = map lower (a @ [0x5C]) ! i"
      using c [of b] c [of "a @ [0x5C]"] assms(1,2) by (simp add: same_start_def)
    then show False using assms by (simp add: nth_append)
  qed
  then show ?thesis using a by (simp add: above_def)
qed

lemma approved_keys_apart:
  assumes "a \<in> set approved_names" and "b \<in> set approved_names" and "a \<noteq> b"
  shows "\<not> same_name (ApprovedKey @ a) (ApprovedKey @ b) \<and> \<not> above (ApprovedKey @ a) (ApprovedKey @ b)"
proof -
  have "\<forall>a \<in> set approved_names. \<forall>b \<in> set approved_names. a = b \<or> \<not> same_name a b \<and> \<not> above a b"
    by code_simp
  then have apart: "\<not> same_name a b \<and> \<not> above a b" using assms by blast
  have key: "0 \<notin> set ApprovedKey" by (simp add: ApprovedKey_def wide_path_def)
  have "same_name (ApprovedKey @ a) (ApprovedKey @ b) \<longleftrightarrow> same_name a b"
    by (simp add: same_name_def c_str_append key)
  moreover have "above (ApprovedKey @ a) (ApprovedKey @ b) \<longleftrightarrow> above a b"
    by (simp add: same_start_def above_def c_str_append key calculation)
  ultimately show ?thesis using apart by simp
qed

lemma approved_key_long: "a \<in> set approved_names \<Longrightarrow> 0 \<notin> set (ApprovedKey @ a) \<and> 42 < length (ApprovedKey @ a)"
  by (auto simp: ApprovedKey_def approved_names_def wide_path_def wide_def)

lemma run_keys_apart:
  "k \<in> set run_keys \<Longrightarrow> a \<in> set approved_names \<Longrightarrow>
   \<not> same_name (fst (snd k)) (ApprovedKey @ a) \<and> \<not> above (fst (snd k)) (ApprovedKey @ a)"
proof -
  have *: "\<forall>k \<in> set run_keys. 0 \<notin> set (fst (snd k)) \<and> 42 < length (fst (snd k)) \<and>
      (lower (fst (snd k) ! 9) \<noteq> lower (ApprovedKey ! 9) \<or> lower (fst (snd k) ! 42) \<noteq> lower (ApprovedKey ! 42))"
    by code_simp
  have long: "9 < length ApprovedKey" "42 < length ApprovedKey" by (simp_all add: ApprovedKey_def wide_path_def)
  assume k: "k \<in> set run_keys" and a: "a \<in> set approved_names"
  consider "lower (fst (snd k) ! 9) \<noteq> lower (ApprovedKey ! 9)" | "lower (fst (snd k) ! 42) \<noteq> lower (ApprovedKey ! 42)"
    using * k by blast
  then show ?thesis
  proof cases
    case 1
    then show ?thesis
      using * k approved_key_long [OF a] long by (intro apart_at [of _ _ 9]) (auto simp: nth_append)
  next
    case 2
    then show ?thesis
      using * k approved_key_long [OF a] long by (intro apart_at [of _ _ 42]) (auto simp: nth_append)
  qed
qed

lemma same_key_trans: "same_key api r r' root key \<Longrightarrow> same_key api r' r'' root key \<Longrightarrow> same_key api r r'' root key"
  by (simp add: same_key_def)

lemma approved_bytes_state:
  "approved_state (Some \<lparr>v_Name = n, v_Type = REG_BINARY, v_Data = approved_bytes enable now\<rparr>) = enable"
  by (simp add: approved_state_def approved_bytes_def)

lemma set_approved_effect:
  assumes "create_laws api" and "set_laws api" and "machine_or_user (EntryRoot e)"
    and "set_approved api now e enable r = (ERROR_SUCCESS, r')" and root: "machine_or_user root"
  shows "a \<in> set approved_names \<Longrightarrow> IsApproved api r' root a n =
      (if root = EntryRoot e \<and> a = ApprovedName e \<and> same_name n (ValueName e) then enable else IsApproved api r root a n)"
    and "k \<in> set run_keys \<Longrightarrow> same_key api r r' root (fst (snd k))"
proof -
  let ?key = "ApprovedKey @ ApprovedName e"
  let ?v = "\<lparr>v_Name = ValueName e, v_Type = REG_BINARY, v_Data = approved_bytes enable now\<rparr>"
  obtain r1 where c: "CreateKey api (EntryRoot e) ?key r = (ERROR_SUCCESS, r1)" and s: "SetValue api (EntryRoot e) ?key ?v r1 = (ERROR_SUCCESS, r')"
    using assms(4) by (auto simp: set_approved_def Let_def split: prod.splits if_splits)
  have made: "Opens api r1 (EntryRoot e) ?key"
    "QueryValue api r1 (EntryRoot e) ?key = (if Opens api r (EntryRoot e) ?key then QueryValue api r (EntryRoot e) ?key else (\<lambda>_. None))"
    "\<And>root' key'. machine_or_user root' \<Longrightarrow> root' \<noteq> EntryRoot e \<or> \<not> above key' ?key \<Longrightarrow> same_key api r r1 root' key'"
    using assms(1,3) c unfolding create_laws_def by blast+
  have put: "Opens api r' (EntryRoot e) ?key = Opens api r1 (EntryRoot e) ?key"
    "\<And>n. QueryValue api r' (EntryRoot e) ?key n =
      (if same_name n (v_Name ?v) then Some (?v\<lparr>v_Name := n\<rparr>) else QueryValue api r1 (EntryRoot e) ?key n)"
    "\<And>root' key'. machine_or_user root' \<Longrightarrow> root' \<noteq> EntryRoot e \<or> \<not> same_name key' ?key \<Longrightarrow> same_key api r1 r' root' key'"
    using assms(2,3) s unfolding set_laws_def by blast+
  show "same_key api r r' root (fst (snd k))" if "k \<in> set run_keys" for k
    using run_keys_apart [OF that ApprovedName_in [of e]] made(3) [OF root] put(3) [OF root] by (blast intro: same_key_trans)
  show "IsApproved api r' root a n =
      (if root = EntryRoot e \<and> a = ApprovedName e \<and> same_name n (ValueName e) then enable else IsApproved api r root a n)"
    if a: "a \<in> set approved_names"
  proof (cases "root = EntryRoot e \<and> a = ApprovedName e")
    case True
    then show ?thesis
      using made(1,2) put(1) put(2) [of n] approved_bytes_state [of n enable now]
      by (simp add: IsApproved_def ReadValue_def approved_state_def split: if_splits)
  next
    case False
    then have "same_key api r r' root (ApprovedKey @ a)"
      using approved_keys_apart [OF a ApprovedName_in [of e]] made(3) [OF root] put(3) [OF root] by (blast intro: same_key_trans)
    then show ?thesis using False by (auto simp: IsApproved_def ReadValue_def same_key_def)
  qed
qed

text \<open>What enabling does to the entries: those with the state that was set have the new one.\<close>

definition has_state_of :: "AutorunEntry \<Rightarrow> AutorunEntry \<Rightarrow> bool" where
  "has_state_of e x \<longleftrightarrow>
     EntryRoot x = EntryRoot e \<and> ApprovedName x = ApprovedName e \<and> same_name (ValueName x) (ValueName e) \<and> Enabled x \<noteq> None"

definition with_state :: "AutorunEntry \<Rightarrow> bool \<Rightarrow> AutorunEntry \<Rightarrow> AutorunEntry" where
  "with_state e enable x = (if has_state_of e x then x\<lparr>Enabled := Some enable\<rparr> else x)"

lemma run_key_facts: "(root, subKey, approved, wow64) \<in> set run_keys \<Longrightarrow>
  (case approved of None \<Rightarrow> True | Some a \<Rightarrow> a = (if wow64 then wide ''Run32'' else wide ''Run''))"
proof -
  have "\<forall>(root, subKey, approved, wow64) \<in> set run_keys.
      case approved of None \<Rightarrow> True | Some a \<Rightarrow> a = (if wow64 then wide ''Run32'' else wide ''Run'')" by code_simp
  then show "(root, subKey, approved, wow64) \<in> set run_keys \<Longrightarrow> ?thesis" by blast
qed

lemma new_entry_simps [simp]:
  "Store (RegistryEntry fs api r c root key n cmd) = RegistryStore" "EntryRoot (RegistryEntry fs api r c root key n cmd) = root"
  "ValueName (RegistryEntry fs api r c root key n cmd) = n" "SubKey (RegistryEntry fs api r c root key n cmd) = key"
  by (simp_all add: RegistryEntry_def)

lemma run_key_root: "k \<in> set run_keys \<Longrightarrow> machine_or_user (fst k)"
  by (auto simp: run_keys_def machine_or_user_def)

text \<open>An entry that is enabled or disabled: the calls it makes.\<close>

definition enables ::
  "'r RegistryApi \<Rightarrow> Scheduler \<Rightarrow> u64 \<Rightarrow> u32 \<Rightarrow> AutorunEntry \<Rightarrow> bool \<Rightarrow> 'r \<Rightarrow> 'r \<Rightarrow> bool" where
  "enables api sch now seconds e enable r r' \<longleftrightarrow>
     create_laws api \<and> set_laws api \<and> machine_or_user (EntryRoot e) \<and> (Store e = RegistryStore \<or> Store e = StartupFile) \<and>
     SetEnabled api sch now seconds e enable r = (ERROR_SUCCESS, r')"

lemma enables_effect:
  assumes "enables api sch now seconds e enable r r'" and "machine_or_user root"
  shows "a \<in> set approved_names \<Longrightarrow> IsApproved api r' root a n =
      (if root = EntryRoot e \<and> a = ApprovedName e \<and> same_name n (ValueName e) then enable else IsApproved api r root a n)"
    and "k \<in> set run_keys \<Longrightarrow> same_key api r r' root (fst (snd k))"
proof -
  have "set_approved api now e enable r = (ERROR_SUCCESS, r')"
    using assms(1) by (auto simp: enables_def SetEnabled_def ERROR_SUCCESS_def ERROR_NOT_SUPPORTED_def split: if_splits)
  note effect = set_approved_effect [OF _ _ _ this assms(2)]
  show "a \<in> set approved_names \<Longrightarrow> IsApproved api r' root a n =
      (if root = EntryRoot e \<and> a = ApprovedName e \<and> same_name n (ValueName e) then enable else IsApproved api r root a n)"
    using effect(1) assms(1) by (simp add: enables_def)
  show "k \<in> set run_keys \<Longrightarrow> same_key api r r' root (fst (snd k))"
    using effect(2) assms(1) by (simp add: enables_def)
qed

lemma concat_map_cong: "(\<And>x. x \<in> set xs \<Longrightarrow> f x = map g (h x)) \<Longrightarrow> concat (map f xs) = map g (concat (map h xs))"
  by (induction xs) auto

lemma run_entry_set:
  assumes "enables api sch now seconds e enable r r'" and "k \<in> set run_keys"
  shows "run_entry fs api r' k v = map (with_state e enable) (run_entry fs api r k v)"
proof -
  obtain root subKey approved wow64 where k: "k = (root, subKey, approved, wow64)" by (metis prod.exhaust)
  have root: "machine_or_user root" using run_key_root [OF assms(2)] by (simp add: k)
  have entry: "RegistryEntry fs api r' Logon root subKey (v_Name v) (String_of v) = RegistryEntry fs api r Logon root subKey (v_Name v) (String_of v)"
    using enables_effect(2) [OF assms(1) root assms(2)] by (simp add: RegistryEntry_def same_key_def k)
  show ?thesis
  proof (cases approved)
    case None
    then show ?thesis using entry by (simp add: run_entry_def k with_state_def has_state_of_def)
  next
    case (Some a)
    then have a: "a = (if wow64 then wide ''Run32'' else wide ''Run'')" using run_key_facts assms(2) k by fastforce
    then have "a \<in> set approved_names" by (simp add: approved_names_def)
    note ap = enables_effect(1) [OF assms(1) root this, of "v_Name v"]
    have "ApprovedName (x\<lparr>Wow64 := wow64, Deletable := True, Enabled := b\<rparr>) = a" if "Store x = RegistryStore" for x b
      using that a by (simp add: ApprovedName_def)
    then show ?thesis using entry Some ap by (simp add: run_entry_def k with_state_def has_state_of_def)
  qed
qed

lemma run_entries_set:
  assumes "enables api sch now seconds e enable r r'" and "k \<in> set run_keys"
  shows "run_key_entries fs api r' k = map (with_state e enable) (run_key_entries fs api r k)"
proof -
  have "EnumValues api r' (fst k) (fst (snd k)) = EnumValues api r (fst k) (fst (snd k))"
    "Opens api r' (fst k) (fst (snd k)) = Opens api r (fst k) (fst (snd k))"
    using enables_effect(2) [OF assms(1) run_key_root [OF assms(2)] assms(2)] by (simp_all add: same_key_def)
  moreover have "concat (map (run_entry fs api r' k) vs) = map (with_state e enable) (concat (map (run_entry fs api r k) vs))" for vs
    by (rule concat_map_cong) (rule run_entry_set [OF assms])
  ultimately show ?thesis by (simp add: run_key_entries_def)
qed

text \<open>The entry of a file, its state aside.\<close>

lemma folder_entry_state:
  assumes "IsApproved api r' root (wide ''StartupFolder'') (f_Name f) =
      (if root = EntryRoot e \<and> wide ''StartupFolder'' = ApprovedName e \<and> same_name (f_Name f) (ValueName e) then enable
       else IsApproved api r root (wide ''StartupFolder'') (f_Name f))"
  shows "folder_entry fs api r' folder root f = map (with_state e enable) (folder_entry fs api r folder root f)"
proof (cases "f_Directory f \<or> same_name (f_Name f) (wide ''desktop.ini'')")
  case True
  then show ?thesis by (simp add: folder_entry_def)
next
  case False
  have w: "with_state e enable x = (if EntryRoot e = root \<and> ApprovedName e = wide ''StartupFolder'' \<and> same_name (f_Name f) (ValueName e)
      then x\<lparr>Enabled := Some enable\<rparr> else x)"
    if "Store x = StartupFile" "EntryRoot x = root" "ValueName x = f_Name f" "Enabled x \<noteq> None" for x
    using that by (auto simp: with_state_def has_state_of_def ApprovedName_def)
  consider "\<not> EndsWith (f_Name f) (wide ''.lnk'')" | "EndsWith (f_Name f) (wide ''.lnk'')" "f_Link f = None"
    | target args where "EndsWith (f_Name f) (wide ''.lnk'')" "f_Link f = Some (target, args)"
    by (cases "f_Link f") auto
  then show ?thesis
  proof cases
    case 1
    then show ?thesis using False assms by (simp add: folder_entry_def Let_def w eq_commute)
  next
    case 2
    then show ?thesis using False assms by (simp add: folder_entry_def Let_def w eq_commute)
  next
    case 3
    then show ?thesis using False assms by (simp add: folder_entry_def Let_def w eq_commute)
  qed
qed

lemma folder_entries_set:
  assumes "enables api sch now seconds e enable r r'" and "machine_or_user root"
  shows "concat (map (folder_entry fs api r' folder root) items) =
    map (with_state e enable) (concat (map (folder_entry fs api r folder root) items))"
proof (rule concat_map_cong, rule folder_entry_state)
  fix f
  have "wide ''StartupFolder'' \<in> set approved_names" by (simp add: approved_names_def)
  then show "IsApproved api r' root (wide ''StartupFolder'') (f_Name f) =
      (if root = EntryRoot e \<and> wide ''StartupFolder'' = ApprovedName e \<and> same_name (f_Name f) (ValueName e) then enable
       else IsApproved api r root (wide ''StartupFolder'') (f_Name f))"
    by (rule enables_effect(1) [OF assms])
qed

lemma folder_root: "k \<in> set startup_folders \<Longrightarrow> machine_or_user (snd k)"
  by (auto simp: startup_folders_def machine_or_user_def)

lemma AddStartupFolders_set:
  assumes "enables api sch now seconds e enable r r'"
  shows "AddStartupFolders fs listing api r' = map (with_state e enable) (AddStartupFolders fs listing api r)"
  unfolding AddStartupFolders_def
proof (rule concat_map_cong)
  fix k assume "k \<in> set startup_folders"
  note set = folder_entries_set [OF assms folder_root [OF this]]
  show "(case k of (name, root) \<Rightarrow> case listing (Expand fs name) of None \<Rightarrow> []
      | Some items \<Rightarrow> concat (map (folder_entry fs api r' (Expand fs name) root) items)) =
    map (with_state e enable) (case k of (name, root) \<Rightarrow> case listing (Expand fs name) of None \<Rightarrow> []
      | Some items \<Rightarrow> concat (map (folder_entry fs api r (Expand fs name) root) items))"
    using set by (cases k; cases "listing (Expand fs (fst k))") simp_all
qed

text \<open>C9: after an entry of a Run key or a startup folder is enabled or disabled, the entries listed are the same as before
  but for that state: the entry has it, and no other does.\<close>

theorem SetEnabled_seen:
  assumes "create_laws api" and "set_laws api" and "machine_or_user (EntryRoot e)" and "Store e = RegistryStore \<or> Store e = StartupFile"
    and "SetEnabled api sch now seconds e enable r = (ERROR_SUCCESS, r')"
  shows "AddRunKeys fs api r' @ AddStartupFolders fs listing api r' =
    map (with_state e enable) (AddRunKeys fs api r @ AddStartupFolders fs listing api r)"
proof -
  have en: "enables api sch now seconds e enable r r'" using assms by (simp add: enables_def)
  have "AddRunKeys fs api r' = map (with_state e enable) (AddRunKeys fs api r)"
    unfolding AddRunKeys_def by (rule concat_map_cong) (rule run_entries_set [OF en])
  then show ?thesis using AddStartupFolders_set [OF en] by simp
qed

section \<open>A registry in memory\<close>

text \<open>
  A registry that satisfies the laws: the values of each key, by the root and the name without case.
\<close>

type_synonym memory = "Root \<times> wstr \<Rightarrow> RegistryValue list option"

definition fold_name :: "wstr \<Rightarrow> wstr" where
  "fold_name name = map lower (c_str name)"

definition values_of :: "memory \<Rightarrow> Root \<Rightarrow> wstr \<Rightarrow> RegistryValue list" where
  "values_of r root key = (case r (root, fold_name key) of None \<Rightarrow> [] | Some vs \<Rightarrow> vs)"

definition memory_registry :: "memory RegistryApi" where
  "memory_registry =
     \<lparr>Opens = (\<lambda>r root key. r (root, fold_name key) \<noteq> None),
      QueryValue = (\<lambda>r root key n. map_option (\<lambda>v. v\<lparr>v_Name := n\<rparr>) (find (\<lambda>v. same_name n (v_Name v)) (values_of r root key))),
      EnumValues = values_of,
      EnumKeys = (\<lambda>r root key. []),
      KeyTime = (\<lambda>r root key. 0),
      OpensForWrite = (\<lambda>r root key. r (root, fold_name key) \<noteq> None),
      CreateKey = (\<lambda>root key r. (0, if r (root, fold_name key) = None then r((root, fold_name key) \<mapsto> []) else r)),
      SetValue = (\<lambda>root key v r.
        if r (root, fold_name key) = None then (2, r)
        else (0, r((root, fold_name key) \<mapsto> filter (\<lambda>v'. \<not> same_name (v_Name v') (v_Name v)) (values_of r root key) @ [v]))),
      DeleteValue = (\<lambda>root key n r.
        if \<not> list_ex (\<lambda>v. same_name (v_Name v) n) (values_of r root key) then (2, r)
        else (0, r((root, fold_name key) \<mapsto> filter (\<lambda>v. \<not> same_name (v_Name v) n) (values_of r root key))))\<rparr>"

lemma same_name_fold: "same_name a b \<longleftrightarrow> fold_name a = fold_name b"
  by (simp add: same_name_def fold_name_def)

lemma find_filter_apart:
  "find (\<lambda>v. same_name n (v_Name v)) (filter (\<lambda>v. \<not> same_name (v_Name v) m) vs) =
   (if same_name n m then None else find (\<lambda>v. same_name n (v_Name v)) vs)"
  by (induction vs) (auto simp: same_name_fold)

lemma find_new: "same_name n (v_Name v) \<Longrightarrow>
  find (\<lambda>v. same_name n (v_Name v)) (filter (\<lambda>v'. \<not> same_name (v_Name v') (v_Name v)) vs @ [v]) = Some v"
  by (induction vs) (auto simp: same_name_fold)

lemma memory_create: "create_laws memory_registry"
  unfolding create_laws_def
proof (intro allI impI)
  fix root key r r'
  assume "machine_or_user root \<and> CreateKey memory_registry root key r = (ERROR_SUCCESS, r')"
  then have r': "r' = (if r (root, fold_name key) = None then r((root, fold_name key) \<mapsto> []) else r)"
    by (simp add: memory_registry_def)
  have other: "root' \<noteq> root \<or> fold_name key' \<noteq> fold_name key" if "root' \<noteq> root \<or> \<not> above key' key" for root' key'
    using that by (auto simp: above_def same_name_fold)
  have "same_key memory_registry r r' root' key'" if "root' \<noteq> root \<or> \<not> above key' key" for root' key'
    using other [OF that] by (auto simp: r' memory_registry_def same_key_def values_of_def)
  then show "Opens memory_registry r' root key \<and>
      QueryValue memory_registry r' root key =
        (if Opens memory_registry r root key then QueryValue memory_registry r root key else (\<lambda>_. None)) \<and>
      (\<forall>root' key'. machine_or_user root' \<and> (root' \<noteq> root \<or> \<not> above key' key) \<longrightarrow> same_key memory_registry r r' root' key')"
    by (auto simp: r' memory_registry_def values_of_def)
qed

lemma memory_set: "set_laws memory_registry"
  unfolding set_laws_def
proof (intro allI impI)
  fix root key v r r'
  assume "machine_or_user root \<and> SetValue memory_registry root key v r = (ERROR_SUCCESS, r')"
  then obtain vs where vs: "r (root, fold_name key) = Some vs"
    and r': "r' = r((root, fold_name key) \<mapsto> filter (\<lambda>v'. \<not> same_name (v_Name v') (v_Name v)) vs @ [v])"
    by (auto simp: memory_registry_def ERROR_SUCCESS_def values_of_def split: if_splits)
  have "QueryValue memory_registry r' root key n =
      (if same_name n (v_Name v) then Some (v\<lparr>v_Name := n\<rparr>) else QueryValue memory_registry r root key n)" for n
  proof (cases "same_name n (v_Name v)")
    case True
    then show ?thesis by (simp add: memory_registry_def values_of_def r' find_new)
  next
    case False
    then show ?thesis
      by (cases "find (\<lambda>v. same_name n (v_Name v)) vs")
        (simp_all add: memory_registry_def values_of_def r' vs find_append find_filter_apart)
  qed
  then show "Opens memory_registry r' root key = Opens memory_registry r root key \<and>
      (\<forall>n. QueryValue memory_registry r' root key n =
        (if same_name n (v_Name v) then Some (v\<lparr>v_Name := n\<rparr>) else QueryValue memory_registry r root key n)) \<and>
      (\<forall>root' key'. machine_or_user root' \<and> (root' \<noteq> root \<or> \<not> same_name key' key) \<longrightarrow> same_key memory_registry r r' root' key')"
    by (auto simp: r' vs memory_registry_def same_key_def values_of_def same_name_fold)
qed

lemma memory_delete: "delete_laws memory_registry"
  unfolding delete_laws_def
proof (intro allI impI)
  fix root key n r err r'
  assume del: "machine_or_user root \<and> DeleteValue memory_registry root key n r = (err, r')"
  let ?gone = "filter (\<lambda>v. \<not> same_name (v_Name v) n)"
  show "if err = ERROR_SUCCESS then
      Opens memory_registry r' root key = Opens memory_registry r root key \<and>
      OpensForWrite memory_registry r' root key = OpensForWrite memory_registry r root key \<and>
      EnumValues memory_registry r' root key = ?gone (EnumValues memory_registry r root key) \<and>
      (\<forall>n'. QueryValue memory_registry r' root key n' =
        (if same_name n' n then None else QueryValue memory_registry r root key n')) \<and>
      (\<forall>root' key'. machine_or_user root' \<and> (root' \<noteq> root \<or> \<not> same_name key' key) \<longrightarrow> same_key memory_registry r r' root' key')
    else r' = r"
  proof (cases "err = ERROR_SUCCESS")
    case False
    then show ?thesis using del by (auto simp: memory_registry_def ERROR_SUCCESS_def split: if_splits)
  next
    case True
    then have r': "r' = r((root, fold_name key) \<mapsto> ?gone (values_of r root key))" and "values_of r root key \<noteq> []"
      using del by (auto simp: memory_registry_def ERROR_SUCCESS_def split: if_splits)
    then have opens: "r (root, fold_name key) \<noteq> None" by (auto simp: values_of_def split: option.splits)
    have vs: "values_of r' root key = ?gone (values_of r root key)" by (simp add: r' values_of_def)
    have "same_key memory_registry r r' root' key'" if "root' \<noteq> root \<or> \<not> same_name key' key" for root' key'
      using that by (auto simp: r' memory_registry_def same_key_def values_of_def same_name_fold)
    then show ?thesis using True opens
      by (auto simp: memory_registry_def vs find_filter_apart) (simp_all add: r')
  qed
qed

definition example_run :: memory where
  "example_run = [(HKCU, fold_name (wide_path ''Software/Microsoft/Windows/CurrentVersion/Run'')) \<mapsto>
     [\<lparr>v_Name = wide ''Tool'', v_Type = REG_SZ, v_Data = [97, 0]\<rparr>, \<lparr>v_Name = wide ''Other'', v_Type = REG_SZ, v_Data = [98, 0]\<rparr>]]"

definition no_files :: Files where
  "no_files = \<lparr>IsFile = (\<lambda>_. False), SearchPath = (\<lambda>_ _. None), ExpandEnvironment = (\<lambda>s. s), SystemRoot = wide ''C:''\<rparr>"

definition example_entry :: AutorunEntry where
  "example_entry = new_entry\<lparr>EntryRoot := HKCU, SubKey := wide_path ''Software/Microsoft/Windows/CurrentVersion/Run'',
     ValueName := wide ''Tool'', Enabled := Some True, Deletable := True\<rparr>"

lemma memory_enabled:
  "SetEnabled memory_registry sch now seconds example_entry enable r =
   (ERROR_SUCCESS, snd (SetEnabled memory_registry sch now seconds example_entry enable r))"
  by (simp add: SetEnabled_def set_approved_def memory_registry_def example_entry_def new_entry_def ERROR_SUCCESS_def Let_def)

lemma SetEnabled_seen_witness:
  "let r' = snd (SetEnabled memory_registry undefined 0 0 example_entry False example_run)
   in AddRunKeys no_files memory_registry r' @ AddStartupFolders no_files (\<lambda>_. None) memory_registry r' =
     map (with_state example_entry False)
       (AddRunKeys no_files memory_registry example_run @ AddStartupFolders no_files (\<lambda>_. None) memory_registry example_run)"
  unfolding Let_def
  by (rule SetEnabled_seen [OF memory_create memory_set _ _ memory_enabled])
    (simp_all add: example_entry_def new_entry_def machine_or_user_def)

section \<open>Deleting\<close>

text \<open>An entry of a Run key is at a place: the key and the value's name.\<close>

definition same_place :: "AutorunEntry \<Rightarrow> AutorunEntry \<Rightarrow> bool" where
  "same_place e x \<longleftrightarrow> EntryRoot x = EntryRoot e \<and> SubKey x = SubKey e \<and> same_name (ValueName x) (ValueName e)"

definition untimed :: "AutorunEntry \<Rightarrow> AutorunEntry" where
  "untimed e = e\<lparr>LastModified := 0\<rparr>"

lemma run_keys_once:
  assumes "k \<in> set run_keys" and "k' \<in> set run_keys" and "fst k = fst k'" and "same_name (fst (snd k)) (fst (snd k'))"
  shows "k = k'"
proof -
  have *: "\<forall>k \<in> set run_keys. 0 \<notin> set (fst (snd k))" and
    **: "\<forall>k \<in> set run_keys. \<forall>k' \<in> set run_keys. k = k' \<or> fst k \<noteq> fst k' \<or> length (fst (snd k)) \<noteq> length (fst (snd k'))"
    by (simp_all add: run_keys_def wide_path_def)
  have "length (fst (snd k)) = length (fst (snd k'))"
  proof -
    have "c_str (fst (snd k)) = fst (snd k)" "c_str (fst (snd k')) = fst (snd k')"
      using c_str_append [of "fst (snd k)" "[]"] c_str_append [of "fst (snd k')" "[]"] * assms(1,2) by (auto simp: c_str_def)
    then show ?thesis using assms(4) by (metis same_name_def map_eq_imp_length_eq)
  qed
  then show ?thesis using assms ** by blast
qed

lemma run_keys_state_once:
  assumes "k \<in> set run_keys" and "k' \<in> set run_keys" and "fst k = fst k'"
    and "fst (snd (snd k)) = Some a" and "fst (snd (snd k')) = Some a"
  shows "k = k'"
proof -
  have "\<forall>k \<in> set run_keys. \<forall>k' \<in> set run_keys. k = k' \<or> fst k \<noteq> fst k' \<or> fst (snd (snd k)) = None \<or>
      fst (snd (snd k)) \<noteq> fst (snd (snd k'))"
    by (simp add: run_keys_def wide_path_def wide_def)
  then show ?thesis using assms by (metis option.distinct(1))
qed

text \<open>The entry of a Run key, and the effect of deleting it.\<close>

lemma run_entry_fields:
  assumes "e \<in> set (AddRunKeys fs api r)"
  obtains k where "k \<in> set run_keys" and "EntryRoot e = fst k" and "SubKey e = fst (snd k)" and "Store e = RegistryStore"
    and "Deletable e" and "Enabled e = None \<or> fst (snd (snd k)) = Some (ApprovedName e)"
proof -
  obtain k where k: "k \<in> set run_keys" "e \<in> set (run_key_entries fs api r k)" using assms by (auto simp: AddRunKeys_def)
  then obtain v where v: "e \<in> set (run_entry fs api r k v)" by (auto simp: run_key_entries_def split: if_splits)
  obtain root subKey approved wow64 where k': "k = (root, subKey, approved, wow64)" by (metis prod.exhaust)
  then have e: "e = (RegistryEntry fs api r Logon root subKey (v_Name v) (String_of v))
      \<lparr>Wow64 := wow64, Deletable := True, Enabled := map_option (\<lambda>a. IsApproved api r root a (v_Name v)) approved\<rparr>"
    using v by (simp add: run_entry_def split: if_splits)
  have "approved = None \<or> approved = Some (ApprovedName e)"
    using run_key_facts [of root subKey approved wow64] k(1) k' by (cases approved) (auto simp: e ApprovedName_def)
  then show thesis using that [of k] k(1) by (auto simp add: k' e)
qed

definition deletes :: "'r RegistryApi \<Rightarrow> AutorunEntry \<Rightarrow> 'r \<Rightarrow> 'r \<Rightarrow> bool" where
  "deletes api e r r' \<longleftrightarrow>
     (\<exists>r1. DeleteValue api (EntryRoot e) (SubKey e) (ValueName e) r = (ERROR_SUCCESS, r1) \<and> r' = drop_approved api e r1)"

lemma delete_law:
  assumes "delete_laws api" and "machine_or_user root" and "DeleteValue api root key n r = (err, r')"
  shows "err \<noteq> ERROR_SUCCESS \<Longrightarrow> r' = r"
    and "err = ERROR_SUCCESS \<Longrightarrow> Opens api r' root key = Opens api r root key"
    and "err = ERROR_SUCCESS \<Longrightarrow> EnumValues api r' root key = filter (\<lambda>v. \<not> same_name (v_Name v) n) (EnumValues api r root key)"
    and "err = ERROR_SUCCESS \<Longrightarrow> QueryValue api r' root key n' = (if same_name n' n then None else QueryValue api r root key n')"
    and "err = ERROR_SUCCESS \<Longrightarrow> machine_or_user root' \<Longrightarrow> root' \<noteq> root \<or> \<not> same_name key' key \<Longrightarrow> same_key api r r' root' key'"
  using assms(1) [unfolded delete_laws_def, rule_format, of root key n r err r'] assms(2,3) by simp_all

lemma delete_other:
  assumes "delete_laws api" and "machine_or_user root" and "machine_or_user root'"
    and "DeleteValue api root key n r = (err, r')" and "root' \<noteq> root \<or> \<not> same_name key' key"
  shows "same_key api r r' root' key'"
proof (cases "err = ERROR_SUCCESS")
  case True
  then show ?thesis by (rule delete_law(5) [OF assms(1,2,4) _ assms(3,5)])
next
  case False
  then have "r' = r" by (rule delete_law(1) [OF assms(1,2,4)])
  then show ?thesis by (simp add: same_key_def)
qed

lemma drop_approved_cases:
  obtains "drop_approved api e r = r"
  | err r' where "Enabled e \<noteq> None" "drop_approved api e r = r'"
      "DeleteValue api (EntryRoot e) (ApprovedKey @ ApprovedName e) (ValueName e) r = (err, r')"
proof (cases "Enabled e \<noteq> None \<and> OpensForWrite api r (EntryRoot e) (ApprovedKey @ ApprovedName e)")
  case True
  obtain err r' where d: "DeleteValue api (EntryRoot e) (ApprovedKey @ ApprovedName e) (ValueName e) r = (err, r')" by fastforce
  then have "drop_approved api e r = r'" using True by (simp add: drop_approved_def Let_def)
  then show ?thesis using that(2) True d by blast
next
  case False
  then show ?thesis using that(1) by (auto simp: drop_approved_def Let_def)
qed

lemma drop_approved_keys:
  assumes "delete_laws api" and "machine_or_user (EntryRoot e)" and "machine_or_user root" and "k \<in> set run_keys"
  shows "same_key api r (drop_approved api e r) root (fst (snd k))"
proof (cases rule: drop_approved_cases [of api e r])
  case 1
  then show ?thesis by (simp add: same_key_def)
next
  case (2 err r')
  then show ?thesis using delete_other [OF assms(1-3)] run_keys_apart [OF assms(4) ApprovedName_in [of e]] by simp
qed

lemma drop_approved_state:
  assumes "delete_laws api" and "machine_or_user (EntryRoot e)" and "machine_or_user root" and "a \<in> set approved_names"
    and "Enabled e = None \<or> root \<noteq> EntryRoot e \<or> a \<noteq> ApprovedName e \<or> \<not> same_name n (ValueName e)"
  shows "IsApproved api (drop_approved api e r) root a n = IsApproved api r root a n"
proof (cases rule: drop_approved_cases [of api e r])
  case 1
  then show ?thesis by simp
next
  case (2 err r')
  show ?thesis
  proof (cases "root = EntryRoot e \<and> a = ApprovedName e")
    case True
    then have n: "\<not> same_name n (ValueName e)" using assms(5) 2(1) by blast
    have "Opens api r' root (ApprovedKey @ a) = Opens api r root (ApprovedKey @ a) \<and>
        QueryValue api r' root (ApprovedKey @ a) n = QueryValue api r root (ApprovedKey @ a) n"
    proof (cases "err = ERROR_SUCCESS")
      case True': True
      then show ?thesis using delete_law(2,4) [OF assms(1,2) 2(3)] True n by simp
    next
      case False
      then have "r' = r" by (rule delete_law(1) [OF assms(1,2) 2(3)])
      then show ?thesis by simp
    qed
    then show ?thesis using 2 by (simp add: IsApproved_def ReadValue_def)
  next
    case False
    then have "same_key api r r' root (ApprovedKey @ a)"
      using delete_other [OF assms(1-3) 2(3)] approved_keys_apart [OF assms(4) ApprovedName_in [of e]] by blast
    then show ?thesis using 2 by (simp add: IsApproved_def ReadValue_def same_key_def)
  qed
qed

text \<open>Deleting the entry of a Run key: its value and its state.\<close>

lemma filter_concat_cong:
  "(\<And>x. x \<in> set xs \<Longrightarrow> map g (f x) = map g (filter P (h x))) \<Longrightarrow> map g (concat (map f xs)) = map g (filter P (concat (map h xs)))"
  by (induction xs) auto

lemma run_entry_deleted:
  assumes laws: "delete_laws api" and e: "e \<in> set (AddRunKeys fs api r)" and k: "k \<in> set run_keys"
    and del: "DeleteValue api (EntryRoot e) (SubKey e) (ValueName e) r = (ERROR_SUCCESS, r1)"
    and v: "fst k = EntryRoot e \<Longrightarrow> fst (snd k) = SubKey e \<Longrightarrow> \<not> same_name (v_Name v) (ValueName e)"
  shows "map untimed (run_entry fs api (drop_approved api e r1) k v) = map untimed (run_entry fs api r k v)"
proof -
  obtain ke where ke: "ke \<in> set run_keys" "EntryRoot e = fst ke" "SubKey e = fst (snd ke)"
    "Enabled e = None \<or> fst (snd (snd ke)) = Some (ApprovedName e)"
    using e by (rule run_entry_fields) (rule that, assumption+)
  obtain root subKey approved wow64 where k': "k = (root, subKey, approved, wow64)" by (metis prod.exhaust)
  have root: "machine_or_user (EntryRoot e)" "machine_or_user root"
    using run_key_root [OF ke(1)] run_key_root [OF k] ke(2) by (simp_all add: k')
  show ?thesis
  proof (cases approved)
    case None
    then show ?thesis by (simp add: k' run_entry_def RegistryEntry_def untimed_def)
  next
    case (Some a)
    then have "a = (if wow64 then wide ''Run32'' else wide ''Run'')" using run_key_facts k k' by fastforce
    then have a: "a \<in> set approved_names" by (simp add: approved_names_def)
    have "k = ke" if "Enabled e \<noteq> None" "root = EntryRoot e" "a = ApprovedName e"
      by (rule run_keys_state_once [OF k ke(1), of a]) (use ke that Some k' in auto)
    then have "Enabled e = None \<or> root \<noteq> EntryRoot e \<or> a \<noteq> ApprovedName e \<or> \<not> same_name (v_Name v) (ValueName e)"
      using v ke(2,3) by metis
    then have "IsApproved api (drop_approved api e r1) root a (v_Name v) = IsApproved api r1 root a (v_Name v)"
      by (rule drop_approved_state [OF laws root a])
    moreover have "same_key api r r1 root (ApprovedKey @ a)"
      by (rule delete_other [OF laws root del]) (use run_keys_apart [OF ke(1) a] ke(3) same_name_def in metis)
    then have "IsApproved api r1 root a (v_Name v) = IsApproved api r root a (v_Name v)"
      by (simp add: IsApproved_def ReadValue_def same_key_def)
    ultimately show ?thesis by (simp add: k' Some run_entry_def RegistryEntry_def untimed_def)
  qed
qed

lemma Delete_run_entry:
  assumes "Delete api sch deleteFile e r = (ERROR_SUCCESS, r')" and "e \<in> set (AddRunKeys fs api r)"
  obtains r1 where "DeleteValue api (EntryRoot e) (SubKey e) (ValueName e) r = (ERROR_SUCCESS, r1)" and "r' = drop_approved api e r1"
proof -
  have "Store e = RegistryStore" "Deletable e" using assms(2) by (auto elim: run_entry_fields)
  then show thesis
    using assms(1) that by (auto simp: Delete_def ERROR_SUCCESS_def ERROR_ACCESS_DENIED_def split: if_splits prod.splits)
qed

lemma run_entry_place:
  "x \<in> set (run_entry fs api r k v) \<Longrightarrow> EntryRoot x = fst k \<and> SubKey x = fst (snd k) \<and> ValueName x = v_Name v"
  by (cases k) (auto simp: run_entry_def split: if_splits)

lemma run_entries_deleted:
  assumes "delete_laws api" and "e \<in> set (AddRunKeys fs api r)" and "Delete api sch deleteFile e r = (ERROR_SUCCESS, r')"
    and k: "k \<in> set run_keys"
  shows "map untimed (run_key_entries fs api r' k) = map untimed (filter (\<lambda>x. \<not> same_place e x) (run_key_entries fs api r k))"
proof -
  obtain r1 where del: "DeleteValue api (EntryRoot e) (SubKey e) (ValueName e) r = (ERROR_SUCCESS, r1)" and r': "r' = drop_approved api e r1"
    using assms(3,2) by (rule Delete_run_entry)
  obtain ke where ke: "ke \<in> set run_keys" "EntryRoot e = fst ke" "SubKey e = fst (snd ke)"
    using assms(2) by (rule run_entry_fields) (rule that, assumption+)
  have roots: "machine_or_user (EntryRoot e)" "machine_or_user (fst k)" using run_key_root [OF ke(1)] run_key_root [OF k] ke(2) by simp_all
  note dropped = drop_approved_keys [OF assms(1) roots k, of r1, folded r']
  note entry = run_entry_deleted [OF assms(1,2) k del, folded r']
  show ?thesis
  proof (cases "fst k = EntryRoot e \<and> fst (snd k) = SubKey e")
    case True
    then have "Opens api r' (fst k) (fst (snd k)) = Opens api r (fst k) (fst (snd k))"
      "EnumValues api r' (fst k) (fst (snd k)) = filter (\<lambda>v. \<not> same_name (v_Name v) (ValueName e)) (EnumValues api r (fst k) (fst (snd k)))"
      using dropped delete_law(2,3) [OF assms(1) roots(1) del] by (simp_all add: same_key_def)
    moreover have "map untimed (concat (map (run_entry fs api r' k) (filter (\<lambda>v. \<not> same_name (v_Name v) (ValueName e)) vs))) =
        map untimed (filter (\<lambda>x. \<not> same_place e x) (concat (map (run_entry fs api r k) vs)))" for vs
    proof (induction vs)
      case (Cons v vs)
      have "filter (\<lambda>x. \<not> same_place e x) (run_entry fs api r k v) = (if same_name (v_Name v) (ValueName e) then [] else run_entry fs api r k v)"
        using run_entry_place [of _ fs api r k v] True by (auto simp: same_place_def filter_empty_conv filter_id_conv)
      then show ?case using Cons entry [of v] by simp
    qed simp
    ultimately show ?thesis by (simp add: run_key_entries_def)
  next
    case False
    then have "\<not> same_name (fst (snd k)) (SubKey e) \<or> fst k \<noteq> EntryRoot e"
      using run_keys_once [OF k ke(1)] ke by auto
    then have "same_key api r r1 (fst k) (fst (snd k))" using delete_other [OF assms(1) roots del] by blast
    then have same: "same_key api r r' (fst k) (fst (snd k))" using dropped by (rule same_key_trans)
    have "map untimed (concat (map (run_entry fs api r' k) vs)) =
        map untimed (filter (\<lambda>x. \<not> same_place e x) (concat (map (run_entry fs api r k) vs)))" for vs
    proof (rule filter_concat_cong)
      fix v
      have "filter (\<lambda>x. \<not> same_place e x) (run_entry fs api r k v) = run_entry fs api r k v"
        using run_entry_place [of _ fs api r k v] False by (auto simp: same_place_def filter_id_conv)
      then show "map untimed (run_entry fs api r' k v) = map untimed (filter (\<lambda>x. \<not> same_place e x) (run_entry fs api r k v))"
        using entry [of v] False by simp
    qed
    then show ?thesis using same by (simp add: run_key_entries_def same_key_def)
  qed
qed

text \<open>Deleting an entry of a Run key takes exactly that entry from the list: the others stay, in their order, with
  their commands and states.\<close>

theorem Delete_removes:
  assumes "delete_laws api" and "e \<in> set (AddRunKeys fs api r)" and "Delete api sch deleteFile e r = (ERROR_SUCCESS, r')"
  shows "map untimed (AddRunKeys fs api r') = map untimed (filter (\<lambda>x. \<not> same_place e x) (AddRunKeys fs api r))"
  unfolding AddRunKeys_def by (rule filter_concat_cong) (rule run_entries_deleted [OF assms])

definition example_removed :: AutorunEntry where
  "example_removed = (RegistryEntry no_files memory_registry example_run Logon HKCU
     (wide_path ''Software/Microsoft/Windows/CurrentVersion/Run'') (wide ''Tool'') (wide ''a''))
     \<lparr>Wow64 := False, Deletable := True, Enabled := Some (IsApproved memory_registry example_run HKCU (wide ''Run'') (wide ''Tool''))\<rparr>"

lemma example_listed: "example_removed \<in> set (AddRunKeys no_files memory_registry example_run)"
proof -
  let ?k = "(HKCU, wide_path ''Software/Microsoft/Windows/CurrentVersion/Run'', Some (wide ''Run''), False)"
  let ?v = "\<lparr>v_Name = wide ''Tool'', v_Type = REG_SZ, v_Data = [97, 0]\<rparr>"
  have v: "?v \<in> set (EnumValues memory_registry example_run (fst ?k) (fst (snd ?k)))" and
    o: "Opens memory_registry example_run (fst ?k) (fst (snd ?k))"
    by (simp_all add: memory_registry_def values_of_def example_run_def)
  have "String_of ?v = wide ''a''"
    by (simp add: String_of_def c_str_def not_nul_def wide_def reg_types)
  then have "example_removed \<in> set (run_entry no_files memory_registry example_run ?k ?v)"
    by (simp add: run_entry_def example_removed_def wide_def)
  then have "example_removed \<in> set (run_key_entries no_files memory_registry example_run ?k)"
    using v o by (auto simp: run_key_entries_def)
  moreover have "?k \<in> set run_keys" by (simp add: run_keys_def)
  ultimately show ?thesis unfolding AddRunKeys_def by auto
qed

lemma memory_deleted:
  "Delete memory_registry sch deleteFile example_removed example_run =
   (ERROR_SUCCESS, snd (Delete memory_registry sch deleteFile example_removed example_run))"
  by (simp add: Delete_def memory_registry_def example_removed_def example_run_def values_of_def same_name_def
    ERROR_SUCCESS_def Let_def)

lemma Delete_removes_witness:
  "let r' = snd (Delete memory_registry undefined (\<lambda>_. 0) example_removed example_run)
   in map untimed (AddRunKeys no_files memory_registry r') =
     map untimed (filter (\<lambda>x. \<not> same_place example_removed x) (AddRunKeys no_files memory_registry example_run))"
  unfolding Let_def by (rule Delete_removes [OF memory_delete example_listed memory_deleted])

end
