(* ===== verification/Autorun_Commands.thy ===== *)
theory Autorun_Commands
  imports Autorun_State
begin

text \<open>
  The commands of the entries (\<open>ResolveImage\<close>, \<open>FirstPath\<close> and the lists of \<open>WinSys/Autoruns.cpp\<close>): the file that a
  command line runs, quoted or not, and the strings and items a registry value holds.
\<close>

section \<open>The path that a command line starts with\<close>

text \<open>The places where words end: the spaces and the end. The file is the shortest run of words that names one.\<close>

definition word_ends :: "wstr \<Rightarrow> nat list" where
  "word_ends s = filter (\<lambda>e. e = length s \<or> s ! e = 0x20) [0..<length s + 1]"

lemma find_upt_split:
  assumes "pos \<le> e" and "e < n" and "\<And>i. pos \<le> i \<Longrightarrow> i < e \<Longrightarrow> \<not> P i"
  shows "filter P [pos..<n] = (if P e then [e] else []) @ filter P [e + 1..<n]"
proof -
  have "[pos..<n] = [pos..<e] @ e # [e + 1..<n]" using assms(1,2) by (metis Suc_eq_plus1 le_add_diff_inverse less_imp_le_nat upt_add_eq_append upt_conv_Cons)
  moreover have "filter P [pos..<e] = []" using assms(3) by (auto simp: filter_empty_conv)
  ultimately show ?thesis by simp
qed

lemma first_run_find:
  "pos \<le> length s \<Longrightarrow>
   first_run fs ext s pos =
     find (\<lambda>e. names_file fs ext (take e s)) (filter (\<lambda>e. e = length s \<or> s ! e = 0x20) [pos..<length s + 1])"
proof (induction fs ext s pos rule: first_run.induct)
  case (1 fs ext s pos)
  show ?case
  proof (cases "find_char 0x20 s pos")
    case None
    have "s ! i \<noteq> 0x20" if "pos \<le> i" "i < length s" for i using None that by (simp add: find_char_None)
    then have "filter (\<lambda>e. e = length s \<or> s ! e = 0x20) [pos..<length s + 1] = [length s]"
      using 1(2) by (subst find_upt_split [of _ "length s"]) auto
    then show ?thesis using None by (simp add: first_run.simps [of fs ext s pos])
  next
    case (Some e)
    have e: "pos \<le> e" "e < length s" "s ! e = 0x20" "\<And>i. pos \<le> i \<Longrightarrow> i < e \<Longrightarrow> s ! i \<noteq> 0x20"
      using find_char_bounds [OF Some] find_char_at [OF Some] by auto
    then have "filter (\<lambda>e. e = length s \<or> s ! e = 0x20) [pos..<length s + 1] =
        e # filter (\<lambda>e. e = length s \<or> s ! e = 0x20) [e + 1..<length s + 1]"
      by (subst find_upt_split [of _ e]) auto
    then show ?thesis using Some 1(1) [OF Some] e(2) by (auto simp: first_run.simps [of fs ext s pos])
  qed
qed

lemma first_candidate_word: "s \<noteq> [] \<Longrightarrow> hd s \<noteq> 0x20 \<Longrightarrow> first_candidate s 0 = first_word s"
proof -
  assume "s \<noteq> []" and "hd s \<noteq> 0x20"
  then have "find_char 0x20 s 0 \<noteq> Some 0" using find_char_at [of "0x20" s 0 0] by (auto simp: hd_conv_nth)
  then show ?thesis by (auto simp: first_candidate.simps [of s 0] first_word_def split: option.split)
qed

text \<open>The path an unquoted command line starts with is the shortest run of words that names a file, with or without the
  extension; when none does it is the first word.\<close>

theorem FirstPath_shortest:
  assumes "s \<noteq> []" and "hd s \<noteq> 0x22" and "hd s \<noteq> 0x20"
  shows "FirstPath fs s ext rest =
    (let e = (case find (\<lambda>e. names_file fs ext (take e s)) (word_ends s) of Some e \<Rightarrow> e | None \<Rightarrow> first_word s)
     in (FindFile fs (take e s) ext, e))"
  using assms first_run_find [of 0 s fs ext] first_candidate_word [OF assms(1,3)]
  by (simp add: FirstPath_def word_ends_def Let_def split: option.split)

lemma FirstPath_shortest_witness:
  "let s = wide_path ''C:/Program Files/a.exe -x''; fs = no_files\<lparr>IsFile := (\<lambda>p. p = wide_path ''C:/Program Files/a.exe'')\<rparr>
   in FirstPath fs s None 0 =
    (let e = (case find (\<lambda>e. names_file fs None (take e s)) (word_ends s) of Some e \<Rightarrow> e | None \<Rightarrow> first_word s)
     in (FindFile fs (take e s) None, e))"
  unfolding Let_def [of "wide_path _"] Let_def [of "no_files\<lparr>IsFile := _\<rparr>"]
  by (rule FirstPath_shortest) (simp_all add: wide_path_def)

section \<open>Quoted commands\<close>

lemma Trim_start: "\<not> blank c \<Longrightarrow> Trim (c # s) = rev (dropWhile blank (rev (c # s)))"
  by (simp add: Trim_def)

lemma rstrip_append: "\<not> p c \<Longrightarrow> rev (dropWhile p (rev (x @ c # y))) = x @ c # rev (dropWhile p (rev y))"
  by (simp add: dropWhile_append dropWhile_append3)

lemma command_text_quoted:
  assumes "0x25 \<notin> set (path @ args)"
  obtains args' where "command_text fs ([0x22] @ path @ [0x22] @ args) = [0x22] @ path @ [0x22] @ args'"
proof -
  have "Trim (0x22 # path @ 0x22 # args) = (0x22 # path) @ 0x22 # rev (dropWhile blank (rev args))"
    by (subst Trim_start) (use rstrip_append [of blank "0x22" "0x22 # path" args] in \<open>simp_all add: blank_def\<close>)
  then show thesis
    using that [of "rev (dropWhile (\<lambda>c. c = 0x2C) (dropWhile blank (rev args)))"] assms rstrip_append [of "\<lambda>c. c = 0x2C" "0x22" "0x22 # path" "rev (dropWhile blank (rev args))"]
    by (simp add: command_text_def Expand_def)
qed

lemma FirstPath_quoted:
  assumes "0x22 \<notin> set path"
  shows "fst (FirstPath fs ([0x22] @ path @ [0x22] @ args) ext rest) = FindFile fs path ext"
proof -
  have "find_char 0x22 ([0x22] @ path @ 0x22 # args) 1 = Some (1 + length path)"
    using assms by (intro find_char_append) simp_all
  then show ?thesis by (simp add: FirstPath_def Let_def substr_def)
qed

text \<open>A quoted command runs the file that its quotes hold (found as typed, or where the system finds it), whatever the
  arguments, unless that is \<open>rundll32\<close>.\<close>

theorem ResolveImage_quoted:
  assumes "0x22 \<notin> set path" and "0x25 \<notin> set (path @ args)" and "\<not> is_rundll (FileName (FindFile fs path (Some (wide ''.exe''))))"
  shows "ResolveImage fs ([0x22] @ path @ [0x22] @ args) = FindFile fs path (Some (wide ''.exe''))"
proof -
  obtain args' where s: "command_text fs ([0x22] @ path @ [0x22] @ args) = [0x22] @ path @ [0x22] @ args'"
    using assms(2) by (rule command_text_quoted)
  obtain image rest where f: "FirstPath fs ([0x22] @ path @ [0x22] @ args') (Some (wide ''.exe'')) 0 = (image, rest)" by fastforce
  then have "image = FindFile fs path (Some (wide ''.exe''))"
    using FirstPath_quoted [OF assms(1), of fs args' "Some (wide ''.exe'')" 0] by simp
  then show ?thesis using assms(3) f unfolding ResolveImage_def s by (simp add: Let_def)
qed

lemma ResolveImage_quoted_witness:
  "ResolveImage (no_files\<lparr>IsFile := (\<lambda>p. p = wide_path ''C:/My Tools/t.exe'')\<rparr>)
     ([0x22] @ wide_path ''C:/My Tools/t.exe'' @ [0x22] @ wide '' -tray'') =
   FindFile (no_files\<lparr>IsFile := (\<lambda>p. p = wide_path ''C:/My Tools/t.exe'')\<rparr>) (wide_path ''C:/My Tools/t.exe'') (Some (wide ''.exe''))"
proof (rule ResolveImage_quoted)
  have "FindFile (no_files\<lparr>IsFile := (\<lambda>p. p = wide_path ''C:/My Tools/t.exe'')\<rparr>) (wide_path ''C:/My Tools/t.exe'') (Some (wide ''.exe'')) =
      wide_path ''C:/My Tools/t.exe''"
    by (simp add: FindFile_def strip_prefix_def wide_path_def same_start_def c_str_def not_nul_def lower_def Let_def)
  then show "\<not> is_rundll (FileName (FindFile (no_files\<lparr>IsFile := (\<lambda>p. p = wide_path ''C:/My Tools/t.exe'')\<rparr>)
      (wide_path ''C:/My Tools/t.exe'') (Some (wide ''.exe''))))"
    by (simp only:) code_simp
qed (simp_all add: wide_path_def wide_def)

section \<open>Lists in a value\<close>

text \<open>A value of several strings gives back the strings it was made of, whatever follows the empty one that ends them.\<close>

definition multi_text :: "wstr list \<Rightarrow> wstr" where
  "multi_text ss = concat (map (\<lambda>s. s @ [0]) ss)"

lemma c_str_nul: "0 \<notin> set s \<Longrightarrow> c_str (s @ 0 # t) = s"
  by (induction s) (auto simp: c_str_def not_nul_def)

lemma multi_strings_text:
  assumes "\<forall>s \<in> set ss. s \<noteq> [] \<and> 0 \<notin> set s" and "t = [] \<or> hd t = 0"
  shows "multi_strings (multi_text ss @ t) = ss"
  using assms(1)
proof (induction ss)
  case Nil
  then show ?case using assms(2) by (simp add: multi_text_def multi_strings.simps)
next
  case (Cons s ss)
  then have s: "s \<noteq> []" "0 \<notin> set s" by simp_all
  then have "hd (s @ 0 # multi_text ss @ t) \<noteq> 0" by (cases s) auto
  then show ?case using Cons c_str_nul [OF s(2), of "multi_text ss @ t"] s
    by (subst multi_strings.simps) (simp add: multi_text_def)
qed

text \<open>The items of a list are those that are joined with commas; of a value that is no list only the first is left.\<close>

fun comma_text :: "wstr list \<Rightarrow> wstr" where
  "comma_text [] = []"
| "comma_text [x] = x"
| "comma_text (x # y # xs) = x @ 0x2C # comma_text (y # xs)"

lemma list_items_text:
  "items \<noteq> [] \<Longrightarrow> \<forall>x \<in> set items. x \<noteq> [] \<and> Trim x = x \<and> 0x2C \<notin> set x \<Longrightarrow> length pre = i \<Longrightarrow>
   list_items True (pre @ comma_text items) i = items"
proof (induction items arbitrary: pre i rule: comma_text.induct)
  case (2 x)
  then have "find_char 0x2C (pre @ x) i = None" by (intro find_char_none) simp_all
  then show ?case using 2 by (simp add: list_items.simps [of True "pre @ x" i] nonempty_def)
next
  case (3 x y xs)
  then have "find_char 0x2C (pre @ x @ 0x2C # comma_text (y # xs)) i = Some (i + length x)" by (intro find_char_append) simp_all
  moreover have "list_items True ((pre @ x @ [0x2C]) @ comma_text (y # xs)) (i + length x + 1) = y # xs"
    by (rule 3(1)) (use 3 in simp_all)
  ultimately show ?case using 3
    by (simp add: list_items.simps [of True "pre @ x @ 0x2C # comma_text (y # xs)" i] nonempty_def substr_def)
qed simp

lemma list_items_first:
  "list_items False s 0 = nonempty (Trim (takeWhile (\<lambda>c. c \<noteq> 0x2C) s))"
proof (cases "length (takeWhile (\<lambda>c. c \<noteq> 0x2C) s) < length s")
  case True
  then show ?thesis
    by (simp add: list_items.simps [of False s 0] find_char_def Let_def substr_def takeWhile_eq_take [symmetric])
next
  case False
  then have t: "takeWhile (\<lambda>c. c \<noteq> 0x2C) s = s" by (metis takeWhile_eq_take take_all linorder_not_less)
  have "find_char 0x2C s 0 = None" using False by (simp add: find_char_def Let_def)
  then show ?thesis unfolding t by (simp add: list_items.simps [of False s 0])
qed

lemma registry_entry_command [simp]: "Command (RegistryEntry fs api r c root key n cmd) = cmd"
  by (simp add: RegistryEntry_def)

text \<open>The commands that are listed for Winlogon's \<open>Userinit\<close> are the ones its value lists, in their order.\<close>

theorem Userinit_items:
  assumes "Opens api r root winlogon_key" and "QueryValue api r root winlogon_key (wide ''Userinit'') = Some v"
    and "v_Type v = REG_SZ" and "String_of v = comma_text items" and "items \<noteq> []"
    and "\<forall>x \<in> set items. x \<noteq> [] \<and> Trim x = x \<and> 0x2C \<notin> set x"
  shows "map Command (winlogon_entries fs api r (root, wide ''Userinit'')) = items"
proof -
  have ne: "comma_text items \<noteq> []" using assms(5,6) by (cases items rule: comma_text.cases) auto
  then have "Strings_of v = [comma_text items]" using assms(3,4) by (simp add: Strings_of_def reg_types)
  then show ?thesis
    using assms(1,2) list_items_text [OF assms(5,6), of "[]" 0]
    by (simp add: winlogon_entries_def ReadValue_def same_name_def comp_def)
qed

definition example_winlogon :: memory where
  "example_winlogon = [(HKLM, fold_name winlogon_key) \<mapsto>
     [\<lparr>v_Name = wide ''Userinit'', v_Type = REG_SZ, v_Data = [97, 0, 44, 0, 98, 0]\<rparr>]]"

lemma Userinit_items_witness:
  "map Command (winlogon_entries no_files memory_registry example_winlogon (HKLM, wide ''Userinit'')) = [wide ''a'', wide ''b'']"
proof (rule Userinit_items)
  show "Opens memory_registry example_winlogon HKLM winlogon_key"
    by (simp add: memory_registry_def example_winlogon_def)
  show "QueryValue memory_registry example_winlogon HKLM winlogon_key (wide ''Userinit'') =
      Some \<lparr>v_Name = wide ''Userinit'', v_Type = REG_SZ, v_Data = [97, 0, 44, 0, 98, 0]\<rparr>"
    by (simp add: memory_registry_def example_winlogon_def values_of_def same_name_def)
qed (simp_all add: String_of_def reg_types c_str_def not_nul_def wide_def Trim_def blank_def)

text \<open>Of a \<open>Shell\<close> with several, the ones behind the first comma are not listed.\<close>

lemma shell_after_comma_lost:
  assumes "Opens api r root winlogon_key" and "QueryValue api r root winlogon_key (wide ''Shell'') = Some v"
    and "v_Type v = REG_SZ" and "String_of v \<noteq> []"
  shows "map Command (winlogon_entries fs api r (root, wide ''Shell'')) =
    nonempty (Trim (takeWhile (\<lambda>c. c \<noteq> 0x2C) (String_of v)))"
proof -
  have "\<not> same_name (wide ''Shell'') (wide ''Userinit'')" by code_simp
  moreover have "Strings_of v = [String_of v]" using assms(3,4) by (simp add: Strings_of_def reg_types)
  ultimately show ?thesis
    using assms(1,2) by (simp add: winlogon_entries_def ReadValue_def list_items_first comp_def)
qed

end
