(* ===== verification/Power_Requests.thy ===== *)
theory Power_Requests
  imports C_Text
begin

unbundle bit_operations_syntax

text \<open>
  What keeps the system awake and what will wake it (\<open>WinSys/PowerRequests.cpp\<close>): the parsing of the two lists that
  \<open>NtPowerInformation\<close> gives, with every offset in them as it comes. The buffer is at an address, so a pointer that an
  offset makes wrap is a pointer of the model too. The system's text (resources, service tags, device paths) is a
  parameter (\<open>Names\<close>).
\<close>

section \<open>The buffer\<close>

text \<open>
  The buffer at its address. A pointer is a 64-bit address and wraps; a read that is not inside the buffer gives nothing
  (\<open>None\<close>): the program's behaviour is then undefined.
\<close>

record Buffer =
  Base :: u64
  Bytes :: bytes

definition read_bytes :: "Buffer \<Rightarrow> u64 \<Rightarrow> nat \<Rightarrow> bytes option" where
  "read_bytes b p n =
     (if unat (p - Base b) + n \<le> length (Bytes b) then Some (take n (drop (unat (p - Base b)) (Bytes b))) else None)"

text \<open>\<open>wcsnlen\<close> and the characters before: the read stops at the NUL or after \<open>n\<close> characters.\<close>

definition read_text :: "Buffer \<Rightarrow> u64 \<Rightarrow> nat \<Rightarrow> wstr option" where
  "read_text b p n =
     (let s = units (drop (unat (p - Base b)) (Bytes b)); t = until_nul n s
      in if length t = n \<or> length t < length s then Some t else None)"

definition StringAt :: "Buffer \<Rightarrow> u64 \<Rightarrow> u64 \<Rightarrow> u64 \<Rightarrow> wstr option" where
  "StringAt b base offset e =
     (if offset = 0 \<or> base + offset \<ge> e then Some []
      else read_text b (base + offset) (unat (e - (base + offset)) div 2))"

section \<open>The reason\<close>

definition SimpleString :: u32 where "SimpleString = 1"
definition DetailedString :: u32 where "DetailedString = 2"
definition sizeof_Reason :: nat where "sizeof_Reason = 32"

text \<open>What the system tells besides: a resource's string with its substitutions, a service's name, a device path as a DOS path.\<close>

record Names =
  ResourceString :: "wstr \<Rightarrow> u16 \<Rightarrow> wstr list \<Rightarrow> wstr"
  ServiceFromTag :: "u32 \<Rightarrow> u32 \<Rightarrow> wstr"
  ConvertDevice :: "wstr \<Rightarrow> wstr"

text \<open>The substitutions: the strings, one after the other.\<close>

fun substitutions :: "Buffer \<Rightarrow> u64 \<Rightarrow> u64 \<Rightarrow> nat \<Rightarrow> u64 \<Rightarrow> wstr list option" where
  "substitutions b base e 0 offset = Some []"
| "substitutions b base e (Suc n) offset =
     (if offset = 0 then Some []
      else Option.bind (StringAt b base offset e) (\<lambda>s.
        Option.bind (substitutions b base e n (offset + of_nat ((length s + 1) * 2))) (\<lambda>ss. Some (s # ss))))"

definition ReasonText :: "Names \<Rightarrow> Buffer \<Rightarrow> u64 \<Rightarrow> u64 \<Rightarrow> u64 \<Rightarrow> wstr option" where
  "ReasonText nm b diagBase offset e =
     (if offset = 0 \<or> diagBase + offset + of_nat sizeof_Reason > e then Some []
      else
        Option.bind (read_bytes b (diagBase + offset) sizeof_Reason) (\<lambda>r.
          let base = diagBase + offset; flags = u32_at r 0
          in if flags AND SimpleString \<noteq> 0 then StringAt b base (u64_at r 8) e
             else if flags AND DetailedString \<noteq> 0 then
               Option.bind (StringAt b base (u64_at r 8) e) (\<lambda>module.
               Option.bind (substitutions b base e (min (unat (u32_at r 20)) 16) (u64_at r 24)) (\<lambda>args.
                 let text = ResourceString nm module (u16_at r 16) args
                 in Some (if text = [] \<and> module \<noteq> [] then module @ wide '' #'' @ to_wstring (unat (u16_at r 16)) else text)))
             else Some []))"

section \<open>The source\<close>

datatype PowerRequester = DriverRequester | ProcessRequester | ServiceRequester

record PowerRequestSource =
  Kind :: PowerRequester
  SourceName :: wstr
  DevicePath :: wstr
  ProcessId :: u32
  ServiceName :: wstr
  ReasonOf :: wstr

text \<open>\<open>Diagnostic\<close>, 40 bytes: the size, the caller's type, a process's or a device's fields, the offset of the reason.\<close>

definition d_Size :: "bytes \<Rightarrow> u64" where "d_Size d = u64_at d 0"
definition d_CallerType :: "bytes \<Rightarrow> u32" where "d_CallerType d = u32_at d 8"
definition d_Name :: "bytes \<Rightarrow> u64" where "d_Name d = u64_at d 16"
definition d_DevicePath :: "bytes \<Rightarrow> u64" where "d_DevicePath d = u64_at d 24"
definition d_ProcessId :: "bytes \<Rightarrow> u32" where "d_ProcessId d = u32_at d 24"
definition d_ServiceTag :: "bytes \<Rightarrow> u32" where "d_ServiceTag d = u32_at d 28"
definition d_Reason :: "bytes \<Rightarrow> u64" where "d_Reason d = u64_at d 32"

definition dos_name :: "Names \<Rightarrow> wstr \<Rightarrow> wstr" where
  "dos_name nm name =
     (if take 8 name = wide_path ''/Device/'' \<and> ConvertDevice nm name \<noteq> [] then ConvertDevice nm name else name)"

definition ReadSource :: "Names \<Rightarrow> Buffer \<Rightarrow> u64 \<Rightarrow> bytes \<Rightarrow> u64 \<Rightarrow> PowerRequestSource option" where
  "ReadSource nm b diagBase d e =
     Option.bind (StringAt b diagBase (d_Name d) e) (\<lambda>name.
     Option.bind (if d_CallerType d = 0 then StringAt b diagBase (d_DevicePath d) e else Some []) (\<lambda>device.
     Option.bind (ReasonText nm b diagBase (d_Reason d) e) (\<lambda>reason.
       Some (if d_CallerType d = 0
             then \<lparr>Kind = DriverRequester, SourceName = name, DevicePath = device, ProcessId = 0, ServiceName = [], ReasonOf = reason\<rparr>
             else
               \<lparr>Kind = (if d_CallerType d = 2 then ServiceRequester else ProcessRequester), SourceName = dos_name nm name,
                DevicePath = [], ProcessId = d_ProcessId d,
                ServiceName = (if d_CallerType d = 2 then ServiceFromTag nm (d_ProcessId d) (d_ServiceTag d) else []),
                ReasonOf = reason\<rparr>))))"

section \<open>The list of requests\<close>

datatype PowerRequestType = Display | System | AwayMode | Execution | PerfBoost | ActiveLockScreen

record PowerRequest =
  Counts :: "u32 list"
  Source :: PowerRequestSource

definition active :: "u32 list \<Rightarrow> bool" where
  "active counts \<longleftrightarrow> (\<exists>c \<in> set counts. c > 0)"

definition IsActive :: "PowerRequest \<Rightarrow> bool" where
  "IsActive r \<longleftrightarrow> active (Counts r)"

definition sizeof_Request :: nat where "sizeof_Request = 72"

definition request_offset :: "Buffer \<Rightarrow> nat \<Rightarrow> u64" where
  "request_offset b i = u64_at (Bytes b) (8 + 8 * i)"

definition request_counts :: "Buffer \<Rightarrow> nat \<Rightarrow> u32 list" where
  "request_counts b off = map (\<lambda>t. u32_at (Bytes b) (off + 4 + 4 * t)) [0..<6]"

text \<open>An entry's strings stay before the next entry.\<close>

definition entry_end :: "Buffer \<Rightarrow> nat \<Rightarrow> nat \<Rightarrow> u64" where
  "entry_end b n i =
     (if i + 1 < n \<and> request_offset b (i + 1) > request_offset b i \<and> unat (request_offset b (i + 1)) \<le> length (Bytes b)
      then Base b + request_offset b (i + 1) else Base b + of_nat (length (Bytes b)))"

definition request_at :: "Names \<Rightarrow> Buffer \<Rightarrow> bool \<Rightarrow> nat \<Rightarrow> nat \<Rightarrow> PowerRequest list option" where
  "request_at nm b activeOnly n i =
     (let off = unat (request_offset b i)
      in if off > length (Bytes b) \<or> length (Bytes b) - off < sizeof_Request then Some []
         else if activeOnly \<and> \<not> active (request_counts b off) then Some []
         else Option.bind (ReadSource nm b (Base b + of_nat off + 32) (take 40 (drop (off + 32) (Bytes b))) (entry_end b n i))
           (\<lambda>src. Some [\<lparr>Counts = request_counts b off, Source = src\<rparr>]))"

fun requests_from :: "(nat \<Rightarrow> PowerRequest list option) \<Rightarrow> nat list \<Rightarrow> PowerRequest list option" where
  "requests_from f [] = Some []"
| "requests_from f (i # is) = Option.bind (f i) (\<lambda>r. Option.bind (requests_from f is) (\<lambda>rs. Some (r @ rs)))"

definition ParseRequestList :: "Names \<Rightarrow> Buffer \<Rightarrow> bool \<Rightarrow> PowerRequest list option" where
  "ParseRequestList nm b activeOnly =
     (let size = length (Bytes b); n = unat (u64_at (Bytes b) 0)
      in if size < 8 \<or> n > size div 8 - 1 then Some []
         else requests_from (request_at nm b activeOnly n) [0..<n])"

section \<open>Wake timers\<close>

record WakeTimer =
  DueTime :: u64
  PeriodMs :: u32
  TimerSource :: PowerRequestSource

definition sizeof_WakeTimer :: nat where "sizeof_WakeTimer = 64"

text \<open>The entry at \<open>k\<close>, and how far the next one is if there is one.\<close>

definition next_timer :: "Buffer \<Rightarrow> nat \<Rightarrow> nat option" where
  "next_timer b k =
     (let step = unat (u64_at (Bytes b) k) in if step = 0 \<or> step > length (Bytes b) - k then None else Some step)"

definition timer_at :: "Names \<Rightarrow> u64 \<Rightarrow> Buffer \<Rightarrow> nat \<Rightarrow> WakeTimer list option" where
  "timer_at nm now b k =
     (let d = take 40 (drop (k + 24) (Bytes b));
          e = (case next_timer b k of None \<Rightarrow> Base b + of_nat (length (Bytes b)) | Some step \<Rightarrow> Base b + of_nat (k + step))
      in if d_Size d = 0 then Some []
         else Option.bind (ReadSource nm b (Base b + of_nat (k + 24)) d e) (\<lambda>src.
           Some [\<lparr>DueTime = now + u64_at (Bytes b) (k + 8), PeriodMs = u32_at (Bytes b) (k + 16), TimerSource = src\<rparr>]))"

function timers_from :: "Names \<Rightarrow> u64 \<Rightarrow> Buffer \<Rightarrow> nat \<Rightarrow> WakeTimer list option" where
  "timers_from nm now b k =
     (if length (Bytes b) - k < sizeof_WakeTimer then Some []
      else Option.bind (timer_at nm now b k) (\<lambda>ts.
        case next_timer b k of
          None \<Rightarrow> Some ts
        | Some step \<Rightarrow> Option.bind (timers_from nm now b (k + step)) (\<lambda>rest. Some (ts @ rest))))"
  by pat_completeness auto

termination
  by (relation "measure (\<lambda>(nm, now, b, k). length (Bytes b) - k)")
    (auto simp: next_timer_def Let_def sizeof_WakeTimer_def split: if_splits)

declare timers_from.simps [simp del]

definition ParseWakeTimers :: "Names \<Rightarrow> Buffer \<Rightarrow> u64 \<Rightarrow> WakeTimer list option" where
  "ParseWakeTimers nm b now = timers_from nm now b 0"

fun TypeName :: "PowerRequestType \<Rightarrow> string" where
  "TypeName Display = ''Display''"
| "TypeName System = ''System''"
| "TypeName AwayMode = ''Away mode''"
| "TypeName Execution = ''Execution''"
| "TypeName PerfBoost = ''Performance boost''"
| "TypeName ActiveLockScreen = ''Active lock screen''"

text \<open>\<open>Query\<close>: the buffer is doubled, from 8 KB to 16 MB, while it is too small. A query gives a status or the buffer.\<close>

definition STATUS_BUFFER_TOO_SMALL :: u32 where "STATUS_BUFFER_TOO_SMALL = 0xC0000023"

function query_doubled :: "(nat \<Rightarrow> u32 + bytes) \<Rightarrow> nat \<Rightarrow> u32 + bytes" where
  "query_doubled q k =
     (case q (8192 * 2 ^ k) of
        Inl status \<Rightarrow>
          if status = STATUS_BUFFER_TOO_SMALL \<and> 8192 * 2 ^ k < (2 ^ 24 :: nat) then query_doubled q (k + 1) else Inl status
      | Inr buffer \<Rightarrow> Inr buffer)"
  by pat_completeness auto

termination
proof (relation "measure (\<lambda>(q, k). 11 - k)")
  fix q :: "nat \<Rightarrow> u32 + bytes" and k status
  assume "status = STATUS_BUFFER_TOO_SMALL \<and> 8192 * 2 ^ k < (2 ^ 24 :: nat)"
  then have "(2::nat) ^ (13 + k) < 2 ^ 24" by (simp add: power_add)
  then have "13 + k < 24" by (rule power_less_imp_less_exp [rotated]) simp
  then show "((q, k + 1), q, k) \<in> measure (\<lambda>(q, k). 11 - k)" by simp
qed simp

declare query_doubled.simps [simp del]

text \<open>\<open>Enum\<close>: \<open>at\<close> is where the buffer is allocated.\<close>

definition Enum_requests :: "Names \<Rightarrow> (nat \<Rightarrow> u32 + bytes) \<Rightarrow> u64 \<Rightarrow> bool \<Rightarrow> u32 + PowerRequest list option" where
  "Enum_requests nm q at activeOnly =
     (case query_doubled q 0 of Inl status \<Rightarrow> Inl status
      | Inr buffer \<Rightarrow> Inr (ParseRequestList nm \<lparr>Base = at, Bytes = buffer\<rparr> activeOnly))"

definition EnumWakeTimers :: "Names \<Rightarrow> (nat \<Rightarrow> u32 + bytes) \<Rightarrow> u64 \<Rightarrow> u64 \<Rightarrow> u32 + WakeTimer list option" where
  "EnumWakeTimers nm q at now =
     (case query_doubled q 0 of Inl status \<Rightarrow> Inl status
      | Inr buffer \<Rightarrow> Inr (ParseWakeTimers nm \<lparr>Base = at, Bytes = buffer\<rparr> now))"

section \<open>Nothing is read outside the buffer\<close>

text \<open>A buffer below the top of the address space; an address in it; an offset that does not wrap.\<close>

definition fits :: "Buffer \<Rightarrow> bool" where
  "fits b \<longleftrightarrow> unat (Base b) + length (Bytes b) + 64 \<le> 2 ^ 64"

definition inside :: "Buffer \<Rightarrow> u64 \<Rightarrow> bool" where
  "inside b p \<longleftrightarrow> unat (Base b) \<le> unat p \<and> unat p \<le> unat (Base b) + length (Bytes b)"

definition unwrapped :: "u64 \<Rightarrow> u64 \<Rightarrow> bool" where
  "unwrapped p offset \<longleftrightarrow> unat p + unat offset + 32 < 2 ^ 64"

lemma until_nul_in: "n \<le> length s \<Longrightarrow> length (until_nul n s) = n \<or> length (until_nul n s) < length s"
  using length_until_nul [of n s] by linarith

lemma unat_plus: "unat p + unat q < 2 ^ 64 \<Longrightarrow> unat (p + q :: u64) = unat p + unat q"
  by (simp add: unat_plus_if')

lemma unat_of_nat_64: "m < 2 ^ 64 \<Longrightarrow> unat (of_nat m :: u64) = m"
  by (simp add: unat_of_nat mod_less)

lemma unat_minus: "unat q \<le> unat p \<Longrightarrow> unat (p - q :: u64) = unat p - unat q"
  by (simp add: unat_sub word_le_nat_alt)

lemma StringAt_inside:
  assumes "inside b base" and "inside b e" and "unat base + unat offset < 2 ^ 64"
  shows "\<exists>s. StringAt b base offset e = Some s \<and>
    (s = [] \<or> unat base + unat offset + 2 * length s \<le> unat e)"
proof (cases "offset = 0 \<or> base + offset \<ge> e")
  case False
  let ?p = "base + offset" and ?off = "unat (base + offset - Base b)"
  have p: "unat ?p = unat base + unat offset" by (rule unat_plus [OF assms(3)])
  have lt: "unat ?p < unat e" using False by (simp add: word_less_nat_alt not_le)
  have off: "?off = unat ?p - unat (Base b)" using assms(1) p by (intro unat_minus) (simp add: inside_def)
  have n: "unat (e - ?p) = unat e - unat ?p" using lt by (intro unat_minus) simp
  have "unat (e - ?p) div 2 \<le> length (units (drop ?off (Bytes b)))"
  proof -
    have "unat (Base b) \<le> unat base" "unat e \<le> unat (Base b) + length (Bytes b)" using assms(1,2) by (simp_all add: inside_def)
    then have "unat e - unat ?p \<le> length (Bytes b) - (unat ?p - unat (Base b))" using p by linarith
    then have "(unat e - unat ?p) div 2 \<le> (length (Bytes b) - (unat ?p - unat (Base b))) div 2" by (rule div_le_mono)
    then show ?thesis unfolding length_units length_drop off n .
  qed
  then have "read_text b ?p (unat (e - ?p) div 2) = Some (until_nul (unat (e - ?p) div 2) (units (drop ?off (Bytes b))))"
    using until_nul_in by (simp add: read_text_def Let_def)
  moreover have "2 * length (until_nul (unat (e - ?p) div 2) (units (drop ?off (Bytes b)))) \<le> unat e - unat ?p"
    using length_until_nul [of "unat (e - ?p) div 2" "units (drop ?off (Bytes b))"] n by linarith
  then have "unat base + unat offset + 2 * length (until_nul (unat (e - ?p) div 2) (units (drop ?off (Bytes b)))) \<le> unat e"
    using lt p by linarith
  ultimately show ?thesis using False by (simp add: StringAt_def)
qed (simp add: StringAt_def)

lemma substitutions_inside:
  assumes b: "fits b" "inside b base" "inside b e"
  shows "unat base + unat offset + 2 * n < 2 ^ 64 \<Longrightarrow> n \<le> 16 \<Longrightarrow> \<exists>ss. substitutions b base e n offset = Some ss"
proof (induction n arbitrary: offset)
  case (Suc n)
  show ?case
  proof (cases "offset = 0")
    case False
    obtain s where s: "StringAt b base offset e = Some s" "s = [] \<or> unat base + unat offset + 2 * length s \<le> unat e"
      using StringAt_inside [OF b(2,3), of offset] Suc.prems(1) by auto
    have top: "unat e + 64 \<le> 2 ^ 64" using b(1,3) by (simp add: fits_def inside_def)
    have len: "unat base + unat offset + (length s + 1) * 2 + 2 * n < 2 ^ 64"
      using s(2) top Suc.prems by auto
    have m: "unat (of_nat ((length s + 1) * 2) :: u64) = (length s + 1) * 2"
      by (rule unat_of_nat_64) (use len in linarith)
    have "unat (offset + of_nat ((length s + 1) * 2)) = unat offset + unat (of_nat ((length s + 1) * 2) :: u64)"
      by (rule unat_plus) (use len m in linarith)
    then have "unat base + unat (offset + of_nat ((length s + 1) * 2)) + 2 * n < 2 ^ 64" using len m by linarith
    then obtain ss where "substitutions b base e n (offset + of_nat ((length s + 1) * 2)) = Some ss"
      using Suc.IH Suc.prems(2) by (metis Suc_leD)
    then show ?thesis using s(1) False by simp
  qed simp
qed simp

text \<open>
  The offsets that a diagnostic's source uses do not wrap: its own, and those of its reason if that is in the buffer.
\<close>

definition reason_plain :: "Buffer \<Rightarrow> u64 \<Rightarrow> bool" where
  "reason_plain b p \<longleftrightarrow>
     (\<forall>r. read_bytes b p sizeof_Reason = Some r \<longrightarrow> unwrapped p (u64_at r 8) \<and> unwrapped p (u64_at r 24))"

definition diag_plain :: "Buffer \<Rightarrow> u64 \<Rightarrow> bytes \<Rightarrow> bool" where
  "diag_plain b p d \<longleftrightarrow>
     unwrapped p (d_Name d) \<and> unwrapped p (d_DevicePath d) \<and> unwrapped p (d_Reason d) \<and> reason_plain b (p + d_Reason d)"

lemma inside_plus:
  assumes "inside b p" and "unat p + unat q < 2 ^ 64" and "p + q \<le> e" and "inside b e"
  shows "inside b (p + q)"
  using assms by (simp add: inside_def unat_plus word_le_nat_alt)

lemma ReasonText_inside:
  assumes b: "fits b" "inside b p" "inside b e" and u: "unwrapped p offset" and r: "reason_plain b (p + offset)"
  shows "\<exists>t. ReasonText nm b p offset e = Some t"
proof (cases "offset = 0 \<or> p + offset + of_nat sizeof_Reason > e")
  case True
  then show ?thesis by (simp add: ReasonText_def)
next
  case False
  let ?p = "p + offset"
  have up: "unat ?p = unat p + unat offset" using u by (simp add: unat_plus unwrapped_def)
  have "unat (?p + 32) = unat ?p + 32" using u up by (subst unat_plus) (simp_all add: unwrapped_def)
  moreover have "unat (?p + 32) \<le> unat e" using False by (simp add: sizeof_Reason_def word_le_nat_alt not_less)
  ultimately have "unat ?p + 32 \<le> unat (Base b) + length (Bytes b)" and lo: "unat (Base b) \<le> unat ?p"
    using b(2,3) up by (auto simp: inside_def)
  then have in_p: "inside b ?p" and room: "unat (?p - Base b) + sizeof_Reason \<le> length (Bytes b)"
    by (simp_all add: inside_def unat_minus sizeof_Reason_def)
  obtain r where r': "read_bytes b ?p sizeof_Reason = Some r" using room by (simp add: read_bytes_def)
  then have plain: "unwrapped ?p (u64_at r 8)" "unwrapped ?p (u64_at r 24)" using r by (auto simp: reason_plain_def)
  obtain t where t: "StringAt b ?p (u64_at r 8) e = Some t"
    using StringAt_inside [OF in_p b(3), of "u64_at r 8"] plain(1) by (auto simp: unwrapped_def)
  have n: "min (unat (u32_at r 20)) 16 \<le> 16" by simp
  then have "unat ?p + unat (u64_at r 24) + 2 * min (unat (u32_at r 20)) 16 < 2 ^ 64"
    using plain(2) unfolding unwrapped_def by linarith
  then obtain ss where "substitutions b ?p e (min (unat (u32_at r 20)) 16) (u64_at r 24) = Some ss"
    using substitutions_inside [OF b(1) in_p b(3)] n by blast
  then show ?thesis using False r' t by (simp add: ReasonText_def Let_def)
qed

lemma ReadSource_inside:
  assumes b: "fits b" "inside b p" "inside b e" and d: "diag_plain b p d"
  shows "\<exists>src. ReadSource nm b p d e = Some src"
proof -
  have u: "unat p + unat (d_Name d) < 2 ^ 64" "unat p + unat (d_DevicePath d) < 2 ^ 64" "unwrapped p (d_Reason d)"
    using d by (auto simp: diag_plain_def unwrapped_def)
  obtain name where "StringAt b p (d_Name d) e = Some name" using StringAt_inside [OF b(2,3) u(1)] by blast
  moreover obtain device where "StringAt b p (d_DevicePath d) e = Some device" using StringAt_inside [OF b(2,3) u(2)] by blast
  moreover obtain reason where "ReasonText nm b p (d_Reason d) e = Some reason"
    using ReasonText_inside [OF b u(3)] d by (auto simp: diag_plain_def)
  ultimately show ?thesis by (simp add: ReadSource_def)
qed

lemma inside_offset: "fits b \<Longrightarrow> k \<le> length (Bytes b) \<Longrightarrow> inside b (Base b + of_nat k)"
proof -
  assume "fits b" and "k \<le> length (Bytes b)"
  then have "unat (of_nat k :: u64) = k" "unat (Base b) + k < 2 ^ 64" by (simp_all add: fits_def unat_of_nat mod_less)
  then show ?thesis using \<open>k \<le> length (Bytes b)\<close> by (simp add: inside_def unat_plus)
qed

definition request_diag :: "Buffer \<Rightarrow> nat \<Rightarrow> bytes" where
  "request_diag b i = take 40 (drop (unat (request_offset b i) + 32) (Bytes b))"

definition requests_plain :: "Buffer \<Rightarrow> bool" where
  "requests_plain b \<longleftrightarrow>
     (\<forall>i < unat (u64_at (Bytes b) 0). diag_plain b (Base b + of_nat (unat (request_offset b i)) + 32) (request_diag b i))"

lemma entry_end_inside: "fits b \<Longrightarrow> inside b (entry_end b n i)"
  using inside_offset [of b "unat (request_offset b (i + 1))"] inside_offset [of b "length (Bytes b)"]
  by (simp add: entry_end_def)

lemma request_at_inside:
  assumes "fits b" and "diag_plain b (Base b + of_nat (unat (request_offset b i)) + 32) (request_diag b i)"
  shows "\<exists>rs. request_at nm b activeOnly n i = Some rs"
proof (cases "unat (request_offset b i) > length (Bytes b) \<or> length (Bytes b) - unat (request_offset b i) < sizeof_Request")
  case False
  have "inside b (Base b + of_nat (unat (request_offset b i) + 32))"
    by (rule inside_offset [OF assms(1)]) (use False in \<open>unfold sizeof_Request_def, linarith\<close>)
  then have "inside b (Base b + of_nat (unat (request_offset b i)) + 32)" by (simp add: add.assoc)
  then obtain src where "ReadSource nm b (Base b + of_nat (unat (request_offset b i)) + 32) (request_diag b i) (entry_end b n i) = Some src"
    using ReadSource_inside [OF assms(1) _ entry_end_inside [OF assms(1)] assms(2)] by blast
  then show ?thesis using False by (simp add: request_at_def Let_def request_diag_def)
qed (simp add: request_at_def Let_def)

lemma requests_from_total: "(\<And>i. i \<in> set is \<Longrightarrow> \<exists>r. f i = Some r) \<Longrightarrow> \<exists>rs. requests_from f is = Some rs"
  by (induction "is") fastforce+


definition no_names :: Names where
  "no_names = \<lparr>ResourceString = (\<lambda>m i a. []), ServiceFromTag = (\<lambda>p t. []), ConvertDevice = (\<lambda>d. [])\<rparr>"

text \<open>One request, of a process: the count, its offset, the request, and its name.\<close>

definition sample_list :: bytes where
  "sample_list = [1, 0, 0, 0, 0, 0, 0, 0] @ [16, 0, 0, 0, 0, 0, 0, 0] @ [63, 0, 0, 0] @ [0, 0, 0, 0, 1, 0, 0, 0] @ replicate 16 0 @ replicate 4 0
     @ [50, 0, 0, 0, 0, 0, 0, 0] @ [1, 0, 0, 0] @ replicate 4 0 @ [40, 0, 0, 0, 0, 0, 0, 0] @ [7, 0, 0, 0, 0, 0, 0, 0] @ replicate 8 0
     @ [97, 0, 98, 0, 0, 0]"

definition sample_buffer :: Buffer where
  "sample_buffer = \<lparr>Base = 0x10000, Bytes = sample_list\<rparr>"

lemma ParseRequestList_sample:
  "ParseRequestList no_names sample_buffer True =
     Some [\<lparr>Counts = [0, 1, 0, 0, 0, 0], Source = \<lparr>Kind = ProcessRequester, SourceName = [97, 98], DevicePath = [],
       ProcessId = 7, ServiceName = [], ReasonOf = []\<rparr>\<rparr>]"
  by code_simp

text \<open>An offset that makes the pointer wrap passes the test, and the read begins before the buffer.\<close>

lemma wrapped_offset_reads_before:
  assumes "fits b" and "2 \<le> unat (Base b)"
  shows "StringAt b (Base b) (- 2) (Base b + of_nat (length (Bytes b))) = None"
proof -
  have p: "Base b + - 2 = Base b - 2" by simp
  have u: "unat (Base b - 2) = unat (Base b) - 2" using assms(2) by (subst unat_minus) simp_all
  have e: "unat (Base b + of_nat (length (Bytes b))) = unat (Base b) + length (Bytes b)"
    using assms(1) by (subst unat_plus) (simp_all add: fits_def unat_of_nat mod_less)
  have "unat (Base b - 2 - Base b) = 2 ^ 64 - 2" by simp
  then have "read_text b (Base b - 2) n = None" if "n > 0" for n
    using assms(1) that by (simp add: read_text_def fits_def until_nul_def Let_def)
  moreover have "unat (Base b + of_nat (length (Bytes b)) - (Base b - 2)) = length (Bytes b) + 2"
    using e u assms(2) by (subst unat_minus) simp_all
  moreover have "Base b - 2 < Base b + of_nat (length (Bytes b))" using e u assms(2) by (simp add: word_less_nat_alt)
  ultimately show ?thesis by (simp add: StringAt_def not_le)
qed


lemma requests_from_filter:
  assumes "\<And>i rs. g i = Some rs \<Longrightarrow> f i = Some (filter P rs)"
  shows "requests_from g is = Some rs \<Longrightarrow> requests_from f is = Some (filter P rs)"
  using assms by (induction "is" arbitrary: rs) (auto simp: bind_eq_Some_conv)

lemma request_at_active:
  "request_at nm b False n i = Some xs \<Longrightarrow> request_at nm b True n i = Some (filter IsActive xs)"
  by (auto simp: request_at_def Let_def IsActive_def bind_eq_Some_conv split: if_splits)

text \<open>Asking for the active requests gives the active ones of the whole list.\<close>

theorem active_only_filters:
  assumes "ParseRequestList nm b False = Some rs"
  shows "ParseRequestList nm b True = Some (filter IsActive rs)"
proof (cases "length (Bytes b) < 8 \<or> unat (u64_at (Bytes b) 0) > length (Bytes b) div 8 - 1")
  case False
  then show ?thesis
    using assms requests_from_filter [OF request_at_active] by (simp add: ParseRequestList_def Let_def)
qed (use assms in \<open>auto simp: ParseRequestList_def Let_def\<close>)

lemma active_only_filters_witness:
  "ParseRequestList no_names \<lparr>Base = 0, Bytes = [0, 0, 0, 0, 0, 0, 0, 0]\<rparr> True = Some (filter IsActive [])"
  by (rule active_only_filters) code_simp

section \<open>The resolution of the timer\<close>

record TimerResolution =
  Coarsest :: u32
  Finest :: u32
  Current :: u32

definition GetTimerResolution :: "u32 + u32 \<times> u32 \<times> u32 \<Rightarrow> u32 + TimerResolution" where
  "GetTimerResolution r =
     (case r of Inl status \<Rightarrow> Inl status
      | Inr (coarsest, finest, current) \<Rightarrow> Inr \<lparr>Coarsest = coarsest, Finest = finest, Current = current\<rparr>)"

end
