(* ===== verification/Smbios.thy ===== *)
theory Smbios
  imports Autorun_Images
begin

unbundle bit_operations_syntax

text \<open>
  The SMBIOS tables (\<open>WinSys/SystemDetails.cpp\<close>, \<open>GetHardware\<close>): the walk over the structures and their strings, and what
  the BIOS, system, board, array and memory device structures say.
\<close>

section \<open>A structure of the table\<close>

text \<open>
  A structure: its formatted area (\<open>Length\<close> bytes, the first two its type and that length) and the strings that follow.
  \<open>ansi\<close> is \<open>MultiByteToWideChar\<close> with the system's code page.
\<close>

record SmbiosStructure =
  Data :: bytes
  Strings :: "bytes list"

definition Byte :: "SmbiosStructure \<Rightarrow> nat \<Rightarrow> byte" where
  "Byte s offset = (if offset < length (Data s) then u8_at (Data s) offset else 0)"

definition Word :: "SmbiosStructure \<Rightarrow> nat \<Rightarrow> u16" where
  "Word s offset = (if offset + 2 \<le> length (Data s) then u16_at (Data s) offset else 0)"

definition Dword :: "SmbiosStructure \<Rightarrow> nat \<Rightarrow> u32" where
  "Dword s offset = (if offset + 4 \<le> length (Data s) then u32_at (Data s) offset else 0)"

text \<open>ASCII text without the spaces around it.\<close>

definition padding :: "byte \<Rightarrow> bool" where
  "padding c \<longleftrightarrow> c = 0x20 \<or> c = 0"

definition FromAnsi :: "(bytes \<Rightarrow> wstr) \<Rightarrow> bytes \<Rightarrow> wstr" where
  "FromAnsi ansi s =
     (let t = dropWhile (\<lambda>c. c = 0x20) (rev (dropWhile padding (rev s))) in if t = [] then [] else ansi t)"

definition placeholders :: "wstr list" where
  "placeholders = map wide
     [''Default string'', ''To Be Filled By O.E.M.'', ''To be filled by O.E.M.'', ''Not Specified'', ''Not Applicable'',
      ''System Product Name'', ''System manufacturer'', ''System Version'', ''Unknown'', ''None'', ''N/A'', ''0123456789'']"

definition String :: "(bytes \<Rightarrow> wstr) \<Rightarrow> SmbiosStructure \<Rightarrow> nat \<Rightarrow> wstr" where
  "String ansi s offset =
     (let i = unat (Byte s offset)
      in if i = 0 \<or> i > length (Strings s) then []
         else let t = FromAnsi ansi (Strings s ! (i - 1))
              in if \<exists>p \<in> set placeholders. same_name t p then [] else t)"

definition MemoryTypeName :: "byte \<Rightarrow> string" where
  "MemoryTypeName type =
     (if type = 0x03 then ''DRAM'' else if type = 0x0F then ''SDRAM'' else if type = 0x11 then ''RDRAM''
      else if type = 0x12 then ''DDR'' else if type = 0x13 then ''DDR2'' else if type = 0x14 then ''DDR2 FB-DIMM''
      else if type = 0x18 then ''DDR3'' else if type = 0x19 then ''FBD2'' else if type = 0x1A then ''DDR4''
      else if type = 0x1B then ''LPDDR'' else if type = 0x1C then ''LPDDR2'' else if type = 0x1D then ''LPDDR3''
      else if type = 0x1E then ''LPDDR4'' else if type = 0x1F then ''Logical non-volatile'' else if type = 0x20 then ''HBM''
      else if type = 0x21 then ''HBM2'' else if type = 0x22 then ''DDR5'' else if type = 0x23 then ''LPDDR5''
      else if type = 0x24 then ''HBM3'' else '''')"

definition FormFactorName :: "byte \<Rightarrow> string" where
  "FormFactorName ff =
     (if ff = 0x03 then ''SIMM'' else if ff = 0x07 then ''SIP'' else if ff = 0x08 then ''Chip'' else if ff = 0x09 then ''DIMM''
      else if ff = 0x0B then ''Row of chips'' else if ff = 0x0C then ''RIMM'' else if ff = 0x0D then ''SODIMM''
      else if ff = 0x0F then ''FB-DIMM'' else if ff = 0x10 then ''Die'' else if ff = 0x11 then ''CAMM'' else '''')"

section \<open>The walk over the table\<close>

text \<open>The strings behind a formatted area, and where their loop stops (past the table's end if the last one has no NUL).\<close>

function structure_strings :: "bytes \<Rightarrow> bytes list \<times> nat" where
  "structure_strings q =
     (if q = [] \<or> hd q = 0 then ([], 0)
      else let t = takeWhile not_nul q; (ts, n) = structure_strings (drop (length t + 1) q)
           in (t # ts, length t + 1 + n))"
  by pat_completeness auto

termination
  by (relation "measure length") auto

declare structure_strings.simps [simp del]

text \<open>How far the next structure is: two NULs end a structure without strings.\<close>

definition next_structure :: "bytes \<Rightarrow> nat \<Rightarrow> nat" where
  "next_structure q n = (if n = 0 \<and> q \<noteq> [] then 2 else n + 1)"

function structures :: "bytes \<Rightarrow> SmbiosStructure list" where
  "structures p =
     (if length p < 4 then []
      else let len = unat (p ! 1)
           in if len < 4 \<or> len > length p then []
              else let q = drop len p; s = \<lparr>Data = take len p, Strings = fst (structure_strings q)\<rparr>
                   in s # (if p ! 0 = 127 then [] else structures (drop (len + next_structure q (snd (structure_strings q))) p)))"
  by pat_completeness auto

termination
  by (relation "measure length") auto

declare structures.simps [simp del]

section \<open>What the structures say\<close>

record MemoryModule =
  Locator :: wstr
  BankLocator :: wstr
  Manufacturer :: wstr
  PartNumber :: wstr
  MemoryType :: wstr
  FormFactor :: wstr
  ModuleSize :: u64
  Speed :: u32
  ConfiguredSpeed :: u32

record HardwareDetails =
  SmbiosMajor :: byte
  SmbiosMinor :: byte
  SystemManufacturer :: wstr
  SystemProduct :: wstr
  SystemVersion :: wstr
  SystemFamily :: wstr
  SystemSku :: wstr
  BiosVendor :: wstr
  BiosVersion :: wstr
  BiosDate :: wstr
  BoardManufacturer :: wstr
  BoardProduct :: wstr
  BoardVersion :: wstr
  InstalledMemory :: u64
  UsableMemory :: u64
  MemorySlots :: u32
  Modules :: "MemoryModule list"

definition no_hardware :: HardwareDetails where
  "no_hardware =
     \<lparr>SmbiosMajor = 0, SmbiosMinor = 0, SystemManufacturer = [], SystemProduct = [], SystemVersion = [], SystemFamily = [],
      SystemSku = [], BiosVendor = [], BiosVersion = [], BiosDate = [], BoardManufacturer = [], BoardProduct = [],
      BoardVersion = [], InstalledMemory = 0, UsableMemory = 0, MemorySlots = 0, Modules = []\<rparr>"

definition add_bios :: "(bytes \<Rightarrow> wstr) \<Rightarrow> SmbiosStructure \<Rightarrow> HardwareDetails \<Rightarrow> HardwareDetails" where
  "add_bios ansi s hw =
     hw\<lparr>BiosVendor := String ansi s 0x04, BiosVersion := String ansi s 0x05, BiosDate := String ansi s 0x08\<rparr>"

definition add_system :: "(bytes \<Rightarrow> wstr) \<Rightarrow> SmbiosStructure \<Rightarrow> HardwareDetails \<Rightarrow> HardwareDetails" where
  "add_system ansi s hw =
     hw\<lparr>SystemManufacturer := String ansi s 0x04, SystemProduct := String ansi s 0x05, SystemVersion := String ansi s 0x06,
        SystemSku := String ansi s 0x19, SystemFamily := String ansi s 0x1A\<rparr>"

definition add_board :: "(bytes \<Rightarrow> wstr) \<Rightarrow> SmbiosStructure \<Rightarrow> HardwareDetails \<Rightarrow> HardwareDetails" where
  "add_board ansi s hw =
     (if BoardManufacturer hw = [] \<and> BoardProduct hw = []
      then hw\<lparr>BoardManufacturer := String ansi s 0x04, BoardProduct := String ansi s 0x05, BoardVersion := String ansi s 0x06\<rparr>
      else hw)"

definition add_array :: "SmbiosStructure \<Rightarrow> HardwareDetails \<Rightarrow> HardwareDetails" where
  "add_array s hw =
     (if Byte s 0x05 = 0x03 then hw\<lparr>MemorySlots := MemorySlots hw + ucast (Word s 0x0D)\<rparr> else hw)"

text \<open>A memory device: nothing for an empty slot. The size is in megabytes, in kilobytes (bit 15), or in the wider field.\<close>

definition device_bytes :: "SmbiosStructure \<Rightarrow> u64" where
  "device_bytes s =
     (let sz = Word s 0x0C
      in if sz = 0x7FFF then push_bit 20 (ucast (Dword s 0x1C AND 0x7FFFFFFF))
         else if sz AND 0x8000 \<noteq> 0 then push_bit 10 (ucast (sz AND 0x7FFF))
         else push_bit 20 (ucast sz))"

definition device_speed :: "SmbiosStructure \<Rightarrow> nat \<Rightarrow> nat \<Rightarrow> u32" where
  "device_speed s offset wider = (if Word s offset = 0xFFFF then Dword s wider else ucast (Word s offset))"

definition memory_module :: "(bytes \<Rightarrow> wstr) \<Rightarrow> SmbiosStructure \<Rightarrow> MemoryModule option" where
  "memory_module ansi s =
     (if Word s 0x0C = 0 \<or> Word s 0x0C = 0xFFFF then None
      else Some \<lparr>Locator = String ansi s 0x10, BankLocator = String ansi s 0x11, Manufacturer = String ansi s 0x17,
        PartNumber = String ansi s 0x1A, MemoryType = wide (MemoryTypeName (Byte s 0x12)),
        FormFactor = wide (FormFactorName (Byte s 0x0E)), ModuleSize = device_bytes s,
        Speed = device_speed s 0x15 0x54, ConfiguredSpeed = device_speed s 0x20 0x58\<rparr>)"

definition add_device :: "(bytes \<Rightarrow> wstr) \<Rightarrow> SmbiosStructure \<Rightarrow> HardwareDetails \<Rightarrow> HardwareDetails" where
  "add_device ansi s hw =
     (case memory_module ansi s of None \<Rightarrow> hw | Some m \<Rightarrow> hw\<lparr>Modules := Modules hw @ [m]\<rparr>)"

definition structure_type :: "SmbiosStructure \<Rightarrow> byte" where
  "structure_type s = Data s ! 0"

definition add_structure :: "(bytes \<Rightarrow> wstr) \<Rightarrow> SmbiosStructure \<Rightarrow> HardwareDetails \<Rightarrow> HardwareDetails" where
  "add_structure ansi s hw =
     (if structure_type s = 0 then add_bios ansi s hw
      else if structure_type s = 1 then add_system ansi s hw
      else if structure_type s = 2 then add_board ansi s hw
      else if structure_type s = 16 then add_array s hw
      else if structure_type s = 17 then add_device ansi s hw
      else hw)"

text \<open>
  \<open>GetHardware\<close>: the calls' answers are the installed memory, the pages and their size, and the two calls of
  \<open>GetSystemFirmwareTable\<close> (the size, then the size and the table).
\<close>

record HardwareCalls =
  InstalledKB :: "u64 option"
  Pages :: "(u32 \<times> u32) option"
  TableSize :: nat
  TableRead :: "nat \<times> bytes"

definition memory_of :: "HardwareCalls \<Rightarrow> HardwareDetails" where
  "memory_of c =
     no_hardware\<lparr>InstalledMemory := (case InstalledKB c of None \<Rightarrow> 0 | Some kb \<Rightarrow> kb * 1024),
       UsableMemory := (case Pages c of None \<Rightarrow> 0 | Some (n, size_of_page) \<Rightarrow> ucast n * ucast size_of_page)\<rparr>"

definition table_bytes :: "bytes \<Rightarrow> bytes" where
  "table_bytes buffer = take (min (unat (u32_at buffer 4)) (length buffer - 8)) (drop 8 buffer)"

definition GetHardware :: "(bytes \<Rightarrow> wstr) \<Rightarrow> HardwareCalls \<Rightarrow> HardwareDetails" where
  "GetHardware ansi c =
     (let hw = memory_of c; buffer = take (TableSize c) (snd (TableRead c) @ replicate (TableSize c) 0)
      in if TableSize c < 8 \<or> fst (TableRead c) \<noteq> TableSize c then hw
         else fold (add_structure ansi) (structures (table_bytes buffer))
                (hw\<lparr>SmbiosMajor := buffer ! 1, SmbiosMinor := buffer ! 2\<rparr>))"

section \<open>A written table is read back\<close>

definition strings_bytes :: "bytes list \<Rightarrow> bytes" where
  "strings_bytes ts = (if ts = [] then [0, 0] else concat (map (\<lambda>t. t @ [0]) ts) @ [0])"

definition structure_bytes :: "SmbiosStructure \<Rightarrow> bytes" where
  "structure_bytes s = Data s @ strings_bytes (Strings s)"

definition well_formed :: "SmbiosStructure \<Rightarrow> bool" where
  "well_formed s \<longleftrightarrow> 4 \<le> length (Data s) \<and> unat (Data s ! 1) = length (Data s) \<and>
     (\<forall>t \<in> set (Strings s). t \<noteq> [] \<and> 0 \<notin> set t)"

lemma structure_strings_written:
  "\<forall>t \<in> set ts. t \<noteq> [] \<and> 0 \<notin> set t \<Longrightarrow>
   structure_strings (concat (map (\<lambda>t. t @ [0]) ts) @ 0 # rest) = (ts, length (concat (map (\<lambda>t. t @ [0]) ts)))"
proof (induction ts)
  case Nil
  then show ?case by (subst structure_strings.simps) simp
next
  case (Cons t ts)
  have t: "t \<noteq> []" "0 \<notin> set t" using Cons.prems by auto
  then have hd: "hd (t @ r) \<noteq> 0" for r by (cases t) auto
  have tw: "takeWhile not_nul (t @ 0 # r) = t" for r
    using t(2) by (induction t) (auto simp: not_nul_def)
  show ?case
    by (subst structure_strings.simps) (use Cons t hd tw in \<open>simp add: Let_def\<close>)
qed

lemma structure_strings_end:
  assumes "\<forall>t \<in> set ts. t \<noteq> [] \<and> 0 \<notin> set t"
  shows "fst (structure_strings (strings_bytes ts @ rest)) = ts"
    and "next_structure (strings_bytes ts @ rest) (snd (structure_strings (strings_bytes ts @ rest))) = length (strings_bytes ts)"
proof -
  have "structure_strings (strings_bytes ts @ rest) = (ts, length (concat (map (\<lambda>t. t @ [0]) ts)))"
    using structure_strings_written [OF assms, of "if ts = [] then 0 # rest else rest"]
    by (cases "ts = []") (simp_all add: strings_bytes_def)
  then show "fst (structure_strings (strings_bytes ts @ rest)) = ts"
    and "next_structure (strings_bytes ts @ rest) (snd (structure_strings (strings_bytes ts @ rest))) = length (strings_bytes ts)"
    by (auto simp: next_structure_def strings_bytes_def)
qed

lemma structures_step:
  assumes "unat (p ! 1) = len" and "4 \<le> len" and "len \<le> length p" and q: "drop len p = q"
  shows "structures p = \<lparr>Data = take len p, Strings = fst (structure_strings q)\<rparr> #
    (if p ! 0 = 127 then [] else structures (drop (next_structure q (snd (structure_strings q))) q))"
proof -
  have "drop (len + n) p = drop n q" for n using drop_drop [of n len p] q by (simp add: add.commute)
  then show ?thesis
    by (subst structures.simps) (use assms in \<open>simp add: Let_def\<close>)
qed

lemma structures_written:
  assumes "well_formed s"
  shows "structures (structure_bytes s @ rest) = s # (if structure_type s = 127 then [] else structures rest)"
proof -
  let ?p = "structure_bytes s @ rest" and ?q = "strings_bytes (Strings s) @ rest"
  have len: "4 \<le> length (Data s)" "unat (Data s ! 1) = length (Data s)" and ts: "\<forall>t \<in> set (Strings s). t \<noteq> [] \<and> 0 \<notin> set t"
    using assms by (auto simp: well_formed_def)
  have k: "?p ! k = Data s ! k" if "k < length (Data s)" for k using that by (simp add: structure_bytes_def nth_append)
  have p: "?p ! 1 = Data s ! 1" "?p ! 0 = Data s ! 0" by (rule k, use len in linarith)+
  have "structures ?p = \<lparr>Data = take (length (Data s)) ?p, Strings = fst (structure_strings ?q)\<rparr> #
      (if ?p ! 0 = 127 then [] else structures (drop (next_structure ?q (snd (structure_strings ?q))) ?q))"
    by (rule structures_step) (use len p in \<open>auto simp: structure_bytes_def\<close>)
  moreover have "take (length (Data s)) ?p = Data s" by (simp add: structure_bytes_def)
  ultimately show ?thesis by (simp add: structure_strings_end [OF ts] structure_type_def p)
qed

definition table_of :: "SmbiosStructure list \<Rightarrow> bytes" where
  "table_of ss = concat (map structure_bytes ss)"

lemma structures_table:
  assumes "\<forall>s \<in> set ss. well_formed s \<and> structure_type s \<noteq> 127" and "well_formed e" and "structure_type e = 127"
  shows "structures (table_of (ss @ [e]) @ rest) = ss @ [e]"
  using assms(1) by (induction ss) (use assms(2,3) in \<open>auto simp: table_of_def structures_written\<close>)

section \<open>The hardware of a table\<close>

definition devices :: "(bytes \<Rightarrow> wstr) \<Rightarrow> SmbiosStructure list \<Rightarrow> MemoryModule list" where
  "devices ansi ss = List.map_filter (memory_module ansi) (filter (\<lambda>s. structure_type s = 17) ss)"

definition slots :: "SmbiosStructure list \<Rightarrow> u32" where
  "slots ss = (\<Sum>s \<leftarrow> filter (\<lambda>s. structure_type s = 16 \<and> Byte s 0x05 = 0x03) ss. ucast (Word s 0x0D))"

definition bios_of :: "(bytes \<Rightarrow> wstr) \<Rightarrow> SmbiosStructure list \<Rightarrow> wstr \<Rightarrow> wstr" where
  "bios_of ansi ss none =
     (case find (\<lambda>s. structure_type s = 0) (rev ss) of None \<Rightarrow> none | Some s \<Rightarrow> String ansi s 0x04)"

lemmas add_defs = add_structure_def add_bios_def add_system_def add_board_def add_array_def add_device_def

lemma fold_modules: "Modules (fold (add_structure ansi) ss hw) = Modules hw @ devices ansi ss"
  by (induction ss arbitrary: hw)
    (auto simp: add_defs devices_def List.map_filter_def split: option.splits)

lemma fold_slots: "MemorySlots (fold (add_structure ansi) ss hw) = MemorySlots hw + slots ss"
  by (induction ss arbitrary: hw) (auto simp: add_defs slots_def split: option.splits)

lemma fold_bios: "BiosVendor (fold (add_structure ansi) ss hw) = bios_of ansi ss (BiosVendor hw)"
proof (induction ss arbitrary: hw)
  case (Cons s ss)
  then show ?case by (auto simp: add_defs bios_of_def find_append split: option.splits)
qed (simp add: bios_of_def)

lemma fold_version: "SmbiosMajor (fold (add_structure ansi) ss hw) = SmbiosMajor hw \<and> InstalledMemory (fold (add_structure ansi) ss hw) = InstalledMemory hw"
  by (induction ss arbitrary: hw) (auto simp: add_defs split: option.splits)

text \<open>The buffer of \<open>GetSystemFirmwareTable\<close>: calling method, major, minor, DMI revision, the length, the table.\<close>

definition raw_table :: "byte \<Rightarrow> byte \<Rightarrow> bytes \<Rightarrow> bytes" where
  "raw_table major minor t = [0, major, minor, 0] @ le_bytes 4 (length t) @ t"

definition calls_of :: "bytes \<Rightarrow> HardwareCalls" where
  "calls_of buffer = \<lparr>InstalledKB = None, Pages = None, TableSize = length buffer, TableRead = (length buffer, buffer)\<rparr>"

lemma table_bytes_raw:
  assumes "length t < 2 ^ 32"
  shows "table_bytes (raw_table major minor t @ junk) = t"
proof -
  have "u32_at (raw_table major minor t @ junk) 4 = of_nat (length t)"
    using assms by (simp add: u32_at_def raw_table_def le_nat_le_bytes)
  moreover have "unat (of_nat (length t) :: u32) = length t" using assms by (simp add: unat_of_nat mod_less)
  moreover have "drop 8 (raw_table major minor t @ junk) = t @ junk" by (simp add: raw_table_def)
  ultimately show ?thesis by (simp add: table_bytes_def raw_table_def)
qed

text \<open>C14: from a well-formed SMBIOS table (whatever follows its end) the hardware holds exactly the memory devices with
  something in them, in the table's order, with their sizes, types and speeds; the slots are those of the system memory's
  arrays, and the BIOS vendor is the last BIOS structure's.\<close>

theorem GetHardware_written:
  assumes "\<forall>s \<in> set ss. well_formed s \<and> structure_type s \<noteq> 127" and "well_formed e" and "structure_type e = 127"
    and "length (table_of (ss @ [e])) < 2 ^ 32"
  shows "let hw = GetHardware ansi (calls_of (raw_table major minor (table_of (ss @ [e])) @ junk))
    in SmbiosMajor hw = major \<and> Modules hw = devices ansi ss \<and> MemorySlots hw = slots ss \<and>
       BiosVendor hw = bios_of ansi ss []"
proof -
  let ?t = "table_of (ss @ [e])" and ?hw = "memory_of (calls_of (raw_table major minor (table_of (ss @ [e])) @ junk))"
  have "GetHardware ansi (calls_of (raw_table major minor ?t @ junk)) =
      fold (add_structure ansi) (ss @ [e]) (?hw\<lparr>SmbiosMajor := major, SmbiosMinor := minor\<rparr>)"
    using table_bytes_raw [OF assms(4), of major minor junk] structures_table [OF assms(1-3), of "[]"]
    by (simp add: GetHardware_def calls_of_def Let_def) (simp add: raw_table_def)
  moreover have "devices ansi (ss @ [e]) = devices ansi ss" "slots (ss @ [e]) = slots ss"
    "bios_of ansi (ss @ [e]) n = bios_of ansi ss n" for n
    using assms(3) by (simp_all add: devices_def slots_def bios_of_def List.map_filter_def)
  ultimately show ?thesis
    by (simp add: Let_def fold_modules fold_slots fold_bios fold_version memory_of_def no_hardware_def del: fold_append)
qed

text \<open>A table with an array of two slots, one of them filled with 16 GB of DDR4.\<close>

definition sample_array :: SmbiosStructure where
  "sample_array = \<lparr>Data = [16, 15, 1, 0, 3, 3] @ replicate 7 0 @ [2, 0], Strings = []\<rparr>"

definition sample_device :: SmbiosStructure where
  "sample_device = \<lparr>Data = [17, 27, 2, 0] @ replicate 8 0 @ [0, 64] @ [9, 0, 1, 0, 0x1A, 0, 0, 0x80, 0x0C, 0, 0, 0, 0], Strings = [narrow ''DIMM0'']\<rparr>"

definition sample_end :: SmbiosStructure where
  "sample_end = \<lparr>Data = [127, 4, 3, 0], Strings = []\<rparr>"

lemma GetHardware_written_witness:
  "let hw = GetHardware (map ucast) (calls_of (raw_table 3 4 (table_of ([sample_array, sample_device] @ [sample_end])) @ [1, 2]))
    in SmbiosMajor hw = 3 \<and> Modules hw = devices (map ucast) [sample_array, sample_device] \<and> MemorySlots hw = slots [sample_array, sample_device] \<and>
       BiosVendor hw = bios_of (map ucast) [sample_array, sample_device] []"
proof (rule GetHardware_written)
  have "length (table_of ([sample_array, sample_device] @ [sample_end])) = 57" by code_simp
  then show "length (table_of ([sample_array, sample_device] @ [sample_end])) < 2 ^ 32" by simp
qed code_simp+

lemma sample_hardware:
  "devices (map ucast) [sample_array, sample_device] =
     [\<lparr>Locator = wide ''DIMM0'', BankLocator = [], Manufacturer = [], PartNumber = [], MemoryType = wide ''DDR4'',
       FormFactor = wide ''DIMM'', ModuleSize = 0x400000000, Speed = 3200, ConfiguredSpeed = 0\<rparr>]"
  "slots [sample_array, sample_device] = 2"
  by code_simp+

end
