(* ===== verification/System_Info.thy ===== *)
theory System_Info
  imports C_Text
begin

unbundle bit_operations_syntax

text \<open>
  The queries of the system (\<open>WinSys/SystemInfo.cpp\<close>): the buffers that grow until the data fits, the arrays and linked
  entries in them, the processors with their groups and cores. \<open>NtQuerySystemInformation\<close> is a parameter (\<open>kernel\<close>); the
  native structures are read at the offsets of the 64-bit layout, or as bytes where only the caller looks into them.
  A pointer into the buffer is its position; distances to a next entry are taken to stay in the address space.
\<close>

section \<open>Queries\<close>

text \<open>
  \<open>NtQuerySystemInformation(Ex)\<close>: a class (by its name), the input, the size of the buffer; a status, the length that
  the call stores, and what is in the buffer then.
\<close>

type_synonym kernel = "string \<Rightarrow> bytes \<Rightarrow> nat \<Rightarrow> u32 \<times> nat \<times> bytes"

definition NT_SUCCESS :: "u32 \<Rightarrow> bool" where
  "NT_SUCCESS status \<longleftrightarrow> status < 0x80000000"

definition MaxBufferSize :: nat where "MaxBufferSize = 2 ^ 30"
definition MaxGuessedBufferSize :: nat where "MaxGuessedBufferSize = 2 ^ 24"

definition IsBufferTooSmall :: "u32 \<Rightarrow> bool" where
  "IsBufferTooSmall status \<longleftrightarrow> status = 0xC0000004 \<or> status = 0xC0000023 \<or> status = 0x80000005"

definition GrowBuffer :: "nat \<Rightarrow> nat \<Rightarrow> nat \<Rightarrow> nat" where
  "GrowBuffer current required elementSize =
     (let bigger = required > current; n = (if bigger then required + required div 8 else current * 2)
      in if n > (if bigger then MaxBufferSize else MaxGuessedBufferSize) then 0
         else (n + elementSize - 1) div elementSize * elementSize)"

text \<open>The buffer of a call: as many bytes as it was given; a status, and the part that was returned.\<close>

definition call :: "kernel \<Rightarrow> string \<Rightarrow> bytes \<Rightarrow> nat \<Rightarrow> u32 \<times> nat \<times> bytes" where
  "call k cls input n = (case k cls input n of (status, len, data) \<Rightarrow> (status, len, take n (data @ replicate n 0)))"

lemma rounded_up: "0 < (e :: nat) \<Longrightarrow> n \<le> (n + e - 1) div e * e"
proof -
  assume e: "0 < e"
  have "(n + e - 1) div e * e + (n + e - 1) mod e = n + e - 1" by simp
  moreover have "(n + e - 1) mod e \<le> e - 1" using e by (simp add: less_Suc_eq_le [symmetric] Suc_diff_1)
  ultimately show ?thesis using e by linarith
qed

lemma GrowBuffer_grows:
  assumes "GrowBuffer current required e \<noteq> 0" and "0 < e"
  shows "current < GrowBuffer current required e" and "current < MaxBufferSize"
proof -
  let ?n = "if required > current then required + required div 8 else current * 2"
  have g: "GrowBuffer current required e = (?n + e - 1) div e * e" "?n \<le> MaxBufferSize"
    using assms(1) by (auto simp: GrowBuffer_def Let_def MaxBufferSize_def MaxGuessedBufferSize_def split: if_splits)
  have "?n \<noteq> 0"
  proof
    assume "?n = 0"
    then have "GrowBuffer current required e = 0" using g(1) assms(2) by simp
    then show False using assms(1) by simp
  qed
  then have "current < ?n" by (auto split: if_splits)
  moreover have "?n \<le> (?n + e - 1) div e * e" by (rule rounded_up [OF assms(2)])
  ultimately show "current < GrowBuffer current required e" "current < MaxBufferSize" using g by linarith+
qed

function query_from :: "(nat \<Rightarrow> u32 \<times> nat \<times> bytes) \<Rightarrow> nat \<Rightarrow> nat \<Rightarrow> u32 \<times> bytes option" where
  "query_from q elementSize n =
     (case q n of (status, len, data) \<Rightarrow>
        if NT_SUCCESS status then (status, Some (if len < n then take len data else data))
        else if \<not> IsBufferTooSmall status then (status, None)
        else if elementSize = 0 \<or> GrowBuffer n len elementSize = 0 then (status, None)
        else query_from q elementSize (GrowBuffer n len elementSize))"
  by pat_completeness auto

termination
proof (relation "measure (\<lambda>(q, e, n). MaxBufferSize - n)")
  fix q :: "nat \<Rightarrow> u32 \<times> nat \<times> bytes" and e n x status y len and data :: bytes
  assume "\<not> (e = 0 \<or> GrowBuffer n len e = 0)"
  then show "((q, e, GrowBuffer n len e), q, e, n) \<in> measure (\<lambda>(q, e, n). MaxBufferSize - n)"
    using GrowBuffer_grows [of n len e] by auto
qed simp

declare query_from.simps [simp del]

definition Query :: "kernel \<Rightarrow> string \<Rightarrow> nat \<Rightarrow> bytes \<Rightarrow> nat \<Rightarrow> u32 \<times> bytes option" where
  "Query k cls initialSize input elementSize = query_from (call k cls input) elementSize initialSize"

definition group_input :: "u16 option \<Rightarrow> bytes" where
  "group_input g = (case g of None \<Rightarrow> [] | Some n \<Rightarrow> le_bytes 2 (unat n))"

definition QueryGroup :: "kernel \<Rightarrow> string \<Rightarrow> u16 option \<Rightarrow> nat \<Rightarrow> nat \<Rightarrow> u32 \<times> bytes option" where
  "QueryGroup k cls g initialSize elementSize = Query k cls initialSize (group_input g) elementSize"

text \<open>
  A structure of \<open>n\<close> bytes, with the fields that are input; where the kernel has a larger one, what is known of it.
\<close>

definition QueryFixed :: "kernel \<Rightarrow> string \<Rightarrow> nat \<Rightarrow> bytes \<Rightarrow> u32 \<times> bytes option" where
  "QueryFixed k cls n v =
     (case call k cls v n of (status, len, data) \<Rightarrow>
        if NT_SUCCESS status then (status, Some data)
        else if \<not> IsBufferTooSmall status \<or> len \<le> n then (status, None)
        else case call k cls (take n (data @ replicate n 0)) len of (status2, len2, data2) \<Rightarrow>
          (status2, if NT_SUCCESS status2 then Some (take n data2) else None))"

definition QueryFixedEx :: "kernel \<Rightarrow> string \<Rightarrow> nat \<Rightarrow> bytes \<Rightarrow> u32 \<times> bytes option" where
  "QueryFixedEx k cls n input =
     (case call k cls input n of (status, len, data) \<Rightarrow> (status, if NT_SUCCESS status then Some data else None))"

section \<open>Arrays in a buffer\<close>

text \<open>The \<open>n\<close> elements of \<open>size\<close> bytes from an offset on, as many as the buffer holds.\<close>

fun chunks :: "nat \<Rightarrow> nat \<Rightarrow> bytes \<Rightarrow> bytes list" where
  "chunks 0 e s = []"
| "chunks (Suc n) e s = take e s # chunks n e (drop e s)"

definition ToVector :: "nat \<Rightarrow> bytes \<Rightarrow> nat \<Rightarrow> nat \<Rightarrow> bytes list" where
  "ToVector e buffer first n =
     (if first \<ge> length buffer then []
      else chunks (min n ((length buffer - first) div e)) e (drop first buffer))"

definition ToVector_all :: "nat \<Rightarrow> bytes option \<Rightarrow> bytes list" where
  "ToVector_all e buffer = (case buffer of None \<Rightarrow> [] | Some b \<Rightarrow> ToVector e b 0 (length b div e))"

definition QueryArray :: "kernel \<Rightarrow> string \<Rightarrow> nat \<Rightarrow> u16 option \<Rightarrow> bytes list" where
  "QueryArray k cls e g = ToVector_all e (snd (QueryGroup k cls g (e * 256) e))"

definition IsInside :: "bytes \<Rightarrow> nat \<Rightarrow> nat \<Rightarrow> bool" where
  "IsInside buffer p n \<longleftrightarrow> p + n \<le> length buffer"

text \<open>A counted array behind a header: the number of elements at \<open>at\<close>, the elements at \<open>first\<close>.\<close>

definition counted_array :: "nat \<Rightarrow> nat \<Rightarrow> nat \<Rightarrow> nat \<Rightarrow> bytes option \<Rightarrow> bytes list" where
  "counted_array header at first e buffer =
     (case buffer of None \<Rightarrow> []
      | Some b \<Rightarrow> if length b < header then [] else ToVector e b first (unat (u32_at b at)))"

section \<open>Strings\<close>

text \<open>A \<open>UNICODE_STRING\<close> (16 bytes: lengths, then the address); \<open>chars\<close> are the characters at an address.\<close>

definition UnicodeString :: "(u64 \<Rightarrow> nat \<Rightarrow> wstr) \<Rightarrow> bytes \<Rightarrow> nat \<Rightarrow> wstr" where
  "UnicodeString chars s p = (if u64_at s (p + 8) = 0 then [] else chars (u64_at s (p + 8)) (unat (u16_at s p) div 2))"

definition ansi_array :: "bytes \<Rightarrow> nat \<Rightarrow> nat \<Rightarrow> bytes" where
  "ansi_array s p n = until_nul n (drop p s)"

definition wide_array :: "bytes \<Rightarrow> nat \<Rightarrow> nat \<Rightarrow> wstr" where
  "wide_array s p n = until_nul n (units (drop p s))"

definition QueryString :: "kernel \<Rightarrow> (u64 \<Rightarrow> nat \<Rightarrow> wstr) \<Rightarrow> string \<Rightarrow> wstr" where
  "QueryString k chars cls =
     (case snd (Query k cls 1024 [] 1) of None \<Rightarrow> []
      | Some b \<Rightarrow> if length b < 16 then [] else UnicodeString chars b 0)"

section \<open>Linked entries\<close>

text \<open>
  The loops over entries that begin with the distance to the next one: while the fixed part of an entry is inside the
  buffer, until a distance of zero. \<open>next\<close> reads the distance, \<open>parse\<close> the entry, at a position.
\<close>

function linked :: "nat \<Rightarrow> (bytes \<Rightarrow> nat \<Rightarrow> nat) \<Rightarrow> (bytes \<Rightarrow> nat \<Rightarrow> 'a) \<Rightarrow> bytes \<Rightarrow> nat \<Rightarrow> 'a list" where
  "linked fixed next_of parse buffer p =
     (if 0 < fixed \<and> IsInside buffer p fixed
      then parse buffer p # (if next_of buffer p = 0 then [] else linked fixed next_of parse buffer (p + next_of buffer p))
      else [])"
  by pat_completeness auto

termination
  by (relation "measure (\<lambda>(fixed, next_of, parse, buffer, p). length buffer - p)") (auto simp: IsInside_def)

declare linked.simps [simp del]

definition next_u32 :: "bytes \<Rightarrow> nat \<Rightarrow> nat" where
  "next_u32 b p = unat (u32_at b p)"

section \<open>Processes\<close>

text \<open>
  \<open>SYSTEM_PROCESS_INFORMATION\<close> has 256 bytes before its threads; a thread has 80 bytes, an extended one 136, of which the
  first 80 are the thread. \<open>Names\<close> holds what the buffer points to (the characters at an address), how a SID prints, and
  the layout of the extension, which depends on the version of the native headers.
\<close>

record Names =
  CharsAt :: "u64 \<Rightarrow> nat \<Rightarrow> wstr"
  SidText :: "bytes \<Rightarrow> wstr option"
  sizeof_Extension :: nat
  PackageFullNameOffset :: "bytes \<Rightarrow> nat"
  AppIdOffset :: "bytes \<Rightarrow> nat"
  UserSidOffset :: "bytes \<Rightarrow> nat"

record Process =
  Info :: bytes
  ImageName :: wstr
  Threads :: "bytes list"
  Extension :: "bytes option"
  PackageFullName :: wstr
  AppId :: wstr
  UserSid :: wstr

definition ThreadsOffset :: nat where "ThreadsOffset = 256"
definition sizeof_Thread :: nat where "sizeof_Thread = 80"
definition sizeof_ExtendedThread :: nat where "sizeof_ExtendedThread = 136"

text \<open>A field of zeros: the name's \<open>UNICODE_STRING\<close> at 56 and the distance to the next entry are cleared in the copy.\<close>

definition clear :: "nat \<Rightarrow> nat \<Rightarrow> bytes \<Rightarrow> bytes" where
  "clear p n s = take p s @ replicate n 0 @ drop (p + n) s"

definition process_threads :: "bool \<Rightarrow> bytes \<Rightarrow> nat \<Rightarrow> bytes list" where
  "process_threads extendedThreads b p =
     (let n = unat (u32_at b (p + 4))
      in if extendedThreads then ToVector sizeof_ExtendedThread b (p + ThreadsOffset) n
         else map (\<lambda>t. t @ replicate (sizeof_ExtendedThread - sizeof_Thread) 0) (ToVector sizeof_Thread b (p + ThreadsOffset) n))"

definition extension_text :: "bytes \<Rightarrow> nat \<Rightarrow> wstr" where
  "extension_text b p = until_nul (length b) (units (drop p b))"

definition add_extension :: "Names \<Rightarrow> bytes \<Rightarrow> nat \<Rightarrow> Process \<Rightarrow> Process" where
  "add_extension nm b ext process =
     (if \<not> IsInside b ext (sizeof_Extension nm) then process
      else
        let x = take (sizeof_Extension nm) (drop ext b);
            text_at = (\<lambda>offset. if offset = 0 then [] else extension_text b (ext + offset))
        in process\<lparr>Extension := Some x, PackageFullName := text_at (PackageFullNameOffset nm x),
             AppId := text_at (AppIdOffset nm x),
             UserSid := (if UserSidOffset nm x = 0 then []
               else case SidText nm (drop (ext + UserSidOffset nm x) b) of None \<Rightarrow> [] | Some t \<Rightarrow> t)\<rparr>)"

definition parse_process :: "Names \<Rightarrow> bool \<Rightarrow> bool \<Rightarrow> bytes \<Rightarrow> nat \<Rightarrow> Process" where
  "parse_process nm extendedThreads extension b p =
     (let process = \<lparr>Info = clear 56 16 (clear 0 4 (take ThreadsOffset (drop p b))), ImageName = UnicodeString (CharsAt nm) b (p + 56),
            Threads = process_threads extendedThreads b p, Extension = None, PackageFullName = [], AppId = [], UserSid = []\<rparr>
      in if extension \<and> u64_at b (p + 80) \<noteq> 0
         then add_extension nm b (p + ThreadsOffset + sizeof_ExtendedThread * unat (u32_at b (p + 4))) process
         else process)"

definition ParseProcesses :: "Names \<Rightarrow> bytes \<Rightarrow> bool \<Rightarrow> bool \<Rightarrow> Process list" where
  "ParseProcesses nm b extendedThreads extension =
     linked ThreadsOffset next_u32 (parse_process nm extendedThreads extension) b 0"

definition parsed :: "(bytes \<Rightarrow> 'a list) \<Rightarrow> bytes option \<Rightarrow> 'a list" where
  "parsed parse buffer = (case buffer of None \<Rightarrow> [] | Some b \<Rightarrow> parse b)"

definition QueryProcesses :: "kernel \<Rightarrow> Names \<Rightarrow> string \<Rightarrow> bool \<Rightarrow> bool \<Rightarrow> Process list" where
  "QueryProcesses k nm cls extendedThreads extension =
     parsed (\<lambda>b. ParseProcesses nm b extendedThreads extension) (snd (Query k cls (2 ^ 20) [] 1))"

definition GetProcessInformation :: "kernel \<Rightarrow> Names \<Rightarrow> Process list" where
  "GetProcessInformation k nm = QueryProcesses k nm ''SystemProcessInformation'' False False"

definition GetExtendedProcessInformation :: "kernel \<Rightarrow> Names \<Rightarrow> Process list" where
  "GetExtendedProcessInformation k nm = QueryProcesses k nm ''SystemExtendedProcessInformation'' True False"

definition GetFullProcessInformation :: "kernel \<Rightarrow> Names \<Rightarrow> Process list" where
  "GetFullProcessInformation k nm = QueryProcesses k nm ''SystemFullProcessInformation'' True True"

text \<open>A session's processes: the session and the buffer's size and address are the input; the kernel fills the buffer.\<close>

function session_from :: "(nat \<Rightarrow> u32 \<times> nat \<times> bytes) \<Rightarrow> nat \<Rightarrow> bytes option" where
  "session_from q n =
     (case q n of (status, len, data) \<Rightarrow>
        if NT_SUCCESS status then Some (if len \<noteq> 0 \<and> len < n then take len data else data)
        else if \<not> IsBufferTooSmall status \<or> GrowBuffer n len 1 = 0 then None
        else session_from q (GrowBuffer n len 1))"
  by pat_completeness auto

termination
proof (relation "measure (\<lambda>(q, n). MaxBufferSize - n)")
  fix q :: "nat \<Rightarrow> u32 \<times> nat \<times> bytes" and n x status y len and data :: bytes
  assume "\<not> (\<not> IsBufferTooSmall status \<or> GrowBuffer n len 1 = 0)"
  then show "((q, GrowBuffer n len 1), q, n) \<in> measure (\<lambda>(q, n). MaxBufferSize - n)"
    using GrowBuffer_grows [of n len 1] by auto
qed simp

declare session_from.simps [simp del]

definition GetSessionProcessInformation :: "kernel \<Rightarrow> Names \<Rightarrow> u32 \<Rightarrow> Process list" where
  "GetSessionProcessInformation k nm sessionId =
     parsed (\<lambda>b. ParseProcesses nm b False False)
       (session_from (call k ''SystemSessionProcessInformation'' (le_bytes 4 (unat sessionId))) (2 ^ 18))"

section \<open>Page files, pool tags, drivers, views\<close>

record PageFile =
  pf_Info :: bytes
  pf_Name :: wstr

definition parse_page_file :: "Names \<Rightarrow> nat \<Rightarrow> bytes \<Rightarrow> nat \<Rightarrow> PageFile" where
  "parse_page_file nm n b p =
     \<lparr>pf_Info = clear 16 16 (clear 0 4 (take n (drop p b) @ replicate (40 - n) 0)), pf_Name = UnicodeString (CharsAt nm) b (p + 16)\<rparr>"

definition QueryPageFiles :: "kernel \<Rightarrow> Names \<Rightarrow> string \<Rightarrow> bool \<Rightarrow> PageFile list" where
  "QueryPageFiles k nm cls ex =
     (let n = if ex then 40 else 32
      in parsed (\<lambda>b. linked n next_u32 (parse_page_file nm n) b 0) (snd (Query k cls 1024 [] 1)))"

record SessionPoolTags =
  SessionId :: u32
  Tags :: "bytes list"

definition sizeof_PoolTag :: nat where "sizeof_PoolTag = 40"

definition parse_session_tags :: "bytes \<Rightarrow> nat \<Rightarrow> SessionPoolTags" where
  "parse_session_tags b p =
     \<lparr>SessionId = u32_at b (p + 8), Tags = ToVector sizeof_PoolTag b (p + 16) (unat (u32_at b (p + 12)))\<rparr>"

definition QuerySessionPoolTags :: "kernel \<Rightarrow> string \<Rightarrow> SessionPoolTags list" where
  "QuerySessionPoolTags k cls =
     parsed (\<lambda>b. linked 16 (\<lambda>b p. unat (u64_at b p)) parse_session_tags b 0) (snd (Query k cls (2 ^ 16) [] 1))"

text \<open>A module with its full path and the file's name in it (\<open>OffsetToFileName\<close> at 38, the path at 40, 296 bytes).\<close>

record Module =
  m_Info :: bytes
  FullPath :: bytes
  FileName :: bytes

definition sizeof_Module :: nat where "sizeof_Module = 296"

definition to_module :: "bytes \<Rightarrow> bytes \<Rightarrow> Module" where
  "to_module whole info =
     (let path = ansi_array info 40 256; k = unat (u16_at info 38)
      in \<lparr>m_Info = whole, FullPath = path, FileName = (if k < length path then drop k path else [])\<rparr>)"

definition GetKernelModuleInformation :: "kernel \<Rightarrow> Module list" where
  "GetKernelModuleInformation k =
     map (\<lambda>m. to_module m m) (counted_array 4 0 8 sizeof_Module (snd (Query k ''SystemModuleInformation'' (2 ^ 16) [] 1)))"

definition ToModuleEx :: "bytes \<Rightarrow> Module" where
  "ToModuleEx info = to_module info (take sizeof_Module (drop 8 info))"

definition sizeof_ModuleEx :: nat where "sizeof_ModuleEx = 320"

text \<open>The last entry is an empty terminator.\<close>

function modules_ex :: "bytes \<Rightarrow> nat \<Rightarrow> Module list" where
  "modules_ex b p =
     (if \<not> IsInside b p sizeof_ModuleEx then []
      else
        let info = take sizeof_ModuleEx (drop p b); next_of = unat (u16_at b p)
        in if next_of = 0 \<and> u8_at info 48 = 0 then []
           else (ToModuleEx info)\<lparr>m_Info := clear 0 2 info\<rparr> # (if next_of = 0 then [] else modules_ex b (p + next_of)))"
  by pat_completeness auto

termination
  by (relation "measure (\<lambda>(b, p). length b - p)") (auto simp: IsInside_def sizeof_ModuleEx_def)

declare modules_ex.simps [simp del]

definition GetKernelModuleInformationEx :: "kernel \<Rightarrow> Module list" where
  "GetKernelModuleInformationEx k = parsed (\<lambda>b. modules_ex b 0) (snd (Query k ''SystemModuleInformationEx'' (2 ^ 16) [] 1))"

text \<open>The drivers of the verifier (\<open>n\<close> bytes, the name's string at \<open>at\<close>, by the version of the headers) and the mapped views of sessions: copies with the distance cleared.\<close>

definition GetVerifierInformation :: "kernel \<Rightarrow> Names \<Rightarrow> nat \<Rightarrow> nat \<Rightarrow> (bytes \<times> wstr) list" where
  "GetVerifierInformation k nm n at =
     parsed (\<lambda>b. linked n next_u32 (\<lambda>b p. (clear at 16 (clear 0 4 (take n (drop p b))), UnicodeString (CharsAt nm) b (p + at))) b 0)
       (snd (Query k ''SystemVerifierInformation'' 4096 [] 1))"

definition GetSessionMappedViewInformation :: "kernel \<Rightarrow> bytes list" where
  "GetSessionMappedViewInformation k =
     parsed (\<lambda>b. linked 32 (\<lambda>b p. unat (u64_at b p)) (\<lambda>b p. clear 0 8 (take 32 (drop p b))) b 0)
       (snd (Query k ''SystemSessionMappedViewInformation'' 1024 [] 1))"

section \<open>Arrays behind a header\<close>

definition GetPoolTagInformation :: "kernel \<Rightarrow> bytes list" where
  "GetPoolTagInformation k = counted_array 4 0 8 sizeof_PoolTag (snd (Query k ''SystemPoolTagInformation'' (2 ^ 18) [] 1))"

definition GetHandleInformation :: "kernel \<Rightarrow> bytes list" where
  "GetHandleInformation k = counted_array 4 0 8 24 (snd (Query k ''SystemHandleInformation'' (2 ^ 20) [] 1))"

definition GetExtendedHandleInformation :: "kernel \<Rightarrow> bytes list" where
  "GetExtendedHandleInformation k =
     (case snd (Query k ''SystemExtendedHandleInformation'' (2 ^ 20) [] 1) of None \<Rightarrow> []
      | Some b \<Rightarrow> if length b < 16 then [] else ToVector 40 b 16 (unat (u64_at b 0)))"

definition GetBigPoolInformation :: "kernel \<Rightarrow> bytes list" where
  "GetBigPoolInformation k = counted_array 8 0 8 24 (snd (Query k ''SystemBigPoolInformation'' (2 ^ 20) [] 1))"

definition GetRootSiloInformation :: "kernel \<Rightarrow> u32 list" where
  "GetRootSiloInformation k = map (\<lambda>e. u32_at e 0) (counted_array 4 0 4 4 (snd (Query k ''SystemRootSiloInformation'' 1024 [] 1)))"

text \<open>The supported architectures end with a zero entry (the machine is the low half of an entry).\<close>

definition QueryArchitectures :: "kernel \<Rightarrow> string \<Rightarrow> bytes \<Rightarrow> bytes list" where
  "QueryArchitectures k cls hProcess =
     takeWhile (\<lambda>item. u16_at item 0 \<noteq> 0) (ToVector_all 4 (snd (Query k cls 256 hProcess 1)))"

record CpuSetList =
  ListId :: u64
  CpuSets :: "u64 list"

definition QueryCpuSetList :: "kernel \<Rightarrow> string \<Rightarrow> CpuSetList option" where
  "QueryCpuSetList k cls =
     (case snd (Query k cls 256 [] 1) of None \<Rightarrow> None
      | Some b \<Rightarrow>
          if length b < 8 then None
          else Some \<lparr>ListId = u64_at b 0, CpuSets = map (\<lambda>e. u64_at e 0) (ToVector 8 b 8 (length b div 8 - 1))\<rparr>)"

text \<open>CPU sets: entries of their own size; what this version knows of each (32 bytes) is copied.\<close>

function cpu_sets_from :: "bytes \<Rightarrow> nat \<Rightarrow> bytes list" where
  "cpu_sets_from b p =
     (let n = unat (u32_at b p)
      in if \<not> IsInside b p 8 \<or> n = 0 \<or> \<not> IsInside b p n then []
         else (take (min n 32) (drop p b) @ replicate (32 - n) 0) # cpu_sets_from b (p + n))"
  by pat_completeness auto

termination
  by (relation "measure (\<lambda>(b, p). length b - p)") (auto simp: IsInside_def)

declare cpu_sets_from.simps [simp del]

definition GetCpuSetInformation :: "kernel \<Rightarrow> bytes \<Rightarrow> bytes list" where
  "GetCpuSetInformation k hProcess = parsed (\<lambda>b. cpu_sets_from b 0) (snd (Query k ''SystemCpuSetInformation'' (2 ^ 14) hProcess 1))"

text \<open>The brand string.\<close>

definition GetProcessorBrandString :: "kernel \<Rightarrow> bytes" where
  "GetProcessorBrandString k = parsed (\<lambda>b. ansi_array b 0 (length b)) (snd (Query k ''SystemProcessorBrandString'' 64 [] 1))"

text \<open>Stack traces: at most the depth of 32 frames of each.\<close>

record BackTrace =
  TraceCount :: u32
  Index :: u16
  Frames :: "u64 list"

definition back_trace :: "bytes \<Rightarrow> BackTrace" where
  "back_trace bt =
     \<lparr>TraceCount = u32_at bt 8, Index = u16_at bt 12, Frames = map (\<lambda>e. u64_at e 0) (chunks (min (unat (u16_at bt 14)) 32) 8 (drop 16 bt))\<rparr>"

record StackTraces =
  CommittedMemory :: u32
  ReservedMemory :: u32
  NumberOfLookups :: u32
  BackTraces :: "BackTrace list"

definition GetStackTraceInformation :: "kernel \<Rightarrow> StackTraces option" where
  "GetStackTraceInformation k =
     (case snd (Query k ''SystemStackTraceInformation'' (2 ^ 16) [] 1) of None \<Rightarrow> None
      | Some b \<Rightarrow>
          if length b < 16 then None
          else Some \<lparr>CommittedMemory = u32_at b 0, ReservedMemory = u32_at b 4, NumberOfLookups = u32_at b 8,
            BackTraces = map back_trace (ToVector 272 b 16 (unat (u32_at b 12)))\<rparr>)"

text \<open>The boot logo: flags and the bitmap's offset; the bitmap is the rest of the buffer.\<close>

definition GetBootLogoInformation :: "kernel \<Rightarrow> (u32 \<times> bytes) option" where
  "GetBootLogoInformation k =
     (case snd (Query k ''SystemBootLogoInformation'' (2 ^ 16) [] 1) of None \<Rightarrow> None
      | Some b \<Rightarrow>
          if length b < 8 then None
          else let offset = unat (u32_at b 4)
               in Some (u32_at b 0, if offset \<ge> 8 \<and> offset < length b then drop offset b else []))"

section \<open>Loops of their own\<close>

text \<open>
  Firmware tables: the table's size is asked for until it fits. \<open>q\<close> is the call with room for a table of so many bytes:
  the status, the length of the table, the bytes. The length is 32 bits and grows with each round.
\<close>

function firmware_from :: "(nat \<Rightarrow> u32 \<times> u32 \<times> bytes) \<Rightarrow> nat \<Rightarrow> bytes" where
  "firmware_from q tableSize =
     (case q tableSize of (status, len, table) \<Rightarrow>
        if NT_SUCCESS status then take (min (unat len) tableSize) table
        else if status \<noteq> 0xC0000023 \<or> unat len \<le> tableSize then []
        else firmware_from q (unat len))"
  by pat_completeness auto

termination
proof (relation "measure (\<lambda>(q, n). 2 ^ 32 - n)")
  fix q :: "nat \<Rightarrow> u32 \<times> u32 \<times> bytes" and n x status y and len :: u32 and table :: bytes
  assume "\<not> (status \<noteq> 0xC0000023 \<or> unat len \<le> n)"
  then show "((q, unat len), q, n) \<in> measure (\<lambda>(q, n). 2 ^ 32 - n)"
    using unat_less_2p [of len] by auto
qed simp

declare firmware_from.simps [simp del]

definition GetFirmwareTableInformation :: "(nat \<Rightarrow> u32 \<times> u32 \<times> bytes) \<Rightarrow> bytes" where
  "GetFirmwareTableInformation q = firmware_from q 4096"

text \<open>
  The image path of a process: the name's room in characters; the call gives a status, the room it wants in bytes and the
  name. The loop may not end if the room wanted is odd and one byte more than there is, so it is a partial function.
\<close>

partial_function (option) process_id_from :: "(nat \<Rightarrow> u32 \<times> u16 \<times> wstr) \<Rightarrow> nat \<Rightarrow> wstr option" where
  "process_id_from q n =
     (case q n of (status, room, name) \<Rightarrow>
        if NT_SUCCESS status then Some name
        else if status \<noteq> 0xC0000004 \<or> unat room \<le> n * 2 then Some []
        else process_id_from q (unat room div 2))"

definition GetProcessIdInformation :: "(nat \<Rightarrow> u32 \<times> u16 \<times> wstr) \<Rightarrow> wstr option" where
  "GetProcessIdInformation q = process_id_from q 260"

section \<open>Objects of each type\<close>

text \<open>
  The types and their objects: the distances count from the start of the buffer, so an entry may come back to one before;
  \<open>fuel\<close> bounds the loops (the number of entries that the kernel wrote is enough). A type's objects begin behind its name,
  whose address and room are in the entry; \<open>position\<close> is where an address is in the buffer. The sizes of the two structures
  of the native headers and the places of their fields are those of \<open>Layout\<close>.
\<close>

record Layout =
  sizeof_type :: nat
  sizeof_object :: nat
  TypeNameAt :: nat
  NameInfoAt :: nat
  NumberOfObjectsAt :: nat

record Object =
  o_Info :: bytes
  o_Name :: wstr

record ObjectType =
  t_Info :: bytes
  t_Name :: wstr
  Objects :: "Object list"

fun from_start :: "nat \<Rightarrow> nat \<Rightarrow> (nat \<Rightarrow> 'a) \<Rightarrow> bytes \<Rightarrow> nat \<Rightarrow> 'a list" where
  "from_start 0 n parse b p = []"
| "from_start (Suc fuel) n parse b p =
     (if \<not> IsInside b p n then []
      else parse p # (if next_u32 b p = 0 then [] else from_start fuel n parse b (next_u32 b p)))"

definition type_objects :: "nat \<Rightarrow> Layout \<Rightarrow> Names \<Rightarrow> (u64 \<Rightarrow> nat) \<Rightarrow> bytes \<Rightarrow> nat \<Rightarrow> Object list" where
  "type_objects fuel l nm position b p =
     (if u32_at b (p + NumberOfObjectsAt l) = 0 \<or> u64_at b (p + TypeNameAt l + 8) = 0 then []
      else from_start fuel (sizeof_object l)
        (\<lambda>q. \<lparr>o_Info = clear (NameInfoAt l) 16 (clear 0 4 (take (sizeof_object l) (drop q b))), o_Name = UnicodeString (CharsAt nm) b (q + NameInfoAt l)\<rparr>)
        b (position (u64_at b (p + TypeNameAt l + 8)) + unat (u16_at b (p + TypeNameAt l + 2))))"

definition GetObjectInformation :: "nat \<Rightarrow> kernel \<Rightarrow> Layout \<Rightarrow> Names \<Rightarrow> (u64 \<Rightarrow> nat) \<Rightarrow> ObjectType list" where
  "GetObjectInformation fuel k l nm position =
     parsed (\<lambda>b. from_start fuel (sizeof_type l)
         (\<lambda>p. \<lparr>t_Info = clear (TypeNameAt l) 16 (clear 0 4 (take (sizeof_type l) (drop p b))),
               t_Name = UnicodeString (CharsAt nm) b (p + TypeNameAt l), Objects = type_objects fuel l nm position b p\<rparr>) b 0)
       (snd (Query k ''SystemObjectInformation'' (2 ^ 20) [] 1))"

section \<open>Relationships of processors\<close>

record GroupAffinity =
  Mask :: u64
  Group :: u16

record GroupInfo =
  MaximumProcessorCount :: byte
  ActiveProcessorCount :: byte
  ActiveProcessorMask :: u64

record LogicalProcessorRelationship =
  Relationship :: u32
  Flags :: byte
  EfficiencyClass :: byte
  NodeNumber :: u32
  CacheLevel :: byte
  Associativity :: byte
  LineSize :: u16
  CacheSize :: u32
  CacheType :: u32
  GroupMasks :: "GroupAffinity list"
  MaximumGroupCount :: u16
  Groups :: "GroupInfo list"

definition RelationProcessorCore :: u32 where "RelationProcessorCore = 0"
definition RelationNumaNode :: u32 where "RelationNumaNode = 1"
definition RelationCache :: u32 where "RelationCache = 2"
definition RelationProcessorPackage :: u32 where "RelationProcessorPackage = 3"
definition RelationGroup :: u32 where "RelationGroup = 4"
definition RelationProcessorDie :: u32 where "RelationProcessorDie = 5"
definition RelationNumaNodeEx :: u32 where "RelationNumaNodeEx = 6"
definition RelationProcessorModule :: u32 where "RelationProcessorModule = 7"
definition CacheInstruction :: u32 where "CacheInstruction = 1"

definition no_relationship :: "u32 \<Rightarrow> LogicalProcessorRelationship" where
  "no_relationship r =
     \<lparr>Relationship = r, Flags = 0, EfficiencyClass = 0, NodeNumber = 0, CacheLevel = 0, Associativity = 0, LineSize = 0,
      CacheSize = 0, CacheType = 0, GroupMasks = [], MaximumGroupCount = 0, Groups = []\<rparr>"

definition affinities :: "bytes \<Rightarrow> nat \<Rightarrow> nat \<Rightarrow> GroupAffinity list" where
  "affinities b p n = map (\<lambda>e. \<lparr>Mask = u64_at e 0, Group = u16_at e 8\<rparr>) (ToVector 16 b p n)"

definition parse_relationship :: "bytes \<Rightarrow> nat \<Rightarrow> LogicalProcessorRelationship" where
  "parse_relationship b p =
     (let kind = u32_at b p; r = no_relationship kind
      in if kind = RelationProcessorCore \<or> kind = RelationProcessorPackage \<or> kind = RelationProcessorDie \<or> kind = RelationProcessorModule
         then r\<lparr>Flags := u8_at b (p + 8), EfficiencyClass := u8_at b (p + 9),
                GroupMasks := affinities b (p + 32) (unat (u16_at b (p + 30)))\<rparr>
         else if kind = RelationNumaNode \<or> kind = RelationNumaNodeEx
         then r\<lparr>NodeNumber := u32_at b (p + 8), GroupMasks := affinities b (p + 32) (max 1 (unat (u16_at b (p + 30))))\<rparr>
         else if kind = RelationCache
         then r\<lparr>CacheLevel := u8_at b (p + 8), Associativity := u8_at b (p + 9), LineSize := u16_at b (p + 10),
                CacheSize := u32_at b (p + 12), CacheType := u32_at b (p + 16),
                GroupMasks := affinities b (p + 40) (max 1 (unat (u16_at b (p + 38))))\<rparr>
         else if kind = RelationGroup
         then r\<lparr>MaximumGroupCount := u16_at b (p + 8),
                Groups := map (\<lambda>e. \<lparr>MaximumProcessorCount = u8_at e 0, ActiveProcessorCount = u8_at e 1, ActiveProcessorMask = u64_at e 40\<rparr>)
                  (ToVector 48 b (p + 32) (unat (u16_at b (p + 10))))\<rparr>
         else r)"

function relationships_from :: "bytes \<Rightarrow> nat \<Rightarrow> LogicalProcessorRelationship list" where
  "relationships_from b p =
     (let n = unat (u32_at b (p + 4))
      in if \<not> IsInside b p 8 \<or> n = 0 \<or> \<not> IsInside b p n then []
         else parse_relationship b p # relationships_from b (p + n))"
  by pat_completeness auto

termination
  by (relation "measure (\<lambda>(b, p). length b - p)") (auto simp: IsInside_def)

declare relationships_from.simps [simp del]

definition ParseRelationships :: "bytes option \<Rightarrow> LogicalProcessorRelationship list" where
  "ParseRelationships buffer = parsed (\<lambda>b. relationships_from b 0) buffer"

definition GetLogicalProcessorAndGroupInformation :: "kernel \<Rightarrow> u32 \<Rightarrow> LogicalProcessorRelationship list" where
  "GetLogicalProcessorAndGroupInformation k relationship =
     ParseRelationships (snd (Query k ''SystemLogicalProcessorAndGroupInformation'' (2 ^ 14) (le_bytes 4 (unat relationship)) 1))"

section \<open>The numbers of processors\<close>

record ProcessorGroup =
  GroupNumber :: u16
  ActiveMask :: u64
  ActiveCount :: byte

text \<open>Without an answer: one group, with \<open>n\<close> processors (\<open>GetActiveProcessorCount\<close>).\<close>

definition GetProcessorGroups :: "kernel \<Rightarrow> u32 \<Rightarrow> ProcessorGroup list" where
  "GetProcessorGroups k n =
     (let groups = concat (map (\<lambda>r. map (\<lambda>(g, i). \<lparr>GroupNumber = of_nat g, ActiveMask = ActiveProcessorMask i, ActiveCount = ActiveProcessorCount i\<rparr>)
            (enumerate 0 (Groups r))) (GetLogicalProcessorAndGroupInformation k RelationGroup))
      in if groups = []
         then [\<lparr>GroupNumber = 0, ActiveMask = (if n \<ge> 64 then - 1 else push_bit (unat n) 1 - 1), ActiveCount = ucast n\<rparr>]
         else groups)"

record LogicalProcessorCore =
  Core :: u32
  CoreClass :: byte

definition popcount :: "u64 \<Rightarrow> nat" where
  "popcount w = length (filter (bit w) [0..<64])"

definition first_of :: "ProcessorGroup list \<Rightarrow> nat \<Rightarrow> nat" where
  "first_of groups g = sum_list (map (\<lambda>x. unat (ActiveCount x)) (take g groups))"

definition place :: "ProcessorGroup list \<Rightarrow> nat \<Rightarrow> nat \<Rightarrow> nat" where
  "place groups g b = first_of groups g + popcount (ActiveMask (groups ! g) AND (push_bit b 1 - 1))"

definition mask_places :: "ProcessorGroup list \<Rightarrow> GroupAffinity \<Rightarrow> nat list" where
  "mask_places groups m =
     (if unat (Group m) \<ge> length groups then []
      else map (place groups (unat (Group m)))
        (filter (\<lambda>b. bit (Mask m) b \<and> bit (ActiveMask (groups ! unat (Group m))) b) [0..<64]))"

definition put_core :: "LogicalProcessorCore \<Rightarrow> nat \<Rightarrow> LogicalProcessorCore list \<Rightarrow> LogicalProcessorCore list" where
  "put_core c n cores = (if n < length cores then cores[n := c] else cores)"

definition add_core :: "ProcessorGroup list \<Rightarrow> nat \<times> LogicalProcessorRelationship \<Rightarrow> LogicalProcessorCore list \<Rightarrow> LogicalProcessorCore list" where
  "add_core groups r cores =
     fold (put_core \<lparr>Core = of_nat (fst r), CoreClass = EfficiencyClass (snd r)\<rparr>) (concat (map (mask_places groups) (GroupMasks (snd r)))) cores"

definition logical_cores :: "ProcessorGroup list \<Rightarrow> LogicalProcessorRelationship list \<Rightarrow> LogicalProcessorCore list" where
  "logical_cores groups rs =
     (if rs = [] then []
      else fold (add_core groups) (enumerate 0 rs)
        (replicate (first_of groups (length groups)) \<lparr>Core = 0, CoreClass = 0\<rparr>))"

definition GetLogicalProcessorCores :: "kernel \<Rightarrow> u32 \<Rightarrow> LogicalProcessorCore list" where
  "GetLogicalProcessorCores k n =
     logical_cores (GetProcessorGroups k n) (GetLogicalProcessorAndGroupInformation k RelationProcessorCore)"

text \<open>The performance states of each processor: the offsets of the distributions, from the start of the buffer.\<close>

fun distributions :: "bytes \<Rightarrow> bytes list \<Rightarrow> (u32 \<times> bytes list) list" where
  "distributions b [] = []"
| "distributions b (offset # os) =
     (let p = unat (u32_at offset 0)
      in if \<not> IsInside b p 8 then []
         else (u32_at b p, ToVector 16 b (p + 8) (unat (u32_at b (p + 4)))) # distributions b os)"

definition GetProcessorPerformanceDistribution :: "kernel \<Rightarrow> u16 option \<Rightarrow> (u32 \<times> bytes list) list" where
  "GetProcessorPerformanceDistribution k g =
     (case snd (QueryGroup k ''SystemProcessorPerformanceDistribution'' g 4096 1) of None \<Rightarrow> []
      | Some b \<Rightarrow> if length b < 4 then [] else distributions b (ToVector 4 b 4 (unat (u32_at b 0))))"

section \<open>Every processor has its number\<close>

definition groups_ok :: "ProcessorGroup list \<Rightarrow> bool" where
  "groups_ok groups \<longleftrightarrow> (\<forall>x \<in> set groups. unat (ActiveCount x) = popcount (ActiveMask x))"

text \<open>A processor: its group and its place in the group's mask.\<close>

definition processors :: "ProcessorGroup list \<Rightarrow> (nat \<times> nat) set" where
  "processors groups = (SIGMA g : {..<length groups}. {b. b < 64 \<and> bit (ActiveMask (groups ! g)) b})"

definition rank :: "u64 \<Rightarrow> nat \<Rightarrow> nat" where
  "rank w b = length (filter (bit w) [0..<b])"

lemma popcount_below:
  assumes "b < 64"
  shows "popcount (w AND (push_bit b 1 - 1)) = rank w b"
proof -
  have "push_bit b 1 - 1 = (mask b :: u64)" by (simp add: mask_eq_decr_exp push_bit_of_1)
  then have bits: "bit (w AND (push_bit b 1 - 1)) j \<longleftrightarrow> bit w j \<and> j < b" if "j < 64" for j
    using that assms by (auto simp: bit_and_iff bit_mask_iff)
  have "[0..<64] = [0..<b] @ [b..<64]" using assms by (metis less_imp_le_nat upt_add_eq_append zero_le le_add_diff_inverse)
  moreover have "filter (bit (w AND (push_bit b 1 - 1))) [0..<b] = filter (bit w) [0..<b]"
    using bits assms by (intro filter_cong) auto
  moreover have "filter (bit (w AND (push_bit b 1 - 1))) [b..<64] = []"
    using bits by (auto simp: filter_empty_conv)
  ultimately show ?thesis by (simp add: popcount_def rank_def)
qed

lemma rank_Suc: "rank w (Suc b) = rank w b + (if bit w b then 1 else 0)"
  by (simp add: rank_def)

lemma rank_mono: "a \<le> b \<Longrightarrow> rank w a \<le> rank w b"
  by (rule lift_Suc_mono_le [of "rank w"]) (simp_all add: rank_Suc)

lemma rank_less: "a < b \<Longrightarrow> bit w a \<Longrightarrow> rank w a < rank w b"
  using rank_mono [of "Suc a" b w] by (simp add: rank_Suc)

lemma first_of_Suc: "g < length groups \<Longrightarrow> first_of groups (Suc g) = first_of groups g + unat (ActiveCount (groups ! g))"
  by (simp add: first_of_def take_Suc_conv_app_nth)

lemma first_of_mono: "g \<le> g' \<Longrightarrow> g' \<le> length groups \<Longrightarrow> first_of groups g \<le> first_of groups g'"
proof (induction g' rule: dec_induct)
  case (step n)
  then show ?case using first_of_Suc [of n groups] by simp
qed simp

lemma place_bounds:
  assumes "groups_ok groups" and "(g, b) \<in> processors groups"
  shows "first_of groups g \<le> place groups g b \<and> place groups g b < first_of groups (Suc g)"
proof -
  have g: "g < length groups" "b < 64" "bit (ActiveMask (groups ! g)) b" using assms(2) by (auto simp: processors_def)
  then have "place groups g b = first_of groups g + rank (ActiveMask (groups ! g)) b"
    by (simp only: place_def popcount_below [OF g(2)])
  moreover have "rank (ActiveMask (groups ! g)) b < popcount (ActiveMask (groups ! g))"
    using rank_less [OF g(2,3)] by (simp add: rank_def popcount_def)
  moreover have "unat (ActiveCount (groups ! g)) = popcount (ActiveMask (groups ! g))"
    using assms(1) g(1) by (simp add: groups_ok_def)
  ultimately show ?thesis using first_of_Suc [OF g(1)] by linarith
qed

lemma place_inj:
  assumes "groups_ok groups" and "(g, b) \<in> processors groups" and "(g', b') \<in> processors groups"
    and "place groups g b = place groups g' b'"
  shows "g = g' \<and> b = b'"
proof -
  have less: "place groups x c < place groups y d" if "x < y" "(x, c) \<in> processors groups" "(y, d) \<in> processors groups" for x y c d
  proof -
    have "place groups x c < first_of groups (Suc x)" using place_bounds [OF assms(1) that(2)] by simp
    also have "\<dots> \<le> first_of groups y" using that by (intro first_of_mono) (auto simp: processors_def)
    also have "\<dots> \<le> place groups y d" using place_bounds [OF assms(1) that(3)] by simp
    finally show ?thesis .
  qed
  consider "g < g'" | "g' < g" | "g = g'" by linarith
  then have g: "g = g'" by cases (use less [of g g' b b'] less [of g' g b' b] assms(2-4) in auto)
  have b: "b < 64" "b' < 64" "bit (ActiveMask (groups ! g)) b" "bit (ActiveMask (groups ! g)) b'"
    using assms(2,3) g by (auto simp: processors_def)
  then have "rank (ActiveMask (groups ! g)) b = rank (ActiveMask (groups ! g)) b'"
    using assms(4) g by (simp only: place_def popcount_below [OF b(1)] popcount_below [OF b(2)] add_left_cancel)
  moreover consider "b < b'" | "b' < b" | "b = b'" by linarith
  ultimately have "b = b'"
    by cases (use rank_less [of b b' "ActiveMask (groups ! g)"] rank_less [of b' b "ActiveMask (groups ! g)"] b in auto)
  then show ?thesis using g by simp
qed

lemma popcount_card: "popcount w = card {b. b < 64 \<and> bit w b}"
proof -
  have "{b. b < 64 \<and> bit w b} = set (filter (bit w) [0..<64])" by auto
  then show ?thesis by (simp add: popcount_def distinct_card del: set_filter)
qed

lemma card_processors:
  assumes "groups_ok groups"
  shows "card (processors groups) = first_of groups (length groups)"
proof -
  have "card (processors groups) = (\<Sum>g < length groups. popcount (ActiveMask (groups ! g)))"
    unfolding processors_def by (subst card_SigmaI) (simp_all add: popcount_card)
  also have "\<dots> = (\<Sum>g < length groups. unat (ActiveCount (groups ! g)))"
    using assms by (intro sum.cong) (simp_all add: groups_ok_def)
  also have "\<dots> = first_of groups (length groups)" by (simp add: first_of_def sum_list_sum_nth atLeast0LessThan)
  finally show ?thesis .
qed

lemma place_bij:
  assumes "groups_ok groups"
  shows "bij_betw (\<lambda>(g, b). place groups g b) (processors groups) {..<first_of groups (length groups)}"
proof -
  have inj: "inj_on (\<lambda>(g, b). place groups g b) (processors groups)"
    by (rule inj_onI) (use place_inj [OF assms] in auto)
  have "(\<lambda>(g, b). place groups g b) ` processors groups \<subseteq> {..<first_of groups (length groups)}"
  proof (rule image_subsetI)
    fix p assume p: "p \<in> processors groups"
    obtain g b where gb: "p = (g, b)" by (cases p)
    have "g < length groups" using p gb by (auto simp: processors_def)
    then have "first_of groups (Suc g) \<le> first_of groups (length groups)" by (intro first_of_mono) auto
    moreover have "place groups g b < first_of groups (Suc g)" using place_bounds [OF assms] p gb by simp
    ultimately show "(case p of (g, b) \<Rightarrow> place groups g b) \<in> {..<first_of groups (length groups)}" by (simp add: gb)
  qed
  then have "(\<lambda>(g, b). place groups g b) ` processors groups = {..<first_of groups (length groups)}"
    using card_image [OF inj] card_processors [OF assms] by (intro card_subset_eq) simp_all
  with inj show ?thesis by (simp add: bij_betw_def)
qed

section \<open>Every processor has its core\<close>

definition owns :: "LogicalProcessorRelationship \<Rightarrow> nat \<times> nat \<Rightarrow> bool" where
  "owns r p \<longleftrightarrow> (\<exists>m \<in> set (GroupMasks r). unat (Group m) = fst p \<and> bit (Mask m) (snd p))"

definition put :: "nat \<times> LogicalProcessorCore \<Rightarrow> LogicalProcessorCore list \<Rightarrow> LogicalProcessorCore list" where
  "put u cores = put_core (snd u) (fst u) cores"

lemma length_put_1 [simp]: "length (put u cores) = length cores"
  by (simp add: put_def put_core_def)

lemma length_puts [simp]: "length (fold put us cores) = length cores"
  by (induction us arbitrary: cores) auto

lemma put_other: "n \<notin> fst ` set us \<Longrightarrow> fold put us cores ! n = cores ! n"
  by (induction us arbitrary: cores) (auto simp: put_def put_core_def)

lemma put_only:
  assumes "(n, c) \<in> set us" and "\<forall>d. (n, d) \<in> set us \<longrightarrow> d = c" and "n < length cores"
  shows "fold put us cores ! n = c"
  using assms
proof (induction us arbitrary: cores)
  case (Cons u us)
  have rest: "d = c" if "(n, d) \<in> set us" for d using Cons.prems(2) that by (meson list.set_intros(2))
  show ?case
  proof (cases "(n, c) \<in> set us")
    case True
    moreover have "\<forall>d. (n, d) \<in> set us \<longrightarrow> d = c" using rest by blast
    moreover have "n < length (put u cores)" using Cons.prems(3) by simp
    ultimately have "fold put us (put u cores) ! n = c" by (rule Cons.IH)
    then show ?thesis by simp
  next
    case False
    then have u: "u = (n, c)" using Cons.prems(1) by auto
    have "n \<notin> fst ` set us" using False rest by fastforce
    then have "fold put us (put u cores) ! n = put u cores ! n" by (rule put_other)
    moreover have "put u cores ! n = c" using Cons.prems(3) by (simp add: u put_def put_core_def)
    ultimately show ?thesis by simp
  qed
qed simp

definition core_of :: "nat \<times> LogicalProcessorRelationship \<Rightarrow> LogicalProcessorCore" where
  "core_of r = \<lparr>Core = of_nat (fst r), CoreClass = EfficiencyClass (snd r)\<rparr>"

definition core_puts :: "ProcessorGroup list \<Rightarrow> nat \<times> LogicalProcessorRelationship \<Rightarrow> (nat \<times> LogicalProcessorCore) list" where
  "core_puts groups r = map (\<lambda>n. (n, core_of r)) (concat (map (mask_places groups) (GroupMasks (snd r))))"

lemma add_core_puts: "add_core groups r cores = fold put (core_puts groups r) cores"
proof -
  have "fold (put_core c) ns cores = fold put (map (\<lambda>n. (n, c)) ns) cores" for c ns
    by (induction ns arbitrary: cores) (auto simp: put_def)
  then show ?thesis by (simp add: add_core_def core_puts_def core_of_def)
qed

lemma add_cores_puts: "fold (add_core groups) rs cores = fold put (concat (map (core_puts groups) rs)) cores"
  by (induction rs arbitrary: cores) (simp_all add: add_core_puts)

lemma core_puts_iff:
  "(n, c) \<in> set (core_puts groups r) \<longleftrightarrow>
   c = core_of r \<and> (\<exists>g b. (g, b) \<in> processors groups \<and> owns (snd r) (g, b) \<and> n = place groups g b)"
proof -
  have m: "n \<in> set (mask_places groups m) \<longleftrightarrow>
      (\<exists>b. (unat (Group m), b) \<in> processors groups \<and> bit (Mask m) b \<and> n = place groups (unat (Group m)) b)" for m
    by (auto simp: mask_places_def processors_def)
  have "(n, c) \<in> set (core_puts groups r) \<longleftrightarrow> c = core_of r \<and> (\<exists>m \<in> set (GroupMasks (snd r)). n \<in> set (mask_places groups m))"
    by (auto simp: core_puts_def)
  also have "\<dots> \<longleftrightarrow> c = core_of r \<and> (\<exists>g b. (g, b) \<in> processors groups \<and> owns (snd r) (g, b) \<and> n = place groups g b)"
    unfolding m owns_def by auto
  finally show ?thesis .
qed


definition two_groups :: "ProcessorGroup list" where
  "two_groups = [\<lparr>GroupNumber = 0, ActiveMask = mask 2, ActiveCount = 2\<rparr>, \<lparr>GroupNumber = 1, ActiveMask = 1, ActiveCount = 1\<rparr>]"

definition core_record :: "byte \<Rightarrow> u64 \<Rightarrow> u16 \<Rightarrow> LogicalProcessorRelationship" where
  "core_record c m g = (no_relationship RelationProcessorCore)\<lparr>EfficiencyClass := c, GroupMasks := [\<lparr>Mask = m, Group = g\<rparr>]\<rparr>"

definition three_cores :: "LogicalProcessorRelationship list" where
  "three_cores = [core_record 1 1 0, core_record 5 (2 ^ 1) 0, core_record 0 1 1]"

lemma bits_small: "{b. b < 64 \<and> bit (mask 2 :: u64) b} = {0, 1}" "{b. b < 64 \<and> bit (1 :: u64) b} = {0}"
  by (auto simp: bit_mask_iff bit_1_iff)

lemma in_processors: "(g, b) \<in> processors two_groups \<longleftrightarrow>
    g = 0 \<and> b \<in> {b. b < 64 \<and> bit (mask 2 :: u64) b} \<or> g = 1 \<and> b \<in> {b. b < 64 \<and> bit (1 :: u64) b}"
proof (cases g)
  case 0
  then show ?thesis by (simp add: processors_def two_groups_def)
next
  case (Suc g')
  then show ?thesis by (cases g') (simp_all add: processors_def two_groups_def)
qed

lemma two_groups_processors: "processors two_groups = {(0, 0), (0, 1), (1, 0)}"
  by (rule set_eqI, case_tac x) (simp only: in_processors bits_small, blast)

lemma owns_record: "owns (core_record c m g) p \<longleftrightarrow> unat g = fst p \<and> bit m (snd p)"
  by (simp add: owns_def core_record_def)


section \<open>A query returns\<close>

text \<open>A call that needs a buffer for \<open>data\<close>, and says how much when it has less (or nothing, where it does not say).\<close>

definition needs :: "(nat \<Rightarrow> u32 \<times> nat \<times> bytes) \<Rightarrow> bytes \<Rightarrow> bool \<Rightarrow> bool" where
  "needs q data told \<longleftrightarrow>
     (\<forall>n < length data. \<exists>status junk. q n = (status, if told then length data else 0, junk) \<and> IsBufferTooSmall status) \<and>
     (\<forall>n \<ge> length data. \<exists>status junk. q n = (status, length data, data @ junk) \<and> NT_SUCCESS status \<and> n = length data + length junk)"

lemma too_small_fails: "IsBufferTooSmall status \<Longrightarrow> \<not> NT_SUCCESS status"
  by (auto simp: IsBufferTooSmall_def NT_SUCCESS_def)

lemma query_fits:
  assumes "needs q data told" and "length data \<le> n"
  shows "snd (query_from q e n) = Some data"
proof -
  obtain status junk where "q n = (status, length data, data @ junk)" "NT_SUCCESS status" "n = length data + length junk"
    using assms by (auto simp: needs_def)
  then show ?thesis by (subst query_from.simps) auto
qed

lemma query_small:
  assumes "needs q data told" and "n < length data" and "GrowBuffer n (if told then length data else 0) e \<noteq> 0" and "0 < e"
  shows "snd (query_from q e n) = snd (query_from q e (GrowBuffer n (if told then length data else 0) e))"
proof -
  obtain status junk where "q n = (status, if told then length data else 0, junk)" "IsBufferTooSmall status"
    using assms(1,2) unfolding needs_def by blast
  then show ?thesis using assms(3,4) too_small_fails by (subst query_from.simps) simp
qed



section \<open>The plain queries\<close>

text \<open>
  Most of the class's methods are one query: of a structure (\<open>QueryFixed\<close>), of an array (\<open>QueryArray\<close>), of an array per
  processor of a group. They are the rows of tables, one for each stretch of the source: the method, the class, the
  structure, whose size \<open>size_of\<close> gives.
\<close>

datatype PlainQuery = Fixed string string string | Array string string string | PerGroup string string string

fun run_query :: "kernel \<Rightarrow> (string \<Rightarrow> nat) \<Rightarrow> u16 option \<Rightarrow> PlainQuery \<Rightarrow> bytes list" where
  "run_query k size_of g (Fixed m c t) =
     (case snd (QueryFixed k c (size_of t) (replicate (size_of t) 0)) of None \<Rightarrow> [] | Some v \<Rightarrow> [v])"
| "run_query k size_of g (Array m c t) = QueryArray k c (size_of t) None"
| "run_query k size_of g (PerGroup m c t) = QueryArray k c (size_of t) g"

fun method_name :: "PlainQuery \<Rightarrow> string" where
  "method_name (Fixed m c t) = m" | "method_name (Array m c t) = m" | "method_name (PerGroup m c t) = m"

fun class_of :: "PlainQuery \<Rightarrow> string" where
  "class_of (Fixed m c t) = c" | "class_of (Array m c t) = c" | "class_of (PerGroup m c t) = c"

definition queries_GetBasicInformation :: "PlainQuery list" where
  "queries_GetBasicInformation =
     [Fixed ''GetBasicInformation'' ''SystemBasicInformation'' ''SYSTEM_BASIC_INFORMATION'',
      Fixed ''GetProcessorInformation'' ''SystemProcessorInformation'' ''SYSTEM_PROCESSOR_INFORMATION'',
      Fixed ''GetPerformanceInformation'' ''SystemPerformanceInformation'' ''SYSTEM_PERFORMANCE_INFORMATION'',
      Fixed ''GetTimeOfDayInformation'' ''SystemTimeOfDayInformation'' ''SYSTEM_TIMEOFDAY_INFORMATION'']"

definition queries_GetDeviceInformation :: "PlainQuery list" where
  "queries_GetDeviceInformation =
     [Fixed ''GetDeviceInformation'' ''SystemDeviceInformation'' ''SYSTEM_DEVICE_INFORMATION'',
      PerGroup ''GetProcessorPerformanceInformation'' ''SystemProcessorPerformanceInformation'' ''SYSTEM_PROCESSOR_PERFORMANCE_INFORMATION'',
      Fixed ''GetFlagsInformation'' ''SystemFlagsInformation'' ''SYSTEM_FLAGS_INFORMATION'']"

definition queries_GetVdmInstemulInformation :: "PlainQuery list" where
  "queries_GetVdmInstemulInformation =
     [Fixed ''GetVdmInstemulInformation'' ''SystemVdmInstemulInformation'' ''SYSTEM_VDM_INSTEMUL_INFO'',
      Fixed ''GetFileCacheInformation'' ''SystemFileCacheInformation'' ''SYSTEM_FILECACHE_INFORMATION'']"

definition queries_GetInterruptInformation :: "PlainQuery list" where
  "queries_GetInterruptInformation =
     [PerGroup ''GetInterruptInformation'' ''SystemInterruptInformation'' ''SYSTEM_INTERRUPT_INFORMATION'',
      Fixed ''GetDpcBehaviorInformation'' ''SystemDpcBehaviorInformation'' ''SYSTEM_DPC_BEHAVIOR_INFORMATION'',
      Fixed ''GetTimeAdjustmentInformation'' ''SystemTimeAdjustmentInformation'' ''SYSTEM_QUERY_TIME_ADJUST_INFORMATION'',
      Fixed ''GetSystemExceptionInformation'' ''SystemExceptionInformation'' ''SYSTEM_EXCEPTION_INFORMATION'',
      Fixed ''GetKernelDebuggerInformation'' ''SystemKernelDebuggerInformation'' ''SYSTEM_KERNEL_DEBUGGER_INFORMATION'',
      Fixed ''GetContextSwitchInformation'' ''SystemContextSwitchInformation'' ''SYSTEM_CONTEXT_SWITCH_INFORMATION'',
      Fixed ''GetRegistryQuotaInformation'' ''SystemRegistryQuotaInformation'' ''SYSTEM_REGISTRY_QUOTA_INFORMATION'',
      PerGroup ''GetProcessorIdleInformation'' ''SystemProcessorIdleInformation'' ''SYSTEM_PROCESSOR_IDLE_INFORMATION'']"

definition queries_GetLookasideInformation :: "PlainQuery list" where
  "queries_GetLookasideInformation =
     [Array ''GetLookasideInformation'' ''SystemLookasideInformation'' ''SYSTEM_LOOKASIDE_INFORMATION'',
      Fixed ''GetRangeStartInformation'' ''SystemRangeStartInformation'' ''SYSTEM_RANGE_START_INFORMATION'']"

definition queries_GetRecommendedSharedDataAlignment :: "PlainQuery list" where
  "queries_GetRecommendedSharedDataAlignment =
     [Fixed ''GetRecommendedSharedDataAlignment'' ''SystemRecommendedSharedDataAlignment'' ''ULONG'',
      Fixed ''GetComPlusPackage'' ''SystemComPlusPackage'' ''ULONG'',
      Fixed ''GetNumaAvailableMemory'' ''SystemNumaAvailableMemory'' ''SYSTEM_NUMA_INFORMATION'',
      PerGroup ''GetProcessorPowerInformation'' ''SystemProcessorPowerInformation'' ''SYSTEM_PROCESSOR_POWER_INFORMATION'',
      Fixed ''GetEmulationBasicInformation'' ''SystemEmulationBasicInformation'' ''SYSTEM_BASIC_INFORMATION'',
      Fixed ''GetEmulationProcessorInformation'' ''SystemEmulationProcessorInformation'' ''SYSTEM_PROCESSOR_INFORMATION'']"

definition queries_GetObjectSecurityMode :: "PlainQuery list" where
  "queries_GetObjectSecurityMode =
     [Fixed ''GetObjectSecurityMode'' ''SystemObjectSecurityMode'' ''ULONG'',
      PerGroup ''GetLogicalProcessorInformation'' ''SystemLogicalProcessorInformation'' ''SYSTEM_LOGICAL_PROCESSOR_INFORMATION'']"

definition queries_GetMemoryListInformation :: "PlainQuery list" where
  "queries_GetMemoryListInformation =
     [Fixed ''GetMemoryListInformation'' ''SystemMemoryListInformation'' ''SYSTEM_MEMORY_LIST_INFORMATION'',
      Fixed ''GetFileCacheInformationEx'' ''SystemFileCacheInformationEx'' ''SYSTEM_FILECACHE_INFORMATION'',
      PerGroup ''GetProcessorIdleCycleTimeInformation'' ''SystemProcessorIdleCycleTimeInformation'' ''SYSTEM_PROCESSOR_IDLE_CYCLE_TIME_INFORMATION'',
      Fixed ''GetVerifierCancellationInformation'' ''SystemVerifierCancellationInformation'' ''SYSTEM_VERIFIER_CANCELLATION_INFORMATION'']"

definition queries_GetBootEnvironmentInformation :: "PlainQuery list" where
  "queries_GetBootEnvironmentInformation =
     [Fixed ''GetBootEnvironmentInformation'' ''SystemBootEnvironmentInformation'' ''SYSTEM_BOOT_ENVIRONMENT_INFORMATION'',
      Fixed ''GetHypervisorInformation'' ''SystemHypervisorInformation'' ''SYSTEM_HYPERVISOR_QUERY_INFORMATION'']"

definition queries_GetNativeBasicInformation :: "PlainQuery list" where
  "queries_GetNativeBasicInformation =
     [Fixed ''GetNativeBasicInformation'' ''SystemNativeBasicInformation'' ''SYSTEM_BASIC_INFORMATION'',
      Fixed ''GetErrorPortTimeouts'' ''SystemErrorPortTimeouts'' ''SYSTEM_ERROR_PORT_TIMEOUTS'',
      Fixed ''GetLowPriorityIoInformation'' ''SystemLowPriorityIoInformation'' ''SYSTEM_LOW_PRIORITY_IO_INFORMATION'',
      Fixed ''GetTpmBootEntropyInformation'' ''SystemTpmBootEntropyInformation'' ''BOOT_ENTROPY_NT_RESULT'']"

definition queries_GetPagedPoolInformationEx :: "PlainQuery list" where
  "queries_GetPagedPoolInformationEx =
     [Fixed ''GetPagedPoolInformationEx'' ''SystemPagedPoolInformationEx'' ''SYSTEM_FILECACHE_INFORMATION'',
      Fixed ''GetSystemPtesInformationEx'' ''SystemSystemPtesInformationEx'' ''SYSTEM_FILECACHE_INFORMATION'']"

definition queries_GetAcpiAuditInformation :: "PlainQuery list" where
  "queries_GetAcpiAuditInformation =
     [Fixed ''GetAcpiAuditInformation'' ''SystemAcpiAuditInformation'' ''SYSTEM_ACPI_AUDIT_INFORMATION'',
      Fixed ''GetBasicPerformanceInformation'' ''SystemBasicPerformanceInformation'' ''SYSTEM_BASIC_PERFORMANCE_INFORMATION'',
      Fixed ''GetQueryPerformanceCounterInformation'' ''SystemQueryPerformanceCounterInformation'' ''SYSTEM_QUERY_PERFORMANCE_COUNTER_INFORMATION'']"

definition queries_GetBadPageInformation :: "PlainQuery list" where
  "queries_GetBadPageInformation =
     [Array ''GetBadPageInformation'' ''SystemBadPageInformation'' ''SYSTEM_BAD_PAGE_INFORMATION'',
      Fixed ''GetConsoleInformation'' ''SystemConsoleInformation'' ''SYSTEM_CONSOLE_INFORMATION'',
      Fixed ''GetPlatformBinaryInformation'' ''SystemPlatformBinaryInformation'' ''SYSTEM_PLATFORM_BINARY_INFORMATION'',
      Fixed ''GetHypervisorProcessorCountInformation'' ''SystemHypervisorProcessorCountInformation'' ''SYSTEM_HYPERVISOR_PROCESSOR_COUNT_INFORMATION'']"

definition queries_GetSecureBootInformation :: "PlainQuery list" where
  "queries_GetSecureBootInformation =
     [Fixed ''GetSecureBootInformation'' ''SystemSecureBootInformation'' ''SYSTEM_SECUREBOOT_INFORMATION'',
      Fixed ''GetPortableWorkspaceEfiLauncherInformation'' ''SystemPortableWorkspaceEfiLauncherInformation'' ''SYSTEM_PORTABLE_WORKSPACE_EFI_LAUNCHER_INFORMATION'']"

definition queries_GetKernelDebuggerInformationEx :: "PlainQuery list" where
  "queries_GetKernelDebuggerInformationEx =
     [Fixed ''GetKernelDebuggerInformationEx'' ''SystemKernelDebuggerInformationEx'' ''SYSTEM_KERNEL_DEBUGGER_INFORMATION_EX'',
      Fixed ''GetSoftRebootInformation'' ''SystemSoftRebootInformation'' ''ULONG'',
      Fixed ''GetOfflineDumpConfigInformation'' ''SystemOfflineDumpConfigInformation'' ''OFFLINE_CRASHDUMP_CONFIGURATION_TABLE_V2'',
      Fixed ''GetProcessorFeaturesInformation'' ''SystemProcessorFeaturesInformation'' ''SYSTEM_PROCESSOR_FEATURES_INFORMATION'']"

definition queries_GetEnergyEstimationConfigInformation :: "PlainQuery list" where
  "queries_GetEnergyEstimationConfigInformation =
     [Fixed ''GetEnergyEstimationConfigInformation'' ''SystemEnergyEstimationConfigInformation'' ''SYSTEM_ENERGY_ESTIMATION_CONFIG_INFORMATION'',
      Fixed ''GetHypervisorDetailInformation'' ''SystemHypervisorDetailInformation'' ''SYSTEM_HYPERVISOR_DETAIL_INFORMATION'',
      PerGroup ''GetProcessorCycleStatsInformation'' ''SystemProcessorCycleStatsInformation'' ''SYSTEM_PROCESSOR_CYCLE_STATS_INFORMATION'',
      Fixed ''GetTrustedPlatformModuleInformation'' ''SystemTrustedPlatformModuleInformation'' ''SYSTEM_TPM_INFORMATION'',
      Fixed ''GetKernelDebuggerFlags'' ''SystemKernelDebuggerFlags'' ''SYSTEM_KERNEL_DEBUGGER_FLAGS'',
      Fixed ''GetCodeIntegrityPolicyInformation'' ''SystemCodeIntegrityPolicyInformation'' ''SYSTEM_CODEINTEGRITYPOLICY_INFORMATION'',
      Fixed ''GetIsolatedUserModeInformation'' ''SystemIsolatedUserModeInformation'' ''SYSTEM_ISOLATED_USER_MODE_INFORMATION'']"

definition queries_GetMemoryUsageInformation :: "PlainQuery list" where
  "queries_GetMemoryUsageInformation =
     [Fixed ''GetMemoryUsageInformation'' ''SystemMemoryUsageInformation'' ''SYSTEM_MEMORY_USAGE_INFORMATION'',
      Fixed ''GetPhysicalMemoryInformation'' ''SystemPhysicalMemoryInformation'' ''SYSTEM_PHYSICAL_MEMORY_INFORMATION'',
      Fixed ''GetCodeIntegrityUnlockInformation'' ''SystemCodeIntegrityUnlockInformation'' ''SYSTEM_CODEINTEGRITY_UNLOCK_INFORMATION'',
      Fixed ''GetFlushInformation'' ''SystemFlushInformation'' ''SYSTEM_FLUSH_INFORMATION'',
      Array ''GetProcessorIdleMaskInformation'' ''SystemProcessorIdleMaskInformation'' ''ULONG_PTR'',
      Fixed ''GetWriteConstraintInformation'' ''SystemWriteConstraintInformation'' ''SYSTEM_WRITE_CONSTRAINT_INFORMATION'',
      Fixed ''GetKernelVaShadowInformation'' ''SystemKernelVaShadowInformation'' ''SYSTEM_KERNEL_VA_SHADOW_INFORMATION'',
      Fixed ''GetHypervisorSharedPageInformation'' ''SystemHypervisorSharedPageInformation'' ''SYSTEM_HYPERVISOR_SHARED_PAGE_INFORMATION'']"

definition queries_GetSpeculationControlInformation :: "PlainQuery list" where
  "queries_GetSpeculationControlInformation =
     [Fixed ''GetSpeculationControlInformation'' ''SystemSpeculationControlInformation'' ''SYSTEM_SPECULATION_CONTROL_INFORMATION'',
      Fixed ''GetDmaGuardPolicyInformation'' ''SystemDmaGuardPolicyInformation'' ''SYSTEM_DMA_GUARD_POLICY_INFORMATION'']"

definition queries_GetCodeIntegrityUnlockModeInformation :: "PlainQuery list" where
  "queries_GetCodeIntegrityUnlockModeInformation =
     [Fixed ''GetCodeIntegrityUnlockModeInformation'' ''SystemCodeIntegrityUnlockModeInformation'' ''SYSTEM_CODEINTEGRITY_UNLOCK_INFORMATION'',
      Fixed ''GetFlags2Information'' ''SystemFlags2Information'' ''SYSTEM_FLAGS_INFORMATION'',
      Fixed ''GetSecurityModelInformation'' ''SystemSecurityModelInformation'' ''SYSTEM_SECURITY_MODEL_INFORMATION'']"

definition queries_GetFeatureUsageSubscriptionInformation :: "PlainQuery list" where
  "queries_GetFeatureUsageSubscriptionInformation =
     [Array ''GetFeatureUsageSubscriptionInformation'' ''SystemFeatureUsageSubscriptionInformation'' ''SYSTEM_FEATURE_USAGE_SUBSCRIPTION_DETAILS'',
      Fixed ''GetSecureSpeculationControlInformation'' ''SystemSecureSpeculationControlInformation'' ''SECURE_SPECULATION_CONTROL_INFORMATION'',
      Fixed ''GetFwRamdiskInformation'' ''SystemFwRamdiskInformation'' ''SYSTEM_FIRMWARE_RAMDISK_INFORMATION'',
      Fixed ''GetShadowStackInformation'' ''SystemShadowStackInformation'' ''SYSTEM_SHADOW_STACK_INFORMATION'']"

definition queries_GetXfgCheckFailureInformation :: "PlainQuery list" where
  "queries_GetXfgCheckFailureInformation =
     [Fixed ''GetXfgCheckFailureInformation'' ''SystemXfgCheckFailureInformation'' ''SYSTEM_XFG_FAILURE_INFORMATION'',
      Fixed ''GetIommuStateInformation'' ''SystemIommuStateInformation'' ''SYSTEM_IOMMU_STATE_INFORMATION'',
      Fixed ''GetHypervisorMinrootInformation'' ''SystemHypervisorMinrootInformation'' ''SYSTEM_HYPERVISOR_MINROOT_INFORMATION'']"

definition queries_GetTrustedAppsRuntimeInformation :: "PlainQuery list" where
  "queries_GetTrustedAppsRuntimeInformation =
     [Fixed ''GetTrustedAppsRuntimeInformation'' ''SystemTrustedAppsRuntimeInformation'' ''SYSTEM_TRUSTEDAPPS_RUNTIME_INFORMATION'',
      Array ''GetBadPageInformationEx'' ''SystemBadPageInformationEx'' ''SYSTEM_BAD_PAGE_INFORMATION'',
      Fixed ''GetResourceDeadlockTimeout'' ''SystemResourceDeadlockTimeout'' ''ULONG'',
      Fixed ''GetBreakOnContextUnwindFailureInformation'' ''SystemBreakOnContextUnwindFailureInformation'' ''ULONG'']"

definition plain_queries :: "PlainQuery list" where
  "plain_queries = concat [queries_GetBasicInformation,
     queries_GetDeviceInformation,
     queries_GetVdmInstemulInformation,
     queries_GetInterruptInformation,
     queries_GetLookasideInformation,
     queries_GetRecommendedSharedDataAlignment,
     queries_GetObjectSecurityMode,
     queries_GetMemoryListInformation,
     queries_GetBootEnvironmentInformation,
     queries_GetNativeBasicInformation,
     queries_GetPagedPoolInformationEx,
     queries_GetAcpiAuditInformation,
     queries_GetBadPageInformation,
     queries_GetSecureBootInformation,
     queries_GetKernelDebuggerInformationEx,
     queries_GetEnergyEstimationConfigInformation,
     queries_GetMemoryUsageInformation,
     queries_GetSpeculationControlInformation,
     queries_GetCodeIntegrityUnlockModeInformation,
     queries_GetFeatureUsageSubscriptionInformation,
     queries_GetXfgCheckFailureInformation,
     queries_GetTrustedAppsRuntimeInformation]"

lemmas plain_queries_defs = plain_queries_def queries_GetBasicInformation_def
  queries_GetDeviceInformation_def
  queries_GetVdmInstemulInformation_def
  queries_GetInterruptInformation_def
  queries_GetLookasideInformation_def
  queries_GetRecommendedSharedDataAlignment_def
  queries_GetObjectSecurityMode_def
  queries_GetMemoryListInformation_def
  queries_GetBootEnvironmentInformation_def
  queries_GetNativeBasicInformation_def
  queries_GetPagedPoolInformationEx_def
  queries_GetAcpiAuditInformation_def
  queries_GetBadPageInformation_def
  queries_GetSecureBootInformation_def
  queries_GetKernelDebuggerInformationEx_def
  queries_GetEnergyEstimationConfigInformation_def
  queries_GetMemoryUsageInformation_def
  queries_GetSpeculationControlInformation_def
  queries_GetCodeIntegrityUnlockModeInformation_def
  queries_GetFeatureUsageSubscriptionInformation_def
  queries_GetXfgCheckFailureInformation_def
  queries_GetTrustedAppsRuntimeInformation_def

text \<open>\<open>SystemXxx\<close> is asked by \<open>GetXxx\<close>, with one exception, whose name the header explains.\<close>

lemma plain_query_names:
  "filter (\<lambda>q. drop 3 (method_name q) \<noteq> drop 6 (class_of q)) plain_queries =
     [Fixed ''GetSystemExceptionInformation'' ''SystemExceptionInformation'' ''SYSTEM_EXCEPTION_INFORMATION'']"
  by (simp add: plain_queries_defs)

end
