(* ===== verification/System_Details.thy ===== *)
theory System_Details
  imports Smbios System_Info
begin

unbundle bit_operations_syntax

text \<open>
  The pages of system information (\<open>WinSys/SystemDetails.cpp\<close>): the operating system, its security, the processor. The
  answers of the system (registry, \<open>SystemInfo\<close> queries, \<open>__cpuid\<close>) are arguments.
\<close>

section \<open>The registry\<close>

text \<open>
  \<open>RegGetValueW\<close> under the local machine's root: the characters of a string (with what the call puts behind it), a
  double word, a quad word (or eight bytes), if the value is there with that type.
\<close>

record RegistryReads =
  GetSz :: "wstr \<Rightarrow> wstr \<Rightarrow> wstr option"
  GetDword :: "wstr \<Rightarrow> wstr \<Rightarrow> u32 option"
  GetQword :: "wstr \<Rightarrow> wstr \<Rightarrow> u64 option"

definition RegString :: "RegistryReads \<Rightarrow> wstr \<Rightarrow> wstr \<Rightarrow> wstr option" where
  "RegString reg key v =
     (case GetSz reg key v of None \<Rightarrow> None | Some data \<Rightarrow> if length data < 1 then None else Some (c_str data))"

definition RegDword :: "RegistryReads \<Rightarrow> wstr \<Rightarrow> wstr \<Rightarrow> u32 option" where
  "RegDword reg key v = GetDword reg key v"

definition RegQword :: "RegistryReads \<Rightarrow> wstr \<Rightarrow> wstr \<Rightarrow> u64 option" where
  "RegQword reg key v = GetQword reg key v"

definition value_or :: "'a option \<Rightarrow> 'a \<Rightarrow> 'a" where
  "value_or x d = (case x of None \<Rightarrow> d | Some y \<Rightarrow> y)"

definition CurrentVersionKey :: wstr where
  "CurrentVersionKey = wide_path ''SOFTWARE/Microsoft/Windows NT/CurrentVersion''"

section \<open>The operating system\<close>

datatype DomainJoin = JoinUnknown | Unjoined | Workgroup | Domain

record OsDetails =
  ProductName :: wstr
  EditionId :: wstr
  DisplayVersion :: wstr
  BuildLab :: wstr
  InstallationType :: wstr
  Major :: u32
  Minor :: u32
  Build :: u32
  Revision :: u32
  Architecture :: u16
  InstallTime :: u64
  BootTime :: u64
  FastStartup :: bool
  RegisteredOwner :: wstr
  RegisteredOrganization :: wstr
  ComputerName :: wstr
  NetBiosName :: wstr
  Join :: DomainJoin
  JoinName :: wstr
  WindowsDirectory :: wstr
  TimeZone :: wstr
  SystemLocale :: wstr
  UserLocale :: wstr
  UiLanguage :: wstr

text \<open>The answers of the calls: \<open>None\<close> where one failed. The join is \<open>NetSetup...\<close>'s number and the name.\<close>

record OsCalls =
  RtlGetVersion :: "(u32 \<times> u32 \<times> u32) option"
  NativeArchitecture :: u16
  TimeOfDayBoot :: "u64 option"
  DbgHiberBoot :: "bool option"
  DnsName :: "wstr option"
  NetBios :: "wstr option"
  JoinInformation :: "(nat \<times> wstr option) option"
  WindowsDir :: "wstr option"
  StandardName :: "wstr option"
  SystemLocaleName :: "wstr option"
  UserLocaleName :: "wstr option"
  UiLanguages :: "wstr option"

definition NetSetupUnjoined :: nat where "NetSetupUnjoined = 1"
definition NetSetupWorkgroupName :: nat where "NetSetupWorkgroupName = 2"
definition NetSetupDomainName :: nat where "NetSetupDomainName = 3"

definition product_name :: "u32 \<Rightarrow> wstr \<Rightarrow> wstr" where
  "product_name build name =
     (if build \<ge> 22000 \<and> take 10 name = wide ''Windows 10'' then wide ''Windows 11'' @ drop 10 name else name)"

definition install_time :: "RegistryReads \<Rightarrow> u64" where
  "install_time reg =
     (case RegQword reg CurrentVersionKey (wide ''InstallTime'') of
        Some time \<Rightarrow> time
      | None \<Rightarrow>
          case RegDword reg CurrentVersionKey (wide ''InstallDate'') of
            Some date \<Rightarrow> ucast date * 10000000 + 116444736000000000
          | None \<Rightarrow> 0)"

definition join_of :: "OsCalls \<Rightarrow> DomainJoin" where
  "join_of c =
     (case JoinInformation c of None \<Rightarrow> JoinUnknown
      | Some (status, name) \<Rightarrow>
          if status = NetSetupUnjoined then Unjoined
          else if status = NetSetupWorkgroupName then Workgroup
          else if status = NetSetupDomainName then Domain else JoinUnknown)"

definition join_name :: "OsCalls \<Rightarrow> wstr" where
  "join_name c = (case JoinInformation c of Some (status, Some name) \<Rightarrow> name | _ \<Rightarrow> [])"

definition GetOs :: "RegistryReads \<Rightarrow> OsCalls \<Rightarrow> OsDetails" where
  "GetOs reg c =
     (let version = value_or (RtlGetVersion c) (0, 0, 0);
          text_of = (\<lambda>v. value_or (RegString reg CurrentVersionKey (wide v)) [])
      in \<lparr>ProductName = product_name (snd (snd version)) (text_of ''ProductName''),
          EditionId = text_of ''EditionID'',
          DisplayVersion = value_or (RegString reg CurrentVersionKey (wide ''DisplayVersion'')) (text_of ''ReleaseId''),
          BuildLab = text_of ''BuildLabEx'', InstallationType = text_of ''InstallationType'',
          Major = fst version, Minor = fst (snd version), Build = snd (snd version),
          Revision = value_or (RegDword reg CurrentVersionKey (wide ''UBR'')) 0,
          Architecture = NativeArchitecture c, InstallTime = install_time reg,
          BootTime = value_or (TimeOfDayBoot c) 0, FastStartup = value_or (DbgHiberBoot c) False,
          RegisteredOwner = text_of ''RegisteredOwner'', RegisteredOrganization = text_of ''RegisteredOrganization'',
          ComputerName = value_or (DnsName c) [], NetBiosName = value_or (NetBios c) [],
          Join = join_of c, JoinName = join_name c, WindowsDirectory = value_or (WindowsDir c) [],
          TimeZone = value_or (StandardName c) [], SystemLocale = value_or (SystemLocaleName c) [],
          UserLocale = value_or (UserLocaleName c) [], UiLanguage = c_str (value_or (UiLanguages c) [])\<rparr>)"

section \<open>Security\<close>

record CodeIntegrity =
  CiEnabled :: bool
  TestSigning :: bool
  DebugMode :: bool
  FlightSigning :: bool
  UmciEnforced :: bool
  UmciAudit :: bool
  CiHvciEnabled :: bool
  HvciAudit :: bool
  CiHvciStrict :: bool
  WhqlEnforced :: bool
  Options :: u32

definition code_integrity :: "u32 \<Rightarrow> CodeIntegrity" where
  "code_integrity ci =
     \<lparr>CiEnabled = ci AND 0x01 \<noteq> 0, TestSigning = ci AND 0x02 \<noteq> 0, DebugMode = ci AND 0x80 \<noteq> 0,
      FlightSigning = ci AND 0x200 \<noteq> 0, UmciEnforced = (ci AND 0x04 \<noteq> 0 \<and> \<not> ci AND 0x08 \<noteq> 0),
      UmciAudit = ci AND 0x08 \<noteq> 0, CiHvciEnabled = ci AND 0x400 \<noteq> 0, HvciAudit = ci AND 0x800 \<noteq> 0,
      CiHvciStrict = ci AND 0x1000 \<noteq> 0, WhqlEnforced = ci AND 0x4000 \<noteq> 0, Options = ci\<rparr>"

record VbsState =
  SecureKernelRunning :: bool
  HvciEnabled :: bool
  HvciStrict :: bool
  TrustletsRunning :: bool
  HardwareEnforced :: bool
  FirmwarePageProtection :: bool

record SpeculationState =
  BranchTargetMitigation :: bool
  Retpoline :: bool
  EnhancedIbrs :: bool
  SsbdSystemWide :: bool
  SsbdRequired :: bool
  MdsHardwareProtected :: bool
  MdsClearEnabled :: bool
  BhbEnabled :: bool

record ShadowStackState =
  Capable :: bool
  UserAllowed :: bool
  KernelEnabled :: bool
  KernelAudit :: bool

record SecurityDetails =
  SecureBootEnabled :: "bool option"
  SecureBootCapable :: "bool option"
  CodeIntegrityOf :: "CodeIntegrity option"
  Vbs :: "VbsState option"
  CredentialGuardRunning :: bool
  KernelDebuggerEnabled :: "bool option"
  KernelDebuggerAttached :: "bool option"
  KvaShadowEnabled :: "bool option"
  KvaShadowRequired :: "bool option"
  Speculation :: "SpeculationState option"
  ShadowStacks :: "ShadowStackState option"
  KernelDmaProtection :: "bool option"
  MeasuredLaunch :: "bool option"
  LsaRunAsPpl :: "u32 option"
  UacEnabled :: "bool option"
  UacAdminPrompt :: "u32 option"
  SmartAppControl :: "u32 option"

text \<open>
  The answers of the \<open>SystemInfo\<close> queries, their fields as flags: Secure Boot (enabled, capable), the code integrity
  options, the state of virtualization-based security and of speculation control as those queries give it (field by field
  what the details hold), the debugger (enabled, not present), the VA shadow (enabled, required, required available),
  the shadow stacks, DMA guard, measured launch; and the names of the processes.
\<close>

record SecurityCalls =
  SecureBoot :: "(bool \<times> bool) option"
  CodeIntegrityOptions :: "u32 option"
  IsolatedUserMode :: "VbsState option"
  ProcessNames :: "wstr list"
  Debugger :: "(bool \<times> bool) option"
  KvaShadow :: "(bool \<times> bool \<times> bool) option"
  SpeculationControl :: "SpeculationState option"
  Cet :: "ShadowStackState option"
  DmaGuard :: "bool option"
  DbgMeasuredLaunch :: "bool option"

definition policies_key :: wstr where
  "policies_key = wide_path ''SOFTWARE/Microsoft/Windows/CurrentVersion/Policies/System''"

definition GetSecurity :: "RegistryReads \<Rightarrow> SecurityCalls \<Rightarrow> SecurityDetails" where
  "GetSecurity reg c =
     \<lparr>SecureBootEnabled = map_option fst (SecureBoot c), SecureBootCapable = map_option snd (SecureBoot c),
      CodeIntegrityOf = map_option code_integrity (CodeIntegrityOptions c), Vbs = IsolatedUserMode c,
      CredentialGuardRunning = (\<exists>name \<in> set (ProcessNames c). same_name name (wide ''LsaIso.exe'')),
      KernelDebuggerEnabled = map_option fst (Debugger c),
      KernelDebuggerAttached = map_option (\<lambda>(enabled, notPresent). enabled \<and> \<not> notPresent) (Debugger c),
      KvaShadowEnabled = map_option fst (KvaShadow c),
      KvaShadowRequired = (case KvaShadow c of Some (enabled, required, available) \<Rightarrow> if available then Some required else None
                           | None \<Rightarrow> None),
      Speculation = SpeculationControl c, ShadowStacks = Cet c, KernelDmaProtection = DmaGuard c,
      MeasuredLaunch = DbgMeasuredLaunch c,
      LsaRunAsPpl = RegDword reg (wide_path ''SYSTEM/CurrentControlSet/Control/Lsa'') (wide ''RunAsPPL''),
      UacEnabled = map_option (\<lambda>lua. lua \<noteq> 0) (RegDword reg policies_key (wide ''EnableLUA'')),
      UacAdminPrompt = RegDword reg policies_key (wide ''ConsentPromptBehaviorAdmin''),
      SmartAppControl = RegDword reg (wide_path ''SYSTEM/CurrentControlSet/Control/CI/Policy'') (wide ''VerifiedAndReputablePolicyState'')\<rparr>"

section \<open>The processor\<close>

record ProcessorDetails =
  Brand :: wstr
  Vendor :: wstr
  Family :: u32
  Model :: u32
  Stepping :: u32
  Packages :: u32
  Cores :: u32
  LogicalProcessors :: u32
  Groups :: u32
  NumaNodes :: u32
  PerformanceCores :: u32
  EfficiencyCores :: u32
  L1Data :: u64
  L1Instruction :: u64
  L2 :: u64
  L3 :: u64
  RatedMhz :: u32
  Microcode :: "u32 option"
  HypervisorPresent :: bool
  Hypervisor :: wstr
  VirtualizationEnabled :: bool
  Slat :: bool
  Features :: "wstr list"

definition no_processor :: ProcessorDetails where
  "no_processor =
     \<lparr>Brand = [], Vendor = [], Family = 0, Model = 0, Stepping = 0, Packages = 0, Cores = 0, LogicalProcessors = 0,
      Groups = 0, NumaNodes = 0, PerformanceCores = 0, EfficiencyCores = 0, L1Data = 0, L1Instruction = 0, L2 = 0, L3 = 0,
      RatedMhz = 0, Microcode = None, HypervisorPresent = False, Hypervisor = [], VirtualizationEnabled = False,
      Slat = False, Features = []\<rparr>"

text \<open>\<open>__cpuid\<close> of a leaf: the four registers. The vendors' names are in registers 1, 3, 2 and 1, 2, 3.\<close>

record CpuRegs =
  eax :: u32
  ebx :: u32
  ecx :: u32
  edx :: u32

definition reg_text :: "u32 list \<Rightarrow> bytes" where
  "reg_text rs = takeWhile not_nul (concat (map (\<lambda>r. le_bytes 4 (unat r)) rs))"

definition cpu_family :: "u32 \<Rightarrow> u32" where
  "cpu_family a = (let family = drop_bit 8 a AND 0xF in if family = 0xF then family + (drop_bit 20 a AND 0xFF) else family)"

definition cpu_model :: "u32 \<Rightarrow> u32" where
  "cpu_model a =
     (let model = drop_bit 4 a AND 0xF
      in if cpu_family a = 0x6 \<or> cpu_family a \<ge> 0xF then model + push_bit 4 (drop_bit 16 a AND 0xF) else model)"

definition identify :: "(bytes \<Rightarrow> wstr) \<Rightarrow> (u32 \<Rightarrow> CpuRegs) \<Rightarrow> ProcessorDetails \<Rightarrow> ProcessorDetails" where
  "identify ansi cpuid cpu =
     (let r = cpuid 0; cpu = cpu\<lparr>Vendor := FromAnsi ansi (reg_text [ebx r, edx r, ecx r])\<rparr>
      in if \<not> 1 \<le>s eax r then cpu
         else
           let f = cpuid 1; h = cpuid 0x40000000; present = (drop_bit 31 (ecx f) AND 1 = 1)
           in cpu\<lparr>Family := cpu_family (eax f), Model := cpu_model (eax f), Stepping := eax f AND 0xF,
                  HypervisorPresent := present,
                  Hypervisor := (if present then FromAnsi ansi (reg_text [ebx h, ecx h, edx h]) else [])\<rparr>)"

text \<open>The features of \<open>IsProcessorFeaturePresent\<close> with their numbers (\<open>PF_...\<close>), in the table's order.\<close>

definition features :: "(nat \<times> string) list" where
  "features =
     [(6, ''SSE''), (10, ''SSE2''), (13, ''SSE3''), (36, ''SSSE3''), (37, ''SSE4.1''), (38, ''SSE4.2''), (39, ''AVX''),
      (40, ''AVX2''), (41, ''AVX-512F''), (28, ''RDRAND''), (32, ''RDTSCP''), (22, ''FSGSBASE''), (14, ''CMPXCHG16B''),
      (17, ''XSAVE''), (12, ''NX''), (23, ''FastFail''), (30, ''ARMv8 Crypto''), (34, ''ARMv8.1 Atomics''),
      (43, ''ARMv8.2 Dot Product''), (44, ''ARMv8.3 JSCVT'')]"

text \<open>The relationships, one after the other, with the efficiency classes of the cores seen so far.\<close>

definition add_cache :: "LogicalProcessorRelationship \<Rightarrow> ProcessorDetails \<Rightarrow> ProcessorDetails" where
  "add_cache r cpu =
     (if CacheLevel r = 1 then
        if CacheType r = CacheInstruction then cpu\<lparr>L1Instruction := L1Instruction cpu + ucast (CacheSize r)\<rparr>
        else cpu\<lparr>L1Data := L1Data cpu + ucast (CacheSize r)\<rparr>
      else if CacheLevel r = 2 then cpu\<lparr>L2 := L2 cpu + ucast (CacheSize r)\<rparr>
      else if CacheLevel r = 3 then cpu\<lparr>L3 := L3 cpu + ucast (CacheSize r)\<rparr>
      else cpu)"

record Topology =
  Cpu :: ProcessorDetails
  Classes :: "byte list"
  MaxClass :: byte
  Hybrid :: bool

definition add_relationship :: "LogicalProcessorRelationship \<Rightarrow> Topology \<Rightarrow> Topology" where
  "add_relationship r t =
     (if Relationship r = RelationProcessorPackage then t\<lparr>Cpu := (Cpu t)\<lparr>Packages := Packages (Cpu t) + 1\<rparr>\<rparr>
      else if Relationship r = RelationProcessorCore then
        (let classes = Classes t @ [EfficiencyClass r]
         in t\<lparr>Cpu := (Cpu t)\<lparr>Cores := Cores (Cpu t) + 1\<rparr>, Classes := classes,
              Hybrid := (Hybrid t \<or> EfficiencyClass r \<noteq> hd classes),
              MaxClass := (if EfficiencyClass r > MaxClass t then EfficiencyClass r else MaxClass t)\<rparr>)
      else if Relationship r = RelationNumaNode \<or> Relationship r = RelationNumaNodeEx then
        t\<lparr>Cpu := (Cpu t)\<lparr>NumaNodes := NumaNodes (Cpu t) + 1\<rparr>\<rparr>
      else if Relationship r = RelationCache then t\<lparr>Cpu := add_cache r (Cpu t)\<rparr>
      else if Relationship r = RelationGroup then
        t\<lparr>Cpu := (Cpu t)\<lparr>Groups := of_nat (length (System_Info.Groups r)),
          LogicalProcessors := LogicalProcessors (Cpu t) + (\<Sum>i \<leftarrow> System_Info.Groups r. ucast (ActiveProcessorCount i))\<rparr>\<rparr>
      else t)"

definition split_cores :: "Topology \<Rightarrow> ProcessorDetails" where
  "split_cores t =
     (if Hybrid t
      then fold (\<lambda>c cpu. if c = MaxClass t then cpu\<lparr>PerformanceCores := PerformanceCores cpu + 1\<rparr>
                 else cpu\<lparr>EfficiencyCores := EfficiencyCores cpu + 1\<rparr>) (Classes t) (Cpu t)
      else Cpu t)"

definition topology :: "LogicalProcessorRelationship list \<Rightarrow> ProcessorDetails \<Rightarrow> ProcessorDetails" where
  "topology rs cpu = split_cores (fold add_relationship rs \<lparr>Cpu = cpu, Classes = [], MaxClass = 0, Hybrid = False\<rparr>)"

definition cpu_key :: wstr where
  "cpu_key = wide_path ''HARDWARE/DESCRIPTION/System/CentralProcessor/0''"

text \<open>Intel keeps the revision in the upper half, AMD in the lower.\<close>

definition microcode :: "u64 option \<Rightarrow> u32 option" where
  "microcode revision =
     (case revision of
        Some v \<Rightarrow> if v = 0 then None else Some (if v AND 0xFFFFFFFF = 0 then ucast (drop_bit 32 v) else ucast v)
      | None \<Rightarrow> None)"

definition GetProcessor :: "(bytes \<Rightarrow> wstr) \<Rightarrow> RegistryReads \<Rightarrow> bytes \<Rightarrow> (u32 \<Rightarrow> CpuRegs) \<Rightarrow> (nat \<Rightarrow> bool) \<Rightarrow>
    LogicalProcessorRelationship list \<Rightarrow> ProcessorDetails" where
  "GetProcessor ansi reg brand cpuid present rs =
     (let cpu = identify ansi cpuid (no_processor\<lparr>Brand := FromAnsi ansi brand\<rparr>);
          cpu = cpu\<lparr>VirtualizationEnabled := present 21, Slat := present 20,
                    Features := map (\<lambda>f. wide (snd f)) (filter (\<lambda>f. present (fst f)) features)\<rparr>;
          cpu = topology rs cpu
      in cpu\<lparr>RatedMhz := value_or (RegDword reg cpu_key (wide ''~MHz'')) 0,
             Microcode := microcode (RegQword reg cpu_key (wide ''Update Revision''))\<rparr>)"

section \<open>The cores of a hybrid processor\<close>

definition is_core :: "LogicalProcessorRelationship \<Rightarrow> bool" where
  "is_core r \<longleftrightarrow> Relationship r = RelationProcessorCore"

definition core_classes :: "LogicalProcessorRelationship list \<Rightarrow> byte list" where
  "core_classes rs = map EfficiencyClass (filter is_core rs)"

definition topology_ok :: "byte list \<Rightarrow> Topology \<Rightarrow> bool" where
  "topology_ok cs t \<longleftrightarrow> Classes t = cs \<and> MaxClass t = fold max cs 0 \<and> (Hybrid t \<longleftrightarrow> (\<exists>c \<in> set cs. c \<noteq> hd cs)) \<and>
     PerformanceCores (Cpu t) = 0 \<and> EfficiencyCores (Cpu t) = 0"

lemma add_relationship_ok:
  assumes "topology_ok cs t"
  shows "topology_ok (cs @ core_classes [r]) (add_relationship r t)"
proof (cases "Relationship r = RelationProcessorCore")
  case True
  have "(\<exists>c \<in> set (cs @ [EfficiencyClass r]). c \<noteq> hd (cs @ [EfficiencyClass r])) \<longleftrightarrow>
      (\<exists>c \<in> set cs. c \<noteq> hd cs) \<or> EfficiencyClass r \<noteq> hd (cs @ [EfficiencyClass r])"
    by (cases cs) auto
  moreover have "RelationProcessorCore \<noteq> RelationProcessorPackage" by (simp add: RelationProcessorCore_def RelationProcessorPackage_def)
  ultimately show ?thesis
    using assms True
    by (auto simp: topology_ok_def add_relationship_def core_classes_def is_core_def Let_def max_def)
qed (use assms in \<open>auto simp: topology_ok_def add_relationship_def core_classes_def is_core_def add_cache_def\<close>)

lemma add_relationships_ok:
  "topology_ok cs t \<Longrightarrow> topology_ok (cs @ core_classes rs) (fold add_relationship rs t)"
proof (induction rs arbitrary: cs t)
  case Nil
  then show ?case by (simp add: core_classes_def)
next
  case (Cons r rs)
  have "core_classes (r # rs) = core_classes [r] @ core_classes rs" by (simp add: core_classes_def)
  then show ?case using Cons.IH [OF add_relationship_ok [OF Cons.prems, of r]] by simp
qed

lemma fold_split:
  "let f = fold (\<lambda>c cpu. if c = m then cpu\<lparr>PerformanceCores := PerformanceCores cpu + 1\<rparr>
      else cpu\<lparr>EfficiencyCores := EfficiencyCores cpu + 1\<rparr>) cs cpu
   in PerformanceCores f = PerformanceCores cpu + of_nat (length (filter (\<lambda>c. c = m) cs)) \<and>
      EfficiencyCores f = EfficiencyCores cpu + of_nat (length (filter (\<lambda>c. c \<noteq> m) cs))"
  by (induction cs arbitrary: cpu) (auto simp: Let_def)

lemma fold_max_ge: "(x :: byte) \<le> fold max cs x \<and> (\<forall>c \<in> set cs. c \<le> fold max cs x)"
proof (induction cs arbitrary: x)
  case (Cons c cs)
  have "max c x \<le> fold max cs (max c x)" using Cons.IH by blast
  moreover have "\<forall>c' \<in> set cs. c' \<le> fold max cs (max c x)" using Cons.IH by blast
  ultimately show ?case by simp
qed simp

lemma fold_max_insert: "fold max cs (x :: byte) \<in> insert x (set cs)"
proof (induction cs arbitrary: x)
  case (Cons c cs)
  have "fold max cs (max c x) \<in> insert (max c x) (set cs)" by (rule Cons.IH)
  moreover have "max c x = c \<or> max c x = x" by (simp add: max_def)
  ultimately show ?case by auto
qed simp

lemma fold_max_in:
  assumes "cs \<noteq> []"
  shows "fold max cs (0 :: byte) \<in> set cs"
proof (cases "fold max cs (0 :: byte) = 0")
  case True
  then have "\<forall>c \<in> set cs. c = 0" using fold_max_ge [where x = 0 and cs = cs] by auto
  then show ?thesis using True assms by (cases cs) auto
qed (use fold_max_insert [of cs 0] in auto)

text \<open>A processor whose cores have different efficiency classes is split into performance cores (those of the
  highest class) and efficiency cores, some of each and all together the cores; for any other processor both counts stay
  zero.\<close>

theorem hybrid_cores_split:
  assumes "length (core_classes rs) < 2 ^ 32"
  shows "let cpu = GetProcessor ansi reg brand cpuid present rs; cs = core_classes rs
    in if \<exists>c \<in> set cs. c \<noteq> hd cs
       then unat (PerformanceCores cpu) = length (filter (\<lambda>c. c = fold max cs 0) cs) \<and>
         unat (PerformanceCores cpu) + unat (EfficiencyCores cpu) = length cs \<and>
         0 < unat (PerformanceCores cpu) \<and> 0 < unat (EfficiencyCores cpu)
       else PerformanceCores cpu = 0 \<and> EfficiencyCores cpu = 0"
proof -
  let ?cpu = "GetProcessor ansi reg brand cpuid present rs" and ?cs = "core_classes rs"
  let ?m = "fold max ?cs 0" and ?start = "(identify ansi cpuid (no_processor\<lparr>Brand := FromAnsi ansi brand\<rparr>))
    \<lparr>VirtualizationEnabled := present 21, Slat := present 20,
     Features := map (\<lambda>f. wide (snd f)) (filter (\<lambda>f. present (fst f)) features)\<rparr>"
  define t where "t = fold add_relationship rs \<lparr>Cpu = ?start, Classes = [], MaxClass = 0, Hybrid = False\<rparr>"
  have "topology_ok [] \<lparr>Cpu = ?start, Classes = [], MaxClass = 0, Hybrid = False\<rparr>"
    by (simp add: topology_ok_def identify_def no_processor_def Let_def)
  then have t: "topology_ok ?cs t" using add_relationships_ok [of "[]" _ rs] by (simp add: t_def)
  have cores: "PerformanceCores ?cpu = PerformanceCores (split_cores t)" "EfficiencyCores ?cpu = EfficiencyCores (split_cores t)"
    by (simp_all add: GetProcessor_def topology_def Let_def t_def)
  show ?thesis
  proof (cases "\<exists>c \<in> set ?cs. c \<noteq> hd ?cs")
    case True
    let ?p = "filter (\<lambda>c. c = ?m) ?cs" and ?e = "filter (\<lambda>c. c \<noteq> ?m) ?cs"
    have sum: "length ?p + length ?e = length ?cs" by (rule sum_length_filter_compl)
    have split: "PerformanceCores (split_cores t) = of_nat (length ?p)" "EfficiencyCores (split_cores t) = of_nat (length ?e)"
      using t True fold_split [of ?m ?cs "Cpu t"] by (simp_all add: topology_ok_def split_cores_def Let_def)
    have lt: "length ?p < 2 ^ 32" "length ?e < 2 ^ 32" using sum assms by linarith+
    have n: "unat (of_nat (length ?p) :: u32) = length ?p" "unat (of_nat (length ?e) :: u32) = length ?e"
      using lt by (simp_all only: unat_of_nat) (simp_all add: mod_less)
    have "?m \<in> set ?cs" using True by (intro fold_max_in) auto
    then have "?p \<noteq> []" by (auto simp: filter_empty_conv)
    moreover have "?e \<noteq> []"
    proof
      assume "?e = []"
      then have m: "\<forall>c \<in> set ?cs. c = ?m" by (auto simp: filter_empty_conv)
      moreover have "hd ?cs \<in> set ?cs" using True by (intro hd_in_set) auto
      ultimately show False using True by metis
    qed
    ultimately show ?thesis using True sum n by (simp add: Let_def cores split)
  next
    case False
    then show ?thesis using t by (simp add: Let_def cores split_cores_def topology_ok_def)
  qed
qed

definition core_of_class :: "byte \<Rightarrow> LogicalProcessorRelationship" where
  "core_of_class c = (no_relationship RelationProcessorCore)\<lparr>EfficiencyClass := c\<rparr>"

definition no_registry :: RegistryReads where
  "no_registry = \<lparr>GetSz = (\<lambda>k v. None), GetDword = (\<lambda>k v. None), GetQword = (\<lambda>k v. None)\<rparr>"

lemma hybrid_cores_split_witness:
  "let cpu = GetProcessor (map ucast) no_registry [] (\<lambda>l. \<lparr>eax = 0, ebx = 0, ecx = 0, edx = 0\<rparr>) (\<lambda>f. False)
       (map core_of_class [1, 1, 0]);
     cs = core_classes (map core_of_class [1, 1, 0])
    in if \<exists>c \<in> set cs. c \<noteq> hd cs
       then unat (PerformanceCores cpu) = length (filter (\<lambda>c. c = fold max cs 0) cs) \<and>
         unat (PerformanceCores cpu) + unat (EfficiencyCores cpu) = length cs \<and>
         0 < unat (PerformanceCores cpu) \<and> 0 < unat (EfficiencyCores cpu)
       else PerformanceCores cpu = 0 \<and> EfficiencyCores cpu = 0"
  by (rule hybrid_cores_split) (simp add: core_classes_def is_core_def core_of_class_def no_relationship_def)

text \<open>Windows 11 is named as such; the name of an older system stays.\<close>

lemma windows_11_named:
  "ProductName (GetOs reg c) =
     (let build = snd (snd (value_or (RtlGetVersion c) (0, 0, 0)));
          name = value_or (RegString reg CurrentVersionKey (wide ''ProductName'')) []
      in if build \<ge> 22000 \<and> (\<exists>edition. name = wide ''Windows 10'' @ edition)
         then wide ''Windows 11'' @ drop 10 name else name)"
proof -
  have "take 10 name = wide ''Windows 10'' \<longleftrightarrow> (\<exists>edition. name = wide ''Windows 10'' @ edition)" for name :: wstr
  proof
    assume "take 10 name = wide ''Windows 10''"
    then show "\<exists>edition. name = wide ''Windows 10'' @ edition" by (metis append_take_drop_id)
  qed (auto simp: wide_def)
  then show ?thesis by (simp add: GetOs_def product_name_def Let_def)
qed

text \<open>User-mode code integrity is never both enforced and audited.\<close>

lemma umci_enforced_or_audited:
  "CodeIntegrityOf (GetSecurity reg c) = Some ci \<Longrightarrow> \<not> (UmciEnforced ci \<and> UmciAudit ci)"
  by (auto simp: GetSecurity_def code_integrity_def)

end
