(* ===== verification/Virus_Total.thy ===== *)
theory Virus_Total
  imports C_Text
begin

unbundle bit_operations_syntax

text \<open>
  VirusTotal (\<open>WinSys/VirusTotal.cpp\<close>): one request, the small JSON reader, looking a hash up, uploading a file, hashing one.
  The network is a function from requests to what WinHTTP gives back; the file is its size and its reads.
\<close>

section \<open>One request\<close>

record Request =
  Server :: wstr
  Path :: wstr
  Verb :: wstr
  Headers :: wstr
  Content :: bytes

record Response =
  StatusCode :: u32
  ErrorCode :: u32
  Body :: bytes

text \<open>
  What WinHTTP does with a request: the error if there is no session, connection or answer; else the status and the
  reads of the body, each with how much was said to be available and what was read (nothing for a read that failed).
\<close>

record Exchange =
  Failure :: "u32 option"
  HttpCode :: u32
  Reads :: "(nat \<times> bytes option) list"

fun read_body :: "(nat \<times> bytes option) list \<Rightarrow> bytes \<Rightarrow> bytes" where
  "read_body [] body = body"
| "read_body ((0, _) # _) body = body"
| "read_body ((available, None) # _) body = body @ replicate available 0"
| "read_body ((available, Some data) # rs) body = read_body rs (body @ data)"

definition request_headers :: "wstr \<Rightarrow> wstr \<Rightarrow> wstr" where
  "request_headers apiKey extraHeaders =
     wide ''x-apikey: '' @ apiKey @ [13, 10] @ wide ''accept: application/json'' @ [13, 10] @ extraHeaders"

definition Send :: "(Request \<Rightarrow> Exchange) \<Rightarrow> Request \<Rightarrow> Response" where
  "Send net r =
     (let x = net r
      in case Failure x of Some e \<Rightarrow> \<lparr>StatusCode = 0, ErrorCode = e, Body = []\<rparr>
         | None \<Rightarrow> \<lparr>StatusCode = HttpCode x, ErrorCode = 0, Body = read_body (Reads x) []\<rparr>)"

definition Host :: wstr where "Host = wide ''www.virustotal.com''"

definition api_request :: "wstr \<Rightarrow> wstr \<Rightarrow> Request" where
  "api_request apiKey path =
     \<lparr>Server = Host, Path = path, Verb = wide ''GET'', Headers = request_headers apiKey [], Content = []\<rparr>"

section \<open>Reading JSON\<close>

definition quoted :: "bytes \<Rightarrow> bytes" where
  "quoted key = [0x22] @ key @ [0x22]"

definition isdigit :: "byte \<Rightarrow> bool" where
  "isdigit c \<longleftrightarrow> 0x30 \<le> c \<and> c \<le> 0x39"

definition json_space :: "byte \<Rightarrow> bool" where
  "json_space c \<longleftrightarrow> c = 0x20 \<or> c = 9 \<or> c = 13 \<or> c = 10"

text \<open>\<open>_strtoi64\<close> of a text that starts with a digit or a minus: the digits' number, at most what 64 bits hold.\<close>

definition digits_value :: "bytes \<Rightarrow> nat" where
  "digits_value ds = foldl (\<lambda>n c. 10 * n + (unat c - 0x30)) 0 (takeWhile isdigit ds)"

definition strtoi64 :: "bytes \<Rightarrow> int" where
  "strtoi64 s =
     (if s \<noteq> [] \<and> hd s = 0x2D then - min (2 ^ 63) (int (digits_value (tl s)))
      else min (2 ^ 63 - 1) (int (digits_value s)))"

definition find_not_space :: "bytes \<Rightarrow> nat \<Rightarrow> nat option" where
  "find_not_space s i =
     (let n = length (takeWhile json_space (drop i s)) in if i + n < length s then Some (i + n) else None)"

definition FindNumber :: "bytes \<Rightarrow> nat \<Rightarrow> nat \<Rightarrow> bytes \<Rightarrow> int option" where
  "FindNumber json start stop key =
     (case find_str (quoted key) json start of None \<Rightarrow> None
      | Some pos \<Rightarrow>
          if pos \<ge> stop then None
          else case find_char 0x3A json (pos + length (quoted key)) of None \<Rightarrow> None
          | Some colon \<Rightarrow>
              case find_not_space json (colon + 1) of None \<Rightarrow> None
              | Some p \<Rightarrow> if isdigit (json ! p) \<or> json ! p = 0x2D then Some (strtoi64 (drop p json)) else None)"

text \<open>The brace that closes the object, counted from the text's start; a string's braces and escaped quotes don't count.\<close>

fun object_end :: "bool \<Rightarrow> int \<Rightarrow> nat \<Rightarrow> bytes \<Rightarrow> nat option" where
  "object_end inString depth i [] = None"
| "object_end True depth i (c # cs) =
     (if c = 0x5C then (case cs of [] \<Rightarrow> None | _ # rest \<Rightarrow> object_end True depth (i + 2) rest)
      else object_end (c \<noteq> 0x22) depth (i + 1) cs)"
| "object_end False depth i (c # cs) =
     (if c = 0x22 then object_end True depth (i + 1) cs
      else if c = 0x7B then object_end False (depth + 1) (i + 1) cs
      else if c = 0x7D then (if depth - 1 = 0 then Some i else object_end False (depth - 1) (i + 1) cs)
      else object_end False depth (i + 1) cs)"

definition FindObject :: "bytes \<Rightarrow> bytes \<Rightarrow> (nat \<times> nat) option" where
  "FindObject json key =
     (case find_str (quoted key) json 0 of None \<Rightarrow> None
      | Some pos \<Rightarrow>
          case find_char 0x7B json pos of None \<Rightarrow> None
          | Some start \<Rightarrow> map_option (\<lambda>i. (start, i)) (object_end False 0 start (drop start json)))"

definition FindString :: "bytes \<Rightarrow> bytes \<Rightarrow> bytes" where
  "FindString json key =
     (case find_str (quoted key) json 0 of None \<Rightarrow> []
      | Some pos \<Rightarrow>
          case find_char 0x3A json (pos + length (quoted key)) of None \<Rightarrow> []
          | Some colon \<Rightarrow>
              case find_char 0x22 json colon of None \<Rightarrow> []
              | Some p \<Rightarrow>
                  case find_char 0x22 json (p + 1) of None \<Rightarrow> []
                  | Some stop \<Rightarrow> substr json (p + 1) (stop - p - 1))"

section \<open>Reports\<close>

datatype VirusTotalStatus = Found | NotFound | Uploaded | BadKey | QuotaExceeded | TooLarge | ErrorStatus

record VirusTotalReport =
  Status :: VirusTotalStatus
  Malicious :: u32
  Suspicious :: u32
  Undetected :: u32
  Harmless :: u32
  Engines :: u32
  LastAnalysis :: int
  HttpStatus :: u32
  Error :: u32

definition no_report :: VirusTotalReport where
  "no_report = \<lparr>Status = ErrorStatus, Malicious = 0, Suspicious = 0, Undetected = 0, Harmless = 0, Engines = 0,
     LastAnalysis = 0, HttpStatus = 0, Error = 0\<rparr>"

definition FromResponse :: "Response \<Rightarrow> VirusTotalReport" where
  "FromResponse r =
     no_report\<lparr>HttpStatus := StatusCode r, Error := ErrorCode r,
       Status := (if StatusCode r = 200 then Found else if StatusCode r = 404 then NotFound
                  else if StatusCode r = 401 \<or> StatusCode r = 403 then BadKey
                  else if StatusCode r = 429 then QuotaExceeded else ErrorStatus)\<rparr>"

definition ReportUrl :: "wstr \<Rightarrow> wstr" where
  "ReportUrl sha256 = wide ''https://www.virustotal.com/gui/file/'' @ sha256"

definition analysis_count :: "bytes \<Rightarrow> nat \<times> nat \<Rightarrow> string \<Rightarrow> u32" where
  "analysis_count body span key =
     (case FindNumber body (fst span) (snd span) (narrow key) of None \<Rightarrow> 0 | Some n \<Rightarrow> word_of_int n)"

definition add_stats :: "bytes \<Rightarrow> VirusTotalReport \<Rightarrow> VirusTotalReport" where
  "add_stats body report =
     (case FindObject body (narrow ''last_analysis_stats'') of None \<Rightarrow> report
      | Some span \<Rightarrow>
          let m = analysis_count body span ''malicious''; s = analysis_count body span ''suspicious'';
              u = analysis_count body span ''undetected''; h = analysis_count body span ''harmless''
          in report\<lparr>Malicious := m, Suspicious := s, Undetected := u, Harmless := h,
               Engines := m + s + u + h + analysis_count body span ''timeout'' + analysis_count body span ''failure''\<rparr>)"

definition read_report :: "bytes \<Rightarrow> VirusTotalReport \<Rightarrow> VirusTotalReport" where
  "read_report body report =
     (add_stats body report)\<lparr>LastAnalysis :=
       (case FindNumber body 0 (length body) (narrow ''last_analysis_date'') of None \<Rightarrow> 0 | Some n \<Rightarrow> n)\<rparr>"

text \<open>The report and the requests that were sent.\<close>

definition LookupHash :: "(Request \<Rightarrow> Exchange) \<Rightarrow> wstr \<Rightarrow> wstr \<Rightarrow> VirusTotalReport \<times> Request list" where
  "LookupHash net apiKey sha256 =
     (let r = api_request apiKey (wide ''/api/v3/files/'' @ sha256); response = Send net r; report = FromResponse response
      in (if Status report \<noteq> Found then report else read_report (Body response) report, [r]))"

section \<open>Uploading a file\<close>

definition DirectUploadLimit :: nat where "DirectUploadLimit = 32 * 2 ^ 20"
definition UploadLimit :: nat where "UploadLimit = 650 * 2 ^ 20"

text \<open>
  What the upload uses: UTF-8 both ways, the tick count, \<open>WinHttpCrackUrl\<close> (the host and the path, or an error), and
  the file (an error, or its size with the reads, each \<open>None\<close> if it fails, and the error the last one leaves).
\<close>

record Uploads =
  Widen :: "bytes \<Rightarrow> wstr"
  Narrow :: "wstr \<Rightarrow> bytes"
  TickCount :: nat
  CrackUrl :: "wstr \<Rightarrow> u32 + wstr \<times> wstr"
  OpenFile :: "wstr \<Rightarrow> u32 + nat \<times> bytes option list"
  ReadError :: u32

definition decimal :: "nat \<Rightarrow> bytes" where
  "decimal n = map ucast (to_wstring n)"

definition boundary :: "Uploads \<Rightarrow> bytes" where
  "boundary u = narrow ''----WinSysLive'' @ decimal (TickCount u)"

definition crlf :: bytes where "crlf = [13, 10]"

definition upload_head :: "Uploads \<Rightarrow> bytes \<Rightarrow> bytes" where
  "upload_head u name =
     narrow ''--'' @ boundary u @ crlf @ narrow ''Content-Disposition: form-data; name='' @ quoted (narrow ''file'') @
     narrow ''; filename='' @ quoted name @ crlf @ narrow ''Content-Type: application/octet-stream'' @ crlf @ crlf"

definition upload_tail :: "Uploads \<Rightarrow> bytes" where
  "upload_tail u = crlf @ narrow ''--'' @ boundary u @ narrow ''--'' @ crlf"

definition file_name :: "wstr \<Rightarrow> wstr" where
  "file_name path = rev (takeWhile (\<lambda>c. c \<noteq> 0x5C \<and> c \<noteq> 0x2F) (rev path))"

text \<open>The file's bytes, read until there are as many as its size said.\<close>

fun read_file :: "nat \<Rightarrow> bytes option list \<Rightarrow> bytes option" where
  "read_file n reads =
     (if n = 0 then Some []
      else case reads of Some (d # ds) # rs \<Rightarrow> map_option (\<lambda>r. d # ds @ r) (read_file (n - length (d # ds)) rs)
         | _ \<Rightarrow> None)"

declare read_file.simps [simp del]

definition upload_headers :: "Uploads \<Rightarrow> wstr \<Rightarrow> wstr" where
  "upload_headers u apiKey =
     request_headers apiKey (wide ''Content-Type: multipart/form-data; boundary='' @ Widen u (boundary u) @ [13, 10])"

text \<open>Where the file goes, or the report of what failed; and the requests sent to find out.\<close>

definition upload_target :: "Uploads \<Rightarrow> (Request \<Rightarrow> Exchange) \<Rightarrow> wstr \<Rightarrow> nat \<Rightarrow>
    (VirusTotalReport + wstr \<times> wstr) \<times> Request list" where
  "upload_target u net apiKey size_of_file =
     (if size_of_file > DirectUploadLimit then
        let r = api_request apiKey (wide ''/api/v3/files/upload_url''); response = Send net r;
            url = Widen u (FindString (Body response) (narrow ''data''))
        in (if StatusCode response \<noteq> 200 then Inl (FromResponse response)
            else if url = [] then Inl (no_report\<lparr>Error := 13\<rparr>)
            else case CrackUrl u url of Inl e \<Rightarrow> Inl (no_report\<lparr>Error := e\<rparr>) | Inr target \<Rightarrow> Inr target, [r])
      else (Inr (Host, wide ''/api/v3/files''), []))"

definition uploaded :: "VirusTotalReport \<Rightarrow> VirusTotalReport" where
  "uploaded report = (if Status report = Found then report\<lparr>Status := Uploaded\<rparr> else report)"

definition UploadFile :: "Uploads \<Rightarrow> (Request \<Rightarrow> Exchange) \<Rightarrow> wstr \<Rightarrow> wstr \<Rightarrow> VirusTotalReport \<times> Request list" where
  "UploadFile u net apiKey path =
     (case OpenFile u path of Inl e \<Rightarrow> (no_report\<lparr>Error := e\<rparr>, [])
      | Inr (n, reads) \<Rightarrow>
          if n > UploadLimit then (no_report\<lparr>Status := TooLarge\<rparr>, [])
          else case read_file n reads of None \<Rightarrow> (no_report\<lparr>Error := ReadError u\<rparr>, [])
          | Some data \<Rightarrow>
              let body = upload_head u (Narrow u (file_name path)) @ data @ upload_tail u
              in case upload_target u net apiKey n of
                (Inl report, sent) \<Rightarrow> (report, sent)
              | (Inr (host, target), sent) \<Rightarrow>
                  let r = \<lparr>Server = host, Path = target, Verb = wide ''POST'', Headers = upload_headers u apiKey, Content = body\<rparr>
                  in (uploaded (FromResponse (Send net r)), sent @ [r]))"

section \<open>Hashing a file\<close>

text \<open>The reads of the file up to the empty one, or nothing if one fails; \<open>sha256\<close> is the provider's hash.\<close>

fun read_chunks :: "bytes option list \<Rightarrow> bytes option" where
  "read_chunks (None # _) = None"
| "read_chunks (Some (d # ds) # rs) = map_option (\<lambda>r. (d # ds) @ r) (read_chunks rs)"
| "read_chunks _ = Some []"

definition hex_digit :: "nat \<Rightarrow> 16 word" where
  "hex_digit n = wide ''0123456789abcdef'' ! n"

definition hex_text :: "bytes \<Rightarrow> wstr" where
  "hex_text ds = concat (map (\<lambda>b. [hex_digit (unat (drop_bit 4 b)), hex_digit (unat (b AND 15))]) ds)"

definition Sha256 :: "(bytes \<Rightarrow> bytes option) option \<Rightarrow> bytes option list option \<Rightarrow> wstr option" where
  "Sha256 sha256 file =
     (case (file, sha256) of
        (Some reads, Some h) \<Rightarrow> Option.bind (read_chunks reads) (\<lambda>data. map_option hex_text (h data))
      | _ \<Rightarrow> None)"

section \<open>Searching a text\<close>

fun first_at :: "'a list \<Rightarrow> 'a list \<Rightarrow> nat option" where
  "first_at p [] = (if p = [] then Some 0 else None)"
| "first_at p (c # s) = (if take (length p) (c # s) = p then Some 0 else map_option Suc (first_at p s))"

lemma find_str_from:
  "find_str p (pre @ s) (length pre) = map_option (\<lambda>n. length pre + n) (first_at p s)"
proof (induction s arbitrary: pre)
  case Nil
  show ?case
  proof (cases p)
    case Nil
    then show ?thesis by (simp add: find_str_def occurrences_def upt_rec)
  qed (simp add: find_str_def occurrences_def)
next
  case (Cons c s)
  let ?t = "pre @ c # s"
  have IH: "find_str p ?t (Suc (length pre)) = map_option (\<lambda>n. Suc (length pre) + n) (first_at p s)"
    using Cons.IH [of "pre @ [c]"] by simp
  show ?case
  proof (cases "take (length p) (c # s) = p")
    case True
    then have "length p \<le> length (c # s)" by (metis length_take min.cobounded1 min_def nat_le_linear)
    then have "[length pre..<length ?t + 1 - length p] = length pre # [Suc (length pre)..<length ?t + 1 - length p]"
      by (simp add: upt_rec)
    then show ?thesis using True by (simp add: find_str_def occurrences_def)
  next
    case False
    have "occurrences p ?t (length pre) = occurrences p ?t (Suc (length pre))"
    proof (cases "length pre < length ?t + 1 - length p")
      case True
      then have "[length pre..<length ?t + 1 - length p] = length pre # [Suc (length pre)..<length ?t + 1 - length p]"
        by (simp add: upt_rec)
      then show ?thesis using False by (simp add: occurrences_def)
    qed (simp add: occurrences_def)
    then have "find_str p ?t (length pre) = find_str p ?t (Suc (length pre))" by (simp add: find_str_def)
    then show ?thesis unfolding IH using False by (cases "first_at p s") auto
  qed
qed

lemma first_at_skip: "c \<notin> set a \<Longrightarrow> first_at (c # p) (a @ r) = map_option (\<lambda>n. length a + n) (first_at (c # p) r)"
proof (induction a)
  case Nil
  then show ?case by (cases "first_at (c # p) r") auto
next
  case (Cons x a)
  then show ?case by (cases "first_at (c # p) r") auto
qed

lemma first_at_here: "first_at p (p @ r) = Some 0"
proof (cases "p @ r")
  case (Cons c s)
  then have "take (length p) (c # s) = p" by (metis append_eq_conv_conj)
  then show ?thesis using Cons by simp
qed simp

definition plain_key :: "bytes \<Rightarrow> bool" where
  "plain_key k \<longleftrightarrow> k \<noteq> [] \<and> 0x22 \<notin> set k \<and> 0x5C \<notin> set k \<and> hd k \<noteq> 0x3A"

lemma take_quoted:
  assumes "0x22 \<notin> set k" and "0x22 \<notin> set k'" and "take (length k + 1) (k' @ 0x22 # r) = k @ [0x22 :: byte]"
  shows "k = k'"
  using assms
proof (induction k arbitrary: k')
  case Nil
  then show ?case by (cases k') auto
next
  case (Cons c k)
  then show ?case by (cases k') auto
qed

lemma first_at_other_key:
  assumes "plain_key k" and "plain_key k'" and "k \<noteq> k'"
  shows "first_at (quoted k) (quoted k' @ 0x3A # r) = map_option (\<lambda>n. length (quoted k') + n) (first_at (quoted k) (0x3A # r))"
proof -
  have "take (length (quoted k)) (0x22 # k' @ 0x22 # 0x3A # r) \<noteq> quoted k"
    using take_quoted [of k k' "0x3A # r"] assms by (auto simp: quoted_def plain_key_def)
  moreover have "first_at (quoted k) (k' @ 0x22 # 0x3A # r) = map_option (\<lambda>n. length k' + n) (first_at (quoted k) (0x22 # 0x3A # r))"
    using assms(2) first_at_skip [of "0x22" k' "k @ [0x22]"] by (simp add: quoted_def plain_key_def)
  moreover have "take (length (quoted k)) (0x22 # 0x3A # r) \<noteq> quoted k"
    using assms(1) by (cases k) (auto simp: quoted_def plain_key_def)
  ultimately show ?thesis
    by (simp add: quoted_def [of k'] option.map_comp o_def)
qed

section \<open>Objects\<close>

text \<open>JSON text: \<open>sp\<close> is the white space between its parts; a string's text is kept as it is written.\<close>

datatype json = Atom bytes | Str bytes | Arr "json list" | Obj "(bytes \<times> json) list"

fun json_text :: "bytes \<Rightarrow> json \<Rightarrow> bytes" where
  "json_text sp (Atom t) = t"
| "json_text sp (Str t) = quoted t"
| "json_text sp (Arr vs) = 0x5B # join [0x2C] (map (json_text sp) vs) @ [0x5D]"
| "json_text sp (Obj fs) =
     0x7B # join [0x2C] (map (\<lambda>f. sp @ quoted (fst f) @ 0x3A # sp @ json_text sp (snd f)) fs) @ sp @ [0x7D]"

fun string_ok :: "bytes \<Rightarrow> bool" where
  "string_ok [] = True"
| "string_ok (c # cs) = (if c = 0x5C then (case cs of [] \<Rightarrow> False | _ # rest \<Rightarrow> string_ok rest) else c \<noteq> 0x22 \<and> string_ok cs)"

definition unmarked :: "bytes \<Rightarrow> bool" where
  "unmarked t \<longleftrightarrow> 0x22 \<notin> set t \<and> 0x7B \<notin> set t \<and> 0x7D \<notin> set t"

fun json_ok :: "json \<Rightarrow> bool" where
  "json_ok (Atom t) = unmarked t"
| "json_ok (Str t) = string_ok t"
| "json_ok (Arr vs) = list_all json_ok vs"
| "json_ok (Obj fs) = list_all (\<lambda>f. string_ok (fst f) \<and> json_ok (snd f)) fs"

lemma object_end_unmarked:
  "unmarked t \<Longrightarrow> object_end False d i (t @ r) = object_end False d (i + length t) r"
  by (induction t arbitrary: i) (auto simp: unmarked_def)

lemma object_end_string:
  "string_ok t \<Longrightarrow> object_end True d i (t @ 0x22 # r) = object_end False d (i + length t + 1) r"
  by (induction t arbitrary: i rule: string_ok.induct) (auto split: list.splits)

lemma object_end_quoted:
  "string_ok t \<Longrightarrow> object_end False d i (quoted t @ r) = object_end False d (i + length (quoted t)) r"
  using object_end_string [of t d "i + 1" r] by (simp add: quoted_def)

definition passed :: "bytes \<Rightarrow> bool" where
  "passed t \<longleftrightarrow> (\<forall>d i r. d \<ge> 1 \<longrightarrow> object_end False d i (t @ r) = object_end False d (i + length t) r)"

lemma passed_app: "passed s \<Longrightarrow> passed t \<Longrightarrow> passed (s @ t)"
  by (simp add: passed_def add.assoc)

lemma passed_unmarked: "unmarked t \<Longrightarrow> passed t"
  by (simp add: passed_def object_end_unmarked)

lemma passed_quoted: "string_ok t \<Longrightarrow> passed (quoted t)"
  by (simp add: passed_def object_end_quoted del: length_append)

lemma passed_join: "(\<And>t. t \<in> set ts \<Longrightarrow> passed t) \<Longrightarrow> passed (join [0x2C] ts)"
proof (induction ts)
  case Nil
  then show ?case by (simp add: passed_def)
next
  case (Cons t ts)
  show ?case
  proof (cases ts)
    case (Cons u us)
    have "passed (t @ [0x2C] @ join [0x2C] ts)"
      by (intro passed_app Cons.IH Cons.prems passed_unmarked) (auto simp: unmarked_def)
    then show ?thesis using Cons by simp
  qed (use Cons.prems in simp)
qed

lemma passed_braces: "passed t \<Longrightarrow> passed (0x7B # t @ [0x7D])"
  unfolding passed_def
proof (intro allI impI)
  fix d :: int and i r
  assume t: "\<forall>d i r. 1 \<le> d \<longrightarrow> object_end False d i (t @ r) = object_end False d (i + length t) r" and "1 \<le> d"
  then have "object_end False (d + 1) (i + 1) (t @ 0x7D # r) = object_end False (d + 1) (i + 1 + length t) (0x7D # r)" by simp
  then show "object_end False d i ((0x7B # t @ [0x7D]) @ r) = object_end False d (i + length (0x7B # t @ [0x7D])) r"
    using \<open>1 \<le> d\<close> by simp
qed

lemma passed_json: "unmarked sp \<Longrightarrow> json_ok v \<Longrightarrow> passed (json_text sp v)"
proof (induction v)
  case (Arr vs)
  have "passed ([0x5B] @ join [0x2C] (map (json_text sp) vs) @ [0x5D])"
    by (intro passed_app passed_join passed_unmarked [of "[0x5B]"] passed_unmarked [of "[0x5D]"])
      (use Arr in \<open>auto simp: unmarked_def list_all_iff\<close>)
  then show ?case by simp
next
  case (Obj fs)
  have f: "passed (sp @ quoted (fst f) @ [0x3A] @ sp @ json_text sp (snd f))" if "f \<in> set fs" for f
  proof -
    have "passed (json_text sp (snd f))" using Obj that by (cases f) (auto simp: list_all_iff)
    then show ?thesis
      by (intro passed_app passed_unmarked [of sp] passed_unmarked [of "[0x3A]"] passed_quoted)
        (use Obj.prems that in \<open>auto simp: unmarked_def list_all_iff\<close>)
  qed
  have "passed (0x7B # (join [0x2C] (map (\<lambda>f. sp @ quoted (fst f) @ [0x3A] @ sp @ json_text sp (snd f)) fs) @ sp) @ [0x7D])"
    by (intro passed_braces passed_app passed_join passed_unmarked [of sp]) (use f Obj.prems in auto)
  then show ?case by simp
qed (auto intro: passed_unmarked passed_quoted)

definition fields_text :: "bytes \<Rightarrow> (bytes \<times> json) list \<Rightarrow> bytes" where
  "fields_text sp fs = join [0x2C] (map (\<lambda>f. sp @ quoted (fst f) @ 0x3A # sp @ json_text sp (snd f)) fs)"

lemma object_end_json:
  assumes "unmarked sp" and "json_ok (Obj fs)"
  shows "object_end False 0 i (json_text sp (Obj fs) @ r) = Some (i + length (json_text sp (Obj fs)) - 1)"
proof -
  have f: "passed (sp @ quoted (fst f) @ [0x3A] @ sp @ json_text sp (snd f))" if "f \<in> set fs" for f
    by (intro passed_app passed_unmarked [of sp] passed_unmarked [of "[0x3A]"] passed_quoted passed_json)
      (use assms that in \<open>auto simp: unmarked_def list_all_iff\<close>)
  have "passed (fields_text sp fs @ sp)"
    unfolding fields_text_def by (intro passed_app passed_join passed_unmarked [of sp] assms(1)) (use f in auto)
  then have "object_end False 1 (i + 1) ((fields_text sp fs @ sp) @ 0x7D # r) =
      object_end False 1 (i + 1 + length (fields_text sp fs @ sp)) (0x7D # r)"
    by (simp only: passed_def order.refl simp_thms)
  then show ?thesis by (simp add: fields_text_def)
qed

text \<open>The object of a key is found from its opening brace to the brace that closes it, whatever objects, arrays and
  strings (with braces and escaped quotes in them) the object holds.\<close>

theorem FindObject_span:
  assumes "find_str (quoted key) (pre @ quoted key @ gap @ json_text sp (Obj fs) @ post) 0 = Some (length pre)"
    and "0x7B \<notin> set key" and "0x7B \<notin> set gap" and "unmarked sp" and "json_ok (Obj fs)"
  shows "FindObject (pre @ quoted key @ gap @ json_text sp (Obj fs) @ post) key =
    Some (length (pre @ quoted key @ gap), length (pre @ quoted key @ gap @ json_text sp (Obj fs)) - 1)"
proof -
  let ?json = "pre @ quoted key @ gap @ json_text sp (Obj fs) @ post" and ?pre = "pre @ quoted key @ gap"
  have "find_char 0x7B (pre @ (quoted key @ gap) @ 0x7B # tl (json_text sp (Obj fs) @ post)) (length pre) = Some (length pre + length (quoted key @ gap))"
    by (rule find_char_append) (use assms(2,3) in \<open>auto simp: quoted_def\<close>)
  then have start: "find_char 0x7B ?json (length pre) = Some (length ?pre)" by simp
  have "drop (length ?pre) ?json = json_text sp (Obj fs) @ post" by simp
  then have "object_end False 0 (length ?pre) (drop (length ?pre) ?json) = Some (length ?pre + length (json_text sp (Obj fs)) - 1)"
    using object_end_json [OF assms(4,5)] by simp
  then show ?thesis using assms(1) start by (simp add: FindObject_def del: json_text.simps)
qed

section \<open>Numbers\<close>

lemma digit_byte: "d < 10 \<Longrightarrow> isdigit (ucast (of_nat (0x30 + d) :: u16)) \<and> unat (ucast (of_nat (0x30 + d) :: u16) :: byte) = 0x30 + d"
proof -
  assume "d < 10"
  then have "d = 0 \<or> d = 1 \<or> d = 2 \<or> d = 3 \<or> d = 4 \<or> d = 5 \<or> d = 6 \<or> d = 7 \<or> d = 8 \<or> d = 9" by presburger
  then show ?thesis by (elim disjE) (simp_all add: isdigit_def)
qed

lemma decimal_digits_ok: "list_all isdigit (decimal n) \<and> decimal n \<noteq> [] \<and> foldl (\<lambda>m c. 10 * m + (unat c - 0x30)) 0 (decimal n) = n"
proof (induction n rule: less_induct)
  case (less n)
  show ?case
  proof (cases "n < 10")
    case True
    then show ?thesis using digit_byte [of n] by (simp add: decimal_def to_wstring_digit)
  next
    case False
    then have "n div 10 < n" by simp
    moreover have "decimal n = decimal (n div 10) @ [ucast (of_nat (0x30 + n mod 10) :: u16)]"
      using False by (simp add: decimal_def to_wstring_step)
    ultimately show ?thesis using less.IH [of "n div 10"] digit_byte [of "n mod 10"] by simp
  qed
qed

lemma strtoi64_decimal:
  assumes "\<not> isdigit c"
  shows "strtoi64 (decimal n @ c # t) = min (2 ^ 63 - 1) (int n)"
proof -
  have "takeWhile isdigit (decimal n @ c # t) = decimal n"
    using decimal_digits_ok [of n] assms by (auto simp: list_all_iff takeWhile_append2)
  then have "digits_value (decimal n @ c # t) = n" using decimal_digits_ok [of n] by (simp add: digits_value_def)
  moreover have "hd (decimal n @ c # t) \<noteq> 0x2D" using decimal_digits_ok [of n] by (cases "decimal n") (auto simp: isdigit_def)
  ultimately show ?thesis by (simp add: strtoi64_def)
qed

section \<open>A number in an object\<close>

lemma FindNumber_at:
  assumes "first_at (quoted k) (a @ quoted k @ 0x3A # sp @ decimal n @ c # t) = Some (length a)"
    and "list_all json_space sp" and "\<not> isdigit c" and "length pre + length a < stop"
  shows "FindNumber (pre @ a @ quoted k @ 0x3A # sp @ decimal n @ c # t) (length pre) stop k = Some (min (2 ^ 63 - 1) (int n))"
proof -
  let ?json = "pre @ a @ quoted k @ 0x3A # sp @ decimal n @ c # t" and ?p = "pre @ a @ quoted k"
  have pos: "find_str (quoted k) ?json (length pre) = Some (length pre + length a)"
    using find_str_from [of "quoted k" pre] assms(1) by simp
  have colon: "find_char 0x3A ?json (length pre + length a + length (quoted k)) = Some (length ?p)"
    using find_char_append [of "0x3A" "[]" "?p" "length ?p" "sp @ decimal n @ c # t"] by (simp add: add.assoc)
  obtain d ds where d: "decimal n = d # ds" "isdigit d"
    using decimal_digits_ok [of n] by (cases "decimal n") auto
  have "\<not> json_space d" using d(2) by (auto simp: isdigit_def json_space_def)
  then have "takeWhile json_space (sp @ decimal n @ c # t) = sp"
    using assms(2) d(1) by (simp add: takeWhile_append2 list_all_iff)
  then have ns: "find_not_space ?json (length ?p + 1) = Some (length ?p + 1 + length sp)"
    using d(1) by (simp add: find_not_space_def)
  have at: "drop (length ?p + 1 + length sp) ?json = decimal n @ c # t" by simp
  then have "?json ! (length ?p + 1 + length sp) = d" using d(1) by (metis append_Cons drop_eq_Nil2 hd_drop_conv_nth list.distinct(1) list.sel(1) not_le)
  then show ?thesis
    using pos colon ns at d(2) strtoi64_decimal [OF assms(3), of n t] assms(4) by (simp add: FindNumber_def)
qed

lemma FindNumber_absent:
  assumes "first_at (quoted k) (a @ r) = map_option (\<lambda>n. length a + n) (first_at (quoted k) r)" and "stop \<le> length pre + length a"
  shows "FindNumber (pre @ a @ r) (length pre) stop k = None"
  using assms find_str_from [of "quoted k" pre "a @ r"] by (auto simp: FindNumber_def split: option.splits)

text \<open>The text of a field with a number.\<close>

definition field_text :: "bytes \<Rightarrow> bytes \<times> nat \<Rightarrow> bytes" where
  "field_text sp f = sp @ quoted (fst f) @ 0x3A # sp @ decimal (snd f)"

definition counts_text :: "bytes \<Rightarrow> (bytes \<times> nat) list \<Rightarrow> bytes" where
  "counts_text sp fs = join [0x2C] (map (field_text sp) fs)"

definition count_object :: "(bytes \<times> nat) list \<Rightarrow> json" where
  "count_object fs = Obj (map (\<lambda>f. (fst f, Atom (decimal (snd f)))) fs)"

lemma count_object_text: "json_text sp (count_object fs) = 0x7B # counts_text sp fs @ sp @ [0x7D]"
  by (simp add: count_object_def counts_text_def field_text_def o_def cong: map_cong)

lemma decimal_quoteless: "c \<in> set (decimal n) \<Longrightarrow> isdigit c"
  using decimal_digits_ok [of n] by (auto simp: list_all_iff)

lemma field_skipped:
  assumes "plain_key k" and "plain_key (fst f)" and "k \<noteq> fst f" and "0x22 \<notin> set sp"
  shows "first_at (quoted k) (field_text sp f @ r) = map_option (\<lambda>n. length (field_text sp f) + n) (first_at (quoted k) r)"
proof -
  have skip: "first_at (quoted k) (a @ s) = map_option (\<lambda>n. length a + n) (first_at (quoted k) s)" if "0x22 \<notin> set a" for a s
    using first_at_skip [OF that, of "k @ [0x22]" s] by (simp add: quoted_def)
  have "0x22 \<notin> set (decimal (snd f))" using decimal_quoteless [of "0x22"] by (auto simp: isdigit_def)
  then have "0x22 \<notin> set (0x3A # sp @ decimal (snd f))" using assms(4) by simp
  then have "first_at (quoted k) (0x3A # (sp @ decimal (snd f) @ r)) = map_option (\<lambda>n. length (0x3A # sp @ decimal (snd f)) + n) (first_at (quoted k) r)"
    using skip [of "0x3A # sp @ decimal (snd f)" r] by simp
  then show ?thesis
    using skip [OF assms(4), of "quoted (fst f) @ 0x3A # (sp @ decimal (snd f) @ r)"] first_at_other_key [OF assms(1-3), of "sp @ decimal (snd f) @ r"]
    by (cases "first_at (quoted k) r") (simp_all add: field_text_def)
qed

lemma comma_skipped: "first_at (quoted k) (0x2C # s) = map_option Suc (first_at (quoted k) s)"
  by (simp add: quoted_def)

lemma counts_skipped:
  assumes "plain_key k" and "\<forall>f \<in> set fs. plain_key (fst f)" and "k \<notin> fst ` set fs" and "0x22 \<notin> set sp"
  shows "first_at (quoted k) (counts_text sp fs @ r) = map_option (\<lambda>n. length (counts_text sp fs) + n) (first_at (quoted k) r)"
  using assms(2,3)
proof (induction fs)
  case Nil
  then show ?case by (cases "first_at (quoted k) r") (simp_all add: counts_text_def)
next
  case (Cons f fs)
  have f: "first_at (quoted k) (field_text sp f @ s) = map_option (\<lambda>n. length (field_text sp f) + n) (first_at (quoted k) s)" for s
    using field_skipped [OF assms(1)] Cons.prems assms(4) by auto
  have IH: "first_at (quoted k) (counts_text sp fs @ r) = map_option (\<lambda>n. length (counts_text sp fs) + n) (first_at (quoted k) r)"
    using Cons by simp
  show ?case
  proof (cases fs)
    case Nil
    then show ?thesis using f [of r] by (simp add: counts_text_def)
  next
    case (Cons g gs)
    then have t: "counts_text sp (f # fs) = field_text sp f @ 0x2C # counts_text sp fs" by (simp add: counts_text_def)
    show ?thesis
      using f [of "0x2C # counts_text sp fs @ r"] comma_skipped [of k "counts_text sp fs @ r"] IH
      by (cases "first_at (quoted k) r") (simp_all add: t)
  qed
qed

lemma count_found:
  assumes "plain_key k" and "\<forall>f \<in> set fs. plain_key (fst f)" and "map_of fs k = Some n" and "0x22 \<notin> set sp"
    and r: "r = c # r'" "\<not> isdigit c"
  shows "\<exists>a c' t. counts_text sp fs @ r = a @ quoted k @ 0x3A # sp @ decimal n @ c' # t \<and> \<not> isdigit c' \<and>
    length a < length (counts_text sp fs) \<and> first_at (quoted k) (counts_text sp fs @ r) = Some (length a)"
  using assms(2,3)
proof (induction fs)
  case (Cons f fs)
  define s where "s = (if fs = [] then r else 0x2C # counts_text sp fs @ r)"
  have t: "counts_text sp (f # fs) @ r = field_text sp f @ s"
    by (cases fs) (simp_all add: counts_text_def s_def)
  have len: "length (field_text sp f) \<le> length (counts_text sp (f # fs))" by (cases fs) (simp_all add: counts_text_def)
  obtain c' s' where s': "s = c' # s'" "\<not> isdigit c'" using r by (cases fs) (auto simp: s_def isdigit_def)
  show ?case
  proof (cases "fst f = k")
    case True
    then have n: "snd f = n" using Cons.prems(2) by (cases f) auto
    have whole: "counts_text sp (f # fs) @ r = sp @ quoted k @ 0x3A # sp @ decimal n @ c' # s'"
      unfolding t by (simp add: field_text_def True n s'(1))
    have "first_at (quoted k) (sp @ quoted k @ 0x3A # sp @ decimal n @ c' # s') = Some (length sp)"
      using first_at_skip [OF assms(4), of "k @ [0x22]" "quoted k @ 0x3A # sp @ decimal n @ c' # s'"]
        first_at_here [of "quoted k" "0x3A # sp @ decimal n @ c' # s'"] by (simp add: quoted_def)
    moreover have "length sp < length (field_text sp f)" by (simp add: field_text_def quoted_def)
    ultimately show ?thesis using whole len s'(2) by (intro exI [of _ sp] exI [of _ c'] exI [of _ s']) simp
  next
    case False
    then have m: "map_of fs k = Some n" using Cons.prems(2) by (cases f) auto
    then have "fs \<noteq> []" by auto
    then have s: "s = 0x2C # counts_text sp fs @ r" by (simp add: s_def)
    obtain a c'' t' where a: "counts_text sp fs @ r = a @ quoted k @ 0x3A # sp @ decimal n @ c'' # t'" "\<not> isdigit c''"
      "length a < length (counts_text sp fs)" "first_at (quoted k) (counts_text sp fs @ r) = Some (length a)"
      using Cons.IH Cons.prems(1) m by auto
    have "first_at (quoted k) (field_text sp f @ s) = Some (length (field_text sp f) + Suc (length a))"
      using field_skipped [OF assms(1) _ _ assms(4), of f s] Cons.prems(1) False a(4) comma_skipped [of k "counts_text sp fs @ r"]
      by (simp add: s)
    moreover have "length (counts_text sp (f # fs)) = length (field_text sp f) + 1 + length (counts_text sp fs)"
      using \<open>fs \<noteq> []\<close> by (cases fs) (simp_all add: counts_text_def)
    ultimately show ?thesis
      unfolding t using a by (intro exI [of _ "field_text sp f @ 0x2C # a"] exI [of _ c''] exI [of _ t']) (simp add: s)
  qed
qed simp

lemma plain_string_ok: "0x22 \<notin> set t \<Longrightarrow> 0x5C \<notin> set t \<Longrightarrow> string_ok t"
  by (induction t) auto

lemma count_object_ok:
  assumes "\<forall>f \<in> set fs. plain_key (fst f)"
  shows "json_ok (count_object fs)"
proof -
  have "unmarked (decimal n)" for n
    using decimal_quoteless [of "0x22" n] decimal_quoteless [of "0x7B" n] decimal_quoteless [of "0x7D" n]
    by (auto simp: unmarked_def isdigit_def)
  then show ?thesis using assms plain_string_ok by (auto simp: count_object_def list_all_iff plain_key_def)
qed

lemma read_body_chunks:
  "[] \<notin> set chunks \<Longrightarrow> read_body (map (\<lambda>d. (length d, Some d)) chunks) body = body @ concat chunks"
proof (induction chunks arbitrary: body)
  case (Cons d chunks)
  then show ?case by (cases d) auto
qed simp

text \<open>What the numbers of an object say of a key; its text between \<open>from\<close> and the closing brace.\<close>

definition count_of :: "(bytes \<times> nat) list \<Rightarrow> string \<Rightarrow> u32" where
  "count_of fs key = (case map_of fs (narrow key) of None \<Rightarrow> 0 | Some n \<Rightarrow> of_nat n)"

lemma analysis_count_object:
  assumes k: "plain_key (narrow key)" and fs: "\<forall>f \<in> set fs. plain_key (fst f) \<and> snd f < 2 ^ 32" and sp: "list_all json_space sp"
    and body: "body = pre @ json_text sp (count_object fs) @ post"
  shows "analysis_count body (length pre, length pre + length (json_text sp (count_object fs)) - 1) key = count_of fs key"
proof -
  have sp': "0x22 \<notin> set sp" using sp by (auto simp: list_all_iff json_space_def)
  have keys: "\<forall>f \<in> set fs. plain_key (fst f)" using fs by simp
  let ?k = "narrow key" and ?T = "counts_text sp fs" and ?stop = "length pre + length (json_text sp (count_object fs)) - 1"
  have stop: "?stop = length pre + 1 + length ?T + length sp" by (simp add: count_object_text)
  have brace: "first_at (quoted ?k) (0x7B # s) = map_option Suc (first_at (quoted ?k) s)" for s by (simp add: quoted_def)
  have tx: "json_text sp (count_object fs) @ post = 0x7B # ?T @ sp @ 0x7D # post" by (simp add: count_object_text)
  show ?thesis
  proof (cases "map_of fs ?k")
    case None
    then have k': "?k \<notin> fst ` set fs" by (simp add: map_of_eq_None_iff)
    have "first_at (quoted ?k) (?T @ sp @ 0x7D # post) = map_option (\<lambda>n. length (?T @ sp) + n) (first_at (quoted ?k) (0x7D # post))"
      using counts_skipped [OF k keys k' sp', of "sp @ 0x7D # post"] first_at_skip [OF sp', of "?k @ [0x22]" "0x7D # post"]
      by (cases "first_at (quoted ?k) post") (simp_all add: quoted_def)
    then have "first_at (quoted ?k) ((0x7B # ?T @ sp) @ 0x7D # post) =
        map_option (\<lambda>n. length (0x7B # ?T @ sp) + n) (first_at (quoted ?k) (0x7D # post))"
      using brace [of "?T @ sp @ 0x7D # post"] by (cases "first_at (quoted ?k) (0x7D # post)") simp_all
    then have "FindNumber (pre @ (0x7B # ?T @ sp) @ 0x7D # post) (length pre) ?stop ?k = None"
      by (rule FindNumber_absent) (unfold stop, simp)
    then show ?thesis using None by (simp add: analysis_count_def count_of_def body tx)
  next
    case (Some n)
    then have n: "n < 2 ^ 32" using fs map_of_SomeD [of fs ?k n] by fastforce
    obtain c r' where r: "sp @ 0x7D # post = c # r'" "\<not> isdigit c"
      using sp by (cases sp) (auto simp: isdigit_def json_space_def)
    obtain a c' t where a: "?T @ sp @ 0x7D # post = a @ quoted ?k @ 0x3A # sp @ decimal n @ c' # t" "\<not> isdigit c'"
      "length a < length ?T" "first_at (quoted ?k) (?T @ sp @ 0x7D # post) = Some (length a)"
      using count_found [OF k keys Some sp' r] by blast
    have "FindNumber (pre @ (0x7B # a) @ quoted ?k @ 0x3A # sp @ decimal n @ c' # t) (length pre) ?stop ?k = Some (min (2 ^ 63 - 1) (int n))"
      by (rule FindNumber_at) (use brace [of "?T @ sp @ 0x7D # post"] a sp stop in auto)
    moreover have "body = pre @ (0x7B # a) @ quoted ?k @ 0x3A # sp @ decimal n @ c' # t" using a(1) by (simp add: body tx)
    moreover have "min (2 ^ 63 - 1) (int n) = int n" using n by (simp add: min_def)
    ultimately show ?thesis using Some by (simp add: analysis_count_def count_of_def)
  qed
qed


definition sample_counts :: "(bytes \<times> nat) list" where
  "sample_counts = [(narrow ''harmless'', 0), (narrow ''malicious'', 3), (narrow ''undetected'', 64)]"

definition sample_body :: bytes where
  "sample_body = narrow ''{ '' @ quoted (narrow ''last_analysis_stats'') @ 0x3A # narrow '' '' @
     json_text (narrow '' '') (count_object sample_counts) @ narrow ''}''"

definition sample_chunks :: "bytes list" where
  "sample_chunks = [take 30 sample_body, drop 30 sample_body]"

lemma FindObject_span_witness:
  "FindObject ([0x7B] @ quoted (narrow ''a'') @ [0x3A] @ json_text [] (Obj [(narrow ''b'', Str [0x5C, 0x22, 0x7D])]) @ [0x7D]) (narrow ''a'') =
     Some (length ([0x7B] @ quoted (narrow ''a'') @ [0x3A]),
       length ([0x7B] @ quoted (narrow ''a'') @ [0x3A] @ json_text [] (Obj [(narrow ''b'', Str [0x5C, 0x22, 0x7D])])) - 1)"
  by (rule FindObject_span) code_simp+


section \<open>What an upload sends\<close>

lemma read_file_length: "read_file n reads = Some data \<Longrightarrow> n \<le> length data"
proof (induction n reads arbitrary: data rule: read_file.induct)
  case (1 n reads)
  show ?case
  proof (cases "n = 0")
    case False
    then obtain d ds rs where r: "reads = Some (d # ds) # rs" and "map_option (\<lambda>r. d # ds @ r) (read_file (n - length (d # ds)) rs) = Some data"
      using 1(2) by (subst (asm) read_file.simps) (auto split: list.splits option.splits)
    then obtain more where m: "read_file (n - length (d # ds)) rs = Some more" "data = d # ds @ more" by auto
    have "n - length (d # ds) \<le> length more" using 1(1) [OF False _ _ _ m(1)] r by blast
    then show ?thesis using m(2) by simp
  qed simp
qed


definition sample_upload :: Uploads where
  "sample_upload = \<lparr>Widen = map ucast, Narrow = map ucast, TickCount = 5, CrackUrl = (\<lambda>_. Inl 0),
     OpenFile = (\<lambda>_. Inr (3, [Some [1, 2], Some [3]])), ReadError = 0\<rparr>"

definition accepting :: "Request \<Rightarrow> Exchange" where
  "accepting _ = \<lparr>Failure = None, HttpCode = 200, Reads = []\<rparr>"


end
