(* ===== verification/Process_Commands.thy ===== *)
theory Process_Commands
  imports Autorun_Images
begin

unbundle bit_operations_syntax

text \<open>
  Starting programs and what a process was started with (\<open>WinSys/Processes.cpp\<close>): command lines and accounts, the limited
  and the system's token, opening a process by its ID and creation time, its environment and current directory read from
  its memory, starting it again, attaching the debugger. The system calls are arguments.
\<close>

section \<open>Names and command lines\<close>

text \<open>\<open>find_first_of(chars, i)\<close> and \<open>find_first_not_of\<close>, for the characters with a property.\<close>

definition find_first :: "('a \<Rightarrow> bool) \<Rightarrow> 'a list \<Rightarrow> nat \<Rightarrow> nat option" where
  "find_first P s i =
     (let n = length (takeWhile (\<lambda>c. \<not> P c) (drop i s)) in if i + n < length s then Some (i + n) else None)"

definition space_tab :: "16 word \<Rightarrow> bool" where
  "space_tab c \<longleftrightarrow> c = 0x20 \<or> c = 9"

text \<open>The file of a command line and its arguments.\<close>

definition quoted_file :: "wstr \<Rightarrow> nat \<Rightarrow> wstr \<times> nat" where
  "quoted_file s start =
     (case find_char 0x22 s (start + 1) of
        None \<Rightarrow> (drop (start + 1) s, length s)
      | Some e \<Rightarrow> (substr s (start + 1) (e - start - 1), e + 1))"

definition plain_file :: "wstr \<Rightarrow> nat \<Rightarrow> wstr \<times> nat" where
  "plain_file s start =
     (let e = (case find_first space_tab s start of None \<Rightarrow> length s | Some e \<Rightarrow> e)
      in (substr s start (e - start), e))"

definition SplitCommandLine :: "wstr \<Rightarrow> wstr \<times> wstr" where
  "SplitCommandLine s =
     (case find_first (\<lambda>c. \<not> space_tab c) s 0 of
        None \<Rightarrow> ([], [])
      | Some start \<Rightarrow>
          (let (file, e) = (if s ! start = 0x22 then quoted_file s start else plain_file s start)
           in (file, case find_first (\<lambda>c. \<not> space_tab c) s e of None \<Rightarrow> [] | Some i \<Rightarrow> drop i s)))"

text \<open>The name of an image: what follows the last backslash of its path.\<close>

definition image_name :: "wstr \<Rightarrow> wstr" where
  "image_name path = rev (takeWhile (\<lambda>c. c \<noteq> 0x5C) (rev path))"

text \<open>\<open>QueryFullProcessImageName\<close> fails for a path that does not fit in \<open>MAX_PATH\<close> characters.\<close>

definition MAX_PATH :: nat where
  "MAX_PATH = 260"

definition GetFullImageName :: "(nat \<Rightarrow> wstr option) \<Rightarrow> wstr" where
  "GetFullImageName query = (case query MAX_PATH of None \<Rightarrow> [] | Some name \<Rightarrow> name)"

definition GetName :: "(nat \<Rightarrow> wstr option) \<Rightarrow> wstr" where
  "GetName query = image_name (GetFullImageName query)"

section \<open>Starting a program\<close>

text \<open>
  What a method leaves behind: its result, and the error it sets itself with \<open>SetLastError\<close> (\<open>None\<close>: the one of the last
  system call stays).
\<close>

type_synonym 'a outcome = "'a \<times> u32 option"

definition ERROR_FILE_NOT_FOUND :: u32 where "ERROR_FILE_NOT_FOUND = 2"
definition ERROR_BAD_FORMAT :: u32 where "ERROR_BAD_FORMAT = 11"
definition ERROR_NOT_SUPPORTED :: u32 where "ERROR_NOT_SUPPORTED = 50"
definition ERROR_INVALID_PARAMETER :: u32 where "ERROR_INVALID_PARAMETER = 87"
definition ERROR_NOT_FOUND :: u32 where "ERROR_NOT_FOUND = 1168"

lemmas error_codes = ERROR_FILE_NOT_FOUND_def ERROR_BAD_FORMAT_def ERROR_NOT_SUPPORTED_def ERROR_INVALID_PARAMETER_def
  ERROR_NOT_FOUND_def

text \<open>
  \<open>ShellExecuteEx\<close> with the verb, the file and the parameters: a failure, or success with or without a process (its ID).
\<close>

record ShellCall =
  lpVerb :: "wstr option"
  lpFile :: wstr
  lpParameters :: "wstr option"

definition Run :: "(ShellCall \<Rightarrow> u32 option option) \<Rightarrow> wstr \<Rightarrow> bool \<Rightarrow> u32 outcome" where
  "Run shell commandLine elevated =
     (let (file, args) = SplitCommandLine commandLine
      in if file = [] then (0, Some ERROR_INVALID_PARAMETER)
         else (case shell \<lparr>lpVerb = (if elevated then Some (wide ''runas'') else None), lpFile = file,
                           lpParameters = (if args = [] then None else Some args)\<rparr> of
                 None \<Rightarrow> (0, None)
               | Some None \<Rightarrow> (0, None)
               | Some (Some pid) \<Rightarrow> (pid, None)))"

text \<open>The account of \<open>RunAs\<close>: a name and a domain (empty: none, the name says it).\<close>

definition account :: "wstr \<Rightarrow> wstr \<times> wstr" where
  "account user =
     (case find_char 0x5C user 0 of
        Some i \<Rightarrow> (drop (i + 1) user, take i user)
      | None \<Rightarrow> (user, if find_char 0x40 user 0 = None then wide ''.'' else []))"

definition LOGON_WITH_PROFILE :: u32 where "LOGON_WITH_PROFILE = 1"
definition LOGON_NETCREDENTIALS_ONLY :: u32 where "LOGON_NETCREDENTIALS_ONLY = 2"

record LogonCall =
  l_User :: wstr
  l_Domain :: "wstr option"
  l_Password :: wstr
  l_Flags :: u32
  l_Command :: wstr

definition RunAs :: "(LogonCall \<Rightarrow> u32 option) \<Rightarrow> wstr \<Rightarrow> wstr \<Rightarrow> wstr \<Rightarrow> bool \<Rightarrow> bool \<Rightarrow> u32" where
  "RunAs logon commandLine user password loadProfile netOnly =
     (let (name, domain) = account user
      in case logon \<lparr>l_User = name, l_Domain = (if domain = [] then None else Some domain), l_Password = password,
                     l_Flags = (if netOnly then LOGON_NETCREDENTIALS_ONLY else if loadProfile then LOGON_WITH_PROFILE else 0),
                     l_Command = commandLine\<rparr> of
           None \<Rightarrow> 0
         | Some pid \<Rightarrow> pid)"

text \<open>The processes by name, and starting one with the session manager's token.\<close>

definition EnumProcessNames :: "(u32 \<times> wstr) list option \<Rightarrow> (u32 \<times> wstr) list" where
  "EnumProcessNames entries = (case entries of None \<Rightarrow> [] | Some ps \<Rightarrow> filter (\<lambda>p. fst p \<noteq> 0) ps)"

definition FindProcess :: "(u32 \<times> wstr) list option \<Rightarrow> wstr \<Rightarrow> u32" where
  "FindProcess entries name =
     (case find (\<lambda>p. same_name (snd p) name) (EnumProcessNames entries) of None \<Rightarrow> 0 | Some p \<Rightarrow> fst p)"

record 'token TokenCalls =
  OpenToken :: "u32 \<Rightarrow> 'token option"
  DuplicateToken :: "'token \<Rightarrow> 'token option"
  CreateWithToken :: "'token \<Rightarrow> wstr \<Rightarrow> u32 option"

definition RunAsSystem :: "(u32 \<times> wstr) list option \<Rightarrow> 'token TokenCalls \<Rightarrow> wstr \<Rightarrow> u32" where
  "RunAsSystem entries calls commandLine =
     (let pid = FindProcess entries (wide ''smss.exe'')
      in if pid = 0 then 0
         else (case Option.bind (OpenToken calls pid) (DuplicateToken calls) of
                 None \<Rightarrow> 0
               | Some token \<Rightarrow> (case CreateWithToken calls token commandLine of None \<Rightarrow> 0 | Some p \<Rightarrow> p)))"

text \<open>
  A process with a limited token: the Safer level's handle, the token computed from it (or the error), its integrity level
  when it can be read, setting it (the token then, or the status).
\<close>

definition SECURITY_MANDATORY_MEDIUM_RID :: u32 where "SECURITY_MANDATORY_MEDIUM_RID = 0x2000"

record 'token SaferCalls =
  CreateLevel :: bool
  ComputeToken :: "u32 + 'token"
  IntegrityOf :: "'token \<Rightarrow> u32 option"
  SetIntegrity :: "'token \<Rightarrow> u32 \<Rightarrow> u32 + 'token"
  CreateAsUser :: "'token \<Rightarrow> wstr \<Rightarrow> u32 option"
  ToDosError :: "u32 \<Rightarrow> u32"

definition lowered :: "'token SaferCalls \<Rightarrow> 'token \<Rightarrow> u32 + 'token" where
  "lowered calls token =
     (case IntegrityOf calls token of
        None \<Rightarrow> Inr token
      | Some rid \<Rightarrow>
          if rid > SECURITY_MANDATORY_MEDIUM_RID then SetIntegrity calls token SECURITY_MANDATORY_MEDIUM_RID else Inr token)"

definition RunLimited :: "'token SaferCalls \<Rightarrow> wstr \<Rightarrow> u32 outcome" where
  "RunLimited calls commandLine =
     (if \<not> CreateLevel calls then (0, None)
      else (case ComputeToken calls of
              Inl error \<Rightarrow> (0, Some error)
            | Inr token \<Rightarrow>
                (case lowered calls token of
                   Inl status \<Rightarrow> (0, Some (ToDosError calls status))
                 | Inr token \<Rightarrow> (case CreateAsUser calls token commandLine of None \<Rightarrow> (0, None) | Some pid \<Rightarrow> (pid, None)))))"

text \<open>A process that is opened by its ID and its creation time: \<open>open pid access\<close> opens a process.\<close>

definition PROCESS_QUERY_LIMITED_INFORMATION :: u32 where "PROCESS_QUERY_LIMITED_INFORMATION = 0x1000"

definition GetCreateTime :: "('process \<Rightarrow> (u32 \<times> u32) option) \<Rightarrow> 'process \<Rightarrow> u64" where
  "GetCreateTime times_of p = (case times_of p of None \<Rightarrow> 0 | Some (low, high) \<Rightarrow> word_cat high low)"

definition OpenById :: "(u32 \<Rightarrow> u32 \<Rightarrow> 'process option) \<Rightarrow> ('process \<Rightarrow> (u32 \<times> u32) option) \<Rightarrow>
    u32 \<Rightarrow> u64 \<Rightarrow> u32 \<Rightarrow> 'process option outcome" where
  "OpenById open_process times_of pid createTime access =
     (case open_process (access OR PROCESS_QUERY_LIMITED_INFORMATION) pid of
        None \<Rightarrow> (None, None)
      | Some p \<Rightarrow> if GetCreateTime times_of p \<noteq> createTime then (None, Some ERROR_NOT_FOUND) else (Some p, None))"

section \<open>Another process's parameters\<close>

text \<open>
  What the process's environment block and current directory need of the system: the PEB's address (32-bit and 64-bit),
  and \<open>ReadProcessMemory\<close>, which gives all the bytes asked for or fails. The offsets of the fields are the layouts'.
\<close>

record ProcessReads =
  PebOf :: "u64 option"
  Peb32Of :: "u64 option"
  ReadBytes :: "u64 \<Rightarrow> nat \<Rightarrow> bytes option"

record ParamsLayout =
  PebSize :: nat
  ParametersAt :: nat
  ParamsSize :: nat
  EnvironmentAt :: nat
  EnvironmentSizeAt :: nat
  DosPathAt :: nat

definition layout_ok :: "ParamsLayout \<Rightarrow> bool" where
  "layout_ok l \<longleftrightarrow> ParametersAt l + 8 \<le> PebSize l \<and> EnvironmentAt l + 8 \<le> ParamsSize l \<and> EnvironmentSizeAt l + 8 \<le> ParamsSize l"

text \<open>\<open>GetProcessPeb\<close>, and the process parameters behind it.\<close>

definition GetProcessPeb :: "ProcessReads \<Rightarrow> ParamsLayout \<Rightarrow> bytes option" where
  "GetProcessPeb r l = Option.bind (PebOf r) (\<lambda>peb. ReadBytes r peb (PebSize l))"

definition parameters :: "ProcessReads \<Rightarrow> ParamsLayout \<Rightarrow> bytes option" where
  "parameters r l = Option.bind (GetProcessPeb r l) (\<lambda>peb. ReadBytes r (u64_at peb (ParametersAt l)) (ParamsSize l))"

definition parameters32 :: "ProcessReads \<Rightarrow> ParamsLayout \<Rightarrow> u64 \<Rightarrow> bytes option" where
  "parameters32 r l peb32 =
     Option.bind (ReadBytes r peb32 (PebSize l)) (\<lambda>peb. ReadBytes r (ucast (u32_at peb (ParametersAt l))) (ParamsSize l))"

text \<open>
  The current directory: the text has a place more than the characters read into it, a NUL at its end. (An odd length
  fills half of that place; the system's lengths are even.)
\<close>

definition GetCurrentDirectory :: "ProcessReads \<Rightarrow> ParamsLayout \<Rightarrow> wstr" where
  "GetCurrentDirectory r l =
     (case parameters r l of
        None \<Rightarrow> []
      | Some params \<Rightarrow>
          (let len = unat (u16_at params (DosPathAt l))
           in case ReadBytes r (u64_at params (DosPathAt l + 8)) len of
                None \<Rightarrow> []
              | Some bs \<Rightarrow> units bs @ [0]))"

section \<open>The environment\<close>

type_synonym Environment = "(wstr \<times> wstr) list"

text \<open>A string of the block: the name may start with an equal sign.\<close>

definition variable_of :: "wstr \<Rightarrow> wstr \<times> wstr" where
  "variable_of entry =
     (case find_char 0x3D entry 1 of
        None \<Rightarrow> (entry, [])
      | Some equal \<Rightarrow> (take equal entry, drop (equal + 1) entry))"

text \<open>The strings of the block, up to an empty one or its end.\<close>

function block_variables :: "wstr \<Rightarrow> Environment" where
  "block_variables p =
     (if p = [] \<or> hd p = 0 then []
      else (let entry = takeWhile not_nul p in variable_of entry # block_variables (drop (length entry + 1) p)))"
  by pat_completeness auto
termination by (relation "measure length") auto

declare block_variables.simps [simp del]

text \<open>Where the block is: a WOW64 process's 32-bit parameters have it, else the 64-bit ones.\<close>

definition environment_place :: "ProcessReads \<Rightarrow> ParamsLayout \<Rightarrow> ParamsLayout \<Rightarrow> (u64 \<times> u64) option" where
  "environment_place r l l32 =
     (case Peb32Of r of
        Some peb32 \<Rightarrow>
          if peb32 \<noteq> 0 then
            map_option (\<lambda>ps. (ucast (u32_at ps (EnvironmentAt l32)), ucast (u32_at ps (EnvironmentSizeAt l32)))) (parameters32 r l32 peb32)
          else map_option (\<lambda>ps. (u64_at ps (EnvironmentAt l), u64_at ps (EnvironmentSizeAt l))) (parameters r l)
      | None \<Rightarrow> map_option (\<lambda>ps. (u64_at ps (EnvironmentAt l), u64_at ps (EnvironmentSizeAt l))) (parameters r l))"

definition MaxEnvironment :: u64 where
  "MaxEnvironment = 0x1000000"

definition GetEnvironment :: "ProcessReads \<Rightarrow> ParamsLayout \<Rightarrow> ParamsLayout \<Rightarrow> Environment" where
  "GetEnvironment r l l32 =
     (case environment_place r l l32 of
        None \<Rightarrow> []
      | Some (address, sz) \<Rightarrow>
          if address = 0 \<or> sz < 2 \<or> sz > MaxEnvironment then []
          else (case ReadBytes r address (unat sz) of
                  None \<Rightarrow> []
                | Some bs \<Rightarrow> block_variables (units (take (unat sz div 2 * 2) bs))))"

text \<open>The block that \<open>Restart\<close> builds.\<close>

definition block_entry :: "wstr \<times> wstr \<Rightarrow> wstr" where
  "block_entry v = fst v @ 0x3D # snd v @ [0]"

definition environment_block :: "Environment \<Rightarrow> wstr" where
  "environment_block env = (if env = [] then [] else concat (map block_entry env) @ [0])"

section \<open>The command line, starting again\<close>

text \<open>\<open>NtQueryInformationProcess\<close> with a buffer of some size: the command line, a status and the length it needs, or another failure.\<close>

datatype CommandAnswer = Answered wstr | LengthMismatch u32 | QueryFailed

definition GetCommandLine :: "(u32 \<Rightarrow> CommandAnswer) \<Rightarrow> wstr" where
  "GetCommandLine query =
     (case query 8192 of
        Answered s \<Rightarrow> s
      | QueryFailed \<Rightarrow> []
      | LengthMismatch n \<Rightarrow> (case query n of Answered s \<Rightarrow> s | _ \<Rightarrow> []))"

fun strip_nuls :: "wstr \<Rightarrow> wstr" where
  "strip_nuls s = rev (dropWhile (\<lambda>c. c = 0) (rev s))"

record RestartCall =
  r_Image :: wstr
  r_Command :: wstr
  r_Environment :: "wstr option"
  r_Directory :: "wstr option"

datatype RestartStep = Terminated | Waited | Created RestartCall

text \<open>
  What \<open>Restart\<close> reads of the process and asks of the system: the calls in their order (terminating the process has a
  status), with the result.
\<close>

record RestartInput =
  ImageName :: wstr
  CommandLine :: wstr
  Directory :: wstr
  Variables :: Environment
  DirectoryExists :: "wstr \<Rightarrow> bool"
  TerminateError :: "u32 option"
  CreateAgain :: "RestartCall \<Rightarrow> u32 option"

definition restart_directory :: "RestartInput \<Rightarrow> wstr" where
  "restart_directory i =
     (let d = strip_nuls (Directory i) in if d \<noteq> [] \<and> \<not> DirectoryExists i d then [] else d)"

definition restart_call :: "RestartInput \<Rightarrow> RestartCall" where
  "restart_call i =
     (let block = environment_block (Variables i); d = restart_directory i
      in \<lparr>r_Image = ImageName i,
          r_Command = (if CommandLine i = [] then 0x22 # ImageName i @ [0x22] else CommandLine i),
          r_Environment = (if block = [] then None else Some block),
          r_Directory = (if d = [] then None else Some d)\<rparr>)"

definition Restart :: "RestartInput \<Rightarrow> u32 option outcome \<times> RestartStep list" where
  "Restart i =
     (if ImageName i = [] then ((None, None), [])
      else (case TerminateError i of
              Some error \<Rightarrow> ((None, Some error), [])
            | None \<Rightarrow> ((CreateAgain i (restart_call i), None), [Terminated, Waited, Created (restart_call i)])))"

section \<open>Attaching the debugger\<close>

text \<open>
  The registered debugger: the size of the value, then the value (\<open>RegGetValue\<close> twice); the text ends at its NUL.
\<close>

definition GetPostmortemDebugger :: "u32 option \<Rightarrow> (nat \<Rightarrow> wstr option) \<Rightarrow> wstr" where
  "GetPostmortemDebugger sz value =
     (case sz of
        None \<Rightarrow> []
      | Some n \<Rightarrow> if n < 2 then []
          else (case value (unat n div 2) of None \<Rightarrow> [] | Some s \<Rightarrow> until_nul (unat n div 2) s))"

lemma find_str_Some:
  assumes "find_str p s i = Some j"
  shows "i \<le> j \<and> j + length p \<le> length s \<and> take (length p) (drop j s) = p"
proof -
  obtain js where "occurrences p s i = j # js" using assms by (auto simp: find_str_def split: list.splits)
  then have "j \<in> set (occurrences p s i)" by simp
  then show ?thesis by (auto simp: occurrences_def)
qed

lemma find_str_None:
  assumes "find_str p s i = None" and "i \<le> j" and "j + length p \<le> length s"
  shows "take (length p) (drop j s) \<noteq> p"
proof
  assume "take (length p) (drop j s) = p"
  with assms(2,3) have "j \<in> set (occurrences p s i)" by (auto simp: occurrences_def)
  with assms(1) show False by (simp add: find_str_def split: list.splits)
qed

text \<open>A crash's arguments are erased; the placeholder of the process is replaced, as long as there is one.\<close>

function erase_all :: "wstr \<Rightarrow> wstr \<Rightarrow> wstr" where
  "erase_all arg s =
     (if arg = [] then s
      else (case find_str arg s 0 of None \<Rightarrow> s | Some pos \<Rightarrow> erase_all arg (take pos s @ drop (pos + length arg) s)))"
  by pat_completeness auto
termination
proof (relation "measure (\<lambda>(arg, s). length s)", goal_cases)
  case (2 arg s pos)
  then show ?case using find_str_Some [of arg s 0 pos] by (cases arg) auto
qed simp

partial_function (option) replace_all :: "wstr \<Rightarrow> wstr \<Rightarrow> wstr \<Rightarrow> bool \<Rightarrow> (wstr \<times> bool) option" where
  "replace_all pat new s replaced =
     (case find_str pat s 0 of
        None \<Rightarrow> Some (s, replaced)
      | Some pos \<Rightarrow> replace_all pat new (take pos s @ new @ drop (pos + length pat) s) True)"

definition crash_arguments :: "wstr list" where
  "crash_arguments = [wide '' -e %ld'', wide '' -j 0x%p'', wide '' -j %p'']"

definition AttachDebugger :: "wstr \<Rightarrow> (wstr \<Rightarrow> u32 option) \<Rightarrow> u32 \<Rightarrow> (u32 option outcome \<times> wstr option) option" where
  "AttachDebugger debugger create pid =
     (if debugger = [] then Some ((None, Some ERROR_FILE_NOT_FOUND), None)
      else (case replace_all (wide ''%ld'') (to_wstring (unat pid)) (foldl (\<lambda>s arg. erase_all arg s) debugger crash_arguments) False of
              None \<Rightarrow> None
            | Some (command, replaced) \<Rightarrow>
                if \<not> replaced then Some ((None, Some ERROR_BAD_FORMAT), None)
                else Some ((create command, None), Some command)))"

section \<open>Command lines are taken apart as written\<close>

lemma find_first_append:
  assumes "\<forall>c \<in> set a. \<not> P c" and "P c" and "length pre = i"
  shows "find_first P (pre @ a @ c # post) i = Some (i + length a)"
proof -
  have "takeWhile (\<lambda>c. \<not> P c) (a @ c # post) = a" using assms(1,2) by (induction a) auto
  then show ?thesis using assms(3) by (simp add: find_first_def)
qed

lemma find_first_none: "\<forall>c \<in> set a. \<not> P c \<Longrightarrow> length pre = i \<Longrightarrow> find_first P (pre @ a) i = None"
  by (auto simp: find_first_def takeWhile_eq_all_conv [THEN iffD2])

definition trimmed :: "wstr \<Rightarrow> bool" where
  "trimmed args \<longleftrightarrow> args = [] \<or> \<not> space_tab (hd args)"

text \<open>A file as it is written in a command line: in quotes, or as it is when it has no space, no quote at its start and is not empty.\<close>

definition written_file :: "bool \<Rightarrow> wstr \<Rightarrow> wstr" where
  "written_file quoted file = (if quoted then 0x22 # file @ [0x22] else file)"

definition can_write :: "bool \<Rightarrow> wstr \<Rightarrow> bool" where
  "can_write quoted file \<longleftrightarrow>
     (if quoted then 0x22 \<notin> set file else file \<noteq> [] \<and> hd file \<noteq> 0x22 \<and> (\<forall>c \<in> set file. \<not> space_tab c))"

lemma rest_after:
  assumes "\<forall>c \<in> set sep. space_tab c" and "trimmed args" and "length pre = i"
  shows "(case find_first (\<lambda>c. \<not> space_tab c) (pre @ sep @ args) i of None \<Rightarrow> [] | Some k \<Rightarrow> drop k (pre @ sep @ args)) = args"
proof (cases args)
  case Nil
  then show ?thesis using assms find_first_none [of sep "\<lambda>c. \<not> space_tab c" pre i] by simp
next
  case (Cons c cs)
  with assms have "find_first (\<lambda>c. \<not> space_tab c) (pre @ sep @ c # cs) i = Some (i + length sep)"
    by (intro find_first_append) (auto simp: trimmed_def)
  then show ?thesis using assms(3) Cons by simp
qed

lemma space_tab_not_quote: "\<not> space_tab 0x22"
  by (simp add: space_tab_def)

lemma plain_file_written:
  assumes "can_write False file" and "\<forall>c \<in> set sep. space_tab c" and "sep \<noteq> [] \<or> args = []" and "length pre = i"
  shows "plain_file (pre @ file @ sep @ args) i = (file, i + length file)"
proof (cases sep)
  case Nil
  then have "find_first space_tab (pre @ file) i = None"
    using assms by (intro find_first_none) (auto simp: can_write_def)
  then show ?thesis using Nil assms(3,4) by (simp add: plain_file_def substr_def)
next
  case (Cons c cs)
  then have "find_first space_tab (pre @ file @ c # cs @ args) i = Some (i + length file)"
    using assms by (intro find_first_append) (auto simp: can_write_def)
  then show ?thesis using Cons assms(4) by (simp add: plain_file_def substr_def)
qed

lemma quoted_file_written:
  assumes "can_write True file" and "length pre = i"
  shows "quoted_file (pre @ 0x22 # file @ 0x22 # t) i = (file, i + length file + 2)"
proof -
  have "find_char 0x22 ((pre @ [0x22]) @ file @ 0x22 # t) (i + 1) = Some (i + 1 + length file)"
    using assms by (intro find_char_append) (auto simp: can_write_def)
  then show ?thesis using assms(2) by (simp add: quoted_file_def substr_def)
qed

lemma SplitCommandLine_written:
  assumes blanks: "\<forall>c \<in> set (lead @ sep). space_tab c" and args: "trimmed args" "sep \<noteq> [] \<or> args = [] \<or> quoted"
    and writable: "can_write quoted file"
  shows "SplitCommandLine (lead @ written_file quoted file @ sep @ args) = (file, args)"
proof -
  let ?s = "lead @ written_file quoted file @ sep @ args"
  obtain c cs where w: "written_file quoted file = c # cs" and c: "\<not> space_tab c" "c = 0x22 \<longleftrightarrow> quoted"
  proof -
    have "quoted \<or> file \<noteq> [] \<and> hd file \<noteq> 0x22 \<and> \<not> space_tab (hd file)" using writable by (auto simp: can_write_def)
    then show thesis using that space_tab_not_quote
      by (cases quoted; cases "file") (auto simp: written_file_def)
  qed
  have start: "find_first (\<lambda>c. \<not> space_tab c) ?s 0 = Some (length lead)"
    using find_first_append [of lead "\<lambda>c. \<not> space_tab c" c "[]" 0 "cs @ sep @ args"] blanks c by (simp add: w)
  have at: "?s ! length lead = c" by (simp add: w)
  have parts: "(if quoted then quoted_file ?s (length lead) else plain_file ?s (length lead)) =
      (file, length (lead @ written_file quoted file))"
    using writable args blanks quoted_file_written [of "file" lead "length lead" "sep @ args"]
      plain_file_written [of "file" sep args lead "length lead"]
    by (auto simp: written_file_def)
  have "\<forall>c \<in> set sep. space_tab c" using blanks by simp
  from rest_after [OF this args(1) refl, of "lead @ written_file quoted file"]
  have rest: "(case find_first (\<lambda>c. \<not> space_tab c) ?s (length (lead @ written_file quoted file)) of
      None \<Rightarrow> [] | Some i \<Rightarrow> drop i ?s) = args"
    unfolding append_assoc .
  show ?thesis using start at c(2) parts rest by (auto simp: SplitCommandLine_def split: prod.splits)
qed

text \<open>Starting a command line gives the shell the file as it was written, in quotes or not, and the arguments behind it without the blanks before them; an empty file starts nothing.\<close>

theorem Run_written:
  assumes "\<forall>c \<in> set (lead @ sep). space_tab c" and "trimmed args" and "sep \<noteq> [] \<or> args = [] \<or> quoted" and "can_write quoted file"
  shows "Run shell (lead @ written_file quoted file @ sep @ args) elevated =
    (if file = [] then (0, Some ERROR_INVALID_PARAMETER)
     else ((case shell \<lparr>lpVerb = (if elevated then Some (wide ''runas'') else None), lpFile = file,
                        lpParameters = (if args = [] then None else Some args)\<rparr> of
              Some (Some pid) \<Rightarrow> pid | _ \<Rightarrow> 0), None))"
  using SplitCommandLine_written [OF assms] by (auto simp: Run_def split: option.splits)

theorem Run_written_witness:
  "Run (\<lambda>c. if lpFile c = wide_path ''C:/a b.exe'' \<and> lpParameters c = Some (wide ''-x y'') then Some (Some 7) else None)
     (wide '' '' @ written_file True (wide_path ''C:/a b.exe'') @ wide ''  '' @ wide ''-x y'') False = (7, None)"
  by (subst Run_written) (simp_all add: trimmed_def can_write_def space_tab_def wide_def wide_path_def)

section \<open>The environment survives a restart\<close>

definition variable_ok :: "wstr \<times> wstr \<Rightarrow> bool" where
  "variable_ok v \<longleftrightarrow> fst v \<noteq> [] \<and> 0 \<notin> set (fst v) \<and> 0 \<notin> set (snd v) \<and> 0x3D \<notin> set (tl (fst v))"

lemma variable_of_entry: "variable_ok v \<Longrightarrow> variable_of (fst v @ 0x3D # snd v) = v"
proof -
  assume ok: "variable_ok v"
  then obtain c cs where n: "fst v = c # cs" by (cases "fst v") (auto simp: variable_ok_def)
  have "find_char 0x3D ([c] @ cs @ 0x3D # snd v) 1 = Some (1 + length cs)"
    using ok by (intro find_char_append) (auto simp: n variable_ok_def)
  then show ?thesis by (cases v) (use n in \<open>simp add: variable_of_def\<close>)
qed

lemma takeWhile_not_nul_append: "0 \<notin> set a \<Longrightarrow> takeWhile not_nul (a @ 0 # t) = a"
  by (induction a) (auto simp: not_nul_def)

lemma block_variables_entry:
  assumes "variable_ok v"
  shows "block_variables (block_entry v @ t) = v # block_variables t"
proof -
  let ?e = "fst v @ 0x3D # snd v"
  have "0 \<notin> set ?e" using assms by (auto simp: variable_ok_def)
  then have "takeWhile not_nul (?e @ 0 # t) = ?e" by (rule takeWhile_not_nul_append)
  moreover have "?e @ 0 # t \<noteq> [] \<and> hd (?e @ 0 # t) \<noteq> 0"
    using assms by (cases "fst v") (auto simp: variable_ok_def)
  moreover have "drop (length ?e + 1) (?e @ 0 # t) = t" by simp
  ultimately show ?thesis
    using variable_of_entry [OF assms] block_variables.simps [of "?e @ 0 # t"]
    by (simp add: block_entry_def Let_def)
qed

lemma block_variables_block:
  "\<forall>v \<in> set env. variable_ok v \<Longrightarrow> block_variables (concat (map block_entry env) @ 0 # t) = env"
proof (induction env)
  case Nil
  then show ?case by (simp add: block_variables.simps)
next
  case (Cons v env)
  then show ?case using block_variables_entry [of v "concat (map block_entry env) @ 0 # t"] by simp
qed

lemma variable_of_ok: "entry \<noteq> [] \<Longrightarrow> 0 \<notin> set entry \<Longrightarrow> variable_ok (variable_of entry)"
proof -
  assume e: "entry \<noteq> []" "0 \<notin> set entry"
  then obtain c cs where n: "entry = c # cs" by (cases entry) auto
  show ?thesis
  proof (cases "find_char 0x3D entry 1")
    case None
    then have "0x3D \<notin> set cs"
      using find_char_None [OF None] by (metis Suc_eq_plus1 Suc_leI Suc_less_eq diff_Suc_1' in_set_conv_nth length_Cons n not_gr_zero nth_Cons_Suc zero_less_Suc le_add2)
    then show ?thesis using None e by (simp add: variable_of_def variable_ok_def n)
  next
    case (Some k)
    note k = find_char_at [OF Some] find_char_bounds [OF Some]
    have "0x3D \<notin> set (take (k - 1) cs)"
    proof
      assume "0x3D \<in> set (take (k - 1) cs)"
      then obtain j where "j < k - 1" "j < length cs" "cs ! j = 0x3D" by (auto simp: in_set_conv_nth)
      then have "entry ! (j + 1) = 0x3D" "1 \<le> j + 1" "j + 1 < k" by (auto simp: n)
      then show False using k by blast
    qed
    then show ?thesis using Some e k
      by (cases k) (auto simp: variable_of_def variable_ok_def n dest: in_set_takeD in_set_dropD)
  qed
qed

lemma block_variables_ok: "v \<in> set (block_variables p) \<Longrightarrow> variable_ok v"
proof (induction p rule: block_variables.induct)
  case (1 p)
  show ?case
  proof (cases "p = [] \<or> hd p = 0")
    case False
    let ?e = "takeWhile not_nul p"
    have "?e \<noteq> []" using False by (cases p) (auto simp: not_nul_def)
    moreover have "0 \<notin> set ?e" by (auto simp: not_nul_def dest: set_takeWhileD)
    ultimately have "variable_ok (variable_of ?e)" by (rule variable_of_ok)
    moreover have "block_variables p = variable_of ?e # block_variables (drop (length ?e + 1) p)"
      using False by (subst block_variables.simps) (simp add: Let_def)
    ultimately show ?thesis using 1 False by (metis set_ConsD)
  qed (use 1 in \<open>simp add: block_variables.simps [of p]\<close>)
qed

lemma GetEnvironment_ok: "v \<in> set (GetEnvironment r l l32) \<Longrightarrow> variable_ok v"
  by (auto simp: GetEnvironment_def split: option.splits if_splits dest: block_variables_ok)

lemma environment_block_read:
  assumes "\<forall>v \<in> set env. variable_ok v"
  shows "block_variables (environment_block env @ t) = (if env = [] then block_variables t else env)"
  using block_variables_block [OF assms, of t] by (simp add: environment_block_def)


definition one_variable :: ProcessReads where
  "one_variable =
     \<lparr>PebOf = Some 0x1000, Peb32Of = None,
      ReadBytes = (\<lambda>a n. if a = 0x1000 then Some (le_bytes 8 0x2000)
                         else if a = 0x2000 then Some (le_bytes 8 0x3000 @ le_bytes 8 10)
                         else Some (take n (wide_bytes (wide ''=C:=D'') @ replicate 8 0)))\<rparr>"

definition small_layout :: ParamsLayout where
  "small_layout = \<lparr>PebSize = 8, ParametersAt = 0, ParamsSize = 16, EnvironmentAt = 0, EnvironmentSizeAt = 8, DosPathAt = 0\<rparr>"

lemma u64_in_bytes: "v < 2 ^ 64 \<Longrightarrow> u64_at (pre @ le_bytes 8 v @ t) (length pre) = of_nat v"
  by (simp add: u64_at_def le_nat_le_bytes)

lemma one_variable_parameters: "parameters one_variable small_layout = Some (le_bytes 8 0x3000 @ le_bytes 8 10)"
  using u64_in_bytes [of "0x2000" "[]" "[]"]
  by (simp add: parameters_def GetProcessPeb_def one_variable_def small_layout_def)

lemma one_variable_environment: "GetEnvironment one_variable small_layout small_layout = [(wide ''=C:'', wide ''D'')]"
proof -
  have place: "environment_place one_variable small_layout small_layout = Some (0x3000, 10)"
    using u64_in_bytes [of "0x3000" "[]" "le_bytes 8 10"] u64_in_bytes [of 10 "le_bytes 8 0x3000" "[]"] one_variable_parameters
    by (simp add: environment_place_def one_variable_def small_layout_def)
  have "ReadBytes one_variable 0x3000 10 = Some (wide_bytes (wide ''=C:=D''))"
    by (simp add: one_variable_def) (simp add: wide_def)
  moreover have "units (wide_bytes (wide ''=C:=D'') @ []) = wide ''=C:=D''" by (subst units_wide_bytes) simp
  moreover have "block_variables (wide ''=C:=D'') = [(wide ''=C:'', wide ''D'')]"
    by (simp add: wide_def block_variables.simps variable_of_def find_char_def not_nul_def)
  ultimately show ?thesis using place by (simp add: GetEnvironment_def MaxEnvironment_def wide_def)
qed

definition restarted :: RestartInput where
  "restarted =
     \<lparr>ImageName = wide ''a'', CommandLine = [], Directory = [], Variables = [(wide ''=C:'', wide ''D'')],
      DirectoryExists = (\<lambda>_. True), TerminateError = None, CreateAgain = (\<lambda>_. Some 5)\<rparr>"

lemma restarted_creates: "Created (restart_call restarted) \<in> set (snd (Restart restarted))"
  by (simp add: Restart_def restarted_def wide_def)


section \<open>The debugger's command\<close>

text \<open>The placeholders replaced in one pass over the text.\<close>

fun one_pass :: "wstr \<Rightarrow> wstr \<Rightarrow> wstr" where
  "one_pass new [] = []"
| "one_pass new (c # cs) =
     (if take 3 (c # cs) = wide ''%ld'' then new @ one_pass new (drop 2 cs) else c # one_pass new cs)"

definition holds_at :: "wstr \<Rightarrow> nat \<Rightarrow> bool" where
  "holds_at s j \<longleftrightarrow> take 3 (drop j s) = wide ''%ld''"

lemma length_ld [simp]: "length (wide ''%ld'') = 3"
  by (simp add: wide_def)

lemma window_nth: "i < 3 \<Longrightarrow> j \<le> length s \<Longrightarrow> take 3 (drop j s) ! i = s ! (j + i)"
  by simp

lemma holds_at_length: "holds_at s j \<Longrightarrow> j + 3 \<le> length s"
proof -
  assume "holds_at s j"
  then have "length (take 3 (drop j s)) = 3" unfolding holds_at_def by simp
  then show ?thesis by simp
qed

lemma one_pass_skip: "\<forall>j < length a. \<not> holds_at (a @ b) j \<Longrightarrow> one_pass new (a @ b) = a @ one_pass new b"
proof (induction a)
  case (Cons c a)
  have "\<not> holds_at (c # a @ b) 0" using Cons.prems by auto
  moreover have "\<forall>j < length a. \<not> holds_at (a @ b) j" using Cons.prems by (auto simp: holds_at_def)
  ultimately show ?case using Cons.IH by (simp add: holds_at_def)
qed simp

lemma one_pass_found:
  assumes "holds_at s k" and "\<forall>j < k. \<not> holds_at s j"
  shows "one_pass new s = take k s @ new @ one_pass new (drop (k + 3) s)"
proof -
  let ?b = "drop k s"
  have three: "k + 3 \<le> length s" using holds_at_length [OF assms(1)] .
  have "one_pass new (take k s @ ?b) = take k s @ one_pass new ?b"
    using assms(2) by (intro one_pass_skip) simp
  moreover obtain c cs where b: "?b = c # cs" using three by (cases ?b) auto
  moreover have "take k s @ c # cs = s" using b by (metis append_take_drop_id)
  moreover have "drop 2 cs = drop (k + 3) s" using b by (metis drop_drop drop_Suc_Cons add.commute numeral_3_eq_3 numeral_2_eq_2)
  ultimately show ?thesis using assms(1) by (simp add: holds_at_def)
qed

text \<open>Digits in the place of a placeholder make no new one.\<close>

lemma no_digit_ld: "c \<in> set (wide ''%ld'') \<Longrightarrow> \<not> (0x30 \<le> c \<and> c \<le> 0x39)"
  by (auto simp: wide_def)

lemma no_new_placeholder:
  assumes "new \<noteq> []" and "\<forall>c \<in> set new. 0x30 \<le> c \<and> c \<le> 0x39" and "\<forall>j < k. \<not> holds_at s j" and "k \<le> length s"
    and j: "j < k + length new"
  shows "\<not> holds_at (take k s @ new @ t) j"
proof
  let ?s = "take k s @ new @ t"
  assume h: "holds_at ?s j"
  have no: "take 3 (drop j ?s) ! i \<notin> set new" if "i < 3" for i
  proof -
    have "take 3 (drop j ?s) ! i \<in> set (wide ''%ld'')" using h that unfolding holds_at_def by (metis length_ld nth_mem)
    then show ?thesis using assms(2) no_digit_ld by blast
  qed
  consider "k \<le> j" | "j < k" "k < j + 3" | "j + 3 \<le> k" by linarith
  then show False
  proof cases
    case 1
    have less: "j - k < length new" using j 1 by linarith
    from 1 have "take 3 (drop j ?s) ! 0 = ?s ! (j + 0)" using j assms(4) by (intro window_nth) auto
    also have "\<dots> = new ! (j - k)" using 1 less assms(4) by (simp add: nth_append)
    finally show False using no [of 0] j 1 by simp
  next
    case 2
    have "take 3 (drop j ?s) ! (k - j) = ?s ! (j + (k - j))" using 2 assms(4) by (intro window_nth) auto
    also have "\<dots> = ?s ! k" using 2 by simp
    also have "\<dots> = new ! 0" using assms(1,4) by (simp add: nth_append)
    finally have at: "take 3 (drop j ?s) ! (k - j) = new ! 0" .
    have "k - j < 3" using 2 by linarith
    then show False using no [of "k - j"] at assms(1) by (metis length_greater_0_conv nth_mem)
  next
    case 3
    then have len: "length (take k s) = k" "3 \<le> k - j" "j \<le> k" using assms(4) by simp_all
    have "take 3 (drop j ?s) = take 3 (drop j (take k s))" using len by simp
    also have "\<dots> = take 3 (drop j s)" using len by (simp add: drop_take min_def)
    finally have "take 3 (drop j ?s) = take 3 (drop j s)" .
    then show False using h assms(3) 3 by (simp add: holds_at_def)
  qed
qed

lemma find_ld_Some: "find_str (wide ''%ld'') s 0 = Some k \<Longrightarrow> holds_at s k \<and> (\<forall>j < k. \<not> holds_at s j) \<and> k + 3 \<le> length s"
proof -
  assume f: "find_str (wide ''%ld'') s 0 = Some k"
  obtain js where o: "occurrences (wide ''%ld'') s 0 = k # js" using f by (auto simp: find_str_def split: list.splits)
  have "\<not> holds_at s j" if "j < k" for j
  proof
    assume "holds_at s j"
    then have "j + 3 \<le> length s" by (rule holds_at_length)
    then have "j \<in> set (occurrences (wide ''%ld'') s 0)" using \<open>holds_at s j\<close> by (auto simp: occurrences_def holds_at_def)
    moreover have "sorted (occurrences (wide ''%ld'') s 0)" unfolding occurrences_def by (intro sorted_wrt_filter) simp
    ultimately show False using that o by auto
  qed
  then show ?thesis using find_str_Some [OF f] by (simp add: holds_at_def)
qed

lemma find_ld_None: "find_str (wide ''%ld'') s 0 = None \<Longrightarrow> \<not> holds_at s j"
  using find_str_None [of "wide ''%ld''" s 0 j]
  by (cases "j + 3 \<le> length s") (auto simp: holds_at_def dest: arg_cong [where f = length])

definition placeholders :: "wstr \<Rightarrow> nat" where
  "placeholders s = length (filter (\<lambda>c. c = 0x25) s)"

lemma placeholder_step:
  assumes new: "new \<noteq> []" "\<forall>c \<in> set new. 0x30 \<le> c \<and> c \<le> 0x39" and found: "find_str (wide ''%ld'') s 0 = Some k"
  shows "placeholders (take k s @ new @ drop (k + 3) s) < placeholders s"
    and "one_pass new (take k s @ new @ drop (k + 3) s) = take k s @ new @ one_pass new (drop (k + 3) s)"
    and "one_pass new s = take k s @ new @ one_pass new (drop (k + 3) s)"
proof -
  let ?t = "drop (k + 3) s"
  note k = find_ld_Some [OF found]
  have "s = take k s @ take 3 (drop k s) @ ?t" by (metis append_take_drop_id drop_drop add.commute)
  then have s: "s = take k s @ wide ''%ld'' @ ?t" using k unfolding holds_at_def by metis
  have "placeholders new = 0" using new(2) no_digit_ld [of "0x25"] by (auto simp: placeholders_def filter_empty_conv wide_def)
  then show "placeholders (take k s @ new @ ?t) < placeholders s"
    by (subst (3) s) (simp add: placeholders_def wide_def)
  have "\<forall>j < length (take k s @ new). \<not> holds_at (take k s @ new @ ?t) j"
    using no_new_placeholder [of new k s _ ?t] new k by auto
  then have "one_pass new ((take k s @ new) @ ?t) = (take k s @ new) @ one_pass new ?t"
    by (intro one_pass_skip) simp
  then show "one_pass new (take k s @ new @ ?t) = take k s @ new @ one_pass new ?t" by simp
  show "one_pass new s = take k s @ new @ one_pass new ?t" using k by (intro one_pass_found) auto
qed

lemma one_pass_none: "find_str (wide ''%ld'') s 0 = None \<Longrightarrow> one_pass new s = s"
  using one_pass_skip [of s "[]" new] find_ld_None [of s] by simp

lemma replace_all_one_pass:
  assumes new: "new \<noteq> []" "\<forall>c \<in> set new. 0x30 \<le> c \<and> c \<le> 0x39"
  shows "replace_all (wide ''%ld'') new s r = Some (one_pass new s, r \<or> find_str (wide ''%ld'') s 0 \<noteq> None)"
proof (induction "placeholders s" arbitrary: s r rule: less_induct)
  case less
  show ?case
  proof (cases "find_str (wide ''%ld'') s 0")
    case None
    then show ?thesis by (simp add: replace_all.simps one_pass_none)
  next
    case (Some k)
    note step = placeholder_step [OF new Some]
    show ?thesis using Some less(1) [OF step(1), of True] step(2,3) by (subst replace_all.simps) simp
  qed
qed

lemma one_pass_clean:
  assumes new: "new \<noteq> []" "\<forall>c \<in> set new. 0x30 \<le> c \<and> c \<le> 0x39"
  shows "\<not> holds_at (one_pass new s) j"
proof (induction "placeholders s" arbitrary: s rule: less_induct)
  case less
  show ?case
  proof (cases "find_str (wide ''%ld'') s 0")
    case None
    then show ?thesis using find_ld_None by (simp add: one_pass_none)
  next
    case (Some k)
    note step = placeholder_step [OF new Some]
    show ?thesis using less [OF step(1)] step(2,3) by simp
  qed
qed

lemma digits_only: "\<forall>c \<in> set (to_wstring n). 0x30 \<le> c \<and> c \<le> 0x39"
  using to_wstring_digit_chars by blast

lemma to_wstring_nonempty: "to_wstring n \<noteq> []"
  using digits_to_wstring [of n] by (simp add: digits_of_def)

text \<open>The command without the arguments for a crash.\<close>

definition stripped :: "wstr \<Rightarrow> wstr" where
  "stripped debugger = foldl (\<lambda>s arg. erase_all arg s) debugger crash_arguments"

definition debugger_command :: "wstr \<Rightarrow> u32 \<Rightarrow> wstr" where
  "debugger_command debugger pid = one_pass (to_wstring (unat pid)) (stripped debugger)"

lemma stripped_empty: "find_str (wide ''%ld'') (stripped []) 0 = None"
  by code_simp

text \<open>C38: attaching the debugger always comes to an end, although each loop rewrites the text it searches. A debugger is
  started only when its command has a place for the process; then every place has the process's ID, as one pass over the
  command puts it, and none is left. Otherwise nothing is started and the error says why.\<close>

theorem AttachDebugger_ends:
  "\<exists>result started. AttachDebugger debugger create pid = Some (result, started) \<and>
     (started \<noteq> None \<longleftrightarrow> find_str (wide ''%ld'') (stripped debugger) 0 \<noteq> None) \<and>
     (case started of
        None \<Rightarrow> result = (None, Some (if debugger = [] then ERROR_FILE_NOT_FOUND else ERROR_BAD_FORMAT))
      | Some command \<Rightarrow> result = (create command, None) \<and> debugger \<noteq> [] \<and>
          command = debugger_command debugger pid \<and> find_str (wide ''%ld'') command 0 = None)"
proof (cases "debugger = []")
  case False
  let ?s = "stripped debugger" and ?new = "to_wstring (unat pid)"
  note new = to_wstring_nonempty [of "unat pid"] digits_only [of "unat pid"]
  have "find_str (wide ''%ld'') (one_pass ?new ?s) 0 = None"
    using one_pass_clean [OF new, of ?s] find_ld_Some [of "one_pass ?new ?s"]
    by (cases "find_str (wide ''%ld'') (one_pass ?new ?s) 0") auto
  then show ?thesis
    using False replace_all_one_pass [OF new, of ?s False]
    by (simp add: AttachDebugger_def debugger_command_def flip: stripped_def del: erase_all.simps split: option.splits)
qed (simp add: AttachDebugger_def stripped_empty)

text \<open>The usual debugger: the process's ID is put in, the event of a crash is left out.\<close>

lemma jit_debugger:
  "debugger_command (wide ''jit -p %ld -e %ld -j 0x%p'') 12 = wide ''jit -p 12''"
  by code_simp

section \<open>Accounts and limited tokens\<close>

text \<open>An account is taken apart as it was written: with a domain, with a suffix, or alone for a local one.\<close>

lemma account_domain: "0x5C \<notin> set d \<Longrightarrow> account (d @ 0x5C # name) = (name, d)"
  using find_char_append [of "0x5C" d "[]" 0 name] by (simp add: account_def)

lemma account_upn: "0x5C \<notin> set user \<Longrightarrow> 0x40 \<in> set user \<Longrightarrow> account user = (user, [])"
proof -
  assume u: "0x5C \<notin> set user" "0x40 \<in> set user"
  then obtain i where "i < length user" "user ! i = 0x40" by (auto simp: in_set_conv_nth)
  then have "find_char 0x40 user 0 \<noteq> None" using find_char_None [of "0x40" user 0 i] by auto
  then show ?thesis using u find_char_none [of "[]" 0 "0x5C" user] by (auto simp: account_def)
qed

lemma account_local: "0x5C \<notin> set user \<Longrightarrow> 0x40 \<notin> set user \<Longrightarrow> account user = (user, wide ''.'')"
  using find_char_none [of "[]" 0 "0x5C" user] find_char_none [of "[]" 0 "0x40" user] by (simp add: account_def)

text \<open>A process that is started limited runs with a token whose integrity level, where it can be read, is at most medium,
  if setting a token's level makes it read so. (A token whose level can't be read is used as it is.)\<close>

theorem RunLimited_medium:
  assumes "\<And>token rid token'. SetIntegrity calls token rid = Inr token' \<Longrightarrow> IntegrityOf calls token' = Some rid"
    and "fst (RunLimited calls commandLine) \<noteq> 0"
  shows "\<exists>token. CreateAsUser calls token commandLine = Some (fst (RunLimited calls commandLine)) \<and>
    (\<forall>rid. IntegrityOf calls token = Some rid \<longrightarrow> rid \<le> SECURITY_MANDATORY_MEDIUM_RID)"
proof -
  obtain token token' pid where t: "lowered calls token = Inr token'" "CreateAsUser calls token' commandLine = Some pid"
      "RunLimited calls commandLine = (pid, None)"
    using assms(2) by (auto simp: RunLimited_def split: if_splits sum.splits option.splits)
  then have "\<forall>rid. IntegrityOf calls token' = Some rid \<longrightarrow> rid \<le> SECURITY_MANDATORY_MEDIUM_RID"
    using assms(1) by (auto simp: lowered_def split: option.splits if_splits)
  with t show ?thesis by auto
qed

text \<open>A token stands for its integrity level here.\<close>

definition level_calls :: "u32 SaferCalls" where
  "level_calls = \<lparr>CreateLevel = True, ComputeToken = Inr 0x3000, IntegrityOf = Some, SetIntegrity = (\<lambda>_ rid. Inr rid),
     CreateAsUser = (\<lambda>_ _. Some 9), ToDosError = id\<rparr>"

theorem RunLimited_medium_witness:
  "\<exists>token. CreateAsUser level_calls token (wide ''cmd'') = Some 9 \<and>
    (\<forall>rid. IntegrityOf level_calls token = Some rid \<longrightarrow> rid \<le> SECURITY_MANDATORY_MEDIUM_RID)"
proof -
  have run: "RunLimited level_calls (wide ''cmd'') = (9, None)"
    by (simp add: RunLimited_def level_calls_def lowered_def SECURITY_MANDATORY_MEDIUM_RID_def)
  have "IntegrityOf level_calls token' = Some rid" if "SetIntegrity level_calls token rid = Inr token'" for token rid token'
    using that by (simp add: level_calls_def)
  from RunLimited_medium [where calls = level_calls and commandLine = "wide ''cmd''", OF this] show ?thesis by (simp add: run)
qed

text \<open>A process opened by its ID and creation time is the one created then, never one that has the ID since.\<close>

lemma OpenById_created:
  assumes "fst (OpenById open_process times_of pid createTime access) = Some p"
  shows "GetCreateTime times_of p = createTime \<and> open_process (access OR PROCESS_QUERY_LIMITED_INFORMATION) pid = Some p"
  using assms by (auto simp: OpenById_def split: option.splits if_splits)

end
