(* ===== verification/Process_Details.thy ===== *)
theory Process_Details
  imports Process_Commands "HOL-Library.Multiset"
begin

unbundle bit_operations_syntax

text \<open>
  What the system says of a process (\<open>WinSys/Processes.cpp\<close>): flags and levels of it and its token, setters, affinities,
  injecting a DLL, its threads' structures, its modules, hung processes and main windows, mitigations. Each query is an
  argument, \<open>None\<close> when it fails; handles and the target's memory are kept in logs.
\<close>

section \<open>What a process is\<close>

text \<open>
  Most methods are one query of the process or of its token, \<open>None\<close> when it fails. A failed \<open>OpenProcessToken\<close> and a
  failed \<open>NtQueryInformationToken\<close> give the same result, so one argument stands for both.
\<close>

definition IsElevated :: "bool option \<Rightarrow> bool" where
  "IsElevated elevation = (elevation = Some True)"

definition GetMemoryPriority :: "u32 option \<Rightarrow> u32" where
  "GetMemoryPriority priority = (case priority of None \<Rightarrow> -1 | Some p \<Rightarrow> p)"

text \<open>\<open>NtQueryInformationToken\<close> of the integrity level: the sub-authorities of the label's SID.\<close>

definition IntegrityError :: u32 where "IntegrityError = 0xFFFFFFFF"

definition GetIntegrityLevel :: "u32 list option \<Rightarrow> u32" where
  "GetIntegrityLevel label = (case label of None \<Rightarrow> IntegrityError | Some authorities \<Rightarrow> authorities ! (length authorities - 1))"

definition ArchitectureX86 :: u16 where "ArchitectureX86 = 0"
definition ArchitectureARM :: u16 where "ArchitectureARM = 5"

text \<open>\<open>Is64Bit\<close> as the code has it; \<open>IsWow64Process\<close> leaves the flag false when it fails.\<close>

definition Is64Bit :: "u16 \<Rightarrow> bool option \<Rightarrow> bool" where
  "Is64Bit arch wow64 = (if arch = ArchitectureARM \<or> arch = ArchitectureX86 then False else wow64 = Some True)"

text \<open>The window title: characters and a length in bytes.\<close>

definition GetWindowTitle :: "(u16 \<times> wstr) option \<Rightarrow> wstr" where
  "GetWindowTitle info = (case info of None \<Rightarrow> [] | Some (bytes, chars) \<Rightarrow> take (unat bytes div 2) chars)"

definition GetUserName :: "(wstr \<times> wstr) option \<Rightarrow> wstr" where
  "GetUserName account_of = (case account_of of None \<Rightarrow> [] | Some (name, domain) \<Rightarrow> domain @ 0x5C # name)"

text \<open>\<open>STILL_ACTIVE\<close> may be an exit code; the wait tells.\<close>

definition STILL_ACTIVE :: u32 where "STILL_ACTIVE = 259"
definition WAIT_TIMEOUT :: u32 where "WAIT_TIMEOUT = 258"
definition WAIT_OBJECT_0 :: u32 where "WAIT_OBJECT_0 = 0"

definition GetExitCode :: "u32 option \<Rightarrow> u32 \<Rightarrow> u32 option" where
  "GetExitCode code wait =
     (case code of
        None \<Rightarrow> None
      | Some c \<Rightarrow> if c = STILL_ACTIVE \<and> wait = WAIT_TIMEOUT then None else Some c)"

definition IsTerminated :: "u32 \<Rightarrow> bool" where
  "IsTerminated wait \<longleftrightarrow> wait = WAIT_OBJECT_0"

text \<open>\<open>GetExtendedInfo\<close>, and the flags the methods read from it.\<close>

record ExtendedInfo =
  IsProtectedProcess :: bool
  IsWow64 :: bool
  IsFrozen :: bool
  IsSubsystemProcess :: bool
  IsSecureProcess :: bool

definition extended_flag :: "(ExtendedInfo \<Rightarrow> bool) \<Rightarrow> ExtendedInfo option \<Rightarrow> bool" where
  "extended_flag flag info = (case info of None \<Rightarrow> False | Some i \<Rightarrow> flag i)"

definition IsProtected :: "ExtendedInfo option \<Rightarrow> bool" where "IsProtected = extended_flag IsProtectedProcess"
definition IsSecure :: "ExtendedInfo option \<Rightarrow> bool" where "IsSecure = extended_flag IsSecureProcess"
definition IsSuspended :: "ExtendedInfo option \<Rightarrow> bool" where "IsSuspended = extended_flag IsFrozen"
definition IsWow64Process :: "ExtendedInfo option \<Rightarrow> bool" where "IsWow64Process = extended_flag IsWow64"
definition IsPico :: "ExtendedInfo option \<Rightarrow> bool" where "IsPico = extended_flag IsSubsystemProcess"

text \<open>Managed: one of the first 64 modules is a .NET runtime.\<close>

definition runtime_names :: "wstr list" where
  "runtime_names = [wide_path ''/clr.dll'', wide_path ''/coreclr.dll'', wide_path ''/mscorwks.dll'']"

definition last_part :: "wstr \<Rightarrow> wstr option" where
  "last_part path = (if 0x5C \<in> set (c_str path) then Some (0x5C # image_name (c_str path)) else None)"

definition is_runtime :: "wstr option \<Rightarrow> bool" where
  "is_runtime filename =
     (case Option.bind filename last_part of None \<Rightarrow> False | Some bs \<Rightarrow> list_ex (same_name bs) runtime_names)"

definition IsManaged :: "('module list \<times> nat) option \<Rightarrow> ('module \<Rightarrow> wstr option) \<Rightarrow> bool" where
  "IsManaged modules name =
     (case modules of
        None \<Rightarrow> False
      | Some (ms, needed) \<Rightarrow> list_ex (\<lambda>m. is_runtime (name m)) (take (min 64 (needed div 8)) ms))"

datatype VirtualizationState = VirtUnknown | VirtNotAllowed | VirtEnabled | VirtDisabled

definition GetVirtualizationState :: "u32 option \<Rightarrow> u32 option \<Rightarrow> VirtualizationState" where
  "GetVirtualizationState allowed enabled =
     (case allowed of
        None \<Rightarrow> VirtUnknown
      | Some a \<Rightarrow> if a = 0 then VirtNotAllowed
          else (case enabled of None \<Rightarrow> VirtUnknown | Some e \<Rightarrow> if e \<noteq> 0 then VirtEnabled else VirtDisabled))"

datatype DpiAwareness = DpiUnknown | DpiNone | DpiSystem | DpiPerMonitor | DpiPerMonitorV2 | DpiUnawareGdiScaled

text \<open>The context of the process, whether it equals one of the two that have no number of their own, and its number.\<close>

record DpiCalls =
  DpiContext :: "nat option"
  EqualsV2 :: "nat \<Rightarrow> bool"
  EqualsGdiScaled :: "nat \<Rightarrow> bool"
  AwarenessOf :: "nat \<Rightarrow> DpiAwareness option"

definition GetDpiAwareness :: "bool \<Rightarrow> DpiCalls \<Rightarrow> DpiAwareness" where
  "GetDpiAwareness valid calls =
     (case (if valid then DpiContext calls else None) of
        None \<Rightarrow> DpiUnknown
      | Some c \<Rightarrow>
          if EqualsV2 calls c then DpiPerMonitorV2
          else if EqualsGdiScaled calls c then DpiUnawareGdiScaled
          else (case AwarenessOf calls c of None \<Rightarrow> DpiUnknown | Some a \<Rightarrow> a))"

section \<open>Setting\<close>

text \<open>A native call: its status, which becomes the last error when it is a failure (negative as a signed number).\<close>

definition NT_SUCCESS :: "u32 \<Rightarrow> bool" where
  "NT_SUCCESS status \<longleftrightarrow> 0 \<le> sint status"

definition native_call :: "(u32 \<Rightarrow> u32) \<Rightarrow> u32 \<Rightarrow> bool outcome" where
  "native_call dos status = (NT_SUCCESS status, if NT_SUCCESS status then None else Some (dos status))"

text \<open>Some setters enable a privilege first: the calls in their order.\<close>

datatype SetStep = EnablePrivilege string | SetInformation string u32 | SetThrottling u32 u32 | SetPriority u32

definition IoPriorityHigh :: u32 where "IoPriorityHigh = 3"

definition SetIoPriority :: "(u32 \<Rightarrow> u32) \<Rightarrow> (u32 \<Rightarrow> u32) \<Rightarrow> u32 \<Rightarrow> bool outcome \<times> SetStep list" where
  "SetIoPriority dos nt_set priority =
     (native_call dos (nt_set priority),
      (if priority = IoPriorityHigh then [EnablePrivilege ''SeIncreaseBasePriorityPrivilege''] else [])
        @ [SetInformation ''ProcessIoPriority'' priority])"

definition SetCritical :: "(u32 \<Rightarrow> u32) \<Rightarrow> (u32 \<Rightarrow> u32) \<Rightarrow> bool \<Rightarrow> bool outcome \<times> SetStep list" where
  "SetCritical dos nt_set critical =
     (let v = (if critical then 1 else 0)
      in (native_call dos (nt_set v), [EnablePrivilege ''SeDebugPrivilege'', SetInformation ''ProcessBreakOnTermination'' v]))"

definition IsCritical :: "u32 option \<Rightarrow> bool option" where
  "IsCritical flag = map_option (\<lambda>v. v \<noteq> 0) flag"

definition EXECUTION_SPEED :: u32 where "EXECUTION_SPEED = 1"
definition IDLE_PRIORITY_CLASS :: u32 where "IDLE_PRIORITY_CLASS = 0x40"
definition NORMAL_PRIORITY_CLASS :: u32 where "NORMAL_PRIORITY_CLASS = 0x20"

text \<open>The control and the state mask of the power throttling.\<close>

definition GetEfficiencyMode :: "(u32 \<times> u32) option \<Rightarrow> bool option" where
  "GetEfficiencyMode state = map_option (\<lambda>(control, st). control AND st AND EXECUTION_SPEED \<noteq> 0) state"

definition SetEfficiencyMode :: "bool \<Rightarrow> bool \<Rightarrow> bool \<Rightarrow> bool \<times> SetStep list" where
  "SetEfficiencyMode throttled prioritized on =
     (let m = (if on then EXECUTION_SPEED else 0)
      in if \<not> throttled then (False, [SetThrottling m m])
         else (prioritized, [SetThrottling m m, SetPriority (if on then IDLE_PRIORITY_CLASS else NORMAL_PRIORITY_CLASS)]))"

text \<open>The affinity: no single mask for a process whose threads are in more than one group.\<close>

definition GetAffinity :: "(u64 \<times> u64) option \<Rightarrow> (u64 \<times> u64) option outcome" where
  "GetAffinity masks =
     (case masks of
        None \<Rightarrow> (None, None)
      | Some (m, system) \<Rightarrow> if m = 0 then (None, Some ERROR_NOT_SUPPORTED) else (Some (m, system), None))"

text \<open>The processor groups: one more try, with as many places as the system says. \<open>Inl\<close> is the error and the count needed.\<close>

definition ERROR_INSUFFICIENT_BUFFER :: u32 where "ERROR_INSUFFICIENT_BUFFER = 122"

definition GetGroups :: "(nat \<Rightarrow> (u32 \<times> u16) + u16 list) \<Rightarrow> u16 list" where
  "GetGroups query =
     (case query 64 of
        Inr groups \<Rightarrow> groups
      | Inl (error, n) \<Rightarrow>
          if error \<noteq> ERROR_INSUFFICIENT_BUFFER then []
          else (case query (unat n) of Inr groups \<Rightarrow> groups | Inl _ \<Rightarrow> []))"

text \<open>The masks of the default CPU sets: the buffer grows as long as the system asks for more than it has.\<close>

function masks_from :: "(nat \<Rightarrow> (u32 \<times> u16) + 'mask list) \<Rightarrow> nat \<Rightarrow> 'mask list option" where
  "masks_from query places =
     (case query places of
        Inr masks \<Rightarrow> Some masks
      | Inl (error, n) \<Rightarrow>
          if error \<noteq> ERROR_INSUFFICIENT_BUFFER \<or> unat n \<le> places then None else masks_from query (unat n))"
  by pat_completeness auto
termination
proof (relation "measure (\<lambda>(query, places). 65536 - places)", goal_cases)
  case (2 query places answer error n)
  then show ?case using unat_less_2p [of n] by auto
qed simp

declare masks_from.simps [simp del]

definition GetDefaultCpuSetMasks :: "(nat \<Rightarrow> (u32 \<times> u16) + 'mask list) option \<Rightarrow> 'mask list option outcome" where
  "GetDefaultCpuSetMasks get =
     (case get of None \<Rightarrow> (None, Some ERROR_NOT_SUPPORTED) | Some query \<Rightarrow> (masks_from query 16, None))"

definition SetDefaultCpuSetMasks :: "('mask list option \<Rightarrow> nat \<Rightarrow> bool) option \<Rightarrow> 'mask list \<Rightarrow> bool outcome" where
  "SetDefaultCpuSetMasks set_masks masks =
     (case set_masks of
        None \<Rightarrow> (False, Some ERROR_NOT_SUPPORTED)
      | Some f \<Rightarrow> (f (if masks = [] then None else Some masks) (length masks mod 65536), None))"

section \<open>Injecting a DLL\<close>

datatype DllInjectionResult =
  Success | FileNotFound | Wow64Target | OpenFailed | AllocFailed | WriteFailed | ThreadFailed | Timeout | LoadLibraryFailed

text \<open>
  The system's answers, and what is done to the target, in order: memory is allocated, the path (with its NUL) written, a
  thread started on it, the thread seen to have ended, the memory freed.
\<close>

record ('process, 'thread) InjectCalls =
  FileExists :: "wstr \<Rightarrow> bool"
  OpenTarget :: "u32 \<Rightarrow> u32 \<Rightarrow> 'process option"
  TimesOf :: "'process \<Rightarrow> (u32 \<times> u32) option"
  ExtendedOf :: "'process \<Rightarrow> ExtendedInfo option"
  Allocate :: "'process \<Rightarrow> nat \<Rightarrow> u64 option"
  WriteText :: "'process \<Rightarrow> u64 \<Rightarrow> wstr \<Rightarrow> bool"
  StartThread :: "'process \<Rightarrow> u64 \<Rightarrow> 'thread option"
  WaitThread :: "'thread \<Rightarrow> u32 \<Rightarrow> u32"
  ThreadExitCode :: "'thread \<Rightarrow> u32 option"

datatype InjectStep = Allocated u64 nat | Written u64 wstr | Started u64 | Ended | Freed u64

definition PROCESS_CREATE_THREAD :: u32 where "PROCESS_CREATE_THREAD = 2"
definition PROCESS_VM_OPERATION :: u32 where "PROCESS_VM_OPERATION = 8"
definition PROCESS_VM_WRITE :: u32 where "PROCESS_VM_WRITE = 0x20"

definition inject_access :: u32 where
  "inject_access = PROCESS_CREATE_THREAD OR PROCESS_VM_OPERATION OR PROCESS_VM_WRITE OR PROCESS_QUERY_LIMITED_INFORMATION"

text \<open>From the thread on; the result, the steps, whether the memory is freed.\<close>

definition run_thread :: "('process, 'thread) InjectCalls \<Rightarrow> 'process \<Rightarrow> u64 \<Rightarrow> u32 \<Rightarrow> DllInjectionResult \<times> InjectStep list \<times> bool" where
  "run_thread calls p remote timeoutMs =
     (case StartThread calls p remote of
        None \<Rightarrow> (ThreadFailed, [], True)
      | Some thread \<Rightarrow>
          if WaitThread calls thread timeoutMs \<noteq> WAIT_OBJECT_0 then (Timeout, [Started remote], False)
          else (if (case ThreadExitCode calls thread of None \<Rightarrow> 0 | Some c \<Rightarrow> c) = 0 then LoadLibraryFailed else Success,
                [Started remote, Ended], True))"

definition inject_path :: "('process, 'thread) InjectCalls \<Rightarrow> 'process \<Rightarrow> wstr \<Rightarrow> u32 \<Rightarrow> DllInjectionResult \<times> InjectStep list" where
  "inject_path calls p dllPath timeoutMs =
     (let n = (length dllPath + 1) * 2
      in case Allocate calls p n of
           None \<Rightarrow> (AllocFailed, [])
         | Some remote \<Rightarrow>
             (let (result, steps, free) =
                (if \<not> WriteText calls p remote (dllPath @ [0]) then (WriteFailed, [], True)
                 else (let (result, steps, free) = run_thread calls p remote timeoutMs
                       in (result, Written remote (dllPath @ [0]) # steps, free)))
              in (result, Allocated remote n # steps @ (if free then [Freed remote] else []))))"

definition InjectDll :: "('process, 'thread) InjectCalls \<Rightarrow> u32 \<Rightarrow> u64 \<Rightarrow> wstr \<Rightarrow> u32 \<Rightarrow> DllInjectionResult outcome \<times> InjectStep list" where
  "InjectDll calls pid createTime dllPath timeoutMs =
     (if \<not> FileExists calls dllPath then ((FileNotFound, Some ERROR_FILE_NOT_FOUND), [])
      else (case OpenById (\<lambda>access p. OpenTarget calls access p) (TimesOf calls) pid createTime inject_access of
              (None, error) \<Rightarrow> ((OpenFailed, error), [])
            | (Some p, _) \<Rightarrow>
                if IsWow64Process (ExtendedOf calls p) then ((Wow64Target, Some ERROR_NOT_SUPPORTED), [])
                else (let (result, steps) = inject_path calls p dllPath timeoutMs in ((result, None), steps))))"

text \<open>
  The target's memory as the steps change it: what is allocated there, the text in it, whether a thread uses it. A step
  that is out of order has no next state.
\<close>

record Target =
  Memory :: "u64 option"
  Text :: "wstr option"
  Running :: bool

fun inject_step :: "Target \<Rightarrow> InjectStep \<Rightarrow> Target option" where
  "inject_step t (Allocated a n) = (if Memory t = None then Some (t\<lparr>Memory := Some a, Text := None\<rparr>) else None)"
| "inject_step t (Written a s) = (if Memory t = Some a then Some (t\<lparr>Text := Some s\<rparr>) else None)"
| "inject_step t (Started a) = (if Memory t = Some a \<and> Text t \<noteq> None \<and> \<not> Running t then Some (t\<lparr>Running := True\<rparr>) else None)"
| "inject_step t Ended = (if Running t then Some (t\<lparr>Running := False\<rparr>) else None)"
| "inject_step t (Freed a) = (if Memory t = Some a \<and> \<not> Running t then Some (t\<lparr>Memory := None, Text := None\<rparr>) else None)"

fun inject_steps :: "Target \<Rightarrow> InjectStep list \<Rightarrow> Target option" where
  "inject_steps t [] = Some t"
| "inject_steps t (s # ss) = Option.bind (inject_step t s) (\<lambda>t. inject_steps t ss)"

definition untouched :: Target where
  "untouched = \<lparr>Memory = None, Text = None, Running = False\<rparr>"

text \<open>C21: whatever the system answers, injecting a DLL does everything in order (the thread starts on memory that holds the
  path, the memory is never freed under a running thread) and leaves the target as it was, with no memory and no thread of
  it, except after a timeout, when the thread still runs and its memory with the whole path and its NUL is kept.\<close>

theorem InjectDll_memory:
  "\<exists>end. inject_steps untouched (snd (InjectDll calls pid createTime dllPath timeoutMs)) = Some end \<and>
     (if fst (fst (InjectDll calls pid createTime dllPath timeoutMs)) = Timeout
      then Running end \<and> Memory end \<noteq> None \<and> Text end = Some (dllPath @ [0])
      else end = untouched)"
proof -
  have run: "\<exists>end. inject_steps untouched (snd (inject_path calls p dllPath timeoutMs)) = Some end \<and>
     (if fst (inject_path calls p dllPath timeoutMs) = Timeout
      then Running end \<and> Memory end \<noteq> None \<and> Text end = Some (dllPath @ [0]) else end = untouched)" for p
    by (auto simp: inject_path_def run_thread_def untouched_def Let_def split: option.splits)
  let ?r = "InjectDll calls pid createTime dllPath timeoutMs"
  have "snd ?r = [] \<and> fst (fst ?r) \<noteq> Timeout \<or>
      (\<exists>p. fst (fst ?r) = fst (inject_path calls p dllPath timeoutMs) \<and> snd ?r = snd (inject_path calls p dllPath timeoutMs))"
    by (auto simp: InjectDll_def Let_def case_prod_unfold split: option.splits)
  then show ?thesis
  proof
    assume "\<exists>p. fst (fst ?r) = fst (inject_path calls p dllPath timeoutMs) \<and> snd ?r = snd (inject_path calls p dllPath timeoutMs)"
    then obtain p where p: "fst (fst ?r) = fst (inject_path calls p dllPath timeoutMs)" "snd ?r = snd (inject_path calls p dllPath timeoutMs)"
      by blast
    show ?thesis unfolding p by (rule run)
  qed simp
qed

text \<open>Success is a module: the DLL's file is there, the process is the one created then and is no WOW64 process, and the loader's thread ended with a module.\<close>

lemma InjectDll_success:
  assumes "fst (fst (InjectDll calls pid createTime dllPath timeoutMs)) = Success"
  obtains p thread remote where "FileExists calls dllPath" "OpenTarget calls (inject_access OR PROCESS_QUERY_LIMITED_INFORMATION) pid = Some p"
    "GetCreateTime (TimesOf calls) p = createTime" "\<not> IsWow64Process (ExtendedOf calls p)"
    "StartThread calls p remote = Some thread" "ThreadExitCode calls thread \<notin> {None, Some 0}"
proof -
  have path: "\<exists>remote thread. StartThread calls p remote = Some thread \<and> ThreadExitCode calls thread \<notin> {None, Some 0}"
    if "fst (inject_path calls p dllPath timeoutMs) = Success" for p
    using that by (simp add: inject_path_def run_thread_def Let_def split: option.splits if_splits prod.splits) fastforce+
  obtain p where p: "FileExists calls dllPath" "OpenTarget calls (inject_access OR PROCESS_QUERY_LIMITED_INFORMATION) pid = Some p"
      "GetCreateTime (TimesOf calls) p = createTime" "\<not> IsWow64Process (ExtendedOf calls p)"
      "fst (inject_path calls p dllPath timeoutMs) = Success"
    using assms by (auto simp: InjectDll_def OpenById_def Let_def case_prod_unfold split: option.splits if_splits)
  show thesis using path [OF p(5)] p that by blast
qed

section \<open>The structures of a process's threads\<close>

record ThreadStructures =
  ThreadId :: u32
  Teb :: u64
  Teb32 :: u64
  StackBase :: u64
  StackLimit :: u64
  Stack32Base :: u64
  Stack32Limit :: u64

record ProcessStructures =
  Peb :: u64
  Peb32 :: u64
  Threads :: "ThreadStructures list"

text \<open>
  The queries: both PEBs, a thread's ID and TEB, the stack's bounds at a TEB. The handles that \<open>NtGetNextThread\<close> gives one
  after another are a list; its end is the call that fails. The log is what happens to the handles.
\<close>

record 'handle ThreadCalls =
  PebAddress :: "u64 option"
  Peb32Address :: "u64 option"
  ThreadInfo :: "'handle \<Rightarrow> (u32 \<times> u64) option"
  Tib :: "u64 \<Rightarrow> (u64 \<times> u64) option"
  Tib32 :: "u64 \<Rightarrow> (u32 \<times> u32) option"

datatype 'handle HandleStep = NextAfter "'handle option" | Closed 'handle

definition structures_of :: "'handle ThreadCalls \<Rightarrow> u64 \<Rightarrow> 'handle \<Rightarrow> ThreadStructures option" where
  "structures_of calls peb32 h =
     (case ThreadInfo calls h of
        None \<Rightarrow> None
      | Some (tid, teb) \<Rightarrow>
          if teb = 0 then None
          else (let (base, limit) = (case Tib calls teb of None \<Rightarrow> (0, 0) | Some t \<Rightarrow> t);
                    teb32 = (if peb32 \<noteq> 0 then teb + 0x2000 else 0);
                    (base32, limit32) = (if peb32 \<noteq> 0 then (case Tib32 calls teb32 of None \<Rightarrow> (0, 0) | Some t \<Rightarrow> t) else (0, 0))
                in Some \<lparr>ThreadId = tid, Teb = teb, Teb32 = teb32, StackBase = base, StackLimit = limit,
                         Stack32Base = ucast base32, Stack32Limit = ucast limit32\<rparr>))"

fun threads_from :: "('handle \<Rightarrow> ThreadStructures option) \<Rightarrow> 'handle option \<Rightarrow> 'handle list \<Rightarrow>
    ThreadStructures list \<times> 'handle HandleStep list" where
  "threads_from f prev handles =
     (let closed = NextAfter prev # (case prev of None \<Rightarrow> [] | Some h \<Rightarrow> [Closed h])
      in case handles of
           [] \<Rightarrow> ([], closed)
         | h # hs \<Rightarrow>
             (let (ts, steps) = threads_from f (Some h) hs
              in (case f h of None \<Rightarrow> ts | Some t \<Rightarrow> t # ts, closed @ steps)))"

declare threads_from.simps [simp del]

text \<open>\<open>std::sort\<close> by the thread IDs, which differ.\<close>

definition GetStructures :: "'handle ThreadCalls \<Rightarrow> 'handle list \<Rightarrow> ProcessStructures \<times> 'handle HandleStep list" where
  "GetStructures calls handles =
     (let peb32 = (case Peb32Address calls of None \<Rightarrow> 0 | Some a \<Rightarrow> a);
          (ts, steps) = threads_from (structures_of calls peb32) None handles
      in (\<lparr>Peb = (case PebAddress calls of None \<Rightarrow> 0 | Some a \<Rightarrow> a), Peb32 = peb32, Threads = sort_key ThreadId ts\<rparr>, steps))"

lemma threads_from_result:
  "threads_from f prev handles =
    (List.map_filter f handles,
     NextAfter prev # (case prev of None \<Rightarrow> [] | Some h \<Rightarrow> [Closed h]) @ concat (map (\<lambda>h. [NextAfter (Some h), Closed h]) handles))"
  by (induction handles arbitrary: prev)
    (auto simp: threads_from.simps [of f _ "[]"] threads_from.simps [of f _ "_ # _"] List.map_filter_simps split: option.splits)


section \<open>The loaded modules\<close>

text \<open>\<open>vector::resize\<close>\<close>

definition resized :: "nat \<Rightarrow> 'a::zero list \<Rightarrow> 'a list" where
  "resized n xs = take n xs @ replicate (n - length xs) 0"

text \<open>
  The loop: \<open>call\<close> is asked again with a number of places (the count of the attempt makes each answer its own) and gives the
  modules that fit and the bytes needed for all, or fails and leaves both as they were. (The size in bytes is cut to 32
  bits by the code; it is far below.)
\<close>

type_synonym module_call = "nat \<Rightarrow> nat \<Rightarrow> (u64 list \<times> nat) option"

partial_function (option) modules_from :: "module_call \<Rightarrow> nat \<Rightarrow> u64 list \<Rightarrow> nat \<Rightarrow> u64 list option" where
  "modules_from call attempt modules needed =
     (case call attempt (length modules) of
        None \<Rightarrow> Some (resized (min (length modules) (needed div 8)) modules)
      | Some (found, needed) \<Rightarrow>
          (let modules = found @ drop (length found) modules
           in if needed > length modules * 8 then modules_from call (attempt + 1) (resized (needed div 8 + 16) modules) needed
              else Some (resized (min (length modules) (needed div 8)) modules)))"

definition EnumLoadedModules :: "module_call \<Rightarrow> (u64 \<Rightarrow> wstr option) \<Rightarrow> (u64 \<times> wstr) list option" where
  "EnumLoadedModules call path =
     map_option (\<lambda>modules. List.map_filter (\<lambda>m. map_option (\<lambda>p. (m, p)) (path m)) modules)
       (modules_from call 0 (replicate 256 0) 0)"

text \<open>Answers from the module lists the process has at each attempt.\<close>

definition lists_modules :: "module_call \<Rightarrow> (nat \<Rightarrow> u64 list) \<Rightarrow> bool" where
  "lists_modules call mods \<longleftrightarrow> (\<forall>n places. call n places = Some (take places (mods n), 8 * length (mods n)))"

lemma modules_from_ends:
  assumes "lists_modules call mods" and bound: "\<And>n. length (mods n) \<le> limit"
  shows "\<exists>n \<ge> attempt. modules_from call attempt buffer needed = Some (mods n)"
proof (induction "limit - length buffer" arbitrary: attempt buffer needed rule: less_induct)
  case less
  let ?m = "mods attempt"
  let ?b = "take (length buffer) ?m @ drop (length (take (length buffer) ?m)) buffer"
  have call: "call attempt (length buffer) = Some (take (length buffer) ?m, 8 * length ?m)"
    using assms(1) by (simp add: lists_modules_def)
  have len: "length ?b = length buffer" by simp
  show ?case
  proof (cases "length ?m > length buffer")
    case True
    let ?next = "resized (8 * length ?m div 8 + 16) ?b"
    have "limit - length ?next < limit - length buffer"
      using True bound [of attempt] by (simp add: resized_def)
    from less [OF this, of "attempt + 1" "8 * length ?m"] obtain n where
      n: "n \<ge> attempt + 1" "modules_from call (attempt + 1) ?next (8 * length ?m) = Some (mods n)" by blast
    have "modules_from call attempt buffer needed = modules_from call (attempt + 1) ?next (8 * length ?m)"
      using True by (subst modules_from.simps) (simp add: call)
    then show ?thesis using n by (intro exI [of _ n]) simp
  next
    case False
    then have "modules_from call attempt buffer needed = Some ?m"
      by (subst modules_from.simps) (simp add: call resized_def)
    then show ?thesis by blast
  qed
qed

text \<open>Listing a process's modules comes to an end however often modules are loaded in between, if there is a limit on
  their number, and the list is the process's modules at one of the attempts, all of them and no others, those with a
  path.\<close>

theorem EnumLoadedModules_ends:
  assumes "lists_modules call mods" and "\<And>n. length (mods n) \<le> limit"
  shows "\<exists>n. EnumLoadedModules call path = Some (List.map_filter (\<lambda>m. map_option (\<lambda>p. (m, p)) (path m)) (mods n))"
  using modules_from_ends [of call mods limit 0 "replicate 256 0" 0] assms by (auto simp: EnumLoadedModules_def)

theorem EnumLoadedModules_ends_witness:
  "\<exists>n :: nat. EnumLoadedModules (\<lambda>n places. Some (take places (replicate (200 + n mod 100) 1), 8 * (200 + n mod 100))) (\<lambda>m. Some [ucast m]) =
     Some (List.map_filter (\<lambda>m. map_option (\<lambda>p. (m, p)) (Some [ucast m])) (replicate (200 + n mod 100) 1))"
  by (rule EnumLoadedModules_ends [of _ "\<lambda>n. replicate (200 + n mod 100) 1" 300])
    (simp_all add: lists_modules_def less_imp_le trans_less_add1 order.strict_implies_order)

section \<open>Windows\<close>

record Window =
  Visible :: bool
  Hung :: bool
  ClassName :: "wstr option"
  WindowPid :: u32
  Owned :: bool
  ToolWindow :: bool
  WindowText :: wstr

text \<open>\<open>EnumWindows\<close> gives the top-level windows in Z order; a class name is read up to 7 characters.\<close>

definition ghost :: "Window \<Rightarrow> bool" where
  "ghost w \<longleftrightarrow> (case ClassName w of None \<Rightarrow> False | Some c \<Rightarrow> c \<noteq> [] \<and> take 7 c = wide ''Ghost'')"

definition hung_pids :: "Window list \<Rightarrow> u32 list" where
  "hung_pids windows = map WindowPid (filter (\<lambda>w. Visible w \<and> Hung w \<and> \<not> ghost w \<and> WindowPid w \<noteq> 0) windows)"

definition GetHungProcesses :: "Window list \<Rightarrow> u32 list" where
  "GetHungProcesses windows = remdups_adj (sort (hung_pids windows))"

text \<open>The main windows' titles: the first that counts in Z order; a text is cut to 255 characters.\<close>

definition add_title :: "(u32, wstr) table \<Rightarrow> Window \<Rightarrow> (u32, wstr) table" where
  "add_title titles w =
     (if \<not> Visible w \<or> Owned w \<or> ToolWindow w then titles
      else if WindowPid w = 0 \<or> tfind titles (WindowPid w) \<noteq> None then titles
      else if WindowText w = [] then titles
      else tinsert (WindowPid w) (take 255 (WindowText w)) titles)"

definition GetMainWindowTitles :: "Window list \<Rightarrow> (u32, wstr) table" where
  "GetMainWindowTitles windows = foldl add_title [] windows"

lemma distinct_remdups_adj_sorted: "sorted xs \<Longrightarrow> distinct (remdups_adj xs)"
  by (induction xs rule: remdups_adj.induct) auto

text \<open>The processes that hang are listed once each, in the order of their IDs: exactly those with a visible window that hangs and is no ghost.\<close>

theorem GetHungProcesses_exact:
  "sorted (GetHungProcesses windows) \<and> distinct (GetHungProcesses windows) \<and>
   set (GetHungProcesses windows) = {WindowPid w | w. w \<in> set windows \<and> Visible w \<and> Hung w \<and> \<not> ghost w \<and> WindowPid w \<noteq> 0}"
  by (auto simp: GetHungProcesses_def hung_pids_def distinct_remdups_adj_sorted)

text \<open>A main window: visible, not owned, no tool window, with a text.\<close>

definition main_window :: "u32 \<Rightarrow> Window \<Rightarrow> bool" where
  "main_window pid w \<longleftrightarrow> Visible w \<and> \<not> Owned w \<and> \<not> ToolWindow w \<and> WindowPid w = pid \<and> WindowText w \<noteq> []"

lemma add_title_first:
  "tfind (add_title titles w) pid =
     (case tfind titles pid of
        Some t \<Rightarrow> Some t
      | None \<Rightarrow> if pid \<noteq> 0 \<and> main_window pid w then Some (take 255 (WindowText w)) else None)"
  by (auto simp: add_title_def main_window_def tfind_tinsert split: option.splits)

text \<open>A process's title is the text, up to 255 characters, of its first main window in Z order, and a process without one has none.\<close>

theorem GetMainWindowTitles_first:
  "tfind (GetMainWindowTitles windows) pid =
     (if pid = 0 then None else map_option (\<lambda>w. take 255 (WindowText w)) (find (main_window pid) windows))"
proof -
  have "tfind (foldl add_title titles windows) pid =
     (case tfind titles pid of
        Some t \<Rightarrow> Some t
      | None \<Rightarrow> if pid = 0 then None else map_option (\<lambda>w. take 255 (WindowText w)) (find (main_window pid) windows))" for titles
    by (induction windows arbitrary: titles) (simp_all add: add_title_first split: option.splits)
  from this [of "[]"] show ?thesis by (simp add: GetMainWindowTitles_def tfind_def)
qed

section \<open>Where the code differs from what it says\<close>

text \<open>A 64-bit process of a 64-bit system is reported as not 64-bit, and a WOW64 process as 64-bit.\<close>

lemma Is64Bit_inverted: "Is64Bit 9 (Some False) = False \<and> Is64Bit 9 (Some True) = True"
  by (simp add: Is64Bit_def ArchitectureARM_def ArchitectureX86_def)

text \<open>When the second attempt fails (the process is ending), the places it was to fill are listed as modules at address 0.\<close>

lemma modules_with_nulls:
  "modules_from (\<lambda>n places. if n = 0 then Some (replicate 256 7, 8 * 258) else None) 0 (replicate 256 0) 0 =
     Some (replicate 256 7 @ [0, 0])"
  by (simp add: modules_from.simps resized_def) (simp add: numeral_eq_Suc)

section \<open>Mitigations\<close>

record ProcessMitigations =
  Dep :: bool
  DepPermanent :: bool
  AslrBottomUp :: bool
  AslrForceRelocate :: bool
  AslrHighEntropy :: bool
  Cfg :: bool
  CfgStrict :: bool
  Cet :: bool
  CetStrict :: bool
  DynamicCodeProhibited :: bool
  MicrosoftSignedOnly :: bool
  StrictHandleChecks :: bool
  Win32kDisabled :: bool
  ExtensionPointsDisabled :: bool
  NonSystemFontsDisabled :: bool
  NoRemoteImages :: bool
  NoLowLabelImages :: bool
  NoChildProcesses :: bool

definition no_mitigations :: ProcessMitigations where
  "no_mitigations = \<lparr>Dep = False, DepPermanent = False, AslrBottomUp = False, AslrForceRelocate = False, AslrHighEntropy = False,
     Cfg = False, CfgStrict = False, Cet = False, CetStrict = False, DynamicCodeProhibited = False, MicrosoftSignedOnly = False,
     StrictHandleChecks = False, Win32kDisabled = False, ExtensionPointsDisabled = False, NonSystemFontsDisabled = False,
     NoRemoteImages = False, NoLowLabelImages = False, NoChildProcesses = False\<rparr>"

datatype Policy =
  DEPPolicy | ASLRPolicy | ControlFlowGuardPolicy | UserShadowStackPolicy | DynamicCodePolicy | SignaturePolicy
  | StrictHandleCheckPolicy | SystemCallDisablePolicy | ExtensionPointDisablePolicy | FontDisablePolicy | ImageLoadPolicy
  | ChildProcessPolicy

text \<open>
  \<open>GetProcessMitigationPolicy\<close>: nothing, or the structure of the policy, a function from its fields' names. What a policy that
  was read sets.
\<close>

type_synonym policies = "Policy \<Rightarrow> (string \<Rightarrow> bool) option"

fun set_policy :: "Policy \<Rightarrow> (string \<Rightarrow> bool) \<Rightarrow> ProcessMitigations \<Rightarrow> ProcessMitigations" where
  "set_policy DEPPolicy v m = m\<lparr>Dep := v ''Enable'', DepPermanent := v ''Permanent''\<rparr>"
| "set_policy ASLRPolicy v m = m\<lparr>AslrBottomUp := v ''EnableBottomUpRandomization'', AslrForceRelocate := v ''EnableForceRelocateImages'',
     AslrHighEntropy := v ''EnableHighEntropy''\<rparr>"
| "set_policy ControlFlowGuardPolicy v m = m\<lparr>Cfg := v ''EnableControlFlowGuard'', CfgStrict := v ''StrictMode''\<rparr>"
| "set_policy UserShadowStackPolicy v m = m\<lparr>Cet := v ''EnableUserShadowStack'', CetStrict := v ''EnableUserShadowStackStrictMode''\<rparr>"
| "set_policy DynamicCodePolicy v m = m\<lparr>DynamicCodeProhibited := v ''ProhibitDynamicCode''\<rparr>"
| "set_policy SignaturePolicy v m = m\<lparr>MicrosoftSignedOnly := v ''MicrosoftSignedOnly''\<rparr>"
| "set_policy StrictHandleCheckPolicy v m = m\<lparr>StrictHandleChecks := v ''RaiseExceptionOnInvalidHandleReference''\<rparr>"
| "set_policy SystemCallDisablePolicy v m = m\<lparr>Win32kDisabled := v ''DisallowWin32kSystemCalls''\<rparr>"
| "set_policy ExtensionPointDisablePolicy v m = m\<lparr>ExtensionPointsDisabled := v ''DisableExtensionPoints''\<rparr>"
| "set_policy FontDisablePolicy v m = m\<lparr>NonSystemFontsDisabled := v ''DisableNonSystemFonts''\<rparr>"
| "set_policy ImageLoadPolicy v m = m\<lparr>NoRemoteImages := v ''NoRemoteImages'', NoLowLabelImages := v ''NoLowMandatoryLabelImages''\<rparr>"
| "set_policy ChildProcessPolicy v m = m\<lparr>NoChildProcesses := v ''NoChildProcessCreation''\<rparr>"

text \<open>The order of the queries; a query of one policy, with whether any succeeded so far.\<close>

definition other_policies :: "Policy list" where
  "other_policies = [ASLRPolicy, ControlFlowGuardPolicy, UserShadowStackPolicy, DynamicCodePolicy, SignaturePolicy,
     StrictHandleCheckPolicy, SystemCallDisablePolicy, ExtensionPointDisablePolicy, FontDisablePolicy, ImageLoadPolicy,
     ChildProcessPolicy]"

definition query_policy :: "policies \<Rightarrow> ProcessMitigations \<times> bool \<Rightarrow> Policy \<Rightarrow> ProcessMitigations \<times> bool" where
  "query_policy ps r p = (case ps p of None \<Rightarrow> r | Some v \<Rightarrow> (set_policy p v (fst r), True))"

definition GetMitigations :: "policies \<Rightarrow> bool \<Rightarrow> ProcessMitigations option" where
  "GetMitigations ps wow64 =
     (let start = (if \<not> wow64 then (no_mitigations\<lparr>Dep := True, DepPermanent := True\<rparr>, False)
                   else query_policy ps (no_mitigations, False) DEPPolicy);
          (m, any) = foldl (query_policy ps) start other_policies
      in if \<not> any then None else Some m)"

text \<open>
  The mitigations are given exactly when a policy could be queried; a 64-bit process always has both DEP flags, and a
  policy that can't be queried counts as off.
\<close>

definition field_on :: "policies \<Rightarrow> Policy \<Rightarrow> string \<Rightarrow> bool" where
  "field_on ps p f \<longleftrightarrow> (case ps p of None \<Rightarrow> False | Some v \<Rightarrow> v f)"

lemma GetMitigations_none:
  "GetMitigations ps wow64 = None \<longleftrightarrow> (\<forall>p \<in> set other_policies \<union> (if wow64 then {DEPPolicy} else {}). ps p = None)"
proof -
  have "snd (foldl (query_policy ps) r qs) \<longleftrightarrow> snd r \<or> (\<exists>q \<in> set qs. ps q \<noteq> None)" for r qs
    by (induction qs arbitrary: r) (auto simp: query_policy_def split: option.splits)
  from this [of _ other_policies] show ?thesis
    by (auto simp: GetMitigations_def Let_def case_prod_unfold query_policy_def split: option.splits)
qed

lemma GetMitigations_dep:
  assumes "GetMitigations ps wow64 = Some m"
  shows "(Dep m \<longleftrightarrow> \<not> wow64 \<or> field_on ps DEPPolicy ''Enable'') \<and> (DepPermanent m \<longleftrightarrow> \<not> wow64 \<or> field_on ps DEPPolicy ''Permanent'')"
proof -
  have keep: "Dep (fst (foldl (query_policy ps) r qs)) = Dep (fst r) \<and> DepPermanent (fst (foldl (query_policy ps) r qs)) = DepPermanent (fst r)"
    if "DEPPolicy \<notin> set qs" for r qs
    using that
  proof (induction qs arbitrary: r)
    case (Cons q qs)
    then have "Dep (fst (query_policy ps r q)) = Dep (fst r) \<and> DepPermanent (fst (query_policy ps r q)) = DepPermanent (fst r)"
      by (cases q) (auto simp: query_policy_def split: option.splits)
    with Cons show ?case by simp
  qed simp
  have "DEPPolicy \<notin> set other_policies" by (simp add: other_policies_def)
  note keep [OF this]
  then show ?thesis using assms
    by (auto simp: GetMitigations_def Let_def case_prod_unfold query_policy_def field_on_def no_mitigations_def split: option.splits if_splits)
qed

end
