(* ===== verification/Process_Creation.thy ===== *)
theory Process_Creation
  imports Process_Commands
begin

unbundle bit_operations_syntax

text \<open>
Who created each process and which exited, from the events of a trace session (ProcessCreation.cpp, ProcessCreation.h): the start payload, the kinds of creators, the tracker with its calls. The services, the image paths and the properties that TDH reads from an event are arguments; starting and stopping the session are not modelled, but forgetting at its stop is.
\<close>

section \<open>The events\<close>

datatype ProcessCreator = Parent | OnBehalf | OtherCreator

record ProcessCreation =
  Pid :: u32
  CreateTime :: u64
  ParentPid :: u32
  CreatorPid :: u32
  CreatorTid :: u32
  Creator :: ProcessCreator
  CreatorService :: wstr
  CreatorName :: wstr
  ImagePath :: wstr
  Started :: bool
  ExitTime :: u64
  ExitCode :: "u32 option"
  Taken :: bool

definition no_creation :: ProcessCreation where
  "no_creation = \<lparr>Pid = 0, CreateTime = 0, ParentPid = 0, CreatorPid = 0, CreatorTid = 0, Creator = Parent, CreatorService = [],
     CreatorName = [], ImagePath = [], Started = False, ExitTime = 0, ExitCode = None, Taken = False\<rparr>"

type_synonym creation_key = "u64 \<times> u32"

definition Key :: "ProcessCreation \<Rightarrow> creation_key" where
  "Key c = (CreateTime c, Pid c)"

definition ProcessStartId :: u16 where "ProcessStartId = 1"
definition ProcessStopId :: u16 where "ProcessStopId = 2"

definition KernelProcessProvider :: GUID where
  "KernelProcessProvider = make_guid 0x22fb2cd6 0x0e7b 0x422b [0xa0, 0xc7, 0x2f, 0xad, 0x1f, 0xd0, 0xe7, 0x16]"

text \<open>A start's payload: from version 3 on a sequence number follows the ID.\<close>

definition Parse :: "u16 \<Rightarrow> 8 word \<Rightarrow> bytes option \<Rightarrow> ProcessCreation option" where
  "Parse eid version payload =
     (let sequence = (if version \<ge> 3 then 8 else 0)
      in case payload of
           None \<Rightarrow> None
         | Some p \<Rightarrow>
             if eid \<noteq> ProcessStartId \<or> length p < 16 + sequence then None
             else Some (no_creation\<lparr>Pid := u32_at p 0, CreateTime := u64_at p (4 + sequence), ParentPid := u32_at p (12 + sequence)\<rparr>))"

definition OnBehalfServices :: "wstr list" where
  "OnBehalfServices = [wide ''Appinfo'', wide ''seclogon'']"

definition Classify :: "u32 \<Rightarrow> u32 \<Rightarrow> wstr \<Rightarrow> ProcessCreator" where
  "Classify creatorPid parentPid creatorService =
     (if creatorPid = parentPid then Parent
      else if list_ex (same_name creatorService) OnBehalfServices then OnBehalf
      else OtherCreator)"

definition Describe_creation :: "ProcessCreation \<Rightarrow> wstr" where
  "Describe_creation c =
     (let pid = to_wstring (unat (CreatorPid c));
          creator = (if CreatorName c = [] then wide ''process '' @ pid else CreatorName c @ wide '' ('' @ pid @ wide '')'')
      in case Creator c of
           Parent \<Rightarrow> []
         | OnBehalf \<Rightarrow> wide ''Created by '' @ creator @ wide '', the '' @ CreatorService c @ wide '' service, for its parent''
         | OtherCreator \<Rightarrow> wide ''Parent spoofed: created by '' @ creator @ wide '', not its parent ('' @
             to_wstring (unat (ParentPid c)) @ wide '')'')"

text \<open>
  An event as the callback gets it: its header, its payload, and its properties by name (TDH). The system: the services'
  processes and the processes' image paths.
\<close>

record EventRecord =
  Provider :: GUID
  EventId :: u16
  EventVersion :: "8 word"
  UserData :: "bytes option"
  HeaderPid :: u32
  HeaderTid :: u32
  Property :: "wstr \<Rightarrow> bytes option"

record Processes =
  ServicePid :: "wstr \<Rightarrow> u32"
  ImageOf :: "u32 \<Rightarrow> wstr option"

definition GetProperty :: "EventRecord \<Rightarrow> wstr \<Rightarrow> bytes option" where
  "GetProperty r name = (case Property r name of None \<Rightarrow> None | Some v \<Rightarrow> if v = [] then None else Some v)"

definition GetValue :: "nat \<Rightarrow> (bytes \<Rightarrow> 'a) \<Rightarrow> EventRecord \<Rightarrow> wstr \<Rightarrow> 'a option" where
  "GetValue n read r name = (case GetProperty r name of None \<Rightarrow> None | Some v \<Rightarrow> if length v < n then None else Some (read v))"

definition get_u32 :: "EventRecord \<Rightarrow> string \<Rightarrow> u32 option" where
  "get_u32 r name = GetValue 4 (\<lambda>v. u32_at v 0) r (wide name)"

definition get_time :: "EventRecord \<Rightarrow> string \<Rightarrow> u64 option" where
  "get_time r name = GetValue 8 (\<lambda>v. u64_at v 0) r (wide name)"

text \<open>A text: narrow characters are widened as the signed numbers they are.\<close>

definition GetText :: "EventRecord \<Rightarrow> string \<Rightarrow> bool \<Rightarrow> wstr" where
  "GetText r name ansi =
     (case GetProperty r (wide name) of
        None \<Rightarrow> []
      | Some v \<Rightarrow> if ansi then map scast (until_nul (length v) v) else until_nul (length v div 2) (units v))"

definition OnBehalfService :: "Processes \<Rightarrow> u32 \<Rightarrow> wstr" where
  "OnBehalfService ps pid =
     (case find (\<lambda>name. ServicePid ps name = pid \<and> pid \<noteq> 0) OnBehalfServices of None \<Rightarrow> [] | Some name \<Rightarrow> name)"

definition ImageName :: "Processes \<Rightarrow> u32 \<Rightarrow> wstr" where
  "ImageName ps pid = (case ImageOf ps pid of None \<Rightarrow> [] | Some path \<Rightarrow> image_name path)"

section \<open>The tracker\<close>

type_synonym creations = "(creation_key, ProcessCreation) table"

definition the_creation :: "creation_key \<Rightarrow> creations \<Rightarrow> ProcessCreation" where
  "the_creation k m = (case tfind m k of None \<Rightarrow> no_creation | Some c \<Rightarrow> c)"

definition on_stop :: "EventRecord \<Rightarrow> creations \<Rightarrow> creations" where
  "on_stop r m =
     (case (get_u32 r ''ProcessID'', get_time r ''CreateTime'', get_time r ''ExitTime'') of
        (Some pid, Some created, Some exited) \<Rightarrow>
          (let c = the_creation (created, pid) m
           in tset (created, pid)
                (c\<lparr>Pid := pid, CreateTime := created, ExitTime := exited, ExitCode := get_u32 r ''ExitCode'',
                   ImagePath := (if ImagePath c = [] then GetText r ''ImageName'' True else ImagePath c)\<rparr>) m)
      | _ \<Rightarrow> m)"

definition started :: "Processes \<Rightarrow> EventRecord \<Rightarrow> ProcessCreation \<Rightarrow> ProcessCreation" where
  "started ps r c =
     (let other = (HeaderPid r \<noteq> ParentPid c);
          service = (if other then OnBehalfService ps (HeaderPid r) else []);
          name = (if other then ImageName ps (HeaderPid r) else [])
      in c\<lparr>CreatorPid := HeaderPid r, CreatorTid := HeaderTid r, CreatorService := service, CreatorName := name,
           Creator := Classify (HeaderPid r) (ParentPid c) service, ImagePath := GetText r ''ImageName'' False, Started := True\<rparr>)"

definition on_start :: "Processes \<Rightarrow> EventRecord \<Rightarrow> creations \<Rightarrow> creations" where
  "on_start ps r m =
     (case Parse (EventId r) (EventVersion r) (UserData r) of
        None \<Rightarrow> m
      | Some c \<Rightarrow>
          (let c = started ps r c; existing = the_creation (Key c) m
           in tset (Key c) (c\<lparr>ExitTime := ExitTime existing, ExitCode := ExitCode existing\<rparr>) m))"

definition OnEvent :: "Processes \<Rightarrow> EventRecord \<Rightarrow> creations \<Rightarrow> creations" where
  "OnEvent ps r m =
     (if Provider r \<noteq> KernelProcessProvider then m
      else if EventId r = ProcessStopId then on_stop r m
      else on_start ps r m)"

definition Get :: "creation_key \<Rightarrow> creations \<Rightarrow> ProcessCreation option" where
  "Get k m = tfind m k"

definition Remove :: "creation_key \<Rightarrow> creations \<Rightarrow> creations" where
  "Remove k m = terase k m"

definition GetMismatches :: "creations \<Rightarrow> ProcessCreation list" where
  "GetMismatches m = filter (\<lambda>c. Creator c \<noteq> Parent \<and> ExitTime c = 0) (map snd m)"

text \<open>The exits that are due: each once; an exited one goes ten minutes after its exit.\<close>

definition ExitedKept :: int where
  "ExitedKept = 10 * 60 * 10000000"

definition due :: "ProcessCreation \<Rightarrow> bool" where
  "due c \<longleftrightarrow> ExitTime c \<noteq> 0 \<and> \<not> Taken c \<and> Started c"

definition expired :: "u64 \<Rightarrow> ProcessCreation \<Rightarrow> bool" where
  "expired now c \<longleftrightarrow> ExitTime c \<noteq> 0 \<and> sint (now - ExitTime c) > ExitedKept"

definition take_one :: "ProcessCreation \<Rightarrow> ProcessCreation" where
  "take_one c = (if due c then c\<lparr>Taken := True\<rparr> else c)"

definition TakeExited :: "u64 \<Rightarrow> creations \<Rightarrow> ProcessCreation list \<times> creations" where
  "TakeExited now m =
     (map take_one (filter due (map snd m)),
      filter (\<lambda>e. \<not> expired now (snd e)) (map (\<lambda>(k, c). (k, take_one c)) m))"

text \<open>The calls on a tracker, in the order of its lock, and what they return of exits. A stop of the session forgets all.\<close>

datatype Call = Event Processes EventRecord | RemoveKey creation_key | Take u64 | StopSession

fun do_call :: "Call \<Rightarrow> creations \<Rightarrow> ProcessCreation list \<times> creations" where
  "do_call (Event ps r) m = ([], OnEvent ps r m)"
| "do_call (RemoveKey k) m = ([], Remove k m)"
| "do_call (Take now) m = TakeExited now m"
| "do_call StopSession m = ([], [])"

fun run_calls :: "Call list \<Rightarrow> creations \<Rightarrow> ProcessCreation list \<times> creations" where
  "run_calls [] m = ([], m)"
| "run_calls (c # cs) m =
     (let (out, m1) = do_call c m; (outs, m2) = run_calls cs m1
      in (out @ outs, m2))"

section \<open>Each exit once\<close>

text \<open>Whether an event is the start of a process, for its key.\<close>

definition start_of :: "creation_key \<Rightarrow> EventRecord \<Rightarrow> bool" where
  "start_of k r \<longleftrightarrow>
     Provider r = KernelProcessProvider \<and> map_option Key (Parse (EventId r) (EventVersion r) (UserData r)) = Some k"

fun starts :: "creation_key \<Rightarrow> Call list \<Rightarrow> nat" where
  "starts k [] = 0"
| "starts k (Event ps r # cs) = (if start_of k r then 1 else 0) + starts k cs"
| "starts k (_ # cs) = starts k cs"

definition reports :: "creation_key \<Rightarrow> ProcessCreation list \<Rightarrow> nat" where
  "reports k out = length (filter (\<lambda>c. Key c = k) out)"

text \<open>A well-formed tracker: one entry per key, under its own key.\<close>

definition tracker_ok :: "creations \<Rightarrow> bool" where
  "tracker_ok m \<longleftrightarrow> table_ok m \<and> list_all (\<lambda>(k, c). Key c = k) m"

text \<open>An entry that is still to be reported.\<close>

definition owed :: "creation_key \<Rightarrow> creations \<Rightarrow> nat" where
  "owed k m = (case tfind m k of None \<Rightarrow> 0 | Some c \<Rightarrow> if Started c \<and> \<not> Taken c then 1 else 0)"

lemma reports_append [simp]: "reports k (a @ b) = reports k a + reports k b"
  by (simp add: reports_def)

lemma reports_Nil [simp]: "reports k [] = 0"
  by (simp add: reports_def)

lemma no_creation_fields [simp]:
  "Started no_creation = False" "Taken no_creation = False" "ExitTime no_creation = 0"
  by (simp_all add: no_creation_def)

lemma Parse_fields:
  assumes "Parse eid v p = Some c"
  shows "eid = ProcessStartId \<and> ExitTime c = 0 \<and> \<not> Taken c"
  using assms by (auto simp: Parse_def no_creation_def Let_def split: option.splits if_splits)

lemma Key_simps [simp]:
  "Key (c\<lparr>Taken := t\<rparr>) = Key c" "Key (c\<lparr>ExitTime := x\<rparr>) = Key c" "Key (c\<lparr>ExitCode := y\<rparr>) = Key c"
  "Key (c\<lparr>ImagePath := z\<rparr>) = Key c" "Key (c\<lparr>Pid := pid, CreateTime := created\<rparr>) = (created, pid)"
  by (simp_all add: Key_def)

lemma Key_started [simp]: "Key (started ps r c) = Key c"
  by (simp add: started_def Key_def Let_def)

lemma started_flags [simp]:
  "Started (started ps r c)" "Taken (started ps r c) = Taken c" "ExitTime (started ps r c) = ExitTime c"
  by (simp_all add: started_def Let_def)

lemma take_one_simps [simp]: "Key (take_one c) = Key c" "ExitTime (take_one c) = ExitTime c"
  by (simp_all add: take_one_def)

lemma set_tset: "(k', c') \<in> set (tset k c m) \<Longrightarrow> (k', c') = (k, c) \<or> (k', c') \<in> set m"
  unfolding tset_def by (induction m) (auto split: if_splits)

lemma tracker_ok_tset: "tracker_ok m \<Longrightarrow> Key c = k \<Longrightarrow> tracker_ok (tset k c m)"
  unfolding tracker_ok_def list_all_iff by (auto dest: set_tset)

lemma in_set_terase: "(k', c) \<in> set (terase k m) \<Longrightarrow> (k', c) \<in> set m"
  unfolding terase_def by (induction m) (auto split: if_splits)

lemma tracker_ok_terase: "tracker_ok m \<Longrightarrow> tracker_ok (terase k m)"
  by (auto simp: tracker_ok_def list_all_iff dest: in_set_terase)

lemma tracker_ok_Nil [simp]: "tracker_ok []"
  by (simp add: tracker_ok_def table_ok_def)

lemma tracker_ok_Cons:
  "tracker_ok ((k, c) # m) \<longleftrightarrow> Key c = k \<and> k \<notin> tkeys m \<and> tracker_ok m"
  by (auto simp: tracker_ok_def table_ok_def tkeys_def)

lemma TakeExited_Cons:
  "TakeExited now ((k, c) # m) =
     ((if due c then [take_one c] else []) @ fst (TakeExited now m),
      (if expired now c then [] else [(k, take_one c)]) @ snd (TakeExited now m))"
  by (simp add: TakeExited_def expired_def)

lemma tkeys_TakeExited: "tkeys (snd (TakeExited now m)) \<subseteq> tkeys m"
  by (force simp: TakeExited_def tkeys_def)

lemma tracker_ok_TakeExited: "tracker_ok m \<Longrightarrow> tracker_ok (snd (TakeExited now m))"
proof (induction m)
  case Nil then show ?case by (simp add: TakeExited_def)
next
  case (Cons e m)
  obtain k c where e: "e = (k, c)" by (cases e)
  show ?case using Cons tkeys_TakeExited [of now m]
    by (auto simp: e TakeExited_Cons tracker_ok_Cons)
qed

lemma tfind_Cons: "tfind ((k, c) # m) k' = (if k' = k then Some c else tfind m k')"
  by (simp add: tfind_def)

lemma owed_none: "k \<notin> tkeys m \<Longrightarrow> owed k m = 0"
  by (simp add: owed_def tkeys_none)

lemma owed_Cons: "owed k' ((k, c) # m) = (if k' = k then (if Started c \<and> \<not> Taken c then 1 else 0) else owed k' m)"
  by (simp add: owed_def tfind_Cons)

lemma reports_none: "tracker_ok m \<Longrightarrow> k \<notin> tkeys m \<Longrightarrow> reports k (fst (TakeExited now m)) = 0"
  by (induction m)
     (auto simp: TakeExited_Cons tracker_ok_Cons reports_def tkeys_def TakeExited_def[of _ "[]"])

lemma TakeExited_pays:
  "tracker_ok m \<Longrightarrow> reports k (fst (TakeExited now m)) + owed k (snd (TakeExited now m)) \<le> owed k m"
proof (induction m)
  case Nil then show ?case by (simp add: TakeExited_def owed_def)
next
  case (Cons e m)
  obtain k' c where e: "e = (k', c)" by (cases e)
  have ok: "tracker_ok m" "Key c = k'" "k' \<notin> tkeys m" using Cons.prems by (auto simp: e tracker_ok_Cons)
  show ?case
  proof (cases "k = k'")
    case True
    have none: "k \<notin> tkeys (snd (TakeExited now m))" using ok(3) tkeys_TakeExited [of now m] True by blast
    show ?thesis using reports_none [OF ok(1), of k now] owed_none [OF none] ok True
      by (auto simp: e TakeExited_Cons owed_Cons reports_def take_one_def due_def)
  next
    case False
    have "reports k [take_one c] = 0" using ok False by (simp add: reports_def)
    then show ?thesis using Cons.IH [OF ok(1)] False
      by (simp add: e TakeExited_Cons owed_Cons)
  qed
qed

lemma on_stop_ok: "tracker_ok m \<Longrightarrow> tracker_ok (on_stop r m)"
  by (auto simp: on_stop_def Let_def Key_def split: option.split intro!: tracker_ok_tset)

lemma on_stop_owed: "owed k (on_stop r m) = owed k m"
  by (auto simp: on_stop_def owed_def the_creation_def Let_def split: option.split)

lemma on_start_ok: "tracker_ok m \<Longrightarrow> tracker_ok (on_start ps r m)"
  by (auto simp: on_start_def Let_def split: option.split intro!: tracker_ok_tset)

lemma on_start_owed: "owed k (on_start ps r m) \<le> owed k m + (if map_option Key (Parse (EventId r) (EventVersion r) (UserData r)) = Some k then 1 else 0)"
  by (auto simp: on_start_def owed_def Let_def split: option.split)

lemma creation_event_ok: "tracker_ok m \<Longrightarrow> tracker_ok (OnEvent ps r m)"
  by (simp add: OnEvent_def on_stop_ok on_start_ok)

lemma OnEvent_owed: "owed k (OnEvent ps r m) \<le> owed k m + (if start_of k r then 1 else 0)"
  using on_start_owed [of k ps r m] by (auto simp: OnEvent_def on_stop_owed start_of_def split: if_splits)

lemma do_call_ok: "tracker_ok m \<Longrightarrow> tracker_ok (snd (do_call c m))"
  by (cases c) (simp_all add: creation_event_ok Remove_def tracker_ok_terase tracker_ok_TakeExited)

lemma do_call_owed:
  assumes "tracker_ok m"
  shows "reports k (fst (do_call c m)) + owed k (snd (do_call c m)) \<le> owed k m + starts k [c]"
proof (cases c)
  case (Event ps r)
  then show ?thesis using OnEvent_owed [of k ps r m] by simp
next
  case (RemoveKey k')
  then show ?thesis by (simp add: Remove_def owed_def split: option.split)
next
  case (Take now)
  then show ?thesis using TakeExited_pays [OF assms, of k now] by simp
qed (simp add: owed_def)

lemma starts_Cons: "starts k (c # cs) = starts k [c] + starts k cs"
  by (cases c) simp_all

lemma run_calls_owed:
  "tracker_ok m \<Longrightarrow> reports k (fst (run_calls cs m)) + owed k (snd (run_calls cs m)) \<le> owed k m + starts k cs"
proof (induction cs arbitrary: m)
  case (Cons c cs)
  have "reports k (fst (run_calls cs (snd (do_call c m)))) + owed k (snd (run_calls cs (snd (do_call c m))))
      \<le> owed k (snd (do_call c m)) + starts k cs"
    using Cons.IH [OF do_call_ok [OF Cons.prems]] .
  then show ?case using do_call_owed [OF Cons.prems, of k c] starts_Cons [of k c cs]
    by (simp add: split_beta Let_def)
qed simp

text \<open>C22: over any calls on a tracker (events, in any order, removals, exits taken, the session stopped), from the empty one,
  a process's exit is reported at most as often as its start was seen: one that was seen once is in the results of
  TakeExited at most once.\<close>

theorem exits_once: "reports k (fst (run_calls cs [])) \<le> starts k cs"
  using run_calls_owed [of "[]" k cs] by (simp add: owed_def)

text \<open>A stop's fields.\<close>

definition stop_of :: "creation_key \<Rightarrow> u64 \<Rightarrow> EventRecord \<Rightarrow> bool" where
  "stop_of k exited r \<longleftrightarrow>
     Provider r = KernelProcessProvider \<and> EventId r = ProcessStopId \<and> get_time r ''CreateTime'' = Some (fst k) \<and>
     get_u32 r ''ProcessID'' = Some (snd k) \<and> get_time r ''ExitTime'' = Some exited"

lemma start_not_stop: "start_of k r \<Longrightarrow> EventId r = ProcessStartId"
  using Parse_fields by (auto simp: start_of_def)

lemma OnEvent_stop:
  assumes "stop_of k exited r"
  shows "\<exists>c. tfind (OnEvent ps r m) k = Some c \<and> ExitTime c = exited \<and> ExitCode c = get_u32 r ''ExitCode'' \<and> Key c = k \<and>
    Started c = Started (the_creation k m) \<and> Taken c = Taken (the_creation k m)"
  using assms by (cases k) (simp add: stop_of_def OnEvent_def on_stop_def Let_def Key_def)

lemma OnEvent_start:
  assumes "start_of k r"
  shows "\<exists>c. tfind (OnEvent ps r m) k = Some c \<and> ExitTime c = ExitTime (the_creation k m) \<and>
    ExitCode c = ExitCode (the_creation k m) \<and> Key c = k \<and> Started c \<and> \<not> Taken c"
proof -
  obtain c where c: "Parse (EventId r) (EventVersion r) (UserData r) = Some c" "Key c = k"
    using assms by (auto simp: start_of_def)
  have "EventId r \<noteq> ProcessStopId" using Parse_fields [OF c(1)] by (simp add: ProcessStartId_def ProcessStopId_def)
  then show ?thesis using assms c Parse_fields [OF c(1)]
    by (simp add: OnEvent_def on_start_def start_of_def Let_def)
qed

lemma TakeExited_due:
  assumes "tfind m k = Some c" "due c"
  shows "c\<lparr>Taken := True\<rparr> \<in> set (fst (TakeExited now m))"
proof -
  have "c \<in> set (filter due (map snd m))" using tfind_in_set [OF assms(1)] assms(2) by force
  then have "take_one c \<in> take_one ` set (filter due (map snd m))" by (rule imageI)
  then show ?thesis using assms(2) by (simp add: TakeExited_def take_one_def)
qed

lemma start_then_stop:
  assumes "start_of k r" "stop_of k exited s" "exited \<noteq> 0"
  shows "\<exists>c. tfind (OnEvent ps' s (OnEvent ps r m)) k = Some c \<and> due c \<and> Key c = k \<and> ExitTime c = exited \<and>
    ExitCode c = get_u32 s ''ExitCode''"
proof -
  obtain c where c: "tfind (OnEvent ps r m) k = Some c" "Started c" "\<not> Taken c" using OnEvent_start [OF assms(1)] by blast
  show ?thesis using OnEvent_stop [OF assms(2), of ps' "OnEvent ps r m"] c assms(3)
    by (auto simp: the_creation_def due_def)
qed

lemma stop_then_start:
  assumes "start_of k r" "stop_of k exited s" "exited \<noteq> 0"
  shows "\<exists>c. tfind (OnEvent ps r (OnEvent ps' s m)) k = Some c \<and> due c \<and> Key c = k \<and> ExitTime c = exited \<and>
    ExitCode c = get_u32 s ''ExitCode''"
proof -
  obtain c where c: "tfind (OnEvent ps' s m) k = Some c" "ExitTime c = exited" "ExitCode c = get_u32 s ''ExitCode''"
    using OnEvent_stop [OF assms(2)] by blast
  show ?thesis using OnEvent_start [OF assms(1), of ps "OnEvent ps' s m"] c assms(3)
    by (auto simp: the_creation_def due_def)
qed

text \<open>C23: a process whose start and stop were both seen is reported by the next call of TakeExited, with its exit's time and
  code, in whatever order the two events came and whatever the tracker had.\<close>

theorem short_process_reported:
  assumes "start_of k r" "stop_of k exited s" "exited \<noteq> 0"
    "events = [Event ps r, Event ps' s] \<or> events = [Event ps' s, Event ps r]"
  shows "\<exists>c\<in>set (fst (run_calls (events @ [Take now]) m)).
    Key c = k \<and> Started c \<and> ExitTime c = exited \<and> ExitCode c = get_u32 s ''ExitCode''"
proof -
  let ?m = "snd (run_calls events m)"
  have "\<exists>c. tfind ?m k = Some c \<and> due c \<and> Key c = k \<and> ExitTime c = exited \<and> ExitCode c = get_u32 s ''ExitCode''"
    using assms(4) start_then_stop [OF assms(1-3), of ps' ps m] stop_then_start [OF assms(1-3), of ps ps' m]
    by (elim disjE) (simp_all add: Let_def split_beta)
  then obtain c where c: "tfind ?m k = Some c" "due c" "Key c = k" "ExitTime c = exited" "ExitCode c = get_u32 s ''ExitCode''"
    by blast
  have out: "fst (run_calls (events @ [Take now]) m) = fst (TakeExited now ?m)"
    using assms(4) by (auto simp: Let_def split_beta)
  show ?thesis unfolding out using TakeExited_due [OF c(1,2), of now] c
    by (intro bexI [of _ "c\<lparr>Taken := True\<rparr>"]) (auto simp: due_def)
qed

definition a_start :: EventRecord where
  "a_start = \<lparr>Provider = KernelProcessProvider, EventId = 1, EventVersion = 2,
     UserData = Some ([7, 0, 0, 0] @ [5, 0, 0, 0, 0, 0, 0, 0] @ [4, 0, 0, 0]), HeaderPid = 4, HeaderTid = 9, Property = \<lambda>_. None\<rparr>"

definition a_stop :: EventRecord where
  "a_stop = \<lparr>Provider = KernelProcessProvider, EventId = 2, EventVersion = 2, UserData = None, HeaderPid = 7, HeaderTid = 9,
     Property = [wide ''ProcessID'' \<mapsto> [7, 0, 0, 0], wide ''CreateTime'' \<mapsto> [5, 0, 0, 0, 0, 0, 0, 0],
       wide ''ExitTime'' \<mapsto> [6, 0, 0, 0, 0, 0, 0, 0]]\<rparr>"

definition no_services :: Processes where
  "no_services = \<lparr>ServicePid = \<lambda>_. 0, ImageOf = \<lambda>_. None\<rparr>"

lemma a_start_starts: "start_of (5, 7) a_start"
  by code_simp

lemma a_stop_stops: "stop_of (5, 7) 6 a_stop"
  by code_simp

theorem short_process_reported_witness:
  "\<exists>c\<in>set (fst (run_calls ([Event no_services a_stop, Event no_services a_start] @ [Take 100]) [])).
    Key c = (5, 7) \<and> Started c \<and> ExitTime c = 6 \<and> ExitCode c = get_u32 a_stop ''ExitCode''"
  by (rule short_process_reported [OF a_start_starts a_stop_stops, of _ no_services no_services]) simp_all

text \<open>A start's payload, with the sequence number that version 3 added and without it; what follows does not matter.\<close>

definition start_payload :: "8 word \<Rightarrow> u32 \<Rightarrow> u64 \<Rightarrow> u64 \<Rightarrow> u32 \<Rightarrow> bytes \<Rightarrow> bytes" where
  "start_payload version pid sequence created parent rest =
     le_bytes 4 (unat pid) @ (if version \<ge> 3 then le_bytes 8 (unat sequence) else []) @ le_bytes 8 (unat created) @
     le_bytes 4 (unat parent) @ rest"

lemma u32_in_bytes: "v < 2 ^ 32 \<Longrightarrow> u32_at (pre @ le_bytes 4 v @ t) (length pre) = of_nat v"
  by (simp add: u32_at_def le_nat_le_bytes)

lemma Parse_written:
  "Parse ProcessStartId version (Some (start_payload version pid sequence created parent rest)) =
     Some (no_creation\<lparr>Pid := pid, CreateTime := created, ParentPid := parent\<rparr>)"
proof -
  let ?tail = "le_bytes 4 (unat parent) @ rest"
  have pid: "u32_at (le_bytes 4 (unat pid) @ t) 0 = pid" for t
    using u32_in_bytes [of "unat pid" "[]" t] unat_less_2p [of pid] by simp
  have created: "u64_at (pre @ le_bytes 8 (unat created) @ ?tail) (length pre) = created" for pre
    using u64_in_bytes [of "unat created"] unat_less_2p [of created] by simp
  have parent: "u32_at (pre @ le_bytes 4 (unat parent) @ rest) (length pre) = parent" for pre
    using u32_in_bytes [of "unat parent"] unat_less_2p [of parent] by simp
  show ?thesis
    using created [of "le_bytes 4 (unat pid)"] parent [of "le_bytes 4 (unat pid) @ le_bytes 8 (unat created)"]
      created [of "le_bytes 4 (unat pid) @ le_bytes 8 (unat sequence)"]
      parent [of "le_bytes 4 (unat pid) @ le_bytes 8 (unat sequence) @ le_bytes 8 (unat created)"]
    by (simp add: Parse_def start_payload_def pid Let_def)
qed

end
