(* ===== verification/Com_Servers.thy ===== *)
theory Com_Servers
  imports Process_Commands
begin

unbundle bit_operations_syntax

text \<open>
  What a COM server process serves (\<open>WinSys/Com.cpp\<close>, first part): the command line of a server, the index of the
  registered classes with its refresh, packaged servers and COM+ applications, and what is shown. The registry is a
  record of functions, the rest of the system the record \<open>World\<close>; the library's static state is \<open>ComState\<close>.
\<close>

section \<open>Text\<close>

text \<open>\<open>towupper\<close> and \<open>towlower\<close> in the C locale change the ASCII letters.\<close>

definition upper :: "16 word \<Rightarrow> 16 word" where
  "upper c = (if 0x61 \<le> c \<and> c \<le> 0x7A then c - 0x20 else c)"

definition Upper :: "wstr \<Rightarrow> wstr" where
  "Upper s = map upper s"

definition Lower :: "wstr \<Rightarrow> wstr" where
  "Lower s = map lower s"

text \<open>\<open>_wtoi\<close>: an \<open>int\<close>, the nearest one for a number that does not fit.\<close>

definition wtoi :: "wstr \<Rightarrow> u32" where
  "wtoi s =
     (let s = dropWhile iswspace s;
          minus = (s \<noteq> [] \<and> hd s = 0x2D);
          n = digits_from 10 (if s \<noteq> [] \<and> (hd s = 0x2D \<or> hd s = 0x2B) then tl s else s) 0
      in if minus then - of_nat (min n 0x80000000) else of_nat (min n 0x7FFFFFFF))"

section \<open>The registry\<close>

text \<open>
  Keys by root, path and view (the 32-bit one or not): whether one opens, its subkeys' names, its string values (expanded or
  not, with the NULs they are stored with; \<open>None\<close> names the default value) and numbers.
\<close>

datatype Root = ClassesRoot | LocalMachine | CurrentUser

type_synonym key = "Root \<times> wstr \<times> bool"

record Registry =
  Opens :: "key \<Rightarrow> bool"
  KeysOf :: "key \<Rightarrow> wstr list"
  TextOf :: "key \<Rightarrow> wstr option \<Rightarrow> bool \<Rightarrow> wstr option"
  DwordOf :: "key \<Rightarrow> wstr \<Rightarrow> u32 option"

definition sub :: "key \<Rightarrow> wstr \<Rightarrow> key" where
  "sub k name = (case k of (root, path, view) \<Rightarrow> (root, path @ 0x5C # name, view))"

definition rstrip :: "wstr \<Rightarrow> wstr" where
  "rstrip s = rev (dropWhile iswspace (rev s))"

definition ReadText :: "Registry \<Rightarrow> key \<Rightarrow> wstr option \<Rightarrow> bool \<Rightarrow> wstr" where
  "ReadText reg k v noexpand = (case TextOf reg k v noexpand of None \<Rightarrow> [] | Some s \<Rightarrow> rstrip (until_nul (length s) s))"

definition ReadString :: "Registry \<Rightarrow> key \<Rightarrow> wstr option \<Rightarrow> wstr" where
  "ReadString reg k v = ReadText reg k v False"

definition ReadDword :: "Registry \<Rightarrow> key \<Rightarrow> wstr \<Rightarrow> u32 \<Rightarrow> u32" where
  "ReadDword reg k v fallback = (case DwordOf reg k v of None \<Rightarrow> fallback | Some d \<Rightarrow> d)"

text \<open>Names that do not fit into the buffer are passed over.\<close>

definition names_below :: "nat \<Rightarrow> Registry \<Rightarrow> key \<Rightarrow> wstr list" where
  "names_below n reg k = filter (\<lambda>name. length name < n) (KeysOf reg k)"

definition SubKeys :: "Registry \<Rightarrow> key \<Rightarrow> wstr list" where
  "SubKeys reg k = names_below 256 reg k"

section \<open>Command lines of servers\<close>

text \<open>A switch starts with \<open>-\<close> or \<open>/\<close> behind a space, a quote or nothing; the position behind its name.\<close>

definition switch_at :: "wstr \<Rightarrow> nat \<Rightarrow> bool" where
  "switch_at s i \<longleftrightarrow>
     i > 0 \<and> (s ! (i - 1) = 0x2D \<or> s ! (i - 1) = 0x2F) \<and> (i = 1 \<or> s ! (i - 2) = 0x20 \<or> s ! (i - 2) = 0x22)"

definition FindSwitch :: "wstr \<Rightarrow> wstr \<Rightarrow> nat option" where
  "FindSwitch s name = map_option (\<lambda>i. i + length name) (find (switch_at s) (occurrences name s 0))"

definition HasSwitch :: "wstr \<Rightarrow> wstr \<Rightarrow> bool" where
  "HasSwitch s name =
     (case FindSwitch s name of None \<Rightarrow> False | Some e \<Rightarrow> e = length s \<or> s ! e = 0x20 \<or> s ! e = 0x22)"

definition GuidAt :: "wstr \<Rightarrow> nat \<Rightarrow> wstr" where
  "GuidAt s i =
     (if i \<ge> length s \<or> s ! i \<noteq> 0x7B then []
      else (case find_char 0x7D s i of None \<Rightarrow> [] | Some e \<Rightarrow> if e - i \<noteq> 37 then [] else Upper (substr s i 38)))"

datatype ComServerKind = NoServer | Surrogate | LocalServer | WinRtServer

definition guid_switch :: "wstr \<Rightarrow> string \<Rightarrow> wstr" where
  "guid_switch s name = (case FindSwitch (Lower s) (wide name) of None \<Rightarrow> [] | Some i \<Rightarrow> GuidAt s i)"

definition name_switch :: "wstr \<Rightarrow> wstr" where
  "name_switch s =
     (case FindSwitch (Lower s) (wide ''servername:'') of
        None \<Rightarrow> []
      | Some i \<Rightarrow> (case find_first (\<lambda>c. c = 0x20 \<or> c = 0x22) s i of None \<Rightarrow> drop i s | Some e \<Rightarrow> substr s i (e - i)))"

definition ParseCommandLine :: "wstr \<Rightarrow> ComServerKind \<times> wstr" where
  "ParseCommandLine s =
     (if guid_switch s ''processid:'' \<noteq> [] then (Surrogate, guid_switch s ''processid:'')
      else if name_switch s \<noteq> [] then (WinRtServer, name_switch s)
      else if guid_switch s ''factory,'' \<noteq> [] then (LocalServer, guid_switch s ''factory,'')
      else if HasSwitch (Lower s) (wide ''embedding'') \<or> HasSwitch (Lower s) (wide ''automation'') then (LocalServer, [])
      else (NoServer, []))"

text \<open>The executable in a value: \<open>expand\<close> is \<open>ExpandEnvironmentStrings\<close>, when the result fits.\<close>

definition ServerPath :: "(wstr \<Rightarrow> wstr option) \<Rightarrow> wstr \<Rightarrow> wstr" where
  "ServerPath expand v =
     (let v = dropWhile (\<lambda>c. c = 0x20) v;
          path = (if v \<noteq> [] \<and> hd v = 0x22 then
                    (case find_char 0x22 v 1 of None \<Rightarrow> drop 1 v | Some e \<Rightarrow> substr v 1 (e - 1))
                  else (case find_str (wide ''.exe'') (Lower v) 0 of
                          Some i \<Rightarrow> take (i + 4) v
                        | None \<Rightarrow> (case find_char 0x20 v 0 of None \<Rightarrow> v | Some i \<Rightarrow> take i v)))
      in if 0x25 \<in> set path then (case expand path of None \<Rightarrow> path | Some p \<Rightarrow> p) else path)"

section \<open>The index of the classes\<close>

record ClassEntry =
  Clsid :: wstr
  e_Name :: wstr
  e_AppId :: wstr
  InprocServer :: wstr

record ClassIndex =
  Built :: bool
  Tick :: u64
  ClassList :: "ClassEntry list"
  ByAppId :: "(wstr, nat list) table"
  ByLocalServer :: "(wstr, nat list) table"

definition no_index :: ClassIndex where
  "no_index = \<lparr>Built = False, Tick = 0, ClassList = [], ByAppId = [], ByLocalServer = []\<rparr>"

definition IndexRefresh :: u64 where
  "IndexRefresh = 5 * 60 * 1000"

text \<open>The world: the registry, expanding, resolving indirect names, COM+'s catalog, the clock.\<close>

record World =
  Reg :: Registry
  ExpandText :: "wstr \<Rightarrow> wstr option"
  LoadIndirect :: "wstr \<Rightarrow> wstr option"
  Catalog :: "(wstr \<times> wstr) list"
  Now :: u64

text \<open>\<open>index[key].push_back(at)\<close>\<close>

definition push :: "'k \<Rightarrow> 'v \<Rightarrow> ('k, 'v list) table \<Rightarrow> ('k, 'v list) table" where
  "push k v m = tset k ((case tfind m k of None \<Rightarrow> [] | Some vs \<Rightarrow> vs) @ [v]) m"

text \<open>A class of the index and its local server's path, if the key opens and has an app ID or a local server.\<close>

definition class_of_key :: "World \<Rightarrow> key \<Rightarrow> wstr \<Rightarrow> (ClassEntry \<times> wstr) option" where
  "class_of_key w clsid name =
     (let k = sub clsid name;
          appId = ReadString (Reg w) k (Some (wide ''AppID''));
          local = ReadString (Reg w) (sub k (wide ''LocalServer32'')) None
      in if \<not> Opens (Reg w) k \<or> appId = [] \<and> local = [] then None
         else Some (\<lparr>Clsid = name, e_Name = ReadString (Reg w) k None, e_AppId = Upper appId,
                     InprocServer = (if appId = [] then [] else ReadString (Reg w) (sub k (wide ''InprocServer32'')) None)\<rparr>,
                    ServerPath (ExpandText w) local))"

definition add_class :: "ClassIndex \<Rightarrow> ClassEntry \<times> wstr \<Rightarrow> ClassIndex" where
  "add_class index c =
     (let (entry, path) = c; at = length (ClassList index)
      in index\<lparr>ByAppId := (if e_AppId entry \<noteq> [] then push (e_AppId entry) at (ByAppId index) else ByAppId index),
               ByLocalServer := (if path \<noteq> [] then push (Lower path) at (ByLocalServer index) else ByLocalServer index),
               ClassList := ClassList index @ [entry]\<rparr>)"

definition clsid_key :: "bool \<Rightarrow> key" where
  "clsid_key wow64 = (ClassesRoot, wide ''CLSID'', wow64)"

definition registered :: "World \<Rightarrow> bool \<Rightarrow> (ClassEntry \<times> wstr) list" where
  "registered w wow64 =
     (if \<not> Opens (Reg w) (clsid_key wow64) then []
      else List.map_filter (class_of_key w (clsid_key wow64)) (names_below 128 (Reg w) (clsid_key wow64)))"

definition BuildIndex :: "World \<Rightarrow> bool \<Rightarrow> ClassIndex" where
  "BuildIndex w wow64 = foldl add_class (no_index\<lparr>Built := True, Tick := Now w\<rparr>) (registered w wow64)"

text \<open>The library's state: the index of each view, and COM+'s applications once they were read.\<close>

record ComState =
  Index64 :: ClassIndex
  Index32 :: ClassIndex
  ComPlus :: "(wstr, wstr) table option"

definition index_of :: "ComState \<Rightarrow> bool \<Rightarrow> ClassIndex" where
  "index_of s wow64 = (if wow64 then Index32 s else Index64 s)"

definition set_index :: "ComState \<Rightarrow> bool \<Rightarrow> ClassIndex \<Rightarrow> ComState" where
  "set_index s wow64 i = (if wow64 then s\<lparr>Index32 := i\<rparr> else s\<lparr>Index64 := i\<rparr>)"

definition GetIndex :: "World \<Rightarrow> bool \<Rightarrow> bool \<Rightarrow> ComState \<Rightarrow> ClassIndex \<times> ComState" where
  "GetIndex w wow64 missed s =
     (let index = index_of s wow64
      in if \<not> Built index \<or> missed \<and> Now w - Tick index > IndexRefresh
         then (let fresh = BuildIndex w wow64 in (fresh, set_index s wow64 fresh))
         else (index, s))"

definition lookup :: "(ClassIndex \<Rightarrow> (wstr, nat list) table) \<Rightarrow> wstr \<Rightarrow> ClassIndex \<Rightarrow> ClassEntry list option" where
  "lookup tab k index = map_option (map (\<lambda>i. ClassList index ! i)) (tfind (tab index) k)"

definition FindClasses :: "World \<Rightarrow> bool \<Rightarrow> (ClassIndex \<Rightarrow> (wstr, nat list) table) \<Rightarrow> wstr \<Rightarrow> ComState \<Rightarrow> ClassEntry list \<times> ComState" where
  "FindClasses w wow64 tab k s =
     (let (index, s) = GetIndex w wow64 False s
      in case lookup tab k index of
           Some classes \<Rightarrow> (classes, s)
         | None \<Rightarrow>
             (let (index, s) = GetIndex w wow64 True s
              in case lookup tab k index of Some classes \<Rightarrow> (classes, s) | None \<Rightarrow> ([], s)))"

definition GetIndexedClasses :: "World \<Rightarrow> ComState \<Rightarrow> nat \<times> ComState" where
  "GetIndexedClasses w s = (let (index, s) = GetIndex w False False s in (length (ClassList index), s))"

section \<open>The index is the registry's classes\<close>

lemma tfind_after_set: "tfind (tset k v m) k' = (if k' = k then Some v else tfind m k')"
  by (simp add: table_defs update_conv')

lemma tfind_push: "tfind (push k v m) k' = (if k' = k then Some ((case tfind m k of None \<Rightarrow> [] | Some vs \<Rightarrow> vs) @ [v]) else tfind m k')"
  by (simp add: push_def tfind_after_set)

text \<open>The classes under a key, for each of the two tables: those with the app ID, those whose local server is the file.\<close>

definition has_app_id :: "wstr \<Rightarrow> ClassEntry \<times> wstr \<Rightarrow> bool" where
  "has_app_id k c \<longleftrightarrow> e_AppId (fst c) \<noteq> [] \<and> e_AppId (fst c) = k"

definition has_local_server :: "wstr \<Rightarrow> ClassEntry \<times> wstr \<Rightarrow> bool" where
  "has_local_server k c \<longleftrightarrow> snd c \<noteq> [] \<and> Lower (snd c) = k"

definition indexed :: "(ClassEntry \<times> wstr) list \<Rightarrow> (ClassEntry \<times> wstr \<Rightarrow> bool) \<Rightarrow> ClassEntry list option" where
  "indexed cs P = (if filter P cs = [] then None else Some (map fst (filter P cs)))"

definition index_ok :: "(ClassEntry \<times> wstr) list \<Rightarrow> ClassIndex \<Rightarrow> bool" where
  "index_ok cs index \<longleftrightarrow> ClassList index = map fst cs \<and>
     (\<forall>k. lookup ByAppId k index = indexed cs (has_app_id k) \<and> lookup ByLocalServer k index = indexed cs (has_local_server k)) \<and>
     (\<forall>k is. tfind (ByAppId index) k = Some is \<or> tfind (ByLocalServer index) k = Some is \<longrightarrow> (\<forall>i \<in> set is. i < length cs))"

lemma indexed_snoc:
  "indexed (cs @ [c]) P = (if P c then Some ((case indexed cs P of None \<Rightarrow> [] | Some v \<Rightarrow> v) @ [fst c]) else indexed cs P)"
  by (simp add: indexed_def)

lemma lookup_push:
  assumes "\<forall>is. tfind t k = Some is \<longrightarrow> (\<forall>i \<in> set is. i < length xs)"
  shows "map_option (map ((!) (xs @ [x]))) (tfind (if on then push k' (length xs) t else t) k) =
    (if on \<and> k' = k then Some ((case map_option (map ((!) xs)) (tfind t k) of None \<Rightarrow> [] | Some v \<Rightarrow> v) @ [x])
     else map_option (map ((!) xs)) (tfind t k))"
proof (cases "tfind t k")
  case (Some js)
  then have "map ((!) (xs @ [x])) js = map ((!) xs) js" using assms by (auto simp: nth_append)
  then show ?thesis using Some by (simp add: tfind_push)
qed (simp add: tfind_push)

lemma index_ok_add:
  assumes ok: "index_ok cs index"
  shows "index_ok (cs @ [c]) (add_class index c)"
proof -
  obtain entry path where c: "c = (entry, path)" by (cases c)
  have list: "ClassList index = map fst cs" using ok by (simp add: index_ok_def)
  have bound: "i < length cs" if "tfind (ByAppId index) k = Some is \<or> tfind (ByLocalServer index) k = Some is" "i \<in> set is" for k "is" i
    using ok that by (auto simp: index_ok_def)
  have app: "lookup ByAppId k (add_class index c) = indexed (cs @ [c]) (has_app_id k)" for k
  proof -
    have old: "map_option (map ((!) (map fst cs))) (tfind (ByAppId index) k) = indexed cs (has_app_id k)"
      using ok unfolding index_ok_def lookup_def by metis
    have b: "\<forall>is. tfind (ByAppId index) k = Some is \<longrightarrow> (\<forall>i \<in> set is. i < length (map fst cs))" using bound by auto
    have "lookup ByAppId k (add_class index c) =
        map_option (map ((!) (map fst cs @ [entry]))) (tfind (if e_AppId entry \<noteq> [] then push (e_AppId entry) (length (map fst cs)) (ByAppId index) else ByAppId index) k)"
      by (simp add: lookup_def add_class_def c list Let_def)
    also have "\<dots> = indexed (cs @ [c]) (has_app_id k)"
      unfolding lookup_push [OF b] old indexed_snoc by (simp add: has_app_id_def c)
    finally show ?thesis .
  qed
  have local: "lookup ByLocalServer k (add_class index c) = indexed (cs @ [c]) (has_local_server k)" for k
  proof -
    have old: "map_option (map ((!) (map fst cs))) (tfind (ByLocalServer index) k) = indexed cs (has_local_server k)"
      using ok unfolding index_ok_def lookup_def by metis
    have b: "\<forall>is. tfind (ByLocalServer index) k = Some is \<longrightarrow> (\<forall>i \<in> set is. i < length (map fst cs))" using bound by auto
    have "lookup ByLocalServer k (add_class index c) =
        map_option (map ((!) (map fst cs @ [entry]))) (tfind (if path \<noteq> [] then push (Lower path) (length (map fst cs)) (ByLocalServer index) else ByLocalServer index) k)"
      by (simp add: lookup_def add_class_def c list Let_def)
    also have "\<dots> = indexed (cs @ [c]) (has_local_server k)"
      unfolding lookup_push [OF b] old indexed_snoc by (simp add: has_local_server_def c)
    finally show ?thesis .
  qed
  have inside: "i < length (cs @ [c])" if "tfind (ByAppId (add_class index c)) k = Some is \<or> tfind (ByLocalServer (add_class index c)) k = Some is" "i \<in> set is" for k "is" i
    using that bound list
    by (fastforce simp: add_class_def c tfind_push Let_def less_Suc_eq split: option.splits if_splits)
  have "ClassList (add_class index c) = map fst (cs @ [c])" by (simp add: add_class_def c Let_def list)
  then show ?thesis unfolding index_ok_def using app local inside by blast
qed

lemma index_ok_fold: "index_ok cs index \<Longrightarrow> index_ok (cs @ ds) (foldl add_class index ds)"
proof (induction ds arbitrary: cs index)
  case (Cons d ds)
  from Cons.IH [OF index_ok_add [OF Cons.prems, of d]] show ?case by simp
qed simp

lemma add_class_tick [simp]: "Tick (add_class index c) = Tick index" "Built (add_class index c) = Built index"
  by (auto simp: add_class_def Let_def split: prod.splits)

lemma BuildIndex_fields [simp]: "Tick (BuildIndex w wow64) = Now w" "Built (BuildIndex w wow64)"
proof -
  have "Tick (foldl add_class i cs) = Tick i \<and> Built (foldl add_class i cs) = Built i" for i cs
    by (induction cs arbitrary: i) simp_all
  then show "Tick (BuildIndex w wow64) = Now w" "Built (BuildIndex w wow64)"
    by (simp_all add: BuildIndex_def)
qed

lemma BuildIndex_ok: "index_ok (registered w wow64) (BuildIndex w wow64)"
proof -
  have "index_ok [] (no_index\<lparr>Built := True, Tick := Now w\<rparr>)"
    by (simp add: index_ok_def no_index_def lookup_def indexed_def tfind_def)
  from index_ok_fold [OF this, of "registered w wow64"] show ?thesis by (simp add: BuildIndex_def)
qed

text \<open>The index of a view is not built, or was built from the registry as it was at some time.\<close>

definition built_from :: "World option \<Rightarrow> bool \<Rightarrow> ComState \<Rightarrow> bool" where
  "built_from origin wow64 s \<longleftrightarrow>
     (case origin of None \<Rightarrow> \<not> Built (index_of s wow64) | Some w0 \<Rightarrow> index_of s wow64 = BuildIndex w0 wow64)"

lemma index_of_set_index [simp]: "index_of (set_index s v i) v' = (if v' = v then i else index_of s v')"
  by (auto simp: index_of_def set_index_def)

definition classes_of :: "World \<Rightarrow> bool \<Rightarrow> (ClassEntry \<times> wstr \<Rightarrow> bool) \<Rightarrow> ClassEntry list" where
  "classes_of w wow64 P = map fst (filter P (registered w wow64))"

text \<open>Where a lookup's answer comes from: the index there is, or a new one when it is too old and has nothing.\<close>

definition answer_world :: "World \<Rightarrow> World option \<Rightarrow> bool \<Rightarrow> (ClassEntry \<times> wstr \<Rightarrow> bool) \<Rightarrow> World" where
  "answer_world w origin wow64 P =
     (case origin of
        None \<Rightarrow> w
      | Some w0 \<Rightarrow> if classes_of w0 wow64 P = [] \<and> Now w - Now w0 > IndexRefresh then w else w0)"

lemma FindClasses_found:
  assumes origin: "built_from origin wow64 s" and tab: "\<And>w. lookup tab k (BuildIndex w wow64) = indexed (registered w wow64) P"
  shows "fst (FindClasses w wow64 tab k s) = classes_of (answer_world w origin wow64 P) wow64 P \<and>
         built_from (Some (answer_world w origin wow64 P)) wow64 (snd (FindClasses w wow64 tab k s))"
proof (cases origin)
  case None
  then have "\<not> Built (index_of s wow64)" using origin by (simp add: built_from_def)
  then show ?thesis using None
    by (auto simp: FindClasses_def GetIndex_def Let_def tab indexed_def classes_of_def answer_world_def built_from_def filter_empty_conv split: option.splits)
next
  case (Some w0)
  then have "index_of s wow64 = BuildIndex w0 wow64" using origin by (simp add: built_from_def)
  then show ?thesis using Some
    by (auto simp: FindClasses_def GetIndex_def Let_def tab indexed_def classes_of_def answer_world_def built_from_def filter_empty_conv split: option.splits)
qed

text \<open>C16: looking classes up by app ID or by server file is a search of the registry: it gives the classes of the view that have
  the ID (or run the file), in the registry's order and no others, as they were when the index was built; the index is
  built for the first lookup, and again when a lookup finds nothing in one that is more than five minutes old, so a server
  registered since is found then.\<close>

theorem FindClasses_registered:
  assumes "built_from origin wow64 s"
  shows "fst (FindClasses w wow64 ByAppId k s) =
           classes_of (answer_world w origin wow64 (has_app_id k)) wow64 (has_app_id k) \<and>
         built_from (Some (answer_world w origin wow64 (has_app_id k))) wow64 (snd (FindClasses w wow64 ByAppId k s)) \<and>
         fst (FindClasses w wow64 ByLocalServer k s) =
           classes_of (answer_world w origin wow64 (has_local_server k)) wow64 (has_local_server k) \<and>
         built_from (Some (answer_world w origin wow64 (has_local_server k))) wow64 (snd (FindClasses w wow64 ByLocalServer k s))"
proof -
  have "lookup ByAppId k (BuildIndex w wow64) = indexed (registered w wow64) (has_app_id k)"
    and "lookup ByLocalServer k (BuildIndex w wow64) = indexed (registered w wow64) (has_local_server k)" for w
    using BuildIndex_ok [of w wow64] by (simp_all add: index_ok_def)
  then show ?thesis using FindClasses_found [OF assms] by blast
qed

definition no_state :: ComState where
  "no_state = \<lparr>Index64 = no_index, Index32 = no_index, ComPlus = None\<rparr>"

definition one_class :: World where
  "one_class =
     \<lparr>Reg = \<lparr>Opens = (\<lambda>_. True), KeysOf = (\<lambda>_. [wide ''{1}'']),
             TextOf = (\<lambda>k v noexpand. if v = Some (wide ''AppID'') then Some (wide ''{a}'') else None), DwordOf = (\<lambda>_ _. None)\<rparr>,
      ExpandText = Some, LoadIndirect = Some, Catalog = [], Now = 0\<rparr>"

lemma one_class_registered:
  "registered one_class v = [(\<lparr>Clsid = wide ''{1}'', e_Name = [], e_AppId = wide ''{A}'', InprocServer = []\<rparr>, [])]"
  by (simp add: registered_def clsid_key_def one_class_def names_below_def class_of_key_def ReadString_def ReadText_def
      rstrip_def until_nul_def not_nul_def iswspace_def ServerPath_def find_char_def find_str_def occurrences_def Lower_def
      Upper_def upper_def sub_def wide_def List.map_filter_simps Let_def)

theorem FindClasses_registered_witness:
  "fst (FindClasses one_class False ByAppId (wide ''{A}'') no_state) =
     [\<lparr>Clsid = wide ''{1}'', e_Name = [], e_AppId = wide ''{A}'', InprocServer = []\<rparr>]"
proof -
  have "built_from None False no_state" by (simp add: built_from_def no_state_def index_of_def no_index_def)
  from FindClasses_registered [OF this, of one_class "wide ''{A}''"] show ?thesis
    by (simp add: answer_world_def classes_of_def one_class_registered has_app_id_def)
qed

section \<open>Identifying a server\<close>

datatype ComRegistration = Unregistered | Classic | Packaged | ComPlusApp

record ComServerInfo =
  Kind :: ComServerKind
  Registration :: ComRegistration
  Id :: wstr
  s_Name :: wstr
  ServerDll :: wstr
  s_Package :: wstr
  Classes :: u32

definition no_info :: ComServerInfo where
  "no_info = \<lparr>Kind = NoServer, Registration = Unregistered, Id = [], s_Name = [], ServerDll = [], s_Package = [], Classes = 0\<rparr>"

definition ResolveIndirect :: "World \<Rightarrow> wstr \<Rightarrow> wstr" where
  "ResolveIndirect w text =
     (if text = [] \<or> hd text \<noteq> 0x40 then text else (case LoadIndirect w text of None \<Rightarrow> [] | Some t \<Rightarrow> t))"

definition key_of_class :: "string \<Rightarrow> wstr \<Rightarrow> bool \<Rightarrow> key" where
  "key_of_class folder name view = (ClassesRoot, wide_path folder @ name, view)"

text \<open>The name of a package up to its first underscore.\<close>

definition package_name :: "wstr \<Rightarrow> wstr" where
  "package_name p = (case find_char 0x5F p 0 of None \<Rightarrow> p | Some i \<Rightarrow> take i p)"

text \<open>
  A packaged surrogate. The first \<open>ServerId\<close> is read without a view (a 64-bit process's own); the server that names the
  surrogate is preferred; then its classes are counted, and the DLL is the first one's, or the last one with the ID.
\<close>

definition server_of_class :: "World \<Rightarrow> key \<Rightarrow> wstr \<Rightarrow> u32 \<Rightarrow> u32" where
  "server_of_class w servers clsid server =
     (case find (\<lambda>name. Upper (ReadString (Reg w) (sub servers name) (Some (wide ''SurrogateAppId''))) = clsid) (SubKeys (Reg w) servers) of
        None \<Rightarrow> server
      | Some name \<Rightarrow> wtoi name)"

definition add_packaged_class :: "World \<Rightarrow> key \<Rightarrow> u32 \<Rightarrow> ComServerInfo \<Rightarrow> wstr \<Rightarrow> ComServerInfo" where
  "add_packaged_class w classes server info name =
     (if ReadDword (Reg w) (sub classes name) (wide ''ServerId'') 0 \<noteq> server then info
      else (let dll = ReadString (Reg w) (sub classes name) (Some (wide ''DllPath''))
            in info\<lparr>Classes := Classes info + 1,
                    ServerDll := (if dll \<noteq> [] \<and> (ServerDll info = [] \<or> Upper name = Id info) then dll else ServerDll info)\<rparr>))"

definition FindPackaged :: "World \<Rightarrow> bool \<Rightarrow> ComServerInfo \<Rightarrow> ComServerInfo option" where
  "FindPackaged w wow64 info =
     (let index = key_of_class ''PackagedCom/ClassIndex/'' (Id info) wow64
      in if \<not> Opens (Reg w) index then None
         else (case SubKeys (Reg w) index of
                 [] \<Rightarrow> None
               | package # _ \<Rightarrow>
                   (let base = key_of_class ''PackagedCom/Package/'' package wow64;
                        info = info\<lparr>s_Package := package, Registration := Packaged\<rparr>;
                        server = ReadDword (Reg w) (sub (sub (key_of_class ''PackagedCom/Package/'' package False) (wide ''Class'')) (Id info)) (wide ''ServerId'') 0;
                        servers = sub base (wide ''Server'');
                        classes = sub base (wide ''Class'');
                        server' = (if Opens (Reg w) servers then server_of_class w servers (Id info) server else server);
                        info = (if Opens (Reg w) servers
                                then info\<lparr>s_Name := ResolveIndirect w (ReadString (Reg w) (sub servers (to_wstring (unat server'))) (Some (wide ''DisplayName'')))\<rparr>
                                else info);
                        info = (if Opens (Reg w) classes then foldl (add_packaged_class w classes server') info (SubKeys (Reg w) classes) else info)
                    in Some (if s_Name info = [] then info\<lparr>s_Name := package_name package\<rparr> else info))))"

text \<open>A packaged local server: the server of the process's package whose executable, relative to the package, ends the image's path.\<close>

definition runs_image :: "wstr \<Rightarrow> wstr \<Rightarrow> bool" where
  "runs_image executable img \<longleftrightarrow>
     executable \<noteq> [] \<and> length img > length executable \<and> drop (length img - length executable) img = executable \<and>
     img ! (length img - length executable - 1) = 0x5C"

definition first_nonempty :: "wstr list \<Rightarrow> wstr" where
  "first_nonempty xs = (case find (\<lambda>x. x \<noteq> []) xs of None \<Rightarrow> [] | Some x \<Rightarrow> x)"

definition FindPackagedServer :: "World \<Rightarrow> bool \<Rightarrow> wstr \<Rightarrow> wstr \<Rightarrow> ComServerInfo \<Rightarrow> ComServerInfo" where
  "FindPackagedServer w wow64 package imagePath info =
     (let base = key_of_class ''PackagedCom/Package/'' package wow64;
          servers = sub base (wide ''Server'');
          classes = sub base (wide ''Class'')
      in if \<not> Opens (Reg w) servers then info
         else (case find (\<lambda>name. runs_image (Lower (ReadString (Reg w) (sub servers name) (Some (wide ''Executable'')))) (Lower imagePath))
                     (SubKeys (Reg w) servers) of
                 None \<Rightarrow> info
               | Some name \<Rightarrow>
                   info\<lparr>Registration := Packaged, s_Package := package,
                        s_Name := first_nonempty
                          [ResolveIndirect w (ReadString (Reg w) (sub servers name) (Some (wide ''DisplayName''))),
                           ResolveIndirect w (ReadString (Reg w) (sub servers name) (Some (wide ''ApplicationDisplayName''))),
                           package_name package],
                        Classes := Classes info +
                          (if Opens (Reg w) classes
                           then of_nat (length (filter (\<lambda>clsid. ReadDword (Reg w) (sub classes clsid) (wide ''ServerId'') 0 = wtoi name)
                                  (SubKeys (Reg w) classes)))
                           else 0)\<rparr>))"

text \<open>The COM+ applications, read once; an application without an ID is left out.\<close>

definition LoadComPlus :: "World \<Rightarrow> ComState \<Rightarrow> ComState" where
  "LoadComPlus w s =
     (case ComPlus s of
        Some _ \<Rightarrow> s
      | None \<Rightarrow> s\<lparr>ComPlus := Some (foldl (\<lambda>m a. if Upper (fst a) \<noteq> [] then tset (Upper (fst a)) (snd a) m else m) [] (Catalog w))\<rparr>)"

text \<open>A surrogate: the app ID's name, then its classes, then a package, a class of that ID, a COM+ application.\<close>

definition from_classes :: "ClassEntry list \<Rightarrow> ComServerInfo \<Rightarrow> ComServerInfo" where
  "from_classes classes info =
     (if classes = [] then info
      else info\<lparr>Registration := Classic, Classes := of_nat (length classes),
                s_Name := first_nonempty (s_Name info # map e_Name classes @ [Clsid (hd classes)]),
                ServerDll := first_nonempty (ServerDll info # map InprocServer classes)\<rparr>)"

definition from_class_id :: "World \<Rightarrow> bool \<Rightarrow> ComServerInfo \<Rightarrow> ComServerInfo" where
  "from_class_id w wow64 info =
     (let k = key_of_class ''CLSID/'' (Id info) wow64;
          name = ReadString (Reg w) k None;
          dll = ReadString (Reg w) (sub k (wide ''InprocServer32'')) None;
          info = info\<lparr>s_Name := name, ServerDll := dll\<rparr>
      in if name \<noteq> [] \<or> dll \<noteq> [] then info\<lparr>Registration := Classic, Classes := 1\<rparr> else info)"

definition from_com_plus :: "World \<Rightarrow> ComServerInfo \<Rightarrow> ComState \<Rightarrow> ComServerInfo \<times> ComState" where
  "from_com_plus w info s =
     (let s = LoadComPlus w s
      in (case Option.bind (ComPlus s) (\<lambda>m. tfind m (Id info)) of
            None \<Rightarrow> info
          | Some name \<Rightarrow> info\<lparr>Registration := ComPlusApp, s_Name := name\<rparr>, s))"

definition identify_surrogate :: "World \<Rightarrow> bool \<Rightarrow> ComServerInfo \<Rightarrow> ComState \<Rightarrow> ComServerInfo \<times> ComState" where
  "identify_surrogate w wow64 info s =
     (let name = ResolveIndirect w (ReadString (Reg w) (key_of_class ''AppID/'' (Id info) wow64) None);
          info = info\<lparr>s_Name := name, Registration := (if name \<noteq> [] then Classic else Registration info)\<rparr>;
          (classes, s) = FindClasses w wow64 ByAppId (Id info) s;
          info = from_classes classes info
      in if Registration info \<noteq> Unregistered then (info, s)
         else (case FindPackaged w wow64 info of
                 Some info \<Rightarrow> (info, s)
               | None \<Rightarrow>
                   (let info = from_class_id w wow64 info
                    in if Registration info \<noteq> Unregistered then (info, s) else from_com_plus w info s)))"

text \<open>A local server: the class of a factory, else the classes whose server file is the image, named by the app ID they share.\<close>

definition local_name :: "World \<Rightarrow> bool \<Rightarrow> ClassEntry list \<Rightarrow> wstr" where
  "local_name w wow64 classes =
     (let appId = e_AppId (hd classes);
          shared = (if appId \<noteq> [] \<and> (\<forall>c \<in> set classes. e_AppId c = appId)
                    then ResolveIndirect w (ReadString (Reg w) (key_of_class ''AppID/'' appId wow64) None) else [])
      in if shared = [] \<and> length classes = 1 then e_Name (hd classes) else shared)"

definition identify_local :: "World \<Rightarrow> bool \<Rightarrow> wstr \<Rightarrow> wstr \<Rightarrow> ComServerInfo \<Rightarrow> ComState \<Rightarrow> ComServerInfo \<times> ComState" where
  "identify_local w wow64 imagePath package info s =
     (if Id info \<noteq> [] then
        (let name = ReadString (Reg w) (key_of_class ''CLSID/'' (Id info) wow64) None
         in (info\<lparr>s_Name := name, Registration := (if name = [] then Unregistered else Classic), Classes := 1\<rparr>, s))
      else (let (classes, s) = FindClasses w wow64 ByLocalServer (Lower imagePath) s
            in (if classes = [] then (if package \<noteq> [] then FindPackagedServer w wow64 package imagePath info else info)
                else info\<lparr>Registration := Classic, Classes := of_nat (length classes), s_Name := local_name w wow64 classes\<rparr>, s)))"

definition Identify :: "World \<Rightarrow> wstr \<Rightarrow> wstr \<Rightarrow> bool \<Rightarrow> wstr \<Rightarrow> ComState \<Rightarrow> ComServerInfo \<times> ComState" where
  "Identify w commandLine imagePath wow64 package s =
     (let (kind, n) = ParseCommandLine commandLine;
          info = no_info\<lparr>Kind := kind, Id := n\<rparr>
      in case kind of
           Surrogate \<Rightarrow> identify_surrogate w wow64 info s
         | LocalServer \<Rightarrow> identify_local w wow64 imagePath package info s
         | WinRtServer \<Rightarrow> (info\<lparr>s_Name := Id info\<rparr>, s)
         | NoServer \<Rightarrow> (info, s))"

definition Describe :: "ComServerInfo \<Rightarrow> wstr" where
  "Describe info =
     (let name = (if s_Name info = [] then Id info else s_Name info)
      in case Kind info of
           Surrogate \<Rightarrow> (if Registration info = ComPlusApp then wide ''COM+ Application: '' @ name else wide ''COM Surrogate: '' @ name)
         | LocalServer \<Rightarrow>
             (if s_Name info = [] then wide ''COM Server'' else wide ''COM Server: '' @ s_Name info) @
             (if Classes info > 1 then wide '' ('' @ to_wstring (unat (Classes info)) @ wide '' classes)'' else [])
         | WinRtServer \<Rightarrow> wide ''WinRT Server: '' @ s_Name info
         | NoServer \<Rightarrow> [])"

section \<open>What is identified\<close>

text \<open>The first position with a property among the occurrences.\<close>

lemma find_filter_upt:
  assumes "i < n" "P i" "Q i" "\<And>j. j < i \<Longrightarrow> Q j \<Longrightarrow> \<not> P j"
  shows "find P (filter Q [0..<n]) = Some i"
proof -
  have "[0..<n] = [0..<i] @ i # [i + 1..<n]" using assms(1) by (metis Suc_eq_plus1 less_imp_le_nat upt_add_eq_append upt_conv_Cons le0 add_0 le_add_diff_inverse)
  moreover have "find P (filter Q [0..<i]) = None" using assms(4) by (auto simp: find_None_iff)
  ultimately show ?thesis using assms(2,3) by (simp add: find_append)
qed

lemma length_Lower [simp]: "length (Lower s) = length s"
  by (simp add: Lower_def)

lemma Lower_nth: "i < length s \<Longrightarrow> Lower s ! i = lower (s ! i)"
  by (simp add: Lower_def)

lemma lower_minus_slash: "lower c = 0x2D \<longleftrightarrow> c = 0x2D" "lower c = 0x2F \<longleftrightarrow> c = 0x2F"
proof -
  have "c + 0x20 \<noteq> 0x2D \<and> c + 0x20 \<noteq> 0x2F" if "0x41 \<le> c" "c \<le> 0x5A" for c :: u16
    using that by uint_arith
  then show "lower c = 0x2D \<longleftrightarrow> c = 0x2D" "lower c = 0x2F \<longleftrightarrow> c = 0x2F"
    by (auto simp: lower_def)
qed

text \<open>A switch behind a program's name that has no dash or slash is found, in any case, whatever follows.\<close>

lemma FindSwitch_first:
  assumes exe: "0x2D \<notin> set exe" "0x2F \<notin> set exe" "exe \<noteq> []" and sw: "Lower sw = name" "name \<noteq> []" and mark: "mark = 0x2D \<or> mark = 0x2F"
  shows "FindSwitch (Lower (exe @ 0x20 # mark # sw @ rest)) name = Some (length exe + 2 + length name)"
proof -
  let ?s = "exe @ 0x20 # mark # sw @ rest" and ?i = "length exe + 2"
  have len: "length sw = length name" using sw(1) length_Lower by metis
  have occ: "take (length name) (drop ?i (Lower ?s)) = name" using sw(1) len by (simp add: Lower_def)
  have inside: "?i < length (Lower ?s) + 1 - length name" using sw(2) len by (cases name) auto
  have at: "Lower ?s ! (length exe + 1) = mark" "Lower ?s ! length exe = 0x20"
    using mark by (auto simp: Lower_nth nth_append lower_def)
  have here: "switch_at (Lower ?s) ?i" using at mark by (auto simp: switch_at_def)
  have none: "\<not> switch_at (Lower ?s) j" if "j < ?i" for j
  proof
    assume s: "switch_at (Lower ?s) j"
    then have "j > 0" "Lower ?s ! (j - 1) = 0x2D \<or> Lower ?s ! (j - 1) = 0x2F" by (auto simp: switch_at_def)
    moreover have "j - 1 < length ?s" using that by simp
    ultimately have c: "?s ! (j - 1) = 0x2D \<or> ?s ! (j - 1) = 0x2F" by (auto simp: Lower_nth lower_minus_slash)
    show False
    proof (cases "j - 1 < length exe")
      case True
      then have "?s ! (j - 1) \<in> set exe" by (simp add: nth_append)
      then show False using c exe by auto
    next
      case False
      then have "j - 1 = length exe" using that by linarith
      then show False using c by (auto simp: nth_append)
    qed
  qed
  have "find (switch_at (Lower ?s)) (occurrences name (Lower ?s) 0) = Some ?i"
    unfolding occurrences_def using inside here occ none by (intro find_filter_upt) auto
  then show ?thesis by (simp add: FindSwitch_def)
qed

definition guid_text :: "wstr \<Rightarrow> bool" where
  "guid_text g \<longleftrightarrow> (\<exists>x. g = 0x7B # x @ [0x7D] \<and> length x = 36 \<and> 0x7D \<notin> set x)"

lemma GuidAt_guid: "guid_text g \<Longrightarrow> length pre = i \<Longrightarrow> GuidAt (pre @ g @ rest) i = Upper g"
proof -
  assume "guid_text g" and len: "length pre = i"
  then obtain x where g: "g = 0x7B # x @ [0x7D]" "length x = 36" "0x7D \<notin> set x" by (auto simp: guid_text_def)
  have "find_char 0x7D (pre @ (0x7B # x) @ 0x7D # rest) i = Some (i + length (0x7B # x))"
    using g(3) len by (intro find_char_append) auto
  then show ?thesis using g(1,2) len by (simp add: GuidAt_def substr_def nth_append)
qed

text \<open>The command line of a surrogate names its app ID: behind a program's name without dashes and slashes, the switch in
  any case with a dash or a slash and a GUID in braces is found, whatever follows; the ID is the GUID in upper case.\<close>

theorem ParseCommandLine_surrogate:
  assumes "0x2D \<notin> set exe" "0x2F \<notin> set exe" "exe \<noteq> []" and "Lower sw = wide ''processid:''" and "mark = 0x2D \<or> mark = 0x2F" and "guid_text g"
  shows "ParseCommandLine (exe @ 0x20 # mark # sw @ g @ rest) = (Surrogate, Upper g)"
proof -
  have len: "length sw = length (wide ''processid:'')" using assms(4) length_Lower by metis
  have "FindSwitch (Lower (exe @ 0x20 # mark # sw @ g @ rest)) (wide ''processid:'') = Some (length (exe @ 0x20 # mark # sw))"
    using FindSwitch_first [OF assms(1-4) _ assms(5), of "g @ rest"] len by (simp add: wide_def)
  moreover have "GuidAt ((exe @ 0x20 # mark # sw) @ g @ rest) (length (exe @ 0x20 # mark # sw)) = Upper g"
    by (rule GuidAt_guid [OF assms(6) refl])
  ultimately have "guid_switch (exe @ 0x20 # mark # sw @ g @ rest) ''processid:'' = Upper g"
    by (simp add: guid_switch_def)
  moreover have "Upper g \<noteq> []" using assms(6) by (auto simp: guid_text_def Upper_def)
  ultimately show ?thesis by (simp add: ParseCommandLine_def)
qed

definition some_guid :: wstr where
  "some_guid = wide ''{'' @ replicate 36 0x61 @ wide ''}''"

theorem ParseCommandLine_surrogate_witness:
  "ParseCommandLine (wide ''dllhost.exe /Processid:'' @ some_guid) = (Surrogate, wide ''{'' @ replicate 36 0x41 @ wide ''}'')"
proof -
  have "guid_text some_guid" unfolding guid_text_def some_guid_def by (intro exI [of _ "replicate 36 0x61"]) (simp add: wide_def)
  moreover have "Lower (wide ''Processid:'') = wide ''processid:''" by (simp add: Lower_def lower_def wide_def)
  ultimately have "ParseCommandLine (wide ''dllhost.exe'' @ 0x20 # 0x2F # wide ''Processid:'' @ some_guid @ []) = (Surrogate, Upper some_guid)"
    by (intro ParseCommandLine_surrogate) (simp_all add: wide_def)
  moreover have "Upper some_guid = wide ''{'' @ replicate 36 0x41 @ wide ''}''"
    by (simp add: some_guid_def Upper_def upper_def wide_def)
  moreover have "wide ''dllhost.exe'' @ 0x20 # 0x2F # wide ''Processid:'' @ some_guid @ [] = wide ''dllhost.exe /Processid:'' @ some_guid"
    by (simp add: wide_def)
  ultimately show ?thesis by (simp only: )
qed

text \<open>Well-formed information.\<close>

definition info_ok :: "ComServerInfo \<Rightarrow> bool" where
  "info_ok info \<longleftrightarrow>
     (Kind info = NoServer \<longrightarrow> info = no_info) \<and>
     (Kind info = Surrogate \<longrightarrow> length (Id info) = 38) \<and>
     (Kind info = WinRtServer \<longrightarrow> Id info \<noteq> [] \<and> s_Name info = Id info \<and> Registration info = Unregistered) \<and>
     (Registration info = Unregistered \<longrightarrow> Kind info = WinRtServer \<or> s_Name info = [] \<and> ServerDll info = []) \<and>
     (Registration info = ComPlusApp \<longrightarrow> Kind info = Surrogate \<and> Classes info = 0 \<and> ServerDll info = []) \<and>
     (s_Package info \<noteq> [] \<longrightarrow> Registration info = Packaged)"

lemma GuidAt_length: "GuidAt s i \<noteq> [] \<Longrightarrow> length (GuidAt s i) = 38"
proof -
  assume "GuidAt s i \<noteq> []"
  then obtain e where e: "find_char 0x7D s i = Some e" "e - i = 37" "GuidAt s i = Upper (substr s i 38)"
    by (auto simp: GuidAt_def split: if_splits option.splits)
  have "e < length s" "i \<le> e" using find_char_bounds [OF e(1)] by simp_all
  then have "38 \<le> length s - i" using e(2) by linarith
  then show ?thesis using e(3) by (simp add: Upper_def substr_def)
qed

lemma ParseCommandLine_ids:
  assumes "ParseCommandLine s = (kind, n)"
  shows "(kind = NoServer \<longrightarrow> n = []) \<and> (kind = Surrogate \<longrightarrow> length n = 38) \<and> (kind = WinRtServer \<longrightarrow> n \<noteq> [])"
  using assms GuidAt_length
  by (auto simp: ParseCommandLine_def guid_switch_def split: if_splits option.splits)

lemma from_classes_fields:
  "Kind (from_classes cs info) = Kind info \<and> Id (from_classes cs info) = Id info \<and> s_Package (from_classes cs info) = s_Package info"
  by (simp add: from_classes_def)

lemma packaged_fields:
  assumes "FindPackaged w wow64 info = Some info'"
  shows "Kind info' = Kind info \<and> Id info' = Id info \<and> Registration info' = Packaged"
proof -
  have step: "Kind (foldl (add_packaged_class w c v) i ns) = Kind i \<and> Id (foldl (add_packaged_class w c v) i ns) = Id i \<and>
      Registration (foldl (add_packaged_class w c v) i ns) = Registration i" for c v i ns
    by (induction ns arbitrary: i) (simp_all add: add_packaged_class_def Let_def)
  show ?thesis using assms
    by (auto simp: FindPackaged_def Let_def step split: if_splits list.splits)
qed

text \<open>A surrogate on the way through the sources.\<close>

definition surrogate_info :: "ComServerInfo \<Rightarrow> bool" where
  "surrogate_info i \<longleftrightarrow> Kind i = Surrogate \<and> length (Id i) = 38 \<and> s_Package i = [] \<and> Registration i \<in> {Unregistered, Classic} \<and>
     (Registration i = Unregistered \<longrightarrow> Classes i = 0)"

lemma from_classes_surrogate: "surrogate_info i \<Longrightarrow> surrogate_info (from_classes cs i)"
  by (simp add: from_classes_def surrogate_info_def)

lemma classic_ok: "surrogate_info i \<Longrightarrow> Registration i \<noteq> Unregistered \<Longrightarrow> info_ok i"
  by (auto simp: surrogate_info_def info_ok_def)

lemma from_class_id_surrogate:
  assumes "surrogate_info i" and "Registration i = Unregistered"
  shows "surrogate_info (from_class_id w wow64 i) \<and>
    (Registration (from_class_id w wow64 i) = Unregistered \<longrightarrow> s_Name (from_class_id w wow64 i) = [] \<and> ServerDll (from_class_id w wow64 i) = [])"
  using assms by (auto simp: from_class_id_def surrogate_info_def Let_def)

lemma from_com_plus_ok:
  assumes "surrogate_info i" and "Registration i = Unregistered" and "s_Name i = []" and "ServerDll i = []"
  shows "info_ok (fst (from_com_plus w i s))"
  using assms by (auto simp: from_com_plus_def surrogate_info_def info_ok_def Let_def split: option.splits)

lemma identify_surrogate_ok:
  assumes "surrogate_info info" "Registration info = Unregistered"
  shows "info_ok (fst (identify_surrogate w wow64 info s))"
proof -
  let ?name = "ResolveIndirect w (ReadString (Reg w) (key_of_class ''AppID/'' (Id info) wow64) None)"
  let ?i = "from_classes (fst (FindClasses w wow64 ByAppId (Id info) s))
    (info\<lparr>s_Name := ?name, Registration := (if ?name \<noteq> [] then Classic else Registration info)\<rparr>)"
  have i: "surrogate_info ?i" using assms by (intro from_classes_surrogate) (simp add: surrogate_info_def)
  have packaged: "info_ok info'" if "FindPackaged w wow64 ?i = Some info'" for info'
    using packaged_fields [OF that] i by (simp add: surrogate_info_def info_ok_def)
  note class_id = from_class_id_surrogate [OF i, of w wow64]
  have eq: "fst (identify_surrogate w wow64 info s) =
      (if Registration ?i \<noteq> Unregistered then ?i
       else (case FindPackaged w wow64 ?i of
               Some info \<Rightarrow> info
             | None \<Rightarrow> if Registration (from_class_id w wow64 ?i) \<noteq> Unregistered then from_class_id w wow64 ?i
                 else fst (from_com_plus w (from_class_id w wow64 ?i) (snd (FindClasses w wow64 ByAppId (Id info) s)))))"
    by (simp add: identify_surrogate_def Let_def case_prod_unfold split: option.split)
  show ?thesis unfolding eq
    using i packaged class_id classic_ok from_com_plus_ok by (auto split: option.split)
qed

lemma identify_local_ok:
  assumes "Kind info = LocalServer" "s_Name info = []" "s_Package info = []" "ServerDll info = []" "Registration info = Unregistered"
  shows "info_ok (fst (identify_local w wow64 img package info s))"
  using assms
  by (auto simp: identify_local_def Let_def FindPackagedServer_def info_ok_def split: option.splits prod.splits if_splits)


text \<open>Something is shown exactly for servers.\<close>

lemma Describe_empty: "Describe info = [] \<longleftrightarrow> Kind info = NoServer"
  by (auto simp: Describe_def Let_def split: ComServerKind.splits)

end
