(* ===== verification/Com_Registry.thy ===== *)
theory Com_Registry
  imports Com_Servers
begin

unbundle bit_operations_syntax

text \<open>
  The registered COM classes (\<open>WinSys/Com.cpp\<close>, second part): app IDs, the file a class runs, who could replace it, the
  classes of the machine, the user and the packages with their marks, permissions. What is not in the registry (files,
  rights, folders) is in the record \<open>ClassWorld\<close>.
\<close>

section \<open>The system\<close>

text \<open>
  Beside the registry: when a key was written, whether it has a value, the values of UAC's list (name, whether a number, the
  number), which files are there, what is granted on a path, whether the check could be set up, the folders.
\<close>

record ClassWorld = World +
  WrittenAt :: "key \<Rightarrow> (u32 \<times> u32) option"
  HasValue :: "key \<Rightarrow> wstr \<Rightarrow> bool"
  ApprovalList :: "(wstr \<times> bool \<times> u32) list option"
  FileThere :: "wstr \<Rightarrow> bool"
  Granted :: "wstr \<Rightarrow> u32"
  CheckReady :: bool
  WindowsFolder :: "wstr option"
  SystemFolder :: "wstr option"
  Wow64Folder :: "wstr option"
  PackageFolder :: "wstr \<Rightarrow> wstr"

section \<open>App IDs\<close>

record AppIdInfo =
  a_Name :: wstr
  ServiceName :: wstr
  a_RunAs :: wstr
  DllSurrogate :: bool
  Launch :: bool
  Access :: bool

definition read_app_id :: "ClassWorld \<Rightarrow> key \<Rightarrow> AppIdInfo" where
  "read_app_id w k =
     \<lparr>a_Name = ResolveIndirect (World.truncate w) (ReadString (Reg w) k None), ServiceName = ReadString (Reg w) k (Some (wide ''LocalService'')),
      a_RunAs = ReadString (Reg w) k (Some (wide ''RunAs'')), DllSurrogate = HasValue w k (wide ''DllSurrogate''),
      Launch = HasValue w k (wide ''LaunchPermission''), Access = HasValue w k (wide ''AccessPermission'')\<rparr>"

text \<open>A key named by a GUID; other names are those of executables.\<close>

definition braced :: "wstr \<Rightarrow> bool" where
  "braced name \<longleftrightarrow> name \<noteq> [] \<and> hd name = 0x7B"

definition ReadAppIds :: "ClassWorld \<Rightarrow> bool \<Rightarrow> (wstr, AppIdInfo) table" where
  "ReadAppIds w wow64 =
     (let root = (ClassesRoot, wide ''AppID'', wow64)
      in if \<not> Opens (Reg w) root then []
         else foldl (\<lambda>m name. tset (Upper name) (read_app_id w (sub root name)) m) []
                (filter (\<lambda>name. braced name \<and> Opens (Reg w) (sub root name)) (SubKeys (Reg w) root)))"

section \<open>Files\<close>

definition same_text :: "nat \<Rightarrow> wstr \<Rightarrow> wstr \<Rightarrow> bool" where
  "same_text n a b \<longleftrightarrow> same_start a b n"

definition ViewPath :: "ClassWorld \<Rightarrow> wstr \<Rightarrow> bool \<Rightarrow> wstr" where
  "ViewPath w path wow64 =
     (if \<not> wow64 then path
      else (case SystemFolder w of
              None \<Rightarrow> path
            | Some system \<Rightarrow>
                if length path < length system \<or> \<not> same_text (length system) path system \<or>
                   length path > length system \<and> path ! length system \<noteq> 0x5C then path
                else (case Wow64Folder w of None \<Rightarrow> path | Some wow \<Rightarrow> wow @ drop (length system) path)))"

definition replace_first :: "wstr \<Rightarrow> wstr \<Rightarrow> wstr \<Rightarrow> wstr" where
  "replace_first name new text =
     (case find_str name (Lower text) 0 of None \<Rightarrow> text | Some i \<Rightarrow> take i text @ new @ drop (i + length name) text)"

definition ExpandView :: "ClassWorld \<Rightarrow> wstr \<Rightarrow> bool \<Rightarrow> wstr" where
  "ExpandView w text wow64 =
     (if 0x25 \<notin> set text then text
      else (let text = (if wow64
                        then replace_first (wide ''%commonprogramfiles%'') (wide ''%CommonProgramFiles(x86)%'')
                               (replace_first (wide ''%programfiles%'') (wide ''%ProgramFiles(x86)%'') text)
                        else text)
            in case ExpandText w text of None \<Rightarrow> text | Some t \<Rightarrow> t))"

section \<open>Who can write a file\<close>

definition FILE_WRITE_DATA :: u32 where "FILE_WRITE_DATA = 2"
definition FILE_ADD_FILE :: u32 where "FILE_ADD_FILE = 2"
definition FILE_ADD_SUBDIRECTORY :: u32 where "FILE_ADD_SUBDIRECTORY = 4"
definition FILE_DELETE_CHILD :: u32 where "FILE_DELETE_CHILD = 0x40"
definition DELETE_ACCESS :: u32 where "DELETE_ACCESS = 0x10000"
definition WRITE_DAC :: u32 where "WRITE_DAC = 0x40000"
definition WRITE_OWNER :: u32 where "WRITE_OWNER = 0x80000"

definition find_last :: "('a \<Rightarrow> bool) \<Rightarrow> 'a list \<Rightarrow> nat option" where
  "find_last P s =
     (let n = length (takeWhile (\<lambda>c. \<not> P c) (rev s)) in if n < length s then Some (length s - 1 - n) else None)"

lemma find_last_less: "find_last P s = Some i \<Longrightarrow> i < length s"
  by (auto simp: find_last_def Let_def split: if_splits)

text \<open>The nearest folder that is there, and whether it is the one asked for.\<close>

function nearest :: "(wstr \<Rightarrow> bool) \<Rightarrow> wstr \<Rightarrow> bool \<Rightarrow> (wstr \<times> bool) option" where
  "nearest there folder immediate =
     (if there folder then Some (folder, immediate)
      else (case find_last (\<lambda>c. c = 0x5C) folder of
              None \<Rightarrow> None
            | Some up \<Rightarrow> if up < 2 then None else nearest there (take up folder) False))"
  by pat_completeness auto
termination
  by (relation "measure (\<lambda>(there, folder, immediate). length folder)") (auto dest: find_last_less)

declare nearest.simps [simp del]

text \<open>The folders' rights are kept, under their names in lower case.\<close>

type_synonym folders = "(wstr, u32) table"

definition GrantedFolder :: "ClassWorld \<Rightarrow> wstr \<Rightarrow> folders \<Rightarrow> u32 \<times> folders" where
  "GrantedFolder w folder cache =
     (case tfind cache (Lower folder) of
        Some g \<Rightarrow> (g, cache)
      | None \<Rightarrow> (Granted w folder, tset (Lower folder) (Granted w folder) cache))"

definition Writable :: "ClassWorld \<Rightarrow> wstr \<Rightarrow> folders \<Rightarrow> bool \<times> folders" where
  "Writable w path cache =
     (if \<not> CheckReady w \<or> length path < 3 then (False, cache)
      else (case find_last (\<lambda>c. c = 0x5C) path of
              None \<Rightarrow> (False, cache)
            | Some slash \<Rightarrow>
                (let folder = take slash path
                 in if FileThere w path then
                      (let file = Granted w path
                       in if file AND (FILE_WRITE_DATA OR WRITE_DAC OR WRITE_OWNER) \<noteq> 0 then (True, cache)
                          else (let (dir, cache) = GrantedFolder w folder cache
                                in (dir AND FILE_ADD_FILE \<noteq> 0 \<and> (file AND DELETE_ACCESS \<noteq> 0 \<or> dir AND FILE_DELETE_CHILD \<noteq> 0), cache)))
                    else (case nearest (FileThere w) folder True of
                            None \<Rightarrow> (False, cache)
                          | Some (folder, immediate) \<Rightarrow>
                              (let folder = (if length folder = 2 then folder @ [0x5C] else folder);
                                   (dir, cache) = GrantedFolder w folder cache
                               in (dir AND (if immediate then FILE_ADD_FILE else FILE_ADD_SUBDIRECTORY) \<noteq> 0, cache))))))"

definition IsWritableByUsers :: "ClassWorld \<Rightarrow> wstr \<Rightarrow> bool" where
  "IsWritableByUsers w path = fst (Writable w path [])"

section \<open>A class\<close>

datatype ComServerType = OtherServer | InProc | Handler | LocalServerType | SurrogateType | ServiceType

record ComClassRegistration =
  c_Clsid :: wstr
  c_Name :: wstr
  ProgId :: wstr
  ThreadingModel :: wstr
  Type :: ComServerType
  Server :: wstr
  ServerFile :: wstr
  ServerMissing :: bool
  c_AppId :: wstr
  AppIdName :: wstr
  c_ServiceName :: wstr
  RunAs :: wstr
  HasLaunchPermission :: bool
  HasAccessPermission :: bool
  c_Package :: wstr
  Wow64 :: bool
  PerUser :: bool
  OverridesMachine :: bool
  OverriddenByUser :: bool
  ServerWritable :: bool
  ScriptletUrl :: wstr
  Interpreter :: wstr
  InterpreterRunsSystemDll :: bool
  LastWrite :: u64
  TreatAs :: wstr
  ElevationEnabled :: bool
  AutoApproved :: bool
  RedirectedProgIds :: wstr

definition no_class :: ComClassRegistration where
  "no_class = \<lparr>c_Clsid = [], c_Name = [], ProgId = [], ThreadingModel = [], Type = OtherServer, Server = [], ServerFile = [],
     ServerMissing = False, c_AppId = [], AppIdName = [], c_ServiceName = [], RunAs = [], HasLaunchPermission = False,
     HasAccessPermission = False, c_Package = [], Wow64 = False, PerUser = False, OverridesMachine = False,
     OverriddenByUser = False, ServerWritable = False, ScriptletUrl = [], Interpreter = [], InterpreterRunsSystemDll = False,
     LastWrite = 0, TreatAs = [], ElevationEnabled = False, AutoApproved = False, RedirectedProgIds = []\<rparr>"

text \<open>A DLL's file: quotes taken off, expanded; missing only when it is a full path.\<close>

definition unquoted :: "wstr \<Rightarrow> wstr" where
  "unquoted s =
     (if length s \<ge> 2 \<and> hd s = 0x22
      then (case find_char 0x22 s 1 of None \<Rightarrow> drop 1 s | Some e \<Rightarrow> substr s 1 (e - 1)) else s)"

definition SetServerFile :: "ClassWorld \<Rightarrow> wstr \<Rightarrow> ComClassRegistration \<Rightarrow> ComClassRegistration" where
  "SetServerFile w dll c =
     (let path = ExpandView w (unquoted dll) (Wow64 c);
          full = length path > 2 \<and> (path ! 1 = 0x3A \<or> take 2 path = [0x5C, 0x5C])
      in c\<lparr>ServerFile := path, ServerMissing := full \<and> \<not> FileThere w (ViewPath w path (Wow64 c))\<rparr>)"

text \<open>The DLL that \<open>rundll32\<close> runs, and whether it is the system's.\<close>

definition skip_spaces :: "wstr \<Rightarrow> wstr" where
  "skip_spaces s = dropWhile (\<lambda>c. c = 0x20) s"

definition RundllTarget :: "wstr \<Rightarrow> wstr" where
  "RundllTarget commandLine =
     (let s = skip_spaces commandLine;
          s = (if s \<noteq> [] \<and> hd s = 0x22
               then (case find_char 0x22 s 1 of None \<Rightarrow> [] | Some e \<Rightarrow> drop (e + 1) s)
               else (case find_str (wide ''.exe'') (Lower s) 0 of None \<Rightarrow> [] | Some e \<Rightarrow> drop (e + 4) s));
          s = skip_spaces s
      in if s \<noteq> [] \<and> hd s = 0x22
         then (case find_char 0x22 s 1 of None \<Rightarrow> drop 1 s | Some e \<Rightarrow> substr s 1 (e - 1))
         else takeWhile (\<lambda>c. c \<noteq> 0x2C \<and> c \<noteq> 0x20) s)"

definition IsSystemDll :: "ClassWorld \<Rightarrow> wstr \<Rightarrow> bool" where
  "IsSystemDll w dll =
     (if dll = [] then False
      else if 0x5C \<notin> set dll then True
      else (case WindowsFolder w of
              None \<Rightarrow> False
            | Some windows \<Rightarrow> length dll > length windows \<and> same_text (length windows) dll windows \<and> dll ! length windows = 0x5C))"

definition interpreters :: "wstr list" where
  "interpreters = map wide [''rundll32.exe'', ''regsvr32.exe'', ''powershell.exe'', ''pwsh.exe'', ''cmd.exe'', ''mshta.exe'', ''wscript.exe'',
     ''cscript.exe'', ''msiexec.exe'', ''conhost.exe'']"

definition InterpreterOf :: "wstr \<Rightarrow> wstr" where
  "InterpreterOf path =
     (let name = Lower (case find_last (\<lambda>c. c = 0x5C \<or> c = 0x2F) path of None \<Rightarrow> path | Some i \<Rightarrow> drop (i + 1) path)
      in if name \<in> set interpreters then name else [])"

text \<open>What a class's app ID says, if it is known.\<close>

definition set_app :: "AppIdInfo option \<Rightarrow> ComClassRegistration \<Rightarrow> ComClassRegistration" where
  "set_app app c =
     (case app of
        None \<Rightarrow> c
      | Some a \<Rightarrow> c\<lparr>AppIdName := a_Name a, c_ServiceName := ServiceName a, RunAs := a_RunAs a,
                     HasLaunchPermission := Launch a, HasAccessPermission := Access a\<rparr>)"

definition set_local :: "ClassWorld \<Rightarrow> wstr \<Rightarrow> ComClassRegistration \<Rightarrow> ComClassRegistration" where
  "set_local w local c =
     (let path = ServerPath (ExpandText w) (ExpandView w local (Wow64 c));
          interpreter = InterpreterOf path
      in c\<lparr>Type := LocalServerType, Server := local, ServerFile := path,
           ServerMissing := length path > 2 \<and> path ! 1 = 0x3A \<and> \<not> FileThere w path,
           Interpreter := interpreter,
           InterpreterRunsSystemDll :=
             (if interpreter = wide ''rundll32.exe'' then IsSystemDll w (RundllTarget (ExpandView w local (Wow64 c)))
              else InterpreterRunsSystemDll c)\<rparr>)"

text \<open>Where the class runs: a local server before a service, that before a DLL, a handler last.\<close>

definition set_server :: "ClassWorld \<Rightarrow> AppIdInfo option \<Rightarrow> wstr \<Rightarrow> wstr \<Rightarrow> wstr \<Rightarrow> ComClassRegistration \<Rightarrow> ComClassRegistration" where
  "set_server w app local inproc handler c =
     (let service = (case app of None \<Rightarrow> [] | Some a \<Rightarrow> ServiceName a)
      in if local \<noteq> [] then set_local w local c
         else if service \<noteq> [] then c\<lparr>Type := ServiceType, Server := service\<rparr>
         else if inproc \<noteq> [] then
           SetServerFile w inproc (c\<lparr>Type := (case app of None \<Rightarrow> InProc | Some a \<Rightarrow> if DllSurrogate a then SurrogateType else InProc), Server := inproc\<rparr>)
         else if handler \<noteq> [] then SetServerFile w handler (c\<lparr>Type := Handler, Server := handler\<rparr>)
         else c)"

definition runs_scriptlet :: "wstr \<Rightarrow> bool" where
  "runs_scriptlet path \<longleftrightarrow>
     same_name (case find_last (\<lambda>c. c = 0x5C) path of None \<Rightarrow> path | Some i \<Rightarrow> drop (i + 1) path) (wide ''scrobj.dll'')"

definition ReadClass :: "ClassWorld \<Rightarrow> key \<Rightarrow> (wstr, AppIdInfo) table \<Rightarrow> ComClassRegistration \<Rightarrow> ComClassRegistration" where
  "ReadClass w k appIds c =
     (let inproc = ReadText (Reg w) (sub k (wide ''InprocServer32'')) None True;
          local = ReadText (Reg w) (sub k (wide ''LocalServer32'')) None True;
          handler = ReadText (Reg w) (sub k (wide ''InprocHandler32'')) None True;
          appId = Upper (ReadString (Reg w) k (Some (wide ''AppID'')));
          app = (if appId = [] then None else tfind appIds appId);
          c = c\<lparr>c_Name := ResolveIndirect (World.truncate w) (ReadString (Reg w) k None),
                ProgId := ReadString (Reg w) (sub k (wide ''ProgID'')) None,
                LastWrite := (case WrittenAt w k of None \<Rightarrow> LastWrite c | Some (low, high) \<Rightarrow> word_cat high low),
                TreatAs := Upper (ReadString (Reg w) (sub k (wide ''TreatAs'')) None),
                ElevationEnabled := ReadDword (Reg w) (sub k (wide ''Elevation'')) (wide ''Enabled'') 0 \<noteq> 0,
                c_AppId := appId\<rparr>;
          c = set_server w app local inproc handler (set_app app c);
          c = (if inproc \<noteq> [] \<or> handler \<noteq> []
               then c\<lparr>ThreadingModel := ReadString (Reg w)
                        (sub k (if inproc = [] then wide ''InprocHandler32'' else wide ''InprocServer32'')) (Some (wide ''ThreadingModel''))\<rparr>
               else c)
      in if inproc \<noteq> [] \<and> runs_scriptlet (ServerFile c)
         then c\<lparr>ScriptletUrl := ReadString (Reg w) (sub k (wide ''ScriptletURL'')) None\<rparr> else c)"

section \<open>The classes of a hive\<close>

type_synonym found = "ComClassRegistration list \<times> (wstr, nat) table"

definition new_class :: "ClassWorld \<Rightarrow> key \<Rightarrow> bool \<Rightarrow> bool \<Rightarrow> (wstr, AppIdInfo) table \<Rightarrow> wstr \<Rightarrow> ComClassRegistration" where
  "new_class w clsid wow64 perUser appIds name =
     ReadClass w (sub clsid name) appIds (no_class\<lparr>c_Clsid := Upper name, Wow64 := wow64, PerUser := perUser\<rparr>)"

text \<open>The user's class hides the machine's of the same ID; both are kept, and marked.\<close>

definition add_registration :: "bool \<Rightarrow> found \<Rightarrow> ComClassRegistration \<Rightarrow> found" where
  "add_registration perUser f c =
     (let (classes, byClsid) = f
      in case (if perUser then tfind byClsid (c_Clsid c) else None) of
           Some i \<Rightarrow> ((classes[i := (classes ! i)\<lparr>OverriddenByUser := True\<rparr>]) @ [c\<lparr>OverridesMachine := True\<rparr>], byClsid)
         | None \<Rightarrow> (classes @ [c], if perUser then byClsid else tset (c_Clsid c) (length classes) byClsid))"

definition hive_key :: "Root \<Rightarrow> bool \<Rightarrow> key" where
  "hive_key root wow64 = (root, wide_path ''Software/Classes/CLSID'', wow64)"

definition hive_classes :: "ClassWorld \<Rightarrow> Root \<Rightarrow> bool \<Rightarrow> bool \<Rightarrow> (wstr, AppIdInfo) table \<Rightarrow> ComClassRegistration list" where
  "hive_classes w root wow64 perUser appIds =
     (let clsid = hive_key root wow64
      in if \<not> Opens (Reg w) clsid then []
         else map (new_class w clsid wow64 perUser appIds)
                (filter (\<lambda>name. braced name \<and> Opens (Reg w) (sub clsid name)) (SubKeys (Reg w) clsid)))"

definition ReadClasses :: "ClassWorld \<Rightarrow> Root \<Rightarrow> bool \<Rightarrow> bool \<Rightarrow> (wstr, AppIdInfo) table \<Rightarrow> found \<Rightarrow> found" where
  "ReadClasses w root wow64 perUser appIds f = foldl (add_registration perUser) f (hive_classes w root wow64 perUser appIds)"

section \<open>Packaged classes\<close>

record PackagedServer =
  p_Name :: wstr
  Executable :: wstr
  SurrogateAppId :: wstr

definition package_servers :: "ClassWorld \<Rightarrow> key \<Rightarrow> (u32, PackagedServer) table" where
  "package_servers w k =
     (if \<not> Opens (Reg w) k then []
      else foldl (\<lambda>m n. tset (wtoi n)
             \<lparr>p_Name = ResolveIndirect (World.truncate w) (ReadString (Reg w) (sub k n) (Some (wide ''DisplayName''))),
              Executable = ReadString (Reg w) (sub k n) (Some (wide ''Executable'')),
              SurrogateAppId = ReadString (Reg w) (sub k n) (Some (wide ''SurrogateAppId''))\<rparr> m) [] (SubKeys (Reg w) k))"

definition packaged_class :: "ClassWorld \<Rightarrow> wstr \<Rightarrow> key \<Rightarrow> (u32, PackagedServer) table \<Rightarrow> wstr \<Rightarrow> ComClassRegistration" where
  "packaged_class w package k servers clsid =
     (let dll = ReadString (Reg w) (sub k clsid) (Some (wide ''DllPath''));
          server = tfind servers (ReadDword (Reg w) (sub k clsid) (wide ''ServerId'') 0);
          c = no_class\<lparr>c_Clsid := Upper clsid, c_Package := package\<rparr>;
          c = (case server of None \<Rightarrow> c | Some s \<Rightarrow> c\<lparr>c_Name := p_Name s, c_AppId := Upper (SurrogateAppId s)\<rparr>);
          executable = (case server of None \<Rightarrow> [] | Some s \<Rightarrow> Executable s);
          surrogate = (case server of None \<Rightarrow> False | Some s \<Rightarrow> SurrogateAppId s \<noteq> []);
          path = (if executable \<noteq> [] then executable else dll);
          c = (if executable \<noteq> [] then c\<lparr>Type := LocalServerType\<rparr>
               else if dll \<noteq> [] then c\<lparr>Type := (if surrogate then SurrogateType else InProc)\<rparr> else c);
          c = c\<lparr>Server := path\<rparr>;
          folder = PackageFolder w package;
          path = (if path \<noteq> [] \<and> folder \<noteq> [] \<and> \<not> (length path > 2 \<and> path ! 1 = 0x3A) then folder @ 0x5C # path else path);
          c = (if path \<noteq> [] then SetServerFile w path c else c)
      in if c_Name c = [] then c\<lparr>c_Name := package_name package\<rparr> else c)"

definition ReadPackagedClasses :: "ClassWorld \<Rightarrow> ComClassRegistration list" where
  "ReadPackagedClasses w =
     (let packages = (ClassesRoot, wide_path ''PackagedCom/Package'', False)
      in if \<not> Opens (Reg w) packages then []
         else concat (map (\<lambda>package.
                (let servers = package_servers w (sub (sub packages package) (wide ''Server''));
                     k = sub (sub packages package) (wide ''Class'')
                 in if \<not> Opens (Reg w) k then [] else map (packaged_class w package k servers) (SubKeys (Reg w) k)))
              (SubKeys (Reg w) packages)))"

section \<open>All classes\<close>

text \<open>UAC's list: names that fit, with a number that is not zero.\<close>

definition approved :: "(wstr \<times> bool \<times> u32) list \<Rightarrow> wstr set" where
  "approved vs = (\<lambda>v. Upper (fst v)) ` set (filter (\<lambda>(name, dword, data). length name < 128 \<and> dword \<and> data \<noteq> 0) vs)"

definition approve :: "ClassWorld \<Rightarrow> ComClassRegistration \<Rightarrow> ComClassRegistration" where
  "approve w c =
     (case ApprovalList w of
        None \<Rightarrow> c
      | Some vs \<Rightarrow> c\<lparr>AutoApproved := ElevationEnabled c \<and> \<not> PerUser c \<and> c_Clsid c \<in> approved vs\<rparr>)"

text \<open>The user's program IDs that lead elsewhere than the machine's.\<close>

definition is_prog_id :: "wstr \<Rightarrow> bool" where
  "is_prog_id name \<longleftrightarrow>
     name \<noteq> [] \<and> hd name \<noteq> 0x2E \<and> hd name \<noteq> 0x7B \<and> \<not> same_name name (wide ''CLSID'') \<and>
     \<not> same_name name (wide ''WOW6432Node'') \<and> \<not> same_name name (wide ''AppID'')"

definition redirection :: "ClassWorld \<Rightarrow> bool \<Rightarrow> wstr \<Rightarrow> (wstr \<times> wstr) option" where
  "redirection w wow64 name =
     (let machine = (LocalMachine, wide_path ''Software/Classes'', wow64);
          user = (CurrentUser, wide_path ''Software/Classes'', wow64);
          target = Upper (ReadString (Reg w) (sub (sub user name) (wide ''CLSID'')) None);
          original = Upper (ReadString (Reg w) (sub (sub machine name) (wide ''CLSID'')) None)
      in if target = [] \<or> \<not> Opens (Reg w) machine \<or> original = [] \<or> original = target then None
         else Some (target, name @ wide '' (the machine's: '' @ original @ wide '')''))"

definition add_redirection :: "ComClassRegistration list \<Rightarrow> wstr \<times> wstr \<Rightarrow> ComClassRegistration list" where
  "add_redirection classes r =
     map (\<lambda>c. if \<not> OverriddenByUser c \<and> c_Clsid c = fst r
              then c\<lparr>RedirectedProgIds := add_name (wide ''; '') (RedirectedProgIds c) (snd r)\<rparr> else c) classes"

definition redirect :: "ClassWorld \<Rightarrow> bool \<Rightarrow> ComClassRegistration list \<Rightarrow> ComClassRegistration list" where
  "redirect w wow64 classes =
     (let user = (CurrentUser, wide_path ''Software/Classes'', wow64)
      in if \<not> Opens (Reg w) user then classes
         else foldl add_redirection classes (List.map_filter (redirection w wow64) (filter is_prog_id (SubKeys (Reg w) user))))"

text \<open>Which servers a standard user could replace: each file is checked once, the folders' rights are kept.\<close>

definition checked_path :: "ClassWorld \<Rightarrow> ComClassRegistration \<Rightarrow> wstr option" where
  "checked_path w c =
     (if PerUser c \<or> c_Package c \<noteq> [] \<or> length (ServerFile c) < 3 \<or> ServerFile c ! 1 \<noteq> 0x3A then None
      else Some (if Type c = LocalServerType then ServerFile c else ViewPath w (ServerFile c) (Wow64 c)))"

definition check_class :: "ClassWorld \<Rightarrow> ComClassRegistration list \<times> (wstr, bool) table \<times> folders \<Rightarrow> ComClassRegistration \<Rightarrow>
    ComClassRegistration list \<times> (wstr, bool) table \<times> folders" where
  "check_class w st c =
     (let (done, files, folders) = st
      in case checked_path w c of
           None \<Rightarrow> (done @ [c], files, folders)
         | Some path \<Rightarrow>
             (case tfind files (Lower path) of
                Some b \<Rightarrow> (done @ [c\<lparr>ServerWritable := b\<rparr>], files, folders)
              | None \<Rightarrow>
                  (let (b, folders) = Writable w path folders
                   in (done @ [c\<lparr>ServerWritable := b\<rparr>], tset (Lower path) b files, folders))))"

definition EnumClasses :: "ClassWorld \<Rightarrow> bool \<Rightarrow> ComClassRegistration list" where
  "EnumClasses w wow64 =
     (let appIds = ReadAppIds w wow64;
          found = ReadClasses w LocalMachine wow64 False appIds ([], []);
          found = ReadClasses w CurrentUser wow64 True appIds found;
          classes = fst found @ (if wow64 then [] else ReadPackagedClasses w);
          classes = redirect w wow64 (map (approve w) classes)
      in fst (foldl (check_class w) ([], [], []) classes))"

definition TypeText :: "ComServerType \<Rightarrow> wstr" where
  "TypeText t =
     wide (case t of InProc \<Rightarrow> ''In-process'' | Handler \<Rightarrow> ''In-process handler'' | LocalServerType \<Rightarrow> ''Local server''
           | SurrogateType \<Rightarrow> ''Surrogate (dllhost)'' | ServiceType \<Rightarrow> ''Service'' | OtherServer \<Rightarrow> ''Other'')"

text \<open>
  A permission of an app ID, else the machine's default: \<open>value_at\<close> is the value's bytes (nothing when it is not there or empty), \<open>valid\<close>
  \<open>IsValidSecurityDescriptor\<close>.
\<close>

definition read_descriptor :: "Registry \<Rightarrow> (key \<Rightarrow> wstr \<Rightarrow> bytes) \<Rightarrow> (bytes \<Rightarrow> bool) \<Rightarrow> key \<Rightarrow> string \<Rightarrow> bytes" where
  "read_descriptor reg value_at valid k v =
     (let data = value_at k (wide v) in if \<not> Opens reg k \<or> \<not> valid data then [] else data)"

definition GetPermission :: "Registry \<Rightarrow> (key \<Rightarrow> wstr \<Rightarrow> bytes) \<Rightarrow> (bytes \<Rightarrow> bool) \<Rightarrow> wstr \<Rightarrow> bool \<Rightarrow> bool \<Rightarrow> bytes \<times> bool" where
  "GetPermission reg value_at valid appId launch wow64 =
     (let own = (if appId = [] then []
                 else read_descriptor reg value_at valid (key_of_class ''AppID/'' appId wow64) (if launch then ''LaunchPermission'' else ''AccessPermission''))
      in if own \<noteq> [] then (own, False)
         else (read_descriptor reg value_at valid (LocalMachine, wide_path ''SOFTWARE/Microsoft/Ole'', False)
                 (if launch then ''DefaultLaunchPermission'' else ''DefaultAccessPermission''), True))"

section \<open>The caches do not show\<close>

text \<open>A file system that does not tell letters of different case apart.\<close>

definition caseless :: "ClassWorld \<Rightarrow> bool" where
  "caseless w \<longleftrightarrow> (\<forall>p q. Lower p = Lower q \<longrightarrow> FileThere w p = FileThere w q \<and> Granted w p = Granted w q)"

lemma caselessD: "caseless w \<Longrightarrow> Lower p = Lower q \<Longrightarrow> FileThere w p = FileThere w q" "caseless w \<Longrightarrow> Lower p = Lower q \<Longrightarrow> Granted w p = Granted w q"
  unfolding caseless_def by blast+

definition folders_ok :: "ClassWorld \<Rightarrow> folders \<Rightarrow> bool" where
  "folders_ok w cache \<longleftrightarrow> (\<forall>f g. tfind cache (Lower f) = Some g \<longrightarrow> g = Granted w f)"

lemma folders_ok_Nil [simp]: "folders_ok w []"
  by (simp add: folders_ok_def tfind_def)

lemma GrantedFolder_cached:
  assumes "caseless w" and "folders_ok w cache"
  shows "fst (GrantedFolder w f cache) = Granted w f \<and> folders_ok w (snd (GrantedFolder w f cache))"
proof (cases "tfind cache (Lower f)")
  case None
  have "g = Granted w f'" if g: "tfind (tset (Lower f) (Granted w f) cache) (Lower f') = Some g" for f' g
  proof (cases "Lower f' = Lower f")
    case True
    then show ?thesis using g caselessD(2) [OF assms(1), of f f'] by (simp add: tfind_after_set)
  next
    case False
    then show ?thesis using g assms(2) by (simp add: tfind_after_set folders_ok_def)
  qed
  then have "folders_ok w (tset (Lower f) (Granted w f) cache)" unfolding folders_ok_def by blast
  then show ?thesis using None by (simp add: GrantedFolder_def)
next
  case (Some g)
  then show ?thesis using assms by (auto simp: GrantedFolder_def folders_ok_def)
qed

text \<open>\<open>Writable\<close> without a cache.\<close>

definition may_write :: "ClassWorld \<Rightarrow> wstr \<Rightarrow> bool" where
  "may_write w path =
     (if \<not> CheckReady w \<or> length path < 3 then False
      else (case find_last (\<lambda>c. c = 0x5C) path of
              None \<Rightarrow> False
            | Some slash \<Rightarrow>
                (let folder = take slash path
                 in if FileThere w path then
                      (let file = Granted w path; dir = Granted w folder
                       in file AND (FILE_WRITE_DATA OR WRITE_DAC OR WRITE_OWNER) \<noteq> 0 \<or>
                          dir AND FILE_ADD_FILE \<noteq> 0 \<and> (file AND DELETE_ACCESS \<noteq> 0 \<or> dir AND FILE_DELETE_CHILD \<noteq> 0))
                    else (case nearest (FileThere w) folder True of
                            None \<Rightarrow> False
                          | Some (folder, immediate) \<Rightarrow>
                              Granted w (if length folder = 2 then folder @ [0x5C] else folder)
                                AND (if immediate then FILE_ADD_FILE else FILE_ADD_SUBDIRECTORY) \<noteq> 0))))"

lemma Writable_cached:
  assumes "caseless w" and "folders_ok w cache"
  shows "fst (Writable w path cache) = may_write w path \<and> folders_ok w (snd (Writable w path cache))"
  using GrantedFolder_cached [OF assms] assms(2)
  by (auto simp: Writable_def may_write_def Let_def case_prod_unfold split: option.split)

lemma IsWritableByUsers_may_write: "caseless w \<Longrightarrow> IsWritableByUsers w path = may_write w path"
  by (simp add: IsWritableByUsers_def Writable_cached)

text \<open>The case of a path does not matter.\<close>

lemma lower_backslash: "lower c = 0x5C \<longleftrightarrow> c = 0x5C"
proof -
  have "c + 0x20 \<noteq> 0x5C" if "0x41 \<le> c" "c \<le> 0x5A" for c :: u16 using that by uint_arith
  moreover have "\<not> (0x41 \<le> c \<and> c \<le> 0x5A)" if "c = 0x5C" using that by simp
  ultimately show ?thesis by (auto simp: lower_def)
qed

lemma find_last_Lower: "find_last (\<lambda>c. c = 0x5C) (Lower p) = find_last (\<lambda>c. c = 0x5C) p"
proof -
  have "length (takeWhile (\<lambda>c. c \<noteq> 0x5C) (map lower xs)) = length (takeWhile (\<lambda>c. c \<noteq> 0x5C) xs)" for xs
    by (induction xs) (auto simp: lower_backslash)
  then show ?thesis by (simp add: find_last_def Lower_def rev_map Let_def)
qed

lemma find_last_case: "Lower p = Lower q \<Longrightarrow> find_last (\<lambda>c. c = 0x5C) p = find_last (\<lambda>c. c = 0x5C) q"
  by (metis find_last_Lower)

lemma take_case: "Lower p = Lower q \<Longrightarrow> Lower (take n p) = Lower (take n q)"
  by (simp add: Lower_def flip: take_map)

lemma length_case: "Lower p = Lower q \<Longrightarrow> length p = length q"
  by (metis length_Lower)

lemma nearest_case:
  assumes "caseless w"
  shows "Lower p = Lower q \<Longrightarrow>
    rel_option (\<lambda>a b. Lower (fst a) = Lower (fst b) \<and> snd a = snd b) (nearest (FileThere w) p i) (nearest (FileThere w) q i)"
proof (induction "length p" arbitrary: p q i rule: less_induct)
  case less
  have there: "FileThere w p = FileThere w q" by (rule caselessD(1) [OF assms less.prems])
  note last = find_last_case [OF less.prems]
  show ?case
  proof (cases "FileThere w p \<or> find_last (\<lambda>c. c = 0x5C) p = None \<or> the (find_last (\<lambda>c. c = 0x5C) p) < 2")
    case True
    then show ?thesis using there last less.prems
      by (subst (1 2) nearest.simps) (auto split: option.splits)
  next
    case False
    then obtain up where up: "find_last (\<lambda>c. c = 0x5C) p = Some up" "\<not> up < 2" "\<not> FileThere w p" by auto
    then have "length (take up p) < length p" using find_last_less [OF up(1)] by simp
    from less.hyps [OF this take_case [OF less.prems], of False] show ?thesis
      using up there last by (subst (1 2) nearest.simps) simp
  qed
qed

lemma may_write_case:
  assumes w: "caseless w" and same: "Lower p = Lower q"
  shows "may_write w p = may_write w q"
proof -
  have same_g: "Granted w a = Granted w b" if "Lower a = Lower b" for a b by (rule caselessD(2) [OF w that])
  have there: "FileThere w p = FileThere w q" by (rule caselessD(1) [OF w same])
  have dir: "Granted w (take n p) = Granted w (take n q)" for n by (rule same_g [OF take_case [OF same]])
  have near: "rel_option (\<lambda>a b. Lower (fst a) = Lower (fst b) \<and> snd a = snd b)
      (nearest (FileThere w) (take n p) True) (nearest (FileThere w) (take n q) True)" for n
    by (rule nearest_case [OF w take_case [OF same]])
  have drive: "Granted w (if length a = 2 then a @ [0x5C] else a) = Granted w (if length b = 2 then b @ [0x5C] else b)"
    if "Lower a = Lower b" for a b
    using that length_case [OF that] by (intro same_g) (simp add: Lower_def)
  have far: "(case nearest (FileThere w) (take n p) True of None \<Rightarrow> False | Some (f, i) \<Rightarrow> P (Granted w (if length f = 2 then f @ [0x5C] else f)) i) =
      (case nearest (FileThere w) (take n q) True of None \<Rightarrow> False | Some (f, i) \<Rightarrow> P (Granted w (if length f = 2 then f @ [0x5C] else f)) i)" for n P
  proof (cases "nearest (FileThere w) (take n p) True")
    case None
    then have "nearest (FileThere w) (take n q) True = None" using near [of n] by (cases "nearest (FileThere w) (take n q) True") simp_all
    with None show ?thesis by simp
  next
    case (Some a)
    then obtain b where b: "nearest (FileThere w) (take n q) True = Some b" "Lower (fst a) = Lower (fst b)" "snd a = snd b"
      using near [of n] by (cases "nearest (FileThere w) (take n q) True") simp_all
    show ?thesis unfolding Some b option.case split_beta b(3) drive [OF b(2)] ..
  qed
  show ?thesis
  proof (cases "find_last (\<lambda>c. c = 0x5C) q")
    case None
    then show ?thesis by (simp add: may_write_def find_last_case [OF same])
  next
    case (Some n)
    note last = Some find_last_case [OF same, unfolded Some]
    show ?thesis
      unfolding may_write_def Let_def last option.case length_case [OF same] there dir [of n] same_g [OF same]
        far [where n = n and P = "\<lambda>g i. g AND (if i then FILE_ADD_FILE else FILE_ADD_SUBDIRECTORY) \<noteq> 0"] ..
  qed
qed

definition files_ok :: "ClassWorld \<Rightarrow> (wstr, bool) table \<Rightarrow> bool" where
  "files_ok w files \<longleftrightarrow> (\<forall>p b. tfind files (Lower p) = Some b \<longrightarrow> b = may_write w p)"

definition mark_writable :: "ClassWorld \<Rightarrow> ComClassRegistration \<Rightarrow> ComClassRegistration" where
  "mark_writable w c = (case checked_path w c of None \<Rightarrow> c | Some p \<Rightarrow> c\<lparr>ServerWritable := IsWritableByUsers w p\<rparr>)"

lemma check_classes:
  assumes w: "caseless w"
  shows "files_ok w files \<Longrightarrow> folders_ok w folders \<Longrightarrow>
    fst (foldl (check_class w) (done, files, folders) cs) = done @ map (mark_writable w) cs"
proof (induction cs arbitrary: "done" files folders)
  case (Cons c cs)
  show ?case
  proof (cases "checked_path w c")
    case None
    then show ?thesis using Cons by (simp add: check_class_def mark_writable_def)
  next
    case (Some p)
    show ?thesis
    proof (cases "tfind files (Lower p)")
      case None
      have wr: "fst (Writable w p folders) = may_write w p" "folders_ok w (snd (Writable w p folders))"
        using Writable_cached [OF w Cons.prems(2)] by simp_all
      have "files_ok w (tset (Lower p) (may_write w p) files)"
        unfolding files_ok_def tfind_after_set
        using Cons.prems(1) [unfolded files_ok_def] may_write_case [OF w, of p] by (metis option.inject)
      from Cons.IH [OF this wr(2)] show ?thesis
        using Some None wr(1) by (simp add: check_class_def mark_writable_def IsWritableByUsers_may_write [OF w] case_prod_unfold)
    next
      case (Some b)
      then have "b = may_write w p" using Cons.prems(1) by (auto simp: files_ok_def)
      then show ?thesis using Cons Some \<open>checked_path w c = Some p\<close>
        by (simp add: check_class_def mark_writable_def IsWritableByUsers_may_write [OF w])
    qed
  qed
qed simp

text \<open>The classes as they are before their files are checked.\<close>

definition read_classes :: "ClassWorld \<Rightarrow> bool \<Rightarrow> ComClassRegistration list" where
  "read_classes w wow64 =
     (let appIds = ReadAppIds w wow64;
          found = ReadClasses w CurrentUser wow64 True appIds (ReadClasses w LocalMachine wow64 False appIds ([], []))
      in redirect w wow64 (map (approve w) (fst found @ (if wow64 then [] else ReadPackagedClasses w))))"

text \<open>C17: on a file system that ignores case, keeping the answers for files and folders changes nothing: each class of the machine
  with a server on a drive has the mark that a check of its own file alone gives, and no other class is marked.\<close>

theorem EnumClasses_writable:
  assumes "caseless w"
  shows "EnumClasses w wow64 = map (mark_writable w) (read_classes w wow64)"
  using check_classes [OF assms, of "[]" "[]" "[]"]
  by (simp add: EnumClasses_def read_classes_def Let_def files_ok_def tfind_def)

definition free_files :: ClassWorld where
  "free_files = World.extend one_class
     \<lparr>WrittenAt = (\<lambda>_. None), HasValue = (\<lambda>_ _. False), ApprovalList = None, FileThere = (\<lambda>_. True), Granted = (\<lambda>_. FILE_WRITE_DATA),
      CheckReady = True, WindowsFolder = None, SystemFolder = None, Wow64Folder = None, PackageFolder = (\<lambda>_. [])\<rparr>"

theorem EnumClasses_writable_witness:
  "EnumClasses free_files False = map (mark_writable free_files) (read_classes free_files False) \<and>
   IsWritableByUsers free_files (wide_path ''C:/a.dll'')"
proof -
  have c: "caseless free_files" by (simp add: caseless_def free_files_def World.defs)
  have "may_write free_files (wide_path ''C:/a.dll'')"
    by (simp add: may_write_def free_files_def World.defs find_last_def wide_path_def FILE_WRITE_DATA_def WRITE_DAC_def WRITE_OWNER_def Let_def)
  then show ?thesis using EnumClasses_writable [OF c] by (simp add: IsWritableByUsers_may_write [OF c])
qed

section \<open>The user's classes hide the machine's\<close>

text \<open>What reading a class's key leaves as it is.\<close>

definition marks :: "ComClassRegistration \<Rightarrow> wstr \<times> bool \<times> bool \<times> bool \<times> bool" where
  "marks c = (c_Clsid c, PerUser c, OverridesMachine c, OverriddenByUser c, AutoApproved c)"

lemma set_server_marks: "marks (set_server w app local inproc handler c) = marks c"
  by (simp add: set_server_def set_local_def SetServerFile_def marks_def Let_def)

lemma ReadClass_marks: "marks (ReadClass w k ids c) = marks c"
proof -
  have app: "marks (set_app app c) = marks c" for app c by (simp add: set_app_def marks_def split: option.split)
  have keep: "marks (c\<lparr>ThreadingModel := t\<rparr>) = marks c" "marks (c\<lparr>ScriptletUrl := t\<rparr>) = marks c" for c t
    by (simp_all add: marks_def)
  show ?thesis
    by (simp add: ReadClass_def Let_def keep set_server_marks app) (simp add: marks_def)
qed

lemma hive_marks:
  assumes "c \<in> set (hive_classes w root wow64 perUser ids)"
  shows "PerUser c = perUser \<and> \<not> OverridesMachine c \<and> \<not> OverriddenByUser c \<and> \<not> AutoApproved c"
proof -
  obtain name where "c = new_class w (hive_key root wow64) wow64 perUser ids name"
    using assms by (auto simp: hive_classes_def Let_def split: if_splits)
  then have "marks c = marks (no_class\<lparr>c_Clsid := Upper name, Wow64 := wow64, PerUser := perUser\<rparr>)"
    by (simp add: ReadClass_marks new_class_def)
  then show ?thesis by (simp add: marks_def no_class_def)
qed

text \<open>The table of the machine's classes.\<close>

definition positions_ok :: "ComClassRegistration list \<Rightarrow> (wstr, nat) table \<Rightarrow> bool" where
  "positions_ok cs t \<longleftrightarrow> (\<forall>k i. tfind t k = Some i \<longleftrightarrow> i < length cs \<and> c_Clsid (cs ! i) = k)"

lemma machine_classes:
  "distinct (map c_Clsid (done @ cs)) \<Longrightarrow> positions_ok done t \<Longrightarrow>
   \<exists>t'. foldl (add_registration False) (done, t) cs = (done @ cs, t') \<and> positions_ok (done @ cs) t'"
proof (induction cs arbitrary: "done" t)
  case (Cons c cs)
  have "c_Clsid c \<notin> c_Clsid ` set done" using Cons.prems(1) by auto
  then have new: "\<forall>i < length done. c_Clsid (done ! i) \<noteq> c_Clsid c" by (metis image_eqI nth_mem)
  have "tfind (tset (c_Clsid c) (length done) t) k = Some i \<longleftrightarrow> i < length (done @ [c]) \<and> c_Clsid ((done @ [c]) ! i) = k" for k i
  proof (cases "k = c_Clsid c")
    case True
    then show ?thesis using new by (auto simp: tfind_after_set nth_append less_Suc_eq)
  next
    case False
    then show ?thesis using Cons.prems(2) by (auto simp: tfind_after_set positions_ok_def nth_append less_Suc_eq)
  qed
  then have "positions_ok (done @ [c]) (tset (c_Clsid c) (length done) t)" unfolding positions_ok_def by blast
  from Cons.IH [of "done @ [c]", OF _ this] Cons.prems(1) show ?case by (simp add: add_registration_def)
qed auto

lemma update_by_key:
  assumes "distinct (map f xs)" and "i < length xs"
  shows "xs[i := g (xs ! i)] = map (\<lambda>x. if f x = f (xs ! i) then g x else x) xs"
  using assms by (intro nth_equalityI) (auto simp: nth_list_update distinct_conv_nth)

definition hide :: "ComClassRegistration list \<Rightarrow> ComClassRegistration \<Rightarrow> ComClassRegistration" where
  "hide us c = c\<lparr>OverriddenByUser := OverriddenByUser c \<or> c_Clsid c \<in> c_Clsid ` set us\<rparr>"

definition override :: "wstr set \<Rightarrow> ComClassRegistration \<Rightarrow> ComClassRegistration" where
  "override ids c = c\<lparr>OverridesMachine := OverridesMachine c \<or> c_Clsid c \<in> ids\<rparr>"

lemma hide_Nil: "hide [] = id"
  by (auto simp: hide_def)

lemma hide_twice: "hide us (hide vs c) = hide (vs @ us) c"
  by (simp add: hide_def image_Un disj_assoc)

lemma hide_clsid [simp]: "c_Clsid (hide us c) = c_Clsid c"
  by (simp add: hide_def)

lemma positions_hide: "positions_ok (map (hide us) ms) t = positions_ok ms t"
  by (auto simp: positions_ok_def)

lemma add_user_class:
  assumes "distinct (map c_Clsid ms)" and "positions_ok ms t"
  shows "add_registration True (ms @ us, t) c = (map (hide [c]) ms @ us @ [override (c_Clsid ` set ms) c], t)"
proof (cases "tfind t (c_Clsid c)")
  case None
  then have none: "c_Clsid c \<notin> c_Clsid ` set ms" using assms(2) None unfolding positions_ok_def
    by (metis image_iff in_set_conv_nth option.distinct(1))
  have "hide [c] x = x" if "x \<in> set ms" for x
  proof -
    have "c_Clsid x \<noteq> c_Clsid c" using none that by (metis image_eqI)
    then show ?thesis by (simp add: hide_def)
  qed
  then have "map (hide [c]) ms = ms" by (simp add: map_idI)
  then show ?thesis using None none by (simp add: add_registration_def override_def)
next
  case (Some i)
  then have i: "i < length ms" "c_Clsid (ms ! i) = c_Clsid c" using assms(2) by (auto simp: positions_ok_def)
  have "ms[i := (ms ! i)\<lparr>OverriddenByUser := True\<rparr>] = map (\<lambda>x. if c_Clsid x = c_Clsid (ms ! i) then x\<lparr>OverriddenByUser := True\<rparr> else x) ms"
    using update_by_key [OF assms(1) i(1), of "\<lambda>x. x\<lparr>OverriddenByUser := True\<rparr>"] .
  also have "\<dots> = map (hide [c]) ms" using i(2) by (intro map_cong) (auto simp: hide_def)
  finally have first: "ms[i := (ms ! i)\<lparr>OverriddenByUser := True\<rparr>] = map (hide [c]) ms" .
  have "c_Clsid c \<in> c_Clsid ` set ms" using i by (metis image_eqI nth_mem)
  then show ?thesis using Some i first
    by (simp add: add_registration_def override_def nth_append list_update_append)
qed

lemma user_classes:
  "distinct (map c_Clsid ms) \<Longrightarrow> positions_ok ms t \<Longrightarrow>
   foldl (add_registration True) (ms @ us, t) cs = (map (hide cs) ms @ us @ map (override (c_Clsid ` set ms)) cs, t)"
proof (induction cs arbitrary: ms us)
  case Nil
  then show ?case by (simp add: hide_Nil)
next
  case (Cons c cs)
  have "distinct (map c_Clsid (map (hide [c]) ms))" "positions_ok (map (hide [c]) ms) t"
    using Cons.prems by (simp_all add: positions_hide comp_def)
  from Cons.IH [OF this, of "us @ [override (c_Clsid ` set ms) c]"] show ?case
    using Cons.prems by (simp add: add_user_class hide_twice image_image comp_def)
qed

text \<open>A class that the user and the machine both have is listed twice, each time in its hive's order: the user's is marked as
  hiding the machine's, the machine's as hidden; no other class has a mark. (A key has no two subkeys of the same name,
  whatever their case.)\<close>

theorem ReadClasses_marks:
  fixes w wow64 ids
  defines "ms \<equiv> hive_classes w LocalMachine wow64 False ids" and "us \<equiv> hive_classes w CurrentUser wow64 True ids"
  assumes "distinct (map c_Clsid ms)"
  shows "fst (ReadClasses w CurrentUser wow64 True ids (ReadClasses w LocalMachine wow64 False ids ([], []))) =
    map (\<lambda>c. c\<lparr>OverriddenByUser := c_Clsid c \<in> c_Clsid ` set us\<rparr>) ms @
    map (\<lambda>c. c\<lparr>OverridesMachine := c_Clsid c \<in> c_Clsid ` set ms\<rparr>) us"
proof -
  have "positions_ok [] []" by (simp add: positions_ok_def tfind_def)
  from machine_classes [of "[]" ms, OF _ this] assms(3) obtain t where
    t: "ReadClasses w LocalMachine wow64 False ids ([], []) = (ms, t)" "positions_ok ms t"
    by (auto simp: ReadClasses_def ms_def)
  have "fst (ReadClasses w CurrentUser wow64 True ids (ms, t)) = map (hide us) ms @ map (override (c_Clsid ` set ms)) us"
    using user_classes [OF assms(3) t(2), of "[]" us] by (simp add: ReadClasses_def us_def)
  moreover have "map (hide us) ms = map (\<lambda>c. c\<lparr>OverriddenByUser := c_Clsid c \<in> c_Clsid ` set us\<rparr>) ms"
    using hive_marks unfolding ms_def by (intro map_cong refl) (auto simp: hide_def)
  moreover have "map (override (c_Clsid ` set ms)) us = map (\<lambda>c. c\<lparr>OverridesMachine := c_Clsid c \<in> c_Clsid ` set ms\<rparr>) us"
    using hive_marks unfolding us_def by (intro map_cong refl) (auto simp: override_def)
  ultimately show ?thesis by (simp add: t(1))
qed

text \<open>One class in both hives.\<close>

lemma free_files_hive: "map c_Clsid (hive_classes free_files root False perUser []) = [wide ''{1}'']"
proof -
  have "c_Clsid (new_class w k v u ids name) = Upper name" for w k v u ids name
    using ReadClass_marks [of w "sub k name" ids "no_class\<lparr>c_Clsid := Upper name, Wow64 := v, PerUser := u\<rparr>"]
    by (simp add: new_class_def marks_def)
  moreover have "Upper (wide ''{1}'') = wide ''{1}''" by (simp add: Upper_def upper_def wide_def)
  ultimately show ?thesis
    by (simp add: hive_classes_def free_files_def World.defs one_class_def SubKeys_def names_below_def braced_def wide_def)
qed

theorem ReadClasses_marks_witness:
  "map OverriddenByUser (fst (ReadClasses free_files CurrentUser False True [] (ReadClasses free_files LocalMachine False False [] ([], [])))) = [True, False]"
proof -
  let ?ms = "hive_classes free_files LocalMachine False False []" and ?us = "hive_classes free_files CurrentUser False True []"
  obtain m u where one: "?ms = [m]" "?us = [u]" "c_Clsid m = c_Clsid u"
    using free_files_hive [of LocalMachine False] free_files_hive [of CurrentUser True] by (auto simp: map_eq_Cons_conv)
  have "distinct (map c_Clsid ?ms)" by (simp add: one)
  moreover have "\<not> OverriddenByUser u" using hive_marks [of u free_files CurrentUser False True "[]"] by (simp add: one)
  ultimately show ?thesis using ReadClasses_marks [of free_files False "[]"] by (simp add: one)
qed

section \<open>Only approved classes are shown as approved\<close>

lemma approve_marks:
  assumes "\<not> AutoApproved c" and "AutoApproved (approve w c)"
  shows "ElevationEnabled c \<and> \<not> PerUser c \<and> (\<exists>vs. ApprovalList w = Some vs \<and> c_Clsid c \<in> approved vs)"
  using assms by (auto simp: approve_def split: option.splits)

end
