(* ===== verification/Process_Integrity.thy ===== *)
theory Process_Integrity
  imports PE_File Process_Memory Autorun_Images Access_Mask
begin

unbundle bit_operations_syntax

text \<open>
Whether a process is what its image file says (ProcessIntegrity.cpp, ProcessIntegrity.h): CheckImage compares the headers in memory, read with Process_Memory and parsed with PE_File, with those of the mapped file; GetExecutableMemory counts the executable memory that no image backs. The process and the file system are arguments.
\<close>

section \<open>What the process and the files answer\<close>

definition MEM_IMAGE :: u32 where "MEM_IMAGE = 0x1000000"
definition MEM_PRIVATE :: u32 where "MEM_PRIVATE = 0x20000"
definition MEM_MAPPED :: u32 where "MEM_MAPPED = 0x40000"
definition PAGE_EXECUTE :: u32 where "PAGE_EXECUTE = 0x10"
definition PAGE_EXECUTE_READ :: u32 where "PAGE_EXECUTE_READ = 0x20"
definition PAGE_EXECUTE_READWRITE :: u32 where "PAGE_EXECUTE_READWRITE = 0x40"
definition PAGE_EXECUTE_WRITECOPY :: u32 where "PAGE_EXECUTE_WRITECOPY = 0x80"

definition FILE_READ_ATTRIBUTES :: u32 where "FILE_READ_ATTRIBUTES = 0x80"
definition GENERIC_READ :: u32 where "GENERIC_READ = 0x80000000"

record RegionInfo = MemoryInfo +
  RegionType :: u32

text \<open>The \<open>SECTION_IMAGE_INFORMATION\<close> that the kernel keeps of the section the process was created from.\<close>

record SectionImage =
  i_Machine :: u16
  i_CheckSum :: u32
  i_ImageCharacteristics :: u16
  i_DllCharacteristics :: u16
  i_SubSystemType :: u32
  i_ImageFileSize :: u32

text \<open>
  The process: its PEB's address, if there is one, its memory, the names of its mapped files (an address, a buffer's
  size) and of its image, its section. The files: opening a path, and of an open one its identity (volume, file), its
  size, its first bytes; the last error after reading a path.
\<close>

record 'f Target =
  PebBase :: "u64 option"
  Memory :: reader
  QueryMemory :: "u64 \<Rightarrow> RegionInfo option"
  MappedName :: "u64 \<Rightarrow> u32 \<Rightarrow> u32 \<times> nat + wstr"
  ImageFileName :: "wstr option"
  ImageSection :: "SectionImage option"
  OpenFile :: "wstr \<Rightarrow> u32 \<Rightarrow> 'f option"
  FileId :: "'f \<Rightarrow> (u64 \<times> bytes) option"
  FileSize :: "'f \<Rightarrow> u64 option"
  ReadStart :: "'f \<Rightarrow> nat \<Rightarrow> bytes option"
  LastError :: "wstr \<Rightarrow> u32"

datatype ImageIntegrityStatus = Unknown | Ok | FileGone | ImagePrivate | DifferentFile | HeadersDiffer

record ImageIntegrity =
  Status :: ImageIntegrityStatus
  Detail :: wstr
  ImageBase :: u64

record ExecutableMemory =
  PrivateRegions :: u32
  PrivateBytes :: u64
  WritableRegions :: u32
  MappedRegions :: u32
  MappedBytes :: u64

section \<open>Helpers\<close>

definition Hex :: "u64 \<Rightarrow> wstr" where
  "Hex v = wide ''0x'' @ hex_digits (unat v) []"

text \<open>Bytes are widened as the signed characters they are.\<close>

definition Widen :: "bytes \<Rightarrow> wstr" where
  "Widen s = map scast s"

definition MaxHeaders :: nat where "MaxHeaders = 64 * 1024"

definition GetImageFileNtName :: "'f Target \<Rightarrow> wstr" where
  "GetImageFileNtName p = (case ImageFileName p of None \<Rightarrow> [] | Some name \<Rightarrow> name)"

definition OpenNtPath :: "'f Target \<Rightarrow> wstr \<Rightarrow> u32 \<Rightarrow> 'f option" where
  "OpenNtPath p ntPath access = OpenFile p (wide_path ''//?/GLOBALROOT'' @ ntPath) access"

definition GetFileId :: "'f Target \<Rightarrow> wstr \<Rightarrow> (u64 \<times> bytes) option" where
  "GetFileId p ntPath = Option.bind (OpenNtPath p ntPath FILE_READ_ATTRIBUTES) (FileId p)"

definition SameFile :: "'f Target \<Rightarrow> wstr \<Rightarrow> wstr \<Rightarrow> bool" where
  "SameFile p a b =
     (case (GetFileId p a, GetFileId p b) of
        (Some (vol, fid), Some (vol', fid')) \<Rightarrow> vol = vol' \<and> fid = fid'
      | _ \<Rightarrow> False)"

definition IsOwnImageSection :: "'f Target \<Rightarrow> PEFile \<Rightarrow> wstr \<Rightarrow> bool" where
  "IsOwnImageSection p inMemory mappedPath =
     (case ImageSection p of
        None \<Rightarrow> False
      | Some s \<Rightarrow>
          (let h = m_Headers inMemory
           in case Option.bind (OpenNtPath p mappedPath FILE_READ_ATTRIBUTES) (FileSize p) of
                None \<Rightarrow> False
              | Some sz \<Rightarrow>
                  i_Machine s = h_Machine h \<and> i_CheckSum s = h_CheckSum h \<and> i_ImageCharacteristics s = h_Characteristics h \<and>
                  i_DllCharacteristics s = h_DllCharacteristics h \<and> i_SubSystemType s = ucast (h_Subsystem h) \<and>
                  i_ImageFileSize s = ucast sz))"

definition ReadFileHeaders :: "'f Target \<Rightarrow> wstr \<Rightarrow> nat \<Rightarrow> bytes" where
  "ReadFileHeaders p ntPath n =
     (case Option.bind (OpenNtPath p ntPath GENERIC_READ) (\<lambda>f. ReadStart p f n) of None \<Rightarrow> [] | Some data \<Rightarrow> data)"

definition IsExecutable :: "u32 \<Rightarrow> bool" where
  "IsExecutable protect \<longleftrightarrow>
     protect AND (PAGE_EXECUTE OR PAGE_EXECUTE_READ OR PAGE_EXECUTE_READWRITE OR PAGE_EXECUTE_WRITECOPY) \<noteq> 0"

fun StatusText :: "ImageIntegrityStatus \<Rightarrow> wstr" where
  "StatusText Ok = wide ''OK''"
| "StatusText FileGone = wide ''Image file gone''"
| "StatusText ImagePrivate = wide ''Image replaced by private memory''"
| "StatusText DifferentFile = wide ''Another file's image''"
| "StatusText HeadersDiffer = wide ''Image headers differ from the file''"
| "StatusText Unknown = []"

section \<open>Comparing the headers\<close>

definition more :: "wstr \<Rightarrow> wstr" where
  "more diff = (if diff = [] then [] else diff @ wide ''; '')"

definition add_field :: "string \<Rightarrow> u64 \<Rightarrow> u64 \<Rightarrow> wstr \<Rightarrow> wstr" where
  "add_field what inMemory inFile diff =
     (if inMemory = inFile then diff
      else more diff @ wide what @ wide '' '' @ Hex inMemory @ wide '' in memory, '' @ Hex inFile @ wide '' in the file'')"

definition same_section :: "PESection \<Rightarrow> PESection \<Rightarrow> bool" where
  "same_section a b \<longleftrightarrow> s_Name a = s_Name b \<and> s_VirtualAddress a = s_VirtualAddress b \<and> s_VirtualSize a = s_VirtualSize b \<and>
     s_Characteristics a = s_Characteristics b"

text \<open>The first section that differs, of as many as both have; the loop is left at it.\<close>

fun add_section :: "nat \<Rightarrow> PESection list \<Rightarrow> PESection list \<Rightarrow> wstr \<Rightarrow> wstr" where
  "add_section i (a # ms) (b # fs) diff =
     (if \<not> same_section a b then
        more diff @ wide ''section '' @ to_wstring (i + 1) @ wide '' ('' @ Widen (s_Name b) @ wide '') is '' @ Widen (s_Name a) @
          wide '' at '' @ Hex (ucast (s_VirtualAddress a)) @ wide '' in memory''
      else add_section (i + 1) ms fs diff)"
| "add_section i _ _ diff = diff"

definition CompareHeaders :: "PEFile \<Rightarrow> PEFile \<Rightarrow> wstr" where
  "CompareHeaders inMemory inFile =
     (let m = m_Headers inMemory; f = m_Headers inFile;
          diff = add_field ''machine'' (ucast (h_Machine m)) (ucast (h_Machine f)) [];
          diff = add_field ''timestamp'' (ucast (h_TimeDateStamp m)) (ucast (h_TimeDateStamp f)) diff;
          diff = add_field ''entry point'' (ucast (h_EntryPoint m)) (ucast (h_EntryPoint f)) diff;
          diff = add_field ''image size'' (ucast (h_SizeOfImage m)) (ucast (h_SizeOfImage f)) diff;
          diff = add_field ''subsystem'' (ucast (h_Subsystem m)) (ucast (h_Subsystem f)) diff;
          diff = add_field ''sections'' (ucast (h_NumberOfSections m)) (ucast (h_NumberOfSections f)) diff
      in add_section 0 (m_Sections inMemory) (m_Sections inFile) diff)"

section \<open>Checking the image\<close>

definition PebImageBase :: u64 where "PebImageBase = 0x10"

definition image_base :: "'f Target \<Rightarrow> u64 \<Rightarrow> u64 option" where
  "image_base p peb =
     (let (buf, n) = Read_memory (Memory p) (unat (peb + PebImageBase)) 8
      in if n \<noteq> 8 \<or> u64_at buf 0 = 0 then None else Some (u64_at buf 0))"

definition verdict :: "u64 \<Rightarrow> ImageIntegrityStatus \<Rightarrow> wstr \<Rightarrow> ImageIntegrity" where
  "verdict base status detail = \<lparr>Status = status, Detail = detail, ImageBase = base\<rparr>"

definition parsed :: "bytes \<Rightarrow> PEFile option" where
  "parsed data = (case Parse data of Inl _ \<Rightarrow> None | Inr pe \<Rightarrow> Some pe)"

definition no_image :: "ImageIntegrityStatus \<times> wstr" where
  "no_image = (HeadersDiffer, wide ''The headers in memory aren't a PE image's'')"

text \<open>The headers in memory, and how many of the file's bytes are compared with them.\<close>

definition memory_image :: "'f Target \<Rightarrow> u64 \<Rightarrow> (ImageIntegrityStatus \<times> wstr) + (PEFile \<times> nat)" where
  "memory_image p base =
     (let (page, n) = Read_memory (Memory p) (unat base) 4096
      in if n \<noteq> 4096 then Inl (Unknown, wide ''The image's headers can't be read'')
         else case parsed page of
           None \<Rightarrow> Inl no_image
         | Some pe \<Rightarrow>
             (let headerSize = min (unat (h_SizeOfHeaders (m_Headers pe))) MaxHeaders
              in if headerSize > 4096 then
                   (case parsed (fst (Read_memory (Memory p) (unat base) headerSize)) of
                      None \<Rightarrow> Inl no_image
                    | Some pe \<Rightarrow> Inr (pe, headerSize))
                 else Inr (pe, 4096)))"

definition gone_errors :: "u32 list" where
  "gone_errors = [2, 3, 303]"

definition compare_file :: "'f Target \<Rightarrow> u64 \<Rightarrow> PEFile \<Rightarrow> nat \<Rightarrow> wstr \<Rightarrow> wstr \<Rightarrow> ImageIntegrity" where
  "compare_file p base inMemory n mapped detail =
     (let data = ReadFileHeaders p mapped n; error = LastError p mapped
      in if data = [] then
           (if error \<in> set gone_errors then verdict base FileGone (mapped @ wide '' isn't there anymore'')
            else verdict base Unknown (wide ''The image file can't be read (error '' @ to_wstring (unat error) @ wide '')''))
         else case parsed data of
           None \<Rightarrow> verdict base HeadersDiffer (wide ''The file isn't a PE image now'')
         | Some inFile \<Rightarrow>
             (let diff = CompareHeaders inMemory inFile
              in if diff \<noteq> [] then verdict base HeadersDiffer diff else verdict base Ok detail))"

definition compare_names :: "'f Target \<Rightarrow> u64 \<Rightarrow> wstr \<Rightarrow> wstr \<Rightarrow> ImageIntegrity" where
  "compare_names p base fileName mapped =
     (case memory_image p base of
        Inl (status, detail) \<Rightarrow> verdict base status detail
      | Inr (inMemory, n) \<Rightarrow>
          if \<not> same_name mapped fileName \<and> \<not> SameFile p mapped fileName then
            (if \<not> IsOwnImageSection p inMemory mapped then verdict base DifferentFile (mapped @ wide '' is mapped at the image base'')
             else compare_file p base inMemory n mapped (wide ''Renamed since the start: '' @ mapped))
          else compare_file p base inMemory n mapped [])"

definition not_image :: "u64 \<Rightarrow> RegionInfo \<Rightarrow> wstr" where
  "not_image base mbi =
     wide ''The image base '' @ Hex base @
     (if State mbi \<noteq> MEM_COMMIT then wide '' isn't committed''
      else if RegionType mbi = MEM_PRIVATE then wide '' is private memory'' else wide '' is a data file's view'')"

definition CheckImage :: "'f Target \<Rightarrow> ImageIntegrity" where
  "CheckImage p =
     (case PebBase p of
        None \<Rightarrow> verdict 0 Unknown (wide ''No PEB'')
      | Some peb \<Rightarrow>
          case image_base p peb of
            None \<Rightarrow> verdict 0 Unknown (wide ''The PEB can't be read'')
          | Some base \<Rightarrow>
              case QueryMemory p base of
                None \<Rightarrow> verdict base Unknown (wide ''The image base can't be queried'')
              | Some mbi \<Rightarrow>
                  if State mbi \<noteq> MEM_COMMIT \<or> RegionType mbi \<noteq> MEM_IMAGE then verdict base ImagePrivate (not_image base mbi)
                  else
                    (let fileName = GetImageFileNtName p; mapped = GetMappedFileName (MappedName p base)
                     in if fileName = [] then verdict base Unknown (wide ''The image file's name can't be queried'')
                        else if mapped = [] then verdict base FileGone (wide ''The mapped image has no file name'')
                        else compare_names p base fileName mapped))"

section \<open>Executable memory\<close>

definition no_executable :: ExecutableMemory where
  "no_executable = \<lparr>PrivateRegions = 0, PrivateBytes = 0, WritableRegions = 0, MappedRegions = 0, MappedBytes = 0\<rparr>"

definition count_region :: "RegionInfo \<Rightarrow> ExecutableMemory \<Rightarrow> ExecutableMemory" where
  "count_region mbi m =
     (if State mbi = MEM_COMMIT \<and> Protect mbi AND (PAGE_GUARD OR PAGE_NOACCESS) = 0 \<and> IsExecutable (Protect mbi) then
        (if RegionType mbi = MEM_PRIVATE then
           m\<lparr>PrivateRegions := PrivateRegions m + 1, PrivateBytes := PrivateBytes m + of_nat (RegionSize mbi),
             WritableRegions := (if Protect mbi AND (PAGE_EXECUTE_READWRITE OR PAGE_EXECUTE_WRITECOPY) \<noteq> 0
               then WritableRegions m + 1 else WritableRegions m)\<rparr>
         else if RegionType mbi = MEM_MAPPED then
           m\<lparr>MappedRegions := MappedRegions m + 1, MappedBytes := MappedBytes m + of_nat (RegionSize mbi)\<rparr>
         else m)
      else m)"

text \<open>The walk; an address that would not grow (a wrapped one) ends it.\<close>

function count_from :: "(u64 \<Rightarrow> RegionInfo option) \<Rightarrow> u64 \<Rightarrow> u64 \<Rightarrow> ExecutableMemory \<Rightarrow> ExecutableMemory" where
  "count_from q limit address m =
     (if address < limit then
        (case q address of
           None \<Rightarrow> m
         | Some mbi \<Rightarrow>
             (let m = count_region mbi m; beyond = of_nat (BaseAddress mbi) + of_nat (RegionSize mbi)
              in if beyond \<le> address then m else count_from q limit beyond m))
      else m)"
  by pat_completeness auto

termination
  by (relation "measure (\<lambda>(q, limit, address, m). unat limit - unat address)")
     (auto simp: not_le word_less_nat_alt intro!: diff_less_mono2)

declare count_from.simps [simp del]

definition GetExecutableMemory :: "(u64 \<Rightarrow> RegionInfo option) \<Rightarrow> u64 \<Rightarrow> ExecutableMemory option" where
  "GetExecutableMemory q limit = (if q 0 = None then None else Some (count_from q limit 0 no_executable))"

section \<open>When an image passes\<close>

lemma more_empty [simp]: "more d @ x = [] \<longleftrightarrow> d = [] \<and> x = []"
  by (simp add: more_def)

lemma wide_Nil_iff [simp]: "wide s = [] \<longleftrightarrow> s = []"
  by (simp add: wide_def)

lemma add_field_empty [simp]: "add_field what a b d = [] \<longleftrightarrow> a = b \<and> d = []"
  by (simp add: add_field_def)

lemma add_section_empty:
  "add_section i ms fs d = [] \<longleftrightarrow> d = [] \<and> (\<forall>k < min (length ms) (length fs). same_section (ms ! k) (fs ! k))"
proof (induction i ms fs d rule: add_section.induct)
  case (1 i a ms b fs d)
  have "(\<forall>k < min (length (a # ms)) (length (b # fs)). same_section ((a # ms) ! k) ((b # fs) ! k)) \<longleftrightarrow>
      same_section a b \<and> (\<forall>k < min (length ms) (length fs). same_section (ms ! k) (fs ! k))"
    by (auto simp: less_Suc_eq_0_disj)
  then show ?case using 1 by simp
qed simp_all

lemma ucast_same: "(ucast (a :: u32) :: u64) = ucast b \<longleftrightarrow> a = b" "(ucast (c :: u16) :: u64) = ucast d \<longleftrightarrow> c = d"
proof -
  have "(ucast (ucast x :: u64) :: u32) = x" "(ucast (ucast y :: u64) :: u16) = y" for x y
    by (simp_all add: ucast_up_ucast_id is_up)
  then show "(ucast a :: u64) = ucast b \<longleftrightarrow> a = b" "(ucast c :: u64) = ucast d \<longleftrightarrow> c = d" by metis+
qed

text \<open>Two images with the same headers: what a relocation changes (the base, the checksum) left out.\<close>

definition same_image :: "PEFile \<Rightarrow> PEFile \<Rightarrow> bool" where
  "same_image a b \<longleftrightarrow>
     h_Machine (m_Headers a) = h_Machine (m_Headers b) \<and> h_TimeDateStamp (m_Headers a) = h_TimeDateStamp (m_Headers b) \<and>
     h_EntryPoint (m_Headers a) = h_EntryPoint (m_Headers b) \<and> h_SizeOfImage (m_Headers a) = h_SizeOfImage (m_Headers b) \<and>
     h_Subsystem (m_Headers a) = h_Subsystem (m_Headers b) \<and> h_NumberOfSections (m_Headers a) = h_NumberOfSections (m_Headers b) \<and>
     (\<forall>k < min (length (m_Sections a)) (length (m_Sections b)). same_section (m_Sections a ! k) (m_Sections b ! k))"

lemma CompareHeaders_same: "CompareHeaders a b = [] \<longleftrightarrow> same_image a b"
  by (auto simp: CompareHeaders_def Let_def add_section_empty ucast_same same_image_def)

lemma Parse_nothing: "parsed [] = None"
  by (simp add: parsed_def Parse_def At_def sizeof_DOS_def)

lemma compare_file_ok:
  "Status (compare_file p base m n mapped detail) = Ok \<longleftrightarrow>
     (\<exists>f. Parse (ReadFileHeaders p mapped n) = Inr f \<and> same_image m f)"
  using Parse_nothing
  by (auto simp: compare_file_def verdict_def parsed_def CompareHeaders_same Let_def split: sum.splits option.splits)

lemma memory_image_failed: "memory_image p base = Inl (status, detail) \<Longrightarrow> status \<noteq> Ok"
  by (auto simp: memory_image_def no_image_def split: prod.splits option.splits if_splits simp: Let_def)

lemma compare_names_ok:
  "Status (compare_names p base fileName mapped) = Ok \<longleftrightarrow>
     (\<exists>m n f. memory_image p base = Inr (m, n) \<and> Parse (ReadFileHeaders p mapped n) = Inr f \<and> same_image m f \<and>
       (same_name mapped fileName \<or> SameFile p mapped fileName \<or> IsOwnImageSection p m mapped))"
proof (cases "memory_image p base")
  case (Inl a)
  then show ?thesis using memory_image_failed [of p base "fst a" "snd a"]
    by (simp add: compare_names_def verdict_def split_beta)
next
  case (Inr b)
  then show ?thesis by (cases b) (auto simp: compare_names_def compare_file_ok verdict_def)
qed

text \<open>C19: a process's image passes exactly when the PEB's image base is a committed image mapping, its headers in memory parse
  and those of the mapped file too, both with the same machine, times, entry point, sizes, subsystem and sections, and the
  mapped file is the process's: by its name, by its identity, or by the section that the kernel kept.\<close>

theorem CheckImage_ok:
  "Status (CheckImage p) = Ok \<longleftrightarrow>
     (\<exists>peb base mbi mapped m n f.
        PebBase p = Some peb \<and> image_base p peb = Some base \<and> QueryMemory p base = Some mbi \<and>
        State mbi = MEM_COMMIT \<and> RegionType mbi = MEM_IMAGE \<and>
        mapped = GetMappedFileName (MappedName p base) \<and> mapped \<noteq> [] \<and> GetImageFileNtName p \<noteq> [] \<and>
        memory_image p base = Inr (m, n) \<and> Parse (ReadFileHeaders p mapped n) = Inr f \<and> same_image m f \<and>
        (same_name mapped (GetImageFileNtName p) \<or> SameFile p mapped (GetImageFileNtName p) \<or> IsOwnImageSection p m mapped))"
  by (auto simp: CheckImage_def verdict_def compare_names_ok Let_def split: option.splits)

section \<open>The executable memory is that of the regions\<close>

text \<open>Regions that follow one another from an address; what a query finds among them.\<close>

fun tiled :: "nat \<Rightarrow> RegionInfo list \<Rightarrow> bool" where
  "tiled a [] \<longleftrightarrow> a < 2 ^ 64"
| "tiled a (r # rs) \<longleftrightarrow> BaseAddress r = a \<and> 0 < RegionSize r \<and> tiled (a + RegionSize r) rs"

definition region_of :: "RegionInfo list \<Rightarrow> u64 \<Rightarrow> RegionInfo option" where
  "region_of rs a = find (\<lambda>r. BaseAddress r \<le> unat a \<and> unat a < BaseAddress r + RegionSize r) rs"

definition executable :: "RegionInfo \<Rightarrow> bool" where
  "executable r \<longleftrightarrow> State r = MEM_COMMIT \<and> Protect r AND (PAGE_GUARD OR PAGE_NOACCESS) = 0 \<and> IsExecutable (Protect r)"

definition writable :: "RegionInfo \<Rightarrow> bool" where
  "writable r \<longleftrightarrow> Protect r AND (PAGE_EXECUTE_READWRITE OR PAGE_EXECUTE_WRITECOPY) \<noteq> 0"

definition of_kind :: "u32 \<Rightarrow> RegionInfo list \<Rightarrow> RegionInfo list" where
  "of_kind type rs = filter (\<lambda>r. executable r \<and> RegionType r = type) rs"

definition summary :: "RegionInfo list \<Rightarrow> ExecutableMemory" where
  "summary rs =
     \<lparr>PrivateRegions = of_nat (length (of_kind MEM_PRIVATE rs)),
      PrivateBytes = of_nat (sum_list (map RegionSize (of_kind MEM_PRIVATE rs))),
      WritableRegions = of_nat (length (filter writable (of_kind MEM_PRIVATE rs))),
      MappedRegions = of_nat (length (of_kind MEM_MAPPED rs)),
      MappedBytes = of_nat (sum_list (map RegionSize (of_kind MEM_MAPPED rs)))\<rparr>"

lemma kinds_differ: "MEM_PRIVATE \<noteq> MEM_MAPPED"
  by (simp add: MEM_PRIVATE_def MEM_MAPPED_def)

lemma summary_snoc: "summary (rs @ [r]) = count_region r (summary rs)"
  using kinds_differ by (auto simp: summary_def count_region_def of_kind_def executable_def writable_def add.commute)

lemma tiled_bound: "tiled a rs \<Longrightarrow> a < 2 ^ 64"
  by (induction rs arbitrary: a) force+

lemma tiled_after: "tiled a rs \<Longrightarrow> r \<in> set rs \<Longrightarrow> a \<le> BaseAddress r"
  by (induction rs arbitrary: a) force+

lemma tiled_append: "tiled a (pre @ r # rs) \<Longrightarrow> tiled (BaseAddress r) (r # rs) \<and> (\<forall>x \<in> set pre. BaseAddress x + RegionSize x \<le> BaseAddress r)"
proof (induction pre arbitrary: a)
  case (Cons x pre)
  then have "tiled (a + RegionSize x) (pre @ r # rs)" "BaseAddress x = a" by simp_all
  moreover have "a + RegionSize x \<le> BaseAddress r" using tiled_after [OF calculation(1), of r] by simp
  ultimately show ?case using Cons.IH by auto
qed simp

lemma tiled_split:
  assumes "tiled 0 (pre @ r # rs)"
  shows "tiled (BaseAddress r) (r # rs)" "x \<in> set pre \<Longrightarrow> BaseAddress x + RegionSize x \<le> BaseAddress r"
    "unat (of_nat (BaseAddress r) :: u64) = BaseAddress r"
    "unat (of_nat (BaseAddress r) + of_nat (RegionSize r) :: u64) = BaseAddress r + RegionSize r"
proof -
  show t: "tiled (BaseAddress r) (r # rs)" and "x \<in> set pre \<Longrightarrow> BaseAddress x + RegionSize x \<le> BaseAddress r"
    using tiled_append [OF assms] by auto
  have b: "BaseAddress r + RegionSize r < 2 ^ 64" using t tiled_bound by auto
  then show "unat (of_nat (BaseAddress r) :: u64) = BaseAddress r" by (simp add: unat_of_nat)
  have "unat (of_nat (BaseAddress r + RegionSize r) :: u64) = BaseAddress r + RegionSize r" using b by (simp only: unat_of_nat) simp
  then show "unat (of_nat (BaseAddress r) + of_nat (RegionSize r) :: u64) = BaseAddress r + RegionSize r" by simp
qed

lemma region_of_base:
  assumes "tiled 0 (pre @ r # rs)"
  shows "region_of (pre @ r # rs) (of_nat (BaseAddress r)) = Some r"
proof -
  note t = tiled_split [OF assms]
  have "find (\<lambda>x. BaseAddress x \<le> BaseAddress r \<and> BaseAddress r < BaseAddress x + RegionSize x) pre = None"
    using t(2) by (force simp: find_None_iff)
  then show ?thesis using t(1) unfolding region_of_def t(3) by (simp add: find_append)
qed

lemma region_of_end:
  assumes "tiled 0 (pre @ [r])"
  shows "region_of (pre @ [r]) (of_nat (BaseAddress r) + of_nat (RegionSize r)) = None"
  using tiled_split(2) [OF assms] unfolding region_of_def tiled_split(4) [OF assms] by (force simp: find_None_iff)

text \<open>Below the limit.\<close>

definition below :: "u64 \<Rightarrow> RegionInfo list \<Rightarrow> RegionInfo list" where
  "below limit rs = filter (\<lambda>r. BaseAddress r < unat limit) rs"

lemma below_append: "below limit (xs @ ys) = below limit xs @ below limit ys"
  by (simp add: below_def)

lemma tiled_below_none: "tiled a rs \<Longrightarrow> unat limit \<le> a \<Longrightarrow> below limit rs = []"
  by (auto simp: below_def filter_empty_conv dest!: tiled_after)

lemma count_from_step:
  assumes "tiled 0 (pre @ r # rs)"
  shows "count_from (region_of (pre @ r # rs)) limit (of_nat (BaseAddress r)) m =
    (if BaseAddress r < unat limit
     then count_from (region_of (pre @ r # rs)) limit (of_nat (BaseAddress r) + of_nat (RegionSize r)) (count_region r m)
     else m)"
proof -
  note t = tiled_split [OF assms]
  have "(of_nat (BaseAddress r) :: u64) < limit \<longleftrightarrow> BaseAddress r < unat limit" by (simp add: word_less_nat_alt t(3))
  moreover have "\<not> (of_nat (BaseAddress r) + of_nat (RegionSize r) :: u64) \<le> of_nat (BaseAddress r)"
    using t(1) by (simp add: word_le_nat_alt t(3,4) del: of_nat_add)
  ultimately show ?thesis
    by (subst count_from.simps) (simp add: region_of_base [OF assms] Let_def)
qed

lemma count_from_rest:
  "tiled 0 (pre @ r # rs) \<Longrightarrow>
     count_from (region_of (pre @ r # rs)) limit (of_nat (BaseAddress r)) (summary (below limit pre)) =
     summary (below limit (pre @ r # rs))"
proof (induction rs arbitrary: pre r)
  case Nil
  have "count_from (region_of (pre @ [r])) limit (of_nat (BaseAddress r) + of_nat (RegionSize r)) m = m" for m
    by (subst count_from.simps) (simp add: region_of_end [OF Nil])
  then show ?case
    by (simp add: count_from_step [OF Nil] below_append below_def [of _ "[r]"] summary_snoc)
next
  case (Cons r' rs)
  show ?case
  proof (cases "BaseAddress r < unat limit")
    case True
    have next_base: "BaseAddress r' = BaseAddress r + RegionSize r" using tiled_split(1) [OF Cons.prems] by simp
    have "summary (below limit (pre @ [r])) = count_region r (summary (below limit pre))"
      using True by (simp add: below_append below_def [of _ "[r]"] summary_snoc)
    then show ?thesis using Cons.IH [of "pre @ [r]" r'] Cons.prems True
      by (simp add: count_from_step [OF Cons.prems] next_base)
  next
    case False
    then have "below limit (r # r' # rs) = []" using tiled_below_none [OF tiled_split(1) [OF Cons.prems]] by simp
    then show ?thesis using False by (simp add: count_from_step [OF Cons.prems] below_append)
  qed
qed

text \<open>C40: of a process whose regions follow one another from address 0, the executable memory is the count and the size of the
  regions that start below the limit, committed, executable, accessible, and private or mapped.\<close>

theorem GetExecutableMemory_summary:
  assumes "tiled 0 regions" and "regions \<noteq> []"
  shows "GetExecutableMemory (region_of regions) limit = Some (summary (below limit regions))"
proof -
  obtain r rs where r: "regions = r # rs" using assms(2) by (cases regions) auto
  have "tiled 0 ([] @ r # rs)" "BaseAddress r = 0" using assms(1) by (simp_all add: r)
  from count_from_rest [OF this(1), of limit] region_of_base [OF this(1)] this(2) show ?thesis
    by (simp add: r GetExecutableMemory_def below_def summary_def of_kind_def no_executable_def)
qed

definition three_regions :: "RegionInfo list" where
  "three_regions =
     [\<lparr>BaseAddress = 0, RegionSize = 0x1000, State = 0x10000, Protect = 1, RegionType = 0\<rparr>,
      \<lparr>BaseAddress = 0x1000, RegionSize = 0x2000, State = MEM_COMMIT, Protect = PAGE_EXECUTE_READWRITE, RegionType = MEM_PRIVATE\<rparr>,
      \<lparr>BaseAddress = 0x3000, RegionSize = 0x1000, State = MEM_COMMIT, Protect = PAGE_EXECUTE_READ, RegionType = MEM_IMAGE\<rparr>]"

theorem GetExecutableMemory_summary_witness:
  "GetExecutableMemory (region_of three_regions) 0x4000 =
     Some \<lparr>PrivateRegions = 1, PrivateBytes = 0x2000, WritableRegions = 1, MappedRegions = 0, MappedBytes = 0\<rparr>"
proof -
  have t: "tiled 0 three_regions" "three_regions \<noteq> []" by (simp_all add: three_regions_def)
  have "below 0x4000 three_regions = three_regions" by (simp add: below_def three_regions_def)
  moreover have "summary three_regions =
      \<lparr>PrivateRegions = 1, PrivateBytes = 0x2000, WritableRegions = 1, MappedRegions = 0, MappedBytes = 0\<rparr>"
    by code_simp
  ultimately show ?thesis using GetExecutableMemory_summary [OF t, of "0x4000"] by simp
qed

end
