(* ===== verification/Zombies.thy ===== *)
theory Zombies
  imports Handle_Names
begin

unbundle bit_operations_syntax

text \<open>
Zombie processes (Zombies.cpp, Zombies.h): processes that exited and that handles keep, found through the handle table of the system. The answers to the walk (types, owners, duplicates) are an argument; the walk itself, with what it keeps, is modelled.
\<close>

section \<open>The handle table and the zombies\<close>

text \<open>A handle of the system's table; the object's address is 0 when the caller is not elevated.\<close>

record HandleEntry =
  EntryObject :: u64
  UniqueProcessId :: u64
  HandleValue :: u64
  GrantedAccess :: u32
  ObjectTypeIndex :: u16
  HandleAttributes :: u32

record ZombieHolder =
  HolderPid :: u32
  Handle :: u64
  Access :: u32
  Attributes :: u32

record ZombieProcess =
  Pid :: u32
  Object :: u64
  ImagePath :: wstr
  CreateTime :: u64
  ExitTime :: u64
  ExitCode :: u32
  Holders :: "ZombieHolder list"

text \<open>
  What the system answers while the table is gone through: the names of the types, whether a process can be opened for
  duplicating, a duplicate of its handle with the access asked for or its own (\<open>None\<close>), and of a duplicate its times,
  whether it is signaled, its ID, its exit code and its NT name; the DOS name of an NT name.
\<close>

record 'h Answers =
  SelfPid :: u64
  TypeNames :: "wstr list"
  OpensOwner :: "u32 \<Rightarrow> bool"
  DuplicateHandle :: "u64 \<Rightarrow> u64 \<Rightarrow> u32 option \<Rightarrow> 'h option"
  ProcessTimes :: "'h \<Rightarrow> (u64 \<times> u64) option"
  Signaled :: "'h \<Rightarrow> bool"
  ProcessIdOf :: "'h \<Rightarrow> u32"
  ExitCodeOf :: "'h \<Rightarrow> u32 option"
  NtNameOf :: "'h \<Rightarrow> wstr option"
  DosNameOf :: "wstr \<Rightarrow> wstr"

definition PROCESS_QUERY_LIMITED_INFORMATION :: u32 where "PROCESS_QUERY_LIMITED_INFORMATION = 0x1000"
definition SYNCHRONIZE :: u32 where "SYNCHRONIZE = 0x100000"

definition Duplicate :: "'h Answers \<Rightarrow> u64 \<Rightarrow> u64 \<Rightarrow> 'h option" where
  "Duplicate w owner v =
     (case DuplicateHandle w owner v (Some (PROCESS_QUERY_LIMITED_INFORMATION OR SYNCHRONIZE)) of
        None \<Rightarrow> DuplicateHandle w owner v None
      | Some h \<Rightarrow> Some h)"

text \<open>Whether the process exited, with its times.\<close>

definition HasExited :: "'h Answers \<Rightarrow> 'h \<Rightarrow> bool \<times> u64 \<times> u64" where
  "HasExited w h =
     (case ProcessTimes w h of
        Some (created, exited) \<Rightarrow> (exited \<noteq> 0, created, exited)
      | None \<Rightarrow> (Signaled w h, 0, 0))"

section \<open>The walk\<close>

text \<open>What the loop keeps: the types and owners asked for so far, running objects, zombies by object, the zombies.\<close>

record Walk =
  isProcessType :: "(u16, bool) table"
  owners :: "(u64, bool) table"
  live :: "u64 list"
  byObject :: "(u64, nat) table"
  zombies :: "ZombieProcess list"

definition no_walk :: Walk where
  "no_walk = \<lparr>isProcessType = [], owners = [], live = [], byObject = [], zombies = []\<rparr>"

definition process_type :: "'h Answers \<Rightarrow> u16 \<Rightarrow> bool" where
  "process_type w i \<longleftrightarrow> GetName (TypeNames w) i = wide ''Process''"

definition is_process :: "'h Answers \<Rightarrow> u16 \<Rightarrow> Walk \<Rightarrow> bool \<times> Walk" where
  "is_process w i s =
     (case tfind (isProcessType s) i of
        Some b \<Rightarrow> (b, s)
      | None \<Rightarrow> (process_type w i, s\<lparr>isProcessType := tset i (process_type w i) (isProcessType s)\<rparr>))"

definition open_owner :: "'h Answers \<Rightarrow> u64 \<Rightarrow> Walk \<Rightarrow> bool \<times> Walk" where
  "open_owner w pid s =
     (case tfind (owners s) pid of
        Some b \<Rightarrow> (b, s)
      | None \<Rightarrow> (OpensOwner w (ucast pid), s\<lparr>owners := tset pid (OpensOwner w (ucast pid)) (owners s)\<rparr>))"

definition holder_of :: "HandleEntry \<Rightarrow> ZombieHolder" where
  "holder_of e = \<lparr>HolderPid = ucast (UniqueProcessId e), Handle = HandleValue e, Access = GrantedAccess e, Attributes = HandleAttributes e\<rparr>"

definition add_holder :: "HandleEntry \<Rightarrow> ZombieProcess \<Rightarrow> ZombieProcess" where
  "add_holder e z = z\<lparr>Holders := Holders z @ [holder_of e]\<rparr>"

definition image_path :: "'h Answers \<Rightarrow> 'h \<Rightarrow> wstr" where
  "image_path w h =
     (case NtNameOf w h of
        None \<Rightarrow> []
      | Some name \<Rightarrow> if DosNameOf w name = [] then name else DosNameOf w name)"

definition new_zombie :: "'h Answers \<Rightarrow> HandleEntry \<Rightarrow> 'h \<Rightarrow> ZombieProcess" where
  "new_zombie w e h =
     (let (_, created, exited) = HasExited w h
      in \<lparr>Pid = ProcessIdOf w h, Object = EntryObject e, ImagePath = image_path w h, CreateTime = created, ExitTime = exited,
          ExitCode = (case ExitCodeOf w h of None \<Rightarrow> 0 | Some code \<Rightarrow> code), Holders = [holder_of e]\<rparr>)"

text \<open>A handle to an object that was not decided yet, through its duplicate.\<close>

definition same_process :: "u32 \<Rightarrow> u64 \<Rightarrow> ZombieProcess \<Rightarrow> bool" where
  "same_process pid created z \<longleftrightarrow> Pid z = pid \<and> CreateTime z = created"

definition visit_duplicate :: "'h Answers \<Rightarrow> HandleEntry \<Rightarrow> 'h \<Rightarrow> Walk \<Rightarrow> Walk" where
  "visit_duplicate w e h s =
     (let (exited, created, _) = HasExited w h
      in if \<not> exited then (if EntryObject e \<noteq> 0 then s\<lparr>live := EntryObject e # live s\<rparr> else s)
         else
           (case (if EntryObject e = 0 then find (\<lambda>i. same_process (ProcessIdOf w h) created (zombies s ! i)) [0..<length (zombies s)]
                  else None) of
              Some i \<Rightarrow> s\<lparr>zombies := (zombies s)[i := add_holder e (zombies s ! i)]\<rparr>
            | None \<Rightarrow>
                s\<lparr>byObject := (if EntryObject e \<noteq> 0 then tset (EntryObject e) (length (zombies s)) (byObject s) else byObject s),
                  zombies := zombies s @ [new_zombie w e h]\<rparr>))"

definition visit :: "'h Answers \<Rightarrow> HandleEntry \<Rightarrow> Walk \<Rightarrow> Walk" where
  "visit w e s =
     (if UniqueProcessId e = SelfPid w then s
      else
        (let (process, s) = is_process w (ObjectTypeIndex e) s
         in if \<not> process \<or> EntryObject e \<noteq> 0 \<and> EntryObject e \<in> set (live s) then s
            else case (if EntryObject e \<noteq> 0 then tfind (byObject s) (EntryObject e) else None) of
              Some i \<Rightarrow> s\<lparr>zombies := (zombies s)[i := add_holder e (zombies s ! i)]\<rparr>
            | None \<Rightarrow>
                (let (owner, s) = open_owner w (UniqueProcessId e) s
                 in if \<not> owner then s
                    else case Duplicate w (UniqueProcessId e) (HandleValue e) of
                      None \<Rightarrow> s
                    | Some h \<Rightarrow> visit_duplicate w e h s)))"

section \<open>Reading the table\<close>

datatype TableAnswer = Table "HandleEntry list" | TooSmall u32 | Failed u32

definition STATUS_INFO_LENGTH_MISMATCH :: u32 where "STATUS_INFO_LENGTH_MISMATCH = 0xC0000004"

definition next_size :: "u32 \<Rightarrow> u32 \<Rightarrow> u32" where
  "next_size n len = max (n * 2) (len + 0x100000)"

text \<open>At most so many tries; \<open>query k n\<close> is the answer to the try \<open>k\<close> with \<open>n\<close> bytes. An error is its status.\<close>

fun query_table :: "(nat \<Rightarrow> u32 \<Rightarrow> TableAnswer) \<Rightarrow> nat \<Rightarrow> nat \<Rightarrow> u32 \<Rightarrow> u32 + HandleEntry list" where
  "query_table query 0 k n = Inl STATUS_INFO_LENGTH_MISMATCH"
| "query_table query (Suc tries) k n =
     (case query k n of
        Table entries \<Rightarrow> Inr entries
      | Failed status \<Rightarrow> Inl status
      | TooSmall len \<Rightarrow> query_table query tries (Suc k) (next_size n len))"

definition Find :: "(nat \<Rightarrow> u32 \<Rightarrow> TableAnswer) \<Rightarrow> (u32 \<Rightarrow> u32) \<Rightarrow> 'h Answers \<Rightarrow> u32 + ZombieProcess list" where
  "Find query dos_error w =
     (case query_table query 6 0 0x400000 of
        Inl status \<Rightarrow> Inl (dos_error status)
      | Inr entries \<Rightarrow> Inr (zombies (fold (visit w) entries no_walk)))"

section \<open>The types and owners kept do not matter\<close>

definition relevant :: "'h Answers \<Rightarrow> HandleEntry \<Rightarrow> bool" where
  "relevant w e \<longleftrightarrow> UniqueProcessId e \<noteq> SelfPid w \<and> process_type w (ObjectTypeIndex e)"

definition opened :: "'h Answers \<Rightarrow> HandleEntry \<Rightarrow> 'h option" where
  "opened w e = (if OpensOwner w (ucast (UniqueProcessId e)) then Duplicate w (UniqueProcessId e) (HandleValue e) else None)"

definition exits :: "'h Answers \<Rightarrow> HandleEntry \<Rightarrow> bool" where
  "exits w e \<longleftrightarrow> (\<exists>h. opened w e = Some h \<and> fst (HasExited w h))"

definition caches_ok :: "'h Answers \<Rightarrow> Walk \<Rightarrow> bool" where
  "caches_ok w s \<longleftrightarrow>
     (\<forall>i b. tfind (isProcessType s) i = Some b \<longrightarrow> b = process_type w i) \<and>
     (\<forall>p b. tfind (owners s) p = Some b \<longrightarrow> b = OpensOwner w (ucast p))"

type_synonym found = "u64 list \<times> (u64, nat) table \<times> ZombieProcess list"

definition found :: "Walk \<Rightarrow> found" where
  "found s = (live s, byObject s, zombies s)"

text \<open>What a handle does to what was found, without the caches.\<close>

definition decide :: "'h Answers \<Rightarrow> HandleEntry \<Rightarrow> found \<Rightarrow> found" where
  "decide w e f =
     (let (l, b, z) = f
      in if \<not> relevant w e \<or> EntryObject e \<noteq> 0 \<and> EntryObject e \<in> set l then f
         else case (if EntryObject e \<noteq> 0 then tfind b (EntryObject e) else None) of
           Some i \<Rightarrow> (l, b, z[i := add_holder e (z ! i)])
         | None \<Rightarrow>
             (case opened w e of
                None \<Rightarrow> f
              | Some h \<Rightarrow>
                  found (visit_duplicate w e h \<lparr>isProcessType = [], owners = [], live = l, byObject = b, zombies = z\<rparr>)))"

lemma is_process_result:
  assumes "caches_ok w s"
  obtains s' where "is_process w i s = (process_type w i, s')" "caches_ok w s'" "found s' = found s"
    "live s' = live s" "byObject s' = byObject s" "zombies s' = zombies s"
proof (cases "tfind (isProcessType s) i")
  case None
  show thesis
    by (rule that [of "s\<lparr>isProcessType := tset i (process_type w i) (isProcessType s)\<rparr>"])
       (use assms None in \<open>simp_all add: is_process_def caches_ok_def found_def\<close>)
next
  case (Some b)
  then have "b = (process_type w i)" using assms by (simp add: caches_ok_def)
  then show thesis by (intro that [of s]) (simp_all add: is_process_def Some assms)
qed

lemma open_owner_result:
  assumes "caches_ok w s"
  obtains s' where "open_owner w p s = (OpensOwner w (ucast p), s')" "caches_ok w s'" "found s' = found s"
    "live s' = live s" "byObject s' = byObject s" "zombies s' = zombies s"
proof (cases "tfind (owners s) p")
  case None
  show thesis
    by (rule that [of "s\<lparr>owners := tset p (OpensOwner w (ucast p)) (owners s)\<rparr>"])
       (use assms None in \<open>simp_all add: open_owner_def caches_ok_def found_def\<close>)
next
  case (Some b)
  then have "b = (OpensOwner w (ucast p))" using assms by (simp add: caches_ok_def)
  then show thesis by (intro that [of s]) (simp_all add: open_owner_def Some assms)
qed

lemma visit_duplicate_caches: "caches_ok w s \<Longrightarrow> caches_ok w (visit_duplicate w e h s)"
  by (simp add: visit_duplicate_def caches_ok_def split_beta Let_def split: option.split)

lemma visit_duplicate_found:
  assumes "found s = found t"
  shows "found (visit_duplicate w e h s) = found (visit_duplicate w e h t)"
  using assms by (simp add: visit_duplicate_def found_def split_beta Let_def split: option.split)

lemma decided_as:
  assumes "found t = found s"
  shows "found (visit_duplicate w e h \<lparr>isProcessType = [], owners = [], live = live s, byObject = byObject s, zombies = zombies s\<rparr>) =
    found (visit_duplicate w e h t)"
  by (rule visit_duplicate_found) (simp add: assms, simp add: found_def)

lemma caches_ok_zombies: "caches_ok w s \<Longrightarrow> caches_ok w (s\<lparr>zombies := z\<rparr>)"
  by (simp add: caches_ok_def)

lemma visit_decides:
  assumes ok: "caches_ok w s"
  shows "caches_ok w (visit w e s) \<and> found (visit w e s) = decide w e (found s)"
proof (cases "UniqueProcessId e = SelfPid w")
  case True
  then show ?thesis using ok by (simp add: visit_def decide_def relevant_def found_def)
next
  case False
  obtain s1 where s1: "is_process w (ObjectTypeIndex e) s = (process_type w (ObjectTypeIndex e), s1)" "caches_ok w s1"
    "found s1 = found s" "live s1 = live s" "byObject s1 = byObject s" "zombies s1 = zombies s"
    by (rule is_process_result [OF ok])
  obtain s2 where s2: "open_owner w (UniqueProcessId e) s1 = (OpensOwner w (ucast (UniqueProcessId e)), s2)" "caches_ok w s2"
    "found s2 = found s1"
    by (rule open_owner_result [OF s1(2)])
  show ?thesis
  proof (cases "\<not> process_type w (ObjectTypeIndex e) \<or> EntryObject e \<noteq> 0 \<and> EntryObject e \<in> set (live s)")
    case True
    then have "visit w e s = s1" using False s1 by (auto simp: visit_def)
    moreover have "decide w e (found s) = found s" using True by (auto simp: decide_def relevant_def found_def)
    ultimately show ?thesis using s1 by simp
  next
    case undecided: False
    then have rel: "relevant w e" using False by (simp add: relevant_def)
    show ?thesis
    proof (cases "if EntryObject e \<noteq> 0 then tfind (byObject s) (EntryObject e) else None")
      case (Some i)
      then have "visit w e s = s1\<lparr>zombies := (zombies s)[i := add_holder e (zombies s ! i)]\<rparr>"
        using False undecided s1 by (auto simp: visit_def)
      moreover have "decide w e (found s) = (live s, byObject s, (zombies s)[i := add_holder e (zombies s ! i)])"
        using Some undecided rel by (auto simp: decide_def found_def)
      ultimately show ?thesis using s1 by (simp add: caches_ok_zombies found_def)
    next
      case None
      have d: "decide w e (found s) = (case opened w e of None \<Rightarrow> found s | Some h \<Rightarrow> found (visit_duplicate w e h s2))"
        using None undecided rel decided_as [of s2 s w e] s1(3) s2(3)
        by (auto simp: decide_def found_def [of s] split: option.split)
      have "visit w e s = (case opened w e of None \<Rightarrow> s2 | Some h \<Rightarrow> visit_duplicate w e h s2)"
        using None False undecided s1 s2 by (auto simp: visit_def opened_def split: option.splits)
      then show ?thesis using d s1 s2 visit_duplicate_caches [OF s2(2), of e] by (simp split: option.split)
    qed
  qed
qed

lemma Find_decides: "zombies (fold (visit w) entries no_walk) = snd (snd (fold (decide w) entries ([], [], [])))"
proof -
  have "caches_ok w s \<Longrightarrow> found (fold (visit w) entries s) = fold (decide w) entries (found s)" for s
  proof (induction entries arbitrary: s)
    case (Cons e entries)
    then show ?case using visit_decides [OF Cons.prems, of e] by simp
  qed simp
  from this [of no_walk] have "found (fold (visit w) entries no_walk) = fold (decide w) entries ([], [], [])"
    by (simp add: caches_ok_def no_walk_def found_def)
  then show ?thesis by (simp add: found_def prod_eq_iff)
qed

section \<open>Zombies by address\<close>

text \<open>The handles to an object, from the first that could be duplicated; the zombie they make.\<close>

definition handles_to :: "'h Answers \<Rightarrow> HandleEntry list \<Rightarrow> u64 \<Rightarrow> HandleEntry list" where
  "handles_to w es ob = dropWhile (\<lambda>e. opened w e = None) (filter (\<lambda>e. relevant w e \<and> EntryObject e = ob) es)"

definition zombie_of :: "'h Answers \<Rightarrow> HandleEntry list \<Rightarrow> ZombieProcess" where
  "zombie_of w es = (new_zombie w (hd es) (the (opened w (hd es))))\<lparr>Holders := map holder_of es\<rparr>"

definition judged :: "'h Answers \<Rightarrow> HandleEntry list \<Rightarrow> u64 \<Rightarrow> bool option" where
  "judged w es ob = (case handles_to w es ob of [] \<Rightarrow> None | e # _ \<Rightarrow> Some (exits w e))"

lemma dropWhile_snoc:
  "dropWhile P (xs @ [x]) = (if dropWhile P xs = [] then (if P x then [] else [x]) else dropWhile P xs @ [x])"
  by (induction xs) auto

lemma handles_to_snoc:
  "handles_to w (es @ [e]) ob =
     (if relevant w e \<and> EntryObject e = ob then
        (if handles_to w es ob = [] then (if opened w e = None then [] else [e]) else handles_to w es ob @ [e])
      else handles_to w es ob)"
  by (simp add: handles_to_def dropWhile_snoc)

lemma judged_snoc:
  "judged w (es @ [e]) ob =
     (if relevant w e \<and> EntryObject e = ob \<and> judged w es ob = None then map_option (\<lambda>_. exits w e) (opened w e) else judged w es ob)"
  by (auto simp: judged_def handles_to_snoc split: list.split option.split)

lemma zombie_of_snoc: "es \<noteq> [] \<Longrightarrow> zombie_of w (es @ [e]) = add_holder e (zombie_of w es)"
  by (simp add: zombie_of_def add_holder_def)

lemma new_zombie_of: "opened w e = Some h \<Longrightarrow> new_zombie w e h = zombie_of w [e]"
  by (simp add: zombie_of_def new_zombie_def split_beta Let_def)

lemma Object_zombie_of [simp]: "Object (zombie_of w es) = EntryObject (hd es)"
  by (simp add: zombie_of_def new_zombie_def split_beta Let_def)

lemma Object_add_holder [simp]: "Object (add_holder e z) = Object z"
  by (simp add: add_holder_def)

definition by_address :: "'h Answers \<Rightarrow> HandleEntry list \<Rightarrow> found \<Rightarrow> bool" where
  "by_address w es f \<longleftrightarrow>
     (case f of (l, b, z) \<Rightarrow>
        (\<forall>ob. ob \<in> set l \<longleftrightarrow> judged w es ob = Some False) \<and>
        (\<forall>ob. tfind b ob \<noteq> None \<longleftrightarrow> judged w es ob = Some True) \<and>
        (\<forall>ob i. tfind b ob = Some i \<longleftrightarrow> i < length z \<and> Object (z ! i) = ob) \<and>
        (\<forall>i < length z. z ! i = zombie_of w (handles_to w es (Object (z ! i)))))"

lemma judged_handles: "judged w es ob \<noteq> None \<longleftrightarrow> handles_to w es ob \<noteq> []"
  by (simp add: judged_def split: list.split)

lemma by_address_step:
  assumes inv: "by_address w es f" and ob: "EntryObject e \<noteq> 0"
  shows "by_address w (es @ [e]) (decide w e f)"
proof -
  obtain l b z where f: "f = (l, b, z)" by (cases f) auto
  let ?ob = "EntryObject e"
  have l: "ob \<in> set l \<longleftrightarrow> judged w es ob = Some False" and b: "tfind b ob \<noteq> None \<longleftrightarrow> judged w es ob = Some True"
    and bi: "tfind b ob = Some i \<longleftrightarrow> i < length z \<and> Object (z ! i) = ob"
    and z: "i < length z \<Longrightarrow> z ! i = zombie_of w (handles_to w es (Object (z ! i)))" for ob i
    using inv unfolding f by_address_def prod.case by blast+
  have zo: "judged w es (Object (z ! i)) = Some True" if "i < length z" for i using b bi that by blast
  consider (other) "\<not> relevant w e" | (alive) "relevant w e" "judged w es ?ob = Some False"
    | (known) i where "relevant w e" "tfind b ?ob = Some i"
    | (closed) "relevant w e" "judged w es ?ob = None" "opened w e = None"
    | (running) h where "relevant w e" "judged w es ?ob = None" "opened w e = Some h" "\<not> fst (HasExited w h)"
    | (gone) h where "relevant w e" "judged w es ?ob = None" "opened w e = Some h" "fst (HasExited w h)"
    using b [of ?ob] by (cases "judged w es ?ob"; cases "the (judged w es ?ob)"; cases "opened w e") auto
  then show ?thesis
  proof cases
    case other
    then have "decide w e f = f" by (simp add: decide_def f)
    moreover have "judged w (es @ [e]) = judged w es" "handles_to w (es @ [e]) = handles_to w es"
      using other by (simp_all add: fun_eq_iff judged_snoc handles_to_snoc)
    ultimately show ?thesis using inv by (simp only: by_address_def)
  next
    case alive
    then have d: "decide w e f = (l, b, z)" using ob l by (simp add: decide_def f)
    have new: "Object (z ! i) \<noteq> ?ob" if "i < length z" for i using zo [OF that] alive by auto
    have j: "judged w (es @ [e]) = judged w es" using alive by (auto simp: fun_eq_iff judged_snoc)
    have h: "handles_to w (es @ [e]) (Object (z ! i)) = handles_to w es (Object (z ! i))" if "i < length z" for i
      using new [OF that] by (simp add: handles_to_snoc)
    show ?thesis unfolding d by_address_def prod.case j using l b bi z by (auto simp only: h)
  next
    case known
    then have j: "judged w es ?ob = Some True" and i: "i < length z" "Object (z ! i) = ?ob" using b bi by blast+
    then have d: "decide w e f = (l, b, z[i := add_holder e (z ! i)])" using known ob l by (simp add: decide_def f)
    have ne: "handles_to w es ?ob \<noteq> []" using judged_handles [of w es ?ob] j by simp
    have same: "judged w (es @ [e]) = judged w es" using j by (auto simp: fun_eq_iff judged_snoc)
    have objects: "Object (z[i := add_holder e (z ! i)] ! k) = Object (z ! k)" for k
      using i by (cases "k = i") auto
    have new: "Object (z ! k) \<noteq> ?ob" if "k < length z" "k \<noteq> i" for k using bi [of ?ob k] known that by auto
    have rest: "z[i := add_holder e (z ! i)] ! k = zombie_of w (handles_to w (es @ [e]) (Object (z ! k)))" if k: "k < length z" for k
    proof (cases "k = i")
      case True
      have "z ! i = zombie_of w (handles_to w es ?ob)" using z [OF i(1)] i(2) by simp
      then show ?thesis using True i known(1) zombie_of_snoc [OF ne, of w e] ne by (simp add: handles_to_snoc)
    next
      case False
      then show ?thesis using new [OF k] z [OF k] by (simp add: handles_to_snoc)
    qed
    show ?thesis unfolding d by_address_def prod.case same objects length_list_update using l b bi rest by blast
  next
    case closed
    then have "tfind b ?ob = None" "?ob \<notin> set l" using b [of ?ob] l [of ?ob] by auto
    then have d: "decide w e f = f" using closed ob by (simp add: decide_def f)
    have "handles_to w es ?ob = []" using judged_handles [of w es ?ob] closed by simp
    then have "judged w (es @ [e]) = judged w es" "handles_to w (es @ [e]) = handles_to w es"
      using closed by (auto simp: fun_eq_iff judged_snoc handles_to_snoc)
    then show ?thesis using inv d by (simp only: by_address_def)
  next
    case running
    then have "tfind b ?ob = None" "?ob \<notin> set l" using b [of ?ob] l [of ?ob] by auto
    then have d: "decide w e f = (?ob # l, b, z)"
      using running ob by (simp add: decide_def f visit_duplicate_def found_def split_beta Let_def)
    have "exits w e = False" using running by (simp add: exits_def)
    then have j: "judged w (es @ [e]) = (judged w es)(?ob := Some False)" using running by (auto simp: fun_eq_iff judged_snoc)
    have new: "Object (z ! i) \<noteq> ?ob" if "i < length z" for i using zo [OF that] running by auto
    have h: "handles_to w (es @ [e]) (Object (z ! i)) = handles_to w es (Object (z ! i))" if "i < length z" for i
      using new [OF that] by (simp add: handles_to_snoc)
    have b': "tfind b k \<noteq> None \<longleftrightarrow> ((judged w es)(?ob := Some False)) k = Some True" for k
      using b [of k] running by simp
    show ?thesis unfolding d by_address_def prod.case j using l b' bi z by (auto simp only: h fun_upd_apply list.set split: if_splits)
  next
    case gone
    then have none: "tfind b ?ob = None" "?ob \<notin> set l" using b [of ?ob] l [of ?ob] by auto
    then have d: "decide w e f = (l, tset ?ob (length z) b, z @ [zombie_of w [e]])"
      using gone ob new_zombie_of [of w e h] by (simp add: decide_def f visit_duplicate_def found_def split_beta Let_def)
    have ex: "exits w e" using gone by (simp add: exits_def)
    have new: "Object (z ! i) \<noteq> ?ob" if "i < length z" for i using zo [OF that] gone by auto
    have h: "handles_to w (es @ [e]) ?ob = [e]"
      using judged_handles [of w es ?ob] gone by (simp add: handles_to_snoc)
    show ?thesis unfolding d by_address_def prod.case
    proof (intro conjI allI impI)
      fix ob i
      show "(ob \<in> set l) = (judged w (es @ [e]) ob = Some False)" using l [of ob] l [of ?ob] gone ex by (simp add: judged_snoc)
      show "(tfind (tset ?ob (length z) b) ob \<noteq> None) = (judged w (es @ [e]) ob = Some True)"
        using b [of ob] gone ex by (simp add: judged_snoc)
      show "(tfind (tset ?ob (length z) b) ob = Some i) = (i < length (z @ [zombie_of w [e]]) \<and> Object ((z @ [zombie_of w [e]]) ! i) = ob)"
        using bi [of ob i] new [of i] by (auto simp: nth_append less_Suc_eq)
      assume i: "i < length (z @ [zombie_of w [e]])"
      show "(z @ [zombie_of w [e]]) ! i = zombie_of w (handles_to w (es @ [e]) (Object ((z @ [zombie_of w [e]]) ! i)))"
      proof (cases "i < length z")
        case True
        then show ?thesis using z [OF True] new [OF True] by (simp add: nth_append handles_to_snoc)
      next
        case False
        then show ?thesis using i h by (simp add: nth_append)
      qed
    qed
  qed
qed

lemma by_address_fold:
  "\<forall>e \<in> set es. EntryObject e \<noteq> 0 \<Longrightarrow> by_address w es (fold (decide w) es ([], [], []))"
proof (induction es rule: rev_induct)
  case Nil
  show ?case by (simp add: by_address_def judged_def handles_to_def)
next
  case (snoc e es)
  then show ?case using by_address_step [of w es _ e] by simp
qed

text \<open>C20: with the objects' addresses, each zombie is listed once: exactly the objects whose first handle that could be
  duplicated showed an exited process, each as that handle tells of it, with every handle to it from that one on, in the
  table's order. A process that runs is never listed.\<close>

theorem Find_by_address:
  assumes "\<forall>e \<in> set entries. EntryObject e \<noteq> 0" and "query_table query 6 0 0x400000 = Inr entries"
  shows "\<exists>zs. Find query dos_error w = Inr zs \<and> distinct (map Object zs) \<and>
    set zs = {zombie_of w (handles_to w entries ob) | ob. judged w entries ob = Some True}"
proof -
  obtain l b z where f: "fold (decide w) entries ([], [], []) = (l, b, z)" by (metis prod_cases3)
  have inv: "by_address w entries (l, b, z)" using by_address_fold [OF assms(1), of w] by (simp only: f)
  have b: "tfind b ob \<noteq> None \<longleftrightarrow> judged w entries ob = Some True" and bi: "tfind b ob = Some i \<longleftrightarrow> i < length z \<and> Object (z ! i) = ob"
    and z: "i < length z \<Longrightarrow> z ! i = zombie_of w (handles_to w entries (Object (z ! i)))" for ob i
    using inv unfolding by_address_def prod.case by blast+
  have "Find query dos_error w = Inr z" using assms(2) by (simp add: Find_def Find_decides f)
  moreover have "distinct (map Object z)"
  proof -
    have "i = k" if "i < length z" "k < length z" "Object (z ! i) = Object (z ! k)" for i k
      using bi [of "Object (z ! i)" i] bi [of "Object (z ! i)" k] that by simp
    then show ?thesis by (auto simp: distinct_conv_nth)
  qed
  moreover have "set z = {zombie_of w (handles_to w entries ob) | ob. judged w entries ob = Some True}"
  proof (intro set_eqI iffI)
    fix x assume "x \<in> set z"
    then obtain i where "i < length z" "z ! i = x" by (auto simp: in_set_conv_nth)
    then show "x \<in> {zombie_of w (handles_to w entries ob) | ob. judged w entries ob = Some True}" using z b bi by blast
  next
    fix x assume "x \<in> {zombie_of w (handles_to w entries ob) | ob. judged w entries ob = Some True}"
    then obtain ob i where ob: "x = zombie_of w (handles_to w entries ob)" "tfind b ob = Some i" using b by blast
    then have "i < length z" "z ! i = x" using bi z by (metis)+
    then show "x \<in> set z" by (auto simp: in_set_conv_nth)
  qed
  ultimately show ?thesis by blast
qed

text \<open>Four handles: three to a process that exited, the first of them in a process that cannot be opened, and one to a process
  that runs.\<close>

definition handle :: "u64 \<Rightarrow> u64 \<Rightarrow> u64 \<Rightarrow> HandleEntry" where
  "handle object pid v =
     \<lparr>EntryObject = object, UniqueProcessId = pid, HandleValue = v, GrantedAccess = 0, ObjectTypeIndex = 1, HandleAttributes = 0\<rparr>"

definition small_answers :: "u64 Answers" where
  "small_answers =
     \<lparr>SelfPid = 9, TypeNames = [[], wide ''Process''], OpensOwner = (\<lambda>p. p \<noteq> 8), DuplicateHandle = (\<lambda>_ v _. Some v),
      ProcessTimes = (\<lambda>h. Some (h, if h = 3 then 0 else 7)), Signaled = (\<lambda>_. False), ProcessIdOf = (\<lambda>_. 5),
      ExitCodeOf = (\<lambda>_. Some 1), NtNameOf = (\<lambda>_. None), DosNameOf = (\<lambda>n. n)\<rparr>"

definition small_table :: "HandleEntry list" where
  "small_table = [handle 0x10 8 1, handle 0x10 4 1, handle 0x20 4 3, handle 0x10 6 1]"

lemmas small_simps = small_answers_def small_table_def handle_def relevant_def opened_def exits_def HasExited_def Duplicate_def
  process_type_def GetName_def

lemma six: "(6 :: nat) = Suc 5"
  by simp

lemma query_once: "query_table (\<lambda>_ _. Table t) 6 k n = Inr t"
  by (subst six) (simp only: query_table.simps TableAnswer.case)

theorem Find_by_address_witness:
  "\<exists>zs. Find (\<lambda>_ _. Table small_table) (\<lambda>s. s) small_answers = Inr zs \<and> distinct (map Object zs) \<and>
    (\<exists>z \<in> set zs. Object z = 0x10 \<and> map HolderPid (Holders z) = [4, 6])"
proof -
  have "\<forall>e \<in> set small_table. EntryObject e \<noteq> 0" by (simp add: small_table_def handle_def)
  from Find_by_address [OF this query_once, of "\<lambda>s. s" small_answers]
  obtain zs where zs: "Find (\<lambda>_ _. Table small_table) (\<lambda>s. s) small_answers = Inr zs" "distinct (map Object zs)"
    "set zs = {zombie_of small_answers (handles_to small_answers small_table k) | k. judged small_answers small_table k = Some True}"
    by blast
  have h: "handles_to small_answers small_table 0x10 = [handle 0x10 4 1, handle 0x10 6 1]"
    by (simp add: handles_to_def small_simps)
  then have "judged small_answers small_table 0x10 = Some True" by (simp add: judged_def small_simps)
  moreover have "Object (zombie_of small_answers (handles_to small_answers small_table 0x10)) = 0x10 \<and>
      map HolderPid (Holders (zombie_of small_answers (handles_to small_answers small_table 0x10))) = [4, 6]"
    by (simp add: h) (simp add: zombie_of_def new_zombie_def holder_of_def small_simps)
  moreover have "zombie_of small_answers (handles_to small_answers small_table 0x10) \<in> set zs"
    unfolding zs(3) using calculation(1) by blast
  ultimately show ?thesis using zs(1,2)
    by (intro exI [of _ zs] conjI bexI [of _ "zombie_of small_answers (handles_to small_answers small_table 0x10)"]) simp_all
qed

text \<open>
  A handle that comes before the first that could be duplicated is left out of the holders (process 8 holds the object
  too), while one after it that could not be duplicated either is listed.
\<close>

lemma early_holder_missing:
  "map HolderPid (concat (map Holders (zombies (fold (visit small_answers) small_table no_walk)))) = [4, 6]"
  "map HolderPid (concat (map Holders (zombies (fold (visit small_answers) (rev small_table) no_walk)))) = [6, 4, 8]"
  unfolding Find_decides
  by (simp_all add: decide_def visit_duplicate_def found_def new_zombie_def add_holder_def holder_of_def small_simps tset_def tfind_def)

section \<open>Zombies without addresses\<close>

definition gone :: "'h Answers \<Rightarrow> HandleEntry \<Rightarrow> bool" where
  "gone w e \<longleftrightarrow> relevant w e \<and> exits w e"

definition process_key :: "'h Answers \<Rightarrow> HandleEntry \<Rightarrow> u32 \<times> u64" where
  "process_key w e = (let h = the (opened w e) in (ProcessIdOf w h, fst (snd (HasExited w h))))"

definition handles_of :: "'h Answers \<Rightarrow> HandleEntry list \<Rightarrow> u32 \<times> u64 \<Rightarrow> HandleEntry list" where
  "handles_of w es k = filter (\<lambda>e. gone w e \<and> process_key w e = k) es"

definition zombie_key :: "ZombieProcess \<Rightarrow> u32 \<times> u64" where
  "zombie_key z = (Pid z, CreateTime z)"

lemma zombie_key_of: "opened w (hd es) = Some h \<Longrightarrow> zombie_key (zombie_of w es) = process_key w (hd es)"
  by (simp add: zombie_key_def process_key_def zombie_of_def new_zombie_def split_beta Let_def)

lemma zombie_key_add_holder [simp]: "zombie_key (add_holder e z) = zombie_key z"
  by (simp add: zombie_key_def add_holder_def)

lemma gone_opened: "gone w e \<Longrightarrow> \<exists>h. opened w e = Some h \<and> fst (HasExited w h)"
  by (auto simp: gone_def exits_def)

lemma decide_zero:
  assumes "EntryObject e = 0"
  shows "decide w e (l, b, z) =
    (l, b,
     if gone w e then
       (case find (\<lambda>i. zombie_key (z ! i) = process_key w e) [0..<length z] of
          Some i \<Rightarrow> z[i := add_holder e (z ! i)]
        | None \<Rightarrow> z @ [zombie_of w [e]])
     else z)"
proof (cases "gone w e")
  case True
  then obtain h where h: "opened w e = Some h" "fst (HasExited w h)" using gone_opened by blast
  have "(\<lambda>i. same_process (ProcessIdOf w h) (fst (snd (HasExited w h))) (z ! i)) = (\<lambda>i. zombie_key (z ! i) = process_key w e)"
    using h by (auto simp: fun_eq_iff same_process_def zombie_key_def process_key_def Let_def)
  then show ?thesis using True h assms new_zombie_of [OF h(1)]
    by (simp add: decide_def gone_def visit_duplicate_def found_def split_beta Let_def split: option.split)
next
  case False
  then show ?thesis using assms
    by (auto simp: decide_def gone_def exits_def visit_duplicate_def found_def split_beta Let_def split: option.split)
qed

definition by_key :: "'h Answers \<Rightarrow> HandleEntry list \<Rightarrow> ZombieProcess list \<Rightarrow> bool" where
  "by_key w es z \<longleftrightarrow>
     distinct (map zombie_key z) \<and> set (map zombie_key z) = process_key w ` {e \<in> set es. gone w e} \<and>
     (\<forall>i < length z. z ! i = zombie_of w (handles_of w es (zombie_key (z ! i))))"

lemma handles_of_snoc:
  "handles_of w (es @ [e]) k = handles_of w es k @ (if gone w e \<and> process_key w e = k then [e] else [])"
  by (simp add: handles_of_def)

lemma by_key_step:
  assumes inv: "by_key w es z" and zero: "EntryObject e = 0"
  shows "by_key w (es @ [e]) (snd (snd (decide w e (l, b, z))))"
proof -
  let ?k = "process_key w e"
  have dist: "distinct (map zombie_key z)" and keys: "zombie_key ` set z = process_key w ` {e \<in> set es. gone w e}"
    and z: "i < length z \<Longrightarrow> z ! i = zombie_of w (handles_of w es (zombie_key (z ! i)))" for i
    using inv by (simp_all add: by_key_def)
  show ?thesis
  proof (cases "gone w e")
    case False
    then have "{x \<in> set (es @ [e]). gone w x} = {x \<in> set es. gone w x}" by auto
    moreover have "handles_of w (es @ [e]) = handles_of w es" using False by (simp add: fun_eq_iff handles_of_snoc)
    ultimately show ?thesis using inv False by (simp add: decide_zero [OF zero] by_key_def)
  next
    case True
    then have new_keys: "process_key w ` {x \<in> set (es @ [e]). gone w x} = insert ?k (zombie_key ` set z)" by (auto simp: keys)
    show ?thesis
    proof (cases "find (\<lambda>i. zombie_key (z ! i) = ?k) [0..<length z]")
      case None
      then have out: "?k \<notin> zombie_key ` set z" by (auto simp: find_None_iff in_set_conv_nth)
      have "\<not> (gone w x \<and> process_key w x = ?k)" if x: "x \<in> set es" for x
      proof
        assume "gone w x \<and> process_key w x = ?k"
        then have "?k \<in> process_key w ` {y \<in> set es. gone w y}" using x by (intro image_eqI [of _ _ x]) simp_all
        then show False using out unfolding keys by contradiction
      qed
      then have empty: "handles_of w es ?k = []"
        unfolding handles_of_def filter_empty_conv by blast
      have other: "zombie_key (z ! i) \<noteq> ?k" if "i < length z" for i using out that by (metis image_eqI nth_mem)
      obtain h where h: "opened w e = Some h" using gone_opened [OF True] by blast
      have key: "zombie_key (zombie_of w [e]) = ?k" using zombie_key_of [of w "[e]" h] h by simp
      have "(z @ [zombie_of w [e]]) ! i = zombie_of w (handles_of w (es @ [e]) (zombie_key ((z @ [zombie_of w [e]]) ! i)))"
        if i: "i < length (z @ [zombie_of w [e]])" for i
      proof (cases "i < length z")
        case less: True
        have "handles_of w (es @ [e]) (zombie_key (z ! i)) = handles_of w es (zombie_key (z ! i))"
          using other [OF less] by (simp add: handles_of_snoc)
        then show ?thesis using z [OF less] less by (simp only: nth_append if_True)
      next
        case False
        then show ?thesis using i key empty True by (simp add: nth_append handles_of_snoc)
      qed
      moreover have "snd (snd (decide w e (l, b, z))) = z @ [zombie_of w [e]]" using None True by (simp add: decide_zero [OF zero])
      ultimately show ?thesis unfolding by_key_def new_keys using dist key out by simp
    next
      case (Some i)
      then have i: "i < length z" "zombie_key (z ! i) = ?k" by (auto simp: find_Some_iff)
      have "?k \<in> zombie_key ` set z" using i by (metis image_eqI nth_mem)
      then have ne: "handles_of w es ?k \<noteq> []" using keys by (force simp: handles_of_def filter_empty_conv)
      let ?z = "z[i := add_holder e (z ! i)]"
      have map_keys: "map zombie_key ?z = map zombie_key z" using i by (simp add: map_update list_update_same_conv)
      have "?z ! j = zombie_of w (handles_of w (es @ [e]) (zombie_key (?z ! j)))" if j: "j < length ?z" for j
      proof (cases "j = i")
        case same: True
        have "z ! i = zombie_of w (handles_of w es ?k)" using z [OF i(1)] i(2) by simp
        then show ?thesis using same i True zombie_of_snoc [OF ne, of w e] by (simp add: handles_of_snoc)
      next
        case False
        then have "zombie_key (z ! j) \<noteq> ?k" using dist i j by (metis distinct_conv_nth length_list_update length_map nth_map)
        then have "handles_of w (es @ [e]) (zombie_key (z ! j)) = handles_of w es (zombie_key (z ! j))"
          by (simp add: handles_of_snoc)
        moreover have "?z ! j = z ! j" using False by simp
        ultimately show ?thesis using z [of j] j by (simp only: length_list_update)
      qed
      moreover have "set (map zombie_key ?z) = insert ?k (zombie_key ` set z)"
        unfolding map_keys using \<open>?k \<in> _\<close> by auto
      moreover have "snd (snd (decide w e (l, b, z))) = ?z" using Some True by (simp add: decide_zero [OF zero])
      ultimately show ?thesis unfolding by_key_def new_keys using dist map_keys by metis
    qed
  qed
qed

lemma by_key_fold:
  "\<forall>e \<in> set es. EntryObject e = 0 \<Longrightarrow> by_key w es (snd (snd (fold (decide w) es ([], [], []))))"
proof (induction es rule: rev_induct)
  case Nil
  show ?case by (simp add: by_key_def)
next
  case (snoc e es)
  obtain l b z where f: "fold (decide w) es ([], [], []) = (l, b, z)" by (metis prod_cases3)
  show ?case using by_key_step [of w es z e l b] snoc by (simp add: f)
qed

text \<open>Without the objects' addresses each zombie is listed once too, told by its ID and creation time: exactly the
  processes that a handle showed to have exited, each with all the handles that show it, in the table's order.\<close>

theorem Find_by_key:
  assumes "\<forall>e \<in> set entries. EntryObject e = 0" and "query_table query 6 0 0x400000 = Inr entries"
  shows "\<exists>zs. Find query dos_error w = Inr zs \<and> distinct (map zombie_key zs) \<and>
    set zs = (\<lambda>k. zombie_of w (handles_of w entries k)) ` process_key w ` {e \<in> set entries. gone w e}"
proof -
  let ?z = "snd (snd (fold (decide w) entries ([], [], [])))"
  have inv: "by_key w entries ?z" by (rule by_key_fold [OF assms(1)])
  have keys: "zombie_key ` set ?z = process_key w ` {e \<in> set entries. gone w e}"
    using inv by (simp add: by_key_def)
  have z: "i < length ?z \<Longrightarrow> ?z ! i = zombie_of w (handles_of w entries (zombie_key (?z ! i)))" for i
    using inv unfolding by_key_def by blast
  have each: "x = zombie_of w (handles_of w entries (zombie_key x))" if x: "x \<in> set ?z" for x
  proof -
    obtain i where "i < length ?z" "?z ! i = x" using x by (auto simp: in_set_conv_nth)
    then show ?thesis using z [of i] by simp
  qed
  have "set ?z = (\<lambda>k. zombie_of w (handles_of w entries k)) ` zombie_key ` set ?z"
    using each by (auto simp: image_image intro!: image_eqI)
  moreover have "Find query dos_error w = Inr ?z" using assms(2) by (simp add: Find_def Find_decides)
  moreover have "distinct (map zombie_key ?z)" using inv by (simp add: by_key_def)
  ultimately show ?thesis unfolding keys by blast
qed

definition hidden_table :: "HandleEntry list" where
  "hidden_table = [handle 0 8 1, handle 0 4 1, handle 0 4 3, handle 0 6 1]"

theorem Find_by_key_witness:
  "\<exists>zs. Find (\<lambda>_ _. Table hidden_table) (\<lambda>s. s) small_answers = Inr zs \<and> distinct (map zombie_key zs) \<and>
    (\<exists>z \<in> set zs. zombie_key z = (5, 1) \<and> map HolderPid (Holders z) = [4, 6])"
proof -
  have zero: "\<forall>e \<in> set hidden_table. EntryObject e = 0" by (simp add: hidden_table_def handle_def)
  from Find_by_key [OF zero query_once, of "\<lambda>s. s" small_answers]
  obtain zs where zs: "Find (\<lambda>_ _. Table hidden_table) (\<lambda>s. s) small_answers = Inr zs" "distinct (map zombie_key zs)"
    "set zs = (\<lambda>k. zombie_of small_answers (handles_of small_answers hidden_table k)) `
      process_key small_answers ` {e \<in> set hidden_table. gone small_answers e}" by blast
  let ?e = "handle 0 4 1"
  have gone: "gone small_answers ?e" and key: "process_key small_answers ?e = (5, 1)"
    by (simp_all add: gone_def process_key_def small_simps)
  have h: "handles_of small_answers hidden_table (5, 1) = [handle 0 4 1, handle 0 6 1]"
    by (simp add: handles_of_def gone_def process_key_def hidden_table_def small_simps)
  have "zombie_of small_answers (handles_of small_answers hidden_table (process_key small_answers ?e)) \<in> set zs"
    unfolding zs(3) using gone by (auto simp: hidden_table_def)
  then have "zombie_of small_answers [handle 0 4 1, handle 0 6 1] \<in> set zs" by (simp only: key h)
  moreover have "zombie_key (zombie_of small_answers [handle 0 4 1, handle 0 6 1]) = (5, 1) \<and>
      map HolderPid (Holders (zombie_of small_answers [handle 0 4 1, handle 0 6 1])) = [4, 6]"
    by (simp add: zombie_key_def zombie_of_def new_zombie_def holder_of_def small_simps)
  ultimately show ?thesis using zs(1,2)
    by (intro exI [of _ zs] conjI bexI [of _ "zombie_of small_answers [handle 0 4 1, handle 0 6 1]"]) simp_all
qed

section \<open>The table is read\<close>

text \<open>A system that needs a fixed number of bytes, and says so, gives its table at the second try at the latest.\<close>

lemma query_table_second:
  assumes "\<And>k n. query k n = (if n < need then TooSmall need else Table entries)" and "need \<le> 0xFFEFFFFF"
  shows "query_table query 6 0 0x400000 = Inr entries"
proof -
  have "need \<le> need + 0x100000" using assms(2) by (simp add: word_le_nat_alt unat_word_ariths)
  then have fits: "\<not> next_size n need < need" for n by (simp add: next_size_def not_less le_max_iff_disj)
  have five: "(5 :: nat) = Suc 4" by simp
  have "query_table query 5 k n = Inr entries" if "\<not> n < need" for k n
    by (subst five) (simp only: query_table.simps assms(1) that if_False TableAnswer.case)
  with fits have again: "query_table query 5 (Suc 0) (next_size 0x400000 need) = Inr entries" by blast
  show ?thesis
    by (subst six) (simp only: query_table.simps assms(1) again TableAnswer.case split: if_split, simp)
qed

end
